(* ===== verification/Prelude.thy ===== *)
theory Prelude
  imports Main
begin

text \<open>
  What every theory of the development shares: the errors the services throw as values of a sum
  type, the sequencing of fallible steps, and the collections its automation uses.

  The TypeScript code reports failure by throwing. A function that may throw is modelled by one
  that returns \<open>http_error + 'a\<close>, with \<open>Inl\<close> the exception and \<open>Inr\<close> the value returned; the
  constructors of \<open>http_error\<close> are the exception classes the code throws; \<open>DriverError\<close> is an error of a
  database driver, with its \<open>code\<close> when it has one and its message.
\<close>

named_theorems text_simps \<open>equations of the string operations\<close>
named_theorems res_simps \<open>equations of the sequencing of fallible steps\<close>

subsection \<open>Exceptions as values\<close>

datatype http_error =
    PlainError string
  | BadRequest string
  | Forbidden string
  | NotFound string
  | Conflict string
  | Unprocessable string
  | ServiceUnavailable string
  | DriverError "string option" string

type_synonym 'a res = "http_error + 'a"

fun res_bind :: "'e + 'a \<Rightarrow> ('a \<Rightarrow> 'e + 'b) \<Rightarrow> 'e + 'b" where
  "res_bind (Inl e) f = Inl e"
| "res_bind (Inr x) f = f x"

fun res_map :: "('a \<Rightarrow> 'b) \<Rightarrow> 'e + 'a \<Rightarrow> 'e + 'b" where
  "res_map f (Inl e) = Inl e"
| "res_map f (Inr x) = Inr (f x)"

definition require :: "bool \<Rightarrow> 'e \<Rightarrow> 'e + unit" where
  "require b e = (if b then Inr () else Inl e)"

fun traverse :: "('a \<Rightarrow> 'e + 'b) \<Rightarrow> 'a list \<Rightarrow> 'e + 'b list" where
  "traverse f [] = Inr []"
| "traverse f (x # xs) = res_bind (f x) (\<lambda>y. res_bind (traverse f xs) (\<lambda>ys. Inr (y # ys)))"

lemma res_bind_Inr_iff [res_simps]:
  "res_bind r f = Inr y \<longleftrightarrow> (\<exists>x. r = Inr x \<and> f x = Inr y)"
  by (cases r) auto

lemma res_bind_Inl_iff [res_simps]:
  "res_bind r f = Inl e \<longleftrightarrow> r = Inl e \<or> (\<exists>x. r = Inr x \<and> f x = Inl e)"
  by (cases r) auto

lemma res_map_Inr_iff [res_simps]: "res_map f r = Inr y \<longleftrightarrow> (\<exists>x. r = Inr x \<and> y = f x)"
  by (cases r) auto

lemma res_map_Inl_iff [res_simps]: "res_map f r = Inl e \<longleftrightarrow> r = Inl e"
  by (cases r) auto

lemma res_map_ok: "(\<exists>y. res_map f r = Inr y) \<longleftrightarrow> (\<exists>x. r = Inr x)"
  by (cases r) auto

lemma require_Inr_iff [res_simps]: "require b e = Inr u \<longleftrightarrow> b"
  by (simp add: require_def)

lemma require_Inl_iff [res_simps]: "require b e = Inl e' \<longleftrightarrow> \<not> b \<and> e' = e"
  by (auto simp: require_def)

lemma require_True [simp]: "require True e = Inr ()"
  by (simp add: require_def)

lemma require_False [simp]: "require False e = Inl e"
  by (simp add: require_def)

lemma res_bind_cong [fundef_cong]:
  "r = r' \<Longrightarrow> (\<And>x. r' = Inr x \<Longrightarrow> f x = g x) \<Longrightarrow> res_bind r f = res_bind r' g"
  by (cases r') auto

lemma traverse_Inr_iff [res_simps]:
  "traverse f xs = Inr ys \<longleftrightarrow> list_all2 (\<lambda>x y. f x = Inr y) xs ys"
proof (induction xs arbitrary: ys)
  case Nil
  then show ?case by auto
next
  case (Cons x xs)
  then show ?case by (auto simp: res_simps list_all2_Cons1)
qed

lemma traverse_Inl_iff [res_simps]:
  "traverse f xs = Inl e \<longleftrightarrow>
     (\<exists>ys x zs. xs = ys @ x # zs \<and> f x = Inl e \<and> (\<forall>y \<in> set ys. \<exists>v. f y = Inr v))"
proof (induction xs)
  case Nil
  then show ?case by simp
next
  case (Cons a xs)
  show ?case
  proof (cases "f a")
    case (Inl e')
    show ?thesis
    proof
      assume "traverse f (a # xs) = Inl e"
      with Inl have "f a = Inl e" by simp
      then show "\<exists>ys x zs. a # xs = ys @ x # zs \<and> f x = Inl e \<and> (\<forall>y \<in> set ys. \<exists>v. f y = Inr v)"
        by (intro exI [of _ "[]"]) simp
    next
      assume "\<exists>ys x zs. a # xs = ys @ x # zs \<and> f x = Inl e \<and> (\<forall>y \<in> set ys. \<exists>v. f y = Inr v)"
      then obtain ys x zs where "a # xs = ys @ x # zs" "f x = Inl e" "\<forall>y \<in> set ys. \<exists>v. f y = Inr v"
        by blast
      with Inl show "traverse f (a # xs) = Inl e" by (cases ys) auto
    qed
  next
    case (Inr b)
    have "traverse f (a # xs) = Inl e \<longleftrightarrow> traverse f xs = Inl e"
      using Inr by (cases "traverse f xs") auto
    also have "\<dots> \<longleftrightarrow> (\<exists>ys x zs. xs = ys @ x # zs \<and> f x = Inl e \<and> (\<forall>y \<in> set ys. \<exists>v. f y = Inr v))"
      by (rule Cons.IH)
    also have "\<dots> \<longleftrightarrow> (\<exists>ys x zs. a # xs = ys @ x # zs \<and> f x = Inl e \<and> (\<forall>y \<in> set ys. \<exists>v. f y = Inr v))"
      (is "?l \<longleftrightarrow> ?r")
    proof
      assume ?l
      then obtain ys x zs where "xs = ys @ x # zs" "f x = Inl e" "\<forall>y \<in> set ys. \<exists>v. f y = Inr v"
        by blast
      with Inr show ?r by (intro exI [of _ "a # ys"]) auto
    next
      assume ?r
      then obtain ys x zs where "a # xs = ys @ x # zs" "f x = Inl e" "\<forall>y \<in> set ys. \<exists>v. f y = Inr v"
        by blast
      with Inr show ?l by (cases ys) auto
    qed
    finally show ?thesis .
  qed
qed

lemma traverse_length: "traverse f xs = Inr ys \<Longrightarrow> length ys = length xs"
  by (auto simp: res_simps dest: list_all2_lengthD)

lemma traverse_total: "(\<And>x. x \<in> set xs \<Longrightarrow> f x = Inr (g x)) \<Longrightarrow> traverse f xs = Inr (map g xs)"
  by (induction xs) auto

lemma traverse_cong [fundef_cong]:
  "xs = ys \<Longrightarrow> (\<And>x. x \<in> set ys \<Longrightarrow> f x = g x) \<Longrightarrow> traverse f xs = traverse g ys"
proof (induction ys arbitrary: xs)
  case Nil
  then show ?case by simp
next
  case (Cons y ys)
  then show ?case by simp
qed

end
