(* ===== verification/JsString.thy ===== *)
theory JsString
  imports Prelude
begin

text \<open>
  The part of JavaScript's \<open>String.prototype\<close> the code uses, on HOL strings. A \<open>char\<close> stands for
  one UTF-16 code unit below 256, so every operation here is exact on strings of such code units
  (white space, case mapping and lengths too). The two longer characters that occur in the
  program's own constants (the dash and the bullet) are kept as opaque constants in their UTF-8 form.
\<close>

subsection \<open>White space and trimming\<close>

definition js_space :: "char \<Rightarrow> bool" where
  "js_space c \<longleftrightarrow>
     c \<in> {CHR 0x09, CHR 0x0A, CHR 0x0B, CHR 0x0C, CHR 0x0D, CHR '' '', CHR 0xA0}"

definition trim_start :: "string \<Rightarrow> string" where
  "trim_start s = dropWhile js_space s"

definition trim_end :: "string \<Rightarrow> string" where
  "trim_end s = rev (dropWhile js_space (rev s))"

definition js_trim :: "string \<Rightarrow> string" where
  "js_trim s = trim_end (trim_start s)"

definition trimmed :: "string \<Rightarrow> bool" where
  "trimmed s \<longleftrightarrow> s = [] \<or> (\<not> js_space (hd s) \<and> \<not> js_space (last s))"

lemma dropWhile_rev_append:
  "\<exists>ws. s = rev (dropWhile P (rev s)) @ ws \<and> list_all P ws"
proof -
  have "rev s = takeWhile P (rev s) @ dropWhile P (rev s)" by simp
  then have "s = rev (dropWhile P (rev s)) @ rev (takeWhile P (rev s))"
    by (metis rev_append rev_rev_ident)
  moreover have "list_all P (rev (takeWhile P (rev s)))"
    by (auto simp: list_all_iff dest: set_takeWhileD)
  ultimately show ?thesis by blast
qed

lemma trim_end_decomp: "\<exists>ws. s = trim_end s @ ws \<and> list_all js_space ws"
  unfolding trim_end_def by (rule dropWhile_rev_append)

lemma trim_start_decomp: "\<exists>ws. s = ws @ trim_start s \<and> list_all js_space ws"
  unfolding trim_start_def
  by (rule exI [of _ "takeWhile js_space s"]) (auto simp: list_all_iff dest: set_takeWhileD)

lemma js_trim_decomp:
  "\<exists>us vs. s = us @ js_trim s @ vs \<and> list_all js_space us \<and> list_all js_space vs"
  using trim_start_decomp [of s] trim_end_decomp [of "trim_start s"]
  unfolding js_trim_def by metis

lemma last_trim_end: "trim_end s \<noteq> [] \<Longrightarrow> \<not> js_space (last (trim_end s))"
  using hd_dropWhile [of js_space "rev s"] by (auto simp: trim_end_def last_rev)

lemma hd_trim_start: "trim_start s \<noteq> [] \<Longrightarrow> \<not> js_space (hd (trim_start s))"
  unfolding trim_start_def by (rule hd_dropWhile)

lemma hd_trim_end: "trim_end s \<noteq> [] \<Longrightarrow> hd (trim_end s) = hd s"
  using trim_end_decomp [of s] by (metis hd_append2)

lemma trimmed_js_trim: "trimmed (js_trim s)"
proof (cases "js_trim s = []")
  case True
  then show ?thesis by (simp add: trimmed_def)
next
  case False
  then have "trim_start s \<noteq> []" by (auto simp: js_trim_def trim_end_def)
  with False show ?thesis
    unfolding js_trim_def trimmed_def
    by (simp add: hd_trim_end hd_trim_start last_trim_end)
qed

lemma trimmed_trim_start: "trimmed s \<Longrightarrow> trim_start s = s"
  by (cases s) (auto simp: trimmed_def trim_start_def)

lemma trimmed_trim_end: "trimmed s \<Longrightarrow> trim_end s = s"
  by (cases s rule: rev_cases) (auto simp: trimmed_def trim_end_def)

lemma js_trim_trimmed [text_simps]: "trimmed s \<Longrightarrow> js_trim s = s"
  by (simp add: js_trim_def trimmed_trim_start trimmed_trim_end)

lemma js_trim_idem [simp]: "js_trim (js_trim s) = js_trim s"
  by (simp add: js_trim_trimmed trimmed_js_trim)

lemma js_trim_Nil [simp]: "js_trim [] = []"
  by (simp add: js_trim_def trim_start_def trim_end_def)

subsection \<open>Case mapping\<close>

text \<open>\<open>toLowerCase\<close> on code units below 256: ASCII letters and the capitals 0xC0-0xDE but 0xD7.\<close>

definition js_lower_char :: "char \<Rightarrow> char" where
  "js_lower_char c =
     (let n = of_char c :: nat
      in if (65 \<le> n \<and> n \<le> 90) \<or> (192 \<le> n \<and> n \<le> 222 \<and> n \<noteq> 215) then char_of (n + 32) else c)"

definition js_lower :: "string \<Rightarrow> string" where
  "js_lower s = map js_lower_char s"

definition ascii_lower :: "char \<Rightarrow> char" where
  "ascii_lower c = (let n = of_char c :: nat in if 65 \<le> n \<and> n \<le> 90 then char_of (n + 32) else c)"

definition digit_char :: "char \<Rightarrow> bool" where
  "digit_char c \<longleftrightarrow> (let n = of_char c :: nat in 48 \<le> n \<and> n \<le> 57)"

definition lower_char :: "char \<Rightarrow> bool" where
  "lower_char c \<longleftrightarrow> (let n = of_char c :: nat in 97 \<le> n \<and> n \<le> 122)"

definition alpha_char :: "char \<Rightarrow> bool" where
  "alpha_char c \<longleftrightarrow> lower_char (ascii_lower c)"

definition word_char :: "char \<Rightarrow> bool" where
  "word_char c \<longleftrightarrow> alpha_char c \<or> digit_char c \<or> c = CHR ''_''"

lemma js_lower_Nil [simp]: "js_lower [] = []"
  by (simp add: js_lower_def)

lemma length_js_lower [simp]: "length (js_lower s) = length s"
  by (simp add: js_lower_def)

subsection \<open>Searching and slicing\<close>

definition starts_with :: "string \<Rightarrow> string \<Rightarrow> bool" where
  "starts_with p s \<longleftrightarrow> take (length p) s = p"

definition slice :: "nat \<Rightarrow> nat \<Rightarrow> string \<Rightarrow> string" where
  "slice a b s = take (b - a) (drop a s)"

text \<open>The position of the first occurrence of \<open>p\<close>, as \<open>indexOf\<close> (\<open>None\<close> for -1).\<close>

fun find_sub :: "string \<Rightarrow> string \<Rightarrow> nat option" where
  "find_sub p [] = (if p = [] then Some 0 else None)"
| "find_sub p (c # s) = (if starts_with p (c # s) then Some 0 else map_option Suc (find_sub p s))"

definition index_of :: "string \<Rightarrow> string \<Rightarrow> nat \<Rightarrow> nat option" where
  "index_of p s from = map_option (\<lambda>k. from + k) (find_sub p (drop from s))"

definition str_includes :: "string \<Rightarrow> string \<Rightarrow> bool" where
  "str_includes p s \<longleftrightarrow> find_sub p s \<noteq> None"

lemma starts_with_append [simp]: "starts_with p (p @ s)"
  by (simp add: starts_with_def)

lemma starts_with_iff: "starts_with p s \<longleftrightarrow> (\<exists>t. s = p @ t)"
  by (metis append_take_drop_id starts_with_append starts_with_def)

lemma find_sub_Some:
  "find_sub p s = Some k \<Longrightarrow> s = take k s @ p @ drop (k + length p) s \<and> k + length p \<le> length s"
proof (induction s arbitrary: k)
  case Nil
  then show ?case by (auto split: if_splits)
next
  case (Cons c s)
  show ?case
  proof (cases "starts_with p (c # s)")
    case True
    with Cons.prems have "k = 0" by simp
    moreover from True obtain t where "c # s = p @ t" by (auto simp: starts_with_iff)
    moreover from this have "length p \<le> length (c # s)" by simp
    ultimately show ?thesis by simp
  next
    case False
    with Cons.prems obtain j where "k = Suc j" "find_sub p s = Some j" by auto
    with Cons.IH show ?thesis by auto
  qed
qed

lemma find_sub_single:
  "find_sub [c] s = (if c \<in> set s then Some (length (takeWhile (\<lambda>x. x \<noteq> c) s)) else None)"
  by (induction s) (auto simp: starts_with_def)

lemma includes_single: "str_includes [c] s \<longleftrightarrow> c \<in> set s"
  by (simp add: str_includes_def find_sub_single)

lemma find_sub_None: "find_sub p s = None \<longleftrightarrow> (\<forall>a b. s \<noteq> a @ p @ b)"
proof (induction s)
  case Nil
  then show ?case by auto
next
  case (Cons c s)
  show ?case
  proof
    assume h: "find_sub p (c # s) = None"
    then have n: "\<not> starts_with p (c # s)" "find_sub p s = None" by (auto split: if_splits)
    show "\<forall>a b. c # s \<noteq> a @ p @ b"
    proof (intro allI notI)
      fix a b assume eq: "c # s = a @ p @ b"
      show False
      proof (cases a)
        case Nil
        with eq n(1) show False by (auto simp: starts_with_iff)
      next
        case (Cons x a')
        with eq have "s = a' @ p @ b" by simp
        with n(2) Cons.IH show False by blast
      qed
    qed
  next
    assume h: "\<forall>a b. c # s \<noteq> a @ p @ b"
    have "\<not> starts_with p (c # s)" using h by (metis append_Nil starts_with_iff)
    moreover have "find_sub p s = None"
      unfolding Cons.IH using h by (metis append_Cons)
    ultimately show "find_sub p (c # s) = None" by simp
  qed
qed

lemma find_sub_take:
  "find_sub p s = None \<Longrightarrow> find_sub p (take n s) = None"
  unfolding find_sub_None by (metis append_assoc append_take_drop_id)

subsection \<open>Replacing, joining, printing numbers\<close>

text \<open>\<open>s.replace(/c/g, t)\<close> for a single character \<open>c\<close>.\<close>

definition replace_char :: "char \<Rightarrow> string \<Rightarrow> string \<Rightarrow> string" where
  "replace_char c t s = concat (map (\<lambda>x. if x = c then t else [x]) s)"

fun join :: "string \<Rightarrow> string list \<Rightarrow> string" where
  "join sep [] = []"
| "join sep [x] = x"
| "join sep (x # y # xs) = x @ sep @ join sep (y # xs)"

text \<open>\<open>s.trim().replace(/;\s*$/, '')\<close>: one trailing semicolon, with the white space around it.\<close>

definition drop_trailing_semicolon :: "string \<Rightarrow> string" where
  "drop_trailing_semicolon s =
     (let t = trim_end s
      in if t \<noteq> [] \<and> last t = CHR '';'' then butlast t else s)"

definition digit_of :: "nat \<Rightarrow> char" where
  "digit_of d = char_of (48 + d)"

fun show_nat :: "nat \<Rightarrow> string" where
  "show_nat n = (if n < 10 then [digit_of n] else show_nat (n div 10) @ [digit_of (n mod 10)])"

declare show_nat.simps [simp del]

definition show_int :: "int \<Rightarrow> string" where
  "show_int i = (if i < 0 then CHR ''-'' # show_nat (nat (- i)) else show_nat (nat i))"

lemma show_nat_digit: "n < 10 \<Longrightarrow> show_nat n = [digit_of n]"
  by (subst show_nat.simps) simp

lemma show_nat_step: "10 \<le> n \<Longrightarrow> show_nat n = show_nat (n div 10) @ [digit_of (n mod 10)]"
  by (subst show_nat.simps) simp

lemma show_nat_nonempty: "show_nat n \<noteq> []"
  by (subst show_nat.simps) simp

lemma digit_of_simps [simp]:
  "digit_of 0 = CHR ''0''" "digit_of 1 = CHR ''1''" "digit_of (Suc 0) = CHR ''1''"
  "digit_of 2 = CHR ''2''" "digit_of 3 = CHR ''3''" "digit_of 4 = CHR ''4''"
  "digit_of 5 = CHR ''5''" "digit_of 6 = CHR ''6''" "digit_of 7 = CHR ''7''"
  "digit_of 8 = CHR ''8''" "digit_of 9 = CHR ''9''"
  by code_simp+

lemma of_char_digit_of: "d < 10 \<Longrightarrow> of_char (digit_of d) = (48 + d :: nat)"
  by (simp add: digit_of_def)

lemma digit_char_of: "d < 10 \<Longrightarrow> digit_char (digit_of d)"
  by (simp add: digit_char_def Let_def of_char_digit_of)

lemma show_nat_digits: "c \<in> set (show_nat n) \<Longrightarrow> digit_char c"
proof (induction n rule: show_nat.induct)
  case (1 n)
  show ?case
  proof (cases "n < 10")
    case True
    with "1.prems" show ?thesis by (simp add: show_nat_digit digit_char_of)
  next
    case False
    with "1.prems" have "c \<in> set (show_nat (n div 10)) \<or> c = digit_of (n mod 10)"
      by (auto simp: show_nat_step)
    with "1.IH" False show ?thesis by (auto simp: digit_char_of)
  qed
qed

definition read_nat :: "string \<Rightarrow> nat" where
  "read_nat s = foldl (\<lambda>a c. 10 * a + (of_char c - 48)) 0 s"

lemma read_show_nat [simp]: "read_nat (show_nat n) = n"
proof (induction n rule: show_nat.induct)
  case (1 n)
  show ?case
  proof (cases "n < 10")
    case True
    then show ?thesis by (simp add: read_nat_def show_nat_digit of_char_digit_of)
  next
    case False
    with "1.IH" have "read_nat (show_nat (n div 10)) = n div 10" by simp
    then show ?thesis using False by (simp add: read_nat_def show_nat_step of_char_digit_of)
  qed
qed

lemma show_nat_inj: "show_nat m = show_nat n \<Longrightarrow> m = n"
  by (metis read_show_nat)

lemma join_Cons: "xs \<noteq> [] \<Longrightarrow> join sep (x # xs) = x @ sep @ join sep xs"
  by (cases xs) auto

definition em_dash :: string where
  "em_dash = [CHR 0xE2, CHR 0x80, CHR 0x94]"

end
