(* ===== verification/Regex.thy ===== *)
theory Regex
  imports JsString
begin

text \<open>
  Regular expressions as the code writes them between \<open>^\<close> and \<open>$\<close>: an expression, an executable
  matcher by derivatives, and the matcher's agreement with the language of the expression. The
  validators transcribe their patterns into this type.
\<close>

datatype rx =
    Nothing
  | Empty
  | Cls "char \<Rightarrow> bool"
  | Seq rx rx
  | Alt rx rx
  | Star rx

fun nullable :: "rx \<Rightarrow> bool" where
  "nullable Nothing = False"
| "nullable Empty = True"
| "nullable (Cls p) = False"
| "nullable (Seq a b) = (nullable a \<and> nullable b)"
| "nullable (Alt a b) = (nullable a \<or> nullable b)"
| "nullable (Star a) = True"

fun deriv :: "char \<Rightarrow> rx \<Rightarrow> rx" where
  "deriv c Nothing = Nothing"
| "deriv c Empty = Nothing"
| "deriv c (Cls p) = (if p c then Empty else Nothing)"
| "deriv c (Seq a b) =
     (if nullable a then Alt (Seq (deriv c a) b) (deriv c b) else Seq (deriv c a) b)"
| "deriv c (Alt a b) = Alt (deriv c a) (deriv c b)"
| "deriv c (Star a) = Seq (deriv c a) (Star a)"

text \<open>\<open>rx_match r s\<close> is \<open>/^r$/.test(s)\<close>.\<close>

fun rx_match :: "rx \<Rightarrow> string \<Rightarrow> bool" where
  "rx_match r [] = nullable r"
| "rx_match r (c # s) = rx_match (deriv c r) s"

definition Lit :: "char \<Rightarrow> rx" where
  "Lit c = Cls (\<lambda>x. x = c)"

text \<open>A literal character under the \<open>i\<close> flag, given in lower case.\<close>

definition LitCI :: "char \<Rightarrow> rx" where
  "LitCI c = Cls (\<lambda>x. ascii_lower x = c)"

definition Word :: "string \<Rightarrow> rx" where
  "Word s = foldr (\<lambda>c r. Seq (Lit c) r) s Empty"

definition WordCI :: "string \<Rightarrow> rx" where
  "WordCI s = foldr (\<lambda>c r. Seq (LitCI c) r) s Empty"

definition Plus :: "rx \<Rightarrow> rx" where
  "Plus r = Seq r (Star r)"

definition Opt :: "rx \<Rightarrow> rx" where
  "Opt r = Alt r Empty"

definition Alts :: "rx list \<Rightarrow> rx" where
  "Alts rs = foldr Alt rs Nothing"

definition Seqs :: "rx list \<Rightarrow> rx" where
  "Seqs rs = foldr Seq rs Empty"

lemmas rx_defs = Lit_def LitCI_def Word_def WordCI_def Plus_def Opt_def Alts_def Seqs_def

subsection \<open>The language of an expression\<close>

inductive in_lang :: "rx \<Rightarrow> string \<Rightarrow> bool" where
  in_empty: "in_lang Empty []"
| in_cls: "p c \<Longrightarrow> in_lang (Cls p) [c]"
| in_seq: "in_lang a s \<Longrightarrow> in_lang b t \<Longrightarrow> in_lang (Seq a b) (s @ t)"
| in_alt1: "in_lang a s \<Longrightarrow> in_lang (Alt a b) s"
| in_alt2: "in_lang b s \<Longrightarrow> in_lang (Alt a b) s"
| in_star0: "in_lang (Star a) []"
| in_star1: "in_lang a s \<Longrightarrow> in_lang (Star a) t \<Longrightarrow> in_lang (Star a) (s @ t)"

inductive_cases in_lang_NothingE [elim!]: "in_lang Nothing s"
inductive_cases in_lang_EmptyE [elim!]: "in_lang Empty s"
inductive_cases in_lang_ClsE [elim!]: "in_lang (Cls p) s"
inductive_cases in_lang_SeqE [elim!]: "in_lang (Seq a b) s"
inductive_cases in_lang_AltE [elim!]: "in_lang (Alt a b) s"

inductive_simps in_lang_Alt_iff: "in_lang (Alt a b) s"

lemma nullable_in_lang: "nullable r \<longleftrightarrow> in_lang r []"
proof (induction r)
  case (Seq a b)
  show ?case
  proof
    assume "nullable (Seq a b)"
    with Seq have "in_lang (Seq a b) ([] @ [])" by (intro in_seq) auto
    then show "in_lang (Seq a b) []" by simp
  next
    assume "in_lang (Seq a b) []"
    with Seq show "nullable (Seq a b)" by auto
  qed
next
  case (Alt a b)
  then show ?case by (auto intro: in_lang.intros)
qed (auto intro: in_lang.intros)

lemma star_step:
  "in_lang (Star a) (c # s) \<Longrightarrow> \<exists>u v. s = u @ v \<and> in_lang a (c # u) \<and> in_lang (Star a) v"
proof (induction "Star a" "c # s" arbitrary: s rule: in_lang.induct)
  case (in_star1 u v)
  show ?case
  proof (cases u)
    case Nil
    with in_star1 show ?thesis by auto
  next
    case (Cons d u')
    with in_star1 have "s = u' @ v" "in_lang a (c # u')" "in_lang (Star a) v" by auto
    then show ?thesis by blast
  qed
qed

lemma deriv_in_lang: "in_lang (deriv c r) s \<longleftrightarrow> in_lang r (c # s)"
proof (induction r arbitrary: s)
  case (Cls p)
  show ?case
  proof
    assume "in_lang (deriv c (Cls p)) s"
    then show "in_lang (Cls p) (c # s)" by (auto intro: in_lang.intros split: if_splits)
  next
    assume "in_lang (Cls p) (c # s)"
    then show "in_lang (deriv c (Cls p)) s" by (auto intro: in_lang.intros)
  qed
next
  case (Seq a b)
  have "in_lang (Seq a b) (c # s) \<longleftrightarrow>
        (\<exists>u v. s = u @ v \<and> in_lang a (c # u) \<and> in_lang b v) \<or> (in_lang a [] \<and> in_lang b (c # s))"
    (is "?l \<longleftrightarrow> ?r")
  proof
    assume ?l
    then obtain x y where xy: "c # s = x @ y" "in_lang a x" "in_lang b y" by auto
    show ?r
    proof (cases x)
      case Nil
      with xy show ?thesis by simp
    next
      case (Cons d x')
      with xy show ?thesis by auto
    qed
  next
    assume ?r
    then show ?l
    proof
      assume "\<exists>u v. s = u @ v \<and> in_lang a (c # u) \<and> in_lang b v"
      then obtain u v where "s = u @ v" "in_lang a (c # u)" "in_lang b v" by blast
      then show ?l using in_seq [of a "c # u" b v] by simp
    next
      assume "in_lang a [] \<and> in_lang b (c # s)"
      then show ?l using in_seq [of a "[]" b "c # s"] by simp
    qed
  qed
  moreover have "in_lang (Seq (deriv c a) b) s \<longleftrightarrow> (\<exists>u v. s = u @ v \<and> in_lang a (c # u) \<and> in_lang b v)"
    using Seq.IH(1) by (auto intro: in_seq)
  ultimately show ?case
    using Seq.IH(2) by (simp add: nullable_in_lang in_lang_Alt_iff)
next
  case (Alt a b)
  then show ?case by (auto intro: in_lang.intros)
next
  case (Star a)
  show ?case
  proof
    assume "in_lang (deriv c (Star a)) s"
    then obtain u v where "s = u @ v" "in_lang a (c # u)" "in_lang (Star a) v"
      using Star.IH by auto
    then show "in_lang (Star a) (c # s)" using in_star1 [of a "c # u" v] by simp
  next
    assume "in_lang (Star a) (c # s)"
    from star_step [OF this] show "in_lang (deriv c (Star a)) s"
      using Star.IH by (auto intro: in_seq)
  qed
qed auto

theorem rx_match_in_lang: "rx_match r s \<longleftrightarrow> in_lang r s"
  by (induction s arbitrary: r) (simp_all add: nullable_in_lang deriv_in_lang)

subsection \<open>The characters a match can hold\<close>

fun rx_chars :: "(char \<Rightarrow> bool) \<Rightarrow> rx \<Rightarrow> bool" where
  "rx_chars P Nothing = True"
| "rx_chars P Empty = True"
| "rx_chars P (Cls p) = (\<forall>c. p c \<longrightarrow> P c)"
| "rx_chars P (Seq a b) = (rx_chars P a \<and> rx_chars P b)"
| "rx_chars P (Alt a b) = (rx_chars P a \<and> rx_chars P b)"
| "rx_chars P (Star a) = rx_chars P a"

lemma in_lang_chars: "in_lang r s \<Longrightarrow> rx_chars P r \<Longrightarrow> list_all P s"
  by (induction rule: in_lang.induct) auto

lemma rx_match_chars: "rx_match r s \<Longrightarrow> rx_chars P r \<Longrightarrow> list_all P s"
  by (simp add: rx_match_in_lang in_lang_chars)

lemma rx_chars_Lit [simp]: "rx_chars P (Lit c) \<longleftrightarrow> P c"
  by (simp add: Lit_def)

lemma rx_chars_Word [simp]: "rx_chars P (Word s) \<longleftrightarrow> list_all P s"
  by (induction s) (simp_all add: Word_def)

lemma rx_chars_Plus [simp]: "rx_chars P (Plus r) \<longleftrightarrow> rx_chars P r"
  by (simp add: Plus_def)

lemma rx_chars_Opt [simp]: "rx_chars P (Opt r) \<longleftrightarrow> rx_chars P r"
  by (simp add: Opt_def)

lemma rx_chars_Alts [simp]: "rx_chars P (Alts rs) \<longleftrightarrow> list_all (rx_chars P) rs"
  by (induction rs) (simp_all add: Alts_def)

lemma rx_chars_Seqs [simp]: "rx_chars P (Seqs rs) \<longleftrightarrow> list_all (rx_chars P) rs"
  by (induction rs) (simp_all add: Seqs_def)

end
