(* ===== verification/ConnString.thy ===== *)
theory ConnString
  imports JsString
begin

text \<open>
  \<open>packages/utils/src/parseConnectionString.ts\<close>. The WHATWG \<open>URL\<close> constructor is not part of the
  repository nor of the language: it is the parameter \<open>url_of\<close>, \<open>None\<close> where it throws.
  \<open>decodeURIComponent\<close> is defined for the code points of the model's strings (below 256).
\<close>

datatype parsed_engine = EPostgres | EMysql

record parsed_connection =
  pc_engine :: parsed_engine
  pc_host :: string
  pc_port :: nat
  pc_database :: string
  pc_username :: string
  pc_password :: string
  pc_sslEnabled :: bool
  pc_sslRejectUnauthorized :: bool

record url =
  url_protocol :: string
  url_hostname :: string
  url_port :: string
  url_pathname :: string
  url_username :: string
  url_password :: string
  url_searchParams :: "(string \<times> string) list"

text \<open>\<open>{ ok: true; value }\<close> or \<open>{ ok: false; error }\<close>.\<close>

datatype parse_result = ParseOk parsed_connection | ParseError string

definition js_upper_char :: "char \<Rightarrow> string" where
  "js_upper_char c =
     (let n = of_char c :: nat
      in if n = 223 then ''SS''
         else if (97 \<le> n \<and> n \<le> 122) \<or> (224 \<le> n \<and> n \<le> 254 \<and> n \<noteq> 247) then [char_of (n - 32)]
         else [c])"

definition js_upper :: "string \<Rightarrow> string" where
  "js_upper s = concat (map js_upper_char s)"

definition hex_val :: "char \<Rightarrow> nat option" where
  "hex_val c =
     (let n = of_char (ascii_lower c) :: nat
      in if 48 \<le> n \<and> n \<le> 57 then Some (n - 48)
         else if 97 \<le> n \<and> n \<le> 102 then Some (n - 87) else None)"

text \<open>The value of \<open>%XY\<close> at the head of a text.\<close>

definition percent_byte :: "string \<Rightarrow> nat option" where
  "percent_byte s =
     (case s of
        p # x # y # _ \<Rightarrow>
          if p = CHR ''%'' then
            (case hex_val x of None \<Rightarrow> None
             | Some a \<Rightarrow> (case hex_val y of None \<Rightarrow> None | Some b \<Rightarrow> Some (16 * a + b)))
          else None
      | _ \<Rightarrow> None)"

function decodeURIComponent :: "string \<Rightarrow> string res" where
  "decodeURIComponent [] = Inr []"
| "decodeURIComponent (c # s) =
     (if c \<noteq> CHR ''%'' then res_map (\<lambda>t. c # t) (decodeURIComponent s)
      else case percent_byte (c # s) of
          None \<Rightarrow> Inl (PlainError ''URI malformed'')
        | Some b \<Rightarrow>
            if b < 128 then res_map (\<lambda>t. char_of b # t) (decodeURIComponent (drop 2 s))
            else if b = 194 \<or> b = 195 then
              (case percent_byte (drop 2 s) of
                 None \<Rightarrow> Inl (PlainError ''URI malformed'')
               | Some b2 \<Rightarrow>
                   if 128 \<le> b2 \<and> b2 < 192
                   then res_map (\<lambda>t. char_of ((b - 192) * 64 + (b2 - 128)) # t) (decodeURIComponent (drop 5 s))
                   else Inl (PlainError ''URI malformed''))
            else Inl (PlainError ''URI malformed''))"
  by pat_completeness auto
termination
  by (relation "measure length") auto

fun getCaseInsensitiveQueryParam :: "(string \<times> string) list \<Rightarrow> string \<Rightarrow> string option" where
  "getCaseInsensitiveQueryParam [] name = None"
| "getCaseInsensitiveQueryParam ((k, v) # ps) name =
     (if js_lower k = js_lower name then Some v else getCaseInsensitiveQueryParam ps name)"

definition SSL_DISABLED_MODES :: "string list" where
  "SSL_DISABLED_MODES = [''disable'', ''allow'']"

definition SSL_VERIFIED_MODES :: "string list" where
  "SSL_VERIFIED_MODES = [''verify-ca'', ''verify-full'']"

definition engine_of_protocol :: "string \<Rightarrow> parsed_engine option" where
  "engine_of_protocol p =
     (if p = ''postgres:'' \<or> p = ''postgresql:'' then Some EPostgres
      else if p = ''mysql:'' then Some EMysql else None)"

text \<open>The two SSL flags of a connection string.\<close>

definition ssl_flags :: "parsed_engine \<Rightarrow> (string \<times> string) list \<Rightarrow> bool \<times> bool" where
  "ssl_flags e ps =
     (case e of
        EMysql \<Rightarrow>
          (let sslMode = map_option js_upper (getCaseInsensitiveQueryParam ps ''ssl-mode'')
           in (sslMode \<noteq> Some ''DISABLED'', sslMode = Some ''VERIFY_CA'' \<or> sslMode = Some ''VERIFY_IDENTITY''))
      | EPostgres \<Rightarrow>
          (let sslmode = (case map_of ps ''sslmode'' of None \<Rightarrow> [] | Some m \<Rightarrow> m)
           in (sslmode \<notin> set SSL_DISABLED_MODES, sslmode \<in> set SSL_VERIFIED_MODES)))"

definition drop_slash :: "string \<Rightarrow> string" where
  "drop_slash s = (if starts_with ''/'' s then drop 1 s else s)"

definition parseConnectionString :: "(string \<Rightarrow> url option) \<Rightarrow> string \<Rightarrow> parse_result res" where
  "parseConnectionString url_of input =
     (let trimmed = js_trim input
      in if trimmed = [] then Inr (ParseError ''Enter a connection string to parse.'')
      else case url_of trimmed of
          None \<Rightarrow> Inr (ParseError ''Could not parse connection string.'')
        | Some url \<Rightarrow>
            (case engine_of_protocol (url_protocol url) of
               None \<Rightarrow> Inr (ParseError ''Connection string must start with postgres://, postgresql://, or mysql://'')
             | Some engine \<Rightarrow>
                 if url_hostname url = [] then Inr (ParseError ''Connection string is missing a host.'')
                 else
                   (let (enabled, reject) = ssl_flags engine (url_searchParams url) in
                    res_bind (decodeURIComponent (drop_slash (url_pathname url))) (\<lambda>db.
                    res_bind (decodeURIComponent (url_username url)) (\<lambda>user.
                    res_bind (decodeURIComponent (url_password url)) (\<lambda>pw.
                      Inr (ParseOk \<lparr>pc_engine = engine,
                        pc_host = url_hostname url,
                        pc_port = (if url_port url \<noteq> [] then read_nat (url_port url)
                                   else if engine = EMysql then 3306 else 5432),
                        pc_database = db, pc_username = user, pc_password = pw,
                        pc_sslEnabled = enabled, pc_sslRejectUnauthorized = reject\<rparr>)))))))"

lemma ssl_reject_enabled: "ssl_flags e ps = (en, True) \<Longrightarrow> en"
  by (auto simp: ssl_flags_def Let_def SSL_DISABLED_MODES_def SSL_VERIFIED_MODES_def
      split: parsed_engine.splits option.splits)

text \<open>
  A connection string that parses gives a usable, consistent connection: a host, a known engine,
  the port written in the URL or the engine's default, and certificate verification only where TLS is
  on.
\<close>

theorem parseConnectionString_ok:
  assumes "parseConnectionString url_of input = Inr (ParseOk c)"
  shows "pc_host c \<noteq> [] \<and> (pc_sslRejectUnauthorized c \<longrightarrow> pc_sslEnabled c) \<and>
         (\<exists>u. url_of (js_trim input) = Some u \<and> engine_of_protocol (url_protocol u) = Some (pc_engine c) \<and>
              (url_port u = [] \<longrightarrow> pc_port c = (if pc_engine c = EMysql then 3306 else 5432)))"
  using assms
  by (auto simp: parseConnectionString_def Let_def res_simps dest: ssl_reject_enabled
      split: option.splits if_splits prod.splits)

definition sample_url :: "string \<Rightarrow> url" where
  "sample_url pw =
     \<lparr>url_protocol = ''mysql:'', url_hostname = ''h'', url_port = [], url_pathname = ''/db'',
      url_username = ''u'', url_password = pw, url_searchParams = [(''SSL-Mode'', ''verify_ca'')]\<rparr>"

lemmas parse_eval =
  parseConnectionString_def sample_url_def engine_of_protocol_def ssl_flags_def js_trim_def
  trim_start_def trim_end_def js_space_def drop_slash_def starts_with_def Let_def percent_byte_def
  hex_val_def ascii_lower_def js_upper_def js_upper_char_def js_lower_def js_lower_char_def char_of_def bit_0

theorem parseConnectionString_ok_witness:
  "let c = \<lparr>pc_engine = EMysql, pc_host = ''h'', pc_port = 3306, pc_database = ''db'',
             pc_username = ''u'', pc_password = ''p'', pc_sslEnabled = True, pc_sslRejectUnauthorized = True\<rparr>
   in pc_host c \<noteq> [] \<and> (pc_sslRejectUnauthorized c \<longrightarrow> pc_sslEnabled c)"
proof -
  have "parseConnectionString (\<lambda>s. Some (sample_url ''p'')) ''mysql://u:p@h/db'' =
    Inr (ParseOk \<lparr>pc_engine = EMysql, pc_host = ''h'', pc_port = 3306, pc_database = ''db'',
      pc_username = ''u'', pc_password = ''p'', pc_sslEnabled = True, pc_sslRejectUnauthorized = True\<rparr>)"
    by (simp add: parse_eval)
  from parseConnectionString_ok [OF this] show ?thesis by simp
qed

text \<open>
  The function does throw, although its comment says it never does: a password that holds a
  percent sign without two hexadecimal digits behind it (which the \<open>URL\<close> parser accepts and keeps as
  it is) makes \<open>decodeURIComponent\<close> throw, and nothing catches it.
\<close>

theorem parseConnectionString_throws:
  "parseConnectionString (\<lambda>s. Some (sample_url ''p%zz'')) ''mysql://u:p%zz@h/db'' =
     Inl (PlainError ''URI malformed'')"
  by (simp add: parse_eval)

end
