(* ===== verification/JsValue.thy ===== *)
theory JsValue
  imports JsString
begin

text \<open>
  JavaScript values as they reach the services: query parameters, cells of a row, the \<open>unknown\<close> of
  the TypeScript types. A number is \<open>JNum\<close> when it is an integer, \<open>JDec\<close> with its decimal text when
  it is another finite number, \<open>JNonFinite\<close> with its name otherwise; a \<open>Date\<close> carries the texts
  of \<open>toISOString\<close> and \<open>toString\<close>; a \<open>Buffer\<close> its bytes. An object is the list of its own
  entries in enumeration order.
\<close>

datatype js_val =
    JUndef
  | JNull
  | JBool bool
  | JNum int
  | JDec string
  | JNonFinite string
  | JBig int
  | JStr string
  | JDate string string
  | JBytes string
  | JArr "js_val list"
  | JObj "(string \<times> js_val) list"

type_synonym row = "(string \<times> js_val) list"

definition nullish :: "js_val \<Rightarrow> bool" where
  "nullish v \<longleftrightarrow> v = JNull \<or> v = JUndef"

text \<open>\<open>row[c]\<close>: a missing property is \<open>undefined\<close>.\<close>

definition get_prop :: "row \<Rightarrow> string \<Rightarrow> js_val" where
  "get_prop r c = (case map_of r c of None \<Rightarrow> JUndef | Some v \<Rightarrow> v)"

definition has_prop :: "row \<Rightarrow> string \<Rightarrow> bool" where
  "has_prop r c \<longleftrightarrow> c \<in> fst ` set r"

text \<open>\<open>out[c] = v\<close> on a property the object has: its place in the enumeration is kept.\<close>

definition put_prop :: "string \<Rightarrow> js_val \<Rightarrow> row \<Rightarrow> row" where
  "put_prop c v r = map (\<lambda>(k, x). if k = c then (k, v) else (k, x)) r"

subsection \<open>String conversion\<close>

fun js_to_string :: "js_val \<Rightarrow> string" where
  "js_to_string JUndef = ''undefined''"
| "js_to_string JNull = ''null''"
| "js_to_string (JBool b) = (if b then ''true'' else ''false'')"
| "js_to_string (JNum i) = show_int i"
| "js_to_string (JDec s) = s"
| "js_to_string (JNonFinite s) = s"
| "js_to_string (JBig i) = show_int i"
| "js_to_string (JStr s) = s"
| "js_to_string (JDate d txt) = txt"
| "js_to_string (JBytes bs) = bs"
| "js_to_string (JArr vs) =
     join '','' (map (\<lambda>v. if nullish v then [] else js_to_string v) vs)"
| "js_to_string (JObj fs) = ''[object Object]''"

subsection \<open>JSON.stringify\<close>

definition hex_digit :: "nat \<Rightarrow> char" where
  "hex_digit d = (if d < 10 then char_of (48 + d) else char_of (87 + d))"

definition hex_byte :: "char \<Rightarrow> string" where
  "hex_byte c = (let n = of_char c :: nat in [hex_digit (n div 16), hex_digit (n mod 16)])"

definition json_escape_char :: "char \<Rightarrow> string" where
  "json_escape_char c =
     (if c = CHR 0x22 then [CHR 0x5C, CHR 0x22]
      else if c = CHR 0x5C then [CHR 0x5C, CHR 0x5C]
      else if c = CHR 0x08 then [CHR 0x5C, CHR ''b'']
      else if c = CHR 0x0C then [CHR 0x5C, CHR ''f'']
      else if c = CHR 0x0A then [CHR 0x5C, CHR ''n'']
      else if c = CHR 0x0D then [CHR 0x5C, CHR ''r'']
      else if c = CHR 0x09 then [CHR 0x5C, CHR ''t'']
      else if (of_char c :: nat) < 32 then [CHR 0x5C, CHR ''u'', CHR ''0'', CHR ''0''] @ hex_byte c
      else [c])"

definition json_string :: "string \<Rightarrow> string" where
  "json_string s = CHR 0x22 # concat (map json_escape_char s) @ [CHR 0x22]"

text \<open>
  \<open>JSON.stringify\<close> on a value inside an array or at the top of an object that is not \<open>undefined\<close>.
  Properties whose value is \<open>undefined\<close> are left out, and a \<open>bigint\<close> throws.
\<close>

fun json_stringify :: "js_val \<Rightarrow> string res" where
  "json_stringify JUndef = Inr ''null''"
| "json_stringify JNull = Inr ''null''"
| "json_stringify (JBool b) = Inr (if b then ''true'' else ''false'')"
| "json_stringify (JNum i) = Inr (show_int i)"
| "json_stringify (JDec s) = Inr s"
| "json_stringify (JNonFinite s) = Inr ''null''"
| "json_stringify (JBig i) = Inl (PlainError ''Do not know how to serialize a BigInt'')"
| "json_stringify (JStr s) = Inr (json_string s)"
| "json_stringify (JDate d txt) = Inr (json_string d)"
| "json_stringify (JBytes bs) =
     Inr (''{'' @ json_string ''type'' @ '':'' @ json_string ''Buffer'' @ '','' @ json_string ''data''
          @ '':['' @ join '','' (map (\<lambda>b. show_nat (of_char b)) bs) @ '']}'')"
| "json_stringify (JArr vs) =
     res_map (\<lambda>ts. ''['' @ join '','' ts @ '']'') (traverse json_stringify vs)"
| "json_stringify (JObj fs) =
     res_map (\<lambda>ts. ''{'' @ join '','' ts @ ''}'')
       (traverse (\<lambda>f. res_map (\<lambda>t. json_string (fst f) @ '':'' @ t) (json_stringify (snd f)))
          (filter (\<lambda>f. snd f \<noteq> JUndef) fs))"

lemma put_prop_Nil [simp]: "put_prop c v [] = []"
  by (simp add: put_prop_def)

lemma put_prop_Cons [simp]:
  "put_prop c v (f # r) = (fst f, if fst f = c then v else snd f) # put_prop c v r"
  by (cases f) (simp add: put_prop_def)

lemma has_prop_Nil [simp]: "has_prop [] k \<longleftrightarrow> False"
  by (simp add: has_prop_def)

lemma has_prop_Cons [simp]: "has_prop (f # r) k \<longleftrightarrow> k = fst f \<or> has_prop r k"
  by (simp add: has_prop_def)

lemma get_prop_Nil [simp]: "get_prop [] k = JUndef"
  by (simp add: get_prop_def)

lemma get_prop_Cons [simp]: "get_prop (f # r) k = (if fst f = k then snd f else get_prop r k)"
  by (cases f) (simp add: get_prop_def)

lemma get_put_prop:
  "get_prop (put_prop c v r) k = (if k = c \<and> has_prop r c then v else get_prop r k)"
  by (cases "k = c"; induction r) simp_all

lemma has_put_prop [simp]: "has_prop (put_prop c v r) k = has_prop r k"
  by (induction r) simp_all

lemma map_fst_put_prop [simp]: "map fst (put_prop c v r) = map fst r"
  by (induction r) simp_all

end
