(* ===== verification/SqlLex.thy ===== *)
theory SqlLex
  imports JsString
begin

text \<open>
  The SQL the builders produce is read by a database, not by the program. This theory holds the
  reading side the properties speak of: how the three engines read quoted identifiers, string
  literals, comments and parameter placeholders (documented behaviour of PostgreSQL with
  \<open>standard_conforming_strings\<close>, MySQL 8 in its default \<open>sql_mode\<close>, and SQLite), as an executable
  lexer; and the interface between a quoting function and its reader, as a locale.
\<close>

datatype engine = Pg | Mysql | Sqlite

datatype token =
    TChar char
  | TIdent string
  | TStr string
  | TParam nat
  | TComment
  | TUnterminated string

subsection \<open>Reading quoted text\<close>

text \<open>What follows an opening quote: a doubled quote stands for itself, a single one ends the text.\<close>

fun read_quoted :: "char \<Rightarrow> string \<Rightarrow> (string \<times> string) option" where
  "read_quoted q [] = None"
| "read_quoted q (c # s) =
     (if c \<noteq> q then map_option (\<lambda>(x, r). (c # x, r)) (read_quoted q s)
      else case s of
          [] \<Rightarrow> Some ([], [])
        | d # t \<Rightarrow> if d = q then map_option (\<lambda>(x, r). (q # x, r)) (read_quoted q t) else Some ([], s))"

text \<open>MySQL's string literals also read a backslash as an escape.\<close>

definition mysql_unescape :: "char \<Rightarrow> string" where
  "mysql_unescape c =
     (if c = CHR ''0'' then [CHR 0x00]
      else if c = CHR ''b'' then [CHR 0x08]
      else if c = CHR ''n'' then [CHR 0x0A]
      else if c = CHR ''r'' then [CHR 0x0D]
      else if c = CHR ''t'' then [CHR 0x09]
      else if c = CHR ''Z'' then [CHR 0x1A]
      else if c = CHR ''%'' \<or> c = CHR ''_'' then [CHR 0x5C, c]
      else [c])"

fun read_mysql_string :: "char \<Rightarrow> string \<Rightarrow> (string \<times> string) option" where
  "read_mysql_string q [] = None"
| "read_mysql_string q (c # s) =
     (if c = CHR 0x5C then
        (case s of [] \<Rightarrow> None
         | d # t \<Rightarrow> map_option (\<lambda>(x, r). (mysql_unescape d @ x, r)) (read_mysql_string q t))
      else if c \<noteq> q then map_option (\<lambda>(x, r). (c # x, r)) (read_mysql_string q s)
      else case s of
          [] \<Rightarrow> Some ([], [])
        | d # t \<Rightarrow> if d = q then map_option (\<lambda>(x, r). (q # x, r)) (read_mysql_string q t) else Some ([], s))"

lemma read_quoted_shorter: "read_quoted q s = Some (x, r) \<Longrightarrow> length r < length s"
  by (induction q s arbitrary: x r rule: read_quoted.induct)
     (fastforce split: if_splits list.splits)+

lemma read_mysql_string_shorter: "read_mysql_string q s = Some (x, r) \<Longrightarrow> length r < length s"
  by (induction q s arbitrary: x r rule: read_mysql_string.induct)
     (fastforce split: if_splits list.splits)+

lemma read_quoted_double:
  "rest = [] \<or> hd rest \<noteq> q \<Longrightarrow> read_quoted q (replace_char q [q, q] s @ q # rest) = Some (s, rest)"
  by (induction s) (auto simp: replace_char_def split: list.splits)

subsection \<open>The interface of a quoting function\<close>

text \<open>
  A quoting function \<open>quote\<close> and the reader of the engine it quotes for. The law: the engine reads
  a quoted text back as the text, whatever follows it, as long as what follows cannot be taken for
  a continuation of the quoted text (\<open>stop\<close>).
\<close>

locale quoting =
  fixes quote :: "string \<Rightarrow> string res"
    and read :: "string \<Rightarrow> (string \<times> string) option"
    and stop :: "string \<Rightarrow> bool"
  assumes read_quote: "quote s = Inr t \<Longrightarrow> stop rest \<Longrightarrow> read (t @ rest) = Some (s, rest)"
    and stop_Nil: "stop []"
begin

lemma quote_inj: "quote s = Inr t \<Longrightarrow> quote s' = Inr t \<Longrightarrow> s = s'"
  using read_quote [of s t "[]"] read_quote [of s' t "[]"] stop_Nil by simp

lemma quote_prefix_free:
  "quote s = Inr t \<Longrightarrow> quote s' = Inr t' \<Longrightarrow> stop u \<Longrightarrow> stop u' \<Longrightarrow> t @ u = t' @ u' \<Longrightarrow> s = s' \<and> u = u'"
  using read_quote [of s t u] read_quote [of s' t' u'] by simp

text \<open>A list of quoted texts under a separator is read back as the list.\<close>

fun read_list :: "string \<Rightarrow> nat \<Rightarrow> string \<Rightarrow> (string list \<times> string) option" where
  "read_list sep 0 s = Some ([], s)"
| "read_list sep (Suc n) s =
     (case read s of
        None \<Rightarrow> None
      | Some (x, r) \<Rightarrow>
          if n = 0 then Some ([x], r)
          else if starts_with sep r
               then map_option (\<lambda>(xs, u). (x # xs, u)) (read_list sep n (drop (length sep) r))
               else None)"

lemma read_list_quoted:
  "traverse quote xs = Inr ts \<Longrightarrow> (\<And>u. stop (sep @ u)) \<Longrightarrow> stop rest \<Longrightarrow>
   read_list sep (length xs) (join sep ts @ rest) = Some (xs, rest)"
proof (induction xs arbitrary: ts)
  case Nil
  then show ?case by simp
next
  case (Cons x xs)
  from Cons.prems(1) obtain t us where q: "quote x = Inr t" "traverse quote xs = Inr us" "ts = t # us"
    by (auto simp: res_simps)
  show ?case
  proof (cases us)
    case Nil
    with q have "xs = []" using traverse_length [OF q(2)] by simp
    with q Nil Cons.prems(3) show ?thesis by (simp add: read_quote)
  next
    case (Cons v vs)
    then have ne: "us \<noteq> []" by simp
    then have l: "length xs \<noteq> 0" using traverse_length [OF q(2)] by auto
    have "read (t @ (sep @ join sep us @ rest)) = Some (x, sep @ join sep us @ rest)"
      by (rule read_quote [OF q(1)]) (rule Cons.prems(2))
    with l q(3) ne Cons.IH [OF q(2) Cons.prems(2,3)] show ?thesis
      by (simp add: join_Cons)
  qed
qed

end

subsection \<open>The lexer\<close>

definition ident_quote :: "engine \<Rightarrow> char" where
  "ident_quote e = (if e = Mysql then CHR ''`'' else CHR 0x22)"

definition read_string :: "engine \<Rightarrow> string \<Rightarrow> (string \<times> string) option" where
  "read_string e = (if e = Mysql then read_mysql_string CHR 0x27 else read_quoted CHR 0x27)"

text \<open>The rest after a comment that starts a text, if one does.\<close>

fun skip_block :: "bool \<Rightarrow> nat \<Rightarrow> string \<Rightarrow> string" where
  "skip_block nest d [] = []"
| "skip_block nest d [c] = []"
| "skip_block nest d (c # e # s) =
     (if c = CHR ''*'' \<and> e = CHR ''/'' then (if d = 0 then s else skip_block nest (d - 1) s)
      else if nest \<and> c = CHR ''/'' \<and> e = CHR ''*'' then skip_block nest (Suc d) s
      else skip_block nest d (e # s))"

definition line_comment :: "engine \<Rightarrow> string \<Rightarrow> bool" where
  "line_comment e s \<longleftrightarrow>
     (if e = Mysql
      then starts_with ''#'' s \<or> (starts_with ''--'' s \<and> (drop 2 s = [] \<or> (of_char (s ! 2) :: nat) \<le> 32))
      else starts_with ''--'' s)"

definition skip_comment :: "engine \<Rightarrow> string \<Rightarrow> string option" where
  "skip_comment e s =
     (if line_comment e s then Some (drop 1 (dropWhile (\<lambda>c. c \<noteq> CHR 0x0A) s))
      else if starts_with ''/*'' s then Some (skip_block (e = Pg) 0 (drop 2 s))
      else None)"

lemma skip_block_length: "length (skip_block nest d s) \<le> length s"
  by (induction nest d s rule: skip_block.induct) auto

lemma skip_comment_shorter: "skip_comment e (c # s) = Some r \<Longrightarrow> length r < length (c # s)"
proof (cases "line_comment e (c # s)")
  case True
  assume "skip_comment e (c # s) = Some r"
  with True have "r = drop 1 (dropWhile (\<lambda>c. c \<noteq> CHR 0x0A) (c # s))" by (simp add: skip_comment_def)
  moreover have "length (dropWhile (\<lambda>c. c \<noteq> CHR 0x0A) (c # s)) \<le> length (c # s)"
    by (rule length_dropWhile_le)
  ultimately show ?thesis by simp
next
  case False
  assume "skip_comment e (c # s) = Some r"
  with False have "starts_with ''/*'' (c # s)" "r = skip_block (e = Pg) 0 (drop 2 (c # s))"
    by (auto simp: skip_comment_def split: if_splits)
  then show ?thesis using skip_block_length [of "e = Pg" 0 "drop 2 (c # s)"] by simp
qed

text \<open>The placeholder that starts a text: its index (0 where the engine's have none) and the rest.\<close>

definition read_param :: "engine \<Rightarrow> string \<Rightarrow> (nat \<times> string) option" where
  "read_param e s =
     (case s of
        [] \<Rightarrow> None
      | c # t \<Rightarrow>
          if e = Pg then
            (if c = CHR ''$'' \<and> takeWhile digit_char t \<noteq> []
             then Some (read_nat (takeWhile digit_char t), dropWhile digit_char t) else None)
          else if c = CHR ''?'' then Some (0, t) else None)"

lemma read_param_shorter: "read_param e s = Some (n, r) \<Longrightarrow> length r < length s"
  by (cases s) (auto simp: read_param_def le_imp_less_Suc length_dropWhile_le split: if_splits)

function lex :: "engine \<Rightarrow> string \<Rightarrow> token list" where
  "lex e [] = []"
| "lex e (c # s) =
     (if c = ident_quote e then
        (case read_quoted c s of Some (x, r) \<Rightarrow> TIdent x # lex e r | None \<Rightarrow> [TUnterminated (c # s)])
      else if c = CHR 0x27 then
        (case read_string e s of Some (x, r) \<Rightarrow> TStr x # lex e r | None \<Rightarrow> [TUnterminated (c # s)])
      else if e = Mysql \<and> c = CHR 0x22 then
        (case read_mysql_string c s of Some (x, r) \<Rightarrow> TStr x # lex e r | None \<Rightarrow> [TUnterminated (c # s)])
      else case skip_comment e (c # s) of
          Some r \<Rightarrow> TComment # lex e r
        | None \<Rightarrow>
            (case read_param e (c # s) of
               Some (n, r) \<Rightarrow> TParam n # lex e r
             | None \<Rightarrow> TChar c # lex e s))"
  by pat_completeness auto
termination
  by (relation "measure (\<lambda>(e, s). length s)")
     (auto simp: read_string_def less_Suc_eq
       dest: read_quoted_shorter read_mysql_string_shorter skip_comment_shorter read_param_shorter
       split: if_splits)

declare lex.simps(2) [simp del]

text \<open>Characters that start no token of their own.\<close>

definition plain_char :: "char \<Rightarrow> bool" where
  "plain_char c \<longleftrightarrow> c \<notin> {CHR 0x22, CHR ''`'', CHR 0x27, CHR ''-'', CHR ''/'', CHR ''$'', CHR ''?'', CHR ''#''}"

lemma lex_plain: "list_all plain_char p \<Longrightarrow> lex e (p @ s) = map TChar p @ lex e s"
proof (induction p)
  case Nil
  then show ?case by simp
next
  case (Cons c p)
  then have pc: "plain_char c" and IH: "lex e (p @ s) = map TChar p @ lex e s" by simp_all
  from pc have "skip_comment e (c # p @ s) = None"
    by (auto simp: skip_comment_def line_comment_def starts_with_def plain_char_def)
  moreover from pc have "read_param e (c # p @ s) = None"
    by (auto simp: read_param_def plain_char_def)
  moreover from pc have "c \<noteq> ident_quote e" "c \<noteq> CHR 0x27" "c \<noteq> CHR 0x22"
    by (auto simp: plain_char_def ident_quote_def)
  ultimately show ?case using IH by (simp add: lex.simps(2))
qed

lemma lex_ident:
  "read_quoted (ident_quote e) s = Some (x, r) \<Longrightarrow> lex e (ident_quote e # s) = TIdent x # lex e r"
  by (simp add: lex.simps(2))

lemma lex_string:
  "read_string e s = Some (x, r) \<Longrightarrow> lex e (CHR 0x27 # s) = TStr x # lex e r"
  by (simp add: lex.simps(2) ident_quote_def)

lemma lex_pg_param:
  assumes "r = [] \<or> \<not> digit_char (hd r)"
  shows "lex Pg (CHR ''$'' # show_nat n @ r) = TParam n # lex Pg r"
proof -
  have d: "list_all digit_char (show_nat n)"
    by (auto simp: list_all_iff dest: show_nat_digits)
  have tw: "takeWhile digit_char (show_nat n @ r) = show_nat n"
    using d assms by (cases r) (auto simp: takeWhile_append2 list_all_iff)
  have dw: "dropWhile digit_char (show_nat n @ r) = r"
    using d assms by (cases r) (auto simp: dropWhile_append2 list_all_iff)
  show ?thesis
    using show_nat_nonempty [of n]
    by (simp add: lex.simps(2) ident_quote_def skip_comment_def line_comment_def starts_with_def read_param_def tw dw)
qed

lemma lex_mark_param: "e \<noteq> Pg \<Longrightarrow> lex e (CHR ''?'' # r) = TParam 0 # lex e r"
  by (simp add: lex.simps(2) ident_quote_def skip_comment_def line_comment_def starts_with_def read_param_def)

end
