(* ===== verification/Identifiers.thy ===== *)
theory Identifiers
  imports JsValue SqlLex
begin

text \<open>
  \<open>packages/utils\<close>: \<open>quoteIdent\<close>, and the CSV formatting of \<open>csv.ts\<close>. Quoting implements the
  \<open>quoting\<close> interface for the identifiers of PostgreSQL and SQLite; a formatted record is read
  back by an RFC 4180 reader, with NULL distinct from the empty string.
\<close>

subsection \<open>quoteIdent\<close>

definition dquote :: char where
  "dquote = CHR 0x22"

definition quoteIdent :: "string \<Rightarrow> string res" where
  "quoteIdent identifier =
     (if length identifier = 0 then Inl (PlainError ''Identifier must not be empty'')
      else if str_includes [CHR 0x00] identifier
           then Inl (PlainError ''Identifier must not contain null bytes'')
      else Inr (dquote # replace_char dquote [dquote, dquote] identifier @ [dquote]))"

definition read_dquoted :: "string \<Rightarrow> (string \<times> string) option" where
  "read_dquoted s = (case s of [] \<Rightarrow> None | c # t \<Rightarrow> if c = dquote then read_quoted dquote t else None)"

definition not_dquote :: "string \<Rightarrow> bool" where
  "not_dquote r \<longleftrightarrow> r = [] \<or> hd r \<noteq> dquote"

interpretation ident: quoting quoteIdent read_dquoted not_dquote
proof unfold_locales
  fix s t rest
  assume "quoteIdent s = Inr t" "not_dquote rest"
  then have "t = dquote # replace_char dquote [dquote, dquote] s @ [dquote]"
    by (auto simp: quoteIdent_def split: if_splits)
  with \<open>not_dquote rest\<close> show "read_dquoted (t @ rest) = Some (s, rest)"
    by (simp add: read_dquoted_def not_dquote_def read_quoted_double)
qed (simp add: not_dquote_def)

lemma quoteIdent_Inr:
  "quoteIdent s = Inr t \<longleftrightarrow>
     s \<noteq> [] \<and> CHR 0x00 \<notin> set s \<and> t = dquote # replace_char dquote [dquote, dquote] s @ [dquote]"
  by (auto simp: quoteIdent_def includes_single)

lemma quoteIdent_Inl: "(\<exists>e. quoteIdent s = Inl e) \<longleftrightarrow> s = [] \<or> CHR 0x00 \<in> set s"
  by (auto simp: quoteIdent_def includes_single)

lemma lex_quoteIdent:
  assumes "quoteIdent s = Inr t" "e \<noteq> Mysql" "not_dquote r"
  shows "lex e (t @ r) = TIdent s # lex e r"
proof -
  from assms have t: "t @ r = dquote # replace_char dquote [dquote, dquote] s @ dquote # r"
    by (simp add: quoteIdent_Inr)
  have "read_quoted dquote (replace_char dquote [dquote, dquote] s @ dquote # r) = Some (s, r)"
    using assms(3) by (intro read_quoted_double) (simp add: not_dquote_def)
  with assms(2) show ?thesis unfolding t
    using lex_ident [of e] by (simp add: ident_quote_def dquote_def)
qed

text \<open>
  PostgreSQL and SQLite read the output of \<open>quoteIdent\<close> back as the one identifier that was
  quoted, whatever text the builder puts behind it, so long as that text does not itself start with a
  double quote: no identifier can end its own quotes, and the rest of the statement is read as if it
  stood alone.
\<close>

theorem quoteIdent_reads_back:
  assumes "quoteIdent name = Inr quoted" and "engine = Pg \<or> engine = Sqlite"
    and "rest = [] \<or> hd rest \<noteq> CHR 0x22"
  shows "lex engine (quoted @ rest) = TIdent name # lex engine rest"
  by (rule lex_quoteIdent [OF assms(1)]) (use assms(2,3) in \<open>auto simp: not_dquote_def dquote_def\<close>)

theorem quoteIdent_reads_back_witness:
  "lex Pg ((dquote # ''a'' @ [dquote, dquote] @ ''; DROP'' @ [dquote]) @ '' = 1'')
     = TIdent (''a'' @ [dquote] @ ''; DROP'') # lex Pg '' = 1''"
  by (rule quoteIdent_reads_back)
     (simp_all add: quoteIdent_def str_includes_def starts_with_def replace_char_def dquote_def)

subsection \<open>CSV\<close>

record csv_options =
  delimiter :: "string option"
  nullToken :: "string option"

definition csv_delimiter :: "csv_options \<Rightarrow> string" where
  "csv_delimiter options = (case delimiter options of None \<Rightarrow> '','' | Some d \<Rightarrow> d)"

definition escapeField :: "string \<Rightarrow> string \<Rightarrow> string" where
  "escapeField text d =
     (let mustQuote = str_includes d text \<or> str_includes [dquote] text
            \<or> str_includes [CHR 0x0A] text \<or> str_includes [CHR 0x0D] text;
          escaped = replace_char dquote [dquote, dquote] text
      in if mustQuote then dquote # escaped @ [dquote] else escaped)"

definition is_object :: "js_val \<Rightarrow> bool" where
  "is_object v = (case v of JDate _ _ \<Rightarrow> True | JBytes _ \<Rightarrow> True | JArr _ \<Rightarrow> True | JObj _ \<Rightarrow> True | _ \<Rightarrow> False)"

definition csv_text :: "js_val \<Rightarrow> string res" where
  "csv_text v =
     (if is_object v then json_stringify v
      else case v of JStr s \<Rightarrow> Inr s | _ \<Rightarrow> Inr (js_to_string v))"

definition csvEscape :: "js_val \<Rightarrow> csv_options \<Rightarrow> string res" where
  "csvEscape v options =
     (let d = csv_delimiter options
      in if v = JNull \<or> v = JUndef then
           (case nullToken options of None \<Rightarrow> Inr [] | Some tk \<Rightarrow> Inr (escapeField tk d))
         else if v = JStr [] then Inr [dquote, dquote]
         else res_map (\<lambda>text. escapeField text d) (csv_text v))"

definition formatCsvRow :: "js_val list \<Rightarrow> csv_options \<Rightarrow> string res" where
  "formatCsvRow vs options =
     res_map (join (csv_delimiter options)) (traverse (\<lambda>v. csvEscape v options) vs)"

text \<open>
  A reader of RFC 4180, kept apart from the writer. A field that starts with a quote runs to the closing quote,
  a doubled quote standing for one, and only a delimiter or the end of the record may follow it; any other field
  runs to the next delimiter or end of record and may hold no quote. A record ends at a line break outside
  quotes - CRLF, LF or CR - or at the end of the text. An empty field without quotes is NULL.
\<close>

definition line_break :: "char \<Rightarrow> bool" where
  "line_break c \<longleftrightarrow> c = CHR 0x0D \<or> c = CHR 0x0A"

definition past_break :: "string \<Rightarrow> string" where
  "past_break s = (if take 2 s = [CHR 0x0D, CHR 0x0A] then drop 2 s else drop 1 s)"

function read_record :: "char \<Rightarrow> string \<Rightarrow> (string option list \<times> string) option" where
  "read_record d s =
     (if s \<noteq> [] \<and> hd s = dquote then
        (case read_quoted dquote (tl s) of
           None \<Rightarrow> None
         | Some (x, r) \<Rightarrow>
             (case r of
                [] \<Rightarrow> Some ([Some x], [])
              | c # u \<Rightarrow> if c = d then map_option (apfst (\<lambda>fs. Some x # fs)) (read_record d u)
                        else if line_break c then Some ([Some x], past_break r) else None))
      else
        (let x = takeWhile (\<lambda>c. c \<noteq> d \<and> \<not> line_break c) s; r = dropWhile (\<lambda>c. c \<noteq> d \<and> \<not> line_break c) s;
             f = (if x = [] then None else Some x)
         in if dquote \<in> set x then None
            else case r of
              [] \<Rightarrow> Some ([f], [])
            | c # u \<Rightarrow> if c = d then map_option (apfst (\<lambda>fs. f # fs)) (read_record d u)
                      else Some ([f], past_break r)))"
  by pat_completeness auto
termination
proof (relation "measure (\<lambda>(d, s). length s)", goal_cases)
  case 1
  then show ?case by simp
next
  case (2 d s xr x r c u)
  then have "read_quoted dquote (tl s) = Some (x, r)" by simp
  then have "length r < length (tl s)" by (rule read_quoted_shorter)
  moreover have "length (tl s) \<le> length s" by simp
  ultimately have "length r < length s" by linarith
  with 2 show ?case by simp
next
  case (3 d s x r f c u)
  then have "length (c # u) \<le> length s" by (metis length_dropWhile_le)
  then show ?case by simp
qed

declare read_record.simps [simp del]

text \<open>All records of a text; a text that ends in a line break has no further record.\<close>

function read_csv :: "char \<Rightarrow> string \<Rightarrow> string option list list option" where
  "read_csv d s =
     (if s = [] then Some []
      else (case read_record d s of
              None \<Rightarrow> None
            | Some (fs, r) \<Rightarrow> if length r < length s then map_option (\<lambda>fss. fs # fss) (read_csv d r) else None))"
  by pat_completeness auto
termination by (relation "measure (\<lambda>(d, s). length s)") simp_all

declare read_csv.simps [simp del]

definition csv_field :: "js_val \<Rightarrow> string option res" where
  "csv_field v = (if nullish v then Inr None else res_map Some (csv_text v))"

text \<open>What is no empty text by accident: only a string value may print as the empty text.\<close>

definition csv_value :: "js_val \<Rightarrow> bool" where
  "csv_value v \<longleftrightarrow> nullish v \<or> (\<exists>s. v = JStr s) \<or> csv_text v \<noteq> Inr []"

lemma escapeField_cases:
  assumes "d \<noteq> dquote"
  shows "escapeField x [d] = dquote # replace_char dquote [dquote, dquote] x @ [dquote] \<or>
         (escapeField x [d] = x \<and> (\<forall>c \<in> set x. c \<noteq> d \<and> \<not> line_break c \<and> c \<noteq> dquote))"
proof -
  have "dquote \<notin> set x \<Longrightarrow> replace_char dquote [dquote, dquote] x = x"
    by (induction x) (auto simp: replace_char_def)
  then show ?thesis by (auto simp: escapeField_def includes_single Let_def line_break_def)
qed

text \<open>A written field is read back whatever follows it: a delimiter, a line break or the end.\<close>

lemma read_quoted_field:
  assumes "d \<noteq> dquote" "\<not> line_break d" "t = dquote # replace_char dquote [dquote, dquote] x @ [dquote]"
  shows "u = [] \<or> line_break (hd u) \<Longrightarrow> read_record d (t @ u) = Some ([Some x], past_break u)"
    and "read_record d (t @ d # u) = map_option (apfst (\<lambda>fs. Some x # fs)) (read_record d u)"
proof -
  have dq: "\<not> line_break dquote" by (simp add: line_break_def dquote_def)
  have quoted: "read_quoted dquote (replace_char dquote [dquote, dquote] x @ dquote # v) = Some (x, v)"
    if "v = [] \<or> hd v \<noteq> dquote" for v
    using read_quoted_double [of v dquote x] that by (cases v) simp_all
  show "read_record d (t @ u) = Some ([Some x], past_break u)" if u: "u = [] \<or> line_break (hd u)"
  proof -
    have "u = [] \<or> hd u \<noteq> dquote" "u = [] \<or> hd u \<noteq> d" using u dq assms(2) by auto
    with quoted [of u] u show ?thesis
      by (subst read_record.simps) (cases u; auto simp: assms(3) past_break_def)
  qed
  show "read_record d (t @ d # u) = map_option (apfst (\<lambda>fs. Some x # fs)) (read_record d u)"
    using quoted [of "d # u"] assms(1) by (subst read_record.simps) (simp add: assms(3))
qed

lemma read_plain_field:
  assumes "d \<noteq> dquote" "\<not> line_break d" "\<forall>c \<in> set x. c \<noteq> d \<and> \<not> line_break c \<and> c \<noteq> dquote"
    "f = (if x = [] then None else Some x)"
  shows "u = [] \<or> line_break (hd u) \<Longrightarrow> read_record d (x @ u) = Some ([f], past_break u)"
    and "read_record d (x @ d # u) = map_option (apfst (\<lambda>fs. f # fs)) (read_record d u)"
proof -
  let ?p = "\<lambda>c. c \<noteq> d \<and> \<not> line_break c"
  have dq: "\<not> line_break dquote" by (simp add: line_break_def dquote_def)
  have nq: "dquote \<notin> set x" using assms(3) by blast
  have split: "takeWhile ?p (x @ v) = x" "dropWhile ?p (x @ v) = v" if "v = [] \<or> \<not> ?p (hd v)" for v
    using that assms(3) by (auto simp: takeWhile_append dropWhile_append takeWhile_eq_Nil_iff dropWhile_eq_self_iff)
  have head: "\<not> (x @ v \<noteq> [] \<and> hd (x @ v) = dquote)" if "v = [] \<or> hd v \<noteq> dquote" for v
    using that nq by (cases x) auto
  show "read_record d (x @ u) = Some ([f], past_break u)" if u: "u = [] \<or> line_break (hd u)"
  proof -
    have v: "u = [] \<or> \<not> ?p (hd u)" "u = [] \<or> hd u \<noteq> dquote" "u = [] \<or> hd u \<noteq> d" using u dq assms(2) by auto
    show ?thesis
      using v(3) nq assms(4) unfolding read_record.simps [of d "x @ u"] if_not_P [OF head [OF v(2)]] Let_def split [OF v(1)]
      by (cases u) (auto simp: past_break_def)
  qed
  show "read_record d (x @ d # u) = map_option (apfst (\<lambda>fs. f # fs)) (read_record d u)"
  proof -
    have v: "d # u = [] \<or> \<not> ?p (hd (d # u))" "d # u = [] \<or> hd (d # u) \<noteq> dquote" using assms(1) by auto
    show ?thesis
      using nq assms(4) unfolding read_record.simps [of d "x @ d # u"] if_not_P [OF head [OF v(2)]] Let_def split [OF v(1)]
      by simp
  qed
qed

lemma read_record_field:
  assumes "d \<noteq> dquote" "\<not> line_break d" "csv_value v" "csvEscape v \<lparr>delimiter = Some [d], nullToken = None\<rparr> = Inr t"
  obtains f where "csv_field v = Inr f"
    "\<And>u. u = [] \<or> line_break (hd u) \<Longrightarrow> read_record d (t @ u) = Some ([f], past_break u)"
    "\<And>u. read_record d (t @ d # u) = map_option (apfst (\<lambda>fs. f # fs)) (read_record d u)"
proof (cases "nullish v")
  case True
  with assms(4) have "t = []" by (auto simp: csvEscape_def nullish_def)
  with True read_plain_field [OF assms(1,2), of "[]" None] that [of None] show thesis by (simp add: csv_field_def)
next
  case False
  show thesis
  proof (cases "v = JStr []")
    case True
    with assms(4) have t: "t = dquote # replace_char dquote [dquote, dquote] [] @ [dquote]"
      by (simp add: csvEscape_def replace_char_def)
    have "csv_field v = Inr (Some [])" using True by (simp add: csv_field_def nullish_def csv_text_def is_object_def)
    with read_quoted_field [OF assms(1,2) t] that show thesis by blast
  next
    case ne: False
    with False assms(4) obtain x where x: "csv_text v = Inr x" "t = escapeField x [d]"
      by (auto simp: csvEscape_def csv_delimiter_def nullish_def res_simps)
    have xne: "x \<noteq> []"
    proof
      assume "x = []"
      with x(1) assms(3) False obtain s where "v = JStr s" by (auto simp: csv_value_def)
      with x(1) \<open>x = []\<close> ne show False by (simp add: csv_text_def is_object_def)
    qed
    have f: "csv_field v = Inr (Some x)" using False x(1) by (simp add: csv_field_def)
    from escapeField_cases [OF assms(1), of x] show thesis
    proof
      assume "escapeField x [d] = dquote # replace_char dquote [dquote, dquote] x @ [dquote]"
      with x(2) read_quoted_field [OF assms(1,2), of t x] f that show thesis by blast
    next
      assume "escapeField x [d] = x \<and> (\<forall>c \<in> set x. c \<noteq> d \<and> \<not> line_break c \<and> c \<noteq> dquote)"
      with x(2) xne read_plain_field [OF assms(1,2), of x "Some x"] f that show thesis by simp
    qed
  qed
qed

lemma read_record_line:
  assumes "d \<noteq> dquote" "\<not> line_break d" "traverse (\<lambda>v. csvEscape v \<lparr>delimiter = Some [d], nullToken = None\<rparr>) vs = Inr ts"
    "vs \<noteq> []" "\<forall>v \<in> set vs. csv_value v" "u = [] \<or> line_break (hd u)"
  shows "\<exists>fs. traverse csv_field vs = Inr fs \<and> read_record d (join [d] ts @ u) = Some (fs, past_break u)"
  using assms(3-5)
proof (induction vs arbitrary: ts)
  case Nil
  then show ?case by simp
next
  case (Cons v vs)
  let ?o = "\<lparr>delimiter = Some [d], nullToken = None\<rparr>"
  from Cons.prems(1) obtain t us where q: "csvEscape v ?o = Inr t"
    "traverse (\<lambda>v. csvEscape v ?o) vs = Inr us" "ts = t # us"
    by (auto simp: res_simps)
  from Cons.prems(3) have "csv_value v" by simp
  from read_record_field [OF assms(1,2) this q(1)] obtain f where f: "csv_field v = Inr f"
    "\<And>u. u = [] \<or> line_break (hd u) \<Longrightarrow> read_record d (t @ u) = Some ([f], past_break u)"
    "\<And>u. read_record d (t @ d # u) = map_option (apfst (\<lambda>fs. f # fs)) (read_record d u)"
    by metis
  show ?case
  proof (cases "vs = []")
    case True
    with q f assms(6) show ?thesis by auto
  next
    case False
    then have "us \<noteq> []" using traverse_length [OF q(2)] by auto
    then have "join [d] ts @ u = t @ d # (join [d] us @ u)" using q(3) by (simp add: join_Cons)
    moreover obtain fs where "traverse csv_field vs = Inr fs" "read_record d (join [d] us @ u) = Some (fs, past_break u)"
      using Cons.IH [OF q(2) False] Cons.prems(3) by auto
    ultimately show ?thesis using f by simp
  qed
qed

text \<open>
  C17. A CSV text is read back as the values that were written, NULL apart from the empty string: when the
  delimiter is one character other than the quote and the line breaks and no NULL token is set, an RFC 4180
  reader of the records \<open>formatCsvRow\<close> gave, each ended by CRLF, finds exactly those records, and in each,
  field by field, NULL for \<open>null\<close>/\<open>undefined\<close> and the value's text otherwise. Only a string value may print
  as the empty text.
\<close>

theorem formatCsvRow_reads_back:
  assumes "d \<noteq> CHR 0x22" "d \<noteq> CHR 0x0D" "d \<noteq> CHR 0x0A" and "\<forall>vs \<in> set rows. vs \<noteq> [] \<and> (\<forall>v \<in> set vs. csv_value v)"
    and "traverse (\<lambda>vs. formatCsvRow vs \<lparr>delimiter = Some [d], nullToken = None\<rparr>) rows = Inr lines"
  shows "\<exists>fss. traverse (traverse csv_field) rows = Inr fss \<and>
    read_csv d (concat (map (\<lambda>line. line @ [CHR 0x0D, CHR 0x0A]) lines)) = Some fss"
  using assms(4,5)
proof (induction rows arbitrary: lines)
  case Nil
  then show ?case by (simp add: read_csv.simps)
next
  case (Cons vs rows)
  let ?o = "\<lparr>delimiter = Some [d], nullToken = None\<rparr>"
  have d: "d \<noteq> dquote" "\<not> line_break d" using assms(1-3) by (simp_all add: dquote_def line_break_def)
  from Cons.prems(2) obtain line rest where l: "formatCsvRow vs ?o = Inr line"
    "traverse (\<lambda>vs. formatCsvRow vs ?o) rows = Inr rest" "lines = line # rest"
    by (auto simp: res_simps)
  obtain fss where fss: "traverse (traverse csv_field) rows = Inr fss"
    "read_csv d (concat (map (\<lambda>line. line @ [CHR 0x0D, CHR 0x0A]) rest)) = Some fss"
    using Cons.IH [OF _ l(2)] Cons.prems(1) by auto
  let ?u = "[CHR 0x0D, CHR 0x0A] @ concat (map (\<lambda>line. line @ [CHR 0x0D, CHR 0x0A]) rest)"
  from l(1) obtain ts where "traverse (\<lambda>v. csvEscape v ?o) vs = Inr ts" "line = join [d] ts"
    by (auto simp: formatCsvRow_def csv_delimiter_def res_simps)
  then obtain fs where "traverse csv_field vs = Inr fs" "read_record d (line @ ?u) = Some (fs, past_break ?u)"
    using read_record_line [OF d, of vs ts ?u] Cons.prems(1) by (auto simp: line_break_def)
  moreover from this(2) fss(2) have "read_csv d (line @ ?u) = Some (fs # fss)"
    by (subst read_csv.simps) (simp add: past_break_def)
  ultimately show ?case using fss(1) l(3) by simp
qed

theorem formatCsvRow_reads_back_witness:
  "read_csv CHR '','' (''1,'' @ [dquote] @ ''a'' @ [CHR 0x0A] @ ''b'' @ [dquote] @ '',,'' @ [dquote, dquote] @ [CHR 0x0D, CHR 0x0A])
     = Some [[Some ''1'', Some (''a'' @ [CHR 0x0A] @ ''b''), None, Some []]]"
proof -
  let ?row = "[JNum 1, JStr (''a'' @ [CHR 0x0A] @ ''b''), JNull, JStr []]"
  have "traverse (\<lambda>vs. formatCsvRow vs \<lparr>delimiter = Some '','', nullToken = None\<rparr>) [?row]
      = Inr [''1,'' @ [dquote] @ ''a'' @ [CHR 0x0A] @ ''b'' @ [dquote] @ '',,'' @ [dquote, dquote]]"
    by (simp add: nullish_def csv_text_def is_object_def formatCsvRow_def csvEscape_def
        csv_delimiter_def escapeField_def str_includes_def starts_with_def replace_char_def dquote_def
        show_int_def show_nat_digit)
  from formatCsvRow_reads_back [OF _ _ _ _ this]
  have "\<exists>fss. traverse (traverse csv_field) [?row] = Inr fss \<and>
     read_csv CHR '','' (''1,'' @ [dquote] @ ''a'' @ [CHR 0x0A] @ ''b'' @ [dquote] @ '',,'' @ [dquote, dquote] @ [CHR 0x0D, CHR 0x0A]) = Some fss"
    by (simp add: csv_value_def nullish_def csv_text_def is_object_def show_int_def show_nat_digit)
  then show ?thesis
    by (simp add: csv_field_def nullish_def csv_text_def is_object_def show_int_def show_nat_digit)
qed

end
