(* ===== verification/SqlTypes.thy ===== *)
theory SqlTypes
  imports Identifiers
begin

text \<open>
  The data the components exchange: \<open>database/types.ts\<close> and the records of \<open>packages/shared-types\<close>
  (\<open>metadata.ts\<close>, \<open>filter.ts\<close>, \<open>ddl.ts\<close>). An optional property is an \<open>option\<close>; where the code tells
  \<open>null\<close> from a missing property, the field says so.
\<close>

subsection \<open>Fragments and results\<close>

record table_ref =
  refNamespace :: "string option"
  refName :: string

record sql_fragment =
  fragSql :: string
  fragParams :: "js_val list"

record field_info =
  fieldName :: string
  dataTypeID :: int
  dataTypeName :: "string option"

record driver_result =
  drRows :: "row list"
  drFields :: "field_info list"
  drRowCount :: "nat option"
  drCommand :: string
  drLastInsertId :: js_val

datatype concurrency = Token | Preimage

record db_capabilities =
  supportsReturning :: bool
  supportsSchemas :: bool
  parserDialect :: engine
  capConcurrency :: concurrency
  supportsCursors :: bool

record where_dialect =
  wdPlaceholder :: "nat \<Rightarrow> string"
  wdQuoteIdent :: "string \<Rightarrow> string res"
  likeOperator :: string
  inList :: "string \<Rightarrow> js_val list \<Rightarrow> bool \<Rightarrow> nat \<Rightarrow> string \<times> js_val list"

datatype sort_dir = ASC | DESC

definition sort_text :: "sort_dir \<Rightarrow> string" where
  "sort_text d = (case d of ASC \<Rightarrow> ''ASC'' | DESC \<Rightarrow> ''DESC'')"

record select_rows_options =
  whereClause :: string
  whereParams :: "js_val list"
  orderColumn :: "string option"
  sortDir :: sort_dir
  optLimit :: int
  optOffset :: int
  includeVersion :: bool

datatype row_update_guard =
    GuardVersion js_val
  | GuardPreimage "string list" "js_val list"

datatype profile_sample_plan = FullScan | RandomSample string | FirstRows nat

record profile_column_spec =
  pcsName :: string
  pcsOrderable :: bool

subsection \<open>Metadata\<close>

record column_metadata =
  colName :: string
  dataType :: string
  nullable :: bool
  isPrimaryKey :: bool
  autoIncrement :: bool
  defaultValue :: "string option"
  colComment :: "string option"
  nativeType :: "string option"
  nativeDefinition :: "string option"

record index_metadata =
  ixName :: string
  ixColumns :: "string list"
  isUnique :: bool
  isPrimary :: bool
  ixMethod :: string
  ixDefinition :: string

record foreign_key_metadata =
  fkConstraintName :: string
  fkColumns :: "string list"
  fkReferencedSchema :: "string option"
  fkReferencedTable :: string
  fkReferencedColumns :: "string list"
  fkOnDelete :: "string option"
  fkOnUpdate :: "string option"

record schema_foreign_key = foreign_key_metadata +
  sfkTable :: string
  sfkSchema :: "string option"

record table_structure =
  tsColumns :: "column_metadata list"
  tsIndexes :: "index_metadata list"
  tsForeignKeys :: "foreign_key_metadata list"
  tsComment :: "string option"

datatype schema_object_kind =
  KView | KMaterializedView | KSequence | KFunction | KProcedure | KTrigger | KEnum

subsection \<open>Filters\<close>

datatype filter_operator =
    Eq | Neq | Lt | Lte | Gt | Gte
  | Contains | NotContains | StartsWith | NotStartsWith | EndsWith | NotEndsWith
  | IsNull | IsNotNull | InList | NotIn

record column_filter =
  cfColumn :: string
  cfOperator :: filter_operator
  cfValue :: js_val
  cfValues :: "js_val list option"

datatype combinator = CAnd | COr

record row_filter =
  conditions :: "column_filter list"
  combinator :: combinator

subsection \<open>DDL requests\<close>

record new_column =
  ncName :: string
  ncType :: string
  ncNullable :: bool
  ncPrimaryKey :: bool
  ncAutoIncrement :: bool
  ncDefault :: "string option"

record create_table_request =
  ctSchema :: string
  ctTable :: string
  ctColumns :: "new_column list"

definition FOREIGN_KEY_ACTIONS :: "string list" where
  "FOREIGN_KEY_ACTIONS = [''NO ACTION'', ''RESTRICT'', ''CASCADE'', ''SET NULL'', ''SET DEFAULT'']"

record foreign_key_spec =
  fksConstraintName :: "string option"
  fksColumns :: "string list"
  fksReferencedSchema :: "string option"
  fksReferencedTable :: string
  fksReferencedColumns :: "string list"
  fksOnDelete :: "string option"
  fksOnUpdate :: "string option"

datatype alter_op =
    AddColumn new_column
  | DropColumn string
  | SetNotNull string bool
  | SetDefault string "string option"
  | ChangeType string string "string option"
  | AddForeignKey foreign_key_spec
  | DropForeignKey string
  | SetComment "string option" "string option"

record create_index_request =
  ciSchema :: string
  ciTable :: string
  ciName :: "string option"
  ciColumns :: "string list"
  ciUnique :: bool
  ciMethod :: "string option"

subsection \<open>Helpers on metadata\<close>

definition primary_key_of :: "column_metadata list \<Rightarrow> string list" where
  "primary_key_of columns = map colName (filter isPrimaryKey columns)"

lemma primary_key_subset: "set (primary_key_of columns) \<subseteq> set (map colName columns)"
  by (auto simp: primary_key_of_def)

end
