(* ===== verification/DdlNormalize.thy ===== *)
theory DdlNormalize
  imports Regex ConnString SqlTypes
begin

text \<open>
  The validation of DDL requests before any SQL is built: column types, defaults and \<open>USING\<close> expressions
  against the patterns of each engine (\<open>normalize*\<close> of \<open>drivers/*/*-sql.ts\<close>), foreign keys
  (\<open>drivers/fk-ddl.ts\<close>), index names and methods. What MySQL's code attaches to a normalized operation under a
  symbol (the column restated, or its native definition) is a field of the result.
\<close>

record normalized_alter =
  naOp :: alter_op
  naDefinition :: "new_column option"
  naNative :: "string option"

definition plain_op :: "alter_op \<Rightarrow> normalized_alter" where
  "plain_op op = \<lparr>naOp = op, naDefinition = None, naNative = None\<rparr>"

subsection \<open>Patterns\<close>

definition digits_rx :: rx where
  "digits_rx = Plus (Cls digit_char)"

definition spaces_rx :: rx where
  "spaces_rx = Star (Cls js_space)"

text \<open>\<open>\(\s*\d+\s*(?:,\s*\d+\s*)?\)\<close>\<close>

definition params_rx :: rx where
  "params_rx =
     Seqs [Lit CHR ''('', spaces_rx, digits_rx, spaces_rx,
           Opt (Seqs [Lit CHR '','', spaces_rx, digits_rx, spaces_rx]), Lit CHR '')'']"

text \<open>\<open>[a-z]+(?: [a-z]+)*\<close>, in lower case or, with the \<open>i\<close> flag, in any case.\<close>

definition words_rx :: "(char \<Rightarrow> bool) \<Rightarrow> rx" where
  "words_rx letter = Seq (Plus (Cls letter)) (Star (Seq (Lit CHR '' '') (Plus (Cls letter))))"

text \<open>\<open>/^(words)(params)?$/.exec(s)\<close>: the two groups. The first group holds no parenthesis.\<close>

definition type_match :: "(char \<Rightarrow> bool) \<Rightarrow> string \<Rightarrow> (string \<times> string) option" where
  "type_match letter s =
     (let base = takeWhile (\<lambda>c. c \<noteq> CHR ''('') s;
          params = dropWhile (\<lambda>c. c \<noteq> CHR ''('') s
      in if rx_match (words_rx letter) base \<and> (params = [] \<or> rx_match params_rx params)
         then Some (base, params) else None)"

text \<open>\<open>s.replace(/\s+/g, ' ')\<close> and \<open>s.replace(/\s+/g, '')\<close>\<close>

fun collapse_spaces :: "string \<Rightarrow> string" where
  "collapse_spaces [] = []"
| "collapse_spaces (c # s) =
     (if \<not> js_space c then c # collapse_spaces s
      else (case s of [] \<Rightarrow> '' '' | d # t \<Rightarrow> if js_space d then collapse_spaces s else CHR '' '' # collapse_spaces s))"

definition remove_spaces :: "string \<Rightarrow> string" where
  "remove_spaces s = filter (\<lambda>c. \<not> js_space c) s"

definition check_type ::
  "(char \<Rightarrow> bool) \<Rightarrow> string list \<Rightarrow> string list \<Rightarrow> string \<Rightarrow> string \<Rightarrow> string res" where
  "check_type letter allowed parameterized normalized ty =
     (let unsupported = Inl (Unprocessable (''Unsupported column type \"'' @ ty @ ''\". Allowed types: '' @ join '', '' allowed))
      in case type_match letter normalized of
           None \<Rightarrow> unsupported
         | Some (base, params) \<Rightarrow>
             if base \<notin> set allowed then unsupported
             else if params \<noteq> [] \<and> base \<notin> set parameterized
             then Inl (Unprocessable (''Type \"'' @ base @ ''\" does not accept a length/precision parameter''))
             else Inr (base @ remove_spaces params))"

text \<open>\<open>validateDefault\<close>: \<open>canon\<close> is applied to an accepted text; \<open>None\<close> is \<open>undefined\<close>, or the \<open>null\<close> returned.\<close>

definition check_default :: "rx \<Rightarrow> string \<Rightarrow> (string \<Rightarrow> string) \<Rightarrow> string option \<Rightarrow> string option res" where
  "check_default pattern allowed canon v =
     (case v of
        None \<Rightarrow> Inr None
      | Some s \<Rightarrow>
          (let t = js_trim s in
           if t = [] then Inr None
           else if \<not> rx_match pattern t
           then Inl (Unprocessable (''Unsupported default value \"'' @ s @ ''\". Allowed: '' @ allowed))
           else Inr (Some (canon t))))"

subsection \<open>Foreign keys\<close>

definition assertAction :: "string option \<Rightarrow> string \<Rightarrow> unit res" where
  "assertAction action field =
     (case action of
        None \<Rightarrow> Inr ()
      | Some a \<Rightarrow> require (a \<in> set FOREIGN_KEY_ACTIONS)
          (Unprocessable (''Invalid '' @ field @ '' action \"'' @ a @ ''\". Allowed: '' @ join '', '' FOREIGN_KEY_ACTIONS)))"

definition column_missing :: "string \<Rightarrow> http_error" where
  "column_missing c = Unprocessable (''Column \"'' @ c @ ''\" does not exist'')"

definition assertExists :: "column_metadata list \<Rightarrow> string \<Rightarrow> unit res" where
  "assertExists columns c = require (c \<in> set (map colName columns)) (column_missing c)"

definition fk_name :: "string \<Rightarrow> string list \<Rightarrow> string" where
  "fk_name table columns =
     (let raw = table @ ''_'' @ join ''_'' columns @ ''_fkey''
      in if length raw > 63 then take 59 raw @ ''_fkey'' else raw)"

definition normalizeAddForeignKey ::
  "table_ref \<Rightarrow> foreign_key_spec \<Rightarrow> column_metadata list \<Rightarrow> foreign_key_spec res" where
  "normalizeAddForeignKey ref op columns =
     res_bind (require (fksColumns op \<noteq> []) (Unprocessable ''A foreign key must reference at least one column'')) (\<lambda>_.
     res_bind (require (length (fksColumns op) = length (fksReferencedColumns op))
       (Unprocessable ''Local and referenced column counts must match'')) (\<lambda>_.
     res_bind (traverse (assertExists columns) (fksColumns op)) (\<lambda>_.
     res_bind (require (fksReferencedTable op \<noteq> [] \<and> js_trim (fksReferencedTable op) \<noteq> [])
       (Unprocessable ''A referenced table is required'')) (\<lambda>_.
     res_bind (assertAction (fksOnDelete op) ''ON DELETE'') (\<lambda>_.
     res_bind (assertAction (fksOnUpdate op) ''ON UPDATE'') (\<lambda>_.
     Inr (op\<lparr>fksConstraintName :=
       Some (case fksConstraintName op of
               None \<Rightarrow> fk_name (refName ref) (fksColumns op)
             | Some n \<Rightarrow> if n = [] then fk_name (refName ref) (fksColumns op) else n)\<rparr>)))))))"

definition normalizeDropForeignKey :: "string \<Rightarrow> unit res" where
  "normalizeDropForeignKey name =
     require (name \<noteq> [] \<and> js_trim name \<noteq> []) (Unprocessable ''A constraint name is required to drop a foreign key'')"

subsection \<open>Indexes\<close>

definition index_name :: "create_index_request \<Rightarrow> string" where
  "index_name req =
     (let raw = ciTable req @ ''_'' @ join ''_'' (ciColumns req) @ ''_idx'';
          made = (if length raw > 63 then take 59 raw @ ''_idx'' else raw)
      in case ciName req of None \<Rightarrow> made | Some n \<Rightarrow> if n = [] then made else n)"

definition normalize_index ::
  "string list \<Rightarrow> create_index_request \<Rightarrow> (create_index_request \<times> string \<times> string) res" where
  "normalize_index allowed req =
     (let method = js_lower (case ciMethod req of None \<Rightarrow> ''btree'' | Some m \<Rightarrow> m) in
      if method \<notin> set allowed
      then Inl (Unprocessable (''Unsupported index method \"'' @ (case ciMethod req of None \<Rightarrow> ''undefined'' | Some m \<Rightarrow> m)
             @ ''\". Allowed: '' @ join '', '' allowed))
      else Inr (req, index_name req, method))"

subsection \<open>Shared by PostgreSQL and SQLite\<close>

text \<open>\<open>dropColumn\<close> and \<open>setDefault\<close>, and a column made from a request.\<close>

definition check_drop :: "column_metadata list \<Rightarrow> string \<Rightarrow> unit res" where
  "check_drop columns c =
     (case find (\<lambda>x. colName x = c) columns of
        None \<Rightarrow> Inl (column_missing c)
      | Some col \<Rightarrow> require (\<not> isPrimaryKey col) (Unprocessable (''Cannot drop primary key column \"'' @ c @ ''\"'')))"

definition check_new_default ::
  "(string option \<Rightarrow> string option res) \<Rightarrow> string option \<Rightarrow> string option res" where
  "check_new_default validate d =
     (case d of
        None \<Rightarrow> Inr None
      | Some s \<Rightarrow>
          res_bind (validate (Some s)) (\<lambda>canon.
          case canon of
            None \<Rightarrow> Inl (Unprocessable ''Default value cannot be empty; pass null to drop the default'')
          | Some t \<Rightarrow> Inr (Some t)))"

definition column_taken :: "string \<Rightarrow> http_error" where
  "column_taken c = Conflict (''Column \"'' @ c @ ''\" already exists'')"

subsection \<open>PostgreSQL\<close>

definition PG_ALLOWED_TYPES :: "string list" where
  "PG_ALLOWED_TYPES = [''integer'', ''bigint'', ''smallint'', ''serial'', ''bigserial'', ''boolean'', ''text'', ''varchar'',
     ''char'', ''real'', ''double precision'', ''numeric'', ''date'', ''time'', ''timestamp'', ''timestamptz'', ''uuid'',
     ''json'', ''jsonb'', ''bytea'']"

definition PG_PARAMETERIZED_TYPES :: "string list" where
  "PG_PARAMETERIZED_TYPES = [''varchar'', ''char'', ''numeric'']"

definition SAFE_DEFAULT_PATTERN :: rx where
  "SAFE_DEFAULT_PATTERN =
     Alts [digits_rx, WordCI ''true'', WordCI ''false'', WordCI ''null'', WordCI ''now()'', WordCI ''current_timestamp'',
           WordCI ''gen_random_uuid()'']"

definition PG_INDEX_METHODS :: "string list" where
  "PG_INDEX_METHODS = [''btree'', ''hash'', ''gin'', ''gist'', ''brin'']"

text \<open>\<open>/^[a-z_][a-z0-9_]*(::([a-z][a-z0-9 ]*)(params)?)?$/i\<close>\<close>

definition USING_PATTERN :: rx where
  "USING_PATTERN =
     Seqs [Cls (\<lambda>c. alpha_char c \<or> c = CHR ''_''), Star (Cls (\<lambda>c. alpha_char c \<or> digit_char c \<or> c = CHR ''_'')),
       Opt (Seqs [Word ''::'', Cls alpha_char, Star (Cls (\<lambda>c. alpha_char c \<or> digit_char c \<or> c = CHR '' '')), Opt params_rx])]"

definition safe_default_text :: string where
  "safe_default_text = ''now(), current_timestamp, gen_random_uuid(), true, false, null, or a non-negative integer''"

definition pg_validateType :: "string \<Rightarrow> string res" where
  "pg_validateType ty =
     check_type lower_char PG_ALLOWED_TYPES PG_PARAMETERIZED_TYPES (collapse_spaces (js_lower (js_trim ty))) ty"

definition pg_validateDefault :: "string option \<Rightarrow> string option res" where
  "pg_validateDefault v = check_default SAFE_DEFAULT_PATTERN safe_default_text js_lower v"

definition pg_normalizeColumn :: "new_column \<Rightarrow> new_column res" where
  "pg_normalizeColumn col =
     res_bind (pg_validateType (ncType col)) (\<lambda>ty.
     res_bind (pg_validateDefault (ncDefault col)) (\<lambda>d.
     Inr \<lparr>ncName = ncName col, ncType = ty, ncNullable = ncNullable col, ncPrimaryKey = ncPrimaryKey col,
          ncAutoIncrement = False, ncDefault = d\<rparr>))"

definition pgNormalizeCreateTable :: "create_table_request \<Rightarrow> create_table_request res" where
  "pgNormalizeCreateTable req =
     res_map (\<lambda>cs. req\<lparr>ctColumns := cs\<rparr>) (traverse pg_normalizeColumn (ctColumns req))"

definition pg_check_using :: "string option \<Rightarrow> string option res" where
  "pg_check_using u =
     (case u of
        None \<Rightarrow> Inr None
      | Some s \<Rightarrow>
          (let t = js_trim s in
           if rx_match USING_PATTERN t then Inr (Some (js_lower t))
           else Inl (Unprocessable (''Unsupported USING expression \"'' @ s @ ''\". Allowed: identifier or identifier::type''))))"

definition pgNormalizeAlterTable ::
  "table_ref \<Rightarrow> alter_op \<Rightarrow> column_metadata list \<Rightarrow> normalized_alter res" where
  "pgNormalizeAlterTable ref op columns =
     res_map plain_op (case op of
        AddForeignKey spec \<Rightarrow> res_map AddForeignKey (normalizeAddForeignKey ref spec columns)
      | DropForeignKey name \<Rightarrow> res_map (\<lambda>_. op) (normalizeDropForeignKey name)
      | AddColumn col \<Rightarrow>
          res_bind (require (ncName col \<notin> set (map colName columns)) (column_taken (ncName col))) (\<lambda>_.
          res_bind (pg_validateType (ncType col)) (\<lambda>ty.
          res_bind (pg_validateDefault (ncDefault col)) (\<lambda>d.
          Inr (AddColumn (col\<lparr>ncType := ty, ncNullable := (if ncPrimaryKey col then False else ncNullable col), ncDefault := d\<rparr>)))))
      | DropColumn c \<Rightarrow> res_map (\<lambda>_. op) (check_drop columns c)
      | SetNotNull c b \<Rightarrow> res_map (\<lambda>_. op) (assertExists columns c)
      | SetDefault c d \<Rightarrow>
          res_bind (assertExists columns c) (\<lambda>_. res_map (SetDefault c) (check_new_default pg_validateDefault d))
      | ChangeType c ty using_expr \<Rightarrow>
          res_bind (assertExists columns c) (\<lambda>_.
          res_bind (pg_validateType ty) (\<lambda>ty'.
          res_map (ChangeType c ty') (pg_check_using using_expr)))
      | SetComment c comment \<Rightarrow>
          (case c of None \<Rightarrow> Inr op | Some c' \<Rightarrow> res_map (\<lambda>_. op) (assertExists columns c')))"

definition pgNormalizeCreateIndex ::
  "create_index_request \<Rightarrow> (create_index_request \<times> string \<times> string) res" where
  "pgNormalizeCreateIndex req = normalize_index PG_INDEX_METHODS req"

subsection \<open>MySQL\<close>

definition MYSQL_ALLOWED_TYPES :: "string list" where
  "MYSQL_ALLOWED_TYPES = [''BIGINT'', ''BIGINT UNSIGNED'', ''BINARY'', ''BIT'', ''BLOB'', ''BOOL'', ''BOOLEAN'', ''CHAR'', ''DATE'',
     ''DATETIME'', ''DECIMAL'', ''DOUBLE'', ''DOUBLE PRECISION'', ''FLOAT'', ''INT'', ''INT UNSIGNED'', ''INTEGER'',
     ''INTEGER UNSIGNED'', ''JSON'', ''LONGBLOB'', ''LONGTEXT'', ''MEDIUMBLOB'', ''MEDIUMINT'', ''MEDIUMINT UNSIGNED'',
     ''MEDIUMTEXT'', ''NUMERIC'', ''REAL'', ''SMALLINT'', ''SMALLINT UNSIGNED'', ''TEXT'', ''TIME'', ''TIMESTAMP'', ''TINYBLOB'',
     ''TINYINT'', ''TINYINT UNSIGNED'', ''TINYTEXT'', ''VARBINARY'', ''VARCHAR'', ''YEAR'']"

definition MYSQL_PARAMETERIZED_TYPES :: "string list" where
  "MYSQL_PARAMETERIZED_TYPES = [''BINARY'', ''BIT'', ''CHAR'', ''DECIMAL'', ''NUMERIC'', ''TIME'', ''DATETIME'', ''TIMESTAMP'',
     ''TINYINT'', ''TINYINT UNSIGNED'', ''VARBINARY'', ''VARCHAR'']"

definition MYSQL_SAFE_DEFAULT_PATTERN :: rx where
  "MYSQL_SAFE_DEFAULT_PATTERN =
     Alts [digits_rx, WordCI ''true'', WordCI ''false'', WordCI ''null'', WordCI ''now()'',
           Seq (WordCI ''current_timestamp'') (Opt (Word ''()''))]"

definition mysql_validateType :: "string \<Rightarrow> string res" where
  "mysql_validateType ty =
     check_type alpha_char MYSQL_ALLOWED_TYPES MYSQL_PARAMETERIZED_TYPES (collapse_spaces (js_upper (js_trim ty))) ty"

definition mysql_validateDefault :: "string option \<Rightarrow> string option res" where
  "mysql_validateDefault v =
     check_default MYSQL_SAFE_DEFAULT_PATTERN ''now(), current_timestamp, true, false, null, or a non-negative integer'' js_lower v"

definition mysql_normalizeColumn :: "new_column \<Rightarrow> new_column res" where
  "mysql_normalizeColumn col =
     res_bind (mysql_validateDefault (ncDefault col)) (\<lambda>d.
     res_bind (mysql_validateType (ncType col)) (\<lambda>ty.
     Inr \<lparr>ncName = ncName col, ncType = ty, ncNullable = (if ncPrimaryKey col then False else ncNullable col),
          ncPrimaryKey = ncPrimaryKey col, ncAutoIncrement = ncAutoIncrement col, ncDefault = d\<rparr>))"

definition mysqlNormalizeCreateTable :: "create_table_request \<Rightarrow> create_table_request res" where
  "mysqlNormalizeCreateTable req =
     res_map (\<lambda>cs. req\<lparr>ctColumns := cs\<rparr>) (traverse mysql_normalizeColumn (ctColumns req))"

definition requireColumn :: "column_metadata list \<Rightarrow> string \<Rightarrow> column_metadata res" where
  "requireColumn columns c =
     (case find (\<lambda>x. colName x = c) columns of None \<Rightarrow> Inl (column_missing c) | Some col \<Rightarrow> Inr col)"

text \<open>The column as the catalogue has it, its bare type validated; the default is taken over as it is.\<close>

definition fromColumnMetadata :: "column_metadata \<Rightarrow> new_column res" where
  "fromColumnMetadata col =
     res_map (\<lambda>ty. \<lparr>ncName = colName col, ncType = ty, ncNullable = column_metadata.nullable col,
         ncPrimaryKey = isPrimaryKey col, ncAutoIncrement = autoIncrement col, ncDefault = defaultValue col\<rparr>)
       (mysql_validateType (dataType col))"

definition attachColumnDefinition :: "alter_op \<Rightarrow> new_column \<Rightarrow> normalized_alter" where
  "attachColumnDefinition op col = \<lparr>naOp = op, naDefinition = Some col, naNative = None\<rparr>"

definition mysqlNormalizeAlterTable ::
  "table_ref \<Rightarrow> alter_op \<Rightarrow> column_metadata list \<Rightarrow> normalized_alter res" where
  "mysqlNormalizeAlterTable ref op columns =
     (case op of
        AddForeignKey spec \<Rightarrow> res_map (\<lambda>s. plain_op (AddForeignKey s)) (normalizeAddForeignKey ref spec columns)
      | DropForeignKey name \<Rightarrow> res_map (\<lambda>_. plain_op op) (normalizeDropForeignKey name)
      | AddColumn col \<Rightarrow>
          res_bind (require (ncName col \<notin> set (map colName columns)) (column_taken (ncName col))) (\<lambda>_.
          res_map (\<lambda>c. attachColumnDefinition (AddColumn c) c) (mysql_normalizeColumn col))
      | DropColumn c \<Rightarrow> res_map (\<lambda>_. plain_op op) (check_drop columns c)
      | SetNotNull c b \<Rightarrow>
          res_bind (requireColumn columns c) (\<lambda>col.
          res_map (\<lambda>current. attachColumnDefinition op (current\<lparr>ncNullable := \<not> b\<rparr>)) (fromColumnMetadata col))
      | SetDefault c d \<Rightarrow>
          res_bind (requireColumn columns c) (\<lambda>col.
          res_bind (fromColumnMetadata col) (\<lambda>current.
          res_map (\<lambda>canon. attachColumnDefinition (SetDefault c canon) (current\<lparr>ncDefault := canon\<rparr>))
            (check_new_default mysql_validateDefault d)))
      | ChangeType c ty using_expr \<Rightarrow>
          res_bind (requireColumn columns c) (\<lambda>col.
          res_bind (fromColumnMetadata col) (\<lambda>current.
          res_map (\<lambda>ty'. attachColumnDefinition (ChangeType c ty' None) (current\<lparr>ncType := ty'\<rparr>)) (mysql_validateType ty)))
      | SetComment c comment \<Rightarrow>
          (case c of
             None \<Rightarrow> Inr (plain_op op)
           | Some c' \<Rightarrow>
               res_bind (requireColumn columns c') (\<lambda>col.
               case nativeDefinition col of
                 Some def \<Rightarrow>
                   if def \<noteq> [] then Inr \<lparr>naOp = op, naDefinition = None, naNative = Some def\<rparr>
                   else Inl (Unprocessable (''Cannot set a comment on column \"'' @ c' @
                          ''\": MySQL must restate the column definition, which is unavailable for generated columns''))
               | None \<Rightarrow> Inl (Unprocessable (''Cannot set a comment on column \"'' @ c' @
                          ''\": MySQL must restate the column definition, which is unavailable for generated columns'')))))"

definition mysqlNormalizeCreateIndex ::
  "create_index_request \<Rightarrow> (create_index_request \<times> string \<times> string) res" where
  "mysqlNormalizeCreateIndex req = normalize_index [''btree''] req"

subsection \<open>SQLite\<close>

definition SQLITE_COLUMN_TYPES :: "string list" where
  "SQLITE_COLUMN_TYPES = [''INTEGER'', ''TEXT'', ''REAL'', ''BLOB'', ''NUMERIC'']"

definition sqlite_validateType :: "string \<Rightarrow> string list \<Rightarrow> string res" where
  "sqlite_validateType ty columnTypes =
     (case find (\<lambda>candidate. js_lower candidate = js_lower (js_trim ty)) columnTypes of
        Some canonical \<Rightarrow> Inr canonical
      | None \<Rightarrow> Inl (Unprocessable (''Unsupported column type \"'' @ ty @ ''\". Allowed types: '' @ join '', '' columnTypes)))"

definition sqlite_validateDefault :: "string option \<Rightarrow> string option res" where
  "sqlite_validateDefault v = check_default SAFE_DEFAULT_PATTERN safe_default_text (\<lambda>t. t) v"

definition sqlite_normalizeColumn :: "string list \<Rightarrow> new_column \<Rightarrow> new_column res" where
  "sqlite_normalizeColumn columnTypes col =
     res_bind (sqlite_validateType (ncType col) columnTypes) (\<lambda>ty.
     res_bind (sqlite_validateDefault (ncDefault col)) (\<lambda>d.
     Inr \<lparr>ncName = ncName col, ncType = ty, ncNullable = ncNullable col, ncPrimaryKey = ncPrimaryKey col,
          ncAutoIncrement = False, ncDefault = d\<rparr>))"

definition sqliteNormalizeCreateTable :: "create_table_request \<Rightarrow> string list \<Rightarrow> create_table_request res" where
  "sqliteNormalizeCreateTable req columnTypes =
     res_map (\<lambda>cs. req\<lparr>ctColumns := cs\<rparr>) (traverse (sqlite_normalizeColumn columnTypes) (ctColumns req))"

definition sqliteNormalizeAlterTable ::
  "table_ref \<Rightarrow> alter_op \<Rightarrow> column_metadata list \<Rightarrow> string list \<Rightarrow> normalized_alter res" where
  "sqliteNormalizeAlterTable ref op columns columnTypes =
     res_map plain_op (case op of
        AddColumn col \<Rightarrow>
          res_bind (require (ncName col \<notin> set (map colName columns)) (column_taken (ncName col))) (\<lambda>_.
          res_bind (sqlite_validateType (ncType col) columnTypes) (\<lambda>ty.
          res_bind (sqlite_validateDefault (ncDefault col)) (\<lambda>d.
          Inr (AddColumn (col\<lparr>ncType := ty, ncNullable := (if ncPrimaryKey col then False else ncNullable col), ncDefault := d\<rparr>)))))
      | DropColumn c \<Rightarrow> res_map (\<lambda>_. op) (check_drop columns c)
      | SetNotNull c b \<Rightarrow> res_map (\<lambda>_. op) (assertExists columns c)
      | SetDefault c d \<Rightarrow>
          res_bind (assertExists columns c) (\<lambda>_. res_map (SetDefault c) (check_new_default sqlite_validateDefault d))
      | ChangeType c ty using_expr \<Rightarrow>
          res_bind (assertExists columns c) (\<lambda>_.
          res_map (\<lambda>ty'. ChangeType c ty' using_expr) (sqlite_validateType ty columnTypes))
      | AddForeignKey spec \<Rightarrow> Inl (Unprocessable ''SQLite does not support adding or dropping foreign key constraints'')
      | DropForeignKey name \<Rightarrow> Inl (Unprocessable ''SQLite does not support adding or dropping foreign key constraints'')
      | SetComment c comment \<Rightarrow> Inl (Unprocessable ''SQLite does not support table or column comments''))"

definition sqliteNormalizeCreateIndex ::
  "create_index_request \<Rightarrow> (create_index_request \<times> string \<times> string) res" where
  "sqliteNormalizeCreateIndex req = normalize_index [''btree''] req"

subsection \<open>By engine\<close>

definition normalizeCreateTable :: "engine \<Rightarrow> create_table_request \<Rightarrow> create_table_request res" where
  "normalizeCreateTable e req =
     (case e of Pg \<Rightarrow> pgNormalizeCreateTable req | Mysql \<Rightarrow> mysqlNormalizeCreateTable req
      | Sqlite \<Rightarrow> sqliteNormalizeCreateTable req SQLITE_COLUMN_TYPES)"

definition normalizeAlterTable ::
  "engine \<Rightarrow> table_ref \<Rightarrow> alter_op \<Rightarrow> column_metadata list \<Rightarrow> normalized_alter res" where
  "normalizeAlterTable e ref op columns =
     (case e of Pg \<Rightarrow> pgNormalizeAlterTable ref op columns | Mysql \<Rightarrow> mysqlNormalizeAlterTable ref op columns
      | Sqlite \<Rightarrow> sqliteNormalizeAlterTable ref op columns SQLITE_COLUMN_TYPES)"

definition normalizeCreateIndex ::
  "engine \<Rightarrow> create_index_request \<Rightarrow> (create_index_request \<times> string \<times> string) res" where
  "normalizeCreateIndex e =
     (case e of Pg \<Rightarrow> pgNormalizeCreateIndex | Mysql \<Rightarrow> mysqlNormalizeCreateIndex | Sqlite \<Rightarrow> sqliteNormalizeCreateIndex)"

end
