(* ===== verification/Json.thy ===== *)
theory Json
  imports JsValue Regex
begin

text \<open>
  \<open>JSON.parse\<close>, and that it reads back what \<open>JSON.stringify\<close> writes. A number that is no integer is kept with its text,
  as \<open>JSON.stringify\<close> writes it, and an integer is exact (a double past 2^53 would be rounded). An escape beyond
  the characters of the model's strings is not read. The theory opens with the order of an object's own
  properties, which both directions keep.
\<close>

subsection \<open>Objects by assignment\<close>

text \<open>An array index as a property name: a canonical decimal below 2^32 - 1. Such properties come first, in order.\<close>

definition array_index :: "string \<Rightarrow> nat option" where
  "array_index k =
     (if k \<noteq> [] \<and> list_all digit_char k \<and> (hd k \<noteq> CHR ''0'' \<or> k = ''0'') \<and> read_nat k < 4294967295
      then Some (read_nat k) else None)"

definition prop_before :: "string \<Rightarrow> string \<Rightarrow> bool" where
  "prop_before k k' =
     (case (array_index k, array_index k') of
        (Some a, Some b) \<Rightarrow> a < b | (Some a, None) \<Rightarrow> True | _ \<Rightarrow> False)"

text \<open>\<open>o[k] = v\<close> on an object: a property it has keeps its place.\<close>

fun js_put :: "string \<Rightarrow> 'v \<Rightarrow> (string \<times> 'v) list \<Rightarrow> (string \<times> 'v) list" where
  "js_put k v [] = [(k, v)]"
| "js_put k v (f # o') =
     (if fst f = k then (k, v) # o' else if prop_before k (fst f) then (k, v) # f # o' else f # js_put k v o')"

definition js_object :: "(string \<times> 'v) list \<Rightarrow> (string \<times> 'v) list" where
  "js_object fs = fold (\<lambda>f o'. js_put (fst f) (snd f) o') fs []"

text \<open>The entries of an object: distinct names in enumeration order.\<close>

definition enumerated :: "(string \<times> 'v) list \<Rightarrow> bool" where
  "enumerated fs \<longleftrightarrow> sorted_wrt (\<lambda>f g. fst f \<noteq> fst g \<and> \<not> prop_before (fst g) (fst f)) fs"

lemma js_put_last:
  "(\<And>f. f \<in> set fs \<Longrightarrow> fst f \<noteq> k \<and> \<not> prop_before k (fst f)) \<Longrightarrow> js_put k v fs = fs @ [(k, v)]"
  by (induction fs) auto

lemma js_object_enumerated: "enumerated fs \<Longrightarrow> js_object fs = fs"
  by (induction fs rule: rev_induct) (auto simp: js_object_def enumerated_def sorted_wrt_append js_put_last)

lemma enumerated_distinct: "enumerated fs \<Longrightarrow> distinct (map fst fs)"
  by (induction fs) (auto simp: enumerated_def image_iff)

subsection \<open>Strings\<close>

definition hex_value :: "char \<Rightarrow> nat option" where
  "hex_value c =
     (let n = of_char c :: nat in
      if 48 \<le> n \<and> n \<le> 57 then Some (n - 48)
      else if 97 \<le> n \<and> n \<le> 102 then Some (n - 87)
      else if 65 \<le> n \<and> n \<le> 70 then Some (n - 55) else None)"

definition hex_char :: "char \<Rightarrow> char \<Rightarrow> char \<Rightarrow> char \<Rightarrow> char option" where
  "hex_char a b c d =
     (case (hex_value a, hex_value b, hex_value c, hex_value d) of
        (Some w, Some x, Some y, Some z) \<Rightarrow> if w = 0 \<and> x = 0 then Some (char_of (16 * y + z)) else None
      | _ \<Rightarrow> None)"

definition json_unescape :: "char \<Rightarrow> char option" where
  "json_unescape e =
     (if e = CHR 0x22 \<or> e = CHR 0x5C \<or> e = CHR ''/'' then Some e
      else if e = CHR ''b'' then Some CHR 0x08 else if e = CHR ''f'' then Some CHR 0x0C
      else if e = CHR ''n'' then Some CHR 0x0A else if e = CHR ''r'' then Some CHR 0x0D
      else if e = CHR ''t'' then Some CHR 0x09 else None)"

definition add_char :: "char option \<Rightarrow> (string \<times> string) option \<Rightarrow> (string \<times> string) option" where
  "add_char c r = (case (c, r) of (Some x, Some (s, u)) \<Rightarrow> Some (x # s, u) | _ \<Rightarrow> None)"

text \<open>The text of a string literal after its quote, and the rest after the closing quote.\<close>

fun json_chars :: "string \<Rightarrow> (string \<times> string) option" where
  "json_chars [] = None"
| "json_chars (c # s) =
     (if c = CHR 0x22 then Some ([], s)
      else if c = CHR 0x5C then
        (case s of
           [] \<Rightarrow> None
         | e # r \<Rightarrow>
             if e = CHR ''u'' then
               (case r of a # b # x # d # r' \<Rightarrow> add_char (hex_char a b x d) (json_chars r') | _ \<Rightarrow> None)
             else add_char (json_unescape e) (json_chars r))
      else if (of_char c :: nat) < 32 then None
      else add_char (Some c) (json_chars s))"

subsection \<open>Values\<close>

definition json_space :: "char \<Rightarrow> bool" where
  "json_space c \<longleftrightarrow> c \<in> {CHR '' '', CHR 0x09, CHR 0x0A, CHR 0x0D}"

definition skip_space :: "string \<Rightarrow> string" where
  "skip_space s = dropWhile json_space s"

definition number_char :: "char \<Rightarrow> bool" where
  "number_char c \<longleftrightarrow> digit_char c \<or> c \<in> {CHR ''-'', CHR ''+'', CHR ''.'', CHR ''e'', CHR ''E''}"

definition integer_text :: "string \<Rightarrow> bool" where
  "integer_text t \<longleftrightarrow> (let ds = (if starts_with ''-'' t then tl t else t)
       in ds \<noteq> [] \<and> list_all digit_char ds \<and> (hd ds = CHR ''0'' \<longrightarrow> ds = ''0''))"

definition json_number_rx :: rx where
  "json_number_rx =
     Seqs [Opt (Lit CHR ''-''),
           Alt (Lit CHR ''0'') (Seq (Cls (\<lambda>c. digit_char c \<and> c \<noteq> CHR ''0'')) (Star (Cls digit_char))),
           Opt (Seq (Lit CHR ''.'') (Plus (Cls digit_char))),
           Opt (Seqs [Cls (\<lambda>c. c = CHR ''e'' \<or> c = CHR ''E''), Opt (Cls (\<lambda>c. c = CHR ''+'' \<or> c = CHR ''-'')),
                      Plus (Cls digit_char)])]"

definition json_number :: "string \<Rightarrow> js_val option" where
  "json_number t =
     (if integer_text t
      then Some (JNum (if starts_with ''-'' t then - int (read_nat (tl t)) else int (read_nat t)))
      else if rx_match json_number_rx t then Some (JDec t) else None)"

fun json_value :: "nat \<Rightarrow> string \<Rightarrow> (js_val \<times> string) option"
and json_items :: "nat \<Rightarrow> string \<Rightarrow> (js_val list \<times> string) option"
and json_members :: "nat \<Rightarrow> string \<Rightarrow> ((string \<times> js_val) list \<times> string) option" where
  "json_value 0 s = None"
| "json_value (Suc n) s =
     (case skip_space s of
        [] \<Rightarrow> None
      | c # r \<Rightarrow>
          if c = CHR 0x22 then map_option (\<lambda>(x, u). (JStr x, u)) (json_chars r)
          else if c = CHR ''['' then
            (if starts_with '']'' (skip_space r) then Some (JArr [], tl (skip_space r))
             else map_option (\<lambda>(xs, u). (JArr xs, u)) (json_items n r))
          else if c = CHR ''{'' then
            (if starts_with ''}'' (skip_space r) then Some (JObj [], tl (skip_space r))
             else map_option (\<lambda>(fs, u). (JObj (js_object fs), u)) (json_members n r))
          else if starts_with ''true'' (c # r) then Some (JBool True, drop 4 (c # r))
          else if starts_with ''false'' (c # r) then Some (JBool False, drop 5 (c # r))
          else if starts_with ''null'' (c # r) then Some (JNull, drop 4 (c # r))
          else map_option (\<lambda>v. (v, dropWhile number_char (c # r))) (json_number (takeWhile number_char (c # r))))"
| "json_items 0 s = None"
| "json_items (Suc n) s =
     (case json_value n s of
        None \<Rightarrow> None
      | Some (v, u) \<Rightarrow>
          (case skip_space u of
             [] \<Rightarrow> None
           | c # r \<Rightarrow>
               if c = CHR '','' then map_option (\<lambda>(vs, w). (v # vs, w)) (json_items n r)
               else if c = CHR '']'' then Some ([v], r) else None))"
| "json_members 0 s = None"
| "json_members (Suc n) s =
     (case skip_space s of
        [] \<Rightarrow> None
      | q # k \<Rightarrow>
          if q \<noteq> CHR 0x22 then None
          else (case json_chars k of
             None \<Rightarrow> None
           | Some (name, u) \<Rightarrow>
               (case skip_space u of
                  [] \<Rightarrow> None
                | d # x \<Rightarrow>
                    if d \<noteq> CHR '':'' then None
                    else (case json_value n x of
                       None \<Rightarrow> None
                     | Some (v, y) \<Rightarrow>
                         (case skip_space y of
                            [] \<Rightarrow> None
                          | c # r \<Rightarrow>
                              if c = CHR '','' then map_option (\<lambda>(fs, w). ((name, v) # fs, w)) (json_members n r)
                              else if c = CHR ''}'' then Some ([(name, v)], r) else None)))))"

text \<open>The fuel is one for each character of the text, which is more than any value needs.\<close>

definition json_parse :: "string \<Rightarrow> js_val option" where
  "json_parse s =
     (case json_value (Suc (length s)) s of
        Some (v, r) \<Rightarrow> if skip_space r = [] then Some v else None
      | None \<Rightarrow> None)"

subsection \<open>Reading back\<close>

lemma hex_value_digit: "d < 16 \<Longrightarrow> hex_value (hex_digit d) = Some d"
  by (auto simp: hex_value_def hex_digit_def Let_def)

lemma hex_char_byte:
  assumes "(of_char c :: nat) < 32"
  shows "hex_char CHR ''0'' CHR ''0'' (hex_digit (of_char c div 16)) (hex_digit (of_char c mod 16)) = Some c"
proof -
  have "hex_value CHR ''0'' = Some 0" by (simp add: hex_value_def)
  moreover have "16 * ((of_char c :: nat) div 16) + of_char c mod 16 = of_char c" by (rule mult_div_mod_eq)
  ultimately show ?thesis
    using assms by (simp add: hex_char_def hex_value_digit)
qed

lemma json_chars_escaped:
  "json_chars (json_escape_char c @ s) = add_char (Some c) (json_chars s)"
proof (cases "c \<in> {CHR 0x22, CHR 0x5C, CHR 0x08, CHR 0x0C, CHR 0x0A, CHR 0x0D, CHR 0x09}")
  case True
  then show ?thesis by (auto simp: json_escape_char_def json_unescape_def)
next
  case False
  then show ?thesis
    using hex_char_byte [of c]
    by (cases "(of_char c :: nat) < 32") (simp_all add: json_escape_char_def hex_byte_def Let_def)
qed

lemma json_chars_string: "json_chars (concat (map json_escape_char s) @ CHR 0x22 # r) = Some (s, r)"
  by (induction s) (simp_all add: json_chars_escaped add_char_def)

definition decimal_text :: "string \<Rightarrow> bool" where
  "decimal_text s \<longleftrightarrow> rx_match json_number_rx s \<and> \<not> integer_text s"

text \<open>The values that \<open>JSON.parse\<close> makes: what arrives over the wire.\<close>

fun json_data :: "js_val \<Rightarrow> bool" where
  "json_data JNull = True"
| "json_data (JBool b) = True"
| "json_data (JNum i) = True"
| "json_data (JDec s) = decimal_text s"
| "json_data (JStr s) = True"
| "json_data (JArr vs) = list_all json_data vs"
| "json_data (JObj fs) = (enumerated fs \<and> list_all (\<lambda>f. json_data (snd f)) fs)"
| "json_data v = False"

definition value_end :: "string \<Rightarrow> bool" where
  "value_end r \<longleftrightarrow> r = [] \<or> hd r \<in> {CHR '','', CHR '']'', CHR ''}''}"

definition reads :: "js_val \<Rightarrow> string \<Rightarrow> bool" where
  "reads v t \<longleftrightarrow> t \<noteq> [] \<and> \<not> json_space (hd t) \<and> hd t \<noteq> CHR '']'' \<and> hd t \<noteq> CHR ''}'' \<and>
     (\<forall>n r. value_end r \<longrightarrow> length t < n \<longrightarrow> json_value n (t @ r) = Some (v, r))"

lemma skip_space_stop: "s = [] \<or> \<not> json_space (hd s) \<Longrightarrow> skip_space s = s"
  by (cases s) (auto simp: skip_space_def)

lemma skip_space_Cons: "\<not> json_space c \<Longrightarrow> skip_space (c # s) = c # s"
  by (simp add: skip_space_def)

lemma punctuation_not_space [simp]:
  "\<not> json_space CHR '',''" "\<not> json_space CHR '']''" "\<not> json_space CHR ''}''" "\<not> json_space CHR '':''" "\<not> json_space CHR 0x22"
  "\<not> json_space CHR ''[''" "\<not> json_space CHR ''{''" "\<not> json_space CHR ''t''" "\<not> json_space CHR ''f''" "\<not> json_space CHR ''n''"
  by (simp_all add: json_space_def)

lemma reads_items:
  "list_all2 reads vs ts \<Longrightarrow> vs \<noteq> [] \<Longrightarrow> length (join '','' ts) + 1 < n \<Longrightarrow>
   json_items n (join '','' ts @ CHR '']'' # r) = Some (vs, r)"
proof (induction vs ts arbitrary: n rule: list_all2_induct)
  case (Cons v vs t ts)
  obtain m where n: "n = Suc m" using Cons.prems(2) by (cases n) auto
  show ?case
  proof (cases "vs = []")
    case True
    then have "ts = []" using Cons.hyps(2) by simp
    with True show ?thesis
      using Cons.hyps(1) Cons.prems(2) by (auto simp: reads_def n value_end_def skip_space_Cons)
  next
    case False
    then have ts: "ts \<noteq> []" using Cons.hyps(2) by auto
    have "length t < m" "length (join '','' ts) + 1 < m"
      using Cons.prems(2) Cons.hyps(1) ts by (auto simp: n join_Cons reads_def dest: length_greater_0_conv [THEN iffD2])
    then show ?thesis
      using Cons.IH [OF False, of m] Cons.hyps(1) ts by (auto simp: reads_def n join_Cons value_end_def skip_space_Cons)
  qed
qed simp

definition reads_member :: "string \<times> js_val \<Rightarrow> string \<Rightarrow> bool" where
  "reads_member f t \<longleftrightarrow> (\<exists>x. t = json_string (fst f) @ '':'' @ x \<and> reads (snd f) x)"

lemma reads_members:
  "list_all2 reads_member fs ts \<Longrightarrow> fs \<noteq> [] \<Longrightarrow> length (join '','' ts) + 1 < n \<Longrightarrow>
   json_members n (join '','' ts @ CHR ''}'' # r) = Some (fs, r)"
proof (induction fs ts arbitrary: n rule: list_all2_induct)
  case (Cons f fs t ts)
  obtain m where n: "n = Suc m" using Cons.prems(2) by (cases n) auto
  obtain x where x: "t = json_string (fst f) @ '':'' @ x" "reads (snd f) x" using Cons.hyps(1) by (auto simp: reads_member_def)
  show ?case
  proof (cases "fs = []")
    case True
    then have "ts = []" using Cons.hyps(2) by simp
    with True show ?thesis
      using x Cons.prems(2) by (auto simp: reads_def n value_end_def skip_space_Cons json_string_def json_chars_string)
  next
    case False
    then have ts: "ts \<noteq> []" using Cons.hyps(2) by auto
    have "length x < m" "length (join '','' ts) + 1 < m"
      using Cons.prems(2) ts by (auto simp: n join_Cons x(1) json_string_def)
    then show ?thesis
      using Cons.IH [OF False, of m] x ts
      by (auto simp: reads_def n join_Cons value_end_def skip_space_Cons json_string_def json_chars_string)
  qed
qed simp

lemma digit_number [simp]: "digit_char c \<Longrightarrow> number_char c"
  by (simp add: number_char_def)

lemma digit_plain:
  assumes "digit_char c"
  shows "c \<notin> {CHR 0x22, CHR ''['', CHR ''{'', CHR '']'', CHR ''}'', CHR ''t'', CHR ''f'', CHR ''n'', CHR ''-''} \<and> \<not> json_space c"
  using assms by (auto simp: digit_char_def json_space_def)

lemma value_end_span:
  assumes "value_end r" "list_all number_char t"
  shows "takeWhile number_char (t @ r) = t" "dropWhile number_char (t @ r) = r"
proof -
  have "r = [] \<or> \<not> number_char (hd r)" using assms(1) by (auto simp: value_end_def number_char_def digit_char_def)
  then have "takeWhile number_char r = []" "dropWhile number_char r = r" by (cases r; simp)+
  then show "takeWhile number_char (t @ r) = t" "dropWhile number_char (t @ r) = r"
    using assms(2) by (simp_all add: takeWhile_append2 dropWhile_append2 list_all_iff)
qed

lemma starts_with_Nil [simp]: "starts_with [] s"
  by (simp add: starts_with_def)

lemma starts_with_Cons [simp]: "starts_with (p # ps) (c # s) \<longleftrightarrow> c = p \<and> starts_with ps s"
  by (auto simp: starts_with_def)

lemma number_text:
  assumes "rx_match json_number_rx t"
  shows "list_all number_char t" "t \<noteq> []" "hd t = CHR ''-'' \<or> digit_char (hd t)"
proof -
  have "rx_chars number_char json_number_rx" by (auto simp: json_number_rx_def number_char_def digit_char_def)
  then show "list_all number_char t" using rx_match_chars assms by blast
  have "t \<noteq> [] \<and> (hd t = CHR ''-'' \<or> digit_char (hd t))"
    using assms by (auto simp: rx_match_in_lang json_number_rx_def rx_defs digit_char_def)
  then show "t \<noteq> []" "hd t = CHR ''-'' \<or> digit_char (hd t)" by auto
qed

lemma reads_number:
  assumes "list_all number_char t" "t \<noteq> []" "hd t = CHR ''-'' \<or> digit_char (hd t)" "json_number t = Some v"
  shows "reads v t"
proof -
  obtain c s where t: "t = c # s" using assms(2) by (cases t) auto
  have c: "c \<notin> {CHR 0x22, CHR ''['', CHR ''{'', CHR '']'', CHR ''}'', CHR ''t'', CHR ''f'', CHR ''n''}" "\<not> json_space c"
    using assms(3) digit_plain [of c] unfolding t list.sel by (elim disjE; simp add: json_space_def)+
  have "json_value n (t @ r) = Some (v, r)" if r: "value_end r" and len: "length t < n" for n r
  proof -
    obtain m where n: "n = Suc m" using len by (cases n) auto
    have "skip_space (t @ r) = c # s @ r" using c(2) by (simp add: t skip_space_Cons)
    then have "json_value (Suc m) (t @ r) =
        map_option (\<lambda>v. (v, dropWhile number_char (c # s @ r))) (json_number (takeWhile number_char (c # s @ r)))"
      using c(1) by (simp del: takeWhile.simps dropWhile.simps)
    moreover have "takeWhile number_char (c # s @ r) = c # s" "dropWhile number_char (c # s @ r) = r"
      using value_end_span [OF r assms(1)] by (simp_all add: t)
    ultimately have "json_value (Suc m) (t @ r) = map_option (\<lambda>v. (v, r)) (json_number (c # s))" by (simp only:)
    then show ?thesis using assms(4) by (simp add: n t)
  qed
  then show ?thesis using c by (simp add: reads_def t)
qed

lemma show_nat_first: "0 < n \<Longrightarrow> hd (show_nat n) \<noteq> CHR ''0''"
proof (induction n rule: show_nat.induct)
  case (1 n)
  show ?case
  proof (cases "n < 10")
    case True
    then have "n \<in> {1, 2, 3, 4, 5, 6, 7, 8, 9}" using 1(2) by auto
    then show ?thesis by (auto simp: show_nat_digit)
  next
    case False
    then show ?thesis using 1 show_nat_nonempty [of "n div 10"] by (simp add: show_nat_step hd_append)
  qed
qed

lemma show_nat_head: "show_nat n = x # s \<Longrightarrow> digit_char x"
  using show_nat_digits [of x n] by simp

lemma show_nat_zero: "show_nat n = CHR ''0'' # s \<Longrightarrow> s = []"
  using show_nat_first [of n] by (cases "n = 0") (auto simp: show_nat_digit)

lemma integer_show_nat: "integer_text (show_nat n)" "integer_text (CHR ''-'' # show_nat n)" "\<not> starts_with ''-'' (show_nat n)"
proof -
  obtain c s where eq: "show_nat n = c # s" using show_nat_nonempty [of n] by (cases "show_nat n") auto
  have "list_all digit_char (show_nat n)" using show_nat_digits by (auto simp: list_all_iff)
  moreover have "c \<noteq> CHR ''-''" using show_nat_head [OF eq] digit_plain [of c] by simp
  moreover have "c = CHR ''0'' \<longrightarrow> s = []" using show_nat_zero [of n s] eq by blast
  ultimately show "integer_text (show_nat n)" "integer_text (CHR ''-'' # show_nat n)" "\<not> starts_with ''-'' (show_nat n)"
    by (simp_all add: integer_text_def eq)
qed

lemma json_number_int: "json_number (show_int i) = Some (JNum i)" "list_all number_char (show_int i)" "show_int i \<noteq> []"
    "hd (show_int i) = CHR ''-'' \<or> digit_char (hd (show_int i))"
proof -
  show "json_number (show_int i) = Some (JNum i)"
    using integer_show_nat by (simp add: json_number_def show_int_def)
  show "list_all number_char (show_int i)"
    using show_nat_digits by (auto simp: show_int_def list_all_iff number_char_def)
  show "show_int i \<noteq> []" using show_nat_nonempty by (simp add: show_int_def)
  show "hd (show_int i) = CHR ''-'' \<or> digit_char (hd (show_int i))"
    using show_nat_head by (cases "show_nat (nat i)") (auto simp: show_int_def show_nat_nonempty)
qed

lemma reads_word:
  assumes "t \<in> {''true'', ''false'', ''null''}" "v = (if t = ''true'' then JBool True else if t = ''false'' then JBool False else JNull)"
  shows "reads v t"
proof -
  have "json_value n (t @ r) = Some (v, r)" if "length t < n" for n r
    using assms that by (cases n) (auto simp: skip_space_Cons starts_with_def)
  then show ?thesis using assms by (auto simp: reads_def)
qed

lemma reads_string: "reads (JStr s) (json_string s)"
proof -
  have "json_value n (json_string s @ r) = Some (JStr s, r)" if "length (json_string s) < n" for n r
    using that by (cases n) (simp_all add: json_string_def skip_space_Cons json_chars_string)
  then show ?thesis by (simp add: reads_def json_string_def)
qed

lemma join_first: "ts \<noteq> [] \<Longrightarrow> hd ts \<noteq> [] \<Longrightarrow> join sep ts \<noteq> [] \<and> hd (join sep ts) = hd (hd ts)"
  by (cases ts; cases "tl ts") auto

lemma reads_array:
  assumes "list_all2 reads vs ts"
  shows "reads (JArr vs) (''['' @ join '','' ts @ '']'')"
proof -
  have "json_value n (''['' @ join '','' ts @ '']'' @ r) = Some (JArr vs, r)" if len: "length (join '','' ts) + 2 < n" for n r
  proof (cases "vs = []")
    case True
    then show ?thesis using assms len by (cases n) (auto simp: skip_space_Cons starts_with_def)
  next
    case False
    obtain m where n: "n = Suc m" using len by (cases n) auto
    have ts: "ts \<noteq> []" "reads (hd vs) (hd ts)" using False assms by (cases vs; cases ts; auto)+
    then have "join '','' ts \<noteq> []" "\<not> json_space (hd (join '','' ts))" "hd (join '','' ts) \<noteq> CHR '']''"
      using join_first [of ts "'',''"] by (auto simp: reads_def)
    then have "skip_space (join '','' ts @ CHR '']'' # r) = join '','' ts @ CHR '']'' # r"
      "\<not> starts_with '']'' (join '','' ts @ CHR '']'' # r)"
      by (cases "join '','' ts"; simp add: skip_space_Cons starts_with_def)+
    then show ?thesis
      using reads_items [OF assms False, of m r] len by (simp add: n skip_space_Cons)
  qed
  then show ?thesis by (simp add: reads_def)
qed

lemma reads_object:
  assumes "list_all2 reads_member fs ts" and enum: "enumerated fs"
  shows "reads (JObj fs) (''{'' @ join '','' ts @ ''}'')"
proof -
  have "json_value n (''{'' @ join '','' ts @ ''}'' @ r) = Some (JObj fs, r)" if len: "length (join '','' ts) + 2 < n" for n r
  proof (cases "fs = []")
    case True
    then show ?thesis using assms len by (cases n) (auto simp: skip_space_Cons starts_with_def)
  next
    case False
    obtain m where n: "n = Suc m" using len by (cases n) auto
    have ts: "ts \<noteq> []" "reads_member (hd fs) (hd ts)" using False assms by (cases fs; cases ts; auto)+
    then have "join '','' ts \<noteq> []" "hd (join '','' ts) = CHR 0x22"
      using join_first [of ts "'',''"] by (auto simp: reads_member_def json_string_def)
    then have "skip_space (join '','' ts @ CHR ''}'' # r) = join '','' ts @ CHR ''}'' # r"
      "\<not> starts_with ''}'' (join '','' ts @ CHR ''}'' # r)"
      by (cases "join '','' ts"; simp add: skip_space_Cons starts_with_def)+
    then show ?thesis
      using reads_members [OF assms(1) False, of m r] len by (simp add: n skip_space_Cons js_object_enumerated [OF enum])
  qed
  then show ?thesis by (simp add: reads_def)
qed

lemma traverse_reads:
  assumes "\<And>x t. x \<in> set xs \<Longrightarrow> f x = Inr t \<Longrightarrow> R x t" "traverse f xs = Inr ts"
  shows "list_all2 R xs ts"
  using assms by (induction xs arbitrary: ts) (auto simp: res_simps)

lemma json_stringify_reads: "json_stringify v = Inr t \<Longrightarrow> json_data v \<Longrightarrow> reads v t"
proof (induction v arbitrary: t rule: json_stringify.induct)
  case (4 i)
  then have "t = show_int i" by simp
  then show ?case using reads_number [OF json_number_int(2,3,4,1)] by simp
next
  case (5 s)
  then have s: "rx_match json_number_rx s" "\<not> integer_text s" "t = s" by (auto simp: decimal_text_def)
  then show ?case using reads_number [OF number_text(1-3) [OF s(1)], of "JDec s"] by (simp add: json_number_def)
next
  case (11 vs)
  then obtain ts where ts: "traverse json_stringify vs = Inr ts" "t = ''['' @ join '','' ts @ '']''" by (auto simp: res_simps)
  have "list_all2 reads vs ts"
    using 11 ts(1) by (intro traverse_reads [of vs json_stringify]) (auto simp: list_all_iff)
  then show ?case using reads_array ts(2) by simp
next
  case (12 fs)
  have all: "filter (\<lambda>f. snd f \<noteq> JUndef) fs = fs" using 12(3) by (auto simp: list_all_iff intro!: filter_True)
  then obtain ts where ts: "traverse (\<lambda>f. res_map (\<lambda>t. json_string (fst f) @ '':'' @ t) (json_stringify (snd f))) fs = Inr ts"
    "t = ''{'' @ join '','' ts @ ''}''"
    using 12(2) by (auto simp: res_simps)
  have "list_all2 reads_member fs ts"
  proof (rule traverse_reads [OF _ ts(1)])
    fix f t' assume f: "f \<in> set fs" "res_map (\<lambda>t. json_string (fst f) @ '':'' @ t) (json_stringify (snd f)) = Inr t'"
    then obtain x where x: "json_stringify (snd f) = Inr x" "t' = json_string (fst f) @ '':'' @ x" by (auto simp: res_simps)
    have "json_data (snd f)" using 12(3) f(1) by (auto simp: list_all_iff)
    then have "reads (snd f) x" using 12(1) f(1) x(1) all by auto
    then show "reads_member f t'" using x(2) by (auto simp: reads_member_def)
  qed
  then show ?case using reads_object 12(3) ts(2) by simp
qed (auto intro: reads_word reads_string)

lemma json_round_trip:
  assumes "json_data v" "json_stringify v = Inr t"
  shows "json_parse t = Some v"
proof -
  have "reads v t" using json_stringify_reads assms by blast
  then have "json_value (Suc (length t)) (t @ []) = Some (v, [])"
    unfolding reads_def value_end_def by blast
  then show ?thesis by (simp add: json_parse_def skip_space_def)
qed

lemma traverse_ok: "(\<And>x. x \<in> set xs \<Longrightarrow> \<exists>y. f x = Inr y) \<Longrightarrow> \<exists>ys. traverse f xs = Inr ys"
  by (induction xs) (auto simp: res_simps, fastforce)

lemma json_data_stringify: "json_data v \<Longrightarrow> \<exists>t. json_stringify v = Inr t"
proof (induction v rule: json_stringify.induct)
  case (11 vs)
  then have "\<exists>ts. traverse json_stringify vs = Inr ts" by (intro traverse_ok) (auto simp: list_all_iff)
  then show ?case by (auto simp: res_map_ok)
next
  case (12 fs)
  then have "\<exists>ts. traverse (\<lambda>f. res_map (\<lambda>t. json_string (fst f) @ '':'' @ t) (json_stringify (snd f))) (filter (\<lambda>f. snd f \<noteq> JUndef) fs) = Inr ts"
    by (intro traverse_ok) (auto simp: list_all_iff res_map_ok)
  then show ?case by (auto simp: res_map_ok)
qed auto

end
