(* ===== verification/AppData.thy ===== *)
theory AppData
  imports DdlNormalize Json
begin

text \<open>
  The application's own database: the connections, query history, snippets, conversations and model endpoints of its users, with the
  services and controllers over them (\<open>connections/connections.service.ts\<close>, \<open>history/history.service.ts\<close>,
  \<open>snippets/snippet.service.ts\<close>, \<open>conversations/conversation.service.ts\<close>, \<open>ai/llm-endpoint.service.ts\<close>). A table is the list of its rows in the order they
  were made, an instant its number of milliseconds (an answer carries the number where the code writes its ISO text), and
  a call comes with the instant and the fresh identifier it uses. \<open>orderBy\<close> is stable. The cascades and the uniqueness
  are those of \<open>schema.prisma\<close>; \<open>dbEvicted\<close> are the pools the services had evicted. A null in a request is not
  told from an absent field. What a service asks of other parts is the record \<open>app_env\<close>.
\<close>

subsection \<open>Rows\<close>

record connection_row =
  cnId :: string
  cnUserId :: string
  cnName :: string
  cnEngine :: string
  cnHost :: string
  cnPort :: nat
  cnDatabase :: string
  cnUsername :: string
  cnEncryptedCredentials :: string
  cnSslEnabled :: bool
  cnSslRejectUnauthorized :: bool
  cnEnvironment :: string
  cnReadOnly :: bool
  cnSshEnabled :: bool
  cnSshHost :: "string option"
  cnSshPort :: "nat option"
  cnSshUsername :: "string option"
  cnSshAuthMethod :: "string option"
  cnEncryptedSshSecret :: "string option"
  cnSshKeyPassphrase :: "string option"
  cnSshHostFingerprint :: "string option"
  cnCreatedAt :: nat
  cnUpdatedAt :: nat

record history_row =
  hiId :: string
  hiUserId :: string
  hiConnectionId :: string
  hiSql :: string
  hiStarred :: bool
  hiLabel :: "string option"
  hiExecutedAt :: nat

record snippet_row =
  snId :: string
  snUserId :: string
  snName :: string
  snBody :: string
  snCreatedAt :: nat
  snUpdatedAt :: nat

record conversation_row =
  cvId :: string
  cvUserId :: string
  cvConnectionId :: string
  cvTitle :: "string option"
  cvCreatedAt :: nat
  cvUpdatedAt :: nat

record message_row =
  mgConversationId :: string
  mgRole :: string
  mgContent :: string
  mgCreatedAt :: nat

record endpoint_row =
  leId :: string
  leUserId :: string
  leName :: string
  leBaseUrl :: string
  leEncryptedApiKey :: string
  leModels :: string
  leContextBudget :: "nat option"
  leMaxOutputTokens :: "nat option"
  leCreatedAt :: nat

record app_db =
  dbConnections :: "connection_row list"
  dbHistory :: "history_row list"
  dbSnippets :: "snippet_row list"
  dbConversations :: "conversation_row list"
  dbMessages :: "message_row list"
  dbEndpoints :: "endpoint_row list"
  dbEvicted :: "string list"

subsection \<open>Answers and requests\<close>

record ssh_info =
  siEnabled :: bool
  siHost :: "string option"
  siPort :: "nat option"
  siUsername :: "string option"
  siAuthMethod :: "string option"
  siHostFingerprint :: "string option"

record connection_dto =
  cdId :: string
  cdName :: string
  cdEngine :: string
  cdHost :: string
  cdPort :: nat
  cdDatabase :: string
  cdUsername :: string
  cdSslEnabled :: bool
  cdSslRejectUnauthorized :: bool
  cdEnvironment :: string
  cdSsh :: ssh_info
  cdHasSchemas :: bool
  cdReadOnly :: bool
  cdCreatedAt :: nat
  cdUpdatedAt :: nat

record history_dto =
  hdId :: string
  hdConnectionId :: string
  hdConnectionName :: string
  hdSql :: string
  hdExecutedAt :: nat
  hdStarred :: bool
  hdLabel :: "string option"

record history_export =
  heSql :: string
  heExecutedAt :: nat
  heConnectionName :: string
  heStarred :: bool
  heLabel :: "string option"

record snippet_dto =
  sdId :: string
  sdName :: string
  sdBody :: string
  sdCreatedAt :: nat
  sdUpdatedAt :: nat

record conversation_dto =
  vdId :: string
  vdConnectionId :: string
  vdTitle :: "string option"
  vdCreatedAt :: nat
  vdUpdatedAt :: nat

record endpoint_dto =
  ldId :: string
  ldName :: string
  ldBaseUrl :: string
  ldModels :: "js_val list"
  ldHasApiKey :: bool
  ldContextBudget :: "nat option"
  ldMaxOutputTokens :: "nat option"
  ldCreatedAt :: nat

record ssh_fields =
  sfEnabled :: "bool option"
  sfHost :: "string option"
  sfPort :: "nat option"
  sfUsername :: "string option"
  sfAuthMethod :: "string option"
  sfSecret :: "string option"
  sfKeyPassphrase :: "string option"

record connection_request = ssh_fields +
  ccName :: string
  ccEngine :: "string option"
  ccHost :: string
  ccPort :: nat
  ccDatabase :: string
  ccUsername :: string
  ccPassword :: string
  ccSslEnabled :: bool
  ccSslRejectUnauthorized :: bool
  ccEnvironment :: string
  ccReadOnly :: bool

record connection_change = ssh_fields +
  ucName :: "string option"
  ucHost :: "string option"
  ucPort :: "nat option"
  ucDatabase :: "string option"
  ucUsername :: "string option"
  ucPassword :: "string option"
  ucSslEnabled :: "bool option"
  ucSslRejectUnauthorized :: "bool option"
  ucEnvironment :: "string option"
  ucReadOnly :: "bool option"

record connection_trial = ssh_fields +
  tcId :: "string option"
  tcEngine :: "string option"
  tcHost :: "string option"
  tcPort :: "nat option"
  tcDatabase :: "string option"
  tcUsername :: "string option"
  tcPassword :: "string option"
  tcSslEnabled :: "bool option"
  tcSslRejectUnauthorized :: "bool option"

record endpoint_request =
  erName :: string
  erBaseUrl :: string
  erApiKey :: string
  erModels :: "string list"
  erContextBudget :: "nat option"
  erMaxOutputTokens :: "nat option"

text \<open>Of an endpoint's budgets a null is told from an absent field: it clears the budget.\<close>

record endpoint_change =
  euName :: "string option"
  euBaseUrl :: "string option"
  euApiKey :: "string option"
  euModels :: "string list option"
  euContextBudget :: "nat option option"
  euMaxOutputTokens :: "nat option option"

record connection_params =
  cpHost :: string
  cpPort :: nat
  cpDatabase :: string
  cpUsername :: string
  cpPassword :: string
  cpSslEnabled :: bool
  cpSslRejectUnauthorized :: bool

record ssh_endpoint =
  seHost :: string
  sePort :: nat
  seUsername :: string
  seAuthMethod :: string
  seSecret :: string
  sePassphrase :: "string option"

record test_result =
  trOk :: bool
  trMessage :: string

text \<open>
  What the services ask for: the schema support of a registered engine, the cipher (the number tells the draws of one call
  apart), the URL of its own database, \<open>path.resolve\<close> from the schema directory, the connection test of the pool manager, and the
  database's \<open>contains\<close>.
\<close>

record app_env =
  aeEngine :: "string \<Rightarrow> bool option"
  aeEncrypt :: "nat \<Rightarrow> string \<Rightarrow> string"
  aeDecrypt :: "string \<Rightarrow> string"
  aeDatabaseUrl :: string
  aeResolve :: "string \<Rightarrow> string"
  aeTest :: "string \<Rightarrow> connection_params \<Rightarrow> ssh_endpoint option \<Rightarrow> test_result"
  aeContains :: "string \<Rightarrow> string \<Rightarrow> bool"

text \<open>What a call draws from outside: the instant, an identifier for the row it may create, the cipher's randomness.\<close>

record stamp =
  stNow :: nat
  stUuid :: string
  stNonce :: nat

type_synonym 'a app_op = "app_db \<Rightarrow> 'a res \<times> app_db"

subsection \<open>Tables\<close>

definition find_row :: "('r \<Rightarrow> string) \<Rightarrow> string \<Rightarrow> 'r list \<Rightarrow> 'r option" where
  "find_row key k t = find (\<lambda>r. key r = k) t"

definition update_row :: "('r \<Rightarrow> string) \<Rightarrow> string \<Rightarrow> ('r \<Rightarrow> 'r) \<Rightarrow> 'r list \<Rightarrow> 'r list" where
  "update_row key k f t = map (\<lambda>r. if key r = k then f r else r) t"

definition delete_row :: "('r \<Rightarrow> string) \<Rightarrow> string \<Rightarrow> 'r list \<Rightarrow> 'r list" where
  "delete_row key k t = filter (\<lambda>r. key r \<noteq> k) t"

definition ascending :: "('r \<Rightarrow> nat) \<Rightarrow> 'r list \<Rightarrow> 'r list" where
  "ascending time t = sort_key time t"

definition descending :: "('r \<Rightarrow> nat) \<Rightarrow> 'r list \<Rightarrow> 'r list" where
  "descending time t = sort_key (\<lambda>r. - int (time r)) t"

text \<open>The checks \<open>requireOwned\<close> of the services: a row of another user is reported as one that is not there.\<close>

definition require_owned :: "('r \<Rightarrow> string) \<Rightarrow> ('r \<Rightarrow> string) \<Rightarrow> string \<Rightarrow> string \<Rightarrow> string \<Rightarrow> 'r list \<Rightarrow> 'r res" where
  "require_owned key owner what userId k t =
     (case find_row key k t of
        None \<Rightarrow> Inl (NotFound what)
      | Some r \<Rightarrow> if owner r \<noteq> userId then Inl (NotFound what) else Inr r)"

subsection \<open>Connections\<close>

definition SYSTEM_CONNECTION_ID :: string where
  "SYSTEM_CONNECTION_ID = ''__app_db__''"

definition isSystemConnectionId :: "string \<Rightarrow> bool" where
  "isSystemConnectionId i \<longleftrightarrow> i = SYSTEM_CONNECTION_ID"

definition SYSTEM_CONNECTION_READONLY_MESSAGE :: string where
  "SYSTEM_CONNECTION_READONLY_MESSAGE = ''The app database connection is read-only and permanent''"

definition requireOwned_connection :: "string \<Rightarrow> string \<Rightarrow> app_db \<Rightarrow> connection_row res" where
  "requireOwned_connection userId i db = require_owned cnId cnUserId ''Connection not found'' userId i (dbConnections db)"

definition assertNotSystem :: "string \<Rightarrow> unit res" where
  "assertNotSystem i = require (\<not> isSystemConnectionId i) (Forbidden SYSTEM_CONNECTION_READONLY_MESSAGE)"

definition assertOwnership :: "string \<Rightarrow> string \<Rightarrow> app_db \<Rightarrow> unit res" where
  "assertOwnership userId i db =
     (if isSystemConnectionId i then Inr () else res_map (\<lambda>_. ()) (requireOwned_connection userId i db))"

definition connection_isReadOnly :: "string \<Rightarrow> app_db \<Rightarrow> bool" where
  "connection_isReadOnly i db =
     (if isSystemConnectionId i then True
      else case find_row cnId i (dbConnections db) of Some c \<Rightarrow> cnReadOnly c | None \<Rightarrow> False)"

definition truthy :: "string option \<Rightarrow> bool" where
  "truthy s \<longleftrightarrow> s \<noteq> None \<and> s \<noteq> Some []"

definition if_truthy :: "string option \<Rightarrow> string option" where
  "if_truthy s = (if truthy s then s else None)"

definition default_to :: "'a \<Rightarrow> 'a option \<Rightarrow> 'a" where
  "default_to d x = (case x of Some y \<Rightarrow> y | None \<Rightarrow> d)"

definition toConnectionDto :: "connection_row \<Rightarrow> bool \<Rightarrow> connection_dto" where
  "toConnectionDto c hasSchemas =
     \<lparr>cdId = cnId c, cdName = cnName c, cdEngine = cnEngine c, cdHost = cnHost c, cdPort = cnPort c, cdDatabase = cnDatabase c,
      cdUsername = cnUsername c, cdSslEnabled = cnSslEnabled c, cdSslRejectUnauthorized = cnSslRejectUnauthorized c,
      cdEnvironment = cnEnvironment c,
      cdSsh = \<lparr>siEnabled = cnSshEnabled c, siHost = if_truthy (cnSshHost c), siPort = cnSshPort c,
        siUsername = if_truthy (cnSshUsername c), siAuthMethod = if_truthy (cnSshAuthMethod c),
        siHostFingerprint = if_truthy (cnSshHostFingerprint c)\<rparr>,
      cdHasSchemas = hasSchemas, cdReadOnly = cnReadOnly c, cdCreatedAt = cnCreatedAt c, cdUpdatedAt = cnUpdatedAt c\<rparr>"

definition hasSchemas_for :: "app_env \<Rightarrow> string \<Rightarrow> bool" where
  "hasSchemas_for env engine = (case aeEngine env engine of Some s \<Rightarrow> s | None \<Rightarrow> True)"

definition connection_toDto :: "app_env \<Rightarrow> connection_row \<Rightarrow> connection_dto" where
  "connection_toDto env c = toConnectionDto c (hasSchemas_for env (cnEngine c))"

definition assertSupportedEngine :: "app_env \<Rightarrow> string \<Rightarrow> unit res" where
  "assertSupportedEngine env engine =
     require (aeEngine env engine \<noteq> None) (BadRequest (''Unsupported database engine '' @ [CHR 0x22] @ engine @ [CHR 0x22]))"

definition resolveAppDbFile :: "app_env \<Rightarrow> string" where
  "resolveAppDbFile env =
     (let raw = (if starts_with ''file:'' (aeDatabaseUrl env) then drop 5 (aeDatabaseUrl env) else aeDatabaseUrl env)
      in if starts_with ''/'' raw then raw else aeResolve env raw)"

definition buildSystemConnectionDto :: "app_env \<Rightarrow> connection_dto" where
  "buildSystemConnectionDto env =
     \<lparr>cdId = SYSTEM_CONNECTION_ID, cdName = ''App Database'', cdEngine = ''sqlite'', cdHost = [], cdPort = 0,
      cdDatabase = resolveAppDbFile env, cdUsername = [], cdSslEnabled = False, cdSslRejectUnauthorized = True,
      cdEnvironment = ''prod'',
      cdSsh = \<lparr>siEnabled = False, siHost = None, siPort = None, siUsername = None, siAuthMethod = None, siHostFingerprint = None\<rparr>,
      cdHasSchemas = False, cdReadOnly = True, cdCreatedAt = 0, cdUpdatedAt = 0\<rparr>"

definition list_connections :: "app_env \<Rightarrow> string \<Rightarrow> app_db \<Rightarrow> connection_dto list" where
  "list_connections env userId db =
     buildSystemConnectionDto env # map (connection_toDto env) (ascending cnCreatedAt (filter (\<lambda>c. cnUserId c = userId) (dbConnections db)))"

definition sshCreateData :: "app_env \<Rightarrow> nat \<Rightarrow> 'a ssh_fields_scheme \<Rightarrow> connection_row \<Rightarrow> connection_row" where
  "sshCreateData env nonce dto c =
     (if sfEnabled dto \<noteq> Some True then c\<lparr>cnSshEnabled := False\<rparr>
      else c\<lparr>cnSshEnabled := True, cnSshHost := sfHost dto, cnSshPort := Some (default_to 22 (sfPort dto)),
             cnSshUsername := sfUsername dto, cnSshAuthMethod := Some (default_to ''key'' (sfAuthMethod dto)),
             cnEncryptedSshSecret := map_option (aeEncrypt env (nonce + 1)) (if_truthy (sfSecret dto)),
             cnSshKeyPassphrase := map_option (aeEncrypt env (nonce + 2)) (if_truthy (sfKeyPassphrase dto))\<rparr>)"

definition create_connection :: "app_env \<Rightarrow> string \<Rightarrow> stamp \<Rightarrow> connection_request \<Rightarrow> connection_dto app_op" where
  "create_connection env userId st dto db =
     (case assertSupportedEngine env (default_to ''postgres'' (ccEngine dto)) of
        Inl e \<Rightarrow> (Inl e, db)
      | Inr _ \<Rightarrow>
          (let c = sshCreateData env (stNonce st) dto
             \<lparr>cnId = stUuid st, cnUserId = userId, cnName = ccName dto, cnEngine = default_to ''postgres'' (ccEngine dto),
              cnHost = ccHost dto, cnPort = ccPort dto, cnDatabase = ccDatabase dto, cnUsername = ccUsername dto,
              cnEncryptedCredentials = aeEncrypt env (stNonce st) (ccPassword dto), cnSslEnabled = ccSslEnabled dto,
              cnSslRejectUnauthorized = ccSslRejectUnauthorized dto, cnEnvironment = ccEnvironment dto,
              cnReadOnly = ccReadOnly dto, cnSshEnabled = False, cnSshHost = None, cnSshPort = None, cnSshUsername = None,
              cnSshAuthMethod = None, cnEncryptedSshSecret = None, cnSshKeyPassphrase = None, cnSshHostFingerprint = None,
              cnCreatedAt = stNow st, cnUpdatedAt = stNow st\<rparr>
           in (Inr (connection_toDto env c), db\<lparr>dbConnections := dbConnections db @ [c]\<rparr>)))"

definition applySshUpdate :: "app_env \<Rightarrow> nat \<Rightarrow> 'a ssh_fields_scheme \<Rightarrow> connection_row \<Rightarrow> connection_row" where
  "applySshUpdate env nonce dto c =
     (case sfEnabled dto of
        None \<Rightarrow> c
      | Some False \<Rightarrow> c\<lparr>cnSshEnabled := False, cnSshHostFingerprint := None\<rparr>
      | Some True \<Rightarrow>
          (let c = c\<lparr>cnSshEnabled := True\<rparr>;
               c = (case sfHost dto of None \<Rightarrow> c | Some h \<Rightarrow> c\<lparr>cnSshHost := Some h, cnSshHostFingerprint := None\<rparr>);
               c = (case sfPort dto of None \<Rightarrow> c | Some p \<Rightarrow> c\<lparr>cnSshPort := Some p\<rparr>);
               c = (case sfUsername dto of None \<Rightarrow> c | Some u \<Rightarrow> c\<lparr>cnSshUsername := Some u, cnSshHostFingerprint := None\<rparr>);
               c = (case sfAuthMethod dto of None \<Rightarrow> c | Some m \<Rightarrow> c\<lparr>cnSshAuthMethod := Some m\<rparr>);
               c = (case if_truthy (sfSecret dto) of None \<Rightarrow> c
                    | Some s \<Rightarrow> c\<lparr>cnEncryptedSshSecret := Some (aeEncrypt env (nonce + 1) s)\<rparr>)
           in (case if_truthy (sfKeyPassphrase dto) of None \<Rightarrow> c
               | Some s \<Rightarrow> c\<lparr>cnSshKeyPassphrase := Some (aeEncrypt env (nonce + 2) s)\<rparr>)))"

definition updated_connection :: "app_env \<Rightarrow> stamp \<Rightarrow> connection_change \<Rightarrow> connection_row \<Rightarrow> connection_row" where
  "updated_connection env st dto c =
     (let c = c\<lparr>cnName := default_to (cnName c) (ucName dto), cnHost := default_to (cnHost c) (ucHost dto),
                cnPort := default_to (cnPort c) (ucPort dto), cnDatabase := default_to (cnDatabase c) (ucDatabase dto),
                cnUsername := default_to (cnUsername c) (ucUsername dto),
                cnSslEnabled := default_to (cnSslEnabled c) (ucSslEnabled dto),
                cnSslRejectUnauthorized := default_to (cnSslRejectUnauthorized c) (ucSslRejectUnauthorized dto),
                cnEnvironment := default_to (cnEnvironment c) (ucEnvironment dto),
                cnReadOnly := default_to (cnReadOnly c) (ucReadOnly dto)\<rparr>;
          c = (case if_truthy (ucPassword dto) of None \<Rightarrow> c
               | Some p \<Rightarrow> c\<lparr>cnEncryptedCredentials := aeEncrypt env (stNonce st) p\<rparr>)
      in (applySshUpdate env (stNonce st) dto c)\<lparr>cnUpdatedAt := stNow st\<rparr>)"

definition update_connection :: "app_env \<Rightarrow> string \<Rightarrow> stamp \<Rightarrow> string \<Rightarrow> connection_change \<Rightarrow> connection_dto app_op" where
  "update_connection env userId st i dto db =
     (case res_bind (assertNotSystem i) (\<lambda>_. requireOwned_connection userId i db) of
        Inl e \<Rightarrow> (Inl e, db)
      | Inr c \<Rightarrow>
          (Inr (connection_toDto env (updated_connection env st dto c)),
           db\<lparr>dbConnections := update_row cnId i (updated_connection env st dto) (dbConnections db),
              dbEvicted := dbEvicted db @ [i]\<rparr>))"

text \<open>Deleting a connection deletes its history and its conversations with their messages.\<close>

definition remove_connection :: "string \<Rightarrow> string \<Rightarrow> unit app_op" where
  "remove_connection userId i db =
     (case res_bind (assertNotSystem i) (\<lambda>_. requireOwned_connection userId i db) of
        Inl e \<Rightarrow> (Inl e, db)
      | Inr _ \<Rightarrow>
          (let gone = map cvId (filter (\<lambda>v. cvConnectionId v = i) (dbConversations db)) in
           (Inr (), db\<lparr>dbConnections := delete_row cnId i (dbConnections db),
                       dbHistory := filter (\<lambda>h. hiConnectionId h \<noteq> i) (dbHistory db),
                       dbConversations := filter (\<lambda>v. cvConnectionId v \<noteq> i) (dbConversations db),
                       dbMessages := filter (\<lambda>m. mgConversationId m \<notin> set gone) (dbMessages db),
                       dbEvicted := dbEvicted db @ [i]\<rparr>)))"

definition buildTestSshConfig :: "app_env \<Rightarrow> 'a ssh_fields_scheme \<Rightarrow> connection_row option \<Rightarrow> ssh_endpoint option" where
  "buildTestSshConfig env dto existing =
     (let enabled = default_to (case existing of Some c \<Rightarrow> cnSshEnabled c | None \<Rightarrow> False) (sfEnabled dto);
          stored = (\<lambda>f. case existing of Some c \<Rightarrow> f c | None \<Rightarrow> None);
          secret = (if truthy (sfSecret dto) then sfSecret dto
                    else map_option (aeDecrypt env) (stored cnEncryptedSshSecret));
          passphrase = (if truthy (sfKeyPassphrase dto) then sfKeyPassphrase dto
                        else map_option (aeDecrypt env) (stored cnSshKeyPassphrase));
          or_stored = (\<lambda>x f. case x of Some y \<Rightarrow> Some y | None \<Rightarrow> stored f)
      in if \<not> enabled then None
         else (case if_truthy secret of
             None \<Rightarrow> None
           | Some s \<Rightarrow>
               Some \<lparr>seHost = default_to [] (or_stored (sfHost dto) cnSshHost),
                     sePort = (case sfPort dto of Some p \<Rightarrow> p | None \<Rightarrow> default_to 22 (case existing of Some c \<Rightarrow> cnSshPort c | None \<Rightarrow> None)),
                     seUsername = default_to [] (or_stored (sfUsername dto) cnSshUsername),
                     seAuthMethod = (if default_to ''key'' (or_stored (sfAuthMethod dto) cnSshAuthMethod) = ''password''
                                     then ''password'' else ''key''),
                     seSecret = s, sePassphrase = if_truthy passphrase\<rparr>))"

definition test_connection :: "app_env \<Rightarrow> string \<Rightarrow> connection_trial \<Rightarrow> app_db \<Rightarrow> test_result res" where
  "test_connection env userId dto db =
     (if truthy (tcId dto) then
        (let i = the (tcId dto) in
         if isSystemConnectionId i then Inr \<lparr>trOk = True, trMessage = ''Connection successful''\<rparr>
         else res_map (\<lambda>c.
             aeTest env (cnEngine c)
               \<lparr>cpHost = default_to (cnHost c) (tcHost dto), cpPort = default_to (cnPort c) (tcPort dto),
                cpDatabase = default_to (cnDatabase c) (tcDatabase dto), cpUsername = default_to (cnUsername c) (tcUsername dto),
                cpPassword = (if truthy (tcPassword dto) then the (tcPassword dto) else aeDecrypt env (cnEncryptedCredentials c)),
                cpSslEnabled = default_to (cnSslEnabled c) (tcSslEnabled dto),
                cpSslRejectUnauthorized = default_to (cnSslRejectUnauthorized c) (tcSslRejectUnauthorized dto)\<rparr>
               (buildTestSshConfig env dto (Some c)))
           (requireOwned_connection userId i db))
      else if \<not> truthy (tcHost dto) \<or> tcPort dto = None \<or> \<not> truthy (tcDatabase dto) \<or> \<not> truthy (tcUsername dto) \<or> \<not> truthy (tcPassword dto)
      then Inr \<lparr>trOk = False, trMessage = ''host, port, database, username, and password are required to test a new connection''\<rparr>
      else res_map (\<lambda>_.
          aeTest env (default_to ''postgres'' (tcEngine dto))
            \<lparr>cpHost = the (tcHost dto), cpPort = the (tcPort dto), cpDatabase = the (tcDatabase dto),
             cpUsername = the (tcUsername dto), cpPassword = the (tcPassword dto), cpSslEnabled = default_to False (tcSslEnabled dto),
             cpSslRejectUnauthorized = default_to True (tcSslRejectUnauthorized dto)\<rparr>
            (buildTestSshConfig env dto None))
        (assertSupportedEngine env (default_to ''postgres'' (tcEngine dto))))"

subsection \<open>History\<close>

definition HISTORY_LIMIT :: int where "HISTORY_LIMIT = 50"
definition MAX_LIMIT :: int where "MAX_LIMIT = 200"
definition DAY_MS :: nat where "DAY_MS = 24 * 60 * 60000"

definition connection_name :: "app_db \<Rightarrow> history_row \<Rightarrow> string" where
  "connection_name db h =
     (case find_row cnId (hiConnectionId h) (dbConnections db) of Some c \<Rightarrow> cnName c | None \<Rightarrow> [])"

definition toQueryHistoryDto :: "app_db \<Rightarrow> history_row \<Rightarrow> history_dto" where
  "toQueryHistoryDto db h =
     \<lparr>hdId = hiId h, hdConnectionId = hiConnectionId h, hdConnectionName = connection_name db h, hdSql = hiSql h,
      hdExecutedAt = hiExecutedAt h, hdStarred = hiStarred h, hdLabel = hiLabel h\<rparr>"

fun collapse_after :: "string \<Rightarrow> history_row list \<Rightarrow> history_row list" where
  "collapse_after prev [] = []"
| "collapse_after prev (h # hs) = (if hiSql h \<noteq> prev then h # collapse_after (hiSql h) hs else collapse_after (hiSql h) hs)"

definition collapseConsecutiveDuplicates :: "history_row list \<Rightarrow> history_row list" where
  "collapseConsecutiveDuplicates hs = (case hs of [] \<Rightarrow> [] | h # t \<Rightarrow> h # collapse_after (hiSql h) t)"

text \<open>The insert fails, and is only logged, when the connection has no row: the application's own database has none.\<close>

definition record_history :: "string \<Rightarrow> stamp \<Rightarrow> string \<Rightarrow> string \<Rightarrow> app_db \<Rightarrow> app_db" where
  "record_history userId st connectionId sql db =
     (if find_row cnId connectionId (dbConnections db) = None then db
      else db\<lparr>dbHistory := dbHistory db @
        [\<lparr>hiId = stUuid st, hiUserId = userId, hiConnectionId = connectionId, hiSql = sql, hiStarred = False, hiLabel = None,
          hiExecutedAt = stNow st\<rparr>]\<rparr>)"

definition own_history :: "string \<Rightarrow> app_db \<Rightarrow> history_row list" where
  "own_history userId db = descending hiExecutedAt (filter (\<lambda>h. hiUserId h = userId) (dbHistory db))"

definition listRecent :: "string \<Rightarrow> string \<Rightarrow> app_db \<Rightarrow> history_dto list" where
  "listRecent userId connectionId db =
     map (toQueryHistoryDto db) (collapseConsecutiveDuplicates
       (take (nat HISTORY_LIMIT) (filter (\<lambda>h. hiConnectionId h = connectionId) (own_history userId db))))"

definition history_search :: "app_env \<Rightarrow> string \<Rightarrow> string option \<Rightarrow> string option \<Rightarrow> int option \<Rightarrow> app_db \<Rightarrow> history_dto list" where
  "history_search env userId search connectionId limit db =
     (let n = min (max (default_to HISTORY_LIMIT limit) 1) MAX_LIMIT;
          text = map_option js_trim search;
          found = filter (\<lambda>h.
            (truthy connectionId \<longrightarrow> Some (hiConnectionId h) = connectionId) \<and>
            (truthy text \<longrightarrow> aeContains env (the text) (hiSql h)
               \<or> (case hiLabel h of Some l \<Rightarrow> aeContains env (the text) l | None \<Rightarrow> False))) (own_history userId db)
      in map (toQueryHistoryDto db) (collapseConsecutiveDuplicates (take (nat n) found)))"

definition requireOwned_history :: "string \<Rightarrow> string \<Rightarrow> app_db \<Rightarrow> history_row res" where
  "requireOwned_history userId i db = require_owned hiId hiUserId ''History entry not found.'' userId i (dbHistory db)"

text \<open>The label is left alone, cleared or set.\<close>

datatype label_update = KeepLabel | ClearLabel | SetLabel string

definition updated_history :: "label_update \<Rightarrow> bool option \<Rightarrow> history_row \<Rightarrow> history_row" where
  "updated_history label starred h =
     h\<lparr>hiStarred := default_to (hiStarred h) starred,
       hiLabel := (case label of KeepLabel \<Rightarrow> hiLabel h | ClearLabel \<Rightarrow> None | SetLabel l \<Rightarrow> Some l)\<rparr>"

definition update_history :: "string \<Rightarrow> string \<Rightarrow> label_update \<Rightarrow> bool option \<Rightarrow> history_dto app_op" where
  "update_history userId i label starred db =
     (case requireOwned_history userId i db of
        Inl e \<Rightarrow> (Inl e, db)
      | Inr h \<Rightarrow>
          (Inr (toQueryHistoryDto db (updated_history label starred h)),
           db\<lparr>dbHistory := update_row hiId i (updated_history label starred) (dbHistory db)\<rparr>))"

definition remove_history :: "string \<Rightarrow> string \<Rightarrow> unit app_op" where
  "remove_history userId i db =
     (case requireOwned_history userId i db of
        Inl e \<Rightarrow> (Inl e, db)
      | Inr _ \<Rightarrow> (Inr (), db\<lparr>dbHistory := delete_row hiId i (dbHistory db)\<rparr>))"

definition clear_history :: "string \<Rightarrow> string option \<Rightarrow> app_db \<Rightarrow> app_db" where
  "clear_history userId connectionId db =
     db\<lparr>dbHistory := filter (\<lambda>h. \<not> (hiUserId h = userId \<and> \<not> hiStarred h
          \<and> (truthy connectionId \<longrightarrow> Some (hiConnectionId h) = connectionId))) (dbHistory db)\<rparr>"

definition exportAll :: "string \<Rightarrow> app_db \<Rightarrow> history_export list" where
  "exportAll userId db =
     map (\<lambda>h. \<lparr>heSql = hiSql h, heExecutedAt = hiExecutedAt h, heConnectionName = connection_name db h,
               heStarred = hiStarred h, heLabel = hiLabel h\<rparr>) (own_history userId db)"

text \<open>The retention sweep, for a retention of some days (none when it is zero).\<close>

definition history_sweep :: "nat \<Rightarrow> nat \<Rightarrow> app_db \<Rightarrow> app_db" where
  "history_sweep retentionDays now db =
     (if retentionDays = 0 then db
      else db\<lparr>dbHistory := filter (\<lambda>h. \<not> (\<not> hiStarred h \<and> int (hiExecutedAt h) < int now - int (retentionDays * DAY_MS))) (dbHistory db)\<rparr>)"

subsection \<open>Snippets\<close>

definition toSnippetDto :: "snippet_row \<Rightarrow> snippet_dto" where
  "toSnippetDto r =
     \<lparr>sdId = snId r, sdName = snName r, sdBody = snBody r, sdCreatedAt = snCreatedAt r, sdUpdatedAt = snUpdatedAt r\<rparr>"

definition list_snippets :: "string \<Rightarrow> app_db \<Rightarrow> snippet_dto list" where
  "list_snippets userId db = map toSnippetDto (descending snCreatedAt (filter (\<lambda>r. snUserId r = userId) (dbSnippets db)))"

definition snippet_taken :: "string \<Rightarrow> http_error" where
  "snippet_taken name = Conflict (''A snippet named '' @ [CHR 0x22] @ name @ [CHR 0x22] @ '' already exists.'')"

text \<open>The unique index on the user and the name.\<close>

definition name_taken :: "string \<Rightarrow> string \<Rightarrow> string \<Rightarrow> app_db \<Rightarrow> bool" where
  "name_taken userId name except db =
     list_ex (\<lambda>r. snUserId r = userId \<and> snName r = name \<and> snId r \<noteq> except) (dbSnippets db)"

definition existing_snippet :: "string \<Rightarrow> string \<Rightarrow> app_db \<Rightarrow> snippet_row res" where
  "existing_snippet userId i db = require_owned snId snUserId ''Snippet not found.'' userId i (dbSnippets db)"

definition create_snippet :: "string \<Rightarrow> stamp \<Rightarrow> string \<Rightarrow> string \<Rightarrow> snippet_dto app_op" where
  "create_snippet userId st name body db =
     (if name_taken userId name (stUuid st) db then (Inl (snippet_taken name), db)
      else (let r = \<lparr>snId = stUuid st, snUserId = userId, snName = name, snBody = body, snCreatedAt = stNow st, snUpdatedAt = stNow st\<rparr>
            in (Inr (toSnippetDto r), db\<lparr>dbSnippets := dbSnippets db @ [r]\<rparr>)))"

definition updated_snippet :: "stamp \<Rightarrow> string option \<Rightarrow> string option \<Rightarrow> snippet_row \<Rightarrow> snippet_row" where
  "updated_snippet st name body r =
     r\<lparr>snName := default_to (snName r) name, snBody := default_to (snBody r) body, snUpdatedAt := stNow st\<rparr>"

definition update_snippet :: "string \<Rightarrow> stamp \<Rightarrow> string \<Rightarrow> string option \<Rightarrow> string option \<Rightarrow> snippet_dto app_op" where
  "update_snippet userId st i name body db =
     (case existing_snippet userId i db of
        Inl e \<Rightarrow> (Inl e, db)
      | Inr r \<Rightarrow>
          (if name \<noteq> None \<and> name_taken userId (the name) i db then (Inl (snippet_taken (the name)), db)
           else (Inr (toSnippetDto (updated_snippet st name body r)),
                 db\<lparr>dbSnippets := update_row snId i (updated_snippet st name body) (dbSnippets db)\<rparr>)))"

definition remove_snippet :: "string \<Rightarrow> string \<Rightarrow> unit app_op" where
  "remove_snippet userId i db =
     (case existing_snippet userId i db of
        Inl e \<Rightarrow> (Inl e, db)
      | Inr _ \<Rightarrow> (Inr (), db\<lparr>dbSnippets := delete_row snId i (dbSnippets db)\<rparr>))"

subsection \<open>Conversations\<close>

definition DEFAULT_LIST_LIMIT :: nat where "DEFAULT_LIST_LIMIT = 50"
definition TITLE_MAX_CHARS :: nat where "TITLE_MAX_CHARS = 80"

definition ellipsis :: string where
  "ellipsis = [CHR 0xE2, CHR 0x80, CHR 0xA6]"

definition toConversationDto :: "conversation_row \<Rightarrow> conversation_dto" where
  "toConversationDto r =
     \<lparr>vdId = cvId r, vdConnectionId = cvConnectionId r, vdTitle = cvTitle r, vdCreatedAt = cvCreatedAt r, vdUpdatedAt = cvUpdatedAt r\<rparr>"

text \<open>A message of a request or an answer: its role and its text.\<close>

definition deriveTitle :: "(string \<times> string) list \<Rightarrow> string" where
  "deriveTitle messages =
     (let firstUser = (case find (\<lambda>m. fst m = ''user'') messages of Some m \<Rightarrow> js_trim (snd m) | None \<Rightarrow> ''New conversation'');
          oneLine = collapse_spaces firstUser
      in if length oneLine > TITLE_MAX_CHARS then take (TITLE_MAX_CHARS - 1) oneLine @ ellipsis else oneLine)"

definition requireOwned_conversation :: "string \<Rightarrow> string \<Rightarrow> app_db \<Rightarrow> conversation_row res" where
  "requireOwned_conversation userId i db = require_owned cvId cvUserId ''Conversation not found.'' userId i (dbConversations db)"

definition list_conversations :: "string \<Rightarrow> string \<Rightarrow> app_db \<Rightarrow> conversation_dto list" where
  "list_conversations userId connectionId db =
     map toConversationDto (take DEFAULT_LIST_LIMIT (descending cvUpdatedAt
       (filter (\<lambda>r. cvUserId r = userId \<and> cvConnectionId r = connectionId) (dbConversations db))))"

definition get_conversation :: "string \<Rightarrow> string \<Rightarrow> app_db \<Rightarrow> (conversation_dto \<times> (string \<times> string) list) res" where
  "get_conversation userId i db =
     res_map (\<lambda>r. (toConversationDto r,
         map (\<lambda>m. (mgRole m, mgContent m)) (ascending mgCreatedAt (filter (\<lambda>m. mgConversationId m = i) (dbMessages db)))))
       (requireOwned_conversation userId i db)"

definition add_messages :: "stamp \<Rightarrow> string \<Rightarrow> (string \<times> string) list \<Rightarrow> app_db \<Rightarrow> app_db" where
  "add_messages st i messages db =
     db\<lparr>dbMessages := dbMessages db @ map (\<lambda>m. \<lparr>mgConversationId = i, mgRole = fst m, mgContent = snd m, mgCreatedAt = stNow st\<rparr>) messages\<rparr>"

text \<open>A conversation on the application's own database has no connection to refer to, and the database refuses it.\<close>

definition append_conversation ::
  "string \<Rightarrow> stamp \<Rightarrow> string \<Rightarrow> string option \<Rightarrow> (string \<times> string) list \<Rightarrow> conversation_dto app_op" where
  "append_conversation userId st connectionId conversationId messages db =
     (if truthy conversationId then
        (case requireOwned_conversation userId (the conversationId) db of
           Inl e \<Rightarrow> (Inl e, db)
         | Inr r \<Rightarrow>
             (Inr (toConversationDto (r\<lparr>cvUpdatedAt := stNow st\<rparr>)),
              add_messages st (cvId r) messages
                (db\<lparr>dbConversations := update_row cvId (the conversationId) (\<lambda>r. r\<lparr>cvUpdatedAt := stNow st\<rparr>) (dbConversations db)\<rparr>)))
      else if find_row cnId connectionId (dbConnections db) = None
      then (Inl (PlainError ''Foreign key constraint violated''), db)
      else (let r = \<lparr>cvId = stUuid st, cvUserId = userId, cvConnectionId = connectionId, cvTitle = Some (deriveTitle messages),
                     cvCreatedAt = stNow st, cvUpdatedAt = stNow st\<rparr>
            in (Inr (toConversationDto r), add_messages st (cvId r) messages (db\<lparr>dbConversations := dbConversations db @ [r]\<rparr>))))"

definition rename_conversation :: "string \<Rightarrow> stamp \<Rightarrow> string \<Rightarrow> string \<Rightarrow> conversation_dto app_op" where
  "rename_conversation userId st i title db =
     (case requireOwned_conversation userId i db of
        Inl e \<Rightarrow> (Inl e, db)
      | Inr r \<Rightarrow>
          (Inr (toConversationDto (r\<lparr>cvTitle := Some title, cvUpdatedAt := stNow st\<rparr>)),
           db\<lparr>dbConversations := update_row cvId i (\<lambda>r. r\<lparr>cvTitle := Some title, cvUpdatedAt := stNow st\<rparr>) (dbConversations db)\<rparr>))"

definition remove_conversation :: "string \<Rightarrow> string \<Rightarrow> unit app_op" where
  "remove_conversation userId i db =
     (case requireOwned_conversation userId i db of
        Inl e \<Rightarrow> (Inl e, db)
      | Inr _ \<Rightarrow> (Inr (), db\<lparr>dbConversations := delete_row cvId i (dbConversations db),
                             dbMessages := filter (\<lambda>m. mgConversationId m \<noteq> i) (dbMessages db)\<rparr>))"

subsection \<open>Model endpoints\<close>

record decrypted_endpoint =
  deName :: string
  deBaseUrl :: string
  deApiKey :: string
  deModels :: "js_val list"
  deContextBudget :: "nat option"
  deMaxOutputTokens :: "nat option"

definition serializeModels :: "string list \<Rightarrow> string" where
  "serializeModels models = (case json_stringify (JArr (map JStr models)) of Inr t \<Rightarrow> t | Inl _ \<Rightarrow> [])"

definition parseModels :: "string \<Rightarrow> js_val list" where
  "parseModels raw = (case json_parse raw of Some (JArr vs) \<Rightarrow> vs | _ \<Rightarrow> [])"

definition toLlmEndpointDto :: "endpoint_row \<Rightarrow> endpoint_dto" where
  "toLlmEndpointDto r =
     \<lparr>ldId = leId r, ldName = leName r, ldBaseUrl = leBaseUrl r, ldModels = parseModels (leModels r), ldHasApiKey = True,
      ldContextBudget = leContextBudget r, ldMaxOutputTokens = leMaxOutputTokens r, ldCreatedAt = leCreatedAt r\<rparr>"

definition requireOwned_endpoint :: "string \<Rightarrow> string \<Rightarrow> app_db \<Rightarrow> endpoint_row res" where
  "requireOwned_endpoint userId i db = require_owned leId leUserId ''LLM endpoint not found'' userId i (dbEndpoints db)"

definition list_endpoints :: "string \<Rightarrow> app_db \<Rightarrow> endpoint_dto list" where
  "list_endpoints userId db = map toLlmEndpointDto (ascending leCreatedAt (filter (\<lambda>r. leUserId r = userId) (dbEndpoints db)))"

definition create_endpoint :: "app_env \<Rightarrow> string \<Rightarrow> stamp \<Rightarrow> endpoint_request \<Rightarrow> endpoint_dto app_op" where
  "create_endpoint env userId st dto db =
     (let r = \<lparr>leId = stUuid st, leUserId = userId, leName = erName dto, leBaseUrl = erBaseUrl dto,
               leEncryptedApiKey = aeEncrypt env (stNonce st) (erApiKey dto), leModels = serializeModels (erModels dto),
               leContextBudget = erContextBudget dto, leMaxOutputTokens = erMaxOutputTokens dto, leCreatedAt = stNow st\<rparr>
      in (Inr (toLlmEndpointDto r), db\<lparr>dbEndpoints := dbEndpoints db @ [r]\<rparr>))"

definition updated_endpoint :: "app_env \<Rightarrow> stamp \<Rightarrow> endpoint_change \<Rightarrow> endpoint_row \<Rightarrow> endpoint_row" where
  "updated_endpoint env st dto r =
     r\<lparr>leName := default_to (leName r) (euName dto), leBaseUrl := default_to (leBaseUrl r) (euBaseUrl dto),
       leModels := (case euModels dto of None \<Rightarrow> leModels r | Some ms \<Rightarrow> serializeModels ms),
       leContextBudget := default_to (leContextBudget r) (euContextBudget dto),
       leMaxOutputTokens := default_to (leMaxOutputTokens r) (euMaxOutputTokens dto),
       leEncryptedApiKey := (case euApiKey dto of None \<Rightarrow> leEncryptedApiKey r | Some k \<Rightarrow> aeEncrypt env (stNonce st) k)\<rparr>"

definition update_endpoint :: "app_env \<Rightarrow> string \<Rightarrow> stamp \<Rightarrow> string \<Rightarrow> endpoint_change \<Rightarrow> endpoint_dto app_op" where
  "update_endpoint env userId st i dto db =
     (case requireOwned_endpoint userId i db of
        Inl e \<Rightarrow> (Inl e, db)
      | Inr r \<Rightarrow> (Inr (toLlmEndpointDto (updated_endpoint env st dto r)),
                  db\<lparr>dbEndpoints := update_row leId i (updated_endpoint env st dto) (dbEndpoints db)\<rparr>))"

definition remove_endpoint :: "string \<Rightarrow> string \<Rightarrow> unit app_op" where
  "remove_endpoint userId i db =
     (case requireOwned_endpoint userId i db of
        Inl e \<Rightarrow> (Inl e, db)
      | Inr _ \<Rightarrow> (Inr (), db\<lparr>dbEndpoints := delete_row leId i (dbEndpoints db)\<rparr>))"

definition getDecrypted :: "app_env \<Rightarrow> string \<Rightarrow> string \<Rightarrow> app_db \<Rightarrow> decrypted_endpoint res" where
  "getDecrypted env userId i db =
     res_map (\<lambda>r. \<lparr>deName = leName r, deBaseUrl = leBaseUrl r, deApiKey = aeDecrypt env (leEncryptedApiKey r),
         deModels = parseModels (leModels r), deContextBudget = leContextBudget r, deMaxOutputTokens = leMaxOutputTokens r\<rparr>)
       (requireOwned_endpoint userId i db)"

subsection \<open>The calls of the controllers\<close>

datatype app_call =
    ListConnections
  | CreateConnection connection_request
  | UpdateConnection string connection_change
  | RemoveConnection string
  | TestConnection connection_trial
  | RecordQuery string string
  | RecentHistory string
  | SearchHistory "string option" "string option" "int option"
  | ExportHistory
  | UpdateHistory string label_update "bool option"
  | RemoveHistory string
  | ClearHistory "string option"
  | ListSnippets
  | CreateSnippet string string
  | UpdateSnippet string "string option" "string option"
  | RemoveSnippet string
  | ListConversations string
  | GetConversation string
  | AppendMessages string "string option" "(string \<times> string) list"
  | RenameConversation string string
  | RemoveConversation string
  | ListEndpoints
  | CreateEndpoint endpoint_request
  | UpdateEndpoint string endpoint_change
  | RemoveEndpoint string

datatype app_answer =
    Connections "connection_dto list"
  | Connection connection_dto
  | Tested test_result
  | History "history_dto list"
  | HistoryEntry history_dto
  | HistoryExport "history_export list"
  | Snippets "snippet_dto list"
  | Snippet snippet_dto
  | Conversations "conversation_dto list"
  | Conversation conversation_dto
  | ConversationDetail "conversation_dto \<times> (string \<times> string) list"
  | Endpoints "endpoint_dto list"
  | Endpoint endpoint_dto
  | Done

definition answering :: "('a \<Rightarrow> app_answer) \<Rightarrow> 'a res \<times> app_db \<Rightarrow> app_answer res \<times> app_db" where
  "answering f r = (res_map f (fst r), snd r)"

definition asking :: "('a \<Rightarrow> app_answer) \<Rightarrow> 'a res \<Rightarrow> app_db \<Rightarrow> app_answer res \<times> app_db" where
  "asking f r db = (res_map f r, db)"

text \<open>
  What a user's call does to the application's database. Of running a query (\<open>RecordQuery\<close>) it is the check of the
  controller and the history entry the service leaves.
\<close>

fun app_handle :: "app_env \<Rightarrow> string \<Rightarrow> stamp \<Rightarrow> app_call \<Rightarrow> app_answer app_op" where
  "app_handle env u st ListConnections db = asking Connections (Inr (list_connections env u db)) db"
| "app_handle env u st (CreateConnection dto) db = answering Connection (create_connection env u st dto db)"
| "app_handle env u st (UpdateConnection i dto) db = answering Connection (update_connection env u st i dto db)"
| "app_handle env u st (RemoveConnection i) db = answering (\<lambda>_. Done) (remove_connection u i db)"
| "app_handle env u st (TestConnection dto) db = asking Tested (test_connection env u dto db) db"
| "app_handle env u st (RecordQuery c sql) db =
     (case assertOwnership u c db of Inl e \<Rightarrow> (Inl e, db) | Inr _ \<Rightarrow> (Inr Done, record_history u st c sql db))"
| "app_handle env u st (RecentHistory c) db = asking History (res_map (\<lambda>_. listRecent u c db) (assertOwnership u c db)) db"
| "app_handle env u st (SearchHistory s c limit) db = asking History (Inr (history_search env u s c limit db)) db"
| "app_handle env u st ExportHistory db = asking HistoryExport (Inr (exportAll u db)) db"
| "app_handle env u st (UpdateHistory i label starred) db = answering HistoryEntry (update_history u i label starred db)"
| "app_handle env u st (RemoveHistory i) db = answering (\<lambda>_. Done) (remove_history u i db)"
| "app_handle env u st (ClearHistory c) db = (Inr Done, clear_history u c db)"
| "app_handle env u st ListSnippets db = asking Snippets (Inr (list_snippets u db)) db"
| "app_handle env u st (CreateSnippet name body) db = answering Snippet (create_snippet u st name body db)"
| "app_handle env u st (UpdateSnippet i name body) db = answering Snippet (update_snippet u st i name body db)"
| "app_handle env u st (RemoveSnippet i) db = answering (\<lambda>_. Done) (remove_snippet u i db)"
| "app_handle env u st (ListConversations c) db =
     asking Conversations (res_map (\<lambda>_. list_conversations u c db) (assertOwnership u c db)) db"
| "app_handle env u st (GetConversation i) db = asking ConversationDetail (get_conversation u i db) db"
| "app_handle env u st (AppendMessages c i messages) db =
     (case assertOwnership u c db of Inl e \<Rightarrow> (Inl e, db)
      | Inr _ \<Rightarrow> answering Conversation (append_conversation u st c i messages db))"
| "app_handle env u st (RenameConversation i title) db = answering Conversation (rename_conversation u st i title db)"
| "app_handle env u st (RemoveConversation i) db = answering (\<lambda>_. Done) (remove_conversation u i db)"
| "app_handle env u st ListEndpoints db = asking Endpoints (Inr (list_endpoints u db)) db"
| "app_handle env u st (CreateEndpoint dto) db = answering Endpoint (create_endpoint env u st dto db)"
| "app_handle env u st (UpdateEndpoint i dto) db = answering Endpoint (update_endpoint env u st i dto db)"
| "app_handle env u st (RemoveEndpoint i) db = answering (\<lambda>_. Done) (remove_endpoint u i db)"

text \<open>A run: calls of the users and retention sweeps, in the order the database sees them, with the answers.\<close>

datatype app_event = UserCall string stamp app_call | Sweep nat nat

definition app_step :: "app_env \<Rightarrow> app_event \<Rightarrow> app_db \<Rightarrow> (string \<times> app_answer res) option \<times> app_db" where
  "app_step env e db =
     (case e of
        UserCall u st c \<Rightarrow> (case app_handle env u st c db of (r, db') \<Rightarrow> (Some (u, r), db'))
      | Sweep days now \<Rightarrow> (None, history_sweep days now db))"

fun run_events :: "('e \<Rightarrow> 'd \<Rightarrow> 'a option \<times> 'd) \<Rightarrow> 'e list \<Rightarrow> 'd \<Rightarrow> 'a list \<times> 'd" where
  "run_events step [] d = ([], d)"
| "run_events step (e # es) d =
     (case step e d of (r, d') \<Rightarrow>
       (case run_events step es d' of (rs, d'') \<Rightarrow> ((case r of None \<Rightarrow> rs | Some a \<Rightarrow> a # rs), d'')))"

definition app_run :: "app_env \<Rightarrow> app_event list \<Rightarrow> app_db \<Rightarrow> (string \<times> app_answer res) list \<times> app_db" where
  "app_run env es db = run_events (app_step env) es db"

definition answers_to :: "string \<Rightarrow> (string \<times> 'a) list \<Rightarrow> 'a list" where
  "answers_to u rs = map snd (filter (\<lambda>r. fst r = u) rs)"

text \<open>The run as it would be had no other user called.\<close>

definition concerns :: "string \<Rightarrow> app_event \<Rightarrow> bool" where
  "concerns u e \<longleftrightarrow> (case e of UserCall v _ _ \<Rightarrow> v = u | Sweep _ _ \<Rightarrow> True)"

definition without_others :: "string \<Rightarrow> app_event list \<Rightarrow> app_event list" where
  "without_others u es = filter (concerns u) es"

subsection \<open>The state kept\<close>

definition owned_by :: "string \<Rightarrow> app_db \<Rightarrow> string \<Rightarrow> bool" where
  "owned_by u db i \<longleftrightarrow> (\<exists>c \<in> set (dbConnections db). cnId c = i \<and> cnUserId c = u)"

text \<open>Keys are unique, no connection has the reserved identifier, and what refers to a connection belongs to its owner.\<close>

definition app_ok :: "app_db \<Rightarrow> bool" where
  "app_ok db \<longleftrightarrow>
     distinct (map cnId (dbConnections db)) \<and> distinct (map hiId (dbHistory db)) \<and> distinct (map snId (dbSnippets db)) \<and>
     distinct (map cvId (dbConversations db)) \<and> distinct (map leId (dbEndpoints db)) \<and> SYSTEM_CONNECTION_ID \<notin> cnId ` set (dbConnections db) \<and>
     (\<forall>h \<in> set (dbHistory db). owned_by (hiUserId h) db (hiConnectionId h)) \<and>
     (\<forall>v \<in> set (dbConversations db). owned_by (cvUserId v) db (cvConnectionId v)) \<and>
     (\<forall>m \<in> set (dbMessages db). mgConversationId m \<in> cvId ` set (dbConversations db))"

definition app_ids :: "app_db \<Rightarrow> string set" where
  "app_ids db =
     cnId ` set (dbConnections db) \<union> hiId ` set (dbHistory db) \<union> snId ` set (dbSnippets db) \<union> cvId ` set (dbConversations db) \<union>
     leId ` set (dbEndpoints db)"

definition event_ids :: "app_event list \<Rightarrow> string list" where
  "event_ids es = concat (map (\<lambda>e. case e of UserCall _ st _ \<Rightarrow> [stUuid st] | Sweep _ _ \<Rightarrow> []) es)"

text \<open>The identifiers drawn are fresh: distinct, not in the database, not reserved, not empty.\<close>

definition fresh_ids :: "app_event list \<Rightarrow> app_db \<Rightarrow> bool" where
  "fresh_ids es db \<longleftrightarrow>
     distinct (event_ids es) \<and> set (event_ids es) \<inter> (app_ids db \<union> {SYSTEM_CONNECTION_ID, []}) = {}"

definition own_conversations :: "string \<Rightarrow> app_db \<Rightarrow> conversation_row list" where
  "own_conversations u db = filter (\<lambda>v. cvUserId v = u) (dbConversations db)"

text \<open>What belongs to a user.\<close>

definition user_view :: "string \<Rightarrow> app_db \<Rightarrow> app_db" where
  "user_view u db =
     \<lparr>dbConnections = filter (\<lambda>c. cnUserId c = u) (dbConnections db), dbHistory = filter (\<lambda>h. hiUserId h = u) (dbHistory db),
      dbSnippets = filter (\<lambda>r. snUserId r = u) (dbSnippets db), dbConversations = own_conversations u db,
      dbMessages = filter (\<lambda>m. mgConversationId m \<in> cvId ` set (own_conversations u db)) (dbMessages db),
      dbEndpoints = filter (\<lambda>r. leUserId r = u) (dbEndpoints db), dbEvicted = []\<rparr>"

end
