(* ===== verification/Tenancy.thy ===== *)
theory Tenancy
  imports AppData
begin

text \<open>
  The users of the application share one database, and each sees their own: what a user is answered in any run is what they
  would be answered alone, in a database that holds their rows only. The secrets of a connection never reach an answer.
\<close>

subsection \<open>Isolation, for any store\<close>

text \<open>
  The unwinding conditions of a store that many users step through: an event that does not concern a user leaves
  their view alone and answers somebody else, and one that does depends on their view only.
\<close>

locale isolated_store =
  fixes step :: "'e \<Rightarrow> 'd \<Rightarrow> (string \<times> 'r) option \<times> 'd"
    and view :: "string \<Rightarrow> 'd \<Rightarrow> 'd"
    and mine :: "string \<Rightarrow> 'e \<Rightarrow> bool"
    and ok :: "'e list \<Rightarrow> 'd \<Rightarrow> bool"
  assumes ok_step: "ok (e # es) d \<Longrightarrow> ok es (snd (step e d))"
    and other_view: "ok (e # es) d \<Longrightarrow> \<not> mine u e \<Longrightarrow> view u (snd (step e d)) = view u d"
    and other_answer: "\<not> mine u e \<Longrightarrow> fst (step e d) = Some (v, r) \<Longrightarrow> v \<noteq> u"
    and own_answer: "ok (e # es) d \<Longrightarrow> ok (e # es') d' \<Longrightarrow> view u d = view u d' \<Longrightarrow> mine u e \<Longrightarrow> fst (step e d) = fst (step e d')"
    and own_view: "ok (e # es) d \<Longrightarrow> ok (e # es') d' \<Longrightarrow> view u d = view u d' \<Longrightarrow> mine u e \<Longrightarrow>
      view u (snd (step e d)) = view u (snd (step e d'))"
begin

lemma answers_alone:
  assumes "ok es d" "ok (filter (mine u) es) d'" "view u d = view u d'"
  shows "answers_to u (fst (run_events step es d)) = answers_to u (fst (run_events step (filter (mine u) es) d'))
    \<and> view u (snd (run_events step es d)) = view u (snd (run_events step (filter (mine u) es) d'))"
  using assms
proof (induction es arbitrary: d d')
  case (Cons e es)
  show ?case
  proof (cases "mine u e")
    case True
    then have "ok (e # filter (mine u) es) d'" using Cons.prems(2) by simp
    note same = own_answer [OF Cons.prems(1) this Cons.prems(3) True] own_view [OF Cons.prems(1) this Cons.prems(3) True]
      and oks = ok_step [OF Cons.prems(1)] ok_step [OF this]
    show ?thesis
      using Cons.IH [OF oks same(2)] same(1) True
      by (auto simp: answers_to_def split: prod.splits option.splits)
  next
    case False
    have "ok (filter (mine u) es) d'" "view u (snd (step e d)) = view u d'"
      using Cons.prems False other_view [OF Cons.prems(1) False] by simp_all
    with Cons.IH [OF ok_step [OF Cons.prems(1)] this] False other_answer [OF False, of d]
    show ?thesis by (auto simp: answers_to_def split: prod.splits option.splits)
  qed
qed (simp add: answers_to_def)

end

subsection \<open>Rows of one user\<close>

lemma find_row_Some: "find_row key k t = Some r \<Longrightarrow> r \<in> set t \<and> key r = k"
  by (auto simp: find_row_def find_Some_iff)

lemma find_row_None: "find_row key k t = None \<longleftrightarrow> k \<notin> key ` set t"
  by (auto simp: find_row_def find_None_iff)

lemma find_row_unique: "distinct (map key t) \<Longrightarrow> r \<in> set t \<Longrightarrow> find_row key (key r) t = Some r"
proof (induction t)
  case (Cons a t)
  then show ?case by (cases "a = r") (force simp: find_row_def)+
qed simp

lemma require_owned_Inr:
  "require_owned key owner w u k t = Inr r \<longleftrightarrow> find_row key k t = Some r \<and> owner r = u"
  by (auto simp: require_owned_def split: option.splits)

lemma require_owned_Inl: "require_owned key owner w u k t = Inl e \<Longrightarrow> e = NotFound w"
  by (auto simp: require_owned_def split: option.splits if_splits)

text \<open>The check sees the user's own rows only.\<close>

lemma require_owned_own:
  assumes "distinct (map key t)"
  shows "require_owned key owner w u k (filter (\<lambda>r. owner r = u) t) = require_owned key owner w u k t"
proof (cases "find_row key k t")
  case None
  then have "find_row key k (filter (\<lambda>r. owner r = u) t) = None" unfolding find_row_None by auto
  with None show ?thesis by (simp add: require_owned_def)
next
  case (Some r)
  then have r: "r \<in> set t" "key r = k" using find_row_Some [OF Some] by simp_all
  show ?thesis
  proof (cases "owner r = u")
    case True
    then have "find_row key (key r) (filter (\<lambda>r. owner r = u) t) = Some r"
      using assms r by (intro find_row_unique) (auto simp: distinct_map inj_on_def)
    then show ?thesis using Some r by (simp add: require_owned_def)
  next
    case False
    have "find_row key k (filter (\<lambda>r. owner r = u) t) = None"
      using assms r False unfolding find_row_None by (auto simp: distinct_map inj_on_def)
    then show ?thesis using Some False by (simp add: require_owned_def)
  qed
qed

lemma own_update: "(\<And>r. owner (f r) = owner r) \<Longrightarrow>
  filter (\<lambda>r. owner r = u) (update_row key k f t) = update_row key k f (filter (\<lambda>r. owner r = u) t)"
  by (induction t) (auto simp: update_row_def)

lemma own_delete: "filter (\<lambda>r. owner r = u) (delete_row key k t) = delete_row key k (filter (\<lambda>r. owner r = u) t)"
  by (simp add: delete_row_def conj_commute)

lemma update_absent: "k \<notin> key ` set t \<Longrightarrow> update_row key k f t = t"
  by (induction t) (auto simp: update_row_def)

lemma delete_absent: "k \<notin> key ` set t \<Longrightarrow> delete_row key k t = t"
  by (induction t) (auto simp: delete_row_def)

lemma foreign_key_row:
  assumes "distinct (map key t)" "require_owned key owner w v k t = Inr r" "v \<noteq> u"
  shows "k \<notin> key ` set (filter (\<lambda>r. owner r = u) t)"
proof -
  have "r \<in> set t" "key r = k" "owner r = v" using assms(2) find_row_Some [of key k t r] by (simp_all add: require_owned_Inr)
  then show ?thesis using assms(1,3) by (auto simp: distinct_map inj_on_def)
qed

lemma keys_update: "(\<And>r. key (f r) = key r) \<Longrightarrow> map key (update_row key' k f t) = map key t"
  by (induction t) (auto simp: update_row_def)

lemma distinct_delete: "distinct (map key t) \<Longrightarrow> distinct (map key (delete_row key' k t))"
  by (simp add: delete_row_def distinct_map_filter)

subsection \<open>A call sees the caller's rows only\<close>

lemma app_ok_keys:
  assumes "app_ok db"
  shows "distinct (map cnId (dbConnections db))" "distinct (map hiId (dbHistory db))" "distinct (map snId (dbSnippets db))"
    "distinct (map cvId (dbConversations db))" "distinct (map leId (dbEndpoints db))"
  using assms by (simp_all add: app_ok_def)

lemma user_view_simps [simp]:
  "dbConnections (user_view u db) = filter (\<lambda>c. cnUserId c = u) (dbConnections db)"
  "dbHistory (user_view u db) = filter (\<lambda>h. hiUserId h = u) (dbHistory db)"
  "dbSnippets (user_view u db) = filter (\<lambda>r. snUserId r = u) (dbSnippets db)"
  "dbConversations (user_view u db) = filter (\<lambda>v. cvUserId v = u) (dbConversations db)"
  "dbMessages (user_view u db) = filter (\<lambda>m. mgConversationId m \<in> cvId ` set (own_conversations u db)) (dbMessages db)"
  "own_conversations u (user_view u db) = own_conversations u db"
  "dbEndpoints (user_view u db) = filter (\<lambda>r. leUserId r = u) (dbEndpoints db)"
  by (simp_all add: user_view_def own_conversations_def)

lemma user_view_idem [simp]: "user_view u (user_view u db) = user_view u db"
  by (simp add: user_view_def own_conversations_def)

lemma app_ok_view: "app_ok db \<Longrightarrow> app_ok (user_view u db)"
  by (auto simp: app_ok_def owned_by_def distinct_map_filter own_conversations_def)

lemma requireOwned_view:
  assumes "app_ok db"
  shows "requireOwned_connection u i (user_view u db) = requireOwned_connection u i db"
    "requireOwned_history u i (user_view u db) = requireOwned_history u i db"
    "requireOwned_conversation u i (user_view u db) = requireOwned_conversation u i db"
    "existing_snippet u i (user_view u db) = existing_snippet u i db"
    "requireOwned_endpoint u i (user_view u db) = requireOwned_endpoint u i db"
  using app_ok_keys [OF assms]
  by (simp_all add: requireOwned_connection_def requireOwned_history_def requireOwned_conversation_def existing_snippet_def
      requireOwned_endpoint_def require_owned_own)

lemma assertOwnership_view: "app_ok db \<Longrightarrow> assertOwnership u c (user_view u db) = assertOwnership u c db"
  by (simp add: assertOwnership_def requireOwned_view)

lemma owned_connection:
  assumes "app_ok db" "owned_by u db i"
  shows "find_row cnId i (filter (\<lambda>c. cnUserId c = u) (dbConnections db)) = find_row cnId i (dbConnections db)"
    "find_row cnId i (dbConnections db) \<noteq> None"
proof -
  obtain c where c: "c \<in> set (dbConnections db)" "cnId c = i" "cnUserId c = u" using assms(2) by (auto simp: owned_by_def)
  have "find_row cnId (cnId c) (dbConnections db) = Some c"
    by (rule find_row_unique [OF app_ok_keys(1) [OF assms(1)] c(1)])
  moreover have "find_row cnId (cnId c) (filter (\<lambda>c. cnUserId c = u) (dbConnections db)) = Some c"
    by (rule find_row_unique) (use c app_ok_keys(1) [OF assms(1)] in \<open>auto simp: distinct_map_filter\<close>)
  ultimately show "find_row cnId i (filter (\<lambda>c. cnUserId c = u) (dbConnections db)) = find_row cnId i (dbConnections db)"
    "find_row cnId i (dbConnections db) \<noteq> None"
    using c(2) by simp_all
qed

text \<open>After the controller's check, the row of the connection is the caller's or there is none.\<close>

lemma checked_connection:
  assumes "app_ok db" "assertOwnership u c db = Inr x"
  shows "find_row cnId c (filter (\<lambda>c. cnUserId c = u) (dbConnections db)) = find_row cnId c (dbConnections db)"
    "find_row cnId c (dbConnections db) \<noteq> None \<Longrightarrow> owned_by u db c"
proof -
  have "owned_by u db c \<or> c = SYSTEM_CONNECTION_ID"
    using assms(2) find_row_Some [of cnId c "dbConnections db"]
    by (fastforce simp: assertOwnership_def isSystemConnectionId_def requireOwned_connection_def res_map_Inr_iff require_owned_Inr
        owned_by_def split: if_splits)
  moreover have "find_row cnId SYSTEM_CONNECTION_ID (dbConnections db) = None"
    "find_row cnId SYSTEM_CONNECTION_ID (filter (\<lambda>c. cnUserId c = u) (dbConnections db)) = None"
    using assms(1) by (auto simp: find_row_None app_ok_def)
  ultimately show "find_row cnId c (filter (\<lambda>c. cnUserId c = u) (dbConnections db)) = find_row cnId c (dbConnections db)"
    "find_row cnId c (dbConnections db) \<noteq> None \<Longrightarrow> owned_by u db c"
    using owned_connection(1) [OF assms(1)] by auto
qed

lemma connection_name_view:
  "app_ok db \<Longrightarrow> h \<in> set (dbHistory db) \<Longrightarrow> hiUserId h = u \<Longrightarrow> connection_name (user_view u db) h = connection_name db h"
  using owned_connection(1) [of db u "hiConnectionId h"] by (auto simp: connection_name_def app_ok_def)

lemma toQueryHistoryDto_view:
  "app_ok db \<Longrightarrow> h \<in> set (dbHistory db) \<Longrightarrow> hiUserId h = u \<Longrightarrow> toQueryHistoryDto (user_view u db) h = toQueryHistoryDto db h"
  by (simp add: toQueryHistoryDto_def connection_name_view)

lemma set_own_history: "set (own_history u db) = {h \<in> set (dbHistory db). hiUserId h = u}"
  by (auto simp: own_history_def descending_def)

lemma own_history_view [simp]: "own_history u (user_view u db) = own_history u db"
  by (simp add: own_history_def)

lemma set_collapse: "set (collapseConsecutiveDuplicates hs) \<subseteq> set hs"
proof -
  have "set (collapse_after p hs) \<subseteq> set hs" for p hs by (induction p hs rule: collapse_after.induct) auto
  then show ?thesis by (cases hs) (auto simp: collapseConsecutiveDuplicates_def)
qed

lemma history_lists_view:
  assumes "app_ok db" "set hs \<subseteq> {h \<in> set (dbHistory db). hiUserId h = u}"
  shows "map (toQueryHistoryDto (user_view u db)) (collapseConsecutiveDuplicates (take n hs))
    = map (toQueryHistoryDto db) (collapseConsecutiveDuplicates (take n hs))"
proof (rule map_cong [OF refl])
  fix h assume "h \<in> set (collapseConsecutiveDuplicates (take n hs))"
  then have "h \<in> set hs" using set_collapse [of "take n hs"] set_take_subset [of n hs] by blast
  then show "toQueryHistoryDto (user_view u db) h = toQueryHistoryDto db h"
    using assms by (auto intro!: toQueryHistoryDto_view)
qed

lemma messages_view:
  assumes "app_ok db" "requireOwned_conversation u i db = Inr r"
  shows "filter (\<lambda>m. mgConversationId m = i) (dbMessages (user_view u db)) = filter (\<lambda>m. mgConversationId m = i) (dbMessages db)"
proof -
  have "r \<in> set (own_conversations u db)" "cvId r = i"
    using assms(2) find_row_Some [of cvId i "dbConversations db" r]
    by (simp_all add: requireOwned_conversation_def require_owned_Inr own_conversations_def)
  then show ?thesis by (auto intro!: filter_cong)
qed

lemma name_taken_view: "name_taken u name except (user_view u db) = name_taken u name except db"
  by (auto simp: name_taken_def list_ex_iff)

lemma recordable_view:
  assumes "app_ok db" "assertOwnership u c db = Inr x"
  shows "find_row cnId c (dbConnections (user_view u db)) = find_row cnId c (dbConnections db)"
  using checked_connection(1) [OF assms] by simp

lemma call_answer_view:
  assumes "app_ok db"
  shows "fst (app_handle env u st c (user_view u db)) = fst (app_handle env u st c db)"
proof (cases c)
  case (RecordQuery i sql)
  then show ?thesis by (simp add: assertOwnership_view [OF assms] split: sum.splits)
next
  case (RecentHistory i)
  have "map (toQueryHistoryDto (user_view u db)) (collapseConsecutiveDuplicates (take n (filter P (own_history u db))))
      = map (toQueryHistoryDto db) (collapseConsecutiveDuplicates (take n (filter P (own_history u db))))" for n P
    using assms by (intro history_lists_view) (auto simp: set_own_history)
  then show ?thesis
    by (cases "assertOwnership u i db") (simp_all add: RecentHistory asking_def listRecent_def assertOwnership_view [OF assms])
next
  case (SearchHistory s i limit)
  have "map (toQueryHistoryDto (user_view u db)) (collapseConsecutiveDuplicates (take n (filter P (own_history u db))))
      = map (toQueryHistoryDto db) (collapseConsecutiveDuplicates (take n (filter P (own_history u db))))" for n P
    using assms by (intro history_lists_view) (auto simp: set_own_history)
  then show ?thesis by (simp add: SearchHistory asking_def history_search_def Let_def)
next
  case ExportHistory
  then show ?thesis
    using connection_name_view [OF assms] by (auto simp: asking_def exportAll_def set_own_history)
next
  case (UpdateHistory i label starred)
  show ?thesis
  proof (cases "requireOwned_history u i db")
    case (Inr h)
    then have "h \<in> set (dbHistory db)" "hiUserId h = u"
      using find_row_Some [of hiId i "dbHistory db" h] by (simp_all add: requireOwned_history_def require_owned_Inr)
    then have "connection_name (user_view u db) h = connection_name db h" by (rule connection_name_view [OF assms])
    then have "toQueryHistoryDto (user_view u db) (updated_history label starred h) = toQueryHistoryDto db (updated_history label starred h)"
      by (simp add: toQueryHistoryDto_def connection_name_def updated_history_def)
    then show ?thesis by (simp add: UpdateHistory answering_def update_history_def requireOwned_view [OF assms] Inr)
  qed (simp add: UpdateHistory answering_def update_history_def requireOwned_view [OF assms])
next
  case (GetConversation i)
  then show ?thesis
    using messages_view [OF assms]
    by (cases "requireOwned_conversation u i db")
      (simp_all add: asking_def get_conversation_def requireOwned_view [OF assms] del: user_view_simps)
next
  case (UpdateSnippet i name body)
  then show ?thesis
    by (cases "existing_snippet u i db")
      (auto simp: answering_def update_snippet_def requireOwned_view [OF assms] name_taken_view simp del: user_view_simps)
next
  case (ListConversations i)
  have "filter (\<lambda>r. cvUserId r = u \<and> cvConnectionId r = i) (dbConversations (user_view u db))
      = filter (\<lambda>r. cvUserId r = u \<and> cvConnectionId r = i) (dbConversations db)"
    by (auto intro: filter_cong)
  then show ?thesis
    by (simp add: ListConversations asking_def list_conversations_def assertOwnership_view [OF assms] del: user_view_simps)
next
  case (AppendMessages i conv messages)
  show ?thesis
  proof (cases "assertOwnership u i db")
    case (Inr x)
    then show ?thesis
      using recordable_view [OF assms Inr]
      by (auto simp: AppendMessages answering_def append_conversation_def assertOwnership_view [OF assms] requireOwned_view [OF assms]
          Let_def split: sum.splits simp del: user_view_simps)
  qed (simp add: AppendMessages assertOwnership_view [OF assms])
qed (simp_all add: asking_def answering_def list_connections_def create_connection_def update_connection_def remove_connection_def
    test_connection_def clear_history_def remove_history_def list_snippets_def create_snippet_def update_snippet_def
    remove_snippet_def list_conversations_def rename_conversation_def remove_conversation_def list_endpoints_def create_endpoint_def
    update_endpoint_def remove_endpoint_def requireOwned_view [OF assms]
    assertOwnership_view [OF assms] name_taken_view Let_def filter_filter conj_commute split: sum.splits
    del: user_view_simps(4) cong: if_cong)

text \<open>The tables a call leaves: the caller's part of them comes from the caller's part before.\<close>

lemma view_eqI:
  assumes "filter (\<lambda>c. cnUserId c = u) (dbConnections a) = filter (\<lambda>c. cnUserId c = u) (dbConnections b)"
    "filter (\<lambda>h. hiUserId h = u) (dbHistory a) = filter (\<lambda>h. hiUserId h = u) (dbHistory b)"
    "filter (\<lambda>r. snUserId r = u) (dbSnippets a) = filter (\<lambda>r. snUserId r = u) (dbSnippets b)"
    "own_conversations u a = own_conversations u b"
    "filter (\<lambda>m. mgConversationId m \<in> cvId ` set (own_conversations u a)) (dbMessages a)
      = filter (\<lambda>m. mgConversationId m \<in> cvId ` set (own_conversations u a)) (dbMessages b)"
    "filter (\<lambda>r. leUserId r = u) (dbEndpoints a) = filter (\<lambda>r. leUserId r = u) (dbEndpoints b)"
  shows "user_view u a = user_view u b"
  using assms by (simp add: user_view_def)

text \<open>An optional change of a row keeps what each change keeps.\<close>

lemma optional_change:
  "(\<And>v. cnUserId (f v) = cnUserId c) \<Longrightarrow> cnUserId (case x of None \<Rightarrow> c | Some v \<Rightarrow> f v) = cnUserId c"
  "(\<And>v. cnId (f v) = cnId c) \<Longrightarrow> cnId (case x of None \<Rightarrow> c | Some v \<Rightarrow> f v) = cnId c"
  by (simp_all split: option.split)

lemma kept_owner [simp]:
  "cnUserId (applySshUpdate env n sdto c) = cnUserId c" "cnId (applySshUpdate env n sdto c) = cnId c"
  "cnUserId (updated_connection env st dto c) = cnUserId c" "cnId (updated_connection env st dto c) = cnId c"
  "cnUserId (sshCreateData env n cdto c) = cnUserId c" "cnId (sshCreateData env n cdto c) = cnId c"
  "hiUserId (updated_history label starred h) = hiUserId h" "hiId (updated_history label starred h) = hiId h"
  "hiConnectionId (updated_history label starred h) = hiConnectionId h"
  "snUserId (updated_snippet st name body r) = snUserId r" "snId (updated_snippet st name body r) = snId r"
  "leUserId (updated_endpoint env st edto e) = leUserId e" "leId (updated_endpoint env st edto e) = leId e"
proof -
  show ssh: "cnUserId (applySshUpdate env n sdto c) = cnUserId c" "cnId (applySshUpdate env n sdto c) = cnId c" for n sdto and c :: connection_row
    by (simp_all add: applySshUpdate_def Let_def optional_change split: bool.split)
  show "cnUserId (updated_connection env st dto c) = cnUserId c" "cnId (updated_connection env st dto c) = cnId c"
    by (simp_all add: updated_connection_def Let_def ssh optional_change)
qed (simp_all add: sshCreateData_def updated_history_def updated_snippet_def updated_endpoint_def Let_def)

subsection \<open>A call leaves the caller's rows as on their own\<close>

lemma own_message_ids:
  "app_ok db \<Longrightarrow> requireOwned_conversation u i db = Inr r \<Longrightarrow> i \<in> cvId ` set (own_conversations u db) \<and> cvId r = i"
  using find_row_Some [of cvId i "dbConversations db" r]
  by (auto simp: requireOwned_conversation_def require_owned_Inr own_conversations_def)

lemma own_conv_update:
  assumes "\<And>r. cvUserId (f r) = cvUserId r"
  shows "own_conversations u (db\<lparr>dbConversations := update_row cvId i f (dbConversations db)\<rparr>)
    = update_row cvId i f (own_conversations u db)"
  using own_update [of cvUserId f] assms by (simp add: own_conversations_def)

lemma ids_update: "(\<And>r. key (f r) = key r) \<Longrightarrow> key ` set (update_row key' k f t) = key ` set t"
  using keys_update [of key f key' k t] by (metis list.set_map)

lemma own_conversations_simps [simp]:
  "own_conversations u (db\<lparr>dbConnections := cs\<rparr>) = own_conversations u db"
  "own_conversations u (db\<lparr>dbHistory := hs\<rparr>) = own_conversations u db"
  "own_conversations u (db\<lparr>dbSnippets := ss\<rparr>) = own_conversations u db"
  "own_conversations u (db\<lparr>dbMessages := ms\<rparr>) = own_conversations u db"
  "own_conversations u (db\<lparr>dbEvicted := es\<rparr>) = own_conversations u db"
  "own_conversations u (db\<lparr>dbEndpoints := les\<rparr>) = own_conversations u db"
  "own_conversations u (db\<lparr>dbConversations := vs\<rparr>) = filter (\<lambda>v. cvUserId v = u) vs"
  by (simp_all add: own_conversations_def)

text \<open>A change of one table, seen by a user.\<close>

lemma view_updates:
  "user_view u (db\<lparr>dbConnections := cs\<rparr>) = (user_view u db)\<lparr>dbConnections := filter (\<lambda>c. cnUserId c = u) cs\<rparr>"
  "user_view u (db\<lparr>dbHistory := hs\<rparr>) = (user_view u db)\<lparr>dbHistory := filter (\<lambda>h. hiUserId h = u) hs\<rparr>"
  "user_view u (db\<lparr>dbSnippets := ss\<rparr>) = (user_view u db)\<lparr>dbSnippets := filter (\<lambda>r. snUserId r = u) ss\<rparr>"
  "user_view u (db\<lparr>dbEvicted := es\<rparr>) = user_view u db"
  "user_view u (db\<lparr>dbEndpoints := les\<rparr>) = (user_view u db)\<lparr>dbEndpoints := filter (\<lambda>r. leUserId r = u) les\<rparr>"
  "user_view u (db\<lparr>dbMessages := ms\<rparr>)
     = (user_view u db)\<lparr>dbMessages := filter (\<lambda>m. mgConversationId m \<in> cvId ` set (own_conversations u db)) ms\<rparr>"
  by (simp_all add: user_view_def)

lemma view_conversations:
  "user_view u (db\<lparr>dbConversations := vs\<rparr>) =
     (user_view u db)\<lparr>dbConversations := filter (\<lambda>v. cvUserId v = u) vs,
       dbMessages := filter (\<lambda>m. mgConversationId m \<in> cvId ` set (filter (\<lambda>v. cvUserId v = u) vs)) (dbMessages db)\<rparr>"
  by (simp add: user_view_def)

lemma view_same:
  assumes "user_view u a = user_view u b"
  shows "filter (\<lambda>c. cnUserId c = u) (dbConnections a) = filter (\<lambda>c. cnUserId c = u) (dbConnections b)"
    "filter (\<lambda>h. hiUserId h = u) (dbHistory a) = filter (\<lambda>h. hiUserId h = u) (dbHistory b)"
    "filter (\<lambda>r. snUserId r = u) (dbSnippets a) = filter (\<lambda>r. snUserId r = u) (dbSnippets b)"
    "own_conversations u a = own_conversations u b"
  using assms by (simp_all add: user_view_def)

lemma filter_update:
  "(\<And>r. owner (f r) = owner r) \<Longrightarrow>
   filter (\<lambda>r. owner r = u) (update_row key k f (filter (\<lambda>r. owner r = u) t)) = filter (\<lambda>r. owner r = u) (update_row key k f t)"
  by (simp add: own_update)

lemma filter_delete:
  "filter (\<lambda>r. owner r = u) (delete_row key k (filter (\<lambda>r. owner r = u) t)) = filter (\<lambda>r. owner r = u) (delete_row key k t)"
  by (simp add: own_delete)

lemma connection_call_view:
  assumes "app_ok db"
  shows "user_view u (snd (create_connection env u st dto (user_view u db))) = user_view u (snd (create_connection env u st dto db))"
    "user_view u (snd (update_connection env u st i udto (user_view u db))) = user_view u (snd (update_connection env u st i udto db))"
    "user_view u (snd (remove_connection u i (user_view u db))) = user_view u (snd (remove_connection u i db))"
proof -
  show "user_view u (snd (create_connection env u st dto (user_view u db))) = user_view u (snd (create_connection env u st dto db))"
    by (simp add: create_connection_def Let_def view_updates split: sum.split)
  show "user_view u (snd (update_connection env u st i udto (user_view u db))) = user_view u (snd (update_connection env u st i udto db))"
    by (simp add: update_connection_def requireOwned_view [OF assms] view_updates own_update split: sum.split)
  have same: "cvId v = cvId v' \<longleftrightarrow> v = v'" if "v \<in> set (dbConversations db)" "v' \<in> set (dbConversations db)" for v v'
    using app_ok_keys(4) [OF assms] that by (auto simp: distinct_map inj_on_def)
  show "user_view u (snd (remove_connection u i (user_view u db))) = user_view u (snd (remove_connection u i db))"
  proof (cases "res_bind (assertNotSystem i) (\<lambda>_. requireOwned_connection u i db)")
    case (Inr c)
    show ?thesis
      by (rule view_eqI; auto simp: remove_connection_def requireOwned_view [OF assms] Inr Let_def own_delete
          own_conversations_def intro!: filter_cong) (metis same)
  qed (simp add: remove_connection_def requireOwned_view [OF assms])
qed

lemma history_call_view:
  assumes "app_ok db"
  shows "user_view u (snd (update_history u i label starred (user_view u db))) = user_view u (snd (update_history u i label starred db))"
    "user_view u (snd (remove_history u i (user_view u db))) = user_view u (snd (remove_history u i db))"
    "user_view u (clear_history u c (user_view u db)) = user_view u (clear_history u c db)"
    "user_view u (history_sweep days now (user_view u db)) = user_view u (history_sweep days now db)"
    "assertOwnership u cn db = Inr x \<Longrightarrow> user_view u (record_history u st cn sql (user_view u db)) = user_view u (record_history u st cn sql db)"
proof -
  show "user_view u (snd (update_history u i label starred (user_view u db))) = user_view u (snd (update_history u i label starred db))"
    by (simp add: update_history_def requireOwned_view [OF assms] view_updates own_update split: sum.split)
  show "user_view u (snd (remove_history u i (user_view u db))) = user_view u (snd (remove_history u i db))"
    by (simp add: remove_history_def requireOwned_view [OF assms] view_updates own_delete split: sum.split)
  show "user_view u (clear_history u c (user_view u db)) = user_view u (clear_history u c db)"
    by (simp add: clear_history_def view_updates) (rule arg_cong [where f = "\<lambda>hs. (user_view u db)\<lparr>dbHistory := hs\<rparr>"], auto intro: filter_cong)
  show "user_view u (history_sweep days now (user_view u db)) = user_view u (history_sweep days now db)"
    by (simp add: history_sweep_def view_updates) (intro impI arg_cong [where f = "\<lambda>hs. (user_view u db)\<lparr>dbHistory := hs\<rparr>"], auto intro: filter_cong)
  show "user_view u (record_history u st cn sql (user_view u db)) = user_view u (record_history u st cn sql db)"
    if "assertOwnership u cn db = Inr x"
    using checked_connection(1) [OF assms that] by (simp add: record_history_def view_updates)
qed

lemma snippet_call_view:
  assumes "app_ok db"
  shows "user_view u (snd (create_snippet u st name body (user_view u db))) = user_view u (snd (create_snippet u st name body db))"
    "user_view u (snd (update_snippet u st i sname sbody (user_view u db))) = user_view u (snd (update_snippet u st i sname sbody db))"
    "user_view u (snd (remove_snippet u i (user_view u db))) = user_view u (snd (remove_snippet u i db))"
proof -
  show "user_view u (snd (create_snippet u st name body (user_view u db))) = user_view u (snd (create_snippet u st name body db))"
    by (simp add: create_snippet_def name_taken_view Let_def view_updates)
  show "user_view u (snd (update_snippet u st i sname sbody (user_view u db))) = user_view u (snd (update_snippet u st i sname sbody db))"
    by (cases "existing_snippet u i db")
      (simp_all add: update_snippet_def requireOwned_view [OF assms] name_taken_view view_updates own_update)
  show "user_view u (snd (remove_snippet u i (user_view u db))) = user_view u (snd (remove_snippet u i db))"
    by (simp add: remove_snippet_def requireOwned_view [OF assms] view_updates own_delete split: sum.split)
qed

lemma endpoint_call_view:
  assumes "app_ok db"
  shows "user_view u (snd (create_endpoint env u st edto (user_view u db))) = user_view u (snd (create_endpoint env u st edto db))"
    "user_view u (snd (update_endpoint env u st i eudto (user_view u db))) = user_view u (snd (update_endpoint env u st i eudto db))"
    "user_view u (snd (remove_endpoint u i (user_view u db))) = user_view u (snd (remove_endpoint u i db))"
  by (simp_all add: create_endpoint_def update_endpoint_def remove_endpoint_def requireOwned_view [OF assms] Let_def view_updates
      own_update own_delete split: sum.split)

lemma view_messages_added:
  "user_view u (add_messages st i ms (user_view u db)) = user_view u (add_messages st i ms db)"
  by (simp add: add_messages_def view_updates)

lemma conversation_update_view:
  assumes "\<And>r. cvUserId (f r) = cvUserId r" "\<And>r. cvId (f r) = cvId r"
  shows "user_view u (db\<lparr>dbConversations := update_row cvId i f (dbConversations db)\<rparr>)
    = (user_view u db)\<lparr>dbConversations := update_row cvId i f (own_conversations u db)\<rparr>"
  using assms by (simp add: view_conversations own_update ids_update own_conversations_def)

lemma conversation_call_view:
  assumes "app_ok db" "stUuid st \<notin> app_ids db"
  shows "user_view u (snd (rename_conversation u st i title (user_view u db))) = user_view u (snd (rename_conversation u st i title db))"
    "user_view u (snd (remove_conversation u i (user_view u db))) = user_view u (snd (remove_conversation u i db))"
    "assertOwnership u cn db = Inr x \<Longrightarrow>
     user_view u (snd (append_conversation u st cn conv ms (user_view u db))) = user_view u (snd (append_conversation u st cn conv ms db))"
proof -
  show "user_view u (snd (rename_conversation u st i title (user_view u db))) = user_view u (snd (rename_conversation u st i title db))"
    by (simp add: rename_conversation_def requireOwned_view [OF assms(1)] conversation_update_view del: user_view_simps(4) split: sum.split)
  show "user_view u (snd (remove_conversation u i (user_view u db))) = user_view u (snd (remove_conversation u i db))"
    by (cases "requireOwned_conversation u i db"; simp add: remove_conversation_def requireOwned_view [OF assms(1)])
      (rule view_eqI; auto simp: own_conversations_def delete_row_def intro!: filter_cong)
  assume cn: "assertOwnership u cn db = Inr x"
  show "user_view u (snd (append_conversation u st cn conv ms (user_view u db))) = user_view u (snd (append_conversation u st cn conv ms db))"
  proof (cases "truthy conv")
    case True
    then show ?thesis
      by (simp add: append_conversation_def requireOwned_view [OF assms(1)] add_messages_def view_updates conversation_update_view
          own_update ids_update own_conversations_def del: user_view_simps(4) split: sum.split) (simp add: own_conversations_def own_update)
  next
    case False
    have "mgConversationId m \<noteq> stUuid st" if "m \<in> set (dbMessages db)" for m
    proof -
      have "mgConversationId m \<in> cvId ` set (dbConversations db)" using assms(1) that by (simp add: app_ok_def)
      then show ?thesis using assms(2) by (auto simp: app_ids_def)
    qed
    then have none: "filter (\<lambda>m. mgConversationId m = stUuid st) (dbMessages db) = []" by (simp add: filter_empty_conv)
    show ?thesis
      by (simp add: False append_conversation_def recordable_view [OF assms(1) cn] Let_def add_messages_def del: user_view_simps)
        (use none in \<open>auto simp: user_view_def own_conversations_def filter_empty_conv intro!: filter_cong\<close>)
  qed
qed

lemma call_view:
  assumes "app_ok db" "stUuid st \<notin> app_ids db"
  shows "user_view u (snd (app_handle env u st c (user_view u db))) = user_view u (snd (app_handle env u st c db))"
proof (cases c)
  case (RecordQuery i sql)
  then show ?thesis
    using history_call_view(5) [OF assms(1)] by (simp add: assertOwnership_view [OF assms(1)] split: sum.split)
next
  case (AppendMessages i conv ms)
  then show ?thesis
    using conversation_call_view(3) [OF assms] by (simp add: answering_def assertOwnership_view [OF assms(1)] split: sum.split)
qed (simp_all add: asking_def answering_def connection_call_view [OF assms(1)] history_call_view [OF assms(1)]
    snippet_call_view [OF assms(1)] conversation_call_view [OF assms] endpoint_call_view [OF assms(1)])

subsection \<open>A call leaves the others' rows alone\<close>

lemma foreign_update:
  assumes "distinct (map key t)" "require_owned key owner w v k t = Inr r" "v \<noteq> u" "\<And>r. owner (f r) = owner r"
  shows "filter (\<lambda>r. owner r = u) (update_row key k f t) = filter (\<lambda>r. owner r = u) t"
  using own_update [of owner f u key k t] assms(4) foreign_key_row [OF assms(1-3)] by (simp add: update_absent)

lemma foreign_delete:
  assumes "distinct (map key t)" "require_owned key owner w v k t = Inr r" "v \<noteq> u"
  shows "filter (\<lambda>r. owner r = u) (delete_row key k t) = filter (\<lambda>r. owner r = u) t"
  using own_delete [of owner u key k t] foreign_key_row [OF assms] by (simp add: delete_absent)

lemma foreign_connection:
  assumes "app_ok db" "requireOwned_connection v i db = Inr c" "v \<noteq> u"
  shows "h \<in> set (dbHistory db) \<Longrightarrow> hiUserId h = u \<Longrightarrow> hiConnectionId h \<noteq> i"
    "w \<in> set (dbConversations db) \<Longrightarrow> cvUserId w = u \<Longrightarrow> cvConnectionId w \<noteq> i"
proof -
  have "\<not> owned_by u db i"
    using foreign_key_row [OF app_ok_keys(1) [OF assms(1)] assms(2) [unfolded requireOwned_connection_def] assms(3)]
    by (auto simp: owned_by_def)
  then show "h \<in> set (dbHistory db) \<Longrightarrow> hiUserId h = u \<Longrightarrow> hiConnectionId h \<noteq> i"
    "w \<in> set (dbConversations db) \<Longrightarrow> cvUserId w = u \<Longrightarrow> cvConnectionId w \<noteq> i"
    using assms(1) by (auto simp: app_ok_def)
qed

lemma foreign_messages:
  assumes "app_ok db" "requireOwned_conversation v i db = Inr r" "v \<noteq> u"
  shows "i \<notin> cvId ` set (own_conversations u db)"
  using foreign_key_row [OF app_ok_keys(4) [OF assms(1)] assms(2) [unfolded requireOwned_conversation_def] assms(3)]
  by (simp add: own_conversations_def)

lemma fresh_message:
  assumes "app_ok db" "stUuid st \<notin> app_ids db"
  shows "stUuid st \<notin> cvId ` set (own_conversations u db)"
  using assms(2) by (auto simp: app_ids_def own_conversations_def)

lemma others_connection:
  assumes "app_ok db" "v \<noteq> u"
  shows "user_view u (snd (create_connection env v st dto db)) = user_view u db"
    "user_view u (snd (update_connection env v st i udto db)) = user_view u db"
    "user_view u (snd (remove_connection v i db)) = user_view u db"
proof -
  show "user_view u (snd (create_connection env v st dto db)) = user_view u db"
    using assms(2) by (simp add: create_connection_def Let_def view_updates user_view_def split: sum.split)
  show "user_view u (snd (update_connection env v st i udto db)) = user_view u db"
  proof (cases "res_bind (assertNotSystem i) (\<lambda>_. requireOwned_connection v i db)")
    case (Inr c)
    then have "requireOwned_connection v i db = Inr c" by (simp add: res_bind_Inr_iff)
    from foreign_update [OF app_ok_keys(1) [OF assms(1)] this [unfolded requireOwned_connection_def] assms(2)]
    show ?thesis by (simp add: update_connection_def Inr view_updates)
  qed (simp add: update_connection_def)
  show "user_view u (snd (remove_connection v i db)) = user_view u db"
  proof (cases "res_bind (assertNotSystem i) (\<lambda>_. requireOwned_connection v i db)")
    case (Inr c)
    then have own: "requireOwned_connection v i db = Inr c" by (simp add: res_bind_Inr_iff)
    note gone = foreign_connection [OF assms(1) own assms(2)]
      and rows = foreign_delete [OF app_ok_keys(1) [OF assms(1)] own [unfolded requireOwned_connection_def] assms(2)]
    have same: "cvId w = cvId w' \<longleftrightarrow> w = w'" if "w \<in> set (dbConversations db)" "w' \<in> set (dbConversations db)" for w w'
      using app_ok_keys(4) [OF assms(1)] that by (auto simp: distinct_map inj_on_def)
    show ?thesis
      by (rule view_eqI; simp add: remove_connection_def Inr Let_def rows own_conversations_def;
          auto dest: gone simp: same image_iff intro!: filter_cong)
  qed (simp add: remove_connection_def)
qed

lemma others_history:
  assumes "app_ok db" "v \<noteq> u"
  shows "user_view u (snd (update_history v i label starred db)) = user_view u db"
    "user_view u (snd (remove_history v i db)) = user_view u db"
    "user_view u (clear_history v c db) = user_view u db"
    "user_view u (record_history v st cn sql db) = user_view u db"
proof -
  show "user_view u (snd (update_history v i label starred db)) = user_view u db"
  proof (cases "requireOwned_history v i db")
    case (Inr h)
    from foreign_update [OF app_ok_keys(2) [OF assms(1)] Inr [unfolded requireOwned_history_def] assms(2)]
    show ?thesis by (simp add: update_history_def Inr view_updates)
  qed (simp add: update_history_def)
  show "user_view u (snd (remove_history v i db)) = user_view u db"
  proof (cases "requireOwned_history v i db")
    case (Inr h)
    from foreign_delete [OF app_ok_keys(2) [OF assms(1)] Inr [unfolded requireOwned_history_def] assms(2)]
    show ?thesis by (simp add: remove_history_def Inr view_updates)
  qed (simp add: remove_history_def)
  have "filter (\<lambda>h. hiUserId h = u) (dbHistory (clear_history v c db)) = filter (\<lambda>h. hiUserId h = u) (dbHistory db)"
    using assms(2) by (auto simp: clear_history_def intro: filter_cong)
  then show "user_view u (clear_history v c db) = user_view u db"
    by (simp add: clear_history_def user_view_def own_conversations_def)
  show "user_view u (record_history v st cn sql db) = user_view u db"
    using assms(2) by (simp add: record_history_def view_updates)
qed

lemma others_snippet:
  assumes "app_ok db" "v \<noteq> u"
  shows "user_view u (snd (create_snippet v st name body db)) = user_view u db"
    "user_view u (snd (update_snippet v st i sname sbody db)) = user_view u db"
    "user_view u (snd (remove_snippet v i db)) = user_view u db"
proof -
  show "user_view u (snd (create_snippet v st name body db)) = user_view u db"
    using assms(2) by (simp add: create_snippet_def Let_def view_updates)
  show "user_view u (snd (update_snippet v st i sname sbody db)) = user_view u db"
  proof (cases "existing_snippet v i db")
    case (Inr r)
    from foreign_update [OF app_ok_keys(3) [OF assms(1)] Inr [unfolded existing_snippet_def] assms(2)]
    show ?thesis by (simp add: update_snippet_def Inr view_updates)
  qed (simp add: update_snippet_def)
  show "user_view u (snd (remove_snippet v i db)) = user_view u db"
  proof (cases "existing_snippet v i db")
    case (Inr r)
    from foreign_delete [OF app_ok_keys(3) [OF assms(1)] Inr [unfolded existing_snippet_def] assms(2)]
    show ?thesis by (simp add: remove_snippet_def Inr view_updates)
  qed (simp add: remove_snippet_def)
qed

lemma others_endpoint:
  assumes "app_ok db" "v \<noteq> u"
  shows "user_view u (snd (create_endpoint env v st edto db)) = user_view u db"
    "user_view u (snd (update_endpoint env v st i eudto db)) = user_view u db"
    "user_view u (snd (remove_endpoint v i db)) = user_view u db"
proof -
  show "user_view u (snd (create_endpoint env v st edto db)) = user_view u db"
    using assms(2) by (simp add: create_endpoint_def Let_def view_updates)
  show "user_view u (snd (update_endpoint env v st i eudto db)) = user_view u db"
  proof (cases "requireOwned_endpoint v i db")
    case (Inr r)
    from foreign_update [OF app_ok_keys(5) [OF assms(1)] Inr [unfolded requireOwned_endpoint_def] assms(2)]
    show ?thesis by (simp add: update_endpoint_def Inr view_updates)
  qed (simp add: update_endpoint_def)
  show "user_view u (snd (remove_endpoint v i db)) = user_view u db"
  proof (cases "requireOwned_endpoint v i db")
    case (Inr r)
    from foreign_delete [OF app_ok_keys(5) [OF assms(1)] Inr [unfolded requireOwned_endpoint_def] assms(2)]
    show ?thesis by (simp add: remove_endpoint_def Inr view_updates)
  qed (simp add: remove_endpoint_def)
qed

lemma messages_elsewhere:
  "i \<notin> cvId ` set (own_conversations u db) \<Longrightarrow> user_view u (add_messages st i ms db) = user_view u db"
  by (simp add: add_messages_def view_updates filter_empty_conv image_iff)

lemma others_conversation:
  assumes "app_ok db" "v \<noteq> u" "stUuid st \<notin> app_ids db"
  shows "user_view u (snd (append_conversation v st cn conv ms db)) = user_view u db"
    "user_view u (snd (rename_conversation v st i title db)) = user_view u db"
    "user_view u (snd (remove_conversation v i db)) = user_view u db"
proof -
  have upd: "own_conversations u (db\<lparr>dbConversations := update_row cvId k f (dbConversations db)\<rparr>) = own_conversations u db"
    if "requireOwned_conversation v k db = Inr r" "\<And>r. cvUserId (f r) = cvUserId r" for k f r
    using foreign_update [OF app_ok_keys(4) [OF assms(1)] that(1) [unfolded requireOwned_conversation_def] assms(2), of f] that(2)
    by (simp add: own_conversations_def)
  have upd_view: "user_view u (db\<lparr>dbConversations := update_row cvId k f (dbConversations db)\<rparr>) = user_view u db"
    if "requireOwned_conversation v k db = Inr r" "\<And>r. cvUserId (f r) = cvUserId r" for k f r
    using upd [OF that] by (simp add: user_view_def)
  show "user_view u (snd (rename_conversation v st i title db)) = user_view u db"
    by (cases "requireOwned_conversation v i db") (simp_all add: rename_conversation_def upd_view)
  show "user_view u (snd (append_conversation v st cn conv ms db)) = user_view u db"
  proof (cases "truthy conv")
    case True
    show ?thesis
    proof (cases "requireOwned_conversation v (the conv) db")
      case (Inr r)
      have "the conv \<notin> cvId ` set (own_conversations u db)" by (rule foreign_messages [OF assms(1) Inr assms(2)])
      moreover have "cvId r = the conv" using own_message_ids [OF assms(1) Inr] by simp
      ultimately show ?thesis
        using upd [OF Inr, of "\<lambda>r. r\<lparr>cvUpdatedAt := stNow st\<rparr>"] upd_view [OF Inr, of "\<lambda>r. r\<lparr>cvUpdatedAt := stNow st\<rparr>"]
        by (simp add: append_conversation_def True Inr messages_elsewhere)
    qed (simp add: append_conversation_def True)
  next
    case False
    then show ?thesis
      using fresh_message [OF assms(1,3), of u] assms(2)
      by (simp add: append_conversation_def Let_def messages_elsewhere own_conversations_def) (simp add: user_view_def own_conversations_def)
  qed
  show "user_view u (snd (remove_conversation v i db)) = user_view u db"
  proof (cases "requireOwned_conversation v i db")
    case (Inr r)
    note rows = foreign_delete [OF app_ok_keys(4) [OF assms(1)] Inr [unfolded requireOwned_conversation_def] assms(2)]
    show ?thesis
      using foreign_messages [OF assms(1) Inr assms(2)]
      by (intro view_eqI) (auto simp: remove_conversation_def Inr rows own_conversations_def intro!: filter_cong)
  qed (simp add: remove_conversation_def)
qed

lemma call_others:
  assumes "app_ok db" "v \<noteq> u" "stUuid st \<notin> app_ids db"
  shows "user_view u (snd (app_handle env v st c db)) = user_view u db"
  by (cases c; simp add: asking_def answering_def others_connection [OF assms(1,2)] others_history [OF assms(1,2)]
      others_snippet [OF assms(1,2)] others_conversation [OF assms] others_endpoint [OF assms(1,2)] split: sum.split)

subsection \<open>The state is kept\<close>

lemma set_update_row: "r' \<in> set (update_row key k f t) \<Longrightarrow> \<exists>r \<in> set t. r' = f r \<or> r' = r"
  by (auto simp: update_row_def)

lemma set_delete_row: "r \<in> set (delete_row key k t) \<longleftrightarrow> r \<in> set t \<and> key r \<noteq> k"
  by (auto simp: delete_row_def)

lemma owned_by_pairs: "owned_by u db i \<longleftrightarrow> (i, u) \<in> set (map (\<lambda>c. (cnId c, cnUserId c)) (dbConnections db))"
  by (auto simp: owned_by_def)

lemma owned_by_update:
  assumes "\<And>c. cnId (f c) = cnId c" "\<And>c. cnUserId (f c) = cnUserId c"
  shows "owned_by u (db\<lparr>dbConnections := update_row cnId i f (dbConnections db), dbEvicted := ev\<rparr>) j = owned_by u db j"
  using keys_update [of "\<lambda>c. (cnId c, cnUserId c)" f cnId i "dbConnections db"] assms by (simp add: owned_by_pairs)

lemma owned_by_tables [simp]:
  "owned_by u (db\<lparr>dbHistory := hs\<rparr>) i = owned_by u db i" "owned_by u (db\<lparr>dbSnippets := ss\<rparr>) i = owned_by u db i"
  "owned_by u (db\<lparr>dbConversations := vs\<rparr>) i = owned_by u db i" "owned_by u (db\<lparr>dbMessages := ms\<rparr>) i = owned_by u db i"
  "owned_by u (db\<lparr>dbEndpoints := les\<rparr>) i = owned_by u db i"
  by (simp_all add: owned_by_def)

lemma connections_ok:
  assumes "app_ok db" "stUuid st \<notin> app_ids db" "stUuid st \<noteq> SYSTEM_CONNECTION_ID"
  shows "app_ok (snd (create_connection env u st dto db))" "app_ok (snd (update_connection env u st i udto db))"
    "app_ok (snd (remove_connection u i db))"
proof -
  show "app_ok (snd (create_connection env u st dto db))"
    using assms by (auto simp: create_connection_def Let_def app_ok_def app_ids_def owned_by_def split: sum.split)
  show "app_ok (snd (update_connection env u st i udto db))"
  proof (cases "res_bind (assertNotSystem i) (\<lambda>_. requireOwned_connection u i db)")
    case (Inr c)
    then show ?thesis
      using assms(1) by (simp add: update_connection_def app_ok_def keys_update owned_by_update ids_update)
  qed (simp add: update_connection_def assms(1))
  show "app_ok (snd (remove_connection u i db))"
  proof (cases "res_bind (assertNotSystem i) (\<lambda>_. requireOwned_connection u i db)")
    case (Inr c)
    have owned: "owned_by w (db\<lparr>dbConnections := delete_row cnId i (dbConnections db), dbHistory := hs, dbConversations := vs,
        dbMessages := ms, dbEvicted := ev\<rparr>) k" if "owned_by w db k" "k \<noteq> i" for w k hs vs ms ev
      using that by (auto simp: owned_by_def set_delete_row)
    have gone: "mgConversationId m \<in> cvId ` {v \<in> set (dbConversations db). cvConnectionId v \<noteq> i}"
      if "m \<in> set (dbMessages db)" "mgConversationId m \<notin> cvId ` {v \<in> set (dbConversations db). cvConnectionId v = i}" for m
    proof -
      have "mgConversationId m \<in> cvId ` set (dbConversations db)" using assms(1) that(1) by (simp add: app_ok_def)
      with that(2) show ?thesis by blast
    qed
    show ?thesis
      using assms(1) gone
      by (simp add: remove_connection_def Inr Let_def app_ok_def distinct_delete distinct_map_filter owned) (auto simp: set_delete_row)
  qed (simp add: remove_connection_def assms(1))
qed

end
