(* ===== verification/Isolation.thy ===== *)
theory Isolation
  imports Tenancy
begin

text \<open>
  The isolation of the users: the calls keep the state of the application's database, the database is an
  \<open>isolated_store\<close>, and what follows for the answers.
\<close>

subsection \<open>The other tables\<close>

lemma app_ok_history:
  assumes "app_ok db" "distinct (map hiId hs)" "\<And>h. h \<in> set hs \<Longrightarrow> owned_by (hiUserId h) db (hiConnectionId h)"
  shows "app_ok (db\<lparr>dbHistory := hs\<rparr>)"
  using assms by (simp add: app_ok_def)

lemma app_ok_snippets: "app_ok db \<Longrightarrow> distinct (map snId ss) \<Longrightarrow> app_ok (db\<lparr>dbSnippets := ss\<rparr>)"
  by (simp add: app_ok_def)

lemma app_ok_conversations:
  assumes "app_ok db" "distinct (map cvId vs)" "\<And>v. v \<in> set vs \<Longrightarrow> owned_by (cvUserId v) db (cvConnectionId v)"
    "\<And>m. m \<in> set ms \<Longrightarrow> mgConversationId m \<in> cvId ` set vs"
  shows "app_ok (db\<lparr>dbConversations := vs, dbMessages := ms\<rparr>)"
  using assms by (simp add: app_ok_def)

lemma history_kept:
  assumes "app_ok db" "stUuid st \<notin> app_ids db"
  shows "app_ok (snd (update_history u i label starred db))" "app_ok (snd (remove_history u i db))"
    "app_ok (clear_history u c db)" "app_ok (history_sweep days now db)"
    "assertOwnership u cn db = Inr x \<Longrightarrow> app_ok (record_history u st cn sql db)"
proof -
  have rows: "distinct (map hiId (dbHistory db))" "\<And>h. h \<in> set (dbHistory db) \<Longrightarrow> owned_by (hiUserId h) db (hiConnectionId h)"
    using assms(1) by (simp_all add: app_ok_def)
  show "app_ok (snd (update_history u i label starred db))"
    by (cases "requireOwned_history u i db")
      (auto simp: update_history_def assms(1) rows keys_update intro!: app_ok_history dest!: set_update_row)
  show "app_ok (snd (remove_history u i db))"
    by (cases "requireOwned_history u i db")
      (auto simp: remove_history_def assms(1) rows distinct_delete set_delete_row intro!: app_ok_history)
  show "app_ok (clear_history u c db)" "app_ok (history_sweep days now db)"
    by (auto simp: clear_history_def history_sweep_def assms(1) rows distinct_map_filter intro!: app_ok_history)
  show "app_ok (record_history u st cn sql db)" if own: "assertOwnership u cn db = Inr x"
  proof (cases "find_row cnId cn (dbConnections db)")
    case (Some r)
    then have "owned_by u db cn" using checked_connection(2) [OF assms(1) own] by simp
    moreover have "stUuid st \<notin> hiId ` set (dbHistory db)" using assms(2) by (simp add: app_ids_def)
    ultimately show ?thesis
      using rows by (auto simp: record_history_def Some intro!: app_ok_history [OF assms(1)])
  qed (simp add: record_history_def assms(1))
qed

lemma endpoints_kept:
  assumes "app_ok db" "stUuid st \<notin> app_ids db"
  shows "app_ok (snd (create_endpoint env u st edto db))" "app_ok (snd (update_endpoint env u st i eudto db))"
    "app_ok (snd (remove_endpoint u i db))"
proof -
  have rows: "distinct (map leId (dbEndpoints db))" "stUuid st \<notin> leId ` set (dbEndpoints db)"
    using assms by (simp_all add: app_ok_def app_ids_def)
  have kept: "app_ok (db\<lparr>dbEndpoints := les\<rparr>)" if "distinct (map leId les)" for les
    using assms(1) that by (simp add: app_ok_def)
  show "app_ok (snd (create_endpoint env u st edto db))" using rows by (simp add: create_endpoint_def Let_def kept)
  show "app_ok (snd (update_endpoint env u st i eudto db))" "app_ok (snd (remove_endpoint u i db))"
    by (cases "requireOwned_endpoint u i db";
        simp add: update_endpoint_def remove_endpoint_def assms(1) rows keys_update distinct_delete kept)+
qed

lemma snippets_kept:
  assumes "app_ok db" "stUuid st \<notin> app_ids db"
  shows "app_ok (snd (create_snippet u st name body db))" "app_ok (snd (update_snippet u st i sname sbody db))"
    "app_ok (snd (remove_snippet u i db))"
proof -
  have rows: "distinct (map snId (dbSnippets db))" "stUuid st \<notin> snId ` set (dbSnippets db)"
    using assms by (simp_all add: app_ok_def app_ids_def)
  show "app_ok (snd (create_snippet u st name body db))"
    using rows by (simp add: create_snippet_def Let_def assms(1) app_ok_snippets)
  show "app_ok (snd (update_snippet u st i sname sbody db))" "app_ok (snd (remove_snippet u i db))"
    by (cases "existing_snippet u i db";
        simp add: update_snippet_def remove_snippet_def assms(1) rows keys_update distinct_delete app_ok_snippets)+
qed

lemma conversations_kept:
  assumes "app_ok db" "stUuid st \<notin> app_ids db"
  shows "app_ok (snd (rename_conversation u st i title db))" "app_ok (snd (remove_conversation u i db))"
    "assertOwnership u cn db = Inr x \<Longrightarrow> app_ok (snd (append_conversation u st cn conv ms db))"
proof -
  have rows: "distinct (map cvId (dbConversations db))"
    "\<And>v. v \<in> set (dbConversations db) \<Longrightarrow> owned_by (cvUserId v) db (cvConnectionId v)"
    "\<And>m. m \<in> set (dbMessages db) \<Longrightarrow> mgConversationId m \<in> cvId ` set (dbConversations db)"
    and fresh: "stUuid st \<notin> cvId ` set (dbConversations db)"
    using assms by (simp_all add: app_ok_def app_ids_def)
  have changed: "app_ok (db\<lparr>dbConversations := update_row cvId k f (dbConversations db)\<rparr>)"
    "app_ok (db\<lparr>dbConversations := update_row cvId k f (dbConversations db), dbMessages := dbMessages db @ new\<rparr>)"
    if f: "\<And>r. cvId (f r) = cvId r" "\<And>r. cvUserId (f r) = cvUserId r" "\<And>r. cvConnectionId (f r) = cvConnectionId r"
      and new: "\<And>m. m \<in> set new \<Longrightarrow> mgConversationId m \<in> cvId ` set (dbConversations db)" for k f new
  proof -
    have owned: "owned_by (cvUserId v) db (cvConnectionId v)" if "v \<in> set (update_row cvId k f (dbConversations db))" for v
      using set_update_row [OF that] rows(2) f by auto
    have ids: "cvId ` set (update_row cvId k f (dbConversations db)) = cvId ` set (dbConversations db)"
      by (rule ids_update [where key = cvId]) (rule f)
    have "app_ok (db\<lparr>dbConversations := update_row cvId k f (dbConversations db), dbMessages := dbMessages db\<rparr>)"
      by (rule app_ok_conversations [OF assms(1)]) (auto simp: keys_update f rows ids owned)
    then show "app_ok (db\<lparr>dbConversations := update_row cvId k f (dbConversations db)\<rparr>)" by simp
    show "app_ok (db\<lparr>dbConversations := update_row cvId k f (dbConversations db), dbMessages := dbMessages db @ new\<rparr>)"
      by (rule app_ok_conversations [OF assms(1)]) (auto simp: keys_update f rows ids owned dest: new rows(3))
  qed
  show "app_ok (snd (rename_conversation u st i title db))"
    by (cases "requireOwned_conversation u i db") (auto simp: rename_conversation_def assms(1) intro!: changed(1) [where new = "[]"])
  show "app_ok (snd (remove_conversation u i db))"
  proof (cases "requireOwned_conversation u i db")
    case (Inr r)
    have "mgConversationId m \<in> cvId ` set (delete_row cvId i (dbConversations db))"
      if "m \<in> set (dbMessages db)" "mgConversationId m \<noteq> i" for m
      using rows(3) [OF that(1)] that(2) by (auto simp: set_delete_row)
    then show ?thesis
      by (auto simp: remove_conversation_def Inr distinct_delete rows set_delete_row intro!: app_ok_conversations [OF assms(1)])
  qed (simp add: remove_conversation_def assms(1))
  show "app_ok (snd (append_conversation u st cn conv ms db))" if own: "assertOwnership u cn db = Inr x"
  proof (cases "truthy conv")
    case True
    show ?thesis
    proof (cases "requireOwned_conversation u (the conv) db")
      case (Inr r)
      then have "cvId r \<in> cvId ` set (dbConversations db)"
        using own_message_ids [OF assms(1) Inr] by (auto simp: own_conversations_def)
      then show ?thesis
        by (auto simp: append_conversation_def True Inr add_messages_def intro!: changed(2))
    qed (simp add: append_conversation_def True assms(1))
  next
    case False
    show ?thesis
    proof (cases "find_row cnId cn (dbConnections db)")
      case (Some r)
      then have "owned_by u db cn" using checked_connection(2) [OF assms(1) own] by simp
      then show ?thesis
        using rows fresh
        by (auto simp: append_conversation_def False Some add_messages_def Let_def intro!: app_ok_conversations [OF assms(1)])
    qed (simp add: append_conversation_def False assms(1))
  qed
qed

text \<open>Every call keeps the state of the database.\<close>

lemma call_kept:
  assumes "app_ok db" "stUuid st \<notin> app_ids db" "stUuid st \<noteq> SYSTEM_CONNECTION_ID"
  shows "app_ok (snd (app_handle env u st c db))"
  by (cases c; simp add: asking_def answering_def assms(1) connections_ok [OF assms] history_kept [OF assms(1,2)]
      snippets_kept [OF assms(1,2)] conversations_kept [OF assms(1,2)] endpoints_kept [OF assms(1,2)] split: sum.split)

subsection \<open>The identifiers stay fresh\<close>

lemma update_key_set: "(\<And>r. key (f r) = key r) \<Longrightarrow> key ` set (update_row key' k f t) = key ` set t"
  using keys_update [of key f key' k t] by (metis list.set_map)

lemma delete_key_set: "key ` set (delete_row key' k t) \<subseteq> key ` set t"
  by (auto simp: delete_row_def)

lemma call_ids: "app_ids (snd (app_handle env u st c db)) \<subseteq> insert (stUuid st) (app_ids db)"
proof (cases c)
  case (AppendMessages i conv ms)
  then show ?thesis
    by (auto simp: answering_def append_conversation_def add_messages_def Let_def app_ids_def update_key_set split: sum.splits)
qed (auto simp: asking_def answering_def app_ids_def create_connection_def update_connection_def remove_connection_def
    record_history_def update_history_def remove_history_def clear_history_def create_snippet_def update_snippet_def
    remove_snippet_def rename_conversation_def remove_conversation_def create_endpoint_def update_endpoint_def remove_endpoint_def
    Let_def update_key_set delete_row_def split: sum.split)

lemma sweep_ids: "app_ids (history_sweep days now db) \<subseteq> app_ids db"
  by (auto simp: history_sweep_def app_ids_def)

definition run_ok :: "app_event list \<Rightarrow> app_db \<Rightarrow> bool" where
  "run_ok es db \<longleftrightarrow> app_ok db \<and> fresh_ids es db"

lemma event_ids_simps [simp]:
  "event_ids [] = []" "event_ids (UserCall u st c # es) = stUuid st # event_ids es" "event_ids (Sweep days now # es) = event_ids es"
  by (simp_all add: event_ids_def)

lemma run_ok_call:
  assumes "run_ok (UserCall u st c # es) db"
  shows "app_ok db" "stUuid st \<notin> app_ids db" "stUuid st \<noteq> SYSTEM_CONNECTION_ID" "app_ok (snd (app_handle env u st c db))"
    "run_ok es (snd (app_handle env u st c db))"
proof -
  show *: "app_ok db" "stUuid st \<notin> app_ids db" "stUuid st \<noteq> SYSTEM_CONNECTION_ID"
    using assms by (auto simp: run_ok_def fresh_ids_def)
  show "app_ok (snd (app_handle env u st c db))" by (rule call_kept [OF *])
  then show "run_ok es (snd (app_handle env u st c db))"
    using assms call_ids [of env u st c db] by (auto simp: run_ok_def fresh_ids_def)
qed

lemma run_ok_sweep:
  assumes "run_ok (Sweep days now # es) db"
  shows "app_ok db" "run_ok es (history_sweep days now db)"
proof -
  show *: "app_ok db" using assms by (simp add: run_ok_def)
  have "app_ok (history_sweep days now db)" using * by (auto simp: history_sweep_def app_ok_def distinct_map_filter)
  then show "run_ok es (history_sweep days now db)"
    using assms sweep_ids [of days now db] by (auto simp: run_ok_def fresh_ids_def)
qed

lemma app_step_simps [simp]:
  "app_step env (UserCall u st c) db = (Some (u, fst (app_handle env u st c db)), snd (app_handle env u st c db))"
  "app_step env (Sweep days now) db = (None, history_sweep days now db)"
  by (simp_all add: app_step_def split: prod.split)

lemma step_own:
  assumes "app_ok db" "app_ok db'" "user_view u db = user_view u db'" "concerns u e"
    "case e of UserCall _ st _ \<Rightarrow> stUuid st \<notin> app_ids db \<and> stUuid st \<notin> app_ids db' | Sweep _ _ \<Rightarrow> True"
  shows "fst (app_step env e db) = fst (app_step env e db')"
    "user_view u (snd (app_step env e db)) = user_view u (snd (app_step env e db'))"
proof -
  have "fst (app_step env e db) = fst (app_step env e db') \<and> user_view u (snd (app_step env e db)) = user_view u (snd (app_step env e db'))"
  proof (cases e)
    case (UserCall v st c)
    with assms(4) have v: "v = u" by (simp add: concerns_def)
    from assms(5) UserCall have ids: "stUuid st \<notin> app_ids db" "stUuid st \<notin> app_ids db'" by simp_all
    show ?thesis
      using call_answer_view [OF assms(1), of env u st c] call_answer_view [OF assms(2), of env u st c]
        call_view [OF assms(1) ids(1), of u env c] call_view [OF assms(2) ids(2), of u env c] assms(3)
      by (simp add: UserCall v)
  next
    case (Sweep days now)
    then show ?thesis
      using history_call_view(4) [OF assms(1), of u days now] history_call_view(4) [OF assms(2), of u days now] assms(3)
      by simp
  qed
  then show "fst (app_step env e db) = fst (app_step env e db')"
    "user_view u (snd (app_step env e db)) = user_view u (snd (app_step env e db'))"
    by simp_all
qed

interpretation app: isolated_store "app_step env" user_view concerns run_ok for env
proof
  fix e es d and u v :: string and r :: "app_answer res"
  show "run_ok es (snd (app_step env e d))" if "run_ok (e # es) d"
    using that by (cases e) (simp_all add: run_ok_call run_ok_sweep)
  show "user_view u (snd (app_step env e d)) = user_view u d" if ok: "run_ok (e # es) d" and other: "\<not> concerns u e"
  proof (cases e)
    case (UserCall w st c)
    then have "w \<noteq> u" using other by (simp add: concerns_def)
    moreover have "app_ok d" "stUuid st \<notin> app_ids d" using run_ok_call(1,2) ok UserCall by blast+
    ultimately show ?thesis by (simp add: UserCall call_others)
  next
    case (Sweep days now)
    then show ?thesis using other by (simp add: concerns_def)
  qed
  show "v \<noteq> u" if "\<not> concerns u e" "fst (app_step env e d) = Some (v, r)"
    using that by (cases e) (auto simp: concerns_def)
next
  fix e es d es' d' u
  assume oks: "run_ok (e # es) d" "run_ok (e # es') d'" and same: "user_view u d = user_view u d'" and own: "concerns u e"
  have "app_ok d" "app_ok d'" using oks by (simp_all add: run_ok_def)
  moreover have "case e of UserCall _ st _ \<Rightarrow> stUuid st \<notin> app_ids d \<and> stUuid st \<notin> app_ids d' | Sweep _ _ \<Rightarrow> True"
    using oks run_ok_call(2) by (cases e) auto
  ultimately show "fst (app_step env e d) = fst (app_step env e d')"
    "user_view u (snd (app_step env e d)) = user_view u (snd (app_step env e d'))"
    using step_own [of d d' u e env] same own by simp_all
qed

subsection \<open>A database of two users\<close>

definition demo_connection :: "string \<Rightarrow> string \<Rightarrow> connection_row" where
  "demo_connection i u =
     \<lparr>cnId = i, cnUserId = u, cnName = ''shop'', cnEngine = ''postgres'', cnHost = ''db'', cnPort = 5432, cnDatabase = ''shop'',
      cnUsername = ''app'', cnEncryptedCredentials = ''c2VjcmV0'', cnSslEnabled = False, cnSslRejectUnauthorized = True,
      cnEnvironment = ''dev'', cnReadOnly = False, cnSshEnabled = False, cnSshHost = None, cnSshPort = None, cnSshUsername = None,
      cnSshAuthMethod = None, cnEncryptedSshSecret = None, cnSshKeyPassphrase = None, cnSshHostFingerprint = None,
      cnCreatedAt = 1, cnUpdatedAt = 1\<rparr>"

definition demo_db :: app_db where
  "demo_db =
     \<lparr>dbConnections = [demo_connection ''c1'' ''ann'', demo_connection ''c2'' ''bob''],
      dbHistory = [\<lparr>hiId = ''h1'', hiUserId = ''ann'', hiConnectionId = ''c1'', hiSql = ''SELECT 1'', hiStarred = True, hiLabel = None,
        hiExecutedAt = 5\<rparr>],
      dbSnippets = [\<lparr>snId = ''s1'', snUserId = ''bob'', snName = ''one'', snBody = ''SELECT 1'', snCreatedAt = 2, snUpdatedAt = 2\<rparr>],
      dbConversations = [\<lparr>cvId = ''v1'', cvUserId = ''ann'', cvConnectionId = ''c1'', cvTitle = None, cvCreatedAt = 3, cvUpdatedAt = 3\<rparr>],
      dbMessages = [\<lparr>mgConversationId = ''v1'', mgRole = ''user'', mgContent = ''hello'', mgCreatedAt = 3\<rparr>],
      dbEndpoints = [\<lparr>leId = ''e1'', leUserId = ''bob'', leName = ''local'', leBaseUrl = ''http://localhost/v1'', leEncryptedApiKey = ''aw=='',
        leModels = serializeModels [''small''], leContextBudget = None, leMaxOutputTokens = None, leCreatedAt = 4\<rparr>], dbEvicted = []\<rparr>"

definition demo_env :: app_env where
  "demo_env =
     \<lparr>aeEngine = (\<lambda>e. if e = ''postgres'' then Some True else None), aeEncrypt = (\<lambda>n s. ''enc:'' @ s), aeDecrypt = drop 4,
      aeDatabaseUrl = ''file:./prost.db'', aeResolve = (\<lambda>f. ''/app/prisma/'' @ f),
      aeTest = (\<lambda>e p s. \<lparr>trOk = True, trMessage = []\<rparr>), aeContains = (\<lambda>n t. True)\<rparr>"

definition demo_run :: "app_event list" where
  "demo_run =
     [UserCall ''bob'' \<lparr>stNow = 10, stUuid = ''n1'', stNonce = 0\<rparr> (RemoveConnection ''c1''),
      UserCall ''ann'' \<lparr>stNow = 11, stUuid = ''n2'', stNonce = 0\<rparr> (CreateSnippet ''one'' ''SELECT 1''),
      UserCall ''bob'' \<lparr>stNow = 12, stUuid = ''n3'', stNonce = 0\<rparr> (ClearHistory None), Sweep 1 20,
      UserCall ''ann'' \<lparr>stNow = 13, stUuid = ''n4'', stNonce = 0\<rparr> (RecentHistory ''c1'')]"

lemma demo_ok: "app_ok demo_db" "fresh_ids demo_run demo_db"
  by code_simp+

subsection \<open>The claims\<close>

text \<open>
  C6. The users of the application are isolated: in any run, in any order of calls, every answer a user gets is the one they
  would have got alone, with nobody else calling, in a database holding only their own rows, and the rows the run
  leaves them are the same.
\<close>

theorem users_isolated:
  assumes "app_ok db" "fresh_ids es db"
  shows "answers_to u (fst (app_run env es db)) = answers_to u (fst (app_run env (without_others u es) (user_view u db)))
    \<and> user_view u (snd (app_run env es db)) = user_view u (snd (app_run env (without_others u es) (user_view u db)))"
proof -
  have sub: "set (event_ids (filter P es)) \<subseteq> set (event_ids es)" "distinct (event_ids es) \<Longrightarrow> distinct (event_ids (filter P es))" for P es
    by (induction es) (auto simp: event_ids_def split: app_event.splits)
  have "app_ids (user_view u db) \<subseteq> app_ids db" by (auto simp: app_ids_def own_conversations_def)
  then have "run_ok (filter (concerns u) es) (user_view u db)" "run_ok es db"
    using assms sub [where P = "concerns u" and es = es] app_ok_view [OF assms(1), of u] by (auto simp: run_ok_def fresh_ids_def)
  then show ?thesis
    unfolding app_run_def without_others_def by (intro app.answers_alone) simp_all
qed

lemma users_isolated_witness:
  "answers_to ''ann'' (fst (app_run demo_env demo_run demo_db))
   = answers_to ''ann'' (fst (app_run demo_env (without_others ''ann'' demo_run) (user_view ''ann'' demo_db)))"
  using users_isolated [OF demo_ok] by simp

subsection \<open>What a call is refused\<close>

definition lacks :: "('r \<Rightarrow> string) \<Rightarrow> ('r \<Rightarrow> string) \<Rightarrow> string \<Rightarrow> string \<Rightarrow> string \<Rightarrow> 'r list \<Rightarrow> string option" where
  "lacks key owner u i what t = (if list_ex (\<lambda>r. key r = i \<and> owner r = u) t then None else Some what)"

definition lacks_connection :: "string \<Rightarrow> app_db \<Rightarrow> string \<Rightarrow> string option" where
  "lacks_connection u db i =
     (if i = SYSTEM_CONNECTION_ID then None else lacks cnId cnUserId u i ''Connection not found'' (dbConnections db))"

definition lacks_conversation :: "string \<Rightarrow> app_db \<Rightarrow> string \<Rightarrow> string option" where
  "lacks_conversation u db i = lacks cvId cvUserId u i ''Conversation not found.'' (dbConversations db)"

text \<open>What the first identifier of a call that is not of a row of the caller's own is said not to be found as.\<close>

fun not_own :: "string \<Rightarrow> app_db \<Rightarrow> app_call \<Rightarrow> string option" where
  "not_own u db (UpdateConnection i _) = lacks_connection u db i"
| "not_own u db (RemoveConnection i) = lacks_connection u db i"
| "not_own u db (TestConnection dto) = (if truthy (tcId dto) then lacks_connection u db (the (tcId dto)) else None)"
| "not_own u db (RecordQuery i _) = lacks_connection u db i"
| "not_own u db (RecentHistory i) = lacks_connection u db i"
| "not_own u db (UpdateHistory i _ _) = lacks hiId hiUserId u i ''History entry not found.'' (dbHistory db)"
| "not_own u db (RemoveHistory i) = lacks hiId hiUserId u i ''History entry not found.'' (dbHistory db)"
| "not_own u db (UpdateSnippet i _ _) = lacks snId snUserId u i ''Snippet not found.'' (dbSnippets db)"
| "not_own u db (RemoveSnippet i) = lacks snId snUserId u i ''Snippet not found.'' (dbSnippets db)"
| "not_own u db (ListConversations i) = lacks_connection u db i"
| "not_own u db (GetConversation i) = lacks_conversation u db i"
| "not_own u db (AppendMessages c i _) =
     (case lacks_connection u db c of
        Some w \<Rightarrow> Some w
      | None \<Rightarrow> if truthy i then lacks_conversation u db (the i) else None)"
| "not_own u db (RenameConversation i _) = lacks_conversation u db i"
| "not_own u db (RemoveConversation i) = lacks_conversation u db i"
| "not_own u db (UpdateEndpoint i _) = lacks leId leUserId u i ''LLM endpoint not found'' (dbEndpoints db)"
| "not_own u db (RemoveEndpoint i) = lacks leId leUserId u i ''LLM endpoint not found'' (dbEndpoints db)"
| "not_own u db _ = None"

lemma require_owned_lacks:
  assumes "distinct (map key t)"
  shows "require_owned key owner w u i t = Inl e \<longleftrightarrow> lacks key owner u i w t = Some w \<and> e = NotFound w"
proof (cases "find_row key i t")
  case None
  have "\<not> list_ex (\<lambda>r. key r = i \<and> owner r = u) t" using None by (auto simp: list_ex_iff find_row_None)
  then show ?thesis by (auto simp: require_owned_def lacks_def None)
next
  case (Some r)
  have "list_ex (\<lambda>r. key r = i \<and> owner r = u) t \<longleftrightarrow> owner r = u"
    using find_row_Some [of key i t r, OF Some] assms by (auto simp: list_ex_iff distinct_map inj_on_def)
  then show ?thesis by (auto simp: require_owned_def lacks_def Some)
qed

lemma lacks_Some: "lacks key owner u i w t = Some w' \<longleftrightarrow> lacks key owner u i w t = Some w \<and> w' = w"
  by (auto simp: lacks_def)

lemma owned_lacks:
  assumes "app_ok db"
  shows "requireOwned_connection u i db = Inl e \<longleftrightarrow>
      lacks cnId cnUserId u i ''Connection not found'' (dbConnections db) = Some ''Connection not found'' \<and> e = NotFound ''Connection not found''"
    "requireOwned_history u i db = Inl e \<longleftrightarrow>
      lacks hiId hiUserId u i ''History entry not found.'' (dbHistory db) = Some ''History entry not found.'' \<and> e = NotFound ''History entry not found.''"
    "existing_snippet u i db = Inl e \<longleftrightarrow>
      lacks snId snUserId u i ''Snippet not found.'' (dbSnippets db) = Some ''Snippet not found.'' \<and> e = NotFound ''Snippet not found.''"
    "requireOwned_conversation u i db = Inl e \<longleftrightarrow>
      lacks_conversation u db i = Some ''Conversation not found.'' \<and> e = NotFound ''Conversation not found.''"
    "requireOwned_endpoint u i db = Inl e \<longleftrightarrow>
      lacks leId leUserId u i ''LLM endpoint not found'' (dbEndpoints db) = Some ''LLM endpoint not found'' \<and> e = NotFound ''LLM endpoint not found''"
    "assertOwnership u i db = Inl e \<longleftrightarrow>
      lacks_connection u db i = Some ''Connection not found'' \<and> e = NotFound ''Connection not found''"
  using app_ok_keys [OF assms]
  by (auto simp: requireOwned_connection_def requireOwned_history_def existing_snippet_def requireOwned_conversation_def
      requireOwned_endpoint_def lacks_conversation_def require_owned_lacks assertOwnership_def lacks_connection_def isSystemConnectionId_def res_map_Inl_iff)

lemma lacks_what: "lacks key owner u i w t = Some w' \<Longrightarrow> w' = w"
  by (simp add: lacks_def split: if_splits)

lemma lacks_connection_what: "lacks_connection u db i = Some w \<Longrightarrow> w = ''Connection not found''"
  by (auto simp: lacks_connection_def dest: lacks_what split: if_splits)

lemma lacks_conversation_what: "lacks_conversation u db i = Some w \<Longrightarrow> w = ''Conversation not found.''"
  by (auto simp: lacks_conversation_def dest: lacks_what)

lemma connection_refused:
  assumes "app_ok db"
  shows "res_bind (assertNotSystem i) (\<lambda>_. requireOwned_connection u i db) = Inl (NotFound w) \<longleftrightarrow> lacks_connection u db i = Some w"
  using lacks_what [of cnId cnUserId u i "''Connection not found''" "dbConnections db" w]
  by (auto simp: res_bind_Inl_iff assertNotSystem_def require_def isSystemConnectionId_def lacks_connection_def owned_lacks [OF assms])

text \<open>No call fails after it has changed the database.\<close>

lemma failed_unchanged: "fst (app_handle env u st c db) = Inl e \<Longrightarrow> snd (app_handle env u st c db) = db"
  by (cases c) (auto simp: asking_def answering_def create_connection_def update_connection_def remove_connection_def
      update_history_def remove_history_def create_snippet_def update_snippet_def remove_snippet_def append_conversation_def
      rename_conversation_def remove_conversation_def create_endpoint_def update_endpoint_def remove_endpoint_def Let_def
      split: sum.splits if_splits)

lemma fst_answering: "fst (answering f r) = res_map f (fst r)" "snd (answering f r) = snd r"
  by (simp_all add: answering_def)

lemma connection_not_found:
  assumes "app_ok db"
  shows "fst (update_connection env u st i dto db) = Inl (NotFound w) \<longleftrightarrow> lacks_connection u db i = Some w"
    "fst (remove_connection u i db) = Inl (NotFound w) \<longleftrightarrow> lacks_connection u db i = Some w"
    "fst (create_connection env u st cdto db) \<noteq> Inl (NotFound w)"
    "test_connection env u tdto db = Inl (NotFound w) \<longleftrightarrow> truthy (tcId tdto) \<and> lacks_connection u db (the (tcId tdto)) = Some w"
proof -
  show "fst (update_connection env u st i dto db) = Inl (NotFound w) \<longleftrightarrow> lacks_connection u db i = Some w"
    "fst (remove_connection u i db) = Inl (NotFound w) \<longleftrightarrow> lacks_connection u db i = Some w"
    using connection_refused [OF assms, of i u w]
    by (auto simp: update_connection_def remove_connection_def Let_def split: sum.split)
  show "fst (create_connection env u st cdto db) \<noteq> Inl (NotFound w)"
    by (auto simp: create_connection_def assertSupportedEngine_def require_def Let_def)
  show "test_connection env u tdto db = Inl (NotFound w) \<longleftrightarrow> truthy (tcId tdto) \<and> lacks_connection u db (the (tcId tdto)) = Some w"
    using lacks_what [of cnId cnUserId u "the (tcId tdto)" "''Connection not found''" "dbConnections db" w]
    by (auto simp: test_connection_def Let_def isSystemConnectionId_def res_map_Inl_iff owned_lacks [OF assms] lacks_connection_def
        assertSupportedEngine_def require_Inl_iff)
qed

lemma require_owned_found: "require_owned key owner w u i t = Inr r \<Longrightarrow> list_ex (\<lambda>r. key r = i \<and> owner r = u) t"
  using find_row_Some [of key i t r] by (auto simp: require_owned_Inr list_ex_iff)

lemma owned_not_lacking:
  "requireOwned_history u i db = Inr h \<Longrightarrow> lacks hiId hiUserId u i ''History entry not found.'' (dbHistory db) = None"
  "existing_snippet u i db = Inr r \<Longrightarrow> lacks snId snUserId u i ''Snippet not found.'' (dbSnippets db) = None"
  "requireOwned_conversation u i db = Inr v \<Longrightarrow> lacks_conversation u db i = None"
  "requireOwned_endpoint u i db = Inr e \<Longrightarrow> lacks leId leUserId u i ''LLM endpoint not found'' (dbEndpoints db) = None"
proof -
  show "requireOwned_history u i db = Inr h \<Longrightarrow> lacks hiId hiUserId u i ''History entry not found.'' (dbHistory db) = None"
    unfolding requireOwned_history_def lacks_def by (simp add: require_owned_found)
  show "existing_snippet u i db = Inr r \<Longrightarrow> lacks snId snUserId u i ''Snippet not found.'' (dbSnippets db) = None"
    unfolding existing_snippet_def lacks_def by (simp add: require_owned_found)
  show "requireOwned_conversation u i db = Inr v \<Longrightarrow> lacks_conversation u db i = None"
    unfolding requireOwned_conversation_def lacks_conversation_def lacks_def by (simp add: require_owned_found)
  show "requireOwned_endpoint u i db = Inr e \<Longrightarrow> lacks leId leUserId u i ''LLM endpoint not found'' (dbEndpoints db) = None"
    unfolding requireOwned_endpoint_def lacks_def by (simp add: require_owned_found)
qed

lemma rows_not_found:
  assumes "app_ok db"
  shows "fst (update_history u i label starred db) = Inl (NotFound w) \<longleftrightarrow>
      lacks hiId hiUserId u i ''History entry not found.'' (dbHistory db) = Some w"
    "fst (remove_history u i db) = Inl (NotFound w) \<longleftrightarrow> lacks hiId hiUserId u i ''History entry not found.'' (dbHistory db) = Some w"
    "fst (update_snippet u st i name body db) = Inl (NotFound w) \<longleftrightarrow>
      lacks snId snUserId u i ''Snippet not found.'' (dbSnippets db) = Some w"
    "fst (remove_snippet u i db) = Inl (NotFound w) \<longleftrightarrow> lacks snId snUserId u i ''Snippet not found.'' (dbSnippets db) = Some w"
    "fst (create_snippet u st cname cbody db) \<noteq> Inl (NotFound w)"
    "get_conversation u i db = Inl (NotFound w) \<longleftrightarrow> lacks_conversation u db i = Some w"
    "fst (rename_conversation u st i title db) = Inl (NotFound w) \<longleftrightarrow> lacks_conversation u db i = Some w"
    "fst (remove_conversation u i db) = Inl (NotFound w) \<longleftrightarrow> lacks_conversation u db i = Some w"
    "fst (create_endpoint env u st edto db) \<noteq> Inl (NotFound w)"
    "fst (update_endpoint env u st i eudto db) = Inl (NotFound w) \<longleftrightarrow>
      lacks leId leUserId u i ''LLM endpoint not found'' (dbEndpoints db) = Some w"
    "fst (remove_endpoint u i db) = Inl (NotFound w) \<longleftrightarrow> lacks leId leUserId u i ''LLM endpoint not found'' (dbEndpoints db) = Some w"
    "fst (append_conversation u st c conv ms db) = Inl (NotFound w) \<longleftrightarrow> truthy conv \<and> lacks_conversation u db (the conv) = Some w"
  by (auto simp: update_history_def remove_history_def update_snippet_def remove_snippet_def create_snippet_def get_conversation_def
      rename_conversation_def remove_conversation_def append_conversation_def create_endpoint_def update_endpoint_def
      remove_endpoint_def snippet_taken_def Let_def res_map_Inl_iff
      owned_lacks [OF assms] owned_not_lacking split: sum.splits dest: lacks_what lacks_conversation_what)

lemma ownership_refused: "app_ok db \<Longrightarrow> assertOwnership u i db = Inl (NotFound w) \<longleftrightarrow> lacks_connection u db i = Some w"
  by (auto simp: owned_lacks dest: lacks_connection_what)

lemma ownership_cases:
  assumes "app_ok db"
  obtains (denied) "assertOwnership u i db = Inl (NotFound ''Connection not found'')" "lacks_connection u db i = Some ''Connection not found''"
  | (granted) "assertOwnership u i db = Inr ()" "lacks_connection u db i = None"
  using owned_lacks(6) [OF assms, of u i] lacks_connection_what [of u db i]
  by (cases "assertOwnership u i db"; cases "lacks_connection u db i") auto



subsection \<open>The secrets of the connections\<close>

definition no_secrets :: "connection_row \<Rightarrow> connection_row" where
  "no_secrets c = c\<lparr>cnEncryptedCredentials := [], cnEncryptedSshSecret := None, cnSshKeyPassphrase := None\<rparr>"

definition no_key :: "endpoint_row \<Rightarrow> endpoint_row" where
  "no_key e = e\<lparr>leEncryptedApiKey := []\<rparr>"

definition without_secrets :: "app_db \<Rightarrow> app_db" where
  "without_secrets db = db\<lparr>dbConnections := map no_secrets (dbConnections db), dbEndpoints := map no_key (dbEndpoints db)\<rparr>"

definition tests_connection :: "app_event \<Rightarrow> bool" where
  "tests_connection e = (case e of UserCall _ _ (TestConnection _) \<Rightarrow> True | _ \<Rightarrow> False)"

lemma no_secrets_simps [simp]:
  "cnId (no_secrets c) = cnId c" "cnUserId (no_secrets c) = cnUserId c" "cnName (no_secrets c) = cnName c"
  "cnReadOnly (no_secrets c) = cnReadOnly c" "cnCreatedAt (no_secrets c) = cnCreatedAt c" "cnEngine (no_secrets c) = cnEngine c"
  "no_secrets (no_secrets c) = no_secrets c" "toConnectionDto (no_secrets c) b = toConnectionDto c b"
  by (simp_all add: no_secrets_def toConnectionDto_def)

lemma no_key_simps [simp]:
  "leId (no_key e) = leId e" "leUserId (no_key e) = leUserId e" "leCreatedAt (no_key e) = leCreatedAt e" "no_key (no_key e) = no_key e"
  "toLlmEndpointDto (no_key e) = toLlmEndpointDto e" "no_key \<circ> no_key = no_key"
  by (simp_all add: no_key_def toLlmEndpointDto_def fun_eq_iff)

lemma without_secrets_simps [simp]:
  "dbConnections (without_secrets db) = map no_secrets (dbConnections db)" "dbHistory (without_secrets db) = dbHistory db"
  "dbSnippets (without_secrets db) = dbSnippets db" "dbConversations (without_secrets db) = dbConversations db"
  "dbMessages (without_secrets db) = dbMessages db" "dbEvicted (without_secrets db) = dbEvicted db"
  "dbEndpoints (without_secrets db) = map no_key (dbEndpoints db)"
  "without_secrets (without_secrets db) = without_secrets db"
  by (simp_all add: without_secrets_def)

lemma without_secrets_updates [simp]:
  "without_secrets (db\<lparr>dbConnections := cs\<rparr>) = without_secrets db\<lparr>dbConnections := map no_secrets cs\<rparr>"
  "without_secrets (db\<lparr>dbHistory := hs\<rparr>) = without_secrets db\<lparr>dbHistory := hs\<rparr>"
  "without_secrets (db\<lparr>dbSnippets := ss\<rparr>) = without_secrets db\<lparr>dbSnippets := ss\<rparr>"
  "without_secrets (db\<lparr>dbConversations := vs\<rparr>) = without_secrets db\<lparr>dbConversations := vs\<rparr>"
  "without_secrets (db\<lparr>dbMessages := ms\<rparr>) = without_secrets db\<lparr>dbMessages := ms\<rparr>"
  "without_secrets (db\<lparr>dbEvicted := es\<rparr>) = without_secrets db\<lparr>dbEvicted := es\<rparr>"
  "without_secrets (db\<lparr>dbEndpoints := les\<rparr>) = without_secrets db\<lparr>dbEndpoints := map no_key les\<rparr>"
  by (simp_all add: without_secrets_def)

lemma find_row_map: "(\<And>r. key (f r) = key r) \<Longrightarrow> find_row key k (map f t) = map_option f (find_row key k t)"
  by (induction t) (auto simp: find_row_def)

lemma ascending_map: "(\<And>r. time (f r) = time r) \<Longrightarrow> ascending time (map f t) = map f (ascending time t)"
proof -
  assume f: "\<And>r. time (f r) = time r"
  have ins: "insort_key time (f x) (map f xs) = map f (insort_key time x xs)" for x xs by (induction xs) (auto simp: f)
  show ?thesis unfolding ascending_def by (induction t) (simp_all add: ins)
qed

lemma owned_map:
  assumes "\<And>r. key (f r) = key r" "\<And>r. owner (f r) = owner r"
  shows "require_owned key owner w u i (map f t) = res_map f (require_owned key owner w u i t)"
  by (simp add: require_owned_def find_row_map assms split: option.split)

lemma secret_free_checks [simp]:
  "requireOwned_connection u i (without_secrets db) = res_map no_secrets (requireOwned_connection u i db)"
  "requireOwned_history u i (without_secrets db) = requireOwned_history u i db"
  "requireOwned_conversation u i (without_secrets db) = requireOwned_conversation u i db"
  "existing_snippet u i (without_secrets db) = existing_snippet u i db"
  "requireOwned_endpoint u i (without_secrets db) = res_map no_key (requireOwned_endpoint u i db)"
  "name_taken u name i (without_secrets db) = name_taken u name i db"
  "toQueryHistoryDto (without_secrets db) = toQueryHistoryDto db" "connection_name (without_secrets db) = connection_name db"
  "own_history u (without_secrets db) = own_history u db"
  "find_row cnId i (dbConnections (without_secrets db)) = None \<longleftrightarrow> find_row cnId i (dbConnections db) = None"
  by (simp_all add: requireOwned_connection_def requireOwned_history_def requireOwned_conversation_def existing_snippet_def
      requireOwned_endpoint_def name_taken_def toQueryHistoryDto_def connection_name_def own_history_def owned_map find_row_map fun_eq_iff split: option.split)

lemma secret_free_ownership [simp]: "assertOwnership u i (without_secrets db) = assertOwnership u i db"
  by (cases "requireOwned_connection u i db") (simp_all add: assertOwnership_def)

text \<open>The calls with the secrets of their requests left out, and another cipher.\<close>

fun no_secret_call :: "app_call \<Rightarrow> app_call" where
  "no_secret_call (CreateConnection dto) = CreateConnection (dto\<lparr>ccPassword := [], sfSecret := None, sfKeyPassphrase := None\<rparr>)"
| "no_secret_call (UpdateConnection i dto) = UpdateConnection i (dto\<lparr>ucPassword := None, sfSecret := None, sfKeyPassphrase := None\<rparr>)"
| "no_secret_call (CreateEndpoint dto) = CreateEndpoint (dto\<lparr>erApiKey := []\<rparr>)"
| "no_secret_call (UpdateEndpoint i dto) = UpdateEndpoint i (dto\<lparr>euApiKey := None\<rparr>)"
| "no_secret_call c = c"

definition no_secret_event :: "app_event \<Rightarrow> app_event" where
  "no_secret_event e = (case e of UserCall u st c \<Rightarrow> UserCall u st (no_secret_call c) | Sweep _ _ \<Rightarrow> e)"

definition other_cipher :: "(nat \<Rightarrow> string \<Rightarrow> string) \<Rightarrow> (string \<Rightarrow> string) \<Rightarrow> app_env \<Rightarrow> app_env" where
  "other_cipher enc dec env = env\<lparr>aeEncrypt := enc, aeDecrypt := dec\<rparr>"

lemma other_cipher_simps [simp]:
  "aeEngine (other_cipher enc dec env) = aeEngine env" "buildSystemConnectionDto (other_cipher enc dec env) = buildSystemConnectionDto env"
  "aeContains (other_cipher enc dec env) = aeContains env"
  "hasSchemas_for (other_cipher enc dec env) = hasSchemas_for env"
  "connection_toDto (other_cipher enc dec env) = connection_toDto env"
  "assertSupportedEngine (other_cipher enc dec env) = assertSupportedEngine env"
  by (simp_all add: other_cipher_def buildSystemConnectionDto_def resolveAppDbFile_def Let_def hasSchemas_for_def connection_toDto_def assertSupportedEngine_def fun_eq_iff)

lemma search_other_cipher [simp]: "history_search (other_cipher enc dec env) = history_search env"
  by (intro ext) (simp add: history_search_def cong: option.case_cong)

lemma connection_toDto_no_secrets: "connection_toDto env (no_secrets c) = connection_toDto env c"
  by (simp add: connection_toDto_def)

lemma dto_secrets:
  "no_secrets a = no_secrets b \<Longrightarrow> connection_toDto env a = connection_toDto env b"
  by (metis connection_toDto_no_secrets)

lemma ssh_no_secrets:
  "no_secrets (applySshUpdate (other_cipher enc dec env) n (dto\<lparr>ucPassword := None, sfSecret := None, sfKeyPassphrase := None\<rparr>) (no_secrets c))
    = no_secrets (applySshUpdate env n dto c)"
proof (cases "sfEnabled dto = Some True")
  case True
  show ?thesis
    unfolding applySshUpdate_def Let_def
    by (cases "sfHost dto"; cases "sfPort dto"; cases "sfUsername dto"; cases "sfAuthMethod dto"; cases "if_truthy (sfSecret dto)";
        cases "if_truthy (sfKeyPassphrase dto)"; simp add: True no_secrets_def if_truthy_def truthy_def)
next
  case False
  then show ?thesis by (cases "sfEnabled dto") (auto simp: applySshUpdate_def no_secrets_def)
qed

lemma no_secrets_password: "no_secrets c = no_secrets d \<Longrightarrow>
  no_secrets (applySshUpdate env n (dto :: connection_change) c) = no_secrets (applySshUpdate env n dto d)"
  using ssh_no_secrets [of "aeEncrypt env" "aeDecrypt env" env n dto c] ssh_no_secrets [of "aeEncrypt env" "aeDecrypt env" env n dto d]
  by simp

lemma updated_no_secrets:
  "no_secrets (updated_connection (other_cipher enc dec env) st (dto\<lparr>ucPassword := None, sfSecret := None, sfKeyPassphrase := None\<rparr>) (no_secrets c))
    = no_secrets (updated_connection env st dto c)"
proof -
  have late: "no_secrets (c\<lparr>cnUpdatedAt := t\<rparr>) = (no_secrets c)\<lparr>cnUpdatedAt := t\<rparr>" for c t by (simp add: no_secrets_def)
  show ?thesis
    unfolding updated_connection_def Let_def late
    by (rule arg_cong [where f = "\<lambda>c. c\<lparr>cnUpdatedAt := _\<rparr>"], rule trans [OF no_secrets_password ssh_no_secrets])
      (simp add: no_secrets_def if_truthy_def truthy_def split: option.split)
qed

lemma created_no_secrets:
  "no_secrets (sshCreateData (other_cipher enc dec env) n (dto\<lparr>ccPassword := [], sfSecret := None, sfKeyPassphrase := None\<rparr>)
      (c\<lparr>cnEncryptedCredentials := cr\<rparr>)) = no_secrets (sshCreateData env n dto c)"
  by (simp add: sshCreateData_def no_secrets_def)

lemma map_update_row:
  assumes "\<And>r. key (f r) = key r" "\<And>r. f (h (f r)) = f (g r)" "\<And>r. f (f r) = f r"
  shows "map f (update_row key k h (map f t)) = map f (update_row key k g t)"
  using assms by (auto simp: update_row_def)

lemma map_delete_row: "(\<And>r. key (f r) = key r) \<Longrightarrow> delete_row key k (map f t) = map f (delete_row key k t)"
  by (induction t) (auto simp: delete_row_def)

lemma no_secrets_comp [simp]: "no_secrets \<circ> no_secrets = no_secrets"
  by (simp add: fun_eq_iff)

lemma create_no_secrets:
  fixes dto :: connection_request
  defines "dto' \<equiv> dto\<lparr>ccPassword := [], sfSecret := None, sfKeyPassphrase := None\<rparr>"
  shows "fst (create_connection (other_cipher enc dec env) u st dto' (without_secrets db)) = fst (create_connection env u st dto db)"
    "without_secrets (snd (create_connection (other_cipher enc dec env) u st dto' (without_secrets db)))
      = without_secrets (snd (create_connection env u st dto db))"
proof -
  show "fst (create_connection (other_cipher enc dec env) u st dto' (without_secrets db)) = fst (create_connection env u st dto db)"
    by (cases "assertSupportedEngine env (default_to ''postgres'' (ccEngine dto))")
      (simp_all add: create_connection_def dto'_def Let_def sshCreateData_def connection_toDto_def toConnectionDto_def)
  show "without_secrets (snd (create_connection (other_cipher enc dec env) u st dto' (without_secrets db)))
      = without_secrets (snd (create_connection env u st dto db))"
    by (cases "assertSupportedEngine env (default_to ''postgres'' (ccEngine dto))")
      (simp_all add: create_connection_def dto'_def Let_def sshCreateData_def no_secrets_def)
qed

lemma change_no_secrets:
  fixes dto :: connection_change
  defines "dto' \<equiv> dto\<lparr>ucPassword := None, sfSecret := None, sfKeyPassphrase := None\<rparr>"
  shows "fst (update_connection (other_cipher enc dec env) u st i dto' (without_secrets db)) = fst (update_connection env u st i dto db)"
    "without_secrets (snd (update_connection (other_cipher enc dec env) u st i dto' (without_secrets db)))
      = without_secrets (snd (update_connection env u st i dto db))"
    "fst (remove_connection u i (without_secrets db)) = fst (remove_connection u i db)"
    "without_secrets (snd (remove_connection u i (without_secrets db))) = without_secrets (snd (remove_connection u i db))"
proof -
  have row: "no_secrets (updated_connection (other_cipher enc dec env) st dto' (no_secrets c)) = no_secrets (updated_connection env st dto c)" for c
    unfolding dto'_def by (rule updated_no_secrets)
  have dto: "connection_toDto env (updated_connection (other_cipher enc dec env) st dto' (no_secrets c))
      = connection_toDto env (updated_connection env st dto c)" for c
    by (rule dto_secrets [OF row])
  show "fst (update_connection (other_cipher enc dec env) u st i dto' (without_secrets db)) = fst (update_connection env u st i dto db)"
    "without_secrets (snd (update_connection (other_cipher enc dec env) u st i dto' (without_secrets db)))
      = without_secrets (snd (update_connection env u st i dto db))"
    by (cases "isSystemConnectionId i"; cases "requireOwned_connection u i db";
        simp add: update_connection_def assertNotSystem_def dto; rule arg_cong; rule map_update_row; simp add: row)+
  show "fst (remove_connection u i (without_secrets db)) = fst (remove_connection u i db)"
    "without_secrets (snd (remove_connection u i (without_secrets db))) = without_secrets (snd (remove_connection u i db))"
    by (cases "isSystemConnectionId i"; cases "requireOwned_connection u i db";
        simp add: remove_connection_def assertNotSystem_def Let_def map_delete_row)+
qed

lemma endpoint_no_key:
  "fst (create_endpoint (other_cipher enc dec env) u st (edto\<lparr>erApiKey := []\<rparr>) (without_secrets db)) = fst (create_endpoint env u st edto db)"
  "without_secrets (snd (create_endpoint (other_cipher enc dec env) u st (edto\<lparr>erApiKey := []\<rparr>) (without_secrets db)))
    = without_secrets (snd (create_endpoint env u st edto db))"
  "fst (update_endpoint (other_cipher enc dec env) u st i (eudto\<lparr>euApiKey := None\<rparr>) (without_secrets db)) = fst (update_endpoint env u st i eudto db)"
  "without_secrets (snd (update_endpoint (other_cipher enc dec env) u st i (eudto\<lparr>euApiKey := None\<rparr>) (without_secrets db)))
    = without_secrets (snd (update_endpoint env u st i eudto db))"
  "fst (remove_endpoint u i (without_secrets db)) = fst (remove_endpoint u i db)"
  "without_secrets (snd (remove_endpoint u i (without_secrets db))) = without_secrets (snd (remove_endpoint u i db))"
  "list_endpoints u (without_secrets db) = list_endpoints u db"
proof -
  have row: "no_key (updated_endpoint (other_cipher enc dec env) st (eudto\<lparr>euApiKey := None\<rparr>) (no_key e)) = no_key (updated_endpoint env st eudto e)"
    "toLlmEndpointDto (updated_endpoint (other_cipher enc dec env) st (eudto\<lparr>euApiKey := None\<rparr>) (no_key e))
      = toLlmEndpointDto (updated_endpoint env st eudto e)" for e
    by (simp_all add: updated_endpoint_def no_key_def toLlmEndpointDto_def split: option.split)
  show "fst (create_endpoint (other_cipher enc dec env) u st (edto\<lparr>erApiKey := []\<rparr>) (without_secrets db)) = fst (create_endpoint env u st edto db)"
    "without_secrets (snd (create_endpoint (other_cipher enc dec env) u st (edto\<lparr>erApiKey := []\<rparr>) (without_secrets db)))
      = without_secrets (snd (create_endpoint env u st edto db))"
    by (simp_all add: create_endpoint_def Let_def toLlmEndpointDto_def) (simp add: no_key_def)
  show "fst (update_endpoint (other_cipher enc dec env) u st i (eudto\<lparr>euApiKey := None\<rparr>) (without_secrets db)) = fst (update_endpoint env u st i eudto db)"
    "without_secrets (snd (update_endpoint (other_cipher enc dec env) u st i (eudto\<lparr>euApiKey := None\<rparr>) (without_secrets db)))
      = without_secrets (snd (update_endpoint env u st i eudto db))"
    by (cases "requireOwned_endpoint u i db"; simp add: update_endpoint_def row; rule arg_cong; rule map_update_row; simp add: row)+
  show "fst (remove_endpoint u i (without_secrets db)) = fst (remove_endpoint u i db)"
    "without_secrets (snd (remove_endpoint u i (without_secrets db))) = without_secrets (snd (remove_endpoint u i db))"
    by (cases "requireOwned_endpoint u i db"; simp add: remove_endpoint_def map_delete_row)+
  show "list_endpoints u (without_secrets db) = list_endpoints u db"
    by (simp add: list_endpoints_def filter_map ascending_map comp_def)
qed

lemma case_res_map: "(case res_map f r of Inl e \<Rightarrow> a e | Inr x \<Rightarrow> b x) = (case r of Inl e \<Rightarrow> a e | Inr x \<Rightarrow> b (f x))"
  by (cases r) simp_all

lemma list_no_secrets [simp]: "list_connections (other_cipher enc dec env) u (without_secrets db) = list_connections env u db"
  by (simp add: list_connections_def filter_map ascending_map connection_toDto_no_secrets comp_def)

lemma changes_no_secrets [simp]:
  "record_history u st i sql (without_secrets db) = without_secrets (record_history u st i sql db)"
  "clear_history u c (without_secrets db) = without_secrets (clear_history u c db)"
  "history_sweep days now (without_secrets db) = without_secrets (history_sweep days now db)"
  "add_messages st i ms (without_secrets db) = without_secrets (add_messages st i ms db)"
  by (simp_all add: record_history_def clear_history_def history_sweep_def add_messages_def find_row_map)

lemma rows_no_secrets:
  "update_history u i label starred (without_secrets db) = map_prod id without_secrets (update_history u i label starred db)"
  "remove_history u i (without_secrets db) = map_prod id without_secrets (remove_history u i db)"
  "create_snippet u st name body (without_secrets db) = map_prod id without_secrets (create_snippet u st name body db)"
  "update_snippet u st i sname sbody (without_secrets db) = map_prod id without_secrets (update_snippet u st i sname sbody db)"
  "remove_snippet u i (without_secrets db) = map_prod id without_secrets (remove_snippet u i db)"
  "rename_conversation u st i title (without_secrets db) = map_prod id without_secrets (rename_conversation u st i title db)"
  "remove_conversation u i (without_secrets db) = map_prod id without_secrets (remove_conversation u i db)"
  "append_conversation u st cn conv ms (without_secrets db) = map_prod id without_secrets (append_conversation u st cn conv ms db)"
  by (simp_all add: update_history_def remove_history_def create_snippet_def update_snippet_def remove_snippet_def
      rename_conversation_def remove_conversation_def append_conversation_def Let_def find_row_map flip: without_secrets_updates changes_no_secrets
      split: sum.split)

lemma reads_no_secrets [simp]:
  "listRecent u i (without_secrets db) = listRecent u i db" "history_search env u s c l (without_secrets db) = history_search env u s c l db"
  "exportAll u (without_secrets db) = exportAll u db" "list_snippets u (without_secrets db) = list_snippets u db"
  "list_conversations u i (without_secrets db) = list_conversations u i db"
  "get_conversation u i (without_secrets db) = get_conversation u i db"
  by (simp_all add: listRecent_def history_search_def exportAll_def list_snippets_def list_conversations_def get_conversation_def)

lemma call_no_secrets:
  assumes "\<And>dto. c \<noteq> TestConnection dto"
  shows "fst (app_handle (other_cipher enc dec env) u st (no_secret_call c) (without_secrets db)) = fst (app_handle env u st c db)
    \<and> without_secrets (snd (app_handle (other_cipher enc dec env) u st (no_secret_call c) (without_secrets db)))
      = without_secrets (snd (app_handle env u st c db))"
proof (cases c)
  case (AppendMessages i conv ms)
  then show ?thesis by (cases "assertOwnership u i db") (simp_all add: fst_answering rows_no_secrets)
next
  case (RecordQuery i sql)
  then show ?thesis by (cases "assertOwnership u i db") simp_all
qed (simp_all add: assms fst_answering asking_def rows_no_secrets create_no_secrets change_no_secrets endpoint_no_key)

lemma step_no_secrets:
  assumes "\<not> tests_connection e"
  shows "fst (app_step (other_cipher enc dec env) (no_secret_event e) (without_secrets db)) = fst (app_step env e db)"
    "without_secrets (snd (app_step (other_cipher enc dec env) (no_secret_event e) (without_secrets db)))
      = without_secrets (snd (app_step env e db))"
proof -
  have "fst (app_step (other_cipher enc dec env) (no_secret_event e) (without_secrets db)) = fst (app_step env e db)
    \<and> without_secrets (snd (app_step (other_cipher enc dec env) (no_secret_event e) (without_secrets db)))
      = without_secrets (snd (app_step env e db))"
  proof (cases e)
    case (UserCall u st c)
    with assms have "\<And>dto. c \<noteq> TestConnection dto" by (auto simp: tests_connection_def)
    from call_no_secrets [OF this, of enc dec env u st db] UserCall show ?thesis by (simp add: no_secret_event_def)
  qed (simp add: no_secret_event_def)
  then show "fst (app_step (other_cipher enc dec env) (no_secret_event e) (without_secrets db)) = fst (app_step env e db)"
    "without_secrets (snd (app_step (other_cipher enc dec env) (no_secret_event e) (without_secrets db)))
      = without_secrets (snd (app_step env e db))"
    by simp_all
qed

lemma no_secret_call_idem [simp]: "no_secret_call (no_secret_call c) = no_secret_call c"
  by (cases c) simp_all

lemma run_no_secrets:
  assumes "list_all (\<lambda>e. \<not> tests_connection e) es" "without_secrets db = without_secrets db'"
  shows "fst (run_events (app_step (other_cipher enc dec env)) (map no_secret_event es) db') = fst (run_events (app_step env) es db)"
  using assms
proof (induction es arbitrary: db db')
  case (Cons e es)
  let ?env = "other_cipher enc dec env"
  have e: "\<not> tests_connection e" "\<not> tests_connection (no_secret_event e)"
    using Cons.prems(1) by (auto simp: no_secret_event_def tests_connection_def split: app_event.splits app_call.splits elim!: no_secret_call.elims)
  have idem: "no_secret_event (no_secret_event e) = no_secret_event e"
    by (cases e) (simp_all add: no_secret_event_def)
  have "other_cipher enc dec ?env = ?env" by (simp add: other_cipher_def)
  then have "fst (app_step ?env (no_secret_event e) db') = fst (app_step env e db)"
    "without_secrets (snd (app_step env e db)) = without_secrets (snd (app_step ?env (no_secret_event e) db'))"
    using step_no_secrets [OF e(1), of enc dec env db] step_no_secrets [OF e(2), of enc dec ?env db'] Cons.prems(2) idem by simp_all
  with Cons.IH [OF _ this(2)] Cons.prems(1) show ?case
    by (auto split: prod.splits option.splits)
qed simp

text \<open>
  C7. The secrets of the connections never leave through an answer: over any run of calls other than connection tests, every answer is
  the one the application would give had it stored no password, SSH secret, passphrase or API key, been sent none in the requests, and used any
  other cipher. (A connection test asks the database itself, with the password.)
\<close>

theorem secrets_not_answered:
  assumes "list_all (\<lambda>e. \<not> tests_connection e) es"
  shows "fst (app_run env es db) = fst (app_run (other_cipher enc dec env) (map no_secret_event es) (without_secrets db))"
  unfolding app_run_def by (rule run_no_secrets [OF assms, symmetric]) simp

lemma secrets_not_answered_witness:
  "fst (app_run demo_env demo_run demo_db)
   = fst (app_run (other_cipher (\<lambda>n s. []) (\<lambda>s. []) demo_env) (map no_secret_event demo_run) (without_secrets demo_db))"
  by (rule secrets_not_answered) code_simp

subsection \<open>Found on the way\<close>

text \<open>Switching SSH off keeps the stored SSH configuration and its secrets; only the fingerprint goes.\<close>

lemma ssh_off_keeps_config:
  assumes "sfEnabled dto = Some False"
  shows "cnSshHost (applySshUpdate env n dto c) = cnSshHost c \<and> cnEncryptedSshSecret (applySshUpdate env n dto c) = cnEncryptedSshSecret c
    \<and> cnSshKeyPassphrase (applySshUpdate env n dto c) = cnSshKeyPassphrase c \<and> cnSshHostFingerprint (applySshUpdate env n dto c) = None"
  using assms by (simp add: applySshUpdate_def)

text \<open>A first message on the application's own database passes the ownership check and then fails in the database.\<close>

lemma app_database_conversation_fails:
  assumes "app_ok db"
  shows "fst (app_handle env u st (AppendMessages SYSTEM_CONNECTION_ID None ms) db) = Inl (PlainError ''Foreign key constraint violated'')"
proof -
  have "find_row cnId SYSTEM_CONNECTION_ID (dbConnections db) = None" using assms by (auto simp: find_row_None app_ok_def)
  then show ?thesis
    by (simp add: assertOwnership_def isSystemConnectionId_def fst_answering append_conversation_def truthy_def)
qed

text \<open>Over all connections, the same text run on two connections one after the other is listed for the later one only.\<close>

lemma search_merges_connections:
  "map hiConnectionId (collapseConsecutiveDuplicates
     [\<lparr>hiId = ''h2'', hiUserId = ''ann'', hiConnectionId = ''prod'', hiSql = ''DELETE FROM t'', hiStarred = False, hiLabel = None,
       hiExecutedAt = 6\<rparr>,
      \<lparr>hiId = ''h1'', hiUserId = ''ann'', hiConnectionId = ''dev'', hiSql = ''DELETE FROM t'', hiStarred = True, hiLabel = None,
       hiExecutedAt = 5\<rparr>]) = [''prod'']"
  by (simp add: collapseConsecutiveDuplicates_def)

text \<open>The application's own database, with every user's rows, is a connection that every user may query.\<close>

lemma app_database_open_to_all: "assertOwnership u SYSTEM_CONNECTION_ID db = Inr () \<and> connection_isReadOnly SYSTEM_CONNECTION_ID db"
  by (simp add: assertOwnership_def connection_isReadOnly_def isSystemConnectionId_def)

end
