(* ===== verification/ExplainPlan.thy ===== *)
theory ExplainPlan
  imports Json SqlTypes "HOL-Library.Multiset"
begin

text \<open>
  \<open>database/drivers/explain-plan.ts\<close>: the statements that ask an engine for a plan, and the trees made of what it answers.
  A plan of PostgreSQL or MySQL is a JSON document, and its tree is made by recursion on it. SQLite answers a list of steps that name
  their parents; the code links nodes it has stored by identifier, and the model unfolds the same links from the root.
\<close>

subsection \<open>Trees\<close>

datatype plan_node = PlanNode
  (pnType: string) (pnDetail: "string option") (pnCost: "js_val option") (pnRows: "js_val option") (pnTime: "js_val option")
  (pnActual: "js_val option") (pnFields: "row option") (pnChildren: "plan_node list")

definition bare_node :: "string \<Rightarrow> plan_node list \<Rightarrow> plan_node" where
  "bare_node t cs = PlanNode t None None None None None None cs"

fun plan_size :: "plan_node \<Rightarrow> nat" where
  "plan_size (PlanNode t d a b c e f cs) = Suc (sum_list (map plan_size cs))"

subsection \<open>Values\<close>

text \<open>\<open>Number(v)\<close>.\<close>

definition radix_digits :: "nat \<Rightarrow> string \<Rightarrow> nat option" where
  "radix_digits b s =
     (if s = [] \<or> \<not> list_all (\<lambda>c. case hex_value c of Some d \<Rightarrow> d < b | None \<Rightarrow> False) s then None
      else Some (foldl (\<lambda>a c. b * a + the (hex_value c)) 0 s))"

definition decimal_rx :: rx where
  "decimal_rx =
     Seqs [Alt (Seq (Plus (Cls digit_char)) (Opt (Seq (Lit CHR ''.'') (Star (Cls digit_char)))))
             (Seq (Lit CHR ''.'') (Plus (Cls digit_char))),
           Opt (Seqs [Cls (\<lambda>c. c = CHR ''e'' \<or> c = CHR ''E''), Opt (Cls (\<lambda>c. c = CHR ''+'' \<or> c = CHR ''-'')), Plus (Cls digit_char)])]"

definition number_of_text :: "string \<Rightarrow> js_val" where
  "number_of_text s =
     (let t = js_trim s;
          neg = starts_with ''-'' t;
          u = (if neg \<or> starts_with ''+'' t then tl t else t);
          radix = (\<lambda>b. case radix_digits b (drop 2 t) of Some n \<Rightarrow> JNum (int n) | None \<Rightarrow> JNonFinite ''NaN'')
      in if t = [] then JNum 0
         else if starts_with ''0x'' t \<or> starts_with ''0X'' t then radix 16
         else if starts_with ''0o'' t \<or> starts_with ''0O'' t then radix 8
         else if starts_with ''0b'' t \<or> starts_with ''0B'' t then radix 2
         else if u = ''Infinity'' then JNonFinite (if neg then ''-Infinity'' else ''Infinity'')
         else if list_all digit_char u \<and> u \<noteq> [] then JNum (if neg then - int (read_nat u) else int (read_nat u))
         else if rx_match decimal_rx u then JDec (if neg then t else u)
         else JNonFinite ''NaN'')"

fun js_number :: "js_val \<Rightarrow> js_val" where
  "js_number JUndef = JNonFinite ''NaN''"
| "js_number JNull = JNum 0"
| "js_number (JBool b) = JNum (if b then 1 else 0)"
| "js_number (JNum i) = JNum i"
| "js_number (JDec s) = JDec s"
| "js_number (JNonFinite s) = JNonFinite s"
| "js_number (JBig i) = JNum i"
| "js_number v = number_of_text (js_to_string v)"

definition numberOrUndefined :: "js_val \<Rightarrow> js_val option" where
  "numberOrUndefined v =
     (if nullish v then None else case js_number v of JNonFinite _ \<Rightarrow> None | n \<Rightarrow> Some n)"

definition asObj :: "js_val \<Rightarrow> row option" where
  "asObj v = (case v of JObj fs \<Rightarrow> Some fs | JDate _ _ \<Rightarrow> Some [] | JBytes _ \<Rightarrow> Some [] | _ \<Rightarrow> None)"

text \<open>\<open>v[k]\<close> for a name that is no index, and \<open>Object.entries(v)\<close>, on a value that is not known to be an object.\<close>

definition js_prop :: "js_val \<Rightarrow> string \<Rightarrow> js_val res" where
  "js_prop v k =
     (case v of JObj fs \<Rightarrow> Inr (get_prop fs k)
      | JNull \<Rightarrow> Inl (PlainError ''Cannot read properties of null'')
      | JUndef \<Rightarrow> Inl (PlainError ''Cannot read properties of undefined'')
      | _ \<Rightarrow> Inr JUndef)"

definition js_entries :: "js_val \<Rightarrow> row" where
  "js_entries v =
     (case v of JObj fs \<Rightarrow> fs
      | JStr s \<Rightarrow> map (\<lambda>i. (show_nat i, JStr [s ! i])) [0..<length s]
      | JArr vs \<Rightarrow> map (\<lambda>i. (show_nat i, vs ! i)) [0..<length vs]
      | _ \<Rightarrow> [])"

fun is_scalar :: "js_val \<Rightarrow> bool" where
  "is_scalar (JStr s) = True"
| "is_scalar (JNum i) = True"
| "is_scalar (JDec s) = True"
| "is_scalar (JNonFinite s) = True"
| "is_scalar v = False"

definition scalarFields :: "row \<Rightarrow> string list \<Rightarrow> row option" where
  "scalarFields obj exclude =
     (let fields = filter (\<lambda>(k, v). k \<notin> set exclude \<and> is_scalar v) obj in if fields = [] then None else Some fields)"

definition safeJsonParse :: "string \<Rightarrow> js_val" where
  "safeJsonParse text = (case json_parse text of Some v \<Rightarrow> v | None \<Rightarrow> JUndef)"

definition text_or_none :: "js_val \<Rightarrow> string option" where
  "text_or_none v = (case v of JStr s \<Rightarrow> Some s | _ \<Rightarrow> None)"

definition if_nonempty :: "string \<Rightarrow> string option" where
  "if_nonempty s = (if s = [] then None else Some s)"

definition first_cell :: "row list \<Rightarrow> string \<Rightarrow> js_val" where
  "first_cell rows c = (case rows of [] \<Rightarrow> JUndef | r # _ \<Rightarrow> get_prop r c)"

subsection \<open>PostgreSQL\<close>

definition pgBuildExplain :: "string \<Rightarrow> bool \<Rightarrow> sql_fragment" where
  "pgBuildExplain sql analyze =
     \<lparr>fragSql = ''EXPLAIN ('' @ (if analyze then ''FORMAT JSON, ANALYZE, BUFFERS'' else ''FORMAT JSON'') @ '') '' @ sql, fragParams = []\<rparr>"

definition PG_DETAIL_KEYS :: "string list" where
  "PG_DETAIL_KEYS = [''Relation Name'', ''Index Name'', ''CTE Name'', ''Function Name'', ''Join Type'', ''Strategy'']"

definition middle_dot :: string where
  "middle_dot = [CHR '' '', CHR 0xB7, CHR '' '']"

definition pg_detail :: "js_val \<Rightarrow> string option" where
  "pg_detail node =
     if_nonempty (join middle_dot (map js_to_string (filter is_scalar
       (map (\<lambda>k. case js_prop node k of Inr v \<Rightarrow> v | Inl _ \<Rightarrow> JUndef) PG_DETAIL_KEYS))))"

lemma prop_size: "js_prop v k = Inr w \<Longrightarrow> w = JUndef \<or> size w < size v"
proof -
  have "map_of fs k = Some w \<Longrightarrow> size w < Suc (size_list (size_prod (\<lambda>s. 0) size) fs)" for fs w
    by (induction fs) (auto split: if_splits)
  then show "js_prop v k = Inr w \<Longrightarrow> w = JUndef \<or> size w < size v"
    by (auto simp: js_prop_def get_prop_def split: js_val.splits option.splits)
qed

function mapPgNode :: "js_val \<Rightarrow> plan_node res" where
  "mapPgNode node =
     (case js_prop node ''Plans'' of
        Inl e \<Rightarrow> Inl e
      | Inr plans \<Rightarrow>
          (let prop = (\<lambda>k. case js_prop node k of Inr v \<Rightarrow> v | Inl _ \<Rightarrow> JUndef) in
           res_map (\<lambda>children.
               PlanNode (case prop ''Node Type'' of JStr s \<Rightarrow> s | _ \<Rightarrow> ''Node'') (pg_detail node)
                 (numberOrUndefined (prop ''Total Cost'')) (numberOrUndefined (prop ''Plan Rows''))
                 (numberOrUndefined (prop ''Actual Total Time'')) (numberOrUndefined (prop ''Actual Rows''))
                 (scalarFields (js_entries node) [''Plans'']) children)
             (case plans of JArr vs \<Rightarrow> traverse mapPgNode vs | _ \<Rightarrow> Inr [])))"
  by pat_completeness auto

termination
proof (relation "measure size")
  fix node plans vs v
  assume "js_prop node ''Plans'' = Inr plans" "plans = JArr vs" "v \<in> set vs"
  moreover from this have "size v < size plans" using size_list_estimation' [of v vs "size v" size] by simp
  ultimately show "(v, node) \<in> measure size" using prop_size [of node "''Plans''" plans] by auto
qed simp

declare mapPgNode.simps [simp del]

definition pgParseExplain :: "row list \<Rightarrow> plan_node res" where
  "pgParseExplain rows =
     (let raw = first_cell rows ''QUERY PLAN'';
          parsed = (case raw of JStr s \<Rightarrow> safeJsonParse s | _ \<Rightarrow> raw)
      in case parsed of
           JArr (v # _) \<Rightarrow>
             (if nullish v then Inr (bare_node ''Unknown'' [])
              else res_bind (js_prop v ''Plan'') (\<lambda>p. case asObj p of
                Some fs \<Rightarrow> mapPgNode p | None \<Rightarrow> Inr (bare_node ''Unknown'' [])))
         | _ \<Rightarrow> Inr (bare_node ''Unknown'' []))"

subsection \<open>MySQL\<close>

definition mysqlBuildExplain :: "string \<Rightarrow> sql_fragment" where
  "mysqlBuildExplain sql = \<lparr>fragSql = ''EXPLAIN FORMAT=JSON '' @ sql, fragParams = []\<rparr>"

definition MYSQL_OPERATIONS :: "(string \<times> string) list" where
  "MYSQL_OPERATIONS = [(''ordering_operation'', ''Ordering''), (''grouping_operation'', ''Grouping''), (''duplicates_removal'', ''Distinct'')]"

text \<open>The first operation an object has, with its label, and what it holds.\<close>

definition main_operation :: "row \<Rightarrow> (string \<times> string \<times> row) option" where
  "main_operation obj =
     (case filter (\<lambda>(k, l). asObj (get_prop obj k) \<noteq> None) MYSQL_OPERATIONS of
        [] \<Rightarrow> None
      | (k, l) # _ \<Rightarrow> map_option (\<lambda>op. (k, l, op)) (asObj (get_prop obj k)))"

definition cost_of :: "row \<Rightarrow> string \<Rightarrow> js_val" where
  "cost_of obj k = (case asObj (get_prop obj ''cost_info'') of Some c \<Rightarrow> get_prop c k | None \<Rightarrow> JUndef)"

definition or_else :: "js_val \<Rightarrow> js_val \<Rightarrow> js_val" where
  "or_else v w = (if nullish v then w else v)"

definition own_props :: "js_val \<Rightarrow> row" where
  "own_props v = (case v of JObj fs \<Rightarrow> fs | _ \<Rightarrow> [])"

lemma size_member: "map_of fs k = Some v \<Longrightarrow> size v + 2 < size (JObj fs)"
  by (induction fs) (auto split: if_splits)

lemma size_get_prop: "get_prop fs k = v \<Longrightarrow> v \<noteq> JUndef \<Longrightarrow> size v + 2 < size (JObj fs)"
  using size_member [of fs k v] by (auto simp: get_prop_def split: option.splits)

lemma size_asObj: "asObj v = Some gs \<Longrightarrow> size (JObj gs) \<le> size v + 1"
  by (auto simp: asObj_def split: js_val.splits)

lemma size_prop_obj: "asObj (get_prop fs k) = Some gs \<Longrightarrow> size (JObj gs) + 1 < size (JObj fs)"
  using size_get_prop [of fs k "get_prop fs k"] size_asObj [of "get_prop fs k" gs] by (force simp: asObj_def)

lemma size_array: "get_prop fs k = JArr vs \<Longrightarrow> v \<in> set vs \<Longrightarrow> size v + 2 < size (JObj fs)"
  using size_get_prop [of fs k "JArr vs"] size_list_estimation' [of v vs "size v" size] by simp

lemma size_own_props: "size (JObj (own_props v)) \<le> size v + 1"
  by (auto simp: own_props_def split: js_val.split)

lemma size_operation: "main_operation obj = Some (k, l, op) \<Longrightarrow> size (JObj op) + 1 < size (JObj obj)"
  using size_prop_obj [of obj k op] by (auto simp: main_operation_def simp del: js_val.size split: list.splits)

text \<open>\<open>asObj(item['table']) ?? item\<close>.\<close>

definition table_of_item :: "js_val \<Rightarrow> js_val" where
  "table_of_item item = (case asObj (get_prop (own_props item) ''table'') of Some fs \<Rightarrow> get_prop (own_props item) ''table'' | None \<Rightarrow> item)"

lemma size_table_of_item: "size (table_of_item item) \<le> size item"
proof (cases "asObj (get_prop (own_props item) ''table'')")
  case (Some fs)
  then have "get_prop (own_props item) ''table'' \<noteq> JUndef" by (auto simp: asObj_def)
  then show ?thesis
    using size_get_prop [of "own_props item" "''table''"] size_own_props [of item] by (simp add: table_of_item_def Some)
qed (simp add: table_of_item_def)

definition mysql_measure :: "row + row + js_val \<Rightarrow> nat" where
  "mysql_measure x = (case x of Inl b \<Rightarrow> 2 * size (JObj b) + 1 | Inr (Inl b) \<Rightarrow> 2 * size (JObj b) | Inr (Inr v) \<Rightarrow> 2 * size v + 2)"

lemma mysql_steps:
  "(Inr (Inl block), Inl block) \<in> measure mysql_measure"
  "main_operation obj = Some (k, l, op) \<Longrightarrow> (Inr (Inl op), Inr (Inl obj)) \<in> measure mysql_measure"
  "get_prop obj ''nested_loop'' = JArr items \<Longrightarrow> item \<in> set items \<Longrightarrow>
    (Inr (Inr (table_of_item item)), Inr (Inl obj)) \<in> measure mysql_measure"
  "asObj (get_prop obj ''table'') = Some t \<Longrightarrow> (Inr (Inr (JObj t)), Inr (Inl obj)) \<in> measure mysql_measure"
  "asObj (get_prop obj ''union_result'') = Some u \<Longrightarrow> get_prop u ''query_specifications'' = JArr specs \<Longrightarrow> spec \<in> set specs \<Longrightarrow>
    asObj (get_prop (own_props spec) ''query_block'') = Some b \<Longrightarrow> (Inl b, Inr (Inl obj)) \<in> measure mysql_measure"
  "asObj (get_prop (own_props v) ''materialized_from_subquery'') = Some m \<Longrightarrow>
    (Inl (case asObj (get_prop m ''query_block'') of Some b \<Rightarrow> b | None \<Rightarrow> m), Inr (Inr v)) \<in> measure mysql_measure"
proof -
  show "(Inr (Inl block), Inl block) \<in> measure mysql_measure" by (simp add: mysql_measure_def)
  show "main_operation obj = Some (k, l, op) \<Longrightarrow> (Inr (Inl op), Inr (Inl obj)) \<in> measure mysql_measure"
    using size_operation [of obj k l op] unfolding mysql_measure_def by simp
  show "get_prop obj ''nested_loop'' = JArr items \<Longrightarrow> item \<in> set items \<Longrightarrow>
      (Inr (Inr (table_of_item item)), Inr (Inl obj)) \<in> measure mysql_measure"
    using size_array [of obj "''nested_loop''" items item] size_table_of_item [of item] unfolding mysql_measure_def by simp
  show "asObj (get_prop obj ''table'') = Some t \<Longrightarrow> (Inr (Inr (JObj t)), Inr (Inl obj)) \<in> measure mysql_measure"
    using size_prop_obj [of obj "''table''" t] unfolding mysql_measure_def by simp
  show "asObj (get_prop obj ''union_result'') = Some u \<Longrightarrow> get_prop u ''query_specifications'' = JArr specs \<Longrightarrow> spec \<in> set specs \<Longrightarrow>
      asObj (get_prop (own_props spec) ''query_block'') = Some b \<Longrightarrow> (Inl b, Inr (Inl obj)) \<in> measure mysql_measure"
    using size_array [of u "''query_specifications''" specs spec] size_prop_obj [of obj "''union_result''" u]
      size_prop_obj [of "own_props spec" "''query_block''" b] size_own_props [of spec]
    unfolding mysql_measure_def by simp
  show "asObj (get_prop (own_props v) ''materialized_from_subquery'') = Some m \<Longrightarrow>
      (Inl (case asObj (get_prop m ''query_block'') of Some b \<Rightarrow> b | None \<Rightarrow> m), Inr (Inr v)) \<in> measure mysql_measure"
    using size_prop_obj [of "own_props v" "''materialized_from_subquery''" m] size_own_props [of v] size_prop_obj [of m "''query_block''"]
    unfolding mysql_measure_def by (auto split: option.split)
qed

function mysqlBlockNode :: "row \<Rightarrow> plan_node res"
and mysqlOperationChildren :: "row \<Rightarrow> plan_node list res"
and mysqlTableNode :: "js_val \<Rightarrow> plan_node res" where
  "mysqlBlockNode block =
     res_map (PlanNode ''Query block''
         (case get_prop block ''select_id'' of JUndef \<Rightarrow> None | v \<Rightarrow> Some (''select #'' @ js_to_string v))
         (numberOrUndefined (cost_of block ''query_cost'')) None None None
         (scalarFields block [''cost_info'', ''query_block'']))
       (mysqlOperationChildren block)"
| "mysqlOperationChildren obj =
     (case main_operation obj of
        Some (k, label, op) \<Rightarrow>
          res_map (\<lambda>cs. [PlanNode label None None None None None (scalarFields op [k]) cs]) (mysqlOperationChildren op)
      | None \<Rightarrow>
          (case get_prop obj ''nested_loop'' of
             JArr items \<Rightarrow>
               res_map (\<lambda>cs. [bare_node ''Nested loop'' cs])
                 (traverse (\<lambda>item. if nullish item then Inl (PlainError ''Cannot read properties of null'')
                                   else mysqlTableNode (table_of_item item)) items)
           | _ \<Rightarrow>
               (case asObj (get_prop obj ''table'') of
                  Some t \<Rightarrow> res_map (\<lambda>n. [n]) (mysqlTableNode (JObj t))
                | None \<Rightarrow>
                    (case asObj (get_prop obj ''union_result'') of
                       None \<Rightarrow> Inr []
                     | Some u \<Rightarrow>
                         (case get_prop u ''query_specifications'' of
                            JArr specs \<Rightarrow>
                              res_map (\<lambda>css. [bare_node ''Union'' (concat css)])
                                (traverse (\<lambda>spec. if nullish spec then Inl (PlainError ''Cannot read properties of null'')
                                    else (case asObj (get_prop (own_props spec) ''query_block'') of
                                       None \<Rightarrow> Inr []
                                     | Some b \<Rightarrow> res_map (\<lambda>n. [n]) (mysqlBlockNode b))) specs)
                          | _ \<Rightarrow> Inr [])))))"
| "mysqlTableNode v =
     (let table = own_props v in
      res_map (PlanNode ''Table'' (text_or_none (get_prop table ''table_name''))
          (numberOrUndefined (or_else (cost_of table ''read_cost'') (cost_of table ''prefix_cost'')))
          (numberOrUndefined (or_else (get_prop table ''rows_produced_per_join'') (get_prop table ''rows_examined_per_scan'')))
          None None (scalarFields (js_entries v) [''cost_info'', ''used_key_parts'', ''materialized_from_subquery'']))
        (case asObj (get_prop table ''materialized_from_subquery'') of
           None \<Rightarrow> Inr []
         | Some m \<Rightarrow> res_map (\<lambda>n. [n]) (mysqlBlockNode (case asObj (get_prop m ''query_block'') of Some b \<Rightarrow> b | None \<Rightarrow> m))))"
  by pat_completeness auto

termination
  by (relation "measure mysql_measure") (auto intro: mysql_steps simp del: in_measure)

declare mysqlBlockNode.simps [simp del] mysqlOperationChildren.simps [simp del] mysqlTableNode.simps [simp del]

definition mysqlParseExplain :: "row list \<Rightarrow> plan_node res" where
  "mysqlParseExplain rows =
     (let raw = first_cell rows ''EXPLAIN'';
          parsed = asObj (case raw of JStr s \<Rightarrow> safeJsonParse s | _ \<Rightarrow> raw)
      in case parsed of
           None \<Rightarrow> Inr (bare_node ''Unknown'' [])
         | Some p \<Rightarrow> (case asObj (get_prop p ''query_block'') of
             Some block \<Rightarrow> mysqlBlockNode block | None \<Rightarrow> Inr (bare_node ''Unknown'' [])))"

subsection \<open>SQLite\<close>

definition sqliteBuildExplain :: "string \<Rightarrow> sql_fragment" where
  "sqliteBuildExplain sql = \<lparr>fragSql = ''EXPLAIN QUERY PLAN '' @ sql, fragParams = []\<rparr>"

definition js_upper_char :: "char \<Rightarrow> char" where
  "js_upper_char c = (if lower_char c then char_of (of_char c - 32 :: nat) else c)"

definition sqliteStepType :: "string \<Rightarrow> string" where
  "sqliteStepType detail =
     (let word = map js_upper_char (takeWhile (\<lambda>c. \<not> js_space c) (js_trim detail)) in if word = [] then ''STEP'' else word)"

text \<open>A step: its identifier, its parent's, its text.\<close>

type_synonym step = "js_val \<times> js_val \<times> string"

definition step_of :: "row \<Rightarrow> step" where
  "step_of r =
     (js_number (get_prop r ''id''), js_number (get_prop r ''parent''),
      if nullish (get_prop r ''detail'') then [] else js_to_string (get_prop r ''detail''))"

text \<open>
  The nodes by identifier: the last row of an identifier is its node, and a row hangs that node under the node of its parent, or
  under the root when no row has the parent's identifier. A node is made of the links when the tree is read; on links that run in
  a circle that reading never ends, which is the value \<open>None\<close> for every amount of fuel.
\<close>

definition step_text :: "step list \<Rightarrow> js_val \<Rightarrow> string" where
  "step_text steps i = (case map_of (rev (map (\<lambda>(i, p, d). (i, d)) steps)) i of Some d \<Rightarrow> d | None \<Rightarrow> [])"

definition steps_under :: "step list \<Rightarrow> js_val \<Rightarrow> js_val list" where
  "steps_under steps i = map fst (filter (\<lambda>(j, p, d). p = i) steps)"

definition root_steps :: "step list \<Rightarrow> js_val list" where
  "root_steps steps = map fst (filter (\<lambda>(j, p, d). p \<notin> fst ` set steps) steps)"

fun opt_map :: "('a \<Rightarrow> 'b option) \<Rightarrow> 'a list \<Rightarrow> 'b list option" where
  "opt_map f [] = Some []"
| "opt_map f (x # xs) = (case f x of None \<Rightarrow> None | Some y \<Rightarrow> map_option (\<lambda>ys. y # ys) (opt_map f xs))"

fun step_node :: "nat \<Rightarrow> step list \<Rightarrow> js_val \<Rightarrow> plan_node option" where
  "step_node 0 steps i = None"
| "step_node (Suc n) steps i =
     map_option (PlanNode (sqliteStepType (step_text steps i)) (Some (step_text steps i)) None None None None None)
       (opt_map (step_node n steps) (steps_under steps i))"

definition sqlite_plan :: "nat \<Rightarrow> step list \<Rightarrow> plan_node option" where
  "sqlite_plan n steps = map_option (bare_node ''QUERY PLAN'') (opt_map (step_node n steps) (root_steps steps))"

definition sqliteParseExplain :: "nat \<Rightarrow> row list \<Rightarrow> plan_node option" where
  "sqliteParseExplain n rows = sqlite_plan n (map step_of rows)"

subsection \<open>The steps make a finite tree\<close>

lemma opt_map_None: "opt_map f xs = None \<longleftrightarrow> (\<exists>x \<in> set xs. f x = None)"
  by (induction xs) (auto split: option.splits)

lemma opt_map_Some: "opt_map f xs = Some ys \<longleftrightarrow> map f xs = map Some ys"
proof (induction xs arbitrary: ys)
  case (Cons x xs)
  then show ?case by (cases ys) (auto split: option.splits)
qed auto

text \<open>A way down from the root.\<close>

fun way_down :: "step list \<Rightarrow> js_val list \<Rightarrow> bool" where
  "way_down steps [] \<longleftrightarrow> True"
| "way_down steps [i] \<longleftrightarrow> i \<in> set (root_steps steps)"
| "way_down steps (j # i # is) \<longleftrightarrow> j \<in> set (steps_under steps i) \<and> way_down steps (i # is)"

lemma way_down_ids: "way_down steps is \<Longrightarrow> set is \<subseteq> fst ` set steps"
  by (induction steps "is" rule: way_down.induct) (auto simp: root_steps_def steps_under_def)

lemma under_parent:
  assumes "distinct (map fst steps)" "j \<in> set (steps_under steps i)" "j \<in> set (steps_under steps i')"
  shows "i = i'"
  using assms by (auto simp: steps_under_def distinct_map inj_on_def)

lemma root_no_parent:
  assumes "distinct (map fst steps)" "j \<in> set (root_steps steps)" "j \<in> set (steps_under steps i)"
  shows "i \<notin> fst ` set steps"
  using assms by (auto simp: root_steps_def steps_under_def distinct_map inj_on_def)

text \<open>No way down meets an identifier twice.\<close>

lemma way_down_suffix: "way_down steps (xs @ ys) \<Longrightarrow> way_down steps ys"
proof (induction xs)
  case (Cons x xs)
  then show ?case by (cases "xs @ ys") (simp_all add: append_eq_Cons_conv)
qed simp

lemma way_down_next: "way_down steps (j # is) \<Longrightarrow>
  is = [] \<and> j \<in> set (root_steps steps) \<or> (\<exists>i zs. is = i # zs \<and> j \<in> set (steps_under steps i) \<and> i \<in> fst ` set steps)"
  using way_down_ids [of steps "is"] by (cases "is") auto

lemma way_down_distinct: "distinct (map fst steps) \<Longrightarrow> way_down steps is \<Longrightarrow> distinct is"
proof (induction "is")
  case (Cons j "is")
  then have rest: "distinct is" by (cases "is") auto
  have "j \<notin> set is"
  proof
    assume "j \<in> set is"
    then obtain xs ys where split: "is = xs @ j # ys" by (auto simp: in_set_conv_decomp)
    then obtain i zs where i: "is = i # zs" "j \<in> set (steps_under steps i)" "i \<in> fst ` set steps"
      using way_down_next [OF Cons.prems(2)] by auto
    have "way_down steps (j # ys)" using way_down_suffix [of steps "j # xs" "j # ys"] Cons.prems(2) split by simp
    from way_down_next [OF this] obtain i' zs' where "ys = i' # zs'" "j \<in> set (steps_under steps i')"
      using root_no_parent [OF Cons.prems(1) _ i(2)] i(3) by blast
    with under_parent [OF Cons.prems(1) i(2)] have "ys = i # zs'" by simp
    with split i(1) rest show False by (cases xs) auto
  qed
  with rest show ?case by simp
qed simp

lemma way_down_length: "distinct (map fst steps) \<Longrightarrow> way_down steps is \<Longrightarrow> length is \<le> length steps"
  using distinct_card [OF way_down_distinct, of steps "is"] card_mono [OF _ way_down_ids, of steps "is"]
    card_image_le [of "set steps" fst] card_length [of steps] by fastforce

lemma step_node_stuck:
  "step_node n steps i = None \<Longrightarrow> way_down steps (i # is) \<Longrightarrow> \<exists>js. length js = n \<and> way_down steps (js @ i # is)"
proof (induction n arbitrary: i "is")
  case (Suc n)
  from Suc.prems(1) obtain j where j: "j \<in> set (steps_under steps i)" "step_node n steps j = None"
    by (auto simp: opt_map_None)
  then obtain js where "length js = n" "way_down steps (js @ j # i # is)"
    using Suc.IH [OF j(2), of "i # is"] Suc.prems(2) by auto
  then show ?case by (intro exI [of _ "js @ [j]"]) simp
qed auto

lemma sqlite_plan_finite:
  assumes "distinct (map fst steps)" "length steps \<le> n"
  shows "\<exists>t. sqlite_plan n steps = Some t"
proof -
  have "step_node n steps i \<noteq> None" if "i \<in> set (root_steps steps)" for i
  proof
    assume "step_node n steps i = None"
    from step_node_stuck [OF this, of "[]"] that obtain js where "length js = n" "way_down steps (js @ [i])" by auto
    then show False using way_down_length [OF assms(1)] assms(2) by fastforce
  qed
  then have "opt_map (step_node n steps) (root_steps steps) \<noteq> None" by (auto simp: opt_map_None)
  then show ?thesis by (auto simp: sqlite_plan_def)
qed

subsection \<open>Every step is in the tree once\<close>

fun plan_texts :: "plan_node \<Rightarrow> string list" where
  "plan_texts (PlanNode t d a b c e f cs) = (case d of None \<Rightarrow> [] | Some s \<Rightarrow> [s]) @ concat (map plan_texts cs)"

fun ids_under :: "nat \<Rightarrow> step list \<Rightarrow> js_val \<Rightarrow> js_val list" where
  "ids_under 0 steps i = []"
| "ids_under (Suc n) steps i = i # concat (map (ids_under n steps) (steps_under steps i))"

lemma step_node_texts: "step_node n steps i = Some t \<Longrightarrow> plan_texts t = map (step_text steps) (ids_under n steps i)"
proof (induction n arbitrary: i t)
  case (Suc n)
  then obtain ts where ts: "map (step_node n steps) (steps_under steps i) = map Some ts"
      "t = PlanNode (sqliteStepType (step_text steps i)) (Some (step_text steps i)) None None None None None ts"
    by (auto simp: opt_map_Some)
  have "map plan_texts ts = map (\<lambda>j. map (step_text steps) (ids_under n steps j)) (steps_under steps i)"
    using ts(1) Suc.IH by (auto simp: list_eq_iff_nth_eq)
  then show ?case by (simp add: ts(2) map_concat comp_def)
qed simp

lemma ids_under_way: "j \<in> set (ids_under n steps i) \<Longrightarrow> way_down steps (i # is) \<Longrightarrow>
  \<exists>js. way_down steps (js @ i # is) \<and> hd (js @ [i]) = j"
proof (induction n arbitrary: i "is")
  case (Suc n)
  show ?case
  proof (cases "j = i")
    case True
    then show ?thesis using Suc.prems(2) by (intro exI [of _ "[]"]) simp
  next
    case False
    then obtain k where k: "k \<in> set (steps_under steps i)" "j \<in> set (ids_under n steps k)" using Suc.prems(1) by auto
    then obtain js where "way_down steps (js @ k # i # is)" "hd (js @ [k]) = j"
      using Suc.IH [OF k(2), of "i # is"] Suc.prems(2) by auto
    then show ?thesis by (intro exI [of _ "js @ [k]"]) (cases js; simp)
  qed
qed simp

lemma way_unique:
  assumes "distinct (map fst steps)"
  shows "way_down steps (j # is) \<Longrightarrow> way_down steps (j # is') \<Longrightarrow> is = is'"
proof (induction "is" arbitrary: j is')
  case Nil
  then show ?case using root_no_parent [OF assms] way_down_next [OF Nil(2)] by auto
next
  case (Cons i "is")
  from way_down_next [OF Cons.prems(1)] have i: "j \<in> set (steps_under steps i)" "i \<in> fst ` set steps" by auto
  with way_down_next [OF Cons.prems(2)] obtain i' zs where "is' = i' # zs" "j \<in> set (steps_under steps i')"
    using root_no_parent [OF assms] by blast
  with under_parent [OF assms i(1)] have "is' = i # zs" by simp
  then show ?case using Cons.IH [of i zs] Cons.prems by auto
qed

lemma way_unique_tail:
  assumes "distinct (map fst steps)" "way_down steps (js @ i # is)" "way_down steps (js' @ i' # is)" "hd (js @ [i]) = hd (js' @ [i'])"
  shows "i = i'"
proof -
  obtain j r where r: "js @ i # is = j # r" by (cases js) auto
  moreover obtain r' where r': "js' @ i' # is = j # r'" using assms(4) r by (cases js; cases js'; auto)
  ultimately have eq: "js @ i # is = js' @ i' # is" using way_unique [OF assms(1), of j r r'] assms(2,3) by simp
  then have "length js = length js'" by (auto dest: arg_cong [where f = length])
  with eq show ?thesis by simp
qed

lemma distinct_concat_map:
  assumes "distinct xs" "\<And>x. x \<in> set xs \<Longrightarrow> distinct (f x)"
    "\<And>x y j. x \<in> set xs \<Longrightarrow> y \<in> set xs \<Longrightarrow> j \<in> set (f x) \<Longrightarrow> j \<in> set (f y) \<Longrightarrow> x = y"
  shows "distinct (concat (map f xs))"
  using assms
proof (induction xs)
  case (Cons x xs)
  have "set (f x) \<inter> set (concat (map f xs)) = {}" using Cons.prems(1) Cons.prems(3) [of x] by fastforce
  moreover have "distinct (concat (map f xs))" by (rule Cons.IH) (use Cons.prems in auto)
  ultimately show ?case using Cons.prems(2) [of x] by simp
qed simp

lemma ids_under_apart:
  assumes "distinct (map fst steps)" "way_down steps (k # is)" "way_down steps (k' # is)"
    "j \<in> set (ids_under n steps k)" "j \<in> set (ids_under n steps k')"
  shows "k = k'"
proof -
  obtain js where "way_down steps (js @ k # is)" "hd (js @ [k]) = j" using ids_under_way [OF assms(4,2)] by auto
  moreover obtain js' where "way_down steps (js' @ k' # is)" "hd (js' @ [k']) = j" using ids_under_way [OF assms(5,3)] by auto
  ultimately show ?thesis using way_unique_tail [OF assms(1)] by blast
qed

lemma ids_under_distinct:
  assumes "distinct (map fst steps)"
  shows "way_down steps (i # is) \<Longrightarrow> distinct (ids_under n steps i)"
proof (induction n arbitrary: i "is")
  case (Suc n)
  have way: "way_down steps (k # i # is)" if "k \<in> set (steps_under steps i)" for k using that Suc.prems by simp
  have "distinct (concat (map (ids_under n steps) (steps_under steps i)))"
  proof (rule distinct_concat_map)
    show "distinct (steps_under steps i)" using assms by (simp add: steps_under_def distinct_map_filter)
    show "distinct (ids_under n steps k)" if "k \<in> set (steps_under steps i)" for k by (rule Suc.IH [OF way [OF that]])
    show "k = k'" if "k \<in> set (steps_under steps i)" "k' \<in> set (steps_under steps i)" "j \<in> set (ids_under n steps k)"
      "j \<in> set (ids_under n steps k')" for k k' j
      by (rule ids_under_apart [OF assms way [OF that(1)] way [OF that(2)] that(3,4)])
  qed
  moreover have "i \<notin> set (ids_under n steps k)" if k: "k \<in> set (steps_under steps i)" for k
  proof
    assume "i \<in> set (ids_under n steps k)"
    from ids_under_way [OF this way [OF k]] obtain js where js: "way_down steps (js @ k # i # is)" "hd (js @ [k]) = i" by auto
    from way_down_distinct [OF assms js(1)] js(2) show False by (cases js) auto
  qed
  ultimately show ?case by auto
qed simp

lemma ids_under_complete: "way_down steps (js @ i # is) \<Longrightarrow> length js < n \<Longrightarrow> hd (js @ [i]) \<in> set (ids_under n steps i)"
proof (induction js arbitrary: i "is" n rule: rev_induct)
  case Nil
  then show ?case by (cases n) auto
next
  case (snoc k js)
  then obtain m where n: "n = Suc m" by (cases n) auto
  have "k \<in> set (steps_under steps i)" using way_down_suffix [of steps js "k # i # is"] snoc.prems(1) by simp
  moreover have "hd (js @ [k]) \<in> set (ids_under m steps k)" using snoc.IH [of k "i # is" m] snoc.prems n by simp
  moreover have "hd ((js @ [k]) @ [i]) = hd (js @ [k])" by (cases js) simp_all
  ultimately show ?case using n by auto
qed

text \<open>The order SQLite lists the steps in: a parent before its children.\<close>

fun parents_first :: "js_val list \<Rightarrow> js_val set \<Rightarrow> step list \<Rightarrow> bool" where
  "parents_first seen ids [] \<longleftrightarrow> True"
| "parents_first seen ids ((i, p, d) # steps) \<longleftrightarrow> (p \<in> set seen \<or> p \<notin> ids) \<and> parents_first (i # seen) ids steps"

lemma all_have_ways:
  assumes "parents_first seen (fst ` set steps) rest" "set rest \<subseteq> set steps" "\<And>i. i \<in> set seen \<Longrightarrow> \<exists>is. way_down steps (i # is)"
    "i \<in> fst ` set rest"
  shows "\<exists>is. way_down steps (i # is)"
  using assms
proof (induction rest arbitrary: seen)
  case (Cons s rest)
  obtain j p d where s: "s = (j, p, d)" by (cases s) auto
  have "\<exists>is. way_down steps (j # is)"
  proof (cases "p \<in> set seen")
    case True
    then obtain "is" where "way_down steps (p # is)" using Cons.prems(3) by blast
    moreover have "j \<in> set (steps_under steps p)" using Cons.prems(2) s by (force simp: steps_under_def)
    ultimately have "way_down steps (j # p # is)" by simp
    then show ?thesis by blast
  next
    case False
    then have "j \<in> set (root_steps steps)" using Cons.prems(1,2) s by (force simp: root_steps_def)
    then have "way_down steps [j]" by simp
    then show ?thesis by blast
  qed
  then show ?case using Cons.IH [of "j # seen"] Cons.prems s by auto
qed simp

lemma step_texts:
  assumes "distinct (map fst steps)"
  shows "map (step_text steps) (map fst steps) = map (\<lambda>(i, p, d). d) steps"
proof -
  have "map_of (rev (map (\<lambda>(i, p, d). (i, d)) steps)) i = Some d" if "(i, p, d) \<in> set steps" for i p d
  proof (rule map_of_is_SomeI)
    have "map fst (rev (map (\<lambda>(i, p, d). (i, d)) steps)) = rev (map fst steps)" by (simp add: rev_map comp_def case_prod_beta)
    then show "distinct (map fst (rev (map (\<lambda>(i, p, d). (i, d)) steps)))" using assms by simp
    show "(i, d) \<in> set (rev (map (\<lambda>(i, p, d). (i, d)) steps))" using that by force
  qed
  then show ?thesis by (auto simp: step_text_def)
qed

lemma all_steps_once:
  assumes "distinct (map fst steps)" "parents_first [] (fst ` set steps) steps" "length steps \<le> n"
  shows "mset (concat (map (ids_under n steps) (root_steps steps))) = mset (map fst steps)"
proof -
  have "distinct (concat (map (ids_under n steps) (root_steps steps)))"
  proof (rule distinct_concat_map)
    show "distinct (root_steps steps)" using assms(1) by (simp add: root_steps_def distinct_map_filter)
    show "distinct (ids_under n steps k)" if "k \<in> set (root_steps steps)" for k
      by (rule ids_under_distinct [OF assms(1), of k "[]"]) (simp add: that)
    show "k = k'" if "k \<in> set (root_steps steps)" "k' \<in> set (root_steps steps)" "j \<in> set (ids_under n steps k)"
      "j \<in> set (ids_under n steps k')" for k k' j
      by (rule ids_under_apart [OF assms(1), of k "[]" k' j n]) (simp_all add: that)
  qed
  moreover have "set (concat (map (ids_under n steps) (root_steps steps))) = fst ` set steps"
  proof
    show "set (concat (map (ids_under n steps) (root_steps steps))) \<subseteq> fst ` set steps"
    proof
      fix j assume "j \<in> set (concat (map (ids_under n steps) (root_steps steps)))"
      then obtain k where k: "way_down steps [k]" "j \<in> set (ids_under n steps k)" by auto
      from ids_under_way [OF k(2,1)] obtain js where "way_down steps (js @ [k])" "hd (js @ [k]) = j" by auto
      then show "j \<in> fst ` set steps" using way_down_ids [of steps "js @ [k]"] by (cases js) auto
    qed
    show "fst ` set steps \<subseteq> set (concat (map (ids_under n steps) (root_steps steps)))"
    proof
      fix i assume "i \<in> fst ` set steps"
      then obtain "is" where way: "way_down steps (i # is)"
        using all_have_ways [OF assms(2) order_refl, of i] by auto
      define js where "js = butlast (i # is)"
      define r where "r = last (i # is)"
      have eq: "i # is = js @ [r]" by (simp add: js_def r_def)
      then have "r \<in> set (root_steps steps)" using way_down_suffix [of steps js "[r]"] way by simp
      moreover have "length js < n" using way_down_length [OF assms(1) way] assms(3) unfolding eq by simp
      then have "i \<in> set (ids_under n steps r)" using ids_under_complete [of steps js r "[]" n] way eq by (metis list.sel(1))
      ultimately show "i \<in> set (concat (map (ids_under n steps) (root_steps steps)))" by auto
    qed
  qed
  ultimately show ?thesis by (subst set_eq_iff_mset_eq_distinct [symmetric]) (use assms(1) in simp_all)
qed

text \<open>
  C13. The tree of a SQLite plan is finite and whole: when the steps have distinct identifiers and follow their parents, reading the links from
  the root ends within as many levels as there are steps, and every step's text is in the tree exactly once.
\<close>

theorem sqlite_plan_complete:
  assumes "distinct (map fst (map step_of rows))" "parents_first [] (fst ` set (map step_of rows)) (map step_of rows)" "length rows \<le> n"
  shows "\<exists>t. sqliteParseExplain n rows = Some t \<and> mset (plan_texts t) = mset (map (\<lambda>r. snd (snd (step_of r))) rows)"
proof -
  let ?steps = "map step_of rows"
  obtain t where t: "sqlite_plan n ?steps = Some t" using sqlite_plan_finite [OF assms(1)] assms(3) by auto
  then obtain ts where ts: "map (step_node n ?steps) (root_steps ?steps) = map Some ts" "t = bare_node ''QUERY PLAN'' ts"
    by (auto simp: sqlite_plan_def opt_map_Some)
  have "map plan_texts ts = map (\<lambda>i. map (step_text ?steps) (ids_under n ?steps i)) (root_steps ?steps)"
    using ts(1) step_node_texts by (auto simp: list_eq_iff_nth_eq)
  then have "plan_texts t = map (step_text ?steps) (concat (map (ids_under n ?steps) (root_steps ?steps)))"
    by (simp add: ts(2) bare_node_def map_concat comp_def)
  then have "mset (plan_texts t) = image_mset (step_text ?steps) (mset (map fst ?steps))"
    using all_steps_once [OF assms(1,2), of n] assms(3) by simp
  also have "\<dots> = mset (map (step_text ?steps) (map fst ?steps))" by (rule mset_map [symmetric])
  also have "\<dots> = mset (map (\<lambda>(i, p, d). d) ?steps)" unfolding step_texts [OF assms(1)] ..
  finally show ?thesis using t by (auto simp: sqliteParseExplain_def case_prod_beta comp_def)
qed

definition demo_steps :: "row list" where
  "demo_steps =
     [[(''id'', JNum 2), (''parent'', JNum 0), (''detail'', JStr ''SCAN t'')],
      [(''id'', JNum 5), (''parent'', JNum 0), (''detail'', JStr ''CORRELATED SCALAR SUBQUERY 1'')],
      [(''id'', JNum 8), (''parent'', JNum 5), (''detail'', JStr ''SEARCH u USING INDEX i'')]]"

lemma sqlite_plan_complete_witness:
  "\<exists>t. sqliteParseExplain 3 demo_steps = Some t
    \<and> mset (plan_texts t) = mset [''SCAN t'', ''CORRELATED SCALAR SUBQUERY 1'', ''SEARCH u USING INDEX i'']"
  using sqlite_plan_complete [of demo_steps 3]
  by (simp add: demo_steps_def step_of_def nullish_def)

text \<open>Two steps with one identifier can run in a circle that hangs from the root: the tree is then endless.\<close>

lemma sqlite_plan_endless:
  "sqlite_plan n [(JNum 1, JNum 0, ''SCAN t''), (JNum 1, JNum 1, ''SCAN u'')] = None"
proof -
  have "step_node n [(JNum 1, JNum 0, ''SCAN t''), (JNum 1, JNum 1, ''SCAN u'')] (JNum 1) = None"
    by (induction n) (simp_all add: steps_under_def)
  then show ?thesis by (simp add: sqlite_plan_def root_steps_def)
qed

end
