(* ===== verification/AiPrompt.thy ===== *)
theory AiPrompt
  imports ExplainPlan AppData
begin

text \<open>
  What reaches the language model, and what is taken from its answers (the functions of \<open>ai/ai.service.ts\<close> below the service): the
  samples of rows, the plan stripped of its values, the drafted comment, the chart and the schema changes read from a reply.
  The wording of the prompts is left out: a prompt is what varies in it (theory AiService).
\<close>

subsection \<open>Samples of rows\<close>

definition SAMPLE_MAX_ROWS :: nat where "SAMPLE_MAX_ROWS = 20"
definition SAMPLE_MAX_COLS :: nat where "SAMPLE_MAX_COLS = 20"
definition SAMPLE_MAX_CELL_CHARS :: nat where "SAMPLE_MAX_CELL_CHARS = 100"
definition CHART_SAMPLE_ROWS :: nat where "CHART_SAMPLE_ROWS = 15"
definition CHART_SAMPLE_VALUE_CHARS :: nat where "CHART_SAMPLE_VALUE_CHARS = 100"

definition clipped :: "nat \<Rightarrow> string \<Rightarrow> string" where
  "clipped n s = (if length s > n then take n s @ ellipsis else s)"

fun sanitizeCell :: "js_val \<Rightarrow> js_val res" where
  "sanitizeCell JNull = Inr JNull"
| "sanitizeCell JUndef = Inr JNull"
| "sanitizeCell (JNum i) = Inr (JNum i)"
| "sanitizeCell (JDec s) = Inr (JDec s)"
| "sanitizeCell (JNonFinite s) = Inr (JNonFinite s)"
| "sanitizeCell (JBool b) = Inr (JBool b)"
| "sanitizeCell (JStr s) = Inr (JStr (clipped SAMPLE_MAX_CELL_CHARS s))"
| "sanitizeCell (JBig i) = Inr (JStr (clipped SAMPLE_MAX_CELL_CHARS (show_int i)))"
| "sanitizeCell v = res_map (\<lambda>t. JStr (clipped SAMPLE_MAX_CELL_CHARS t)) (json_stringify v)"

record row_sample =
  rsColumns :: "string list"
  rsRows :: "js_val list list"
  rsTruncated :: bool

definition sanitizeRowSample :: "string list \<Rightarrow> row list \<Rightarrow> bool \<Rightarrow> row_sample res" where
  "sanitizeRowSample columns rows truncated =
     (let cols = take SAMPLE_MAX_COLS columns in
      res_map (\<lambda>cells. \<lparr>rsColumns = cols, rsRows = cells,
          rsTruncated = (length columns > SAMPLE_MAX_COLS \<or> length rows > SAMPLE_MAX_ROWS \<or> truncated)\<rparr>)
        (traverse (\<lambda>r. traverse (\<lambda>c. sanitizeCell (get_prop r c)) cols) (take SAMPLE_MAX_ROWS rows)))"

definition sanitizeSample :: "row list \<Rightarrow> row list" where
  "sanitizeSample rows =
     map (\<lambda>r. map (\<lambda>(k, v). (k, case v of JStr s \<Rightarrow> JStr (clipped CHART_SAMPLE_VALUE_CHARS s) | _ \<Rightarrow> v)) r) (take CHART_SAMPLE_ROWS rows)"

subsection \<open>Literals in a plan\<close>

text \<open>What follows the quoted text that has just been opened; a doubled quote is part of it when the text can still be closed.\<close>

fun close_quote :: "char \<Rightarrow> string \<Rightarrow> string option" where
  "close_quote q [] = None"
| "close_quote q (c # s) =
     (if c \<noteq> q then close_quote q s
      else (case s of
          d # u \<Rightarrow> if d = q then (case close_quote q u of Some r \<Rightarrow> Some r | None \<Rightarrow> Some s) else Some s
        | [] \<Rightarrow> Some s))"

lemma close_quote_length: "close_quote q s = Some r \<Longrightarrow> length r < length s"
proof (induction q s arbitrary: r rule: close_quote.induct)
  case (2 q c s)
  show ?case
  proof (cases "c = q")
    case False
    then show ?thesis using "2.IH"(1) "2.prems" by fastforce
  next
    case True
    show ?thesis
    proof (cases s)
      case (Cons d u)
      then show ?thesis
        using True "2.prems" "2.IH"(2) [OF _ Cons] by (auto split: if_splits option.splits) (fastforce dest: "2.IH"(2) [OF _ Cons])?
    qed (use True "2.prems" in auto)
  qed
qed simp

function redact_quoted :: "char \<Rightarrow> string \<Rightarrow> string" where
  "redact_quoted q [] = []"
| "redact_quoted q (c # s) =
     (if c \<noteq> q then c # redact_quoted q s
      else (case close_quote q s of None \<Rightarrow> c # redact_quoted q s | Some r \<Rightarrow> [q, CHR ''?'', q] @ redact_quoted q r))"
  by pat_completeness auto

termination
  by (relation "measure (length \<circ> snd)") (auto dest: close_quote_length)

text \<open>A number that starts here and ends at the end of a word.\<close>

definition word_starts :: "string \<Rightarrow> bool" where
  "word_starts s = (case s of [] \<Rightarrow> False | c # _ \<Rightarrow> word_char c)"

definition fraction_end :: "string \<Rightarrow> string option" where
  "fraction_end r =
     (case r of
        [] \<Rightarrow> None
      | c # u \<Rightarrow> if c = CHR ''.'' \<and> takeWhile digit_char u \<noteq> [] \<and> \<not> word_starts (dropWhile digit_char u)
                 then Some (dropWhile digit_char u) else None)"

definition number_here :: "string \<Rightarrow> string option" where
  "number_here s =
     (if takeWhile digit_char s = [] then None
      else (let r = dropWhile digit_char s in
        case fraction_end r of Some u \<Rightarrow> Some u | None \<Rightarrow> if word_starts r then None else Some r))"

lemma fraction_end_length: "fraction_end r = Some u \<Longrightarrow> length u \<le> length r"
  using length_dropWhile_le [of digit_char "tl r"] by (auto simp: fraction_end_def split: list.splits if_splits)

lemma number_here_length: "number_here s = Some r \<Longrightarrow> length r < length s"
proof -
  assume *: "number_here s = Some r"
  then have "takeWhile digit_char s \<noteq> []" by (auto simp: number_here_def)
  then have "length (dropWhile digit_char s) < length s"
    by (cases s) (auto intro: le_imp_less_Suc length_dropWhile_le split: if_splits)
  then show ?thesis
    using * fraction_end_length [of "dropWhile digit_char s"]
    by (auto simp: number_here_def Let_def split: if_splits option.splits)
qed

function redact_numbers :: "bool \<Rightarrow> string \<Rightarrow> string" where
  "redact_numbers in_word [] = []"
| "redact_numbers in_word (c # s) =
     (case (if in_word then None else number_here (c # s)) of
        Some r \<Rightarrow> CHR ''?'' # redact_numbers True r
      | None \<Rightarrow> c # redact_numbers (word_char c) s)"
  by pat_completeness auto

termination
  by (relation "measure (length \<circ> snd)") (auto split: if_splits dest: number_here_length)

definition redactLiterals :: "string \<Rightarrow> string" where
  "redactLiterals text = redact_numbers False (redact_quoted CHR 0x22 (redact_quoted CHR 0x27 text))"

subsection \<open>What is redacted\<close>

text \<open>A detail as the engine writes it: plain text, string literals and quoted names with their quotes doubled inside, and numbers.\<close>

datatype piece = Plain string | TextLit string | QuotedName string | Numeral string "string option"

definition doubled :: "char \<Rightarrow> string \<Rightarrow> string" where
  "doubled q s = concat (map (\<lambda>c. if c = q then [q, q] else [c]) s)"

fun piece_text :: "piece \<Rightarrow> string" where
  "piece_text (Plain s) = s"
| "piece_text (TextLit s) = CHR 0x27 # doubled CHR 0x27 s @ [CHR 0x27]"
| "piece_text (QuotedName s) = CHR 0x22 # doubled CHR 0x22 s @ [CHR 0x22]"
| "piece_text (Numeral d f) = d @ (case f of None \<Rightarrow> [] | Some e \<Rightarrow> CHR ''.'' # e)"

definition detail_text :: "piece list \<Rightarrow> string" where
  "detail_text ps = concat (map piece_text ps)"

fun blank_piece :: "piece \<Rightarrow> piece" where
  "blank_piece (Plain s) = Plain s"
| "blank_piece (TextLit s) = TextLit ''?''"
| "blank_piece (QuotedName s) = QuotedName ''?''"
| "blank_piece (Numeral d f) = Plain ''?''"

text \<open>Every digit of a text is inside a word, and whether the text ends in one.\<close>

fun no_number :: "bool \<Rightarrow> string \<Rightarrow> bool" where
  "no_number in_word [] \<longleftrightarrow> True"
| "no_number in_word (c # s) \<longleftrightarrow> (digit_char c \<longrightarrow> in_word) \<and> no_number (word_char c) s"

definition word_end :: "bool \<Rightarrow> string \<Rightarrow> bool" where
  "word_end in_word s = (if s = [] then in_word else word_char (last s))"

definition not_first :: "(char \<Rightarrow> bool) \<Rightarrow> string \<Rightarrow> bool" where
  "not_first P s \<longleftrightarrow> s = [] \<or> \<not> P (hd s)"

text \<open>
  The pieces are told apart by their text: plain text has no quotes and no numbers, a quoted name has no apostrophe, and two literals of a kind, or a
  number and a word, do not touch.
\<close>

fun told_apart :: "bool \<Rightarrow> piece list \<Rightarrow> bool" where
  "told_apart in_word [] \<longleftrightarrow> True"
| "told_apart in_word (Plain s # ps) \<longleftrightarrow>
     CHR 0x27 \<notin> set s \<and> CHR 0x22 \<notin> set s \<and> no_number in_word s \<and> told_apart (word_end in_word s) ps"
| "told_apart in_word (TextLit s # ps) \<longleftrightarrow> not_first (\<lambda>c. c = CHR 0x27) (detail_text ps) \<and> told_apart False ps"
| "told_apart in_word (QuotedName s # ps) \<longleftrightarrow>
     CHR 0x27 \<notin> set s \<and> not_first (\<lambda>c. c = CHR 0x22) (detail_text ps) \<and> told_apart False ps"
| "told_apart in_word (Numeral d f # ps) \<longleftrightarrow>
     \<not> in_word \<and> d \<noteq> [] \<and> list_all digit_char d \<and>
     (case f of None \<Rightarrow> not_first (\<lambda>c. c = CHR ''.'') (detail_text ps) | Some e \<Rightarrow> e \<noteq> [] \<and> list_all digit_char e) \<and>
     not_first word_char (detail_text ps) \<and> told_apart True ps"

lemma detail_text_simps [simp]: "detail_text [] = []" "detail_text (p # ps) = piece_text p @ detail_text ps"
  by (simp_all add: detail_text_def)

lemma close_doubled: "not_first (\<lambda>c. c = q) r \<Longrightarrow> close_quote q (doubled q s @ q # r) = Some r"
proof (induction s)
  case Nil
  then show ?case by (cases r) (auto simp: doubled_def not_first_def)
qed (auto simp: doubled_def)

lemma redact_quoted_plain: "q \<notin> set s \<Longrightarrow> redact_quoted q (s @ r) = s @ redact_quoted q r"
  by (induction s) auto

lemma redact_quoted_literal:
  "not_first (\<lambda>c. c = q) r \<Longrightarrow> redact_quoted q (q # doubled q s @ q # r) = [q, CHR ''?'', q] @ redact_quoted q r"
  by (simp add: close_doubled)

lemma digits_no_quote:
  assumes "list_all digit_char d"
  shows "CHR 0x27 \<notin> set d" "CHR 0x22 \<notin> set d" "CHR ''.'' \<notin> set d"
proof -
  have "\<not> digit_char CHR 0x27" "\<not> digit_char CHR 0x22" "\<not> digit_char CHR ''.''" by code_simp+
  then show "CHR 0x27 \<notin> set d" "CHR 0x22 \<notin> set d" "CHR ''.'' \<notin> set d" using assms by (auto simp: list_all_iff)
qed

lemma doubled_other: "q \<notin> set s \<Longrightarrow> q \<notin> set (doubled p s) \<or> q = p"
  by (auto simp: doubled_def)

text \<open>The first two passes.\<close>

fun blank_text :: "piece \<Rightarrow> piece" where
  "blank_text (TextLit s) = TextLit ''?''"
| "blank_text p = p"

fun blank_name :: "piece \<Rightarrow> piece" where
  "blank_name (TextLit s) = TextLit ''?''"
| "blank_name (QuotedName s) = QuotedName ''?''"
| "blank_name p = p"

lemma blank_first [simp]:
  "not_first P (detail_text (map blank_text ps)) = not_first P (detail_text ps)"
  "not_first P (detail_text (map blank_name ps)) = not_first P (detail_text ps)"
proof -
  have "not_first P (piece_text (blank_text p) @ u) \<longleftrightarrow> not_first P (piece_text p @ v)"
    "not_first P (piece_text (blank_name p) @ u) \<longleftrightarrow> not_first P (piece_text p @ v)" if "not_first P u = not_first P v" for p u v
    using that by (cases p; auto simp: not_first_def hd_append)+
  then show "not_first P (detail_text (map blank_text ps)) = not_first P (detail_text ps)"
    "not_first P (detail_text (map blank_name ps)) = not_first P (detail_text ps)"
    by (induction ps) simp_all
qed

lemma first_pass:
  "told_apart w ps \<Longrightarrow> redact_quoted CHR 0x27 (detail_text ps) = detail_text (map blank_text ps)"
proof (induction w ps rule: told_apart.induct)
  case (3 w s ps)
  then show ?case using redact_quoted_literal [of "CHR 0x27" "detail_text ps" s] by (simp add: doubled_def)
next
  case (4 w s ps)
  then have "CHR 0x27 \<notin> set (piece_text (QuotedName s))" using doubled_other [of "CHR 0x27" s "CHR 0x22"] by auto
  then show ?case using 4 redact_quoted_plain [of "CHR 0x27" "piece_text (QuotedName s)"] by simp
next
  case (5 w d f ps)
  then have "CHR 0x27 \<notin> set (piece_text (Numeral d f))" using digits_no_quote by (auto split: option.splits)
  then show ?case using 5 redact_quoted_plain [of "CHR 0x27" "piece_text (Numeral d f)"] by simp
qed (simp_all add: redact_quoted_plain)

lemma second_pass:
  "told_apart w ps \<Longrightarrow> redact_quoted CHR 0x22 (detail_text (map blank_text ps)) = detail_text (map blank_name ps)"
proof (induction w ps rule: told_apart.induct)
  case (3 w s ps)
  have "CHR 0x22 \<notin> set (piece_text (TextLit ''?''))" by (simp add: doubled_def)
  then show ?case using 3 redact_quoted_plain [of "CHR 0x22" "piece_text (TextLit ''?'')"] by simp
next
  case (4 w s ps)
  then show ?case using redact_quoted_literal [of "CHR 0x22" "detail_text (map blank_text ps)" s] by (simp add: doubled_def)
next
  case (5 w d f ps)
  then have "CHR 0x22 \<notin> set (piece_text (Numeral d f))" using digits_no_quote by (auto split: option.splits)
  then show ?case using 5 redact_quoted_plain [of "CHR 0x22" "piece_text (Numeral d f)"] by simp
qed (simp_all add: redact_quoted_plain)

lemma not_number_here: "\<not> digit_char c \<Longrightarrow> number_here (c # s) = None"
  by (simp add: number_here_def)

lemma redact_numbers_step: "w \<or> \<not> digit_char c \<Longrightarrow> redact_numbers w (c # s) = c # redact_numbers (word_char c) s"
  by (auto simp: not_number_here)

lemma redact_numbers_plain: "no_number w s \<Longrightarrow> redact_numbers w (s @ r) = s @ redact_numbers (word_end w s) r"
proof (induction w s rule: no_number.induct)
  case (2 w c s)
  then have "redact_numbers w ((c # s) @ r) = c # redact_numbers (word_char c) (s @ r)" by (auto simp: redact_numbers_step simp del: redact_numbers.simps)
  then show ?case using 2 by (simp add: word_end_def del: redact_numbers.simps)
qed (simp add: word_end_def)

lemma takeWhile_digits:
  assumes "list_all digit_char d" "not_first digit_char r"
  shows "takeWhile digit_char (d @ r) = d" "dropWhile digit_char (d @ r) = r"
  using assms by (induction d; cases r; simp add: not_first_def)+

lemma not_first_digit: "not_first word_char r \<Longrightarrow> not_first digit_char r \<and> \<not> word_starts r"
proof -
  have "digit_char c \<Longrightarrow> word_char c" for c by (simp add: word_char_def alpha_char_def)
  then show "not_first word_char r \<Longrightarrow> not_first digit_char r \<and> \<not> word_starts r"
    by (cases r) (auto simp: not_first_def word_starts_def)
qed

lemma numeral_here:
  assumes "d \<noteq> []" "list_all digit_char d" "not_first word_char r"
    "case f of None \<Rightarrow> not_first (\<lambda>c. c = CHR ''.'') r | Some e \<Rightarrow> e \<noteq> [] \<and> list_all digit_char e"
  shows "number_here (d @ (case f of None \<Rightarrow> [] | Some e \<Rightarrow> CHR ''.'' # e) @ r) = Some r"
proof (cases f)
  case None
  then have "fraction_end r = None" using assms(4) by (cases r) (auto simp: fraction_end_def not_first_def)
  then show ?thesis using assms(1-3) not_first_digit [OF assms(3)] by (simp add: None number_here_def takeWhile_digits)
next
  case (Some e)
  have dot: "not_first digit_char (CHR ''.'' # e @ r)" by (simp add: not_first_def) code_simp
  have "fraction_end (CHR ''.'' # e @ r) = Some r"
    using assms(3,4) not_first_digit [OF assms(3)] Some by (simp add: fraction_end_def takeWhile_digits)
  then show ?thesis using assms(1,2) takeWhile_digits [OF assms(2) dot] Some by (simp add: number_here_def)
qed

lemma redact_numbers_quoted:
  "q = CHR 0x27 \<or> q = CHR 0x22 \<Longrightarrow> redact_numbers w ([q, CHR ''?'', q] @ r) = [q, CHR ''?'', q] @ redact_numbers False r"
proof -
  have "\<not> digit_char CHR 0x27" "\<not> digit_char CHR 0x22" "\<not> digit_char CHR ''?''" "\<not> word_char CHR 0x27" "\<not> word_char CHR 0x22"
    by code_simp+
  then show "q = CHR 0x27 \<or> q = CHR 0x22 \<Longrightarrow> redact_numbers w ([q, CHR ''?'', q] @ r) = [q, CHR ''?'', q] @ redact_numbers False r"
    by (auto simp: redact_numbers_step simp del: redact_numbers.simps)
qed

lemma third_pass:
  "told_apart w ps \<Longrightarrow> redact_numbers w (detail_text (map blank_name ps)) = detail_text (map blank_piece ps)"
proof (induction w ps rule: told_apart.induct)
  case (2 w s ps)
  then show ?case by (simp add: redact_numbers_plain)
next
  case (3 w s ps)
  then show ?case using redact_numbers_quoted [of "CHR 0x27"] by (simp add: doubled_def)
next
  case (4 w s ps)
  then show ?case using redact_numbers_quoted [of "CHR 0x22"] by (simp add: doubled_def)
next
  case (5 w d f ps)
  let ?r = "detail_text (map blank_name ps)"
  have "number_here (d @ (case f of None \<Rightarrow> [] | Some e \<Rightarrow> CHR ''.'' # e) @ ?r) = Some ?r"
    by (rule numeral_here) (use 5 in \<open>auto split: option.splits\<close>)
  moreover obtain c d' where "d = c # d'" using 5 by (cases d) auto
  ultimately show ?case using 5 by simp
qed simp

lemma redactLiterals_blank:
  assumes "told_apart False ps"
  shows "redactLiterals (detail_text ps) = detail_text (map blank_piece ps)"
  using first_pass [OF assms] second_pass [OF assms] third_pass [OF assms] by (simp add: redactLiterals_def)

subsection \<open>The plan in a prompt\<close>

definition PLAN_MAX_NODES :: int where "PLAN_MAX_NODES = 60"
definition PLAN_MAX_DEPTH :: nat where "PLAN_MAX_DEPTH = 12"

fun plan_depth :: "plan_node \<Rightarrow> nat" where
  "plan_depth (PlanNode t d a b c e f cs) = foldr (\<lambda>m k. max (Suc (plan_depth m)) k) cs 0"

lemma foldr_max_le: "foldr (\<lambda>m k. max (f m) k) cs 0 \<le> (k :: nat) \<longleftrightarrow> (\<forall>m \<in> set cs. f m \<le> k)"
  by (induction cs) auto

lemma plan_depth_le: "plan_depth (PlanNode t d a b c e f cs) \<le> k \<longleftrightarrow> (\<forall>m \<in> set cs. Suc (plan_depth m) \<le> k)"
  by (simp add: foldr_max_le)

declare plan_depth.simps [simp del]

record plan_result =
  plRoot :: plan_node
  plAnalyze :: bool
  plFormat :: string
  plText :: string
  plTime :: js_val

text \<open>The walk carries the budget of nodes that is left.\<close>

fun plan_walk :: "nat \<Rightarrow> int \<Rightarrow> plan_node \<Rightarrow> plan_node \<times> int"
and plan_walks :: "nat \<Rightarrow> int \<Rightarrow> plan_node list \<Rightarrow> plan_node list \<times> int" where
  "plan_walk depth budget (PlanNode t d a b c e f cs) =
     (case (if depth < PLAN_MAX_DEPTH then plan_walks (Suc depth) (budget - 1) cs else ([], budget - 1)) of
        (out, left) \<Rightarrow> (PlanNode t (map_option redactLiterals d) a b c e None out, left))"
| "plan_walks depth budget [] = ([], budget)"
| "plan_walks depth budget (n # ns) =
     (if budget \<le> 0 then ([], budget)
      else case plan_walk depth budget n of (out, left) \<Rightarrow>
        (case plan_walks depth left ns of (outs, left') \<Rightarrow> (out # outs, left')))"

record sanitized_plan =
  spAnalyze :: bool
  spTime :: js_val
  spRoot :: plan_node

definition sanitizePlanForPrompt :: "plan_result \<Rightarrow> sanitized_plan" where
  "sanitizePlanForPrompt p = \<lparr>spAnalyze = plAnalyze p, spTime = plTime p, spRoot = fst (plan_walk 0 PLAN_MAX_NODES (plRoot p))\<rparr>"

fun redacted_node :: "plan_node \<Rightarrow> plan_node" where
  "redacted_node (PlanNode t d a b c e f cs) = PlanNode t (map_option redactLiterals d) a b c e None (map redacted_node cs)"

lemma walk_spends:
  "plan_walk depth budget n = (out, left) \<Longrightarrow> left = budget - int (plan_size out) \<and> (1 \<le> budget \<longrightarrow> 0 \<le> left)"
  "plan_walks depth budget ns = (outs, left) \<Longrightarrow> left = budget - int (sum_list (map plan_size outs)) \<and> (0 \<le> budget \<longrightarrow> 0 \<le> left)"
proof (induction depth budget n and depth budget ns arbitrary: out left and outs left rule: plan_walk_plan_walks.induct)
  case (1 depth budget t d a b c e f cs)
  then show ?case by (fastforce split: prod.splits if_splits)
next
  case (3 depth budget n ns)
  then show ?case by (fastforce split: prod.splits if_splits)
qed simp

lemma walk_depth:
  "plan_walk depth budget n = (out, left) \<Longrightarrow> depth \<le> PLAN_MAX_DEPTH \<Longrightarrow> depth + plan_depth out \<le> PLAN_MAX_DEPTH"
  "plan_walks depth budget ns = (outs, left) \<Longrightarrow> depth \<le> PLAN_MAX_DEPTH \<Longrightarrow> \<forall>m \<in> set outs. depth + plan_depth m \<le> PLAN_MAX_DEPTH"
proof (induction depth budget n and depth budget ns arbitrary: out left and outs left rule: plan_walk_plan_walks.induct)
  case (1 depth budget t d a b c e f cs)
  show ?case
  proof (cases "depth < PLAN_MAX_DEPTH")
    case True
    obtain out' left' where w: "plan_walks (Suc depth) (budget - 1) cs = (out', left')" by (cases "plan_walks (Suc depth) (budget - 1) cs")
    then have out: "out = PlanNode t (map_option redactLiterals d) a b c e None out'" using 1(2) True by simp
    have "Suc (plan_depth m) \<le> PLAN_MAX_DEPTH - depth" if "m \<in> set out'" for m using 1(1) [OF True w] True that by fastforce
    then have "plan_depth out \<le> PLAN_MAX_DEPTH - depth" by (simp add: out plan_depth_le)
    then show ?thesis using True by simp
  next
    case False
    then show ?thesis using 1 by (auto simp: plan_depth.simps)
  qed
next
  case (3 depth budget n ns)
  then show ?case by (fastforce split: prod.splits if_splits)
qed simp

lemma plan_size_pos: "1 \<le> plan_size n"
  by (cases n) simp

lemma walk_whole:
  "int (plan_size n) \<le> budget \<Longrightarrow> depth + plan_depth n \<le> PLAN_MAX_DEPTH \<Longrightarrow>
    plan_walk depth budget n = (redacted_node n, budget - int (plan_size n))"
  "int (sum_list (map plan_size ns)) \<le> budget \<Longrightarrow> \<forall>m \<in> set ns. depth + plan_depth m \<le> PLAN_MAX_DEPTH \<Longrightarrow>
    plan_walks depth budget ns = (map redacted_node ns, budget - int (sum_list (map plan_size ns)))"
proof (induction depth budget n and depth budget ns rule: plan_walk_plan_walks.induct)
  case (1 depth budget t d a b c e f cs)
  have "plan_depth (PlanNode t d a b c e f cs) \<le> PLAN_MAX_DEPTH - depth" using 1(3) by simp
  then have "\<forall>m \<in> set cs. Suc (plan_depth m) \<le> PLAN_MAX_DEPTH - depth" unfolding plan_depth_le .
  then have "cs \<noteq> [] \<Longrightarrow> depth < PLAN_MAX_DEPTH" "\<forall>m \<in> set cs. Suc depth + plan_depth m \<le> PLAN_MAX_DEPTH" by (cases cs; fastforce)+
  then show ?case using 1(1,2) by (cases "cs = []") simp_all
next
  case (3 depth budget n ns)
  then show ?case using plan_size_pos [of n] by simp
qed simp

text \<open>
  The plan in a prompt is bounded and says nothing wrong: it never has more than 60 nodes or 12 levels below its root, and a plan
  within these bounds is there as a whole, node by node, with its literals redacted and its extra fields left out.
\<close>

theorem plan_prompt_bounded:
  "plan_size (spRoot (sanitizePlanForPrompt p)) \<le> 60 \<and> plan_depth (spRoot (sanitizePlanForPrompt p)) \<le> 12 \<and>
   (plan_size (plRoot p) \<le> 60 \<and> plan_depth (plRoot p) \<le> 12 \<longrightarrow> spRoot (sanitizePlanForPrompt p) = redacted_node (plRoot p))"
proof -
  obtain out left where w: "plan_walk 0 PLAN_MAX_NODES (plRoot p) = (out, left)" by (cases "plan_walk 0 PLAN_MAX_NODES (plRoot p)")
  have "plan_size out \<le> 60" using walk_spends(1) [OF w] by (simp add: PLAN_MAX_NODES_def)
  moreover have "plan_depth out \<le> 12" using walk_depth(1) [OF w] by (simp add: PLAN_MAX_DEPTH_def)
  moreover have "out = redacted_node (plRoot p)" if "plan_size (plRoot p) \<le> 60" "plan_depth (plRoot p) \<le> 12"
    using walk_whole(1) [of "plRoot p" PLAN_MAX_NODES 0] that w by (simp add: PLAN_MAX_NODES_def PLAN_MAX_DEPTH_def)
  ultimately show ?thesis using w by (simp add: sanitizePlanForPrompt_def)
qed

definition demo_plan :: plan_result where
  "demo_plan =
     \<lparr>plRoot = PlanNode ''Limit'' None None None None None None
        [PlanNode ''Seq Scan'' (Some ''(email = 'a@b.com'::text)'') (Some (JNum 12)) (Some (JNum 1)) None None (Some [(''Rows'', JNum 7)]) []],
      plAnalyze = False, plFormat = ''json'', plText = ''Filter: (email = 'a@b.com'::text)'', plTime = JNum 3\<rparr>"

lemma plan_prompt_bounded_witness:
  "spRoot (sanitizePlanForPrompt demo_plan) = redacted_node (plRoot demo_plan)"
proof -
  have "plan_size (plRoot demo_plan) \<le> 60" "plan_depth (plRoot demo_plan) \<le> 12"
    by (simp_all add: demo_plan_def plan_depth.simps)
  then show ?thesis using plan_prompt_bounded [of demo_plan] by blast
qed

text \<open>Two details that differ in their literals only, and two plans that differ in such details, in their texts and in the extra fields.\<close>

definition details_alike :: "string option \<Rightarrow> string option \<Rightarrow> bool" where
  "details_alike d d' \<longleftrightarrow> d = d' \<or>
     (\<exists>ps ps'. d = Some (detail_text ps) \<and> d' = Some (detail_text ps') \<and> told_apart False ps \<and> told_apart False ps' \<and>
        map blank_piece ps = map blank_piece ps')"

inductive plans_alike :: "plan_node \<Rightarrow> plan_node \<Rightarrow> bool" where
  "details_alike d d' \<Longrightarrow> list_all2 plans_alike cs cs' \<Longrightarrow>
    plans_alike (PlanNode t d a b c e f cs) (PlanNode t d' a b c e f' cs')"

inductive_simps plans_alike_simps: "plans_alike (PlanNode t d a b c e f cs) n"

lemma alike_redacted: "details_alike d d' \<Longrightarrow> map_option redactLiterals d = map_option redactLiterals d'"
  by (auto simp: details_alike_def redactLiterals_blank)

lemma alike_walk:
  "plans_alike n n' \<Longrightarrow> plan_walk depth budget n = plan_walk depth budget n'"
  "list_all2 plans_alike ns ns' \<Longrightarrow> plan_walks depth budget ns = plan_walks depth budget ns'"
proof (induction depth budget n and depth budget ns arbitrary: n' and ns' rule: plan_walk_plan_walks.induct)
  case (1 depth budget t d a b c e f cs)
  then obtain d' f' cs' where n': "n' = PlanNode t d' a b c e f' cs'" "details_alike d d'" "list_all2 plans_alike cs cs'"
    by (auto simp: plans_alike_simps)
  then show ?case using 1(1) [OF _ n'(3)] alike_redacted [OF n'(2)] by (simp split: prod.split)
next
  case (3 depth budget n ns)
  then obtain m ms where "ns' = m # ms" "plans_alike n m" "list_all2 plans_alike ns ms" by (auto simp: list_all2_Cons1)
  then show ?case using 3(1,2) by (cases "budget \<le> 0") (auto split: prod.split)
qed simp

text \<open>
  C10. What a plan says in literals does not reach the model, wherever the patterns of the redaction tell the literals apart: two plans that differ
  only in their raw text, in the extra fields and in the string literals, quoted names and numbers inside the details are the same plan in the
  prompt, when in each pair of differing details the text between the literals holds no quote and no digit that starts a number, no quoted name
  holds an apostrophe, and neighbouring literals do not touch (\<open>told_apart\<close>). Without that condition a value can pass, see
  \<open>apostrophe_leaks_literal\<close> and \<open>exponent_leaks_number\<close>.
\<close>

theorem plan_values_hidden:
  assumes "plans_alike (plRoot p) (plRoot p')" "plAnalyze p = plAnalyze p'" "plTime p = plTime p'"
  shows "sanitizePlanForPrompt p = sanitizePlanForPrompt p'"
  using alike_walk(1) [OF assms(1)] assms(2,3) by (simp add: sanitizePlanForPrompt_def)

lemma demo_details: "details_alike (Some ''(email = 'a@b.com'::text)'') (Some ''(email = 'eve'::text)'')"
proof -
  let ?ps = "\<lambda>s. [Plain ''(email = '', TextLit s, Plain ''::text)'']"
  have "told_apart False (?ps ''a@b.com'') \<and> told_apart False (?ps ''eve'')" by code_simp
  moreover have "detail_text (?ps ''a@b.com'') = ''(email = 'a@b.com'::text)'' \<and> detail_text (?ps ''eve'') = ''(email = 'eve'::text)''" by code_simp
  moreover have "map blank_piece (?ps ''a@b.com'') = map blank_piece (?ps ''eve'')" by simp
  ultimately show ?thesis unfolding details_alike_def by metis
qed

lemma plan_values_hidden_witness:
  "sanitizePlanForPrompt demo_plan =
   sanitizePlanForPrompt (demo_plan\<lparr>plRoot := PlanNode ''Limit'' None None None None None None
      [PlanNode ''Seq Scan'' (Some ''(email = 'eve'::text)'') (Some (JNum 12)) (Some (JNum 1)) None None None []], plText := []\<rparr>)"
proof (rule plan_values_hidden)
  show "plans_alike (plRoot demo_plan) (plRoot (demo_plan\<lparr>plRoot := PlanNode ''Limit'' None None None None None None
      [PlanNode ''Seq Scan'' (Some ''(email = 'eve'::text)'') (Some (JNum 12)) (Some (JNum 1)) None None None []], plText := []\<rparr>))"
    using demo_details by (simp add: demo_plan_def plans_alike_simps) (simp add: details_alike_def)
qed (simp_all add: demo_plan_def)

text \<open>An apostrophe in a quoted name shifts the quotes, and the literal after it is not redacted; nor is a number with an exponent.\<close>

lemma apostrophe_leaks_literal:
  "redactLiterals ([CHR 0x22] @ ''o'k'' @ [CHR 0x22] @ '' = 'secret'' @ [CHR 0x27]) = [CHR 0x22] @ ''o'?'secret'' @ [CHR 0x27]"
  by code_simp

lemma exponent_leaks_number: "redactLiterals ''(v > 1e5)'' = ''(v > 1e5)''"
  by code_simp

subsection \<open>The drafted comment\<close>

definition MAX_COMMENT_CHARS :: nat where "MAX_COMMENT_CHARS = 200"

definition backtick :: char where "backtick = CHR 0x60"

definition is_quote :: "char \<Rightarrow> bool" where
  "is_quote c \<longleftrightarrow> c = CHR 0x22 \<or> c = CHR 0x27 \<or> c = backtick"

definition unfenced :: "string \<Rightarrow> string" where
  "unfenced s =
     (let fence = replicate 3 backtick;
          opened = (if starts_with fence s then dropWhile js_space (dropWhile alpha_char (drop 3 s)) else s)
      in if starts_with fence (rev opened) then trim_end (take (length opened - 3) opened) else opened)"

definition unquoted :: "string \<Rightarrow> string" where
  "unquoted s =
     (let first = (if s \<noteq> [] \<and> is_quote (hd s) then tl s else s)
      in if first \<noteq> [] \<and> is_quote (last first) then butlast first else first)"

definition normalizeDraftedComment :: "string \<Rightarrow> string" where
  "normalizeDraftedComment content =
     (let draft = js_trim (unquoted (unfenced (collapse_spaces (js_trim content))))
      in if length draft > MAX_COMMENT_CHARS then trim_end (take (MAX_COMMENT_CHARS - 1) draft) @ ellipsis else draft)"

subsection \<open>What is read from a reply\<close>

text \<open>The greedy match of a bracket, anything, and the closing bracket.\<close>

definition bracketed :: "char \<Rightarrow> char \<Rightarrow> string \<Rightarrow> string option" where
  "bracketed a z s =
     (let t = dropWhile (\<lambda>c. c \<noteq> a) s; u = rev (dropWhile (\<lambda>c. c \<noteq> z) (rev (tl t)))
      in if t = [] \<or> u = [] then None else Some (a # u))"

definition reply_json :: "char \<Rightarrow> char \<Rightarrow> string \<Rightarrow> js_val option" where
  "reply_json a z content = (case bracketed a z content of None \<Rightarrow> None | Some t \<Rightarrow> json_parse t)"

definition CHART_TYPES :: "string list" where "CHART_TYPES = [''bar'', ''line'', ''pie'']"
definition CHART_AGGREGATIONS :: "string list" where "CHART_AGGREGATIONS = [''none'', ''count'', ''sum'', ''avg'', ''min'', ''max'']"

record chart_suggestion =
  csType :: string
  csCategoryColumn :: string
  csValueColumn :: string
  csAggregation :: string

definition parseChartSuggestion :: "string \<Rightarrow> string list \<Rightarrow> chart_suggestion option" where
  "parseChartSuggestion content columns =
     (case reply_json CHR ''{'' CHR ''}'' content of
        None \<Rightarrow> None
      | Some parsed \<Rightarrow>
          (let fs = own_props parsed in
           case (text_or_none (get_prop fs ''type''), text_or_none (get_prop fs ''categoryColumn''), text_or_none (get_prop fs ''valueColumn'')) of
             (Some t, Some c, Some v) \<Rightarrow>
               (if t \<in> set CHART_TYPES \<and> c \<in> set columns \<and> v \<in> set columns
                then Some \<lparr>csType = t, csCategoryColumn = c, csValueColumn = v,
                  csAggregation = (case text_or_none (get_prop fs ''aggregation'') of
                      Some a \<Rightarrow> if a \<in> set CHART_AGGREGATIONS then a else ''sum'' | None \<Rightarrow> ''sum'')\<rparr>
                else None)
           | _ \<Rightarrow> None))"

definition MAX_SCHEMA_SUGGESTIONS :: nat where "MAX_SCHEMA_SUGGESTIONS = 3"
definition MAX_RATIONALE_CHARS :: nat where "MAX_RATIONALE_CHARS = 400"

definition SUGGESTABLE_ALTER_OPS :: "string list" where
  "SUGGESTABLE_ALTER_OPS = [''addColumn'', ''setNotNull'', ''setDefault'', ''changeType'']"

text \<open>A change the model proposed: the request of an index, or an operation on a table as the reply spells it.\<close>

datatype suggested_change =
    SuggestIndex create_index_request
  | SuggestAlter string string row

datatype suggest_scope = WholeSchema | IndexesOnly

definition string_items :: "js_val \<Rightarrow> string list option" where
  "string_items v = (case v of JArr vs \<Rightarrow> opt_map text_or_none vs | _ \<Rightarrow> None)"

definition validateChange :: "js_val \<Rightarrow> suggested_change option" where
  "validateChange change =
     (let kind = get_prop (own_props change) ''kind''; r = own_props (get_prop (own_props change) ''request'') in
      case (text_or_none (get_prop r ''schema''), text_or_none (get_prop r ''table'')) of
        (Some schema, Some table) \<Rightarrow>
          (if kind = JStr ''createIndex'' then
             (case string_items (get_prop r ''columns'') of
                None \<Rightarrow> None
              | Some columns \<Rightarrow>
                  if columns = [] then None
                  else Some (SuggestIndex \<lparr>ciSchema = schema, ciTable = table,
                    ciName = (case text_or_none (get_prop r ''name'') of Some n \<Rightarrow> if n = [] then None else Some n | None \<Rightarrow> None),
                    ciColumns = columns, ciUnique = (get_prop r ''unique'' = JBool True),
                    ciMethod = text_or_none (get_prop r ''method'')\<rparr>))
           else if kind = JStr ''alterTable'' then
             (let op = own_props (get_prop r ''operation'') in
              case text_or_none (get_prop op ''kind'') of
                Some opKind \<Rightarrow> if opKind \<in> set SUGGESTABLE_ALTER_OPS then Some (SuggestAlter schema table op) else None
              | None \<Rightarrow> None)
           else None)
      | _ \<Rightarrow> None)"

text \<open>The items are taken until three have been.\<close>

definition suggestion_of :: "suggest_scope \<Rightarrow> js_val \<Rightarrow> (suggested_change \<times> string) option" where
  "suggestion_of scope item =
     (case text_or_none (get_prop (own_props item) ''rationale'') of
        None \<Rightarrow> None
      | Some rationale \<Rightarrow>
          if js_trim rationale = [] then None
          else (case validateChange (get_prop (own_props item) ''change'') of
              None \<Rightarrow> None
            | Some v \<Rightarrow>
                if scope = IndexesOnly \<and> (case v of SuggestIndex _ \<Rightarrow> False | SuggestAlter _ _ _ \<Rightarrow> True) then None
                else Some (v, take MAX_RATIONALE_CHARS (js_trim rationale))))"

fun collect_suggestions :: "suggest_scope \<Rightarrow> (suggested_change \<times> string) list \<Rightarrow> js_val list \<Rightarrow> (suggested_change \<times> string) list" where
  "collect_suggestions scope out [] = out"
| "collect_suggestions scope out (item # items) =
     (if length out \<ge> MAX_SCHEMA_SUGGESTIONS then out
      else (case suggestion_of scope item of
          None \<Rightarrow> collect_suggestions scope out items
        | Some s \<Rightarrow> collect_suggestions scope (out @ [s]) items))"

definition parseSchemaSuggestions :: "string \<Rightarrow> suggest_scope \<Rightarrow> (suggested_change \<times> string) list" where
  "parseSchemaSuggestions content scope =
     (case reply_json CHR ''['' CHR '']'' content of Some (JArr items) \<Rightarrow> collect_suggestions scope [] items | _ \<Rightarrow> [])"

end
