(* ===== verification/Dialect.thy ===== *)
theory Dialect
  imports SqlTypes
begin

text \<open>
  What the three drivers supply to the engine-neutral code: identifier quoting, placeholders and
  the \<open>whereDialect\<close> (\<open>drivers/*/*-sql.ts\<close>, \<open>drivers/*/*-driver.ts\<close>, \<open>database/types.ts\<close>), and the locale
  \<open>where_compiler\<close> that states what the filter compiler relies on, interpreted on the three of them.
\<close>

subsection \<open>Quoting and placeholders\<close>

definition mysqlQuoteIdent :: "string \<Rightarrow> string res" where
  "mysqlQuoteIdent identifier =
     (if length identifier = 0 then Inl (PlainError ''Identifier must not be empty'')
      else if str_includes [CHR 0x00] identifier
           then Inl (PlainError ''Identifier must not contain null bytes'')
      else Inr (CHR ''`'' # replace_char CHR ''`'' ''``'' identifier @ ''`''))"

definition pgPlaceholder :: "nat \<Rightarrow> string" where
  "pgPlaceholder index = CHR ''$'' # show_nat index"

definition mysqlPlaceholder :: "nat \<Rightarrow> string" where
  "mysqlPlaceholder index = ''?''"

definition sqlitePlaceholder :: "nat \<Rightarrow> string" where
  "sqlitePlaceholder index = ''?''"

definition engine_quote :: "engine \<Rightarrow> string \<Rightarrow> string res" where
  "engine_quote e = (case e of Pg \<Rightarrow> quoteIdent | Mysql \<Rightarrow> mysqlQuoteIdent | Sqlite \<Rightarrow> quoteIdent)"

definition engine_placeholder :: "engine \<Rightarrow> nat \<Rightarrow> string" where
  "engine_placeholder e = (case e of Pg \<Rightarrow> pgPlaceholder | Mysql \<Rightarrow> mysqlPlaceholder | Sqlite \<Rightarrow> sqlitePlaceholder)"

definition param_index :: "engine \<Rightarrow> nat \<Rightarrow> nat" where
  "param_index e i = (if e = Pg then i else 0)"

definition param_token :: "engine \<Rightarrow> nat \<Rightarrow> token" where
  "param_token e i = TParam (param_index e i)"

text \<open>What may follow a quoted identifier, and what may follow a placeholder.\<close>

definition ends_ident :: "engine \<Rightarrow> string \<Rightarrow> bool" where
  "ends_ident e r \<longleftrightarrow> r = [] \<or> hd r \<noteq> ident_quote e"

definition ends_param :: "string \<Rightarrow> bool" where
  "ends_param r \<longleftrightarrow> r = [] \<or> \<not> digit_char (hd r)"

definition read_backquoted :: "string \<Rightarrow> (string \<times> string) option" where
  "read_backquoted s = (case s of [] \<Rightarrow> None | c # t \<Rightarrow> if c = CHR ''`'' then read_quoted CHR ''`'' t else None)"

definition not_backquote :: "string \<Rightarrow> bool" where
  "not_backquote r \<longleftrightarrow> r = [] \<or> hd r \<noteq> CHR ''`''"

lemma mysqlQuoteIdent_Inr:
  "mysqlQuoteIdent s = Inr t \<longleftrightarrow>
     s \<noteq> [] \<and> CHR 0x00 \<notin> set s \<and> t = CHR ''`'' # replace_char CHR ''`'' ''``'' s @ ''`''"
  by (auto simp: mysqlQuoteIdent_def includes_single)

interpretation backquote: quoting mysqlQuoteIdent read_backquoted not_backquote
proof unfold_locales
  fix s t rest
  assume "mysqlQuoteIdent s = Inr t" "not_backquote rest"
  then show "read_backquoted (t @ rest) = Some (s, rest)"
    by (simp add: mysqlQuoteIdent_Inr read_backquoted_def not_backquote_def read_quoted_double)
qed (simp add: not_backquote_def)

lemma lex_engine_quote:
  assumes "engine_quote e s = Inr t" "ends_ident e r"
  shows "lex e (t @ r) = TIdent s # lex e r"
proof (cases "e = Mysql")
  case True
  with assms have t: "t @ r = CHR ''`'' # replace_char CHR ''`'' ''``'' s @ CHR ''`'' # r"
    by (simp add: engine_quote_def mysqlQuoteIdent_Inr)
  have "read_quoted CHR ''`'' (replace_char CHR ''`'' ''``'' s @ CHR ''`'' # r) = Some (s, r)"
    using assms(2) True by (intro read_quoted_double) (simp add: ends_ident_def ident_quote_def)
  then show ?thesis unfolding t using lex_ident [of e] True by (simp add: ident_quote_def)
next
  case False
  with assms(1) have q: "quoteIdent s = Inr t" by (cases e) (simp_all add: engine_quote_def)
  have "not_dquote r" using assms(2) False by (simp add: ends_ident_def ident_quote_def not_dquote_def dquote_def)
  from lex_quoteIdent [OF q False this] show ?thesis .
qed

lemma engine_quote_ok: "(\<exists>t. engine_quote e s = Inr t) \<longleftrightarrow> s \<noteq> [] \<and> CHR 0x00 \<notin> set s"
  by (cases e) (simp_all add: engine_quote_def quoteIdent_Inr mysqlQuoteIdent_Inr)

lemma lex_placeholder:
  "ends_param r \<Longrightarrow> lex e (engine_placeholder e i @ r) = param_token e i # lex e r"
  using lex_pg_param [of r i] lex_mark_param [of e r]
  by (cases e) (simp_all add: engine_placeholder_def pgPlaceholder_def mysqlPlaceholder_def
      sqlitePlaceholder_def param_token_def param_index_def ends_param_def)

lemma ends_ident_Cons [simp]: "ends_ident e (c # r) \<longleftrightarrow> c \<noteq> ident_quote e"
  by (simp add: ends_ident_def)

lemma ends_ident_Nil [simp]: "ends_ident e []"
  by (simp add: ends_ident_def)

lemma ends_param_Cons [simp]: "ends_param (c # r) \<longleftrightarrow> \<not> digit_char c"
  by (simp add: ends_param_def)

lemma ends_param_Nil [simp]: "ends_param []"
  by (simp add: ends_param_def)

lemma ident_quote_simps [simp]:
  "CHR '' '' \<noteq> ident_quote e" "CHR ''.'' \<noteq> ident_quote e" "CHR '','' \<noteq> ident_quote e"
  "CHR '')'' \<noteq> ident_quote e" "CHR ''('' \<noteq> ident_quote e"
  by (simp_all add: ident_quote_def)

lemma digit_char_simps [simp]:
  "\<not> digit_char (CHR '' '')" "\<not> digit_char (CHR '','')" "\<not> digit_char (CHR '')'')"
  by (simp_all add: digit_char_def)

lemma lex_plain_only: "list_all plain_char p \<Longrightarrow> lex e p = map TChar p"
  using lex_plain [of p e "[]"] by simp

subsection \<open>The membership tests\<close>

definition pgInList :: "string \<Rightarrow> js_val list \<Rightarrow> bool \<Rightarrow> nat \<Rightarrow> string \<times> js_val list" where
  "pgInList column values negated firstIndex =
     (column @ '' '' @ (if negated then ''<> ALL'' else ''= ANY'') @ ''('' @ pgPlaceholder firstIndex @ '')'',
      [JArr values])"

definition mysqlInList :: "string \<Rightarrow> js_val list \<Rightarrow> bool \<Rightarrow> nat \<Rightarrow> string \<times> js_val list" where
  "mysqlInList column values negated firstIndex =
     (if values = [] then (if negated then ''1=1'' else ''1=0'', [])
      else (column @ '' '' @ (if negated then ''NOT IN'' else ''IN'') @ '' ('' @ join '', '' (map (\<lambda>v. ''?'') values) @ '')'',
            values))"

definition sqliteInList :: "string \<Rightarrow> js_val list \<Rightarrow> bool \<Rightarrow> nat \<Rightarrow> string \<times> js_val list" where
  "sqliteInList column values negated firstIndex =
     (if values = [] then (if negated then ''1=1'' else ''1=0'', [])
      else (column @ '' '' @ (if negated then ''NOT IN'' else ''IN'') @ '' (''
              @ join '', '' (map (\<lambda>i. sqlitePlaceholder (firstIndex + i)) [0 ..< length values]) @ '')'',
            values))"

definition pg_whereDialect :: where_dialect where
  "pg_whereDialect = \<lparr>wdPlaceholder = pgPlaceholder, wdQuoteIdent = quoteIdent, likeOperator = ''ILIKE'',
     inList = pgInList\<rparr>"

definition mysql_whereDialect :: where_dialect where
  "mysql_whereDialect = \<lparr>wdPlaceholder = mysqlPlaceholder, wdQuoteIdent = mysqlQuoteIdent,
     likeOperator = ''LIKE'', inList = mysqlInList\<rparr>"

definition sqlite_whereDialect :: where_dialect where
  "sqlite_whereDialect = \<lparr>wdPlaceholder = sqlitePlaceholder, wdQuoteIdent = quoteIdent,
     likeOperator = ''LIKE'', inList = sqliteInList\<rparr>"

definition engine_whereDialect :: "engine \<Rightarrow> where_dialect" where
  "engine_whereDialect e =
     (case e of Pg \<Rightarrow> pg_whereDialect | Mysql \<Rightarrow> mysql_whereDialect | Sqlite \<Rightarrow> sqlite_whereDialect)"

text \<open>The membership test the engine should read, for a column and a number of values.\<close>

definition in_tokens :: "engine \<Rightarrow> string \<Rightarrow> nat \<Rightarrow> bool \<Rightarrow> nat \<Rightarrow> token list" where
  "in_tokens e c n negated i =
     (if e = Pg then TIdent c # map TChar (if negated then '' <> ALL('' else '' = ANY('') @ [TParam i] @ [TChar (CHR '')'')]
      else if n = 0 then map TChar (if negated then ''1=1'' else ''1=0'')
      else TIdent c # map TChar (if negated then '' NOT IN ('' else '' IN ('')
             @ concat (replicate (n - 1) (TParam 0 # map TChar '', '')) @ [TParam 0] @ [TChar (CHR '')'')])"

text \<open>The values the test binds.\<close>

definition in_params :: "engine \<Rightarrow> js_val list \<Rightarrow> js_val list" where
  "in_params e vs = (if e = Pg then [JArr vs] else vs)"

lemma lex_marks:
  "e \<noteq> Pg \<Longrightarrow> n > 0 \<Longrightarrow>
   lex e (join '', '' (replicate n ''?'') @ r) = concat (replicate (n - 1) (TParam 0 # map TChar '', '')) @ TParam 0 # lex e r"
proof (induction n)
  case 0
  then show ?case by simp
next
  case (Suc n)
  show ?case
  proof (cases n)
    case 0
    with Suc show ?thesis by (simp add: lex_mark_param)
  next
    case (Suc m)
    then have "lex e (join '', '' (replicate (Suc n) ''?'') @ r)
        = TParam 0 # lex e ('', '' @ join '', '' (replicate n ''?'') @ r)"
      using \<open>e \<noteq> Pg\<close> by (simp add: lex_mark_param)
    also have "lex e ('', '' @ join '', '' (replicate n ''?'') @ r)
        = map TChar '', '' @ lex e (join '', '' (replicate n ''?'') @ r)"
      by (rule lex_plain) (simp add: plain_char_def)
    finally show ?thesis using Suc Suc.IH \<open>e \<noteq> Pg\<close> by simp
  qed
qed

subsection \<open>The interface of the filter compiler\<close>

locale where_compiler =
  fixes e :: engine
    and d :: where_dialect
    and intoks :: "string \<Rightarrow> nat \<Rightarrow> bool \<Rightarrow> nat \<Rightarrow> token list"
    and inparams :: "js_val list \<Rightarrow> js_val list"
  assumes quote_law: "wdQuoteIdent d s = Inr t \<Longrightarrow> ends_ident e r \<Longrightarrow> lex e (t @ r) = TIdent s # lex e r"
    and placeholder_law: "ends_param r \<Longrightarrow> lex e (wdPlaceholder d i @ r) = param_token e i # lex e r"
    and like_plain: "list_all plain_char (likeOperator d)"
    and in_law: "wdQuoteIdent d c = Inr t \<Longrightarrow>
      lex e (fst (inList d t vs negated i) @ r) = intoks c (length vs) negated i @ lex e r
      \<and> snd (inList d t vs negated i) = inparams vs"
begin

text \<open>A comparison: the column, an operator of plain characters, the placeholder.\<close>

lemma lex_comparison:
  assumes "wdQuoteIdent d c = Inr t" "list_all plain_char op" "op \<noteq> []" "hd op \<noteq> ident_quote e" "ends_param r"
  shows "lex e (t @ op @ wdPlaceholder d i @ r) = TIdent c # map TChar op @ param_token e i # lex e r"
proof -
  have "ends_ident e (op @ x)" for x using assms(3,4) by (simp add: ends_ident_def)
  then show ?thesis
    using quote_law [OF assms(1)] lex_plain [OF assms(2)] placeholder_law [OF assms(5)] by simp
qed

text \<open>A test without a value: the column and plain characters.\<close>

lemma lex_null_test:
  assumes "wdQuoteIdent d c = Inr t" "list_all plain_char op" "op \<noteq> []" "hd op \<noteq> ident_quote e"
  shows "lex e (t @ op @ r) = TIdent c # map TChar op @ lex e r"
proof -
  have "ends_ident e (op @ r)" using assms(3,4) by (simp add: ends_ident_def)
  then show ?thesis using quote_law [OF assms(1)] lex_plain [OF assms(2)] by simp
qed

end

lemma like_operator_plain: "list_all plain_char (likeOperator (engine_whereDialect e))"
  by (cases e) (simp_all add: engine_whereDialect_def pg_whereDialect_def mysql_whereDialect_def
      sqlite_whereDialect_def plain_char_def)

lemma engine_dialect_quote: "wdQuoteIdent (engine_whereDialect e) = engine_quote e"
  by (cases e) (simp_all add: engine_whereDialect_def pg_whereDialect_def mysql_whereDialect_def
      sqlite_whereDialect_def engine_quote_def)

lemma engine_dialect_placeholder: "wdPlaceholder (engine_whereDialect e) = engine_placeholder e"
  by (cases e) (simp_all add: engine_whereDialect_def pg_whereDialect_def mysql_whereDialect_def
      sqlite_whereDialect_def engine_placeholder_def)

lemma mark_list_lex:
  assumes "e \<noteq> Pg" "engine_quote e c = Inr t" "n > 0"
  shows "lex e (t @ (if negated then '' NOT IN ('' else '' IN ('') @ join '', '' (replicate n ''?'') @ '')'' @ r)
    = in_tokens e c n negated i @ lex e r"
proof -
  let ?op = "if negated then '' NOT IN ('' else '' IN (''"
  let ?rest = "join '', '' (replicate n ''?'') @ '')'' @ r"
  have p: "list_all plain_char ?op" by (simp add: plain_char_def)
  have "lex e (t @ ?op @ ?rest) = TIdent c # lex e (?op @ ?rest)"
    by (rule lex_engine_quote [OF assms(2)]) simp
  also have "lex e (?op @ ?rest) = map TChar ?op @ lex e ?rest" by (rule lex_plain [OF p])
  also have "lex e ?rest = concat (replicate (n - 1) (TParam 0 # map TChar '', '')) @ TParam 0 # lex e ('')'' @ r)"
    by (rule lex_marks) (use assms in simp_all)
  also have "lex e ('')'' @ r) = TChar (CHR '')'') # lex e r"
    using lex_plain [of "'')''" e r] by (simp add: plain_char_def)
  finally show ?thesis using assms by (simp add: in_tokens_def)
qed

lemma engine_in_law:
  assumes "engine_quote e c = Inr t"
  shows "lex e (fst (inList (engine_whereDialect e) t vs negated i) @ r) = in_tokens e c (length vs) negated i @ lex e r
    \<and> snd (inList (engine_whereDialect e) t vs negated i) = in_params e vs"
proof (cases e)
  case Pg
  let ?op = "if negated then '' <> ALL('' else '' = ANY(''"
  have p: "list_all plain_char ?op" by (simp add: plain_char_def)
  have "lex Pg (t @ ?op @ pgPlaceholder i @ '')'' @ r) = TIdent c # lex Pg (?op @ pgPlaceholder i @ '')'' @ r)"
    using assms Pg lex_engine_quote [of Pg c t] by simp
  also have "\<dots> = TIdent c # map TChar ?op @ lex Pg (pgPlaceholder i @ '')'' @ r)"
    using lex_plain [OF p] by simp
  also have "lex Pg (pgPlaceholder i @ '')'' @ r) = TParam i # TChar (CHR '')'') # lex Pg r"
    using lex_pg_param [of "'')'' @ r" i] lex_plain [of "'')''" Pg r]
    by (simp add: pgPlaceholder_def plain_char_def)
  finally show ?thesis using Pg
    by (auto simp: engine_whereDialect_def pg_whereDialect_def pgInList_def in_tokens_def in_params_def)
next
  case Mysql
  have "map (\<lambda>v. ''?'') vs = replicate (length vs) ''?''" by (simp add: map_replicate_const)
  with Mysql show ?thesis
    using mark_list_lex [of e c t "length vs" negated] assms lex_plain [of "''1=0''" e r] lex_plain [of "''1=1''" e r]
    by (auto simp: engine_whereDialect_def mysql_whereDialect_def mysqlInList_def in_tokens_def
        in_params_def plain_char_def)
next
  case Sqlite
  have "map (\<lambda>j. sqlitePlaceholder (i + j)) [0 ..< length vs] = replicate (length vs) ''?''"
    by (simp add: sqlitePlaceholder_def map_replicate_const)
  with Sqlite show ?thesis
    using mark_list_lex [of e c t "length vs" negated] assms lex_plain [of "''1=0''" e r] lex_plain [of "''1=1''" e r]
    by (auto simp: engine_whereDialect_def sqlite_whereDialect_def sqliteInList_def in_tokens_def
        in_params_def plain_char_def)
qed

interpretation dialect: where_compiler e "engine_whereDialect e" "in_tokens e" "in_params e" for e
  by unfold_locales
     (simp_all add: engine_dialect_quote engine_dialect_placeholder lex_engine_quote lex_placeholder
       like_operator_plain engine_in_law)

end
