(* ===== verification/SqlTemplate.thy ===== *)
theory SqlTemplate
  imports Dialect
begin

text \<open>
  The template literals the SQL builders are made of. A template is the list of its pieces: fixed text,
  a substitution of a quoted identifier, of a placeholder, or of a text another function compiled.
  \<open>render\<close> is what evaluating the literal gives: the concatenation, or the exception of a quoting function
  that refuses its identifier. (Where a template holds several refused identifiers the code throws for the
  one it evaluates first, the model for the leftmost; both are a \<open>PlainError\<close>.) \<open>lex_render\<close> says how the
  engine reads the result, whatever the identifiers hold.
\<close>

named_theorems template_simps \<open>facts on templates\<close>

datatype piece = Txt string | Ident string | Param nat | Raw string

definition piece_text :: "engine \<Rightarrow> piece \<Rightarrow> string res" where
  "piece_text e p =
     (case p of Txt s \<Rightarrow> Inr s | Ident s \<Rightarrow> engine_quote e s | Param i \<Rightarrow> Inr (engine_placeholder e i) | Raw s \<Rightarrow> Inr s)"

definition render :: "engine \<Rightarrow> piece list \<Rightarrow> string res" where
  "render e ps = res_map concat (traverse (piece_text e) ps)"

text \<open>\<open>xs.join(sep)\<close> of rendered parts.\<close>

fun sep_by :: "string \<Rightarrow> piece list list \<Rightarrow> piece list" where
  "sep_by sep [] = []"
| "sep_by sep [p] = p"
| "sep_by sep (p # q # ps) = p @ Txt sep # sep_by sep (q # ps)"

definition fragment :: "engine \<Rightarrow> piece list \<Rightarrow> js_val list \<Rightarrow> sql_fragment res" where
  "fragment e ps params = res_map (\<lambda>sql. \<lparr>fragSql = sql, fragParams = params\<rparr>) (render e ps)"

text \<open>\<open>qualify\<close> of the three engines: an empty namespace counts as none.\<close>

definition qualify :: "table_ref \<Rightarrow> piece list" where
  "qualify ref =
     (case refNamespace ref of
        None \<Rightarrow> [Ident (refName ref)]
      | Some ns \<Rightarrow> if ns = [] then [Ident (refName ref)] else [Ident ns, Txt ''.'', Ident (refName ref)])"

subsection \<open>How a template is read\<close>

definition piece_tokens :: "engine \<Rightarrow> piece \<Rightarrow> token list" where
  "piece_tokens e p =
     (case p of Txt s \<Rightarrow> map TChar s | Ident s \<Rightarrow> [TIdent s] | Param i \<Rightarrow> [param_token e i] | Raw s \<Rightarrow> lex e s)"

definition tokens :: "engine \<Rightarrow> piece list \<Rightarrow> token list" where
  "tokens e ps = concat (map (piece_tokens e) ps)"

text \<open>A text that ends its last token where it ends, whatever white space or nothing follows.\<close>

definition self_contained :: "engine \<Rightarrow> string \<Rightarrow> bool" where
  "self_contained e s \<longleftrightarrow> (\<forall>r. (r = [] \<or> hd r = CHR '' '') \<longrightarrow> lex e (s @ r) = lex e s @ lex e r)"

definition safe_start :: "char \<Rightarrow> bool" where
  "safe_start c \<longleftrightarrow> \<not> digit_char c \<and> c \<noteq> CHR 0x22 \<and> c \<noteq> CHR ''`''"

fun starts_safe :: "piece list \<Rightarrow> bool" where
  "starts_safe [] = True"
| "starts_safe (Txt (c # s) # ps) = (safe_start c)"
| "starts_safe (p # ps) = False"

fun starts_space :: "piece list \<Rightarrow> bool" where
  "starts_space [] = True"
| "starts_space (Txt (c # s) # ps) = (c = CHR '' '')"
| "starts_space (p # ps) = False"

fun well_spaced :: "engine \<Rightarrow> piece list \<Rightarrow> bool" where
  "well_spaced e [] = True"
| "well_spaced e (Txt s # ps) = (list_all plain_char s \<and> well_spaced e ps)"
| "well_spaced e (Ident s # ps) = (starts_safe ps \<and> well_spaced e ps)"
| "well_spaced e (Param i # ps) = (starts_safe ps \<and> well_spaced e ps)"
| "well_spaced e (Raw s # ps) = (self_contained e s \<and> starts_space ps \<and> well_spaced e ps)"

lemma render_Nil [simp]: "render e [] = Inr []"
  by (simp add: render_def)

lemma render_Cons: "render e (p # ps) = res_bind (piece_text e p) (\<lambda>t. res_map ((@) t) (render e ps))"
  by (cases "piece_text e p"; cases "traverse (piece_text e) ps") (auto simp: render_def)

lemma render_Cons_Inr:
  "render e (p # ps) = Inr s \<longleftrightarrow> (\<exists>t u. piece_text e p = Inr t \<and> render e ps = Inr u \<and> s = t @ u)"
  by (auto simp: render_Cons res_simps)

lemma render_append_Inr:
  "render e (ps @ qs) = Inr s \<longleftrightarrow> (\<exists>t u. render e ps = Inr t \<and> render e qs = Inr u \<and> s = t @ u)"
  by (induction ps arbitrary: s) (force simp: render_Cons_Inr)+

lemma starts_safe_render:
  assumes "starts_safe ps" "render e ps = Inr s"
  shows "s = [] \<or> safe_start (hd s)"
  using assms
  by (cases ps rule: starts_safe.cases) (auto simp: render_Cons_Inr piece_text_def)

lemma starts_space_render:
  assumes "starts_space ps" "render e ps = Inr s"
  shows "s = [] \<or> hd s = CHR '' ''"
  using assms
  by (cases ps rule: starts_space.cases) (auto simp: render_Cons_Inr piece_text_def)

lemma safe_start_ends: "s = [] \<or> safe_start (hd s) \<Longrightarrow> ends_ident e s \<and> ends_param s"
  by (cases e) (auto simp: safe_start_def ends_ident_def ends_param_def ident_quote_def)

lemma tokens_Nil [simp]: "tokens e [] = []"
  by (simp add: tokens_def)

lemma tokens_Cons [simp]: "tokens e (p # ps) = piece_tokens e p @ tokens e ps"
  by (simp add: tokens_def)

lemma tokens_append [simp]: "tokens e (ps @ qs) = tokens e ps @ tokens e qs"
  by (simp add: tokens_def)

lemma piece_tokens_simps [simp]:
  "piece_tokens e (Txt s) = map TChar s" "piece_tokens e (Ident s) = [TIdent s]"
  "piece_tokens e (Param i) = [param_token e i]" "piece_tokens e (Raw s) = lex e s"
  by (simp_all add: piece_tokens_def)

theorem lex_render:
  "well_spaced e ps \<Longrightarrow> render e ps = Inr s \<Longrightarrow> lex e s = tokens e ps"
proof (induction e ps arbitrary: s rule: well_spaced.induct)
  case (1 e)
  then show ?case by simp
next
  case (2 e t ps)
  then obtain u where "s = t @ u" "render e ps = Inr u"
    by (auto simp: render_Cons_Inr piece_text_def)
  with 2 show ?case by (simp add: lex_plain)
next
  case (3 e x ps)
  then obtain t u where s: "s = t @ u" and u: "render e ps = Inr u" and t: "engine_quote e x = Inr t"
    by (auto simp: render_Cons_Inr piece_text_def)
  have "ends_ident e u" using safe_start_ends [OF starts_safe_render [OF _ u]] 3(2) by simp
  with 3 s u show ?case by (simp add: lex_engine_quote [OF t])
next
  case (4 e i ps)
  then obtain u where s: "s = engine_placeholder e i @ u" and u: "render e ps = Inr u"
    by (auto simp: render_Cons_Inr piece_text_def)
  have "ends_param u" using safe_start_ends [OF starts_safe_render [OF _ u], of e] 4(2) by simp
  with 4 s u show ?case by (simp add: lex_placeholder)
next
  case (5 e t ps)
  then obtain u where s: "s = t @ u" and u: "render e ps = Inr u"
    by (auto simp: render_Cons_Inr piece_text_def)
  have "u = [] \<or> hd u = CHR '' ''" using starts_space_render [OF _ u] 5(2) by simp
  then have "lex e (t @ u) = lex e t @ lex e u" using 5(2) by (auto simp: self_contained_def)
  with 5 s u show ?case by simp
qed

lemma fragment_Inr:
  "fragment e ps params = Inr f \<longleftrightarrow> (\<exists>s. render e ps = Inr s \<and> f = \<lparr>fragSql = s, fragParams = params\<rparr>)"
  by (auto simp: fragment_def res_simps)

lemma lex_fragment:
  "fragment e ps params = Inr f \<Longrightarrow> well_spaced e ps \<Longrightarrow> lex e (fragSql f) = tokens e ps \<and> fragParams f = params"
  using lex_render by (auto simp: fragment_Inr)

text \<open>When a template is refused: some identifier in it is empty or holds a NUL.\<close>

definition good_ident :: "string \<Rightarrow> bool" where
  "good_ident s \<longleftrightarrow> s \<noteq> [] \<and> CHR 0x00 \<notin> set s"

definition idents :: "piece list \<Rightarrow> string list" where
  "idents ps = concat (map (\<lambda>p. case p of Ident s \<Rightarrow> [s] | _ \<Rightarrow> []) ps)"

lemma render_ok: "(\<exists>s. render e ps = Inr s) \<longleftrightarrow> (\<forall>x \<in> set (idents ps). good_ident x)"
proof (induction ps)
  case Nil
  then show ?case by (simp add: idents_def)
next
  case (Cons p ps)
  have "(\<exists>s. render e (p # ps) = Inr s) \<longleftrightarrow> (\<exists>t. piece_text e p = Inr t) \<and> (\<exists>s. render e ps = Inr s)"
    by (auto simp: render_Cons_Inr)
  also have "\<dots> \<longleftrightarrow> (\<forall>x \<in> set (idents (p # ps)). good_ident x)"
    unfolding Cons.IH using engine_quote_ok [of e]
    by (cases p) (auto simp: piece_text_def idents_def good_ident_def)
  finally show ?case .
qed

subsection \<open>Spacing of composed templates\<close>

lemma starts_safe_append: "starts_safe ps \<Longrightarrow> ps \<noteq> [] \<Longrightarrow> starts_safe (ps @ qs)"
  by (cases ps rule: starts_safe.cases) simp_all

lemma starts_space_append: "starts_space ps \<Longrightarrow> ps \<noteq> [] \<Longrightarrow> starts_space (ps @ qs)"
  by (cases ps rule: starts_space.cases) simp_all

lemma well_spaced_append:
  "well_spaced e ps \<Longrightarrow> well_spaced e qs \<Longrightarrow> starts_safe qs \<Longrightarrow> starts_space qs \<Longrightarrow> well_spaced e (ps @ qs)"
proof (induction e ps rule: well_spaced.induct)
  case (3 e x ps)
  then show ?case using starts_safe_append [of ps qs] by (cases "ps = []") simp_all
next
  case (4 e x ps)
  then show ?case using starts_safe_append [of ps qs] by (cases "ps = []") simp_all
next
  case (5 e x ps)
  then show ?case using starts_space_append [of ps qs] by (cases "ps = []") simp_all
qed simp_all

text \<open>Without a compiled text inside, a safe start of what follows is enough.\<close>

definition no_raw :: "piece list \<Rightarrow> bool" where
  "no_raw ps \<longleftrightarrow> list_all (\<lambda>p. case p of Raw _ \<Rightarrow> False | _ \<Rightarrow> True) ps"

lemma no_raw_simps [simp]:
  "no_raw []" "no_raw (Txt s # ps) = no_raw ps" "no_raw (Ident s # ps) = no_raw ps"
  "no_raw (Param i # ps) = no_raw ps" "\<not> no_raw (Raw s # ps)" "no_raw (ps @ qs) \<longleftrightarrow> no_raw ps \<and> no_raw qs"
  by (simp_all add: no_raw_def)

lemma well_spaced_append':
  "well_spaced e ps \<Longrightarrow> no_raw ps \<Longrightarrow> well_spaced e qs \<Longrightarrow> starts_safe qs \<Longrightarrow> well_spaced e (ps @ qs)"
proof (induction e ps rule: well_spaced.induct)
  case (3 e x ps)
  then show ?case using starts_safe_append [of ps qs] by (cases "ps = []") simp_all
next
  case (4 e x ps)
  then show ?case using starts_safe_append [of ps qs] by (cases "ps = []") simp_all
qed simp_all

lemma safe_start_simps [simp]:
  "safe_start CHR '' ''" "safe_start CHR '',''" "safe_start CHR '')''" "safe_start CHR ''.''" "safe_start CHR ''(''"
  "safe_start CHR '':''"
  by (simp_all add: safe_start_def digit_char_def)

lemma qualify_spaced: "well_spaced e (qualify ref) \<and> no_raw (qualify ref)"
  by (auto simp: qualify_def plain_char_def split: option.split)

lemma well_spaced_qualify: "well_spaced e qs \<Longrightarrow> starts_safe qs \<Longrightarrow> well_spaced e (qualify ref @ qs)"
  using qualify_spaced well_spaced_append' by blast

lemma no_raw_sep_by: "list_all no_raw ps \<Longrightarrow> no_raw (sep_by sep ps)"
  by (induction sep ps rule: sep_by.induct) simp_all

lemma well_spaced_sep_by:
  assumes "list_all (\<lambda>p. well_spaced e p \<and> no_raw p) ps" "list_all plain_char sep" "sep \<noteq> []" "safe_start (hd sep)"
  shows "well_spaced e (sep_by sep ps)"
  using assms
proof (induction sep ps rule: sep_by.induct)
  case (3 sep p q ps)
  then have "well_spaced e (Txt sep # sep_by sep (q # ps))" by simp
  moreover have "starts_safe (Txt sep # sep_by sep (q # ps))" using 3 by (cases sep) simp_all
  ultimately show ?case using 3 well_spaced_append' [of e p] by simp
qed simp_all

lemma tokens_sep_by_Cons:
  "ps \<noteq> [] \<Longrightarrow> tokens e (sep_by sep (p # ps)) = tokens e p @ map TChar sep @ tokens e (sep_by sep ps)"
  by (cases ps) simp_all

end
