(* ===== verification/GridFilter.thy ===== *)
theory GridFilter
  imports Dialect
begin

text \<open>
  \<open>grid/filter.ts\<close>: from the client's structured filter to a parameterized \<open>WHERE\<close> clause. The last
  part reads the clause as the engine does and shows it is the tests asked for, in order, every value
  behind a placeholder.
\<close>

datatype type_family = FText | FNumeric | FDatetime | FBoolean | FOther

definition TEXT_TYPES :: "string list" where
  "TEXT_TYPES = [''text'', ''character varying'', ''character'', ''name'', ''citext'', ''varchar'', ''char'', ''bpchar'',
     ''tinytext'', ''mediumtext'', ''longtext'', ''enum'', ''set'', ''text/blob'']"

definition NUMERIC_TYPES :: "string list" where
  "NUMERIC_TYPES = [''integer'', ''bigint'', ''smallint'', ''int'', ''int2'', ''int4'', ''int8'',
     ''tinyint'', ''mediumint'', ''real'', ''double precision'', ''double'', ''float4'', ''float8'',
     ''numeric'', ''decimal'', ''dec'', ''fixed'', ''money'']"

definition DATETIME_TYPES :: "string list" where
  "DATETIME_TYPES = [''date'', ''datetime'', ''year'', ''timestamp without time zone'',
     ''timestamp with time zone'', ''timestamp'', ''timestamptz'', ''time without time zone'',
     ''time with time zone'', ''time'', ''timetz'', ''interval'']"

definition BOOLEAN_TYPES :: "string list" where
  "BOOLEAN_TYPES = [''boolean'', ''bool'']"

definition typeFamily :: "string \<Rightarrow> type_family" where
  "typeFamily ty =
     (let t = js_lower ty in
      if t \<in> set TEXT_TYPES then FText
      else if t \<in> set NUMERIC_TYPES then FNumeric
      else if starts_with ''timestamp'' t \<or> starts_with ''time'' t \<or> t \<in> set DATETIME_TYPES then FDatetime
      else if t \<in> set BOOLEAN_TYPES then FBoolean
      else FOther)"

fun OPERATORS_BY_FAMILY :: "type_family \<Rightarrow> filter_operator list" where
  "OPERATORS_BY_FAMILY FText =
     [Eq, Neq, Lt, Lte, Gt, Gte, Contains, NotContains, StartsWith, NotStartsWith, EndsWith, NotEndsWith,
      IsNull, IsNotNull, InList, NotIn]"
| "OPERATORS_BY_FAMILY FNumeric = [Eq, Neq, Lt, Lte, Gt, Gte, IsNull, IsNotNull, InList, NotIn]"
| "OPERATORS_BY_FAMILY FDatetime = [Eq, Neq, Lt, Lte, Gt, Gte, IsNull, IsNotNull]"
| "OPERATORS_BY_FAMILY FBoolean = [Eq, Neq, IsNull, IsNotNull]"
| "OPERATORS_BY_FAMILY FOther = [Eq, Neq, IsNull, IsNotNull]"

fun operator_name :: "filter_operator \<Rightarrow> string" where
  "operator_name Eq = ''eq''"
| "operator_name Neq = ''neq''"
| "operator_name Lt = ''lt''"
| "operator_name Lte = ''lte''"
| "operator_name Gt = ''gt''"
| "operator_name Gte = ''gte''"
| "operator_name Contains = ''contains''"
| "operator_name NotContains = ''notContains''"
| "operator_name StartsWith = ''startsWith''"
| "operator_name NotStartsWith = ''notStartsWith''"
| "operator_name EndsWith = ''endsWith''"
| "operator_name NotEndsWith = ''notEndsWith''"
| "operator_name IsNull = ''isNull''"
| "operator_name IsNotNull = ''isNotNull''"
| "operator_name InList = ''in''"
| "operator_name NotIn = ''notIn''"

definition values_of :: "column_filter \<Rightarrow> js_val list" where
  "values_of condition = (case cfValues condition of None \<Rightarrow> [] | Some vs \<Rightarrow> vs)"

definition compileSingleCondition ::
  "column_filter \<Rightarrow> nat \<Rightarrow> where_dialect \<Rightarrow> (string \<times> js_val list) res" where
  "compileSingleCondition condition paramIndex d =
     res_map (\<lambda>col.
       (let ph = wdPlaceholder d paramIndex; like = likeOperator d;
            v = cfValue condition; text = js_to_string v
        in case cfOperator condition of
             Eq \<Rightarrow> (col @ '' = '' @ ph, [v])
           | Neq \<Rightarrow> (col @ '' <> '' @ ph, [v])
           | Lt \<Rightarrow> (col @ '' < '' @ ph, [v])
           | Lte \<Rightarrow> (col @ '' <= '' @ ph, [v])
           | Gt \<Rightarrow> (col @ '' > '' @ ph, [v])
           | Gte \<Rightarrow> (col @ '' >= '' @ ph, [v])
           | Contains \<Rightarrow> (col @ '' '' @ like @ '' '' @ ph, [JStr (''%'' @ text @ ''%'')])
           | NotContains \<Rightarrow> (col @ '' NOT '' @ like @ '' '' @ ph, [JStr (''%'' @ text @ ''%'')])
           | StartsWith \<Rightarrow> (col @ '' '' @ like @ '' '' @ ph, [JStr (text @ ''%'')])
           | NotStartsWith \<Rightarrow> (col @ '' NOT '' @ like @ '' '' @ ph, [JStr (text @ ''%'')])
           | EndsWith \<Rightarrow> (col @ '' '' @ like @ '' '' @ ph, [JStr (''%'' @ text)])
           | NotEndsWith \<Rightarrow> (col @ '' NOT '' @ like @ '' '' @ ph, [JStr (''%'' @ text)])
           | IsNull \<Rightarrow> (col @ '' IS NULL'', [])
           | IsNotNull \<Rightarrow> (col @ '' IS NOT NULL'', [])
           | InList \<Rightarrow> inList d col (values_of condition) False paramIndex
           | NotIn \<Rightarrow> inList d col (values_of condition) True paramIndex))
       (wdQuoteIdent d (cfColumn condition))"

text \<open>\<open>new Map(columns.map(c => [c.name, c]))\<close>: the last column of a name wins.\<close>

definition column_map :: "column_metadata list \<Rightarrow> string \<Rightarrow> column_metadata option" where
  "column_map columns = map_of (rev (map (\<lambda>c. (colName c, c)) columns))"

definition check_condition :: "column_metadata list \<Rightarrow> column_filter \<Rightarrow> unit res" where
  "check_condition columns condition =
     (case column_map columns (cfColumn condition) of
        None \<Rightarrow> Inl (BadRequest (''Unknown column \"'' @ cfColumn condition @ ''\"''))
      | Some col \<Rightarrow>
          require (cfOperator condition \<in> set (OPERATORS_BY_FAMILY (typeFamily (dataType col))))
            (BadRequest (''Operator \"'' @ operator_name (cfOperator condition) @ ''\" is not valid for column \"''
               @ cfColumn condition @ ''\" (type \"'' @ dataType col @ ''\")'')))"

text \<open>The loop over the conditions, with the fragments and params collected so far.\<close>

fun compile_loop ::
  "column_metadata list \<Rightarrow> nat \<Rightarrow> where_dialect \<Rightarrow> column_filter list \<Rightarrow> string list \<Rightarrow> js_val list
     \<Rightarrow> (string list \<times> js_val list) res" where
  "compile_loop columns off d [] fragments params = Inr (fragments, params)"
| "compile_loop columns off d (c # cs) fragments params =
     res_bind (check_condition columns c) (\<lambda>_.
       res_bind (compileSingleCondition c (off + length params + 1) d) (\<lambda>(fragment, condParams).
         compile_loop columns off d cs (fragments @ [fragment]) (params @ condParams)))"

definition joiner :: "combinator \<Rightarrow> string" where
  "joiner c = (case c of COr \<Rightarrow> '' OR '' | CAnd \<Rightarrow> '' AND '')"

definition compileWhere ::
  "row_filter \<Rightarrow> column_metadata list \<Rightarrow> nat \<Rightarrow> where_dialect \<Rightarrow> (string \<times> js_val list) res" where
  "compileWhere rf columns paramOffset d =
     (if conditions rf = [] then Inr ([], [])
      else res_map (\<lambda>(fragments, params). (''WHERE '' @ join (joiner (combinator rf)) fragments, params))
             (compile_loop columns paramOffset d (conditions rf) [] []))"

subsection \<open>The clause the engine should read\<close>

definition like_tokens :: "engine \<Rightarrow> bool \<Rightarrow> token list" where
  "like_tokens e negated =
     map TChar ((if negated then '' NOT '' else '' '') @ likeOperator (engine_whereDialect e) @ '' '')"

definition cond_tokens :: "engine \<Rightarrow> column_filter \<Rightarrow> nat \<Rightarrow> token list" where
  "cond_tokens e c i =
     (case cfOperator c of
        Eq \<Rightarrow> TIdent (cfColumn c) # map TChar '' = '' @ [param_token e i]
      | Neq \<Rightarrow> TIdent (cfColumn c) # map TChar '' <> '' @ [param_token e i]
      | Lt \<Rightarrow> TIdent (cfColumn c) # map TChar '' < '' @ [param_token e i]
      | Lte \<Rightarrow> TIdent (cfColumn c) # map TChar '' <= '' @ [param_token e i]
      | Gt \<Rightarrow> TIdent (cfColumn c) # map TChar '' > '' @ [param_token e i]
      | Gte \<Rightarrow> TIdent (cfColumn c) # map TChar '' >= '' @ [param_token e i]
      | Contains \<Rightarrow> TIdent (cfColumn c) # like_tokens e False @ [param_token e i]
      | NotContains \<Rightarrow> TIdent (cfColumn c) # like_tokens e True @ [param_token e i]
      | StartsWith \<Rightarrow> TIdent (cfColumn c) # like_tokens e False @ [param_token e i]
      | NotStartsWith \<Rightarrow> TIdent (cfColumn c) # like_tokens e True @ [param_token e i]
      | EndsWith \<Rightarrow> TIdent (cfColumn c) # like_tokens e False @ [param_token e i]
      | NotEndsWith \<Rightarrow> TIdent (cfColumn c) # like_tokens e True @ [param_token e i]
      | IsNull \<Rightarrow> TIdent (cfColumn c) # map TChar '' IS NULL''
      | IsNotNull \<Rightarrow> TIdent (cfColumn c) # map TChar '' IS NOT NULL''
      | InList \<Rightarrow> in_tokens e (cfColumn c) (length (values_of c)) False i
      | NotIn \<Rightarrow> in_tokens e (cfColumn c) (length (values_of c)) True i)"

text \<open>The values a condition binds.\<close>

definition cond_params :: "engine \<Rightarrow> column_filter \<Rightarrow> js_val list" where
  "cond_params e c =
     (let text = js_to_string (cfValue c) in
      case cfOperator c of
        Contains \<Rightarrow> [JStr (''%'' @ text @ ''%'')]
      | NotContains \<Rightarrow> [JStr (''%'' @ text @ ''%'')]
      | StartsWith \<Rightarrow> [JStr (text @ ''%'')]
      | NotStartsWith \<Rightarrow> [JStr (text @ ''%'')]
      | EndsWith \<Rightarrow> [JStr (''%'' @ text)]
      | NotEndsWith \<Rightarrow> [JStr (''%'' @ text)]
      | IsNull \<Rightarrow> []
      | IsNotNull \<Rightarrow> []
      | InList \<Rightarrow> in_params e (values_of c)
      | NotIn \<Rightarrow> in_params e (values_of c)
      | _ \<Rightarrow> [cfValue c])"

fun conds_tokens :: "engine \<Rightarrow> token list \<Rightarrow> nat \<Rightarrow> column_filter list \<Rightarrow> token list" where
  "conds_tokens e sep i [] = []"
| "conds_tokens e sep i [c] = cond_tokens e c i"
| "conds_tokens e sep i (c # c' # cs) =
     cond_tokens e c i @ sep @ conds_tokens e sep (i + length (cond_params e c)) (c' # cs)"

definition where_tokens :: "engine \<Rightarrow> row_filter \<Rightarrow> nat \<Rightarrow> token list" where
  "where_tokens e rf off =
     (if conditions rf = [] then []
      else map TChar ''WHERE '' @ conds_tokens e (map TChar (joiner (combinator rf))) (Suc off) (conditions rf))"

lemma plain_ops:
  "list_all plain_char '' = ''" "list_all plain_char '' <> ''" "list_all plain_char '' < ''"
  "list_all plain_char '' <= ''" "list_all plain_char '' > ''" "list_all plain_char '' >= ''"
  "list_all plain_char '' NOT ''" "list_all plain_char '' ''"
  "list_all plain_char '' IS NULL''" "list_all plain_char '' IS NOT NULL''"
  "list_all plain_char '' OR ''" "list_all plain_char '' AND ''" "list_all plain_char ''WHERE ''"
  by (simp_all add: plain_char_def)

lemma lex_comparison_op:
  assumes "wdQuoteIdent (engine_whereDialect e) c = Inr t" "list_all plain_char op" "hd op = CHR '' ''" "op \<noteq> []"
    "ends_param r"
  shows "lex e (t @ op @ wdPlaceholder (engine_whereDialect e) i @ r) = TIdent c # map TChar op @ param_token e i # lex e r"
  by (rule dialect.lex_comparison) (use assms in simp_all)

lemma single_condition:
  assumes "compileSingleCondition c i (engine_whereDialect e) = Inr (f, ps)" "ends_param r"
  shows "lex e (f @ r) = cond_tokens e c i @ lex e r \<and> ps = cond_params e c"
proof -
  let ?d = "engine_whereDialect e"
  obtain t where t: "wdQuoteIdent ?d (cfColumn c) = Inr t"
    using assms(1) by (auto simp: compileSingleCondition_def res_simps)
  note cmp = lex_comparison_op [OF t _ _ _ assms(2)]
  have like: "lex e (t @ (op @ likeOperator ?d @ '' '') @ wdPlaceholder ?d i @ r)
      = TIdent (cfColumn c) # map TChar (op @ likeOperator ?d @ '' '') @ param_token e i # lex e r"
    if "op = '' '' \<or> op = '' NOT ''" for op
    by (rule cmp) (use that like_operator_plain [of e] plain_ops in auto)
  have null: "lex e (t @ op @ r) = TIdent (cfColumn c) # map TChar op @ lex e r"
    if "op = '' IS NULL'' \<or> op = '' IS NOT NULL''" for op
    by (rule dialect.lex_null_test [OF t]) (use that plain_ops in auto)
  note inl = engine_in_law [OF t [unfolded engine_dialect_quote]]
  show ?thesis
    using assms(1) t
    by (cases "cfOperator c")
       (use cmp [of "'' = ''"] cmp [of "'' <> ''"] cmp [of "'' < ''"] cmp [of "'' <= ''"] cmp [of "'' > ''"]
         cmp [of "'' >= ''"] like [of "'' ''"] like [of "'' NOT ''"] null [of "'' IS NULL''"]
         null [of "'' IS NOT NULL''"] inl [of "values_of c" False i r] inl [of "values_of c" True i r] plain_ops
        in \<open>auto simp: compileSingleCondition_def cond_tokens_def cond_params_def like_tokens_def Let_def\<close>)
qed

lemma joiner_facts: "list_all plain_char (joiner c)" "hd (joiner c) = CHR '' ''" "joiner c \<noteq> []"
  by (cases c; simp add: joiner_def plain_char_def)+

lemma compile_loop_tokens:
  assumes "compile_loop columns off (engine_whereDialect e) cs frs ps = Inr (frs', ps')"
    "list_all plain_char sep" "hd sep = CHR '' ''" "sep \<noteq> []"
  shows "\<exists>fs. frs' = frs @ fs \<and> length fs = length cs \<and> ps' = ps @ concat (map (cond_params e) cs)
    \<and> (cs \<noteq> [] \<longrightarrow> (\<forall>r. ends_param r \<longrightarrow>
          lex e (join sep fs @ r) = conds_tokens e (map TChar sep) (off + length ps + 1) cs @ lex e r))
    \<and> list_all (\<lambda>c. check_condition columns c = Inr ()) cs"
  using assms(1)
proof (induction cs arbitrary: frs ps)
  case Nil
  then show ?case by auto
next
  case (Cons c cs)
  then obtain f qs where ck: "check_condition columns c = Inr ()"
    and f: "compileSingleCondition c (off + length ps + 1) (engine_whereDialect e) = Inr (f, qs)"
    and rest: "compile_loop columns off (engine_whereDialect e) cs (frs @ [f]) (ps @ qs) = Inr (frs', ps')"
    by (auto simp: res_simps)
  have q: "qs = cond_params e c" using single_condition [OF f, of "[]"] by simp
  from Cons.IH [OF rest] obtain fs where fs: "frs' = (frs @ [f]) @ fs" "length fs = length cs"
     "ps' = (ps @ qs) @ concat (map (cond_params e) cs)"
     "cs \<noteq> [] \<longrightarrow> (\<forall>r. ends_param r \<longrightarrow>
        lex e (join sep fs @ r) = conds_tokens e (map TChar sep) (off + length (ps @ qs) + 1) cs @ lex e r)"
     "list_all (\<lambda>c. check_condition columns c = Inr ()) cs"
    by blast
  have "lex e (join sep (f # fs) @ r) = conds_tokens e (map TChar sep) (off + length ps + 1) (c # cs) @ lex e r"
    if r: "ends_param r" for r
  proof (cases cs)
    case Nil
    with fs(2) have "fs = []" by simp
    with Nil single_condition [OF f r] show ?thesis by simp
  next
    case (Cons c' cs')
    with fs(2) have ne: "fs \<noteq> []" by auto
    have "ends_param (sep @ x)" for x using assms(3,4) by (simp add: ends_param_def)
    then have "lex e (f @ sep @ join sep fs @ r) = cond_tokens e c (off + length ps + 1) @ lex e (sep @ join sep fs @ r)"
      using single_condition [OF f] by blast
    then show ?thesis
      using ne Cons fs(4) q r lex_plain [OF assms(2)] by (simp add: join_Cons algebra_simps)
  qed
  with fs q ck show ?case by (intro exI [of _ "f # fs"]) simp
qed

lemma compileWhere_lex_app:
  assumes "compileWhere rf columns off (engine_whereDialect e) = Inr (clause, params)" "ends_param r"
  shows "lex e (clause @ r) = where_tokens e rf off @ lex e r
    \<and> params = concat (map (cond_params e) (conditions rf))"
proof (cases "conditions rf = []")
  case True
  with assms show ?thesis by (simp add: compileWhere_def where_tokens_def)
next
  case False
  then obtain fs where l: "compile_loop columns off (engine_whereDialect e) (conditions rf) [] [] = Inr (fs, params)"
    and c: "clause = ''WHERE '' @ join (joiner (combinator rf)) fs"
    using assms by (auto simp: compileWhere_def res_simps)
  show ?thesis
    using compile_loop_tokens [OF l joiner_facts(1,2,3)] False c lex_plain [OF plain_ops(13)] assms(2)
    by (simp add: where_tokens_def)
qed

lemma compileWhere_lex:
  assumes "compileWhere rf columns off (engine_whereDialect e) = Inr (clause, params)"
  shows "lex e clause = where_tokens e rf off \<and> params = concat (map (cond_params e) (conditions rf))"
  using compileWhere_lex_app [OF assms, of "[]"] by simp

text \<open>
  C3. The filter compiler is faithful and injection free on every engine: when it accepts a filter,
  the engine reads the clause as exactly the tests the client asked for, in order, under the chosen
  combinator, each on the column it names and with a placeholder wherever a value stands; and the
  values bound are the filter's values in the order of the placeholders. No text of a column name or of
  a value reaches the clause as SQL.
\<close>

theorem compileWhere_tokens:
  assumes "compileWhere rf columns off (engine_whereDialect e) = Inr (clause, params)"
  shows "lex e clause = where_tokens e rf off \<and> params = concat (map (cond_params e) (conditions rf))"
  using compileWhere_lex [OF assms] .

definition example_columns :: "column_metadata list" where
  "example_columns =
     [\<lparr>colName = ''id'', dataType = ''integer'', nullable = False, isPrimaryKey = True, autoIncrement = True,
       defaultValue = None, colComment = None, nativeType = None, nativeDefinition = None\<rparr>,
      \<lparr>colName = ''name'', dataType = ''text'', nullable = True, isPrimaryKey = False, autoIncrement = False,
       defaultValue = None, colComment = None, nativeType = None, nativeDefinition = None\<rparr>]"

definition example_filter :: row_filter where
  "example_filter = \<lparr>conditions =
       [\<lparr>cfColumn = ''id'', cfOperator = Gt, cfValue = JNum 7, cfValues = None\<rparr>,
        \<lparr>cfColumn = ''id'', cfOperator = IsNotNull, cfValue = JUndef, cfValues = None\<rparr>],
     combinator = CAnd\<rparr>"

lemmas filter_evals = compileWhere_def example_filter_def example_columns_def check_condition_def
  column_map_def typeFamily_def TEXT_TYPES_def NUMERIC_TYPES_def js_lower_def js_lower_char_def Let_def
  compileSingleCondition_def engine_whereDialect_def pg_whereDialect_def quoteIdent_def str_includes_def
  starts_with_def replace_char_def dquote_def joiner_def pgPlaceholder_def show_nat_digit

lemma example_compiles:
  "compileWhere example_filter example_columns 0 (engine_whereDialect Pg)
     = Inr (''WHERE \"id\" > $1 AND \"id\" IS NOT NULL'', [JNum 7])"
  by (simp add: filter_evals char_of_def bit_0)

theorem compileWhere_tokens_witness:
  "lex Pg ''WHERE \"id\" > $1 AND \"id\" IS NOT NULL'' = where_tokens Pg example_filter 0"
  using compileWhere_tokens [OF example_compiles] by simp

subsection \<open>Placeholders and values\<close>

definition param_ids :: "token list \<Rightarrow> nat list" where
  "param_ids ts = concat (map (\<lambda>t. case t of TParam n \<Rightarrow> [n] | _ \<Rightarrow> []) ts)"

lemma param_ids_append [simp]: "param_ids (a @ b) = param_ids a @ param_ids b"
  by (simp add: param_ids_def)

lemma param_ids_simps [simp]:
  "param_ids [] = []" "param_ids (TParam n # ts) = n # param_ids ts"
  "param_ids (TIdent c # ts) = param_ids ts" "param_ids (TChar x # ts) = param_ids ts"
  by (simp_all add: param_ids_def)

lemma param_ids_chars [simp]: "param_ids (map TChar s) = []"
  by (induction s) simp_all

lemma param_ids_concat: "param_ids (concat tss) = concat (map param_ids tss)"
  by (induction tss) simp_all

lemma param_index_upt:
  "map (param_index e) [i ..< i + n] = (if e = Pg then [i ..< i + n] else replicate n 0)"
  by (rule nth_equalityI) (simp_all add: param_index_def)

lemma upt_split: "[i ..< i + (a + b)] = [i ..< i + a] @ [i + a ..< i + a + b]"
  using upt_add_eq_append [of i "i + a" b] by (simp add: add.assoc)

lemma param_ids_in:
  "param_ids (in_tokens e c (length vs) neg i) = map (param_index e) [i ..< i + length (in_params e vs)]"
proof (cases "e = Pg")
  case True
  then show ?thesis by (simp add: in_tokens_def in_params_def param_index_def)
next
  case False
  have m: "map (param_index e) [i ..< i + n] = replicate n 0" for n
    using False by (simp add: param_index_upt)
  show ?thesis
  proof (cases "length vs")
    case 0
    with False show ?thesis by (simp add: in_tokens_def in_params_def)
  next
    case (Suc n)
    have "concat (replicate n [0]) @ [0] = (replicate (Suc n) 0 :: nat list)"
      by (induction n) simp_all
    with False Suc m show ?thesis
      by (simp add: in_tokens_def in_params_def param_ids_concat map_replicate param_index_def)
  qed
qed

lemma param_ids_cond:
  "param_ids (cond_tokens e c i) = map (param_index e) [i ..< i + length (cond_params e c)]"
  by (cases "cfOperator c")
     (simp_all add: cond_tokens_def cond_params_def like_tokens_def param_token_def param_ids_in Let_def)

lemma param_ids_conds:
  "param_ids (conds_tokens e (map TChar sep) i cs)
     = map (param_index e) [i ..< i + length (concat (map (cond_params e) cs))]"
proof (induction e "map TChar sep" i cs rule: conds_tokens.induct)
  case (3 e i c c' cs)
  let ?m = "i + length (cond_params e c)"
  let ?n = "length (concat (map (cond_params e) (c' # cs)))"
  have "[i ..< i + length (concat (map (cond_params e) (c # c' # cs)))] = [i ..< ?m] @ [?m ..< ?m + ?n]"
    using upt_split [of i "length (cond_params e c)" ?n] by simp
  with 3 show ?case by (simp add: param_ids_cond)
qed (simp_all add: param_ids_cond)

text \<open>
  Placeholders and bound values correspond: a compiled clause holds one placeholder for each value
  it binds, and on PostgreSQL the placeholders are numbered consecutively from the first free index,
  so clause and parameters can be appended to a statement that has bound \<open>off\<close> values already.
\<close>

theorem compileWhere_placeholders:
  assumes "compileWhere rf columns off (engine_whereDialect e) = Inr (clause, params)"
  shows "param_ids (lex e clause) =
    (if e = Pg then [Suc off ..< Suc off + length params] else replicate (length params) 0)"
proof -
  have "param_ids (lex e clause) = map (param_index e) [Suc off ..< Suc off + length params]"
    using compileWhere_lex [OF assms] param_ids_conds [of e "joiner (combinator rf)" "Suc off" "conditions rf"]
    by (simp add: where_tokens_def)
  also have "\<dots> = (if e = Pg then [Suc off ..< Suc off + length params] else replicate (length params) 0)"
    by (rule param_index_upt)
  finally show ?thesis .
qed

theorem compileWhere_placeholders_witness:
  "param_ids (lex Pg ''WHERE \"id\" > $1 AND \"id\" IS NOT NULL'') = [1]"
  using compileWhere_placeholders [OF example_compiles] by simp

subsection \<open>What is refused\<close>

lemma compileSingleCondition_ok:
  "(\<exists>r. compileSingleCondition c i (engine_whereDialect e) = Inr r) \<longleftrightarrow> cfColumn c \<noteq> [] \<and> CHR 0x00 \<notin> set (cfColumn c)"
  unfolding compileSingleCondition_def engine_dialect_quote res_map_ok by (rule engine_quote_ok)

lemma check_condition_ok:
  "check_condition columns c = Inr () \<longleftrightarrow>
     (\<exists>col. column_map columns (cfColumn c) = Some col \<and>
        cfOperator c \<in> set (OPERATORS_BY_FAMILY (typeFamily (dataType col))))"
  by (auto simp: check_condition_def res_simps split: option.splits)

lemma compile_loop_ok:
  "(\<exists>r. compile_loop columns off (engine_whereDialect e) cs frs ps = Inr r) \<longleftrightarrow>
     (\<forall>c \<in> set cs. check_condition columns c = Inr () \<and> cfColumn c \<noteq> [] \<and> CHR 0x00 \<notin> set (cfColumn c))"
proof (induction cs arbitrary: frs ps)
  case Nil
  then show ?case by simp
next
  case (Cons c cs)
  show ?case
  proof (cases "check_condition columns c = Inr () \<and> cfColumn c \<noteq> [] \<and> CHR 0x00 \<notin> set (cfColumn c)")
    case True
    then obtain f qs where "compileSingleCondition c (off + length ps + 1) (engine_whereDialect e) = Inr (f, qs)"
      using compileSingleCondition_ok [of c "off + length ps + 1" e] by auto
    with True Cons.IH show ?thesis by simp
  next
    case False
    then have "check_condition columns c \<noteq> Inr () \<or>
        (\<nexists>r. compileSingleCondition c (off + length ps + 1) (engine_whereDialect e) = Inr r)"
      using compileSingleCondition_ok [of c _ e] by blast
    with False show ?thesis by (auto simp: res_simps)
  qed
qed

text \<open>
  The compiler accepts a filter exactly when every condition names a column of the table under an
  operator its type family allows (and the name can be quoted at all); a filter with any other
  condition is refused as a whole, whatever the engine.
\<close>

theorem compileWhere_accepts:
  "(\<exists>clause params. compileWhere rf columns off (engine_whereDialect e) = Inr (clause, params)) \<longleftrightarrow>
     list_all (\<lambda>c. cfColumn c \<noteq> [] \<and> CHR 0x00 \<notin> set (cfColumn c) \<and>
       list_ex (\<lambda>col. column_map columns (cfColumn c) = Some col \<and>
         cfOperator c \<in> set (OPERATORS_BY_FAMILY (typeFamily (dataType col)))) columns) (conditions rf)"
proof -
  have m: "column_map columns k = Some col \<Longrightarrow> col \<in> set columns" for k col
    by (auto simp: column_map_def dest: map_of_SomeD)
  have "(\<exists>clause params. compileWhere rf columns off (engine_whereDialect e) = Inr (clause, params)) \<longleftrightarrow>
      (\<exists>r. compile_loop columns off (engine_whereDialect e) (conditions rf) [] [] = Inr r)"
    by (auto simp: compileWhere_def res_simps)
  then show ?thesis
    unfolding compile_loop_ok list_all_iff list_ex_iff check_condition_ok using m by blast
qed

subsection \<open>The clause does not depend on the values\<close>

definition cond_shape :: "column_filter \<Rightarrow> string \<times> filter_operator \<times> nat" where
  "cond_shape c = (cfColumn c, cfOperator c, length (values_of c))"

lemma inList_shape:
  "length vs = length ws \<Longrightarrow> fst (inList (engine_whereDialect e) t vs n i) = fst (inList (engine_whereDialect e) t ws n i)"
  by (cases e) (auto simp: engine_whereDialect_def pg_whereDialect_def mysql_whereDialect_def
      sqlite_whereDialect_def pgInList_def mysqlInList_def sqliteInList_def map_replicate_const)

lemma in_params_shape: "length vs = length ws \<Longrightarrow> length (in_params e vs) = length (in_params e ws)"
  by (simp add: in_params_def)

lemma single_shape:
  assumes "cond_shape c = cond_shape c'"
    "compileSingleCondition c i (engine_whereDialect e) = Inr (f, ps)"
    "compileSingleCondition c' i (engine_whereDialect e) = Inr (f', ps')"
  shows "f = f' \<and> length ps = length ps'"
proof -
  have "cfColumn c = cfColumn c'" "cfOperator c = cfOperator c'" and l: "length (values_of c) = length (values_of c')"
    using assms(1) by (simp_all add: cond_shape_def)
  then show ?thesis
    using assms(2,3) inList_shape [OF l, of e] single_condition [OF assms(2), of "[]"]
      single_condition [OF assms(3), of "[]"] in_params_shape [OF l, of e]
    by (cases "cfOperator c'")
       (auto simp: compileSingleCondition_def cond_params_def Let_def res_simps dest!: arg_cong [of _ _ fst])
qed

lemma loop_shape:
  assumes "map cond_shape cs = map cond_shape cs'" "length ps = length qs"
    "compile_loop columns off (engine_whereDialect e) cs frs ps = Inr (frs', ps')"
    "compile_loop columns off (engine_whereDialect e) cs' frs qs = Inr (frs'', qs')"
  shows "frs' = frs''"
  using assms
proof (induction cs arbitrary: cs' frs ps qs)
  case Nil
  then show ?case by simp
next
  case (Cons c cs)
  then obtain c' ds where cs': "cs' = c' # ds" "cond_shape c = cond_shape c'" "map cond_shape cs = map cond_shape ds"
    by (cases cs') auto
  from Cons.prems(3) obtain f x where
    f: "compileSingleCondition c (off + length ps + 1) (engine_whereDialect e) = Inr (f, x)"
       "compile_loop columns off (engine_whereDialect e) cs (frs @ [f]) (ps @ x) = Inr (frs', ps')"
    by (auto simp: res_simps)
  from Cons.prems(4) cs'(1) obtain g y where
    g: "compileSingleCondition c' (off + length qs + 1) (engine_whereDialect e) = Inr (g, y)"
       "compile_loop columns off (engine_whereDialect e) ds (frs @ [g]) (qs @ y) = Inr (frs'', qs')"
    by (auto simp: res_simps)
  from single_shape [OF cs'(2) f(1)] g(1) Cons.prems(2) have "f = g" "length x = length y" by auto
  with Cons.IH [OF cs'(3), of "ps @ x" "qs @ y" "frs @ [f]"] f(2) g(2) Cons.prems(2) show ?case by simp
qed

text \<open>
  Values never shape the SQL: two filters that agree on their columns, operators, combinator and
  list lengths compile to the same clause, whatever values they carry.
\<close>

theorem compileWhere_values_irrelevant:
  assumes "map cond_shape (conditions rf) = map cond_shape (conditions rf')" "combinator rf = combinator rf'"
    "compileWhere rf columns off (engine_whereDialect e) = Inr (clause, params)"
    "compileWhere rf' columns off (engine_whereDialect e) = Inr (clause', params')"
  shows "clause = clause'"
proof (cases "conditions rf = []")
  case True
  with assms show ?thesis by (simp add: compileWhere_def)
next
  case False
  with assms(1) have "conditions rf' \<noteq> []" by auto
  with False assms(2-) loop_shape [OF assms(1), of "[]" "[]" columns off e "[]"] show ?thesis
    by (auto simp: compileWhere_def res_simps)
qed

definition other_filter :: row_filter where
  "other_filter = \<lparr>conditions =
       [\<lparr>cfColumn = ''id'', cfOperator = Gt, cfValue = JStr ''0 OR 1=1'', cfValues = None\<rparr>,
        \<lparr>cfColumn = ''id'', cfOperator = IsNotNull, cfValue = JUndef, cfValues = None\<rparr>],
     combinator = CAnd\<rparr>"

theorem compileWhere_values_irrelevant_witness:
  "\<exists>clause p q. compileWhere other_filter example_columns 0 (engine_whereDialect Pg) = Inr (clause, p)
     \<and> compileWhere example_filter example_columns 0 (engine_whereDialect Pg) = Inr (clause, q) \<and> p \<noteq> q"
proof -
  have "\<exists>c p. compileWhere other_filter example_columns 0 (engine_whereDialect Pg) = Inr (c, p) \<and> p = [JStr ''0 OR 1=1'']"
    by (simp add: filter_evals other_filter_def char_of_def bit_0)
  then obtain c p where o': "compileWhere other_filter example_columns 0 (engine_whereDialect Pg) = Inr (c, p)"
      "p = [JStr ''0 OR 1=1'']" by blast
  have "c = ''WHERE \"id\" > $1 AND \"id\" IS NOT NULL''"
    by (rule compileWhere_values_irrelevant [OF _ _ o'(1) example_compiles])
       (simp_all add: other_filter_def example_filter_def cond_shape_def values_of_def)
  with o' example_compiles show ?thesis by auto
qed

end
