(* ===== verification/RowSql.thy ===== *)
theory RowSql
  imports SqlTemplate GridFilter
begin

text \<open>
  The statements the grid reads and writes rows with: the \<open>*BuildSelectRows\<close>, \<open>*BuildInsertRow\<close>,
  \<open>*BuildUpdateRow\<close>, \<open>*BuildUpdateRowGuarded\<close>, \<open>*BuildDeleteRow\<close> and related builders of
  \<open>drivers/pg/pg-sql.ts\<close>, \<open>drivers/mysql/mysql-sql.ts\<close> and \<open>drivers/sqlite/sqlite-sql.ts\<close>, each as the
  template literal the code has. \<open>well_spaced\<close> facts show how each is read by its engine.
\<close>

definition ROW_VERSION_KEY :: string where
  "ROW_VERSION_KEY = ''__version''"

definition PG_VERSION_PROJECTION :: "piece list" where
  "PG_VERSION_PROJECTION = [Txt '', xmin::text AS '', Ident ROW_VERSION_KEY]"

text \<open>\<open>xs[i]\<close>: \<open>undefined\<close> out of range.\<close>

definition at :: "js_val list \<Rightarrow> nat \<Rightarrow> js_val" where
  "at vs i = (if i < length vs then vs ! i else JUndef)"

definition nat_val :: "nat \<Rightarrow> js_val" where
  "nat_val n = JNum (int n)"

text \<open>\<open>cs.map((c, i) => `${quoteIdent(c)} op ${placeholder(i + first)}`)\<close>\<close>

definition assigns :: "string \<Rightarrow> nat \<Rightarrow> string list \<Rightarrow> piece list list" where
  "assigns op first cs = map (\<lambda>(i, c). [Ident c, Txt op, Param i]) (enumerate first cs)"

definition namespace_value :: "table_ref \<Rightarrow> js_val" where
  "namespace_value ref = (case refNamespace ref of None \<Rightarrow> JUndef | Some ns \<Rightarrow> JStr ns)"

definition order_pieces :: "select_rows_options \<Rightarrow> piece list" where
  "order_pieces opts =
     (case orderColumn opts of
        None \<Rightarrow> []
      | Some c \<Rightarrow> if c = [] then [] else [Txt '' ORDER BY '', Ident c, Txt ('' '' @ sort_text (sortDir opts))])"

definition where_pieces :: "select_rows_options \<Rightarrow> piece list" where
  "where_pieces opts = (if whereClause opts = [] then [] else [Txt '' '', Raw (whereClause opts)])"

definition select_params :: "select_rows_options \<Rightarrow> js_val list" where
  "select_params opts = whereParams opts @ [JNum (optLimit opts), JNum (optOffset opts)]"

subsection \<open>PostgreSQL\<close>

definition pgQualifyTable :: "table_ref \<Rightarrow> string res" where
  "pgQualifyTable ref = render Pg (qualify ref)"

definition pgBuildSelectRows :: "table_ref \<Rightarrow> select_rows_options \<Rightarrow> sql_fragment res" where
  "pgBuildSelectRows ref opts =
     (let limitParam = length (whereParams opts) + 1; offsetParam = length (whereParams opts) + 2
      in fragment Pg
           (Txt ''SELECT *'' # (if includeVersion opts then PG_VERSION_PROJECTION else []) @ Txt '' FROM '' # qualify ref
              @ where_pieces opts @ order_pieces opts
              @ [Txt '' LIMIT '', Param limitParam, Txt '' OFFSET '', Param offsetParam])
           (select_params opts))"

definition pgBuildFilteredRowCount :: "table_ref \<Rightarrow> string \<Rightarrow> js_val list \<Rightarrow> sql_fragment res" where
  "pgBuildFilteredRowCount ref clause params =
     fragment Pg (Txt ''SELECT COUNT(*) AS count FROM '' # qualify ref @ [Txt '' '', Raw clause]) params"

definition pgBuildRowCountEstimate :: "table_ref \<Rightarrow> sql_fragment res" where
  "pgBuildRowCountEstimate ref =
     Inr \<lparr>fragSql = ''SELECT reltuples FROM pg_class WHERE oid = to_regclass(format(''
            @ [CHR 0x27] @ ''%I.%I'' @ [CHR 0x27] @ '', $1::text, $2::text))'',
          fragParams = [namespace_value ref, JStr (refName ref)]\<rparr>"

definition pgBuildDropTable :: "table_ref \<Rightarrow> sql_fragment res" where
  "pgBuildDropTable ref = fragment Pg (Txt ''DROP TABLE '' # qualify ref) []"

definition pgBuildTruncateTable :: "table_ref \<Rightarrow> sql_fragment res" where
  "pgBuildTruncateTable ref = fragment Pg (Txt ''TRUNCATE TABLE '' # qualify ref) []"

definition pgBuildInsertRow :: "table_ref \<Rightarrow> (string \<times> js_val) list \<Rightarrow> sql_fragment res" where
  "pgBuildInsertRow ref entries =
     (if entries = [] then fragment Pg (Txt ''INSERT INTO '' # qualify ref @ [Txt '' DEFAULT VALUES RETURNING *'']) []
      else fragment Pg
        (Txt ''INSERT INTO '' # qualify ref @ Txt '' ('' # sep_by '', '' (map (\<lambda>(c, v). [Ident c]) entries)
           @ Txt '') VALUES ('' # sep_by '', '' (map (\<lambda>i. [Param (i + 1)]) [0 ..< length entries])
           @ [Txt '') RETURNING *''])
        (map snd entries))"

definition pgBuildUpdateRow ::
  "table_ref \<Rightarrow> string \<Rightarrow> js_val \<Rightarrow> string list \<Rightarrow> js_val list \<Rightarrow> sql_fragment res" where
  "pgBuildUpdateRow ref column v pkColumns pkValues =
     fragment Pg
       (Txt ''UPDATE '' # qualify ref @ Txt '' SET '' # [Ident column, Txt '' = '', Param 1]
          @ Txt '' WHERE '' # sep_by '' AND '' (assigns '' = '' 2 pkColumns) @ [Txt '' RETURNING *''])
       (v # pkValues)"

text \<open>The guard's tests and the values they bind, from the position after the key's on.\<close>

definition pg_guard_tests :: "nat \<Rightarrow> row_update_guard \<Rightarrow> piece list list" where
  "pg_guard_tests first guard =
     (case guard of
        GuardVersion v \<Rightarrow> [[Txt ''xmin = '', Param first, Txt ''::xid'']]
      | GuardPreimage cs vs \<Rightarrow> assigns '' IS NOT DISTINCT FROM '' first cs)"

definition guard_values :: "row_update_guard \<Rightarrow> js_val list" where
  "guard_values guard =
     (case guard of GuardVersion v \<Rightarrow> [v] | GuardPreimage cs vs \<Rightarrow> map (at vs) [0 ..< length cs])"

definition pgBuildUpdateRowGuarded ::
  "table_ref \<Rightarrow> (string \<times> js_val) list \<Rightarrow> string list \<Rightarrow> js_val list \<Rightarrow> row_update_guard \<Rightarrow> sql_fragment res" where
  "pgBuildUpdateRowGuarded ref edits pkColumns pkValues guard =
     (let m = length edits; k = length pkColumns
      in fragment Pg
           (Txt ''UPDATE '' # qualify ref @ Txt '' SET '' # sep_by '', '' (assigns '' = '' 1 (map fst edits))
              @ Txt '' WHERE '' # sep_by '' AND ''
                  (assigns '' = '' (m + 1) pkColumns @ pg_guard_tests (m + k + 1) guard)
              @ Txt '' RETURNING *'' # PG_VERSION_PROJECTION)
           (map snd edits @ map (at pkValues) [0 ..< k] @ guard_values guard))"

definition pgBuildDeleteRow :: "table_ref \<Rightarrow> string list \<Rightarrow> js_val list \<Rightarrow> sql_fragment res" where
  "pgBuildDeleteRow ref pkColumns pkValues =
     fragment Pg (Txt ''DELETE FROM '' # qualify ref @ Txt '' WHERE '' # sep_by '' AND '' (assigns '' = '' 1 pkColumns))
       pkValues"

subsection \<open>MySQL\<close>

definition mysqlQualifyTable :: "table_ref \<Rightarrow> string res" where
  "mysqlQualifyTable ref = render Mysql (qualify ref)"

definition mysqlBuildSelectRows :: "table_ref \<Rightarrow> select_rows_options \<Rightarrow> sql_fragment res" where
  "mysqlBuildSelectRows ref opts =
     fragment Mysql
       (Txt ''SELECT * FROM '' # qualify ref @ where_pieces opts @ order_pieces opts
          @ [Txt '' LIMIT '', Param 0, Txt '' OFFSET '', Param 0])
       (select_params opts)"

definition mysqlBuildFilteredRowCount :: "table_ref \<Rightarrow> string \<Rightarrow> js_val list \<Rightarrow> sql_fragment res" where
  "mysqlBuildFilteredRowCount ref clause params =
     fragment Mysql (Txt ''SELECT COUNT(*) AS count FROM '' # qualify ref @ [Txt '' '', Raw clause]) params"

definition mysqlBuildRowCountEstimate :: "table_ref \<Rightarrow> sql_fragment res" where
  "mysqlBuildRowCountEstimate ref =
     Inr \<lparr>fragSql = join (CHR 0x0A # replicate 9 CHR '' '')
            [''SELECT TABLE_ROWS AS reltuples'', ''FROM information_schema.tables'',
             ''WHERE TABLE_SCHEMA = ? AND TABLE_NAME = ?''],
          fragParams = [namespace_value ref, JStr (refName ref)]\<rparr>"

definition mysqlBuildDropTable :: "table_ref \<Rightarrow> sql_fragment res" where
  "mysqlBuildDropTable ref = fragment Mysql (Txt ''DROP TABLE '' # qualify ref) []"

definition mysqlBuildTruncateTable :: "table_ref \<Rightarrow> sql_fragment res" where
  "mysqlBuildTruncateTable ref = fragment Mysql (Txt ''TRUNCATE TABLE '' # qualify ref) []"

definition mysqlBuildInsertRow :: "table_ref \<Rightarrow> (string \<times> js_val) list \<Rightarrow> sql_fragment res" where
  "mysqlBuildInsertRow ref entries =
     (if entries = [] then fragment Mysql (Txt ''INSERT INTO '' # qualify ref @ [Txt '' () VALUES ()'']) []
      else fragment Mysql
        (Txt ''INSERT INTO '' # qualify ref @ Txt '' ('' # sep_by '', '' (map (\<lambda>(c, v). [Ident c]) entries)
           @ Txt '') VALUES ('' # sep_by '', '' (map (\<lambda>e. [Param 0]) entries) @ [Txt '')''])
        (map snd entries))"

text \<open>\<open>cs.map((c) => `${mysqlQuoteIdent(c)} op ?`)\<close>\<close>

definition marks :: "string \<Rightarrow> string list \<Rightarrow> piece list list" where
  "marks op cs = map (\<lambda>c. [Ident c, Txt op, Param 0]) cs"

definition mysqlBuildUpdateRow ::
  "table_ref \<Rightarrow> string \<Rightarrow> js_val \<Rightarrow> string list \<Rightarrow> js_val list \<Rightarrow> sql_fragment res" where
  "mysqlBuildUpdateRow ref column v pkColumns pkValues =
     fragment Mysql
       (Txt ''UPDATE '' # qualify ref @ Txt '' SET '' # [Ident column, Txt '' = '', Param 0]
          @ Txt '' WHERE '' # sep_by '' AND '' (marks '' = '' pkColumns))
       (v # pkValues)"

definition mysqlBuildUpdateRowGuarded ::
  "table_ref \<Rightarrow> (string \<times> js_val) list \<Rightarrow> string list \<Rightarrow> js_val list \<Rightarrow> row_update_guard \<Rightarrow> sql_fragment res" where
  "mysqlBuildUpdateRowGuarded ref edits pkColumns pkValues guard =
     (case guard of
        GuardVersion v \<Rightarrow> Inl (PlainError ''MySQL does not support version-token concurrency'')
      | GuardPreimage cs vs \<Rightarrow>
          fragment Mysql
            (Txt ''UPDATE '' # qualify ref @ Txt '' SET '' # sep_by '', '' (marks '' = '' (map fst edits))
               @ Txt '' WHERE '' # sep_by '' AND '' (marks '' = '' pkColumns @ marks '' <=> '' cs))
            (map snd edits @ pkValues @ vs))"

definition mysqlBuildDeleteRow :: "table_ref \<Rightarrow> string list \<Rightarrow> js_val list \<Rightarrow> sql_fragment res" where
  "mysqlBuildDeleteRow ref pkColumns pkValues =
     fragment Mysql (Txt ''DELETE FROM '' # qualify ref @ Txt '' WHERE '' # sep_by '' AND '' (marks '' = '' pkColumns)) pkValues"

definition mysqlBuildSelectByPk :: "table_ref \<Rightarrow> string list \<Rightarrow> js_val list \<Rightarrow> sql_fragment res" where
  "mysqlBuildSelectByPk ref pkColumns pkValues =
     fragment Mysql (Txt ''SELECT * FROM '' # qualify ref @ Txt '' WHERE '' # sep_by '' AND '' (marks '' = '' pkColumns)) pkValues"

subsection \<open>SQLite\<close>

definition sqliteQualifyTable :: "table_ref \<Rightarrow> string res" where
  "sqliteQualifyTable ref = render Sqlite (qualify ref)"

definition sqliteBuildSelectRows :: "table_ref \<Rightarrow> select_rows_options \<Rightarrow> sql_fragment res" where
  "sqliteBuildSelectRows ref opts =
     fragment Sqlite
       (Txt ''SELECT * FROM '' # qualify ref @ where_pieces opts @ order_pieces opts
          @ [Txt '' LIMIT '', Param 0, Txt '' OFFSET '', Param 0])
       (select_params opts)"

definition sqliteBuildFilteredRowCount :: "table_ref \<Rightarrow> string \<Rightarrow> js_val list \<Rightarrow> sql_fragment res" where
  "sqliteBuildFilteredRowCount ref clause params =
     fragment Sqlite (Txt ''SELECT COUNT(*) AS count FROM '' # qualify ref @ [Txt '' '', Raw clause]) params"

definition sqliteBuildRowCountEstimate :: "table_ref \<Rightarrow> sql_fragment res" where
  "sqliteBuildRowCountEstimate ref = fragment Sqlite (Txt ''SELECT COUNT(*) AS reltuples FROM '' # qualify ref) []"

definition sqliteBuildDropTable :: "table_ref \<Rightarrow> sql_fragment res" where
  "sqliteBuildDropTable ref = fragment Sqlite (Txt ''DROP TABLE '' # qualify ref) []"

definition sqliteBuildTruncateTable :: "table_ref \<Rightarrow> sql_fragment res" where
  "sqliteBuildTruncateTable ref = fragment Sqlite (Txt ''DELETE FROM '' # qualify ref) []"

definition sqliteBuildInsertRow :: "table_ref \<Rightarrow> (string \<times> js_val) list \<Rightarrow> sql_fragment res" where
  "sqliteBuildInsertRow ref entries =
     (if entries = [] then fragment Sqlite (Txt ''INSERT INTO '' # qualify ref @ [Txt '' DEFAULT VALUES RETURNING *'']) []
      else fragment Sqlite
        (Txt ''INSERT INTO '' # qualify ref @ Txt '' ('' # sep_by '', '' (map (\<lambda>(c, v). [Ident c]) entries)
           @ Txt '') VALUES ('' # sep_by '', '' (map (\<lambda>e. [Param 0]) entries) @ [Txt '') RETURNING *''])
        (map snd entries))"

definition sqliteBuildUpdateRow ::
  "table_ref \<Rightarrow> string \<Rightarrow> js_val \<Rightarrow> string list \<Rightarrow> js_val list \<Rightarrow> sql_fragment res" where
  "sqliteBuildUpdateRow ref column v pkColumns pkValues =
     fragment Sqlite
       (Txt ''UPDATE '' # qualify ref @ Txt '' SET '' # [Ident column, Txt '' = '', Param 0]
          @ Txt '' WHERE '' # sep_by '' AND '' (marks '' = '' pkColumns) @ [Txt '' RETURNING *''])
       (v # pkValues)"

definition sqliteBuildUpdateRowGuarded ::
  "table_ref \<Rightarrow> (string \<times> js_val) list \<Rightarrow> string list \<Rightarrow> js_val list \<Rightarrow> row_update_guard \<Rightarrow> sql_fragment res" where
  "sqliteBuildUpdateRowGuarded ref edits pkColumns pkValues guard =
     (case guard of
        GuardVersion v \<Rightarrow> Inl (PlainError ''SQLite does not support version-token concurrency'')
      | GuardPreimage cs vs \<Rightarrow>
          fragment Sqlite
            (Txt ''UPDATE '' # qualify ref @ Txt '' SET '' # sep_by '', '' (marks '' = '' (map fst edits))
               @ Txt '' WHERE '' # sep_by '' AND '' (marks '' = '' pkColumns @ marks '' IS '' cs) @ [Txt '' RETURNING *''])
            (map snd edits @ pkValues @ vs))"

definition sqliteBuildDeleteRow :: "table_ref \<Rightarrow> string list \<Rightarrow> js_val list \<Rightarrow> sql_fragment res" where
  "sqliteBuildDeleteRow ref pkColumns pkValues =
     fragment Sqlite (Txt ''DELETE FROM '' # qualify ref @ Txt '' WHERE '' # sep_by '' AND '' (marks '' = '' pkColumns)) pkValues"

subsection \<open>By engine\<close>

definition buildSelectRows :: "engine \<Rightarrow> table_ref \<Rightarrow> select_rows_options \<Rightarrow> sql_fragment res" where
  "buildSelectRows e = (case e of Pg \<Rightarrow> pgBuildSelectRows | Mysql \<Rightarrow> mysqlBuildSelectRows | Sqlite \<Rightarrow> sqliteBuildSelectRows)"

definition buildFilteredRowCount :: "engine \<Rightarrow> table_ref \<Rightarrow> string \<Rightarrow> js_val list \<Rightarrow> sql_fragment res" where
  "buildFilteredRowCount e =
     (case e of Pg \<Rightarrow> pgBuildFilteredRowCount | Mysql \<Rightarrow> mysqlBuildFilteredRowCount | Sqlite \<Rightarrow> sqliteBuildFilteredRowCount)"

definition buildRowCountEstimate :: "engine \<Rightarrow> table_ref \<Rightarrow> sql_fragment res" where
  "buildRowCountEstimate e =
     (case e of Pg \<Rightarrow> pgBuildRowCountEstimate | Mysql \<Rightarrow> mysqlBuildRowCountEstimate | Sqlite \<Rightarrow> sqliteBuildRowCountEstimate)"

definition buildInsertRow :: "engine \<Rightarrow> table_ref \<Rightarrow> (string \<times> js_val) list \<Rightarrow> sql_fragment res" where
  "buildInsertRow e = (case e of Pg \<Rightarrow> pgBuildInsertRow | Mysql \<Rightarrow> mysqlBuildInsertRow | Sqlite \<Rightarrow> sqliteBuildInsertRow)"

definition buildUpdateRow ::
  "engine \<Rightarrow> table_ref \<Rightarrow> string \<Rightarrow> js_val \<Rightarrow> string list \<Rightarrow> js_val list \<Rightarrow> sql_fragment res" where
  "buildUpdateRow e = (case e of Pg \<Rightarrow> pgBuildUpdateRow | Mysql \<Rightarrow> mysqlBuildUpdateRow | Sqlite \<Rightarrow> sqliteBuildUpdateRow)"

definition buildUpdateRowGuarded ::
  "engine \<Rightarrow> table_ref \<Rightarrow> (string \<times> js_val) list \<Rightarrow> string list \<Rightarrow> js_val list \<Rightarrow> row_update_guard \<Rightarrow> sql_fragment res" where
  "buildUpdateRowGuarded e =
     (case e of Pg \<Rightarrow> pgBuildUpdateRowGuarded | Mysql \<Rightarrow> mysqlBuildUpdateRowGuarded | Sqlite \<Rightarrow> sqliteBuildUpdateRowGuarded)"

definition buildDeleteRow :: "engine \<Rightarrow> table_ref \<Rightarrow> string list \<Rightarrow> js_val list \<Rightarrow> sql_fragment res" where
  "buildDeleteRow e = (case e of Pg \<Rightarrow> pgBuildDeleteRow | Mysql \<Rightarrow> mysqlBuildDeleteRow | Sqlite \<Rightarrow> sqliteBuildDeleteRow)"

subsection \<open>Placeholders\<close>

definition params_of :: "piece list \<Rightarrow> nat list" where
  "params_of ps = concat (map (\<lambda>p. case p of Param i \<Rightarrow> [i] | _ \<Rightarrow> []) ps)"

lemma params_of_simps [simp]:
  "params_of [] = []" "params_of (Txt s # ps) = params_of ps" "params_of (Ident s # ps) = params_of ps"
  "params_of (Raw s # ps) = params_of ps" "params_of (Param i # ps) = i # params_of ps"
  "params_of (ps @ qs) = params_of ps @ params_of qs"
  by (simp_all add: params_of_def)

lemma params_of_sep_by [simp]: "params_of (sep_by sep ps) = concat (map params_of ps)"
  by (induction sep ps rule: sep_by.induct) simp_all

lemma assigns_simps [simp]:
  "assigns op i [] = []" "assigns op i (c # cs) = [Ident c, Txt op, Param i] # assigns op (Suc i) cs"
  by (simp_all add: assigns_def)

lemma marks_simps [simp]: "marks op [] = []" "marks op (c # cs) = [Ident c, Txt op, Param 0] # marks op cs"
  by (simp_all add: marks_def)

lemma params_of_assigns [simp]: "concat (map params_of (assigns op i cs)) = [i ..< i + length cs]"
  by (induction cs arbitrary: i) (simp_all add: upt_conv_Cons del: upt_Suc)

lemma params_of_marks [simp]: "concat (map params_of (marks op cs)) = replicate (length cs) 0"
  by (induction cs) (simp_all add: marks_def)

lemma params_of_qualify [simp]: "params_of (qualify ref) = []"
  by (simp add: qualify_def split: option.split)

lemma param_ids_tokens: "no_raw ps \<Longrightarrow> param_ids (tokens e ps) = map (param_index e) (params_of ps)"
proof (induction ps)
  case Nil
  then show ?case by (simp add: param_ids_def)
next
  case (Cons p ps)
  then show ?case by (cases p) (simp_all add: param_ids_def param_token_def comp_def)
qed

lemma space_plain [simp]: "plain_char CHR '' ''"
  by (simp add: plain_char_def)

lemma spaced_assigns:
  "list_all plain_char op \<Longrightarrow> list_all (\<lambda>p. well_spaced e p \<and> no_raw p) (assigns (CHR '' '' # op) i cs)"
  by (induction cs arbitrary: i) simp_all

lemma spaced_marks:
  "list_all plain_char op \<Longrightarrow> list_all (\<lambda>p. well_spaced e p \<and> no_raw p) (marks (CHR '' '' # op) cs)"
  by (induction cs) simp_all

lemma spaced_idents: "list_all (\<lambda>p. well_spaced e p \<and> no_raw p) (map (\<lambda>(c, v). [Ident c]) entries)"
  by (auto simp: list_all_iff)

lemma spaced_params: "list_all (\<lambda>p. well_spaced e p \<and> no_raw p) (map (\<lambda>i. [Param (f i)]) is)"
  by (simp add: list_all_iff)

lemma no_raw_parts: "list_all (\<lambda>p. well_spaced e p \<and> no_raw p) ps \<Longrightarrow> list_all no_raw ps"
  by (simp add: list_all_iff)

text \<open>A list of parts without compiled text, between fixed texts.\<close>

lemma well_spaced_suffix: "well_spaced e (ps @ qs) \<Longrightarrow> well_spaced e qs"
  by (induction e ps rule: well_spaced.induct) simp_all

lemma spaced_list:
  assumes "list_all (\<lambda>p. well_spaced e p \<and> no_raw p) ps" "list_all plain_char sep" "sep \<noteq> []" "safe_start (hd sep)"
    "starts_safe qs"
  shows "well_spaced e (sep_by sep ps @ qs) = well_spaced e qs"
proof
  assume "well_spaced e qs"
  with assms show "well_spaced e (sep_by sep ps @ qs)"
    by (intro well_spaced_append' well_spaced_sep_by no_raw_sep_by no_raw_parts [OF assms(1)]) simp_all
qed (rule well_spaced_suffix)

lemma spaced_qualify: "starts_safe qs \<Longrightarrow> well_spaced e (qualify ref @ qs) = well_spaced e qs"
  using well_spaced_qualify well_spaced_suffix by blast

lemma seps: "list_all plain_char '', ''" "list_all plain_char '' AND ''"
  by (simp_all add: plain_char_def)

lemma spaced_lists [template_simps]:
  assumes "list_all (\<lambda>p. well_spaced e p \<and> no_raw p) ps"
  shows "starts_safe qs \<Longrightarrow> well_spaced e (sep_by '', '' ps @ qs) = well_spaced e qs"
    "starts_safe qs \<Longrightarrow> well_spaced e (sep_by '' AND '' ps @ qs) = well_spaced e qs"
    "well_spaced e (sep_by '', '' ps)" "well_spaced e (sep_by '' AND '' ps)"
  using spaced_list [OF assms seps(1)] spaced_list [OF assms seps(2)]
    well_spaced_sep_by [OF assms seps(1)] well_spaced_sep_by [OF assms seps(2)] by simp_all

lemma qualify_end: "well_spaced e (qualify ref)" "no_raw (qualify ref)"
  using qualify_spaced by simp_all

lemmas [template_simps] = spaced_qualify qualify_end spaced_assigns spaced_marks spaced_idents spaced_params
  no_raw_sep_by no_raw_parts list_all_append

lemma params_of_mapped [simp]:
  "concat (map (params_of \<circ> (\<lambda>(c, v). [Ident c])) entries) = []"
  "concat (map (params_of \<circ> (\<lambda>i. [Param (Suc i)])) [0 ..< n]) = [Suc 0 ..< Suc n]"
  "concat (map (params_of \<circ> (\<lambda>x. [Param 0])) xs) = replicate (length xs) 0"
  by (auto simp: concat_eq_Nil_conv, induction n, simp_all add: comp_def, induction xs, simp_all)

lemma param_index_0 [simp]: "param_index e 0 = 0"
  by (simp add: param_index_def)

text \<open>The statements that write rows.\<close>

definition guard_ok :: "row_update_guard \<Rightarrow> bool" where
  "guard_ok guard = (case guard of GuardVersion v \<Rightarrow> True | GuardPreimage cs vs \<Rightarrow> length vs = length cs)"

inductive row_write :: "engine \<Rightarrow> sql_fragment \<Rightarrow> bool" where
  rw_insert: "buildInsertRow e ref entries = Inr f \<Longrightarrow> row_write e f"
| rw_update: "buildUpdateRow e ref c v pk pkv = Inr f \<Longrightarrow> length pkv = length pk \<Longrightarrow> row_write e f"
| rw_guarded: "buildUpdateRowGuarded e ref edits pk pkv guard = Inr f \<Longrightarrow> length pkv = length pk \<Longrightarrow>
    guard_ok guard \<Longrightarrow> row_write e f"
| rw_delete: "buildDeleteRow e ref pk pkv = Inr f \<Longrightarrow> length pkv = length pk \<Longrightarrow> row_write e f"

lemma fragment_param_ids:
  assumes "fragment e ps params = Inr f" "well_spaced e ps" "no_raw ps"
    "map (param_index e) (params_of ps) = map (param_index e) [1 ..< Suc (length params)]"
  shows "param_ids (lex e (fragSql f)) = map (param_index e) [1 ..< Suc (length (fragParams f))]"
  using lex_fragment [OF assms(1,2)] assms(3,4) by (simp add: param_ids_tokens)

lemma unnumbered: "e \<noteq> Pg \<Longrightarrow> map (param_index e) xs = replicate (length xs) 0"
  by (induction xs) (simp_all add: param_index_def)

lemma insert_param_ids:
  assumes "buildInsertRow e ref entries = Inr f"
  shows "param_ids (lex e (fragSql f)) = map (param_index e) [1 ..< Suc (length (fragParams f))]"
proof (cases "entries = []")
  case True
  then obtain t where f: "fragment e (Txt ''INSERT INTO '' # qualify ref @ [Txt t]) [] = Inr f"
    and "t = '' DEFAULT VALUES RETURNING *'' \<or> t = '' () VALUES ()''"
    using assms
    by (cases e) (simp_all add: buildInsertRow_def pgBuildInsertRow_def mysqlBuildInsertRow_def sqliteBuildInsertRow_def)
  then show ?thesis
    by (intro fragment_param_ids [OF f]) (auto simp: template_simps plain_char_def)
next
  case False
  show ?thesis
  proof (cases e)
    case Pg
    with False assms have f: "fragment e
        (Txt ''INSERT INTO '' # qualify ref @ Txt '' ('' # sep_by '', '' (map (\<lambda>(c, v). [Ident c]) entries)
           @ Txt '') VALUES ('' # sep_by '', '' (map (\<lambda>i. [Param (i + 1)]) [0 ..< length entries])
           @ [Txt '') RETURNING *'']) (map snd entries) = Inr f"
      by (simp add: buildInsertRow_def pgBuildInsertRow_def)
    show ?thesis
      by (rule fragment_param_ids [OF f]) (simp_all add: template_simps plain_char_def del: upt_Suc)
  next
    case Mysql
    with False assms have f: "fragment e
        (Txt ''INSERT INTO '' # qualify ref @ Txt '' ('' # sep_by '', '' (map (\<lambda>(c, v). [Ident c]) entries)
           @ Txt '') VALUES ('' # sep_by '', '' (map (\<lambda>e. [Param 0]) entries) @ [Txt '')'']) (map snd entries) = Inr f"
      by (simp add: buildInsertRow_def mysqlBuildInsertRow_def)
    show ?thesis
      by (rule fragment_param_ids [OF f]) (simp_all add: template_simps plain_char_def unnumbered Mysql del: upt_Suc)
  next
    case Sqlite
    with False assms have f: "fragment e
        (Txt ''INSERT INTO '' # qualify ref @ Txt '' ('' # sep_by '', '' (map (\<lambda>(c, v). [Ident c]) entries)
           @ Txt '') VALUES ('' # sep_by '', '' (map (\<lambda>e. [Param 0]) entries) @ [Txt '') RETURNING *'']) (map snd entries) = Inr f"
      by (simp add: buildInsertRow_def sqliteBuildInsertRow_def)
    show ?thesis
      by (rule fragment_param_ids [OF f]) (simp_all add: template_simps plain_char_def unnumbered Sqlite del: upt_Suc)
  qed
qed

lemma update_param_ids:
  assumes "buildUpdateRow e ref c v pk pkv = Inr f" "length pkv = length pk"
  shows "param_ids (lex e (fragSql f)) = map (param_index e) [1 ..< Suc (length (fragParams f))]"
proof (cases e)
  case Pg
  with assms have f: "fragment e
      (Txt ''UPDATE '' # qualify ref @ Txt '' SET '' # [Ident c, Txt '' = '', Param 1]
          @ Txt '' WHERE '' # sep_by '' AND '' (assigns '' = '' 2 pk) @ [Txt '' RETURNING *'']) (v # pkv) = Inr f"
    by (simp add: buildUpdateRow_def pgBuildUpdateRow_def)
  show ?thesis
    by (rule fragment_param_ids [OF f])
       (use assms(2) in \<open>simp_all add: template_simps plain_char_def numeral_2_eq_2 upt_conv_Cons del: upt_Suc\<close>)
next
  case Mysql
  with assms have f: "fragment e
      (Txt ''UPDATE '' # qualify ref @ Txt '' SET '' # [Ident c, Txt '' = '', Param 0]
          @ Txt '' WHERE '' # sep_by '' AND '' (marks '' = '' pk)) (v # pkv) = Inr f"
    by (simp add: buildUpdateRow_def mysqlBuildUpdateRow_def)
  show ?thesis
    by (rule fragment_param_ids [OF f])
       (use assms(2) in \<open>simp_all add: template_simps plain_char_def unnumbered Mysql del: upt_Suc\<close>)
next
  case Sqlite
  with assms have f: "fragment e
      (Txt ''UPDATE '' # qualify ref @ Txt '' SET '' # [Ident c, Txt '' = '', Param 0]
          @ Txt '' WHERE '' # sep_by '' AND '' (marks '' = '' pk) @ [Txt '' RETURNING *'']) (v # pkv) = Inr f"
    by (simp add: buildUpdateRow_def sqliteBuildUpdateRow_def)
  show ?thesis
    by (rule fragment_param_ids [OF f])
       (use assms(2) in \<open>simp_all add: template_simps plain_char_def unnumbered Sqlite del: upt_Suc\<close>)
qed

lemma delete_param_ids:
  assumes "buildDeleteRow e ref pk pkv = Inr f" "length pkv = length pk"
  shows "param_ids (lex e (fragSql f)) = map (param_index e) [1 ..< Suc (length (fragParams f))]"
proof (cases "e = Pg")
  case True
  with assms have f: "fragment e
      (Txt ''DELETE FROM '' # qualify ref @ Txt '' WHERE '' # sep_by '' AND '' (assigns '' = '' 1 pk)) pkv = Inr f"
    by (simp add: buildDeleteRow_def pgBuildDeleteRow_def)
  show ?thesis
    by (rule fragment_param_ids [OF f])
       (use assms(2) in \<open>simp_all add: template_simps plain_char_def del: upt_Suc\<close>)
next
  case False
  with assms have f: "fragment e
      (Txt ''DELETE FROM '' # qualify ref @ Txt '' WHERE '' # sep_by '' AND '' (marks '' = '' pk)) pkv = Inr f"
    by (cases e) (simp_all add: buildDeleteRow_def mysqlBuildDeleteRow_def sqliteBuildDeleteRow_def)
  show ?thesis
    by (rule fragment_param_ids [OF f])
       (use assms(2) False in \<open>simp_all add: template_simps plain_char_def unnumbered del: upt_Suc\<close>)
qed

subsection \<open>The guarded update\<close>

text \<open>The null-safe equality of the engine, and the template of the statement its engine reads.\<close>

definition same_op :: "engine \<Rightarrow> string" where
  "same_op e = (case e of Pg \<Rightarrow> '' IS NOT DISTINCT FROM '' | Mysql \<Rightarrow> '' <=> '' | Sqlite \<Rightarrow> '' IS '')"

definition returning :: "engine \<Rightarrow> piece list" where
  "returning e =
     (case e of Pg \<Rightarrow> Txt '' RETURNING *'' # PG_VERSION_PROJECTION | Mysql \<Rightarrow> [] | Sqlite \<Rightarrow> [Txt '' RETURNING *''])"

definition tests :: "engine \<Rightarrow> string \<Rightarrow> nat \<Rightarrow> string list \<Rightarrow> piece list list" where
  "tests e op first cs = (if e = Pg then assigns op first cs else marks op cs)"

definition guard_tests :: "engine \<Rightarrow> nat \<Rightarrow> row_update_guard \<Rightarrow> piece list list" where
  "guard_tests e first guard =
     (case guard of
        GuardVersion v \<Rightarrow> [[Txt ''xmin = '', Param first, Txt ''::xid'']]
      | GuardPreimage cs vs \<Rightarrow> tests e (same_op e) first cs)"

definition guarded_template ::
  "engine \<Rightarrow> table_ref \<Rightarrow> string list \<Rightarrow> string list \<Rightarrow> row_update_guard \<Rightarrow> piece list" where
  "guarded_template e ref cs pk guard =
     Txt ''UPDATE '' # qualify ref @ Txt '' SET '' # sep_by '', '' (tests e '' = '' 1 cs)
       @ Txt '' WHERE '' # sep_by '' AND ''
           (tests e '' = '' (length cs + 1) pk @ guard_tests e (length cs + length pk + 1) guard)
       @ returning e"

lemma map_at_all: "length vs = n \<Longrightarrow> map (at vs) [0 ..< n] = vs"
  by (rule nth_equalityI) (simp_all add: at_def)

lemma guarded_fragment:
  assumes "buildUpdateRowGuarded e ref edits pk pkv guard = Inr f" "length pkv = length pk" "guard_ok guard"
  shows "fragment e (guarded_template e ref (map fst edits) pk guard) (map snd edits @ pkv @ guard_values guard) = Inr f
    \<and> (e \<noteq> Pg \<longrightarrow> (\<exists>cs vs. guard = GuardPreimage cs vs))"
  using assms
  by (cases e; cases guard)
     (simp_all add: buildUpdateRowGuarded_def pgBuildUpdateRowGuarded_def mysqlBuildUpdateRowGuarded_def
       sqliteBuildUpdateRowGuarded_def guarded_template_def tests_def guard_tests_def pg_guard_tests_def same_op_def
       returning_def map_at_all guard_values_def guard_ok_def Let_def)

lemma spaced_tests [template_simps]: "list_all plain_char op \<Longrightarrow> list_all (\<lambda>p. well_spaced e p \<and> no_raw p) (tests e (CHR '' '' # op) i cs)"
  by (simp add: tests_def spaced_assigns spaced_marks)

lemma same_op_cases: "same_op e = CHR '' '' # tl (same_op e) \<and> list_all plain_char (tl (same_op e))"
  by (cases e) (simp_all add: same_op_def plain_char_def)

lemma spaced_guard_tests [template_simps]: "list_all (\<lambda>p. well_spaced e p \<and> no_raw p) (guard_tests e i guard)"
  using spaced_tests [of "tl (same_op e)" e] same_op_cases [of e]
  by (cases guard) (simp_all add: guard_tests_def plain_char_def)

lemma returning_spaced: "well_spaced e (returning e)" "no_raw (returning e)" "starts_safe (returning e)" "params_of (returning e) = []"
  by (cases e; simp add: returning_def PG_VERSION_PROJECTION_def plain_char_def)+

lemma params_of_tests [simp]:
  "map (param_index e) (concat (map params_of (tests e op i cs))) = map (param_index e) [i ..< i + length cs]"
  by (cases "e = Pg") (simp_all add: tests_def unnumbered)

lemma guarded_spaced: "well_spaced e (guarded_template e ref cs pk guard) \<and> no_raw (guarded_template e ref cs pk guard)"
  using no_raw_parts [OF spaced_tests [of "''= ''" e]] no_raw_parts [OF spaced_guard_tests [of e]]
  by (simp add: guarded_template_def template_simps returning_spaced plain_char_def)

text \<open>
  C22. The optimistic write is exactly the guarded statement: on every engine, the statement built for a
  row's edits is read by that engine as one \<open>UPDATE\<close> of the table that sets the edited columns and is
  restricted by an equality on every primary-key column and by the guard (the \<open>xmin\<close> token, or a
  null-safe equality on each pre-image column), whatever characters the names hold; the values bound are
  the new values, the key and the guard's values in the order of the placeholders; and MySQL and SQLite
  accept only a pre-image.
\<close>

theorem guarded_update_reads:
  assumes "buildUpdateRowGuarded e ref edits pk pkv guard = Inr f" "length pkv = length pk" "guard_ok guard"
  shows "lex e (fragSql f) = tokens e (guarded_template e ref (map fst edits) pk guard)
    \<and> fragParams f = map snd edits @ pkv @ guard_values guard
    \<and> (e \<noteq> Pg \<longrightarrow> (\<exists>cs vs. guard = GuardPreimage cs vs))"
  using guarded_fragment [OF assms] lex_fragment guarded_spaced by blast

lemma guarded_param_ids:
  assumes "buildUpdateRowGuarded e ref edits pk pkv guard = Inr f" "length pkv = length pk" "guard_ok guard"
  shows "param_ids (lex e (fragSql f)) = map (param_index e) [1 ..< Suc (length (fragParams f))]"
proof (rule fragment_param_ids)
  let ?m = "length edits" and ?k = "length pk"
  show "fragment e (guarded_template e ref (map fst edits) pk guard) (map snd edits @ pkv @ guard_values guard) = Inr f"
    and "well_spaced e (guarded_template e ref (map fst edits) pk guard)"
    and "no_raw (guarded_template e ref (map fst edits) pk guard)"
    using guarded_fragment [OF assms] guarded_spaced by blast+
  have g: "map (param_index e) (concat (map params_of (guard_tests e i guard)))
      = map (param_index e) [i ..< i + length (guard_values guard)]" for i
    by (cases guard) (simp_all add: guard_tests_def guard_values_def)
  have "[1 ..< Suc (?m + ?k + length (guard_values guard))] =
      [1 ..< Suc ?m] @ [Suc ?m ..< Suc ?m + ?k] @ [Suc (?m + ?k) ..< Suc (?m + ?k) + length (guard_values guard)]"
    using upt_add_eq_append [of 1 "Suc ?m" ?k] upt_add_eq_append [of 1 "Suc (?m + ?k)" "length (guard_values guard)"]
    by simp
  then show "map (param_index e) (params_of (guarded_template e ref (map fst edits) pk guard)) =
      map (param_index e) [1 ..< Suc (length (map snd edits @ pkv @ guard_values guard))]"
    using assms(2) g [of "Suc (?m + ?k)"]
    by (simp add: guarded_template_def returning_spaced add.assoc del: upt_Suc)
qed

text \<open>
  Every value a row write binds has its own placeholder and every placeholder its value: in the text
  of an insert, an update, a guarded update or a delete the engine reads as many placeholders as values
  are bound, numbered from one in their order on PostgreSQL, whatever the table and column names hold.
\<close>

theorem row_write_placeholders:
  assumes "row_write e f"
  shows "param_ids (lex e (fragSql f)) = map (param_index e) [1 ..< Suc (length (fragParams f))]"
  using assms
proof (cases rule: row_write.cases)
  case (rw_insert ref entries)
  then show ?thesis by (rule insert_param_ids)
next
  case (rw_update ref c v pk pkv)
  then show ?thesis by (rule update_param_ids)
next
  case (rw_guarded ref edits pk pkv guard)
  then show ?thesis by (rule guarded_param_ids)
next
  case (rw_delete ref pk pkv)
  then show ?thesis by (rule delete_param_ids)
qed

subsection \<open>Reading rows\<close>

definition version_pieces :: "engine \<Rightarrow> select_rows_options \<Rightarrow> piece list" where
  "version_pieces e opts = (if e = Pg \<and> includeVersion opts then PG_VERSION_PROJECTION else [])"

definition select_template :: "engine \<Rightarrow> table_ref \<Rightarrow> select_rows_options \<Rightarrow> piece list" where
  "select_template e ref opts =
     (let n = (if e = Pg then length (whereParams opts) else 0); m = (if e = Pg then 1 else 0)
      in Txt ''SELECT *'' # version_pieces e opts @ Txt '' FROM '' # qualify ref @ where_pieces opts @ order_pieces opts
           @ [Txt '' LIMIT '', Param (n + m), Txt '' OFFSET '', Param (n + m + m)])"

lemma select_fragment:
  assumes "buildSelectRows e ref opts = Inr f"
  shows "fragment e (select_template e ref opts) (select_params opts) = Inr f"
proof -
  have "render e (Txt ''SELECT * FROM '' # ps) = render e (Txt ''SELECT *'' # Txt '' FROM '' # ps)" for ps
    by (cases "render e ps") (simp_all add: render_Cons piece_text_def)
  then show ?thesis using assms
    by (cases e) (simp_all add: buildSelectRows_def pgBuildSelectRows_def mysqlBuildSelectRows_def
      sqliteBuildSelectRows_def select_template_def version_pieces_def Let_def fragment_def)
qed

lemma order_spaced: "well_spaced e (order_pieces opts @ qs) = well_spaced e qs" if "starts_space qs" for qs
  using that
  by (cases qs rule: starts_space.cases; cases "sortDir opts")
     (auto simp: order_pieces_def sort_text_def plain_char_def split: option.split)

lemma order_starts: "starts_space qs \<Longrightarrow> starts_space (order_pieces opts @ qs)"
  by (simp add: order_pieces_def split: option.split)

lemma space_starts_safe: "starts_space ps \<Longrightarrow> starts_safe ps"
  by (cases ps rule: starts_space.cases) simp_all

lemma version_spaced: "starts_safe qs \<Longrightarrow> well_spaced e (version_pieces e opts @ qs) = well_spaced e qs"
  by (simp add: version_pieces_def PG_VERSION_PROJECTION_def plain_char_def)

lemma compiled_self_contained:
  "compileWhere rf columns off (engine_whereDialect e) = Inr (clause, params) \<Longrightarrow> self_contained e clause"
  using compileWhere_lex_app [of rf columns off e clause params] compileWhere_lex [of rf columns off e clause params]
  by (auto simp: self_contained_def ends_param_def)

lemma select_spaced:
  assumes "self_contained e (whereClause opts)"
  shows "well_spaced e (select_template e ref opts)"
proof -
  let ?window = "\<lambda>a b. [Txt '' LIMIT '', Param a, Txt '' OFFSET '', Param b]"
  have 1: "well_spaced e (?window a b)" for a b by (simp add: plain_char_def)
  have 2: "well_spaced e (order_pieces opts @ ?window a b)" for a b
    using 1 by (subst order_spaced) simp_all
  have 3: "starts_space (order_pieces opts @ ?window a b)" for a b by (rule order_starts) simp
  have 4: "well_spaced e (where_pieces opts @ order_pieces opts @ ?window a b)
      \<and> starts_space (where_pieces opts @ order_pieces opts @ ?window a b)" for a b
    using 2 3 assms by (simp add: where_pieces_def)
  have 5: "well_spaced e (qualify ref @ where_pieces opts @ order_pieces opts @ ?window a b)" for a b
    using 4 by (subst spaced_qualify) (simp_all add: space_starts_safe)
  show ?thesis
    using 5 by (simp add: select_template_def Let_def version_spaced plain_char_def)
qed

text \<open>
  A grid read is the filter the client asked for over the table it named: the statement built for a
  page is read by the engine as the selection of the table's rows, restricted by exactly the compiled
  filter's tests, ordered by the one column, and bounded by the limit and the offset, which are bound as
  the last two values after the filter's.
\<close>

theorem select_rows_reads:
  assumes "compileWhere rf columns 0 (engine_whereDialect e) = Inr (whereClause opts, whereParams opts)"
    "conditions rf \<noteq> []" "buildSelectRows e ref opts = Inr f"
  shows "\<exists>i j. lex e (fragSql f) =
      map TChar ''SELECT *'' @ tokens e (version_pieces e opts) @ map TChar '' FROM '' @ tokens e (qualify ref)
        @ TChar (CHR '' '') # where_tokens e rf 0 @ tokens e (order_pieces opts)
        @ map TChar '' LIMIT '' @ TParam i # map TChar '' OFFSET '' @ [TParam j]
    \<and> fragParams f = concat (map (cond_params e) (conditions rf)) @ [JNum (optLimit opts), JNum (optOffset opts)]"
proof -
  have c: "lex e (whereClause opts) = where_tokens e rf 0" "whereParams opts = concat (map (cond_params e) (conditions rf))"
    using compileWhere_lex [OF assms(1)] by simp_all
  have ne: "whereClause opts \<noteq> []"
    using assms(1,2) by (auto simp: compileWhere_def res_simps)
  have l: "lex e (fragSql f) = tokens e (select_template e ref opts)" "fragParams f = select_params opts"
    using lex_fragment [OF select_fragment [OF assms(3)] select_spaced [OF compiled_self_contained [OF assms(1)]]] by simp_all
  have "\<exists>i j. lex e (fragSql f) =
      map TChar ''SELECT *'' @ tokens e (version_pieces e opts) @ map TChar '' FROM '' @ tokens e (qualify ref)
        @ TChar (CHR '' '') # where_tokens e rf 0 @ tokens e (order_pieces opts)
        @ map TChar '' LIMIT '' @ TParam i # map TChar '' OFFSET '' @ [TParam j]"
    unfolding l(1) select_template_def Let_def using ne c(1)
    by (simp add: where_pieces_def param_token_def)
  moreover have "fragParams f = concat (map (cond_params e) (conditions rf)) @ [JNum (optLimit opts), JNum (optOffset opts)]"
    unfolding l(2) by (simp add: select_params_def c(2))
  ultimately show ?thesis by blast
qed

subsection \<open>Witnesses\<close>

lemmas render_eval = fragment_def render_def piece_text_def engine_quote_def quoteIdent_def mysqlQuoteIdent_def
  includes_single replace_char_def dquote_def qualify_def engine_placeholder_def pgPlaceholder_def
  mysqlPlaceholder_def sqlitePlaceholder_def

definition example_ref :: table_ref where
  "example_ref = \<lparr>refNamespace = None, refName = ''t''\<rparr>"

lemma example_guarded:
  "buildUpdateRowGuarded Sqlite example_ref [(''a'', JNum 1)] [''id''] [JNum 7] (GuardPreimage [''a''] [JNull])
   = Inr \<lparr>fragSql = ''UPDATE \"t\" SET \"a\" = ? WHERE \"id\" = ? AND \"a\" IS ? RETURNING *'',
          fragParams = [JNum 1, JNum 7, JNull]\<rparr>"
  by (simp add: buildUpdateRowGuarded_def sqliteBuildUpdateRowGuarded_def render_eval example_ref_def)

theorem guarded_update_reads_witness:
  "lex Sqlite ''UPDATE \"t\" SET \"a\" = ? WHERE \"id\" = ? AND \"a\" IS ? RETURNING *'' =
     tokens Sqlite (guarded_template Sqlite example_ref [''a''] [''id''] (GuardPreimage [''a''] [JNull]))"
  using guarded_update_reads [OF example_guarded] by (simp add: guard_ok_def)

theorem row_write_placeholders_witness:
  "param_ids (lex Sqlite ''UPDATE \"t\" SET \"a\" = ? WHERE \"id\" = ? AND \"a\" IS ? RETURNING *'') = [0, 0, 0]"
  using row_write_placeholders [OF rw_guarded [OF example_guarded]]
  by (simp add: guard_ok_def param_index_def)

definition example_options :: select_rows_options where
  "example_options = \<lparr>whereClause = ''WHERE \"id\" > $1 AND \"id\" IS NOT NULL'', whereParams = [JNum 7],
     orderColumn = Some ''id'', sortDir = ASC, optLimit = 10, optOffset = 0, includeVersion = False\<rparr>"

lemma example_select:
  "buildSelectRows Pg example_ref example_options
   = Inr \<lparr>fragSql = ''SELECT * FROM \"t\" WHERE \"id\" > $1 AND \"id\" IS NOT NULL ORDER BY \"id\" ASC LIMIT $2 OFFSET $3'',
          fragParams = [JNum 7, JNum 10, JNum 0]\<rparr>"
  by (simp add: buildSelectRows_def pgBuildSelectRows_def render_eval example_ref_def example_options_def
      where_pieces_def order_pieces_def sort_text_def select_params_def show_nat_digit digit_of_def char_of_def bit_0)

theorem select_rows_reads_witness:
  "\<exists>i j. lex Pg ''SELECT * FROM \"t\" WHERE \"id\" > $1 AND \"id\" IS NOT NULL ORDER BY \"id\" ASC LIMIT $2 OFFSET $3'' =
      map TChar ''SELECT *'' @ tokens Pg (version_pieces Pg example_options) @ map TChar '' FROM ''
        @ tokens Pg (qualify example_ref) @ TChar (CHR '' '') # where_tokens Pg example_filter 0
        @ tokens Pg (order_pieces example_options)
        @ map TChar '' LIMIT '' @ TParam i # map TChar '' OFFSET '' @ [TParam j]"
proof -
  have ne: "conditions example_filter \<noteq> []" by (simp add: example_filter_def)
  have "compileWhere example_filter example_columns 0 (engine_whereDialect Pg)
      = Inr (whereClause example_options, whereParams example_options)"
    using example_compiles by (simp add: example_options_def)
  from select_rows_reads [OF this ne example_select] show ?thesis by simp
qed

end
