(* ===== verification/Literals.thy ===== *)
theory Literals
  imports Identifiers
begin

text \<open>
  \<open>drivers/literal.ts\<close> and the three engines' \<open>*FormatLiteral\<close>: the literals of a SQL export. The
  string quoting functions implement the \<open>quoting\<close> interface for their engine's string literals.
\<close>

record literal_dialect =
  ld_bool :: "bool \<Rightarrow> string"
  ld_bytes :: "string \<Rightarrow> string"
  ld_quoteString :: "string \<Rightarrow> string"

definition hex_of_bytes :: "string \<Rightarrow> string" where
  "hex_of_bytes bs = concat (map hex_byte bs)"

definition formatLiteral :: "js_val \<Rightarrow> literal_dialect \<Rightarrow> string res" where
  "formatLiteral v d =
     (case v of
        JNull \<Rightarrow> Inr ''NULL''
      | JUndef \<Rightarrow> Inr ''NULL''
      | JBool b \<Rightarrow> Inr (ld_bool d b)
      | JBig i \<Rightarrow> Inr (show_int i)
      | JNum i \<Rightarrow> Inr (show_int i)
      | JDec s \<Rightarrow> Inr s
      | JNonFinite s \<Rightarrow> Inr ''NULL''
      | JDate iso_text txt \<Rightarrow> Inr (ld_quoteString d iso_text)
      | JBytes bs \<Rightarrow> Inr (ld_bytes d (hex_of_bytes bs))
      | JArr vs \<Rightarrow> res_map (ld_quoteString d) (json_stringify (JArr vs))
      | JObj fs \<Rightarrow> res_map (ld_quoteString d) (json_stringify (JObj fs))
      | JStr s \<Rightarrow> Inr (ld_quoteString d s))"

definition squote :: char where
  "squote = CHR 0x27"

definition standardQuoteString :: "string \<Rightarrow> string" where
  "standardQuoteString v = squote # replace_char squote [squote, squote] v @ [squote]"

definition mysql_escape_char :: "char \<Rightarrow> string" where
  "mysql_escape_char ch =
     (if ch = CHR 0x5C then [CHR 0x5C, CHR 0x5C]
      else if ch = CHR 0x27 then [CHR 0x5C, CHR 0x27]
      else if ch = CHR 0x00 then [CHR 0x5C, CHR ''0'']
      else if ch = CHR 0x0A then [CHR 0x5C, CHR ''n'']
      else if ch = CHR 0x0D then [CHR 0x5C, CHR ''r'']
      else if ch = CHR 0x1A then [CHR 0x5C, CHR ''Z'']
      else [ch])"

definition mysqlQuoteString :: "string \<Rightarrow> string" where
  "mysqlQuoteString v = squote # concat (map mysql_escape_char v) @ [squote]"

definition pg_literals :: literal_dialect where
  "pg_literals = \<lparr>ld_bool = (\<lambda>v. if v then ''TRUE'' else ''FALSE''),
     ld_bytes = (\<lambda>hex. squote # CHR 0x5C # CHR ''x'' # hex @ [squote]),
     ld_quoteString = standardQuoteString\<rparr>"

definition mysql_literals :: literal_dialect where
  "mysql_literals = \<lparr>ld_bool = (\<lambda>v. if v then ''1'' else ''0''),
     ld_bytes = (\<lambda>hex. CHR ''X'' # squote # hex @ [squote]),
     ld_quoteString = mysqlQuoteString\<rparr>"

definition sqlite_literals :: literal_dialect where
  "sqlite_literals = \<lparr>ld_bool = (\<lambda>v. if v then ''1'' else ''0''),
     ld_bytes = (\<lambda>hex. CHR ''X'' # squote # hex @ [squote]),
     ld_quoteString = standardQuoteString\<rparr>"

definition pgFormatLiteral :: "js_val \<Rightarrow> string res" where
  "pgFormatLiteral v = formatLiteral v pg_literals"

definition mysqlFormatLiteral :: "js_val \<Rightarrow> string res" where
  "mysqlFormatLiteral v = formatLiteral v mysql_literals"

definition sqliteFormatLiteral :: "js_val \<Rightarrow> string res" where
  "sqliteFormatLiteral v = formatLiteral v sqlite_literals"

definition engine_literal :: "engine \<Rightarrow> js_val \<Rightarrow> string res" where
  "engine_literal e = (case e of Pg \<Rightarrow> pgFormatLiteral | Mysql \<Rightarrow> mysqlFormatLiteral | Sqlite \<Rightarrow> sqliteFormatLiteral)"

subsection \<open>The string literals are read back\<close>

definition not_squote :: "string \<Rightarrow> bool" where
  "not_squote r \<longleftrightarrow> r = [] \<or> hd r \<noteq> squote"

definition read_squoted :: "engine \<Rightarrow> string \<Rightarrow> (string \<times> string) option" where
  "read_squoted e s = (case s of [] \<Rightarrow> None | c # t \<Rightarrow> if c = squote then read_string e t else None)"

lemma read_mysql_escape_step:
  "read_mysql_string squote (mysql_escape_char c @ u) =
     map_option (\<lambda>(x, r). (c # x, r)) (read_mysql_string squote u)"
proof (cases "c \<in> {CHR 0x5C, CHR 0x27, CHR 0x00, CHR 0x0A, CHR 0x0D, CHR 0x1A}")
  case True
  then show ?thesis
    by (auto simp: mysql_escape_char_def mysql_unescape_def)
next
  case False
  then show ?thesis by (simp add: mysql_escape_char_def squote_def)
qed

lemma read_mysql_escaped:
  "not_squote r \<Longrightarrow> read_mysql_string squote (concat (map mysql_escape_char s) @ squote # r) = Some (s, r)"
proof (induction s)
  case Nil
  then show ?case by (auto simp: not_squote_def squote_def split: list.splits)
next
  case (Cons c s)
  then show ?case by (simp add: read_mysql_escape_step)
qed

interpretation std_literal: quoting "\<lambda>s. Inr (standardQuoteString s)" "read_squoted Pg" not_squote
proof unfold_locales
  fix s t rest
  assume "(Inr (standardQuoteString s) :: string res) = Inr t" "not_squote rest"
  then show "read_squoted Pg (t @ rest) = Some (s, rest)"
    by (auto simp: standardQuoteString_def read_squoted_def read_string_def squote_def not_squote_def
        read_quoted_double)
qed (simp add: not_squote_def)

interpretation mysql_literal: quoting "\<lambda>s. Inr (mysqlQuoteString s)" "read_squoted Mysql" not_squote
proof unfold_locales
  fix s t rest
  assume "(Inr (mysqlQuoteString s) :: string res) = Inr t" "not_squote rest"
  then show "read_squoted Mysql (t @ rest) = Some (s, rest)"
    using read_mysql_escaped [of rest s]
    by (auto simp: mysqlQuoteString_def read_squoted_def read_string_def squote_def)
qed (simp add: not_squote_def)

lemma lex_string_literal:
  assumes "read_squoted e (t @ r) = Some (x, r)"
  shows "lex e (t @ r) = TStr x # lex e r"
proof -
  from assms obtain u where u: "t @ r = squote # u" "read_string e u = Some (x, r)"
    by (auto simp: read_squoted_def split: list.splits if_splits)
  then show ?thesis using lex_string [OF u(2)] by (simp add: squote_def)
qed

lemma read_squoted_sqlite: "read_squoted Sqlite = read_squoted Pg"
  by (rule ext) (simp add: read_squoted_def read_string_def split: list.split)

lemma engine_quoteString_read:
  "not_squote r \<Longrightarrow>
   read_squoted e (ld_quoteString (case e of Pg \<Rightarrow> pg_literals | Mysql \<Rightarrow> mysql_literals | Sqlite \<Rightarrow> sqlite_literals) x @ r)
     = Some (x, r)"
  using std_literal.read_quote [of x "standardQuoteString x" r]
    mysql_literal.read_quote [of x "mysqlQuoteString x" r]
  by (cases e) (simp_all add: pg_literals_def mysql_literals_def sqlite_literals_def read_squoted_sqlite)

text \<open>The text a value of the string-like kinds is exported as.\<close>

definition literal_text :: "js_val \<Rightarrow> string option" where
  "literal_text v =
     (case v of
        JStr s \<Rightarrow> Some s
      | JDate iso_text txt \<Rightarrow> Some iso_text
      | JArr vs \<Rightarrow> (case json_stringify (JArr vs) of Inr t \<Rightarrow> Some t | Inl _ \<Rightarrow> None)
      | JObj fs \<Rightarrow> (case json_stringify (JObj fs) of Inr t \<Rightarrow> Some t | Inl _ \<Rightarrow> None)
      | _ \<Rightarrow> None)"

text \<open>
  C16. In a SQL export every string, date and JSON value is one string literal of its engine, and
  the engine reads exactly the value's text out of it, whatever the value holds (quotes, backslashes,
  semicolons, comments) and whatever follows: no exported value can end its literal early.
\<close>

theorem engine_literal_reads_back:
  assumes "literal_text v = Some x" and "engine_literal e v = Inr t"
    and "rest = [] \<or> hd rest \<noteq> CHR 0x27"
  shows "lex e (t @ rest) = TStr x # lex e rest"
proof -
  have "t = ld_quoteString (case e of Pg \<Rightarrow> pg_literals | Mysql \<Rightarrow> mysql_literals | Sqlite \<Rightarrow> sqlite_literals) x"
    using assms(1,2)
    by (cases v; cases e)
       (auto simp: literal_text_def engine_literal_def pgFormatLiteral_def mysqlFormatLiteral_def
          sqliteFormatLiteral_def formatLiteral_def split: sum.splits)
  moreover have "not_squote rest" using assms(3) by (simp add: not_squote_def squote_def)
  ultimately show ?thesis
    using lex_string_literal engine_quoteString_read by blast
qed

theorem engine_literal_reads_back_witness:
  "lex Mysql ((squote # [CHR 0x5C, CHR 0x5C, CHR 0x5C, squote] @ '' --'' @ [squote]) @ '', 1'')
     = TStr ([CHR 0x5C, squote] @ '' --'') # lex Mysql '', 1''"
  by (rule engine_literal_reads_back [of "JStr ([CHR 0x5C, squote] @ '' --'')"])
     (simp_all add: literal_text_def engine_literal_def mysqlFormatLiteral_def formatLiteral_def
        mysql_literals_def mysqlQuoteString_def mysql_escape_char_def squote_def)

end
