(* ===== verification/DdlSql.thy ===== *)
theory DdlSql
  imports DdlNormalize RowSql Literals
begin

text \<open>
  The DDL statements (\<open>build*Table\<close>, \<open>build*Index\<close> of \<open>drivers/*/*-sql.ts\<close> and \<open>buildAddForeignKeyClause\<close> of
  \<open>drivers/fk-ddl.ts\<close>) as templates. A type, default or \<open>USING\<close> expression is fixed text of the template: it went
  through the engine's validator. The last part shows that what is built for a validated request is one
  statement in which the names of the request, and no others, are the identifiers.
\<close>

definition idents_by_comma :: "string list \<Rightarrow> piece list" where
  "idents_by_comma cs = sep_by '', '' (map (\<lambda>c. [Ident c]) cs)"

definition nl :: char where
  "nl = CHR 0x0A"

text \<open>\<open>(\n${defs.join(',\n')}\n)\<close>\<close>

definition body_lines :: "piece list list \<Rightarrow> piece list" where
  "body_lines defs = Txt ('' ('' @ [nl]) # sep_by ('','' @ [nl]) defs @ [Txt (nl # '')'')]"

definition key_line :: "new_column list \<Rightarrow> piece list list" where
  "key_line cols =
     (let pk = map ncName (filter ncPrimaryKey cols)
      in if pk = [] then [] else [Txt ''  PRIMARY KEY ('' # idents_by_comma pk @ [Txt '')'']])"

definition default_piece :: "string option \<Rightarrow> piece list" where
  "default_piece d = (case d of None \<Rightarrow> [] | Some s \<Rightarrow> if s = [] then [] else [Txt ('' DEFAULT '' @ s)])"

definition default_piece_trimmed :: "string option \<Rightarrow> piece list" where
  "default_piece_trimmed d = (case d of None \<Rightarrow> [] | Some s \<Rightarrow> if s = [] then [] else [Txt ('' DEFAULT '' @ js_trim s)])"

definition if_text :: "bool \<Rightarrow> string \<Rightarrow> piece list" where
  "if_text b s = (if b then [Txt s] else [])"

subsection \<open>Foreign keys\<close>

definition action_piece :: "string \<Rightarrow> string option \<Rightarrow> piece list" where
  "action_piece event action = (case action of None \<Rightarrow> [] | Some a \<Rightarrow> if a = [] then [] else [Txt ('' ON '' @ event @ '' '' @ a)])"

definition buildAddForeignKeyClause :: "foreign_key_spec \<Rightarrow> piece list" where
  "buildAddForeignKeyClause op =
     [Txt ''ADD CONSTRAINT '', Ident (case fksConstraintName op of None \<Rightarrow> [] | Some n \<Rightarrow> n), Txt '' FOREIGN KEY ('']
       @ idents_by_comma (fksColumns op) @ Txt '') REFERENCES ''
       # qualify \<lparr>refNamespace = fksReferencedSchema op, refName = fksReferencedTable op\<rparr>
       @ Txt '' ('' # idents_by_comma (fksReferencedColumns op) @ Txt '')''
       # action_piece ''DELETE'' (fksOnDelete op) @ action_piece ''UPDATE'' (fksOnUpdate op)"

subsection \<open>PostgreSQL\<close>

definition pg_column_line :: "new_column \<Rightarrow> piece list" where
  "pg_column_line col =
     [Txt ''  '', Ident (ncName col), Txt ('' '' @ ncType col)] @ if_text (\<not> ncNullable col) '' NOT NULL''
       @ default_piece_trimmed (ncDefault col)"

definition pgBuildCreateTable :: "create_table_request \<Rightarrow> sql_fragment res" where
  "pgBuildCreateTable req =
     fragment Pg
       ([Txt ''CREATE TABLE '', Ident (ctSchema req), Txt ''.'', Ident (ctTable req)]
          @ body_lines (map pg_column_line (ctColumns req) @ key_line (ctColumns req))) []"

definition pg_comment_value :: "string option \<Rightarrow> piece" where
  "pg_comment_value comment = (case comment of None \<Rightarrow> Txt ''NULL'' | Some s \<Rightarrow> Raw (standardQuoteString s))"

definition pg_alter_template :: "table_ref \<Rightarrow> alter_op \<Rightarrow> piece list" where
  "pg_alter_template ref op =
     (let pre = Txt ''ALTER TABLE '' # qualify ref in
      case op of
        AddColumn col \<Rightarrow>
          pre @ [Txt '' ADD COLUMN '', Ident (ncName col), Txt ('' '' @ ncType col)]
            @ (if ncPrimaryKey col then [Txt '' PRIMARY KEY''] else if_text (\<not> ncNullable col) '' NOT NULL'')
            @ default_piece (ncDefault col)
      | DropColumn c \<Rightarrow> pre @ [Txt '' DROP COLUMN '', Ident c]
      | SetNotNull c b \<Rightarrow> pre @ [Txt '' ALTER COLUMN '', Ident c, Txt (if b then '' SET NOT NULL'' else '' DROP NOT NULL'')]
      | SetDefault c d \<Rightarrow>
          (case d of Some s \<Rightarrow> pre @ [Txt '' ALTER COLUMN '', Ident c, Txt ('' SET DEFAULT '' @ s)]
                   | None \<Rightarrow> pre @ [Txt '' ALTER COLUMN '', Ident c, Txt '' DROP DEFAULT''])
      | ChangeType c ty using_expr \<Rightarrow>
          pre @ [Txt '' ALTER COLUMN '', Ident c, Txt ('' TYPE '' @ ty)]
            @ (case using_expr of None \<Rightarrow> [] | Some u \<Rightarrow> if u = [] then [] else [Txt ('' USING '' @ u)])
      | AddForeignKey spec \<Rightarrow> pre @ Txt '' '' # buildAddForeignKeyClause spec
      | DropForeignKey name \<Rightarrow> pre @ [Txt '' DROP CONSTRAINT '', Ident name]
      | SetComment c comment \<Rightarrow>
          (case c of None \<Rightarrow> Txt ''COMMENT ON TABLE '' # qualify ref
                   | Some c' \<Rightarrow> Txt ''COMMENT ON COLUMN '' # qualify ref @ [Txt ''.'', Ident c'])
            @ [Txt '' IS '', pg_comment_value comment])"

definition pgBuildAlterTable :: "table_ref \<Rightarrow> alter_op \<Rightarrow> sql_fragment res" where
  "pgBuildAlterTable ref op = fragment Pg (pg_alter_template ref op) []"

definition pgBuildCreateIndex :: "create_index_request \<Rightarrow> string \<Rightarrow> string \<Rightarrow> sql_fragment res" where
  "pgBuildCreateIndex req name method =
     fragment Pg
       ([Txt (if ciUnique req then ''CREATE UNIQUE INDEX '' else ''CREATE INDEX ''), Ident name, Txt '' ON '',
         Ident (ciSchema req), Txt ''.'', Ident (ciTable req), Txt ('' USING '' @ method @ '' ('')]
          @ idents_by_comma (ciColumns req) @ [Txt '')'']) []"

definition pgBuildDropIndex :: "table_ref \<Rightarrow> string \<Rightarrow> sql_fragment res" where
  "pgBuildDropIndex ref indexName =
     fragment Pg [Txt ''DROP INDEX '', Ident (case refNamespace ref of None \<Rightarrow> [] | Some ns \<Rightarrow> ns), Txt ''.'', Ident indexName] []"

subsection \<open>MySQL\<close>

definition buildColumnDefinition :: "new_column \<Rightarrow> piece list" where
  "buildColumnDefinition col =
     [Ident (ncName col), Txt ('' '' @ ncType col @ (if ncNullable col then '' NULL'' else '' NOT NULL''))]
       @ default_piece_trimmed (ncDefault col) @ if_text (ncAutoIncrement col) '' AUTO_INCREMENT''"

definition mysqlBuildCreateTable :: "create_table_request \<Rightarrow> sql_fragment res" where
  "mysqlBuildCreateTable req =
     fragment Mysql
       ([Txt ''CREATE TABLE '', Ident (ctSchema req), Txt ''.'', Ident (ctTable req)]
          @ body_lines (map (\<lambda>c. Txt ''  '' # buildColumnDefinition c) (ctColumns req) @ key_line (ctColumns req))) []"

definition mysql_unnormalized :: "string \<Rightarrow> http_error" where
  "mysql_unnormalized kind =
     Unprocessable (''MySQL '' @ kind @ '' must be normalized with the current column metadata before building SQL'')"

definition mysql_alter_template :: "table_ref \<Rightarrow> normalized_alter \<Rightarrow> piece list res" where
  "mysql_alter_template ref n =
     (let pre = Txt ''ALTER TABLE '' # qualify ref in
      case naOp n of
        AddColumn col \<Rightarrow> Inr (pre @ Txt '' ADD COLUMN '' # buildColumnDefinition col)
      | DropColumn c \<Rightarrow> Inr (pre @ [Txt '' DROP COLUMN '', Ident c])
      | ChangeType c ty using_expr \<Rightarrow>
          Inr (case naDefinition n of
                 Some def \<Rightarrow> pre @ Txt '' MODIFY COLUMN '' # buildColumnDefinition def
               | None \<Rightarrow> pre @ [Txt '' MODIFY COLUMN '', Ident c, Txt ('' '' @ ty)])
      | SetNotNull c b \<Rightarrow>
          (case naDefinition n of
             Some def \<Rightarrow> Inr (pre @ Txt '' MODIFY COLUMN '' # buildColumnDefinition def)
           | None \<Rightarrow> Inl (mysql_unnormalized ''setNotNull''))
      | SetDefault c d \<Rightarrow>
          (case naDefinition n of
             Some def \<Rightarrow> Inr (pre @ Txt '' MODIFY COLUMN '' # buildColumnDefinition def)
           | None \<Rightarrow> Inl (mysql_unnormalized ''setDefault''))
      | AddForeignKey spec \<Rightarrow> Inr (pre @ Txt '' '' # buildAddForeignKeyClause spec)
      | DropForeignKey name \<Rightarrow> Inr (pre @ [Txt '' DROP FOREIGN KEY '', Ident name])
      | SetComment c comment \<Rightarrow>
          (let v = Raw (mysqlQuoteString (case comment of None \<Rightarrow> [] | Some s \<Rightarrow> s)) in
           case c of
             None \<Rightarrow> Inr (pre @ [Txt '' COMMENT = '', v])
           | Some c' \<Rightarrow>
               (case naNative n of
                  Some def \<Rightarrow>
                    if def = [] then Inl (mysql_unnormalized ''setComment'')
                    else Inr (pre @ [Txt '' MODIFY COLUMN '', Ident c', Txt '' '', Raw def, Txt '' COMMENT '', v])
                | None \<Rightarrow> Inl (mysql_unnormalized ''setComment''))))"

definition mysqlBuildAlterTable :: "table_ref \<Rightarrow> normalized_alter \<Rightarrow> sql_fragment res" where
  "mysqlBuildAlterTable ref n = res_bind (mysql_alter_template ref n) (\<lambda>ps. fragment Mysql ps [])"

definition mysqlBuildCreateIndex :: "create_index_request \<Rightarrow> string \<Rightarrow> string \<Rightarrow> sql_fragment res" where
  "mysqlBuildCreateIndex req name method =
     fragment Mysql
       ([Txt (if ciUnique req then ''CREATE UNIQUE INDEX '' else ''CREATE INDEX ''), Ident name,
         Txt ('' USING '' @ js_upper method @ '' ON ''), Ident (ciSchema req), Txt ''.'', Ident (ciTable req), Txt '' ('']
          @ idents_by_comma (ciColumns req) @ [Txt '')'']) []"

definition mysqlBuildDropIndex :: "table_ref \<Rightarrow> string \<Rightarrow> sql_fragment res" where
  "mysqlBuildDropIndex ref indexName =
     fragment Mysql ([Txt ''DROP INDEX '', Ident indexName, Txt '' ON ''] @ qualify ref) []"

subsection \<open>SQLite\<close>

definition sqliteBuildCreateTable :: "create_table_request \<Rightarrow> sql_fragment res" where
  "sqliteBuildCreateTable req =
     fragment Sqlite
       (Txt ''CREATE TABLE '' # qualify \<lparr>refNamespace = Some (ctSchema req), refName = ctTable req\<rparr>
          @ body_lines (map pg_column_line (ctColumns req) @ key_line (ctColumns req))) []"

definition sqlite_unsupported :: "string \<Rightarrow> http_error" where
  "sqlite_unsupported kind = PlainError (''SQLite does not support the \"'' @ kind @ ''\" alter-table operation'')"

definition sqlite_alter_template :: "table_ref \<Rightarrow> alter_op \<Rightarrow> piece list res" where
  "sqlite_alter_template ref op =
     (let pre = Txt ''ALTER TABLE '' # qualify ref in
      case op of
        AddColumn col \<Rightarrow>
          Inr (pre @ [Txt '' ADD COLUMN '', Ident (ncName col), Txt ('' '' @ ncType col)]
            @ if_text (\<not> ncNullable col) '' NOT NULL'' @ default_piece (ncDefault col))
      | DropColumn c \<Rightarrow> Inr (pre @ [Txt '' DROP COLUMN '', Ident c])
      | SetNotNull c b \<Rightarrow> Inl (sqlite_unsupported ''setNotNull'')
      | SetDefault c d \<Rightarrow> Inl (sqlite_unsupported ''setDefault'')
      | ChangeType c ty u \<Rightarrow> Inl (sqlite_unsupported ''changeType'')
      | AddForeignKey spec \<Rightarrow> Inl (sqlite_unsupported ''addForeignKey'')
      | DropForeignKey name \<Rightarrow> Inl (sqlite_unsupported ''dropForeignKey'')
      | SetComment c comment \<Rightarrow> Inl (sqlite_unsupported ''setComment''))"

definition sqliteBuildAlterTable :: "table_ref \<Rightarrow> alter_op \<Rightarrow> sql_fragment res" where
  "sqliteBuildAlterTable ref op = res_bind (sqlite_alter_template ref op) (\<lambda>ps. fragment Sqlite ps [])"

definition sqliteBuildCreateIndex :: "create_index_request \<Rightarrow> string \<Rightarrow> string \<Rightarrow> sql_fragment res" where
  "sqliteBuildCreateIndex req name method =
     fragment Sqlite
       (Txt (if ciUnique req then ''CREATE UNIQUE INDEX '' else ''CREATE INDEX '')
          # qualify \<lparr>refNamespace = Some (ciSchema req), refName = name\<rparr>
          @ [Txt '' ON '', Ident (ciTable req), Txt '' (''] @ idents_by_comma (ciColumns req) @ [Txt '')'']) []"

definition sqliteBuildDropIndex :: "table_ref \<Rightarrow> string \<Rightarrow> sql_fragment res" where
  "sqliteBuildDropIndex ref indexName =
     fragment Sqlite (Txt ''DROP INDEX '' # qualify \<lparr>refNamespace = refNamespace ref, refName = indexName\<rparr>) []"

subsection \<open>By engine\<close>

definition buildCreateTable :: "engine \<Rightarrow> create_table_request \<Rightarrow> sql_fragment res" where
  "buildCreateTable e =
     (case e of Pg \<Rightarrow> pgBuildCreateTable | Mysql \<Rightarrow> mysqlBuildCreateTable | Sqlite \<Rightarrow> sqliteBuildCreateTable)"

definition buildAlterTable :: "engine \<Rightarrow> table_ref \<Rightarrow> normalized_alter \<Rightarrow> sql_fragment res" where
  "buildAlterTable e ref n =
     (case e of Pg \<Rightarrow> pgBuildAlterTable ref (naOp n) | Mysql \<Rightarrow> mysqlBuildAlterTable ref n
      | Sqlite \<Rightarrow> sqliteBuildAlterTable ref (naOp n))"

definition buildCreateIndex :: "engine \<Rightarrow> create_index_request \<Rightarrow> string \<Rightarrow> string \<Rightarrow> sql_fragment res" where
  "buildCreateIndex e =
     (case e of Pg \<Rightarrow> pgBuildCreateIndex | Mysql \<Rightarrow> mysqlBuildCreateIndex | Sqlite \<Rightarrow> sqliteBuildCreateIndex)"

definition buildDropIndex :: "engine \<Rightarrow> table_ref \<Rightarrow> string \<Rightarrow> sql_fragment res" where
  "buildDropIndex e =
     (case e of Pg \<Rightarrow> pgBuildDropIndex | Mysql \<Rightarrow> mysqlBuildDropIndex | Sqlite \<Rightarrow> sqliteBuildDropIndex)"

definition buildDropTable :: "engine \<Rightarrow> table_ref \<Rightarrow> sql_fragment res" where
  "buildDropTable e =
     (case e of Pg \<Rightarrow> pgBuildDropTable | Mysql \<Rightarrow> mysqlBuildDropTable | Sqlite \<Rightarrow> sqliteBuildDropTable)"

definition buildTruncateTable :: "engine \<Rightarrow> table_ref \<Rightarrow> sql_fragment res" where
  "buildTruncateTable e =
     (case e of Pg \<Rightarrow> pgBuildTruncateTable | Mysql \<Rightarrow> mysqlBuildTruncateTable | Sqlite \<Rightarrow> sqliteBuildTruncateTable)"

subsection \<open>Clean templates\<close>

text \<open>Text of a statement outside its names and literals that can neither quote, comment nor end it.\<close>

definition clean_char :: "char \<Rightarrow> bool" where
  "clean_char c \<longleftrightarrow> plain_char c \<and> c \<noteq> CHR '';''"

definition clean :: "string \<Rightarrow> bool" where
  "clean s \<longleftrightarrow> list_all clean_char s"

definition engine_quoteString :: "engine \<Rightarrow> string \<Rightarrow> string" where
  "engine_quoteString e = (if e = Mysql then mysqlQuoteString else standardQuoteString)"

definition clean_piece :: "engine \<Rightarrow> piece \<Rightarrow> bool" where
  "clean_piece e p =
     (case p of Txt s \<Rightarrow> clean s | Ident s \<Rightarrow> True | Param i \<Rightarrow> False | Raw s \<Rightarrow> (\<exists>v. s = engine_quoteString e v))"

definition token_idents :: "token list \<Rightarrow> string list" where
  "token_idents ts = concat (map (\<lambda>t. case t of TIdent x \<Rightarrow> [x] | _ \<Rightarrow> []) ts)"

definition clean_token :: "token \<Rightarrow> bool" where
  "clean_token t = (case t of TChar c \<Rightarrow> clean_char c | TIdent x \<Rightarrow> True | TStr s \<Rightarrow> True | _ \<Rightarrow> False)"

lemma lex_quoteString:
  assumes "not_squote r"
  shows "lex e (engine_quoteString e v @ r) = TStr v # lex e r"
proof -
  have "read_squoted e (engine_quoteString e v @ r) = Some (v, r)"
    using std_literal.read_quote [of v "standardQuoteString v" r] mysql_literal.read_quote [of v "mysqlQuoteString v" r] assms
    by (cases e) (simp_all add: engine_quoteString_def read_squoted_sqlite)
  then show ?thesis by (rule lex_string_literal)
qed

lemma lex_quoteString_end: "lex e (engine_quoteString e v) = [TStr v]"
  using lex_quoteString [of "[]" e v] by (simp add: not_squote_def)

lemma quoteString_self_contained: "self_contained e (engine_quoteString e v)"
  using lex_quoteString lex_quoteString_end
  by (auto simp: self_contained_def not_squote_def squote_def)

lemma clean_simps [simp]:
  "clean []" "clean (c # s) \<longleftrightarrow> clean_char c \<and> clean s" "clean (s @ t) \<longleftrightarrow> clean s \<and> clean t"
  by (auto simp: clean_def)

lemma clean_plain: "clean s \<Longrightarrow> list_all plain_char s"
  by (simp add: clean_def clean_char_def list_all_iff)

lemma token_idents_simps [simp]:
  "token_idents [] = []" "token_idents (TIdent x # ts) = x # token_idents ts" "token_idents (TChar c # ts) = token_idents ts"
  "token_idents (TStr s # ts) = token_idents ts" "token_idents (map TChar s @ ts) = token_idents ts"
  by (simp_all add: token_idents_def comp_def)

lemma clean_tokens:
  "list_all (clean_piece e) ps \<Longrightarrow> token_idents (tokens e ps) = idents ps \<and> list_all clean_token (tokens e ps)"
proof (induction ps)
  case Nil
  then show ?case by (simp add: idents_def)
next
  case (Cons p ps)
  then show ?case
    by (cases p) (auto simp: clean_piece_def idents_def clean_token_def clean_def list_all_iff lex_quoteString_end)
qed

lemma idents_simps [simp]:
  "idents [] = []" "idents (Txt s # ps) = idents ps" "idents (Ident x # ps) = x # idents ps" "idents (Raw s # ps) = idents ps"
  "idents (ps @ qs) = idents ps @ idents qs"
  by (simp_all add: idents_def)

lemma idents_sep_by [simp]: "idents (sep_by sep ps) = concat (map idents ps)"
  by (induction sep ps rule: sep_by.induct) simp_all

text \<open>A template that is clean and well spaced: its parts, and lists of parts.\<close>

definition tidy :: "engine \<Rightarrow> piece list \<Rightarrow> bool" where
  "tidy e ps \<longleftrightarrow> well_spaced e ps \<and> list_all (clean_piece e) ps"

theorem tidy_reads:
  assumes "tidy e ps" "fragment e ps params = Inr f"
  shows "token_idents (lex e (fragSql f)) = idents ps \<and> list_all clean_token (lex e (fragSql f)) \<and> fragParams f = params"
  using lex_fragment [OF assms(2)] clean_tokens assms(1) by (simp add: tidy_def)

lemma tidy_simps [simp]:
  "tidy e []" "tidy e (Txt s # ps) \<longleftrightarrow> clean s \<and> tidy e ps" "tidy e (Ident x # ps) \<longleftrightarrow> starts_safe ps \<and> tidy e ps"
  "tidy e (Raw (engine_quoteString e v) # ps) \<longleftrightarrow> starts_space ps \<and> tidy e ps"
  by (auto simp: tidy_def clean_piece_def quoteString_self_contained clean_plain)

lemma tidy_append:
  assumes "tidy e ps" "no_raw ps" "starts_safe qs"
  shows "tidy e (ps @ qs) = tidy e qs"
  using assms well_spaced_append' [of e ps qs] well_spaced_suffix by (auto simp: tidy_def)

lemma tidy_sep_by:
  assumes "list_all (\<lambda>p. tidy e p \<and> no_raw p) ps" "clean sep" "sep \<noteq> []" "safe_start (hd sep)"
  shows "tidy e (sep_by sep ps) \<and> no_raw (sep_by sep ps)"
proof
  have "list_all (clean_piece e) (sep_by sep ps)"
    using assms(1,2) by (induction sep ps rule: sep_by.induct) (simp_all add: tidy_def clean_piece_def)
  moreover have "well_spaced e (sep_by sep ps)"
    using assms by (intro well_spaced_sep_by clean_plain) (simp_all add: tidy_def list_all_iff)
  ultimately show "tidy e (sep_by sep ps)" by (simp add: tidy_def)
  show "no_raw (sep_by sep ps)"
    using assms(1) by (intro no_raw_sep_by) (simp add: list_all_iff)
qed

lemma tidy_qualify: "tidy e (qualify ref)"
  using qualify_spaced [of e ref] by (auto simp: tidy_def qualify_def clean_piece_def clean_char_def plain_char_def split: option.split)

lemma no_raw_qualify: "no_raw (qualify ref)"
  using qualify_spaced by blast

lemma clean_char_comma: "clean_char CHR '',''" "clean_char CHR '' ''" "clean_char nl"
  by (simp_all add: clean_char_def plain_char_def nl_def)

lemma tidy_idents_by_comma: "tidy e (idents_by_comma cs)" "no_raw (idents_by_comma cs)"
  using tidy_sep_by [of e "map (\<lambda>c. [Ident c]) cs" "'', ''"]
  by (simp_all add: idents_by_comma_def clean_char_comma list_all_iff)

lemma idents_idents_by_comma [simp]: "idents (idents_by_comma cs) = cs"
  by (simp add: idents_by_comma_def comp_def)

lemma idents_qualify: "idents (qualify ref) =
    (case refNamespace ref of None \<Rightarrow> [] | Some ns \<Rightarrow> if ns = [] then [] else [ns]) @ [refName ref]"
  by (simp add: qualify_def split: option.split)

subsection \<open>What the validators let through is clean\<close>

definition ddl_char :: "char \<Rightarrow> bool" where
  "ddl_char c \<longleftrightarrow> alpha_char c \<or> digit_char c \<or> c \<in> set '' _():,''"

lemma ddl_char_clean: "ddl_char c \<Longrightarrow> clean_char c"
  by (auto simp: ddl_char_def clean_char_def plain_char_def alpha_char_def lower_char_def digit_char_def ascii_lower_def)

lemma clean_ddl: "list_all ddl_char s \<Longrightarrow> clean s"
  using ddl_char_clean by (auto simp: clean_def list_all_iff)

lemma lower_char_cases: "lower_char (char_of n) \<longleftrightarrow> 97 \<le> n mod 256 \<and> n mod 256 \<le> (122::nat)"
  by (simp add: lower_char_def Let_def)

lemma ddl_char_ascii: "ddl_char (ascii_lower x) \<longleftrightarrow> ddl_char x"
proof (cases "65 \<le> (of_char x :: nat) \<and> (of_char x :: nat) \<le> 90")
  case True
  then have "alpha_char x" "alpha_char (ascii_lower x)"
    by (auto simp: alpha_char_def ascii_lower_def lower_char_cases Let_def)
  then show ?thesis by (simp add: ddl_char_def)
next
  case False
  then have "ascii_lower x = x" by (auto simp: ascii_lower_def Let_def)
  then show ?thesis by simp
qed

lemma ddl_char_js_lower: "ddl_char c \<Longrightarrow> ddl_char (js_lower_char c)"
proof -
  assume c: "ddl_char c"
  have "\<not> (192 \<le> (of_char c :: nat))"
    using c by (auto simp: ddl_char_def alpha_char_def lower_char_def digit_char_def ascii_lower_def Let_def split: if_splits)
  then have "js_lower_char c = ascii_lower c"
    by (auto simp: js_lower_char_def ascii_lower_def Let_def)
  with c show ?thesis by (simp add: ddl_char_ascii)
qed

lemma ddl_js_lower: "list_all ddl_char s \<Longrightarrow> list_all ddl_char (js_lower s)"
  using ddl_char_js_lower by (simp add: js_lower_def list_all_iff)

lemma rx_chars_WordCI [simp]: "list_all ddl_char s \<Longrightarrow> rx_chars ddl_char (WordCI s)"
  by (induction s) (auto simp: WordCI_def LitCI_def intro: ddl_char_ascii [THEN iffD1])

lemma ddl_char_simps [simp]:
  "digit_char c \<Longrightarrow> ddl_char c" "alpha_char c \<Longrightarrow> ddl_char c" "ddl_char CHR ''('' " "ddl_char CHR '')''"
  "ddl_char CHR '',''" "ddl_char CHR ''_''" "ddl_char CHR '':''" "ddl_char CHR '' ''"
  by (simp_all add: ddl_char_def)

lemma params_chars:
  assumes "rx_match params_rx s"
  shows "list_all ddl_char (remove_spaces s)"
proof -
  have "list_all (\<lambda>c. ddl_char c \<or> js_space c) s"
    by (rule rx_match_chars [OF assms])
       (simp add: params_rx_def spaces_rx_def digits_rx_def)
  then show ?thesis by (auto simp: remove_spaces_def list_all_iff)
qed

lemma default_words:
  "list_all ddl_char ''true''" "list_all ddl_char ''false''" "list_all ddl_char ''null''" "list_all ddl_char ''now()''"
  "list_all ddl_char ''current_timestamp''" "list_all ddl_char ''gen_random_uuid()''" "list_all ddl_char ''()''"
  by (simp_all add: ddl_char_def alpha_char_def lower_char_def ascii_lower_def)

lemma patterns_chars: "rx_chars ddl_char SAFE_DEFAULT_PATTERN" "rx_chars ddl_char MYSQL_SAFE_DEFAULT_PATTERN"
  unfolding SAFE_DEFAULT_PATTERN_def MYSQL_SAFE_DEFAULT_PATTERN_def digits_rx_def
  using default_words [THEN rx_chars_WordCI] default_words(7) by simp_all

lemma using_chars: "rx_match USING_PATTERN s \<Longrightarrow> list_all (\<lambda>c. ddl_char c \<or> js_space c) s"
  by (erule rx_match_chars) (simp add: USING_PATTERN_def params_rx_def spaces_rx_def digits_rx_def)

lemma type_match_params: "type_match letter s = Some (base, params) \<Longrightarrow> params = [] \<or> rx_match params_rx params"
proof -
  have "(if A \<and> (y = [] \<or> Q y) then Some (x, y) else None) = Some (base, params) \<Longrightarrow> params = [] \<or> Q params"
    for A and Q :: "string \<Rightarrow> bool" and x y
    by (simp split: if_split_asm)
  then show "type_match letter s = Some (base, params) \<Longrightarrow> params = [] \<or> rx_match params_rx params"
    unfolding type_match_def Let_def .
qed

lemma type_clean:
  assumes "check_type letter allowed par normalized ty = Inr t" "list_all clean allowed"
  shows "clean t"
proof -
  obtain base params where "type_match letter normalized = Some (base, params)" "base \<in> set allowed"
    and t: "t = base @ remove_spaces params"
    using assms(1) by (auto simp: check_type_def Let_def split: option.splits if_splits)
  then have "params = [] \<or> rx_match params_rx params" "clean base"
    using type_match_params assms(2) by (simp_all add: list_all_iff)
  then show ?thesis
    using params_chars [of params] clean_ddl by (auto simp: t remove_spaces_def)
qed

lemma default_clean:
  assumes "check_default pat allowed canon v = Inr (Some t)" "rx_chars ddl_char pat"
    "\<And>s. list_all ddl_char s \<Longrightarrow> clean (canon s)"
  shows "clean t"
proof -
  obtain s where s: "rx_match pat (js_trim s)" "t = canon (js_trim s)"
    using assms(1) by (auto simp: check_default_def Let_def split: option.splits if_splits)
  then show ?thesis using rx_match_chars [OF s(1) assms(2)] assms(3) by simp
qed

lemma allowed_clean: "list_all clean PG_ALLOWED_TYPES" "list_all clean MYSQL_ALLOWED_TYPES" "list_all clean SQLITE_COLUMN_TYPES"
  by (simp_all add: PG_ALLOWED_TYPES_def MYSQL_ALLOWED_TYPES_def SQLITE_COLUMN_TYPES_def clean_char_def plain_char_def)

lemma validated_types:
  "pg_validateType ty = Inr t \<Longrightarrow> clean t" "mysql_validateType ty = Inr t \<Longrightarrow> clean t"
  "sqlite_validateType ty SQLITE_COLUMN_TYPES = Inr t \<Longrightarrow> clean t"
  subgoal unfolding pg_validateType_def using type_clean allowed_clean(1) by blast
  subgoal unfolding mysql_validateType_def using type_clean allowed_clean(2) by blast
  subgoal using allowed_clean(3)
    by (auto simp: sqlite_validateType_def find_Some_iff list_all_length split: option.splits)
  done

lemma validated_defaults:
  "pg_validateDefault v = Inr (Some t) \<Longrightarrow> clean t" "mysql_validateDefault v = Inr (Some t) \<Longrightarrow> clean t"
  "sqlite_validateDefault v = Inr (Some t) \<Longrightarrow> clean t"
  using default_clean patterns_chars clean_ddl ddl_js_lower
  unfolding pg_validateDefault_def mysql_validateDefault_def sqlite_validateDefault_def by blast+

subsection \<open>The templates of validated requests are tidy\<close>

definition clean_column :: "new_column \<Rightarrow> bool" where
  "clean_column col \<longleftrightarrow> clean (ncType col) \<and> (\<forall>s. ncDefault col = Some s \<longrightarrow> clean s)"

lemma clean_js_trim: "clean s \<Longrightarrow> clean (js_trim s)"
  using js_trim_decomp [of s] by (metis clean_simps(3))

lemma keyword_clean [simp]:
  "clean_char CHR '' ''" "clean_char CHR ''('' " "clean_char CHR '')''" "clean_char CHR '',''" "clean_char CHR ''.''" "clean_char nl"
  "clean_char CHR ''_''" "clean_char CHR ''=''"
  by (simp_all add: clean_char_def plain_char_def nl_def)

lemma upper_clean [simp]: "clean_char c" if "c \<in> set ''ABCDEFGHIJKLMNOPQRSTUVWXYZ''"
  using that by (auto simp: clean_char_def plain_char_def)

lemma safe_start_nl [simp]: "safe_start nl"
  by (simp add: safe_start_def nl_def digit_char_def)

lemma if_text_tidy [simp]:
  "tidy e (if_text b s @ qs) \<longleftrightarrow> (b \<longrightarrow> clean s) \<and> tidy e qs" "idents (if_text b s) = []" "no_raw (if_text b s)"
  "tidy e (if_text b s) \<longleftrightarrow> (b \<longrightarrow> clean s)"
  by (simp_all add: if_text_def)

lemma starts_safe_if_text: "s \<noteq> [] \<Longrightarrow> safe_start (hd s) \<Longrightarrow> starts_safe qs \<Longrightarrow> starts_safe (if_text b s @ qs)"
  by (cases s) (simp_all add: if_text_def)

lemma default_tidy:
  assumes "\<forall>s. d = Some s \<longrightarrow> clean s"
  shows "tidy e (default_piece d)" "tidy e (default_piece_trimmed d)" "starts_safe (default_piece d)" "starts_safe (default_piece_trimmed d)"
    "idents (default_piece d) = []" "idents (default_piece_trimmed d) = []" "no_raw (default_piece d)" "no_raw (default_piece_trimmed d)"
    "tidy e (default_piece_trimmed d @ if_text b '' AUTO_INCREMENT'')"
  using assms by (auto simp: default_piece_def default_piece_trimmed_def clean_js_trim split: option.splits)

lemma body_lines_tidy:
  assumes "list_all (\<lambda>p. tidy e p \<and> no_raw p) defs"
  shows "tidy e (body_lines defs)"
proof -
  have "tidy e (sep_by ('','' @ [nl]) defs) \<and> no_raw (sep_by ('','' @ [nl]) defs)"
    by (rule tidy_sep_by [OF assms]) simp_all
  then show ?thesis by (simp add: body_lines_def tidy_append)
qed

lemma idents_body_lines [simp]: "idents (body_lines defs) = concat (map idents defs)"
  by (simp add: body_lines_def)

lemma key_line_tidy:
  "list_all (\<lambda>p. tidy e p \<and> no_raw p) (key_line cols)"
  "concat (map idents (key_line cols)) = map ncName (filter ncPrimaryKey cols)"
  using tidy_idents_by_comma by (auto simp: key_line_def Let_def tidy_append)

lemma column_line_tidy:
  assumes "clean_column col"
  shows "tidy e (pg_column_line col)" "no_raw (pg_column_line col)" "idents (pg_column_line col) = [ncName col]"
    "tidy e (buildColumnDefinition col)" "no_raw (buildColumnDefinition col)" "idents (buildColumnDefinition col) = [ncName col]"
  using assms default_tidy [of "ncDefault col"]
  by (simp_all add: clean_column_def pg_column_line_def buildColumnDefinition_def)

lemma action_tidy:
  assumes "\<forall>a. d = Some a \<longrightarrow> clean a" "clean ev"
  shows "tidy e (action_piece ev d)" "starts_safe (action_piece ev d)" "idents (action_piece ev d) = []" "no_raw (action_piece ev d)"
  using assms by (auto simp: action_piece_def split: option.splits)

lemma fk_clause_tidy:
  assumes "\<forall>a. fksOnDelete op = Some a \<longrightarrow> clean a" "\<forall>a. fksOnUpdate op = Some a \<longrightarrow> clean a"
  shows "tidy e (buildAddForeignKeyClause op)"
    "idents (buildAddForeignKeyClause op) = (case fksConstraintName op of None \<Rightarrow> [] | Some n \<Rightarrow> n) # fksColumns op
       @ idents (qualify \<lparr>refNamespace = fksReferencedSchema op, refName = fksReferencedTable op\<rparr>) @ fksReferencedColumns op"
proof -
  note d = action_tidy [OF assms(1), where ev = "''DELETE''"] and u = action_tidy [OF assms(2), where ev = "''UPDATE''"]
  have "tidy e (action_piece ''DELETE'' (fksOnDelete op) @ action_piece ''UPDATE'' (fksOnUpdate op))"
    using d u by (simp add: tidy_append)
  then show "tidy e (buildAddForeignKeyClause op)"
    by (simp add: buildAddForeignKeyClause_def tidy_append tidy_idents_by_comma tidy_qualify no_raw_qualify)
  show "idents (buildAddForeignKeyClause op) = (case fksConstraintName op of None \<Rightarrow> [] | Some n \<Rightarrow> n) # fksColumns op
       @ idents (qualify \<lparr>refNamespace = fksReferencedSchema op, refName = fksReferencedTable op\<rparr>) @ fksReferencedColumns op"
    using d u by (simp add: buildAddForeignKeyClause_def)
qed

subsection \<open>A validated request is one statement over its own names\<close>

definition ref_names :: "table_ref \<Rightarrow> string list" where
  "ref_names ref = idents (qualify ref)"

definition constraint_name :: "table_ref \<Rightarrow> foreign_key_spec \<Rightarrow> string" where
  "constraint_name ref spec =
     (case fksConstraintName spec of
        None \<Rightarrow> fk_name (refName ref) (fksColumns spec)
      | Some n \<Rightarrow> if n = [] then fk_name (refName ref) (fksColumns spec) else n)"

fun alter_names :: "table_ref \<Rightarrow> alter_op \<Rightarrow> string list" where
  "alter_names ref (AddColumn col) = ref_names ref @ [ncName col]"
| "alter_names ref (DropColumn c) = ref_names ref @ [c]"
| "alter_names ref (SetNotNull c b) = ref_names ref @ [c]"
| "alter_names ref (SetDefault c d) = ref_names ref @ [c]"
| "alter_names ref (ChangeType c ty u) = ref_names ref @ [c]"
| "alter_names ref (AddForeignKey spec) = ref_names ref @ constraint_name ref spec # fksColumns spec
     @ ref_names \<lparr>refNamespace = fksReferencedSchema spec, refName = fksReferencedTable spec\<rparr> @ fksReferencedColumns spec"
| "alter_names ref (DropForeignKey name) = ref_names ref @ [name]"
| "alter_names ref (SetComment c comment) = ref_names ref @ (case c of None \<Rightarrow> [] | Some c' \<Rightarrow> [c'])"

text \<open>
  On MySQL a column is changed by restating it: the default that is taken over is the catalogue's text, and
  the definition restated for a column comment is the catalogue's too. \<open>catalogue_plain\<close>: the change is not the
  comment of a MySQL column, and on MySQL no default text of the catalogue holds a quote, a comment or a semicolon.
\<close>

definition catalogue_plain :: "engine \<Rightarrow> column_metadata list \<Rightarrow> alter_op \<Rightarrow> bool" where
  "catalogue_plain e columns op \<longleftrightarrow>
     (e = Mysql \<longrightarrow>
        (\<forall>col \<in> set columns. \<forall>s. defaultValue col = Some s \<longrightarrow> clean s) \<and>
        (case op of SetComment (Some c) comment \<Rightarrow> False | _ \<Rightarrow> True))"

definition target_names :: "engine \<Rightarrow> string \<Rightarrow> string \<Rightarrow> string list" where
  "target_names e schema name =
     (if e = Sqlite then ref_names \<lparr>refNamespace = Some schema, refName = name\<rparr> else [schema, name])"

definition index_names :: "engine \<Rightarrow> create_index_request \<Rightarrow> string list" where
  "index_names e req =
     (if e = Sqlite then ref_names \<lparr>refNamespace = Some (ciSchema req), refName = index_name req\<rparr> @ [ciTable req]
      else [index_name req, ciSchema req, ciTable req]) @ ciColumns req"

definition drop_index_names :: "engine \<Rightarrow> table_ref \<Rightarrow> string \<Rightarrow> string list" where
  "drop_index_names e ref indexName =
     (case e of
        Pg \<Rightarrow> [case refNamespace ref of None \<Rightarrow> [] | Some ns \<Rightarrow> ns, indexName]
      | Mysql \<Rightarrow> indexName # ref_names ref
      | Sqlite \<Rightarrow> ref_names \<lparr>refNamespace = refNamespace ref, refName = indexName\<rparr>)"

text \<open>\<open>ddl_built e change names f\<close>: \<open>f\<close> is built for a validated request over \<open>names\<close>; a change of a table is noted
  in \<open>change\<close>, with the columns the catalogue gave.\<close>

inductive ddl_built ::
  "engine \<Rightarrow> (column_metadata list \<times> alter_op) option \<Rightarrow> string list \<Rightarrow> sql_fragment \<Rightarrow> bool" where
  built_create: "normalizeCreateTable e req = Inr n \<Longrightarrow> buildCreateTable e n = Inr f \<Longrightarrow>
    ddl_built e None (target_names e (ctSchema req) (ctTable req) @ map ncName (ctColumns req)
      @ map ncName (filter ncPrimaryKey (ctColumns req))) f"
| built_alter: "normalizeAlterTable e ref op columns = Inr n \<Longrightarrow> buildAlterTable e ref n = Inr f \<Longrightarrow>
    ddl_built e (Some (columns, op)) (alter_names ref op) f"
| built_index: "normalizeCreateIndex e req = Inr (r, name, ixmethod) \<Longrightarrow> buildCreateIndex e r name ixmethod = Inr f \<Longrightarrow>
    ddl_built e None (index_names e req) f"
| built_drop_index: "buildDropIndex e ref indexName = Inr f \<Longrightarrow> ddl_built e None (drop_index_names e ref indexName) f"
| built_drop_table: "buildDropTable e ref = Inr f \<Longrightarrow> ddl_built e None (ref_names ref) f"
| built_truncate: "buildTruncateTable e ref = Inr f \<Longrightarrow> ddl_built e None (ref_names ref) f"

lemma pg_column_clean: "pg_normalizeColumn col = Inr c \<Longrightarrow>
    clean_column c \<and> ncName c = ncName col \<and> ncPrimaryKey c = ncPrimaryKey col"
  using validated_types(1) validated_defaults(1)
  by (auto simp: pg_normalizeColumn_def res_simps clean_column_def)

lemma mysql_column_clean: "mysql_normalizeColumn col = Inr c \<Longrightarrow>
    clean_column c \<and> ncName c = ncName col \<and> ncPrimaryKey c = ncPrimaryKey col"
  using validated_types(2) validated_defaults(2)
  by (auto simp: mysql_normalizeColumn_def res_simps clean_column_def)

lemma sqlite_column_clean: "sqlite_normalizeColumn SQLITE_COLUMN_TYPES col = Inr c \<Longrightarrow>
    clean_column c \<and> ncName c = ncName col \<and> ncPrimaryKey c = ncPrimaryKey col"
  using validated_types(3) validated_defaults(3)
  by (auto simp: sqlite_normalizeColumn_def res_simps clean_column_def)

lemma create_columns:
  assumes "normalizeCreateTable e req = Inr n"
  shows "ctSchema n = ctSchema req" "ctTable n = ctTable req" "list_all clean_column (ctColumns n)"
    "map ncName (ctColumns n) = map ncName (ctColumns req)"
    "map ncName (filter ncPrimaryKey (ctColumns n)) = map ncName (filter ncPrimaryKey (ctColumns req))"
proof -
  have cols: "ctSchema n = ctSchema req \<and> ctTable n = ctTable req \<and>
      list_all2 (\<lambda>c c'. clean_column c' \<and> ncName c' = ncName c \<and> ncPrimaryKey c' = ncPrimaryKey c) (ctColumns req) (ctColumns n)"
    using assms pg_column_clean mysql_column_clean sqlite_column_clean
    by (cases e) (auto simp: normalizeCreateTable_def pgNormalizeCreateTable_def mysqlNormalizeCreateTable_def
        sqliteNormalizeCreateTable_def res_map_Inr_iff traverse_Inr_iff elim!: list_all2_mono)
  then show "ctSchema n = ctSchema req" "ctTable n = ctTable req" by simp_all
  have l2: "list_all2 (\<lambda>c c'. clean_column c' \<and> ncName c' = ncName c \<and> ncPrimaryKey c' = ncPrimaryKey c) (ctColumns req) (ctColumns n)"
    using cols by simp
  then show "list_all clean_column (ctColumns n)" "map ncName (ctColumns n) = map ncName (ctColumns req)"
    "map ncName (filter ncPrimaryKey (ctColumns n)) = map ncName (filter ncPrimaryKey (ctColumns req))"
    by (induction rule: list_all2_induct) auto
qed

lemma create_tidy:
  assumes "list_all clean_column cols" "tidy e pre" "no_raw pre"
  shows "tidy e (pre @ body_lines (map pg_column_line cols @ key_line cols))"
    "tidy e (pre @ body_lines (map (\<lambda>c. Txt ''  '' # buildColumnDefinition c) cols @ key_line cols))"
    "idents (pre @ body_lines (map pg_column_line cols @ key_line cols)) =
       idents pre @ map ncName cols @ map ncName (filter ncPrimaryKey cols)"
    "idents (pre @ body_lines (map (\<lambda>c. Txt ''  '' # buildColumnDefinition c) cols @ key_line cols)) =
       idents pre @ map ncName cols @ map ncName (filter ncPrimaryKey cols)"
proof -
  have start: "starts_safe (body_lines defs)" for defs by (simp add: body_lines_def)
  have lines: "list_all (\<lambda>p. tidy e p \<and> no_raw p) (map pg_column_line cols @ key_line cols)"
    "list_all (\<lambda>p. tidy e p \<and> no_raw p) (map (\<lambda>c. Txt ''  '' # buildColumnDefinition c) cols @ key_line cols)"
    using assms(1) column_line_tidy key_line_tidy(1) by (auto simp: list_all_iff)
  show "tidy e (pre @ body_lines (map pg_column_line cols @ key_line cols))"
    "tidy e (pre @ body_lines (map (\<lambda>c. Txt ''  '' # buildColumnDefinition c) cols @ key_line cols))"
    using body_lines_tidy [OF lines(1)] body_lines_tidy [OF lines(2)] tidy_append [OF assms(2,3) start] by simp_all
  have "list_all clean_column cs \<Longrightarrow> concat (map (\<lambda>c. idents (pg_column_line c)) cs) = map ncName cs
      \<and> concat (map (\<lambda>c. idents (buildColumnDefinition c)) cs) = map ncName cs" for cs
    by (induction cs) (simp_all add: column_line_tidy)
  with assms(1) show "idents (pre @ body_lines (map pg_column_line cols @ key_line cols)) =
       idents pre @ map ncName cols @ map ncName (filter ncPrimaryKey cols)"
    "idents (pre @ body_lines (map (\<lambda>c. Txt ''  '' # buildColumnDefinition c) cols @ key_line cols)) =
       idents pre @ map ncName cols @ map ncName (filter ncPrimaryKey cols)"
    using key_line_tidy(2) by (simp_all add: comp_def)
qed

lemma alter_prefix: "tidy e (qualify ref @ qs) = (tidy e qs)" if "starts_safe qs"
  using that by (simp add: tidy_append tidy_qualify no_raw_qualify)

lemma fk_normalized:
  assumes "normalizeAddForeignKey ref spec columns = Inr n"
  shows "n = spec\<lparr>fksConstraintName := Some (constraint_name ref spec)\<rparr>"
    "tidy e (buildAddForeignKeyClause n)"
    "idents (buildAddForeignKeyClause n) = constraint_name ref spec # fksColumns spec
       @ ref_names \<lparr>refNamespace = fksReferencedSchema spec, refName = fksReferencedTable spec\<rparr> @ fksReferencedColumns spec"
proof -
  show n: "n = spec\<lparr>fksConstraintName := Some (constraint_name ref spec)\<rparr>"
    using assms by (auto simp: normalizeAddForeignKey_def res_bind_Inr_iff constraint_name_def)
  have "clean a" if "a \<in> set FOREIGN_KEY_ACTIONS" for a
    using that by (auto simp: FOREIGN_KEY_ACTIONS_def)
  then have a: "\<forall>a. fksOnDelete n = Some a \<longrightarrow> clean a" "\<forall>a. fksOnUpdate n = Some a \<longrightarrow> clean a"
    using assms by (auto simp: n normalizeAddForeignKey_def res_bind_Inr_iff assertAction_def require_Inr_iff)
  show "tidy e (buildAddForeignKeyClause n)" by (rule fk_clause_tidy [OF a])
  show "idents (buildAddForeignKeyClause n) = constraint_name ref spec # fksColumns spec
       @ ref_names \<lparr>refNamespace = fksReferencedSchema spec, refName = fksReferencedTable spec\<rparr> @ fksReferencedColumns spec"
    using fk_clause_tidy(2) [OF a] by (simp add: n ref_names_def)
qed

lemma using_clean: "pg_check_using u = Inr (Some t) \<Longrightarrow> list_all (\<lambda>c. ddl_char c \<or> js_space c) t"
  using using_chars ddl_char_js_lower
  by (fastforce simp: pg_check_using_def Let_def list_all_iff js_lower_def js_space_def js_lower_char_def
      split: option.splits if_splits)

lemma space_clean: "js_space c \<Longrightarrow> clean_char c"
  by (auto simp: js_space_def clean_char_def plain_char_def)

lemma using_tidy: "pg_check_using u = Inr (Some t) \<Longrightarrow> clean t"
  using using_clean ddl_char_clean space_clean unfolding clean_def list_all_iff by blast

lemma new_default_clean:
  assumes "check_new_default validate d = Inr c" "\<And>v t. validate v = Inr (Some t) \<Longrightarrow> clean t"
  shows "\<forall>s. c = Some s \<longrightarrow> clean s"
  using assms by (auto simp: check_new_default_def res_bind_Inr_iff split: option.splits)

lemma comment_tidy [simp]: "tidy Pg [pg_comment_value comment]"
  using tidy_simps(4) [of Pg _ "[]"]
  by (simp add: pg_comment_value_def engine_quoteString_def split: option.split)

lemma idents_comment [simp]: "idents [pg_comment_value comment] = []"
  by (simp add: pg_comment_value_def split: option.split)

lemma pg_alter_tidy:
  assumes "pgNormalizeAlterTable ref op columns = Inr n"
  shows "tidy Pg (pg_alter_template ref (naOp n)) \<and> idents (pg_alter_template ref (naOp n)) = alter_names ref op"
proof (cases op)
  case (AddColumn col)
  with assms obtain ty d where
    n: "naOp n = AddColumn (col\<lparr>ncType := ty, ncNullable := (if ncPrimaryKey col then False else ncNullable col), ncDefault := d\<rparr>)"
    and v: "pg_validateType (ncType col) = Inr ty" "pg_validateDefault (ncDefault col) = Inr d"
    by (fastforce simp: pgNormalizeAlterTable_def plain_op_def res_bind_Inr_iff res_map_Inr_iff)
  have ty: "clean ty" and d: "\<forall>s. d = Some s \<longrightarrow> clean s"
    using v validated_types(1) validated_defaults(1) by blast+
  note dt = default_tidy [OF d]
  show ?thesis
    unfolding AddColumn n using ty dt
    by (simp add: pg_alter_template_def Let_def alter_prefix ref_names_def)
next
  case (DropColumn c)
  with assms show ?thesis
    by (auto simp: pgNormalizeAlterTable_def plain_op_def res_map_Inr_iff pg_alter_template_def Let_def alter_prefix ref_names_def)
next
  case (SetNotNull c b)
  with assms show ?thesis
    by (auto simp: pgNormalizeAlterTable_def plain_op_def res_map_Inr_iff pg_alter_template_def Let_def alter_prefix ref_names_def)
next
  case (SetDefault c d)
  with assms obtain canon where n: "naOp n = SetDefault c canon" and canon: "\<forall>s. canon = Some s \<longrightarrow> clean s"
    using new_default_clean validated_defaults(1)
    by (auto simp: pgNormalizeAlterTable_def plain_op_def res_bind_Inr_iff res_map_Inr_iff)
  then show ?thesis
    by (auto simp: SetDefault pg_alter_template_def Let_def alter_prefix ref_names_def split: option.split)
next
  case (ChangeType c ty u)
  with assms obtain ty' u' where n: "naOp n = ChangeType c ty' u'"
    and v: "pg_validateType ty = Inr ty'" "pg_check_using u = Inr u'"
    by (auto simp: pgNormalizeAlterTable_def plain_op_def res_bind_Inr_iff res_map_Inr_iff)
  have "clean ty'" "\<forall>s. u' = Some s \<longrightarrow> clean s"
    using v using_tidy validated_types(1) by blast+
  with n show ?thesis
    by (auto simp: ChangeType pg_alter_template_def Let_def alter_prefix ref_names_def split: option.split)
next
  case (AddForeignKey spec)
  with assms obtain s where "naOp n = AddForeignKey s" "normalizeAddForeignKey ref spec columns = Inr s"
    by (auto simp: pgNormalizeAlterTable_def plain_op_def res_map_Inr_iff)
  then show ?thesis
    using fk_normalized [of ref spec columns s] by (simp add: AddForeignKey pg_alter_template_def Let_def alter_prefix ref_names_def)
next
  case (DropForeignKey name)
  with assms show ?thesis
    by (auto simp: pgNormalizeAlterTable_def plain_op_def res_map_Inr_iff pg_alter_template_def Let_def alter_prefix ref_names_def)
next
  case (SetComment c comment)
  with assms have n: "naOp n = SetComment c comment"
    by (auto simp: pgNormalizeAlterTable_def plain_op_def res_map_Inr_iff split: option.splits)
  show ?thesis
    unfolding n SetComment
    by (auto simp: pg_alter_template_def Let_def tidy_append tidy_qualify no_raw_qualify ref_names_def split: option.split)
qed

lemma mysql_comment_tidy [simp]: "tidy Mysql [Raw (mysqlQuoteString s)]"
  using tidy_simps(4) [of Mysql s "[]"] by (simp add: engine_quoteString_def)

lemma required_column: "requireColumn columns c = Inr col \<Longrightarrow> col \<in> set columns \<and> colName col = c"
  by (auto simp: requireColumn_def find_Some_iff split: option.splits)

lemma restated_clean:
  assumes "requireColumn columns c = Inr col" "fromColumnMetadata col = Inr cur"
    "\<forall>col \<in> set columns. \<forall>s. defaultValue col = Some s \<longrightarrow> clean s"
  shows "clean_column cur \<and> ncName cur = c"
  using required_column [OF assms(1)] assms(2,3) validated_types(2)
  by (auto simp: fromColumnMetadata_def res_map_Inr_iff clean_column_def)

lemma clean_column_update:
  "clean_column col \<Longrightarrow> clean_column (col\<lparr>ncNullable := b\<rparr>)"
  "clean_column col \<Longrightarrow> \<forall>s. d = Some s \<longrightarrow> clean s \<Longrightarrow> clean_column (col\<lparr>ncDefault := d\<rparr>)"
  "clean_column col \<Longrightarrow> clean ty \<Longrightarrow> clean_column (col\<lparr>ncType := ty\<rparr>)"
  by (simp_all add: clean_column_def)

lemma modify_tidy:
  assumes "clean_column def"
  shows "tidy e (Txt ''ALTER TABLE '' # qualify ref @ Txt '' MODIFY COLUMN '' # buildColumnDefinition def)"
    "tidy e (Txt ''ALTER TABLE '' # qualify ref @ Txt '' ADD COLUMN '' # buildColumnDefinition def)"
    "idents (buildColumnDefinition def) = [ncName def]"
  using column_line_tidy [OF assms] by (simp_all add: alter_prefix)

lemma mysql_alter_tidy:
  assumes "mysqlNormalizeAlterTable ref op columns = Inr n" "catalogue_plain Mysql columns op"
    "mysql_alter_template ref n = Inr ps"
  shows "tidy Mysql ps \<and> idents ps = alter_names ref op"
proof -
  have cat: "\<forall>col \<in> set columns. \<forall>s. defaultValue col = Some s \<longrightarrow> clean s"
    using assms(2) by (simp add: catalogue_plain_def)
  note defs = mysqlNormalizeAlterTable_def attachColumnDefinition_def plain_op_def res_bind_Inr_iff res_map_Inr_iff
  note out = mysql_alter_template_def Let_def ref_names_def
  show ?thesis
  proof (cases op)
    case (AddColumn col)
    with assms(1) obtain c where n: "naOp n = AddColumn c" and c: "mysql_normalizeColumn col = Inr c"
      by (auto simp: defs)
    note cc = mysql_column_clean [OF c]
    show ?thesis
      using assms(3) n cc modify_tidy [of c] by (auto simp: AddColumn out)
  next
    case (DropColumn c)
    with assms(1,3) show ?thesis by (auto simp: defs out alter_prefix)
  next
    case (SetNotNull c b)
    with assms(1) obtain col cur where n: "naOp n = SetNotNull c b" "naDefinition n = Some (cur\<lparr>ncNullable := \<not> b\<rparr>)"
      and cur: "requireColumn columns c = Inr col" "fromColumnMetadata col = Inr cur"
      by (auto simp: defs)
    note cc = restated_clean [OF cur cat]
    show ?thesis
      using assms(3) n cc modify_tidy [OF clean_column_update(1)] by (auto simp: SetNotNull out)
  next
    case (SetDefault c d)
    with assms(1) obtain col cur canon where n: "naOp n = SetDefault c canon" "naDefinition n = Some (cur\<lparr>ncDefault := canon\<rparr>)"
      and cur: "requireColumn columns c = Inr col" "fromColumnMetadata col = Inr cur"
      and d: "check_new_default mysql_validateDefault d = Inr canon"
      by (auto simp: defs)
    note cc = restated_clean [OF cur cat] and dd = new_default_clean [OF d validated_defaults(2)]
    show ?thesis
      using assms(3) n cc modify_tidy [OF clean_column_update(2)] dd by (auto simp: SetDefault out)
  next
    case (ChangeType c ty u)
    with assms(1) obtain col cur ty' where n: "naOp n = ChangeType c ty' None" "naDefinition n = Some (cur\<lparr>ncType := ty'\<rparr>)"
      and cur: "requireColumn columns c = Inr col" "fromColumnMetadata col = Inr cur" and ty: "mysql_validateType ty = Inr ty'"
      by (auto simp: defs)
    note cc = restated_clean [OF cur cat] and tt = validated_types(2) [OF ty]
    show ?thesis
      using assms(3) n cc modify_tidy [OF clean_column_update(3)] tt by (auto simp: ChangeType out)
  next
    case (AddForeignKey spec)
    with assms(1) obtain s where "naOp n = AddForeignKey s" "normalizeAddForeignKey ref spec columns = Inr s"
      by (auto simp: defs)
    then show ?thesis
      using fk_normalized [of ref spec columns s] assms(3) by (auto simp: AddForeignKey out alter_prefix)
  next
    case (DropForeignKey name)
    with assms(1,3) show ?thesis by (auto simp: defs out alter_prefix)
  next
    case (SetComment c comment)
    with assms(2) have c: "c = None" by (auto simp: catalogue_plain_def split: option.splits)
    with SetComment assms(1) have n: "naOp n = SetComment None comment" by (auto simp: defs)
    show ?thesis
      using assms(3) by (auto simp: SetComment c n out alter_prefix)
  qed
qed

lemma sqlite_alter_tidy:
  assumes "sqliteNormalizeAlterTable ref op columns SQLITE_COLUMN_TYPES = Inr n" "sqlite_alter_template ref (naOp n) = Inr ps"
  shows "tidy Sqlite ps \<and> idents ps = alter_names ref op"
proof (cases op)
  case (AddColumn col)
  with assms(1) obtain ty d where
    n: "naOp n = AddColumn (col\<lparr>ncType := ty, ncNullable := (if ncPrimaryKey col then False else ncNullable col), ncDefault := d\<rparr>)"
    and v: "sqlite_validateType (ncType col) SQLITE_COLUMN_TYPES = Inr ty" "sqlite_validateDefault (ncDefault col) = Inr d"
    by (fastforce simp: sqliteNormalizeAlterTable_def plain_op_def res_bind_Inr_iff res_map_Inr_iff)
  have ty: "clean ty" and d: "\<forall>s. d = Some s \<longrightarrow> clean s"
    using v validated_types(3) validated_defaults(3) by blast+
  note dt = default_tidy [OF d]
  show ?thesis
    using assms(2) ty dt starts_safe_if_text [of "'' NOT NULL''" "default_piece d"]
    unfolding AddColumn n by (auto simp: sqlite_alter_template_def Let_def alter_prefix ref_names_def)
next
  case (DropColumn c)
  with assms show ?thesis
    by (auto simp: sqliteNormalizeAlterTable_def plain_op_def res_map_Inr_iff sqlite_alter_template_def Let_def alter_prefix ref_names_def)
next
  case (SetDefault c d)
  with assms show ?thesis
    by (auto simp: sqliteNormalizeAlterTable_def plain_op_def res_bind_Inr_iff res_map_Inr_iff sqlite_alter_template_def Let_def)
next
  case (ChangeType c ty u)
  with assms show ?thesis
    by (auto simp: sqliteNormalizeAlterTable_def plain_op_def res_bind_Inr_iff res_map_Inr_iff sqlite_alter_template_def Let_def)
next
  case (SetNotNull c b)
  with assms show ?thesis
    by (auto simp: sqliteNormalizeAlterTable_def plain_op_def res_map_Inr_iff sqlite_alter_template_def Let_def)
qed (use assms in \<open>auto simp: sqliteNormalizeAlterTable_def res_map_Inr_iff\<close>)

lemma upper_btree: "js_upper ''btree'' = ''BTREE''"
  by (simp add: js_upper_def js_upper_char_def char_of_def bit_0)

lemma methods_clean: "m \<in> set PG_INDEX_METHODS \<Longrightarrow> clean m" "clean (js_upper ''btree'')"
    "clean (if b then ''CREATE UNIQUE INDEX '' else ''CREATE INDEX '')"
  by (auto simp: PG_INDEX_METHODS_def clean_char_def plain_char_def upper_btree)

lemma normalized_index: "normalize_index allowed req = Inr (r, name, m) \<Longrightarrow> r = req \<and> name = index_name req \<and> m \<in> set allowed"
  by (auto simp: normalize_index_def Let_def split: if_splits)

lemma index_reads:
  assumes "normalizeCreateIndex e req = Inr (r, name, m)" "buildCreateIndex e r name m = Inr f"
  shows "token_idents (lex e (fragSql f)) = index_names e req \<and> list_all clean_token (lex e (fragSql f)) \<and> fragParams f = []"
proof (cases e)
  case Pg
  with assms(1) have "r = req" "name = index_name req" "clean m"
    using normalized_index methods_clean(1) by (auto simp: normalizeCreateIndex_def pgNormalizeCreateIndex_def)
  with assms(2) show ?thesis
    using Pg by (auto simp: methods_clean(3) buildCreateIndex_def pgBuildCreateIndex_def index_names_def tidy_append tidy_idents_by_comma
        dest!: tidy_reads [rotated])
next
  case Mysql
  with assms(1) have "r = req" "name = index_name req" "m = ''btree''"
    using normalized_index [of "[''btree'']" req r name m] by (auto simp: normalizeCreateIndex_def mysqlNormalizeCreateIndex_def)
  with assms(2) show ?thesis
    using Mysql methods_clean(2)
    by (auto simp: methods_clean(3) buildCreateIndex_def mysqlBuildCreateIndex_def index_names_def tidy_append tidy_idents_by_comma
        dest!: tidy_reads [rotated])
next
  case Sqlite
  with assms(1) have "r = req" "name = index_name req"
    using normalized_index [of "[''btree'']" req r name m] by (auto simp: normalizeCreateIndex_def sqliteNormalizeCreateIndex_def)
  with assms(2) show ?thesis
    using Sqlite
    by (auto simp: methods_clean(3) buildCreateIndex_def sqliteBuildCreateIndex_def index_names_def ref_names_def alter_prefix tidy_append
        tidy_idents_by_comma dest!: tidy_reads [rotated])
qed

lemma create_reads:
  assumes "normalizeCreateTable e req = Inr n" "buildCreateTable e n = Inr f"
  shows "token_idents (lex e (fragSql f)) = target_names e (ctSchema req) (ctTable req) @ map ncName (ctColumns req)
      @ map ncName (filter ncPrimaryKey (ctColumns req)) \<and> list_all clean_token (lex e (fragSql f)) \<and> fragParams f = []"
proof -
  note c = create_columns [OF assms(1)]
  have pre: "tidy e' [Txt ''CREATE TABLE '', Ident s, Txt ''.'', Ident t]" "no_raw [Txt ''CREATE TABLE '', Ident s, Txt ''.'', Ident t]"
    "tidy e' (Txt ''CREATE TABLE '' # qualify ref)" "no_raw (Txt ''CREATE TABLE '' # qualify ref)" for e' s t ref
    by (simp_all add: tidy_qualify no_raw_qualify)
  show ?thesis
  proof (cases e)
    case Pg
    with assms(2) show ?thesis
      using create_tidy(1,3) [OF c(3) pre(1,2)] c
      by (auto simp: buildCreateTable_def pgBuildCreateTable_def target_names_def dest!: tidy_reads [rotated])
  next
    case Mysql
    with assms(2) show ?thesis
      using create_tidy(2,4) [OF c(3) pre(1,2)] c
      by (auto simp: buildCreateTable_def mysqlBuildCreateTable_def target_names_def dest!: tidy_reads [rotated])
  next
    case Sqlite
    with assms(2) show ?thesis
      using create_tidy(1,3) [OF c(3) pre(3,4)] c
      by (auto simp: buildCreateTable_def sqliteBuildCreateTable_def target_names_def ref_names_def dest!: tidy_reads [rotated])
  qed
qed

lemma alter_reads:
  assumes "normalizeAlterTable e ref op columns = Inr n" "buildAlterTable e ref n = Inr f" "catalogue_plain e columns op"
  shows "token_idents (lex e (fragSql f)) = alter_names ref op \<and> list_all clean_token (lex e (fragSql f)) \<and> fragParams f = []"
proof (cases e)
  case Pg
  with assms show ?thesis
    using pg_alter_tidy [of ref op columns n]
    by (auto simp: normalizeAlterTable_def buildAlterTable_def pgBuildAlterTable_def dest!: tidy_reads [rotated])
next
  case Mysql
  with assms(2) obtain ps where "mysql_alter_template ref n = Inr ps" "fragment Mysql ps [] = Inr f"
    by (auto simp: buildAlterTable_def mysqlBuildAlterTable_def res_bind_Inr_iff)
  with assms(1,3) Mysql show ?thesis
    using mysql_alter_tidy [of ref op columns n ps] tidy_reads [of Mysql ps "[]" f] by (auto simp: normalizeAlterTable_def)
next
  case Sqlite
  with assms(2) obtain ps where "sqlite_alter_template ref (naOp n) = Inr ps" "fragment Sqlite ps [] = Inr f"
    by (auto simp: buildAlterTable_def sqliteBuildAlterTable_def res_bind_Inr_iff)
  with assms(1) Sqlite show ?thesis
    using sqlite_alter_tidy [of ref op columns n ps] tidy_reads [of Sqlite ps "[]" f] by (auto simp: normalizeAlterTable_def)
qed

lemma drop_index_reads:
  assumes "buildDropIndex e ref indexName = Inr f"
  shows "token_idents (lex e (fragSql f)) = drop_index_names e ref indexName \<and> list_all clean_token (lex e (fragSql f)) \<and> fragParams f = []"
  using assms
  by (cases e) (auto simp: buildDropIndex_def pgBuildDropIndex_def mysqlBuildDropIndex_def sqliteBuildDropIndex_def
      drop_index_names_def ref_names_def tidy_qualify dest!: tidy_reads [rotated])

text \<open>
  C27. What is built for a DDL request that was validated is one statement over the names of the request: the
  engine reads as identifiers exactly the table, column, constraint and index names asked for, in order,
  whatever characters they hold; the rest is text without a quote, a comment or a semicolon, or the string
  literal of a comment; nothing is bound as a parameter. For a change of a MySQL table this rests on
  \<open>catalogue_plain\<close>: the column definitions that MySQL takes over from its own catalogue are not validated,
  so column comments are left out and the default texts of the catalogue are assumed to be clean.
\<close>

theorem ddl_statement_single:
  assumes "ddl_built e change names f" "\<forall>columns op. change = Some (columns, op) \<longrightarrow> catalogue_plain e columns op"
  shows "token_idents (lex e (fragSql f)) = names \<and> list_all clean_token (lex e (fragSql f)) \<and> fragParams f = []"
  using assms(1)
proof cases
  case (built_create req n)
  then show ?thesis using create_reads by simp
next
  case (built_alter ref op columns n)
  then show ?thesis using alter_reads assms(2) by simp
next
  case (built_index req r name m)
  then show ?thesis using index_reads by simp
next
  case (built_drop_index ref indexName)
  then show ?thesis using drop_index_reads by simp
next
  case (built_drop_table ref)
  then show ?thesis
    by (cases e) (auto simp: buildDropTable_def pgBuildDropTable_def mysqlBuildDropTable_def sqliteBuildDropTable_def
        ref_names_def tidy_qualify dest!: tidy_reads [rotated])
next
  case (built_truncate ref)
  then show ?thesis
    by (cases e) (auto simp: buildTruncateTable_def pgBuildTruncateTable_def mysqlBuildTruncateTable_def
        sqliteBuildTruncateTable_def ref_names_def tidy_qualify dest!: tidy_reads [rotated])
qed

definition example_columns :: "column_metadata list" where
  "example_columns = [\<lparr>colName = ''a; b'', dataType = ''text'', nullable = True, isPrimaryKey = False, autoIncrement = False,
       defaultValue = Some ''42'', colComment = None, nativeType = None, nativeDefinition = None\<rparr>]"

lemma example_drop_column:
  "normalizeAlterTable Mysql \<lparr>refNamespace = None, refName = ''t''\<rparr> (DropColumn ''a; b'') example_columns
   = Inr (plain_op (DropColumn ''a; b''))"
  by (simp add: normalizeAlterTable_def mysqlNormalizeAlterTable_def check_drop_def example_columns_def)

theorem ddl_statement_single_witness:
  "token_idents (lex Mysql ''ALTER TABLE `t` DROP COLUMN `a; b`'') = [''t'', ''a; b'']"
proof -
  have built: "buildAlterTable Mysql \<lparr>refNamespace = None, refName = ''t''\<rparr> (plain_op (DropColumn ''a; b''))
      = Inr \<lparr>fragSql = ''ALTER TABLE `t` DROP COLUMN `a; b`'', fragParams = []\<rparr>"
    by (simp add: buildAlterTable_def mysqlBuildAlterTable_def mysql_alter_template_def plain_op_def render_eval)
  have "clean ''42''" by (simp add: clean_def clean_char_def plain_char_def)
  then have "catalogue_plain Mysql example_columns (DropColumn ''a; b'')"
    by (simp add: catalogue_plain_def example_columns_def)
  with ddl_statement_single [OF built_alter [OF example_drop_column built]] show ?thesis
    by (simp add: ref_names_def qualify_def)
qed

subsection \<open>Where a validated request goes wrong\<close>

text \<open>A synthesized foreign-key name is cut to 64 characters, one more than the length it was found too long for.\<close>

lemma fk_name_too_long:
  assumes "length (table @ ''_'' @ join ''_'' columns @ ''_fkey'') > 63"
  shows "length (fk_name table columns) = 64"
proof -
  have "59 \<le> length (table @ ''_'' @ join ''_'' columns @ ''_fkey'')" using assms by linarith
  then show ?thesis using assms unfolding fk_name_def Let_def by simp
qed

text \<open>
  MySQL's catalogue gives the text of a string default without quotes, and the restated column takes it over
  as it is: making the column \<open>NOT NULL\<close> sends a statement whose default is another expression.
\<close>

lemma restated_default_unquoted:
  "buildAlterTable Mysql \<lparr>refNamespace = None, refName = ''t''\<rparr>
     (attachColumnDefinition (SetNotNull ''a'' True) \<lparr>ncName = ''a'', ncType = ''TEXT'', ncNullable = False, ncPrimaryKey = False,
        ncAutoIncrement = False, ncDefault = Some ''x y''\<rparr>)
   = Inr \<lparr>fragSql = ''ALTER TABLE `t` MODIFY COLUMN `a` TEXT NOT NULL DEFAULT x y'', fragParams = []\<rparr>"
  by (simp add: buildAlterTable_def mysqlBuildAlterTable_def mysql_alter_template_def attachColumnDefinition_def
      buildColumnDefinition_def default_piece_trimmed_def if_text_def render_eval js_trim_trimmed trimmed_def js_space_def)

text \<open>An example of a default that the driver's own descriptor offers, and the validator refuses.\<close>

lemma sqlite_empty_string_default:
  "\<exists>m. sqlite_validateDefault (Some [CHR 0x27, CHR 0x27]) = Inl (Unprocessable m)"
  by (simp add: sqlite_validateDefault_def check_default_def SAFE_DEFAULT_PATTERN_def digits_rx_def rx_defs
      js_trim_trimmed trimmed_def js_space_def digit_char_def ascii_lower_def)

end
