(* ===== verification/Effects.thy ===== *)
theory Effects
  imports Dialect
begin

text \<open>
  The effects of the services: what they send to the target database, what they record in the audit
  trail and the query history. An asynchronous method is a function of the world it runs in, returning
  its value or exception and the world after it; awaiting is sequencing. The target database is a
  parameter: \<open>exec\<close> says how it answers a fragment on a channel (the pool, or a client pinned for a
  session). Here too: \<open>audit/audit.service.ts\<close> (recording) and the session and transaction wrappers
  of the three drivers.
\<close>

subsection \<open>The world\<close>

text \<open>
  \<open>wAudit\<close> is the stored audit trail. An audit entry is written to the application database, and such a
  write can fail: \<open>wAuditWrites\<close> says of the coming writes whether they succeed (past its end they do).
\<close>

datatype channel = Pooled | Pinned

datatype audit_outcome = Success | Failure

record audit_entry =
  aeUser :: string
  aeConnection :: string
  aeAction :: string
  aeSchema :: "string option"
  aeTable :: "string option"
  aeSql :: string
  aeOutcome :: audit_outcome
  aeErrorClass :: "string option"
  aeCorrelation :: "string option"

record 'd world =
  wDb :: 'd
  wWire :: "(channel \<times> sql_fragment) list"
  wAudit :: "audit_entry list"
  wAuditWrites :: "bool list"
  wHistory :: "(string \<times> string \<times> string) list"

type_synonym ('w, 'a) eff = "'w \<Rightarrow> 'a res \<times> 'w"

definition ret :: "'a \<Rightarrow> ('w, 'a) eff" where
  "ret x = (\<lambda>w. (Inr x, w))"

definition throw :: "http_error \<Rightarrow> ('w, 'a) eff" where
  "throw e = (\<lambda>w. (Inl e, w))"

definition lift_res :: "'a res \<Rightarrow> ('w, 'a) eff" where
  "lift_res r = (\<lambda>w. (r, w))"

definition bind_eff :: "('w, 'a) eff \<Rightarrow> ('a \<Rightarrow> ('w, 'b) eff) \<Rightarrow> ('w, 'b) eff" where
  "bind_eff m f = (\<lambda>w. case m w of (Inl e, w') \<Rightarrow> (Inl e, w') | (Inr x, w') \<Rightarrow> f x w')"

text \<open>\<open>try { m } catch (e) { h e }\<close>\<close>

definition catch_eff :: "('w, 'a) eff \<Rightarrow> (http_error \<Rightarrow> ('w, 'a) eff) \<Rightarrow> ('w, 'a) eff" where
  "catch_eff m h = (\<lambda>w. case m w of (Inl e, w') \<Rightarrow> h e w' | (Inr x, w') \<Rightarrow> (Inr x, w'))"

definition update_world :: "('w \<Rightarrow> 'w) \<Rightarrow> ('w, unit) eff" where
  "update_world f = (\<lambda>w. (Inr (), f w))"

fun each_eff :: "('a \<Rightarrow> ('w, 'b) eff) \<Rightarrow> 'a list \<Rightarrow> ('w, 'b list) eff" where
  "each_eff f [] = ret []"
| "each_eff f (x # xs) = bind_eff (f x) (\<lambda>y. bind_eff (each_eff f xs) (\<lambda>ys. ret (y # ys)))"

text \<open>\<open>await m().catch(() => undefined)\<close>\<close>

definition ignore_errors :: "('w, 'a) eff \<Rightarrow> ('w, unit) eff" where
  "ignore_errors m = (\<lambda>w. (Inr (), snd (m w)))"

named_theorems eff_simps \<open>running effects\<close>

lemma ret_run [eff_simps, simp]: "ret x w = (Inr x, w)"
  by (simp add: ret_def)

lemma throw_run [eff_simps, simp]: "throw e w = (Inl e, w)"
  by (simp add: throw_def)

lemma lift_res_run [eff_simps, simp]: "lift_res r w = (r, w)"
  by (simp add: lift_res_def)

lemma update_world_run [eff_simps, simp]: "update_world f w = (Inr (), f w)"
  by (simp add: update_world_def)

lemma bind_eff_run [eff_simps]:
  "bind_eff m f w = (case m w of (Inl e, w') \<Rightarrow> (Inl e, w') | (Inr x, w') \<Rightarrow> f x w')"
  by (simp add: bind_eff_def)

lemma bind_eff_Inr: "m w = (Inr x, w') \<Longrightarrow> bind_eff m f w = f x w'"
  by (simp add: bind_eff_def)

lemma bind_eff_Inl: "m w = (Inl e, w') \<Longrightarrow> bind_eff m f w = (Inl e, w')"
  by (simp add: bind_eff_def)

lemma bind_eff_cases:
  assumes "bind_eff m f w = (r, w')"
  obtains e where "m w = (Inl e, w')" "r = Inl e"
  | x w1 where "m w = (Inr x, w1)" "f x w1 = (r, w')"
  using assms by (auto simp: bind_eff_def split: prod.splits sum.splits)

lemma catch_eff_run [eff_simps]:
  "catch_eff m h w = (case m w of (Inl e, w') \<Rightarrow> h e w' | (Inr x, w') \<Rightarrow> (Inr x, w'))"
  by (simp add: catch_eff_def)

lemma each_eff_total:
  assumes "\<And>x w. \<exists>y w'. f x w = (Inr y, w') \<and> P x y"
  shows "\<exists>ys w'. each_eff f xs w = (Inr ys, w') \<and> list_all2 P xs ys"
proof (induction xs arbitrary: w)
  case Nil
  then show ?case by simp
next
  case (Cons x xs)
  obtain y w1 where y: "f x w = (Inr y, w1)" "P x y" using assms by blast
  obtain ys w2 where "each_eff f xs w1 = (Inr ys, w2)" "list_all2 P xs ys" using Cons.IH by blast
  with y show ?case by (simp add: bind_eff_run)
qed

text \<open>
  The trail after some entries were handed to \<open>record\<close>: the entry of a failed write is lost.
\<close>

fun stored_entries :: "bool list \<Rightarrow> 'e list \<Rightarrow> 'e list" where
  "stored_entries [] es = es"
| "stored_entries (ok # oks) [] = []"
| "stored_entries (ok # oks) (e # es) = (if ok then [e] else []) @ stored_entries oks es"

definition audited :: "audit_entry list \<Rightarrow> 'd world \<Rightarrow> 'd world" where
  "audited es w = w\<lparr>wAudit := wAudit w @ stored_entries (wAuditWrites w) es,
                    wAuditWrites := drop (length es) (wAuditWrites w)\<rparr>"

lemma stored_entries_Nil [simp]: "stored_entries oks [] = []"
  by (cases oks) simp_all

lemma stored_entries_append:
  "stored_entries oks (xs @ ys) = stored_entries oks xs @ stored_entries (drop (length xs) oks) ys"
  by (induction oks xs rule: stored_entries.induct) simp_all

lemma set_stored_entries: "set (stored_entries oks es) \<subseteq> set es"
  by (induction oks es rule: stored_entries.induct) auto

lemma stored_entries_all: "list_all id oks \<Longrightarrow> stored_entries oks es = es"
  by (induction oks es rule: stored_entries.induct) simp_all

lemma audited_Nil [simp]: "audited [] w = w"
  by (simp add: audited_def)

lemma audited_audited [simp]: "audited ys (audited xs w) = audited (xs @ ys) w"
  by (simp add: audited_def stored_entries_append add.commute)

lemma wire_audited [simp]: "wWire (audited es w) = wWire w"
  by (simp add: audited_def)

lemma db_audited [simp]: "wDb (audited es w) = wDb w"
  by (simp add: audited_def)

lemma history_audited [simp]: "wHistory (audited es w) = wHistory w"
  by (simp add: audited_def)

lemma audit_audited: "wAudit (audited es w) = wAudit w @ stored_entries (wAuditWrites w) es"
  by (simp add: audited_def)

text \<open>The next write of an audit entry succeeds.\<close>

definition audit_write_ok :: "'d world \<Rightarrow> bool" where
  "audit_write_ok w \<longleftrightarrow> take 1 (wAuditWrites w) \<noteq> [False]"

lemma audit_audited_one: "wAudit (audited [e] w) = wAudit w @ (if audit_write_ok w then [e] else [])"
  by (cases "wAuditWrites w") (simp_all add: audited_def audit_write_ok_def)

lemma each_eff_audit:
  assumes "\<And>x w. \<exists>u. f x w = (Inr u, audited (g x) w)"
  shows "\<exists>us. each_eff f xs w = (Inr us, audited (concat (map g xs)) w)"
proof (induction xs arbitrary: w)
  case Nil
  then show ?case by simp
next
  case (Cons x xs)
  obtain u where u: "f x w = (Inr u, audited (g x) w)" using assms by blast
  obtain us where "each_eff f xs (audited (g x) w) = (Inr us, audited (concat (map g xs)) (audited (g x) w))"
    using Cons.IH by blast
  with u show ?case by (simp add: bind_eff_run)
qed

subsection \<open>Relations every step keeps\<close>

text \<open>\<open>keeps R m\<close>: whatever \<open>m\<close> returns, the world after it is related to the world before it.\<close>

definition keeps :: "('w \<Rightarrow> 'w \<Rightarrow> bool) \<Rightarrow> ('w, 'a) eff \<Rightarrow> bool" where
  "keeps R m \<longleftrightarrow> (\<forall>w. R w (snd (m w)))"

locale step_relation =
  fixes R :: "'w \<Rightarrow> 'w \<Rightarrow> bool"
  assumes refl_R: "R w w"
    and trans_R: "R w w' \<Longrightarrow> R w' w'' \<Longrightarrow> R w w''"
begin

lemma keeps_ret: "keeps R (ret x)"
  by (simp add: keeps_def refl_R)

lemma keeps_throw: "keeps R (throw e)"
  by (simp add: keeps_def refl_R)

lemma keeps_lift: "keeps R (lift_res r)"
  by (simp add: keeps_def refl_R)

lemma keeps_bind: "keeps R m \<Longrightarrow> (\<And>x. keeps R (f x)) \<Longrightarrow> keeps R (bind_eff m f)"
  unfolding keeps_def bind_eff_def
  by (auto split: prod.splits sum.splits) (metis snd_conv trans_R)+

lemma keeps_catch: "keeps R m \<Longrightarrow> (\<And>e. keeps R (h e)) \<Longrightarrow> keeps R (catch_eff m h)"
  unfolding keeps_def catch_eff_def
  by (auto split: prod.splits sum.splits) (metis snd_conv trans_R)+

lemma keeps_ignore: "keeps R m \<Longrightarrow> keeps R (ignore_errors m)"
  by (simp add: keeps_def ignore_errors_def)

lemma keeps_each: "(\<And>x. x \<in> set xs \<Longrightarrow> keeps R (f x)) \<Longrightarrow> keeps R (each_eff f xs)"
  by (induction xs) (auto intro: keeps_ret keeps_bind)

lemmas keeps_intros = keeps_ret keeps_throw keeps_lift keeps_bind keeps_catch keeps_ignore keeps_each

end

text \<open>Nothing is sent to the database.\<close>

definition no_wire :: "'d world \<Rightarrow> 'd world \<Rightarrow> bool" where
  "no_wire w w' \<longleftrightarrow> wWire w' = wWire w \<and> wDb w' = wDb w"

interpretation silent: step_relation no_wire
  by unfold_locales (simp_all add: no_wire_def)

text \<open>Only fragments with a property are sent.\<close>

definition sends :: "(channel \<times> sql_fragment \<Rightarrow> bool) \<Rightarrow> 'd world \<Rightarrow> 'd world \<Rightarrow> bool" where
  "sends P w w' \<longleftrightarrow> (\<exists>xs. wWire w' = wWire w @ xs \<and> list_all P xs)"

interpretation sending: step_relation "sends P" for P
  by unfold_locales (auto simp: sends_def)

text \<open>Nothing is handed to the audit trail.\<close>

definition no_audit :: "'d world \<Rightarrow> 'd world \<Rightarrow> bool" where
  "no_audit w w' \<longleftrightarrow> wAudit w' = wAudit w \<and> wAuditWrites w' = wAuditWrites w"

interpretation unaudited: step_relation no_audit
  by unfold_locales (simp_all add: no_audit_def)

subsection \<open>The target database\<close>

type_synonym 'd exec = "channel \<Rightarrow> sql_fragment \<Rightarrow> 'd \<Rightarrow> driver_result res \<times> 'd"

definition send :: "'d exec \<Rightarrow> channel \<Rightarrow> sql_fragment \<Rightarrow> ('d world, driver_result) eff" where
  "send exec ch frag = (\<lambda>w. case exec ch frag (wDb w) of (r, d) \<Rightarrow>
     (r, w\<lparr>wDb := d, wWire := wWire w @ [(ch, frag)]\<rparr>))"

definition plain_frag :: "string \<Rightarrow> sql_fragment" where
  "plain_frag s = \<lparr>fragSql = s, fragParams = []\<rparr>"

lemma wire_send [simp]: "wWire (snd (send exec ch frag w)) = wWire w @ [(ch, frag)]"
  by (simp add: send_def split: prod.splits)

lemma db_send [simp]: "wDb (snd (send exec ch frag w)) = snd (exec ch frag (wDb w))"
  by (simp add: send_def split: prod.splits)

lemma audit_send [simp]: "wAudit (snd (send exec ch frag w)) = wAudit w"
  by (simp add: send_def split: prod.splits)

lemma audit_writes_send [simp]: "wAuditWrites (snd (send exec ch frag w)) = wAuditWrites w"
  by (simp add: send_def split: prod.splits)

lemma keeps_send: "keeps (sends P) (send exec ch frag)" if "P (ch, frag)"
  using that by (auto simp: keeps_def sends_def)

lemma unaudited_send: "keeps no_audit (send exec ch frag)"
  by (simp add: keeps_def no_audit_def)

end
