(* ===== verification/Sessions.thy ===== *)
theory Sessions
  imports Effects
begin

text \<open>
  The session and transaction wrappers of the three drivers (\<open>withSession\<close>, \<open>withTransaction\<close>,
  \<open>withReadOnlyTransaction\<close> of \<open>drivers/*/*-driver.ts\<close>) and the recording side of
  \<open>audit/audit.service.ts\<close>. A callback gets the query function of the pinned client; on SQLite that is
  the shared handle itself. \<open>mysql2\<close>'s \<open>beginTransaction\<close>, \<open>commit\<close> and \<open>rollback\<close> send the statements
  of their names.
\<close>

type_synonym 'd query_fn = "sql_fragment \<Rightarrow> ('d world, driver_result) eff"

definition client_channel :: "engine \<Rightarrow> channel" where
  "client_channel e = (if e = Sqlite then Pooled else Pinned)"

definition begin_frag :: "engine \<Rightarrow> sql_fragment" where
  "begin_frag e = plain_frag (if e = Mysql then ''START TRANSACTION'' else ''BEGIN'')"

definition commit_frag :: sql_fragment where
  "commit_frag = plain_frag ''COMMIT''"

definition rollback_frag :: sql_fragment where
  "rollback_frag = plain_frag ''ROLLBACK''"

text \<open>\<open>try { BEGIN; result = fn(q); COMMIT; return result } catch (e) { ROLLBACK (errors ignored); throw e }\<close>\<close>

definition commit_or_rollback :: "'d query_fn \<Rightarrow> sql_fragment list \<Rightarrow> ('d query_fn \<Rightarrow> ('d world, 'a) eff) \<Rightarrow> ('d world, 'a) eff" where
  "commit_or_rollback q begins fn =
     catch_eff
       (bind_eff (each_eff q begins) (\<lambda>_.
        bind_eff (fn q) (\<lambda>result.
        bind_eff (q commit_frag) (\<lambda>_. ret result))))
       (\<lambda>e. bind_eff (ignore_errors (q rollback_frag)) (\<lambda>_. throw e))"

definition pg_withSession :: "'d exec \<Rightarrow> ('d query_fn \<Rightarrow> ('d world, 'a) eff) \<Rightarrow> ('d world, 'a) eff" where
  "pg_withSession exec fn = commit_or_rollback (send exec Pinned) [plain_frag ''BEGIN''] fn"

definition mysql_withSession :: "'d exec \<Rightarrow> ('d query_fn \<Rightarrow> ('d world, 'a) eff) \<Rightarrow> ('d world, 'a) eff" where
  "mysql_withSession exec fn = fn (send exec Pinned)"

text \<open>Here \<open>BEGIN\<close> stands before the \<open>try\<close>.\<close>

definition sqlite_withSession :: "'d exec \<Rightarrow> ('d query_fn \<Rightarrow> ('d world, 'a) eff) \<Rightarrow> ('d world, 'a) eff" where
  "sqlite_withSession exec fn =
     bind_eff (send exec Pooled (plain_frag ''BEGIN'')) (\<lambda>_. commit_or_rollback (send exec Pooled) [] fn)"

definition engine_withSession :: "engine \<Rightarrow> 'd exec \<Rightarrow> ('d query_fn \<Rightarrow> ('d world, 'a) eff) \<Rightarrow> ('d world, 'a) eff" where
  "engine_withSession e =
     (case e of Pg \<Rightarrow> pg_withSession | Mysql \<Rightarrow> mysql_withSession | Sqlite \<Rightarrow> sqlite_withSession)"

definition pg_withTransaction :: "'d exec \<Rightarrow> ('d query_fn \<Rightarrow> ('d world, 'a) eff) \<Rightarrow> ('d world, 'a) eff" where
  "pg_withTransaction exec fn = commit_or_rollback (send exec Pinned) [begin_frag Pg] fn"

definition mysql_withTransaction :: "'d exec \<Rightarrow> ('d query_fn \<Rightarrow> ('d world, 'a) eff) \<Rightarrow> ('d world, 'a) eff" where
  "mysql_withTransaction exec fn = commit_or_rollback (send exec Pinned) [begin_frag Mysql] fn"

definition sqlite_withTransaction :: "'d exec \<Rightarrow> ('d query_fn \<Rightarrow> ('d world, 'a) eff) \<Rightarrow> ('d world, 'a) eff" where
  "sqlite_withTransaction exec fn = commit_or_rollback (send exec Pooled) [begin_frag Sqlite] fn"

definition engine_withTransaction :: "engine \<Rightarrow> 'd exec \<Rightarrow> ('d query_fn \<Rightarrow> ('d world, 'a) eff) \<Rightarrow> ('d world, 'a) eff" where
  "engine_withTransaction e =
     (case e of Pg \<Rightarrow> pg_withTransaction | Mysql \<Rightarrow> mysql_withTransaction | Sqlite \<Rightarrow> sqlite_withTransaction)"

definition pg_withReadOnlyTransaction :: "'d exec \<Rightarrow> ('d query_fn \<Rightarrow> ('d world, 'a) eff) \<Rightarrow> ('d world, 'a) eff" where
  "pg_withReadOnlyTransaction exec fn =
     commit_or_rollback (send exec Pinned) [plain_frag ''BEGIN'', plain_frag ''SET TRANSACTION READ ONLY''] fn"

definition mysql_withReadOnlyTransaction :: "'d exec \<Rightarrow> ('d query_fn \<Rightarrow> ('d world, 'a) eff) \<Rightarrow> ('d world, 'a) eff" where
  "mysql_withReadOnlyTransaction exec fn =
     commit_or_rollback (send exec Pinned) [plain_frag ''START TRANSACTION READ ONLY''] fn"

text \<open>The \<open>finally\<close> runs on both paths; an exception of its own replaces what was thrown or returned.\<close>

definition sqlite_withReadOnlyTransaction :: "'d exec \<Rightarrow> ('d query_fn \<Rightarrow> ('d world, 'a) eff) \<Rightarrow> ('d world, 'a) eff" where
  "sqlite_withReadOnlyTransaction exec fn =
     (let off = send exec Pooled (plain_frag ''PRAGMA query_only = OFF'') in
      bind_eff (send exec Pooled (plain_frag ''PRAGMA query_only = ON'')) (\<lambda>_.
        bind_eff (catch_eff (fn (send exec Pooled)) (\<lambda>e. bind_eff off (\<lambda>_. throw e))) (\<lambda>r.
          bind_eff off (\<lambda>_. ret r))))"

definition engine_withReadOnlyTransaction :: "engine \<Rightarrow> 'd exec \<Rightarrow> ('d query_fn \<Rightarrow> ('d world, 'a) eff) \<Rightarrow> ('d world, 'a) eff" where
  "engine_withReadOnlyTransaction e =
     (case e of Pg \<Rightarrow> pg_withReadOnlyTransaction | Mysql \<Rightarrow> mysql_withReadOnlyTransaction
      | Sqlite \<Rightarrow> sqlite_withReadOnlyTransaction)"

subsection \<open>Recording in the audit trail\<close>

record audit_base =
  abUser :: string
  abConnection :: string
  abAction :: string
  abSql :: string
  abSchema :: "string option"
  abTable :: "string option"
  abCorrelation :: "string option"

fun error_name :: "http_error \<Rightarrow> string" where
  "error_name (BadRequest m) = ''BadRequestException''"
| "error_name (Forbidden m) = ''ForbiddenException''"
| "error_name (NotFound m) = ''NotFoundException''"
| "error_name (Conflict m) = ''ConflictException''"
| "error_name (Unprocessable m) = ''UnprocessableEntityException''"
| "error_name (ServiceUnavailable m) = ''ServiceUnavailableException''"
| "error_name (PlainError m) = ''Error''"
| "error_name (DriverError c m) = ''Error''"

definition errorClassOf :: "http_error \<Rightarrow> string" where
  "errorClassOf e =
     (case e of DriverError (Some code) m \<Rightarrow> if code \<noteq> [] then code else error_name e | _ \<Rightarrow> error_name e)"

text \<open>
  \<open>record\<close>: a failed write is caught and logged, so the caller never sees it and the entry is lost. The
  callers do not wait for it (\<open>void this.record(...)\<close>); here the write is done at the call.
\<close>

definition audit_record :: "audit_base \<Rightarrow> audit_outcome \<Rightarrow> string option \<Rightarrow> ('d world, unit) eff" where
  "audit_record b outcome errorClass =
     update_world (audited
       [\<lparr>aeUser = abUser b, aeConnection = abConnection b, aeAction = abAction b, aeSchema = abSchema b,
         aeTable = abTable b, aeSql = abSql b, aeOutcome = outcome, aeErrorClass = errorClass,
         aeCorrelation = abCorrelation b\<rparr>])"

definition withAudit :: "audit_base \<Rightarrow> ('d world, 'a) eff \<Rightarrow> ('d world, 'a) eff" where
  "withAudit base fn =
     catch_eff
       (bind_eff fn (\<lambda>result. bind_eff (audit_record base Success None) (\<lambda>_. ret result)))
       (\<lambda>e. bind_eff (audit_record base Failure (Some (errorClassOf e))) (\<lambda>_. throw e))"

text \<open>What \<open>withAudit\<close> adds to the trail, and that it changes nothing else.\<close>

lemma withAudit_run:
  "withAudit base fn w =
     (case fn w of
        (Inr x, w') \<Rightarrow> (Inr x, snd (audit_record base Success None w'))
      | (Inl e, w') \<Rightarrow> (Inl e, snd (audit_record base Failure (Some (errorClassOf e)) w')))"
  by (auto simp: withAudit_def eff_simps audit_record_def split: prod.splits sum.splits)

subsection \<open>All or nothing\<close>

text \<open>
  What the documented behaviour of the engines gives a transaction on one client: \<open>committed d\<close> is what
  other clients see; between \<open>BEGIN\<close> and \<open>COMMIT\<close> the statements of \<open>dml\<close> and \<open>ROLLBACK\<close> leave it as it
  is, and a \<open>COMMIT\<close> that is refused commits nothing.
\<close>

definition holds_back :: "engine \<Rightarrow> 'd exec \<Rightarrow> ('d \<Rightarrow> 'c) \<Rightarrow> ('d \<Rightarrow> bool) \<Rightarrow> (sql_fragment \<Rightarrow> bool) \<Rightarrow> bool" where
  "holds_back e exec committed inTx dml \<longleftrightarrow>
     (\<forall>d r d'. exec (client_channel e) (begin_frag e) d = (r, d') \<longrightarrow>
        committed d' = committed d \<and> (\<not> isl r \<longrightarrow> inTx d')) \<and>
     (\<forall>f d. dml f \<longrightarrow> inTx d \<longrightarrow>
        committed (snd (exec (client_channel e) f d)) = committed d \<and> inTx (snd (exec (client_channel e) f d))) \<and>
     (\<forall>d r d'. inTx d \<longrightarrow> exec (client_channel e) commit_frag d = (r, d') \<longrightarrow> isl r \<longrightarrow> committed d' = committed d) \<and>
     (\<forall>d. committed (snd (exec (client_channel e) rollback_frag d)) = committed d)"

text \<open>A callback that only sends statements of \<open>dml\<close> through the query function it is given.\<close>

definition only_dml :: "(sql_fragment \<Rightarrow> bool) \<Rightarrow> ('d query_fn \<Rightarrow> ('d world, 'a) eff) \<Rightarrow> bool" where
  "only_dml dml fn \<longleftrightarrow>
     (\<forall>q R. (\<forall>w. R w w) \<longrightarrow> (\<forall>w w' w''. R w w' \<longrightarrow> R w' w'' \<longrightarrow> R w w'') \<longrightarrow>
        (\<forall>f. dml f \<longrightarrow> keeps R (q f)) \<longrightarrow> keeps R (fn q))"

definition tx_quiet :: "('d \<Rightarrow> 'c) \<Rightarrow> ('d \<Rightarrow> bool) \<Rightarrow> 'd world \<Rightarrow> 'd world \<Rightarrow> bool" where
  "tx_quiet committed inTx w w' \<longleftrightarrow>
     (inTx (wDb w) \<longrightarrow> inTx (wDb w') \<and> committed (wDb w') = committed (wDb w))"

interpretation quiet: step_relation "tx_quiet committed inTx" for committed inTx
  by unfold_locales (auto simp: tx_quiet_def)

lemma engine_withTransaction_eq:
  "engine_withTransaction e exec fn = commit_or_rollback (send exec (client_channel e)) [begin_frag e] fn"
  by (cases e) (simp_all add: engine_withTransaction_def pg_withTransaction_def mysql_withTransaction_def
      sqlite_withTransaction_def client_channel_def)

lemma snd_send: "send exec ch f w = (r, w') \<Longrightarrow> exec ch f (wDb w) = (r, wDb w')"
  by (auto simp: send_def split: prod.splits)

text \<open>The shape of a transaction's run.\<close>

lemma transaction_run:
  assumes "commit_or_rollback q [b] fn w = (r, w')"
  obtains (begin_failed) e w1 where "q b w = (Inl e, w1)" "r = Inl e" "w' = snd (q rollback_frag w1)"
  | (body_failed) x w1 e w2 where "q b w = (Inr x, w1)" "fn q w1 = (Inl e, w2)" "r = Inl e"
      "w' = snd (q rollback_frag w2)"
  | (commit_failed) x w1 y w2 e w3 where "q b w = (Inr x, w1)" "fn q w1 = (Inr y, w2)"
      "q commit_frag w2 = (Inl e, w3)" "r = Inl e" "w' = snd (q rollback_frag w3)"
  | (committed) x w1 y w2 z where "q b w = (Inr x, w1)" "fn q w1 = (Inr y, w2)"
      "q commit_frag w2 = (Inr z, w')" "r = Inr y"
  using assms unfolding commit_or_rollback_def
  by (auto simp: eff_simps ignore_errors_def split: prod.splits sum.splits)

text \<open>
  A transaction that ends in an exception commits nothing: on every engine, when the callback or
  the \<open>COMMIT\<close> fails, what the other clients see is what they saw before.
\<close>

lemma transaction_atomic:
  assumes "holds_back e exec committed inTx dml" "only_dml dml fn"
    "engine_withTransaction e exec fn w = (Inl err, w')"
  shows "committed (wDb w') = committed (wDb w)"
proof -
  let ?q = "send exec (client_channel e)"
  have rb: "committed (wDb (snd (?q rollback_frag v))) = committed (wDb v)" for v
    using assms(1) by (simp add: holds_back_def)
  have bg: "committed (wDb v') = committed (wDb v) \<and> (\<not> isl r \<longrightarrow> inTx (wDb v'))"
    if "?q (begin_frag e) v = (r, v')" for r v v'
    using assms(1) snd_send [OF that] unfolding holds_back_def by blast
  have "keeps (tx_quiet committed inTx) (?q f)" if "dml f" for f
    using assms(1) that unfolding holds_back_def keeps_def tx_quiet_def
    by simp
  then have body: "tx_quiet committed inTx v (snd (fn ?q v))" for v
    using assms(2) quiet.refl_R quiet.trans_R unfolding only_dml_def keeps_def by metis
  from assms(3) show ?thesis
    unfolding engine_withTransaction_eq
  proof (cases rule: transaction_run)
    case (begin_failed e' w1)
    then show ?thesis using rb bg by simp
  next
    case (body_failed x w1 e' w2)
    then show ?thesis using rb bg [of w "Inr x" w1] body [of w1] by (simp add: tx_quiet_def)
  next
    case (commit_failed x w1 y w2 e' w3)
    have b: "inTx (wDb w2)" "committed (wDb w2) = committed (wDb w)"
      using commit_failed bg [of w "Inr x" w1] body [of w1] by (simp_all add: tx_quiet_def)
    have "committed (wDb w3) = committed (wDb w2)"
      using assms(1) snd_send [OF commit_failed(3)] b(1) unfolding holds_back_def by force
    then show ?thesis using commit_failed rb b by simp
  next
    case (committed x w1 y w2 z)
    then show ?thesis by simp
  qed
qed

end
