(* ===== verification/DdlService.thy ===== *)
theory DdlService
  imports DdlSql Sessions
begin

text \<open>
  \<open>ddl/ddl.service.ts\<close>: creating, altering and dropping tables and indexes, each validated against the live
  catalogue, audited and run, and the preview that builds the statement without running it. The errors of
  the database are translated by the drivers' \<open>mapError\<close>. The database, the connection's row and the metadata
  service are parameters, as is the \<open>errno\<close> that \<open>mysql2\<close> puts on its errors.
\<close>

record 'd ddl_env =
  deDriver :: "engine res"
  deReadOnly :: "bool res"
  deExec :: "'d exec"
  deColumns :: "string \<Rightarrow> string \<Rightarrow> ('d world, column_metadata list) eff"
  deStructure :: "string \<Rightarrow> string \<Rightarrow> ('d world, table_structure) eff"
  deErrno :: "http_error \<Rightarrow> int option"

datatype ddl_operation = OpCreateTable | OpAlterTable | OpCreateIndex | OpDropIndex | OpDropTable | OpTruncateTable

subsection \<open>\<open>mapError\<close>\<close>

definition error_code_of :: "http_error \<Rightarrow> string option" where
  "error_code_of err = (case err of DriverError c m \<Rightarrow> c | _ \<Rightarrow> None)"

fun error_text :: "http_error \<Rightarrow> string" where
  "error_text (PlainError m) = m"
| "error_text (BadRequest m) = m"
| "error_text (Forbidden m) = m"
| "error_text (NotFound m) = m"
| "error_text (Conflict m) = m"
| "error_text (Unprocessable m) = m"
| "error_text (ServiceUnavailable m) = m"
| "error_text (DriverError c m) = m"

definition table_exists_error :: "string option \<Rightarrow> http_error" where
  "table_exists_error detail = Conflict (case detail of None \<Rightarrow> ''Table already exists'' | Some d \<Rightarrow> d)"

definition pg_alter_errors :: "string \<Rightarrow> http_error option" where
  "pg_alter_errors =
     map_of [(''42703'', Unprocessable ''Column does not exist''),
       (''42846'', Unprocessable ''Cannot cast automatically; provide a USING expression''),
       (''23502'', Unprocessable ''Column has existing null values; cannot set NOT NULL''),
       (''42701'', Conflict ''Column already exists''),
       (''23503'', Unprocessable (''Existing rows violate this foreign key '' @ em_dash @ '' no matching referenced row'')),
       (''42710'', Conflict ''A constraint with that name already exists''),
       (''42P01'', Unprocessable ''The referenced table does not exist''),
       (''42830'', Unprocessable ''The referenced columns are not a unique or primary key''),
       (''2BP01'', Unprocessable ''The foreign-key constraint does not exist''),
       (''42704'', Unprocessable ''The foreign-key constraint does not exist'')]"

definition pg_mapError :: "http_error \<Rightarrow> ddl_operation \<Rightarrow> string option \<Rightarrow> unit res" where
  "pg_mapError err op detail =
     (case error_code_of err of
        None \<Rightarrow> Inr ()
      | Some code \<Rightarrow>
          if op = OpCreateTable \<and> code = ''42P07'' then Inl (table_exists_error detail)
          else if op = OpAlterTable then (case pg_alter_errors code of None \<Rightarrow> Inr () | Some e \<Rightarrow> Inl e)
          else if op = OpCreateIndex \<and> code = ''42P07'' then Inl (Conflict ''An index with that name already exists'')
          else if op = OpDropIndex \<and> code = ''42704'' then Inl (Unprocessable ''Index does not exist'')
          else Inr ())"

text \<open>\<open>/text/i.test(message)\<close> for a text in lower case.\<close>

definition mentions :: "string \<Rightarrow> string \<Rightarrow> bool" where
  "mentions text message \<longleftrightarrow> str_includes text (map ascii_lower message)"

definition sqlite_mapError :: "http_error \<Rightarrow> ddl_operation \<Rightarrow> string option \<Rightarrow> unit res" where
  "sqlite_mapError err op detail =
     (let message = error_text err in
      if op = OpCreateTable \<and> mentions ''already exists'' message then Inl (table_exists_error detail)
      else if op = OpCreateIndex \<and> mentions ''already exists'' message then Inl (Conflict ''An index with that name already exists'')
      else if op = OpDropIndex \<and> mentions ''no such index'' message then Inl (Unprocessable ''Index does not exist'')
      else if op = OpAlterTable \<and> mentions ''duplicate column'' message then Inl (Conflict ''Column already exists'')
      else if op = OpAlterTable \<and> mentions ''no such column'' message then Inl (Unprocessable ''Column does not exist'')
      else Inr ())"

definition MYSQL_VALIDATION_CODES :: "string list" where
  "MYSQL_VALIDATION_CODES = [''ER_BAD_FIELD_ERROR'', ''ER_NO_SUCH_TABLE'', ''ER_CANT_CREATE_TABLE'', ''ER_CANT_DROP_FIELD_OR_KEY'',
     ''ER_CANT_REMOVE_ALL_FIELDS'', ''ER_BAD_NULL_ERROR'', ''ER_INVALID_DEFAULT'', ''ER_NO_DEFAULT_FOR_FIELD'',
     ''ER_TRUNCATED_WRONG_VALUE_FOR_FIELD'', ''ER_CHECK_CONSTRAINT_VIOLATED'']"

definition MYSQL_VALIDATION_ERRNOS :: "int list" where
  "MYSQL_VALIDATION_ERRNOS = [1005, 1048, 1054, 1067, 1090, 1091, 1146, 1364, 1366, 3819]"

definition mysql_mapError ::
  "string option \<Rightarrow> int option \<Rightarrow> ddl_operation \<Rightarrow> string option \<Rightarrow> unit res" where
  "mysql_mapError code errno op detail =
     (if op = OpCreateTable \<and> (code = Some ''ER_TABLE_EXISTS_ERROR'' \<or> errno = Some 1050) then Inl (table_exists_error detail)
      else if code = Some ''ER_DUP_ENTRY'' \<or> code = Some ''ER_DUP_KEYNAME'' \<or> errno = Some 1062 \<or> errno = Some 1061
      then Inl (Conflict ''A row or key with that value already exists'')
      else if errno = Some 1826 \<or> code = Some ''ER_FK_DUP_NAME''
      then Inl (Conflict ''A constraint with that name already exists'')
      else if errno = Some 1452 \<or> code = Some ''ER_NO_REFERENCED_ROW_2''
      then Inl (Unprocessable (''Existing rows violate this foreign key '' @ em_dash @ '' no matching referenced row''))
      else if errno = Some 1822 \<or> code = Some ''ER_FK_NO_INDEX_PARENT''
      then Inl (Unprocessable ''The referenced columns must be a unique or primary key'')
      else if errno = Some 1215 \<or> code = Some ''ER_CANNOT_ADD_FOREIGN''
      then Inl (Unprocessable (''Cannot add the foreign key '' @ em_dash @ '' check the referenced table and column types''))
      else if errno = Some 3730 \<or> errno = Some 1091 \<or> code = Some ''ER_DROP_FK_NOT_EXIST''
      then Inl (Unprocessable ''The foreign-key constraint does not exist'')
      else if (case code of None \<Rightarrow> False | Some c \<Rightarrow> c \<in> set MYSQL_VALIDATION_CODES \<or> starts_with ''ER_CANT_'' c)
              \<or> (case errno of None \<Rightarrow> False | Some n \<Rightarrow> n \<in> set MYSQL_VALIDATION_ERRNOS)
      then Inl (Unprocessable ''MySQL rejected the requested database operation'')
      else Inr ())"

definition mapError :: "'d ddl_env \<Rightarrow> engine \<Rightarrow> http_error \<Rightarrow> ddl_operation \<Rightarrow> string option \<Rightarrow> unit res" where
  "mapError env e err op detail =
     (case e of Pg \<Rightarrow> pg_mapError err op detail | Sqlite \<Rightarrow> sqlite_mapError err op detail
      | Mysql \<Rightarrow> mysql_mapError (error_code_of err) (deErrno env err) op detail)"

subsection \<open>Requests and results\<close>

datatype ddl_request =
    CreateTable create_table_request
  | AlterTable string string alter_op
  | CreateIndex create_index_request
  | DropIndex string string string
  | DropTable string string
  | TruncateTable string string

record ddl_result =
  ddlSchema :: string
  ddlTarget :: string
  ddlIndexName :: "string option"
  ddlSql :: string

definition ddl_ref :: "string \<Rightarrow> string \<Rightarrow> table_ref" where
  "ddl_ref schema name = \<lparr>refNamespace = Some schema, refName = name\<rparr>"

definition quoted_pair :: "string \<Rightarrow> string \<Rightarrow> string" where
  "quoted_pair schema table = ''\"'' @ schema @ ''\".\"'' @ table @ ''\"''"

definition ddl_auditBase :: "string \<Rightarrow> string option \<Rightarrow> string \<Rightarrow> string \<Rightarrow> string \<Rightarrow> string \<Rightarrow> string \<Rightarrow> audit_base" where
  "ddl_auditBase userId correlationId connectionId action schema table sql =
     \<lparr>abUser = userId, abConnection = connectionId, abAction = action, abSql = sql, abSchema = Some schema,
      abTable = Some table, abCorrelation = correlationId\<rparr>"

definition ddl_writable :: "'d ddl_env \<Rightarrow> ('d world, unit) eff" where
  "ddl_writable env =
     bind_eff (lift_res (deReadOnly env)) (\<lambda>readOnly.
       if readOnly then throw (Forbidden ''This connection is read-only'') else ret ())"

text \<open>\<open>try { await this.pool.run(...) } catch (err) { driver.mapError(err, ...); throw err; }\<close>\<close>

definition run_ddl ::
  "'d ddl_env \<Rightarrow> engine \<Rightarrow> ddl_operation \<Rightarrow> string option \<Rightarrow> sql_fragment \<Rightarrow> ('d world, unit) eff" where
  "run_ddl env e op detail frag =
     catch_eff (bind_eff (send (deExec env) Pooled frag) (\<lambda>_. ret ()))
       (\<lambda>err. bind_eff (lift_res (mapError env e err op detail)) (\<lambda>_. throw err))"

subsection \<open>Checks\<close>

text \<open>The first name that stands earlier in the list already.\<close>

fun first_duplicate :: "string list \<Rightarrow> string list \<Rightarrow> string option" where
  "first_duplicate seen [] = None"
| "first_duplicate seen (n # ns) = (if n \<in> set seen then Some n else first_duplicate (n # seen) ns)"

definition check_index_columns :: "column_metadata list \<Rightarrow> create_index_request \<Rightarrow> unit res" where
  "check_index_columns cols req =
     res_bind (require (ciColumns req \<noteq> []) (Unprocessable ''At least one column is required for an index'')) (\<lambda>_.
     res_map (\<lambda>_. ()) (traverse (assertExists cols) (ciColumns req)))"

definition check_index_exists :: "table_structure \<Rightarrow> string \<Rightarrow> string \<Rightarrow> string \<Rightarrow> unit res" where
  "check_index_exists structure schema table index =
     require (\<exists>idx \<in> set (tsIndexes structure). ixName idx = index)
       (Unprocessable (''Index \"'' @ index @ ''\" does not exist on '' @ quoted_pair schema table))"

definition assertTableExists :: "'d ddl_env \<Rightarrow> string \<Rightarrow> string \<Rightarrow> ('d world, unit) eff" where
  "assertTableExists env schema table =
     bind_eff (deColumns env schema table) (\<lambda>columns.
       if columns = [] then throw (NotFound (''Table '' @ quoted_pair schema table @ '' does not exist'')) else ret ())"

subsection \<open>The operations\<close>

definition createTable_body :: "'d ddl_env \<Rightarrow> create_table_request \<Rightarrow> ('d world, ddl_result) eff" where
  "createTable_body env req =
     bind_eff (ddl_writable env) (\<lambda>_.
     bind_eff (lift_res (require (ctColumns req \<noteq> []) (Unprocessable ''At least one column is required''))) (\<lambda>_.
     bind_eff (lift_res (case first_duplicate [] (map ncName (ctColumns req)) of
                 None \<Rightarrow> Inr () | Some n \<Rightarrow> Inl (Unprocessable (''Duplicate column name: \"'' @ n @ ''\"'')))) (\<lambda>_.
     bind_eff (lift_res (deDriver env)) (\<lambda>e.
     bind_eff (lift_res (normalizeCreateTable e req)) (\<lambda>normalized.
     bind_eff (lift_res (buildCreateTable e normalized)) (\<lambda>frag.
     bind_eff (run_ddl env e OpCreateTable
       (Some (''Table '' @ quoted_pair (ctSchema req) (ctTable req) @ '' already exists'')) frag) (\<lambda>_.
     ret \<lparr>ddlSchema = ctSchema req, ddlTarget = ctTable req, ddlIndexName = None, ddlSql = fragSql frag\<rparr>)))))))"

definition alterTable_body :: "'d ddl_env \<Rightarrow> string \<Rightarrow> string \<Rightarrow> alter_op \<Rightarrow> ('d world, ddl_result) eff" where
  "alterTable_body env schema table op =
     bind_eff (ddl_writable env) (\<lambda>_.
     bind_eff (lift_res (deDriver env)) (\<lambda>e.
     bind_eff (deStructure env schema table) (\<lambda>structure.
     bind_eff (lift_res (normalizeAlterTable e (ddl_ref schema table) op (tsColumns structure))) (\<lambda>normalized.
     bind_eff (lift_res (buildAlterTable e (ddl_ref schema table) normalized)) (\<lambda>frag.
     bind_eff (run_ddl env e OpAlterTable None frag) (\<lambda>_.
     ret \<lparr>ddlSchema = schema, ddlTarget = table, ddlIndexName = None, ddlSql = fragSql frag\<rparr>))))))"

definition createIndex_body :: "'d ddl_env \<Rightarrow> create_index_request \<Rightarrow> ('d world, ddl_result) eff" where
  "createIndex_body env req =
     bind_eff (ddl_writable env) (\<lambda>_.
     bind_eff (deColumns env (ciSchema req) (ciTable req)) (\<lambda>cols.
     bind_eff (lift_res (check_index_columns cols req)) (\<lambda>_.
     bind_eff (lift_res (deDriver env)) (\<lambda>e.
     bind_eff (lift_res (normalizeCreateIndex e req)) (\<lambda>(request, name, ixmethod).
     bind_eff (lift_res (buildCreateIndex e request name ixmethod)) (\<lambda>frag.
     bind_eff (run_ddl env e OpCreateIndex None frag) (\<lambda>_.
     ret \<lparr>ddlSchema = ciSchema req, ddlTarget = ciTable req, ddlIndexName = Some name, ddlSql = fragSql frag\<rparr>)))))))"

definition dropIndex_body :: "'d ddl_env \<Rightarrow> string \<Rightarrow> string \<Rightarrow> string \<Rightarrow> ('d world, ddl_result) eff" where
  "dropIndex_body env schema table index =
     bind_eff (ddl_writable env) (\<lambda>_.
     bind_eff (deStructure env schema table) (\<lambda>structure.
     bind_eff (lift_res (check_index_exists structure schema table index)) (\<lambda>_.
     bind_eff (lift_res (deDriver env)) (\<lambda>e.
     bind_eff (lift_res (buildDropIndex e (ddl_ref schema index) index)) (\<lambda>frag.
     bind_eff (run_ddl env e OpDropIndex None frag) (\<lambda>_.
     ret \<lparr>ddlSchema = schema, ddlTarget = index, ddlIndexName = None, ddlSql = fragSql frag\<rparr>))))))"

definition dropTable_body :: "'d ddl_env \<Rightarrow> string \<Rightarrow> string \<Rightarrow> ('d world, ddl_result) eff" where
  "dropTable_body env schema table =
     bind_eff (ddl_writable env) (\<lambda>_.
     bind_eff (assertTableExists env schema table) (\<lambda>_.
     bind_eff (lift_res (deDriver env)) (\<lambda>e.
     bind_eff (lift_res (buildDropTable e (ddl_ref schema table))) (\<lambda>frag.
     bind_eff (run_ddl env e OpDropTable None frag) (\<lambda>_.
     ret \<lparr>ddlSchema = schema, ddlTarget = table, ddlIndexName = None, ddlSql = fragSql frag\<rparr>)))))"

definition truncateTable_body :: "'d ddl_env \<Rightarrow> string \<Rightarrow> string \<Rightarrow> ('d world, ddl_result) eff" where
  "truncateTable_body env schema table =
     bind_eff (ddl_writable env) (\<lambda>_.
     bind_eff (assertTableExists env schema table) (\<lambda>_.
     bind_eff (lift_res (deDriver env)) (\<lambda>e.
     bind_eff (lift_res (buildTruncateTable e (ddl_ref schema table))) (\<lambda>frag.
     bind_eff (run_ddl env e OpTruncateTable None frag) (\<lambda>_.
     ret \<lparr>ddlSchema = schema, ddlTarget = table, ddlIndexName = None, ddlSql = fragSql frag\<rparr>)))))"

fun alter_kind :: "alter_op \<Rightarrow> string" where
  "alter_kind (AddColumn c) = ''addColumn''"
| "alter_kind (DropColumn c) = ''dropColumn''"
| "alter_kind (SetNotNull c b) = ''setNotNull''"
| "alter_kind (SetDefault c d) = ''setDefault''"
| "alter_kind (ChangeType c t u) = ''changeType''"
| "alter_kind (AddForeignKey s) = ''addForeignKey''"
| "alter_kind (DropForeignKey n) = ''dropForeignKey''"
| "alter_kind (SetComment c t) = ''setComment''"

definition createTable ::
  "'d ddl_env \<Rightarrow> string \<Rightarrow> string \<Rightarrow> string option \<Rightarrow> create_table_request \<Rightarrow> ('d world, ddl_result) eff" where
  "createTable env connectionId userId corr req =
     withAudit (ddl_auditBase userId corr connectionId ''ddl'' (ctSchema req) (ctTable req)
         (''CREATE TABLE '' @ ctSchema req @ ''.'' @ ctTable req @ '' ('' @ join '', '' (map ncName (ctColumns req)) @ '')''))
       (createTable_body env req)"

definition alterTable ::
  "'d ddl_env \<Rightarrow> string \<Rightarrow> string \<Rightarrow> string option \<Rightarrow> string \<Rightarrow> string \<Rightarrow> alter_op \<Rightarrow> ('d world, ddl_result) eff" where
  "alterTable env connectionId userId corr schema table op =
     withAudit (ddl_auditBase userId corr connectionId ''ddl'' schema table
         (''ALTER TABLE '' @ schema @ ''.'' @ table @ '' ('' @ alter_kind op @ '')''))
       (alterTable_body env schema table op)"

definition createIndex ::
  "'d ddl_env \<Rightarrow> string \<Rightarrow> string \<Rightarrow> string option \<Rightarrow> create_index_request \<Rightarrow> ('d world, ddl_result) eff" where
  "createIndex env connectionId userId corr req =
     withAudit (ddl_auditBase userId corr connectionId ''ddl'' (ciSchema req) (ciTable req)
         (''CREATE INDEX ON '' @ ciSchema req @ ''.'' @ ciTable req @ '' ('' @ join '', '' (ciColumns req) @ '')''))
       (createIndex_body env req)"

definition dropIndex ::
  "'d ddl_env \<Rightarrow> string \<Rightarrow> string \<Rightarrow> string option \<Rightarrow> string \<Rightarrow> string \<Rightarrow> string \<Rightarrow> ('d world, ddl_result) eff" where
  "dropIndex env connectionId userId corr schema table index =
     withAudit (ddl_auditBase userId corr connectionId ''ddl'' schema table
         (''DROP INDEX '' @ index @ '' ON '' @ schema @ ''.'' @ table))
       (dropIndex_body env schema table index)"

definition dropTable ::
  "'d ddl_env \<Rightarrow> string \<Rightarrow> string \<Rightarrow> string option \<Rightarrow> string \<Rightarrow> string \<Rightarrow> ('d world, ddl_result) eff" where
  "dropTable env connectionId userId corr schema table =
     withAudit (ddl_auditBase userId corr connectionId ''ddl'' schema table (''DROP TABLE '' @ schema @ ''.'' @ table))
       (dropTable_body env schema table)"

definition truncateTable ::
  "'d ddl_env \<Rightarrow> string \<Rightarrow> string \<Rightarrow> string option \<Rightarrow> string \<Rightarrow> string \<Rightarrow> ('d world, ddl_result) eff" where
  "truncateTable env connectionId userId corr schema table =
     withAudit (ddl_auditBase userId corr connectionId ''truncate'' schema table (''TRUNCATE TABLE '' @ schema @ ''.'' @ table))
       (truncateTable_body env schema table)"

subsection \<open>The preview\<close>

definition preview :: "'d ddl_env \<Rightarrow> ddl_request \<Rightarrow> ('d world, string) eff" where
  "preview env req =
     bind_eff (ddl_writable env) (\<lambda>_.
     bind_eff (lift_res (deDriver env)) (\<lambda>e.
     case req of
       CreateTable r \<Rightarrow>
         bind_eff (lift_res (require (ctColumns r \<noteq> []) (Unprocessable ''At least one column is required''))) (\<lambda>_.
         bind_eff (lift_res (case first_duplicate [] (map ncName (ctColumns r)) of
                     None \<Rightarrow> Inr ()
                   | Some n \<Rightarrow> if n \<noteq> [] then Inl (Unprocessable (''Duplicate column name: \"'' @ n @ ''\"'')) else Inr ())) (\<lambda>_.
         bind_eff (lift_res (normalizeCreateTable e r)) (\<lambda>normalized.
         bind_eff (lift_res (buildCreateTable e normalized)) (\<lambda>frag. ret (fragSql frag)))))
     | AlterTable schema table op \<Rightarrow>
         bind_eff (deStructure env schema table) (\<lambda>structure.
         bind_eff (lift_res (normalizeAlterTable e (ddl_ref schema table) op (tsColumns structure))) (\<lambda>operation.
         bind_eff (lift_res (buildAlterTable e (ddl_ref schema table) operation)) (\<lambda>frag. ret (fragSql frag))))
     | CreateIndex r \<Rightarrow>
         bind_eff (deColumns env (ciSchema r) (ciTable r)) (\<lambda>columns.
         bind_eff (lift_res (check_index_columns columns r)) (\<lambda>_.
         bind_eff (lift_res (normalizeCreateIndex e r)) (\<lambda>(request, name, ixmethod).
         bind_eff (lift_res (buildCreateIndex e request name ixmethod)) (\<lambda>frag. ret (fragSql frag)))))
     | DropIndex schema table index \<Rightarrow>
         bind_eff (deStructure env schema table) (\<lambda>structure.
         bind_eff (lift_res (check_index_exists structure schema table index)) (\<lambda>_.
         bind_eff (lift_res (buildDropIndex e (ddl_ref schema index) index)) (\<lambda>frag. ret (fragSql frag))))
     | DropTable schema table \<Rightarrow>
         bind_eff (assertTableExists env schema table) (\<lambda>_.
         bind_eff (lift_res (buildDropTable e (ddl_ref schema table))) (\<lambda>frag. ret (fragSql frag)))
     | TruncateTable schema table \<Rightarrow>
         bind_eff (assertTableExists env schema table) (\<lambda>_.
         bind_eff (lift_res (buildTruncateTable e (ddl_ref schema table))) (\<lambda>frag. ret (fragSql frag)))))"

definition run_request ::
  "'d ddl_env \<Rightarrow> string \<Rightarrow> string \<Rightarrow> string option \<Rightarrow> ddl_request \<Rightarrow> ('d world, ddl_result) eff" where
  "run_request env connectionId userId corr req =
     (case req of
        CreateTable r \<Rightarrow> createTable env connectionId userId corr r
      | AlterTable schema table op \<Rightarrow> alterTable env connectionId userId corr schema table op
      | CreateIndex r \<Rightarrow> createIndex env connectionId userId corr r
      | DropIndex schema table index \<Rightarrow> dropIndex env connectionId userId corr schema table index
      | DropTable schema table \<Rightarrow> dropTable env connectionId userId corr schema table
      | TruncateTable schema table \<Rightarrow> truncateTable env connectionId userId corr schema table)"

subsection \<open>What is sent\<close>

lemma fragment_no_params: "fragment e ps [] = Inr f \<Longrightarrow> f = plain_frag (fragSql f)"
  by (auto simp: fragment_def plain_frag_def res_simps)

text \<open>No statement of the DDL builders binds a parameter.\<close>

lemma built_plain:
  "buildCreateTable e n = Inr f \<Longrightarrow> f = plain_frag (fragSql f)"
  "buildAlterTable e ref a = Inr f \<Longrightarrow> f = plain_frag (fragSql f)"
  "buildCreateIndex e r name m = Inr f \<Longrightarrow> f = plain_frag (fragSql f)"
  "buildDropIndex e ref index = Inr f \<Longrightarrow> f = plain_frag (fragSql f)"
  "buildDropTable e ref = Inr f \<Longrightarrow> f = plain_frag (fragSql f)"
  "buildTruncateTable e ref = Inr f \<Longrightarrow> f = plain_frag (fragSql f)"
  by (cases e; auto simp: buildCreateTable_def pgBuildCreateTable_def mysqlBuildCreateTable_def sqliteBuildCreateTable_def
      buildAlterTable_def pgBuildAlterTable_def mysqlBuildAlterTable_def sqliteBuildAlterTable_def res_bind_Inr_iff
      buildCreateIndex_def pgBuildCreateIndex_def mysqlBuildCreateIndex_def sqliteBuildCreateIndex_def
      buildDropIndex_def pgBuildDropIndex_def mysqlBuildDropIndex_def sqliteBuildDropIndex_def
      buildDropTable_def pgBuildDropTable_def mysqlBuildDropTable_def sqliteBuildDropTable_def
      buildTruncateTable_def pgBuildTruncateTable_def mysqlBuildTruncateTable_def sqliteBuildTruncateTable_def
      intro: fragment_no_params)+

lemma run_ddl_world:
  "snd (run_ddl env e op detail frag w) = snd (send (deExec env) Pooled frag w)"
  by (auto simp: run_ddl_def eff_simps split: prod.splits sum.splits)

text \<open>\<open>ends_with\<close>: the operation stops before the statement, or sends it and returns what it built.\<close>

definition previewed :: "'d ddl_env \<Rightarrow> string res \<times> 'd world \<Rightarrow> ddl_result res \<times> 'd world \<Rightarrow> bool" where
  "previewed env pw rw \<longleftrightarrow>
     (case pw of
        (Inl err, w1) \<Rightarrow> isl (fst rw) \<and> snd rw = w1
      | (Inr sql, w1) \<Rightarrow> snd rw = snd (send (deExec env) Pooled (plain_frag sql) w1)
          \<and> (\<forall>x. fst rw = Inr x \<longrightarrow> ddlSql x = sql))"

lemma previewed_stop: "previewed env (Inl err, w) (Inl err', w)"
  by (simp add: previewed_def)

lemma previewed_run:
  assumes "frag = plain_frag (fragSql frag)" "ddlSql res = fragSql frag"
  shows "previewed env (ret (fragSql frag) w) (bind_eff (run_ddl env e op detail frag) (\<lambda>_. ret res) w)"
proof -
  have "snd (bind_eff (run_ddl env e op detail frag) (\<lambda>_. ret res) w) = snd (send (deExec env) Pooled frag w)"
    using run_ddl_world [of env e op detail frag w] by (auto simp: eff_simps split: prod.splits sum.splits)
  then show ?thesis
    using assms by (auto simp: previewed_def eff_simps split: prod.splits sum.splits)
qed

lemma previewed_lift:
  assumes "\<And>x. r = Inr x \<Longrightarrow> previewed env (f x w) (g x w)"
  shows "previewed env (bind_eff (lift_res r) f w) (bind_eff (lift_res r) g w)"
  using assms by (cases r) (simp_all add: bind_eff_run previewed_stop)

lemma previewed_bind:
  assumes "\<And>x w'. previewed env (f x w') (g x w')"
  shows "previewed env (bind_eff m f w) (bind_eff m g w)"
  using assms by (auto simp: bind_eff_run previewed_stop split: prod.splits sum.splits)

lemma previewed_writable: "(\<And>w'. previewed env (f () w') (g () w')) \<Longrightarrow>
  previewed env (bind_eff (ddl_writable env) f w) (bind_eff (ddl_writable env) g w)"
  by (rule previewed_bind) simp

lemma bind_lift_Inr: "bind_eff (lift_res (Inr x)) f = f x"
  by (rule ext) (simp add: bind_eff_run)

lemma ddl_writable_world: "snd (ddl_writable env w) = w"
  by (auto simp: ddl_writable_def eff_simps split: sum.splits)

lemma first_duplicate_None: "first_duplicate seen ns = None \<longleftrightarrow> distinct ns \<and> set ns \<inter> set seen = {}"
  by (induction ns arbitrary: seen) auto

lemma first_duplicate_in: "first_duplicate seen ns = Some n \<Longrightarrow> n \<in> set ns"
  by (induction seen ns rule: first_duplicate.induct) (auto split: if_splits)

text \<open>A table with an empty column name is never built, so the preview's looser check of duplicates makes no difference.\<close>

lemma create_names:
  assumes "buildCreateTable e n = Inr f"
  shows "list_all good_ident (map ncName (ctColumns n))"
proof -
  have cols: "set (map ncName cs) \<subseteq> set (idents (pre @ body_lines (map line cs @ key_line cs)))"
    if "\<And>c. ncName c \<in> set (idents (line c))" for pre cs line
    using that by auto
  obtain ps where ps: "fragment e ps [] = Inr f" "set (map ncName (ctColumns n)) \<subseteq> set (idents ps)"
  proof (cases e)
    case Pg
    have "fragment e ([Txt ''CREATE TABLE '', Ident (ctSchema n), Txt ''.'', Ident (ctTable n)] @ body_lines (map pg_column_line (ctColumns n) @ key_line (ctColumns n))) [] = Inr f"
      using assms Pg by (simp add: buildCreateTable_def pgBuildCreateTable_def)
    moreover have "ncName c \<in> set (idents (pg_column_line c))" for c
      by (simp add: pg_column_line_def buildColumnDefinition_def)
    ultimately show ?thesis by (metis that cols)
  next
    case Mysql
    have "fragment e ([Txt ''CREATE TABLE '', Ident (ctSchema n), Txt ''.'', Ident (ctTable n)] @ body_lines (map (\<lambda>c. Txt ''  '' # buildColumnDefinition c) (ctColumns n) @ key_line (ctColumns n))) [] = Inr f"
      using assms Mysql by (simp add: buildCreateTable_def mysqlBuildCreateTable_def)
    moreover have "ncName c \<in> set (idents ((\<lambda>c. Txt ''  '' # buildColumnDefinition c) c))" for c
      by (simp add: pg_column_line_def buildColumnDefinition_def)
    ultimately show ?thesis by (metis that cols)
  next
    case Sqlite
    have "fragment e ((Txt ''CREATE TABLE '' # qualify \<lparr>refNamespace = Some (ctSchema n), refName = ctTable n\<rparr>) @ body_lines (map pg_column_line (ctColumns n) @ key_line (ctColumns n))) [] = Inr f"
      using assms Sqlite by (simp add: buildCreateTable_def sqliteBuildCreateTable_def)
    moreover have "ncName c \<in> set (idents (pg_column_line c))" for c
      by (simp add: pg_column_line_def buildColumnDefinition_def)
    ultimately show ?thesis by (metis that cols)
  qed
  from ps(1) have "\<exists>s. render e ps = Inr s" by (auto simp: fragment_def res_simps)
  with ps(2) show ?thesis unfolding render_ok by (auto simp: list_all_iff)
qed

lemma previewed_create:
  assumes "deDriver env = Inr e"
  shows "previewed env (preview env (CreateTable r) w) (createTable_body env r w)"
proof (cases "first_duplicate [] (map ncName (ctColumns r))")
  case None
  show ?thesis
    unfolding preview_def createTable_body_def ddl_request.case None option.case assms bind_lift_Inr
    by (intro previewed_writable previewed_lift previewed_run built_plain(1)) simp_all
next
  case (Some n)
  show ?thesis
  proof (cases "preview env (CreateTable r) w")
    case (Pair p w1)
    have body: "isl (fst (createTable_body env r w)) \<and> snd (createTable_body env r w) = w"
      using Some by (auto simp: createTable_body_def ddl_writable_def eff_simps split: sum.splits)
    have w1: "w1 = w"
      using Pair by (auto simp: preview_def ddl_writable_def eff_simps split: sum.splits if_splits)
    have "isl p"
    proof (rule ccontr)
      assume "\<not> isl p"
      then obtain sql where p: "p = Inr sql" by (cases p) auto
      obtain norm f where nf: "normalizeCreateTable e r = Inr norm" "buildCreateTable e norm = Inr f" "n = []"
        using Pair Some assms(1) unfolding p
        by (auto simp: preview_def ddl_writable_def eff_simps split: sum.splits if_splits)
      have "n \<in> set (map ncName (ctColumns norm))"
        using first_duplicate_in [OF Some] create_columns(4) [OF nf(1)] by simp
      with create_names [OF nf(2)] nf(3) show False by (auto simp: list_all_iff good_ident_def)
    qed
    then show ?thesis using body w1 Pair by (cases p) (simp_all add: previewed_def)
  qed
qed

lemma previewed_others:
  assumes "deDriver env = Inr e"
  shows "previewed env (preview env (AlterTable s t op) w) (alterTable_body env s t op w)"
    "previewed env (preview env (CreateIndex ci) w) (createIndex_body env ci w)"
    "previewed env (preview env (DropIndex s t i) w) (dropIndex_body env s t i w)"
    "previewed env (preview env (DropTable s t) w) (dropTable_body env s t w)"
    "previewed env (preview env (TruncateTable s t) w) (truncateTable_body env s t w)"
proof -
  show "previewed env (preview env (AlterTable s t op) w) (alterTable_body env s t op w)"
    unfolding preview_def alterTable_body_def ddl_request.case assms bind_lift_Inr
    by (intro previewed_writable previewed_bind previewed_lift previewed_run built_plain(2)) simp_all
  show "previewed env (preview env (CreateIndex ci) w) (createIndex_body env ci w)"
    unfolding preview_def createIndex_body_def ddl_request.case assms bind_lift_Inr
    by (intro previewed_writable previewed_bind previewed_lift)
      (auto simp: split_beta intro!: previewed_lift previewed_run built_plain(3))
  show "previewed env (preview env (DropIndex s t i) w) (dropIndex_body env s t i w)"
    unfolding preview_def dropIndex_body_def ddl_request.case assms bind_lift_Inr
    by (intro previewed_writable previewed_bind previewed_lift previewed_run built_plain(4)) simp_all
  show "previewed env (preview env (DropTable s t) w) (dropTable_body env s t w)"
    unfolding preview_def dropTable_body_def ddl_request.case assms bind_lift_Inr
    by (intro previewed_writable previewed_bind previewed_lift previewed_run built_plain(5)) simp_all
  show "previewed env (preview env (TruncateTable s t) w) (truncateTable_body env s t w)"
    unfolding preview_def truncateTable_body_def ddl_request.case assms bind_lift_Inr
    by (intro previewed_writable previewed_bind previewed_lift previewed_run built_plain(6)) simp_all
qed

lemma withAudit_world:
  "wWire (snd (withAudit base fn w)) = wWire (snd (fn w)) \<and> fst (withAudit base fn w) = fst (fn w)"
  by (auto simp: withAudit_run audit_record_def split: prod.splits sum.splits)

text \<open>The request's operation, without its audit entry.\<close>

definition request_body :: "'d ddl_env \<Rightarrow> ddl_request \<Rightarrow> ('d world, ddl_result) eff" where
  "request_body env req =
     (case req of
        CreateTable r \<Rightarrow> createTable_body env r
      | AlterTable s t op \<Rightarrow> alterTable_body env s t op
      | CreateIndex r \<Rightarrow> createIndex_body env r
      | DropIndex s t i \<Rightarrow> dropIndex_body env s t i
      | DropTable s t \<Rightarrow> dropTable_body env s t
      | TruncateTable s t \<Rightarrow> truncateTable_body env s t)"

lemma run_request_audited:
  "\<exists>base. run_request env connectionId userId corr req = withAudit base (request_body env req)
     \<and> abUser base = userId \<and> abConnection base = connectionId \<and> abCorrelation base = corr"
  by (cases req) (auto simp: run_request_def request_body_def createTable_def alterTable_def createIndex_def
      dropIndex_def dropTable_def truncateTable_def ddl_auditBase_def)

lemma previewed_request:
  "deDriver env = Inr e \<Longrightarrow> previewed env (preview env req w) (request_body env req w)"
  by (cases req) (simp_all add: request_body_def previewed_create previewed_others)


definition example_ddl_env :: "nat ddl_env" where
  "example_ddl_env =
     \<lparr>deDriver = Inr Sqlite, deReadOnly = Inr False,
      deExec = (\<lambda>ch f d. (Inr \<lparr>drRows = [], drFields = [], drRowCount = None, drCommand = [], drLastInsertId = JNull\<rparr>, d + 1)),
      deColumns = (\<lambda>s t. ret []), deStructure = (\<lambda>s t. ret \<lparr>tsColumns = [], tsIndexes =
        [\<lparr>ixName = ''i'', ixColumns = [''a''], isUnique = False, isPrimary = False, ixMethod = ''btree'', ixDefinition = []\<rparr>],
        tsForeignKeys = [], tsComment = None\<rparr>),
      deErrno = (\<lambda>err. None)\<rparr>"

definition example_world :: "nat world" where
  "example_world = \<lparr>wDb = 0, wWire = [], wAudit = [], wAuditWrites = [], wHistory = []\<rparr>"

lemma example_preview:
  "preview example_ddl_env (DropIndex ''main'' ''t'' ''i'') example_world
   = (Inr ''DROP INDEX \"main\".\"i\"'', example_world)"
  by (simp add: preview_def example_ddl_env_def ddl_writable_def check_index_exists_def require_def buildDropIndex_def
      sqliteBuildDropIndex_def ddl_ref_def qualify_def render_eval eff_simps)


subsection \<open>The gate and the audit trail\<close>

lemma bodies_gated:
  assumes "deReadOnly env = Inr True"
  shows "request_body env req w = (Inl (Forbidden ''This connection is read-only''), w)"
  by (cases req) (simp_all add: request_body_def createTable_body_def alterTable_body_def createIndex_body_def
      dropIndex_body_def dropTable_body_def truncateTable_body_def ddl_writable_def assms eff_simps)

lemma unaudited_run_ddl: "keeps no_audit (run_ddl env e op detail frag)"
  by (simp add: keeps_def run_ddl_world no_audit_def)

lemma unaudited_writable: "keeps no_audit (ddl_writable env)"
  by (simp add: keeps_def ddl_writable_world no_audit_def)

lemma unaudited_request:
  assumes "\<And>s t. keeps no_audit (deColumns env s t)" "\<And>s t. keeps no_audit (deStructure env s t)"
  shows "keeps no_audit (request_body env req)"
proof -
  have "keeps no_audit (if b then throw x else ret y)" for b x and y :: 'b
    by (simp add: unaudited.keeps_throw unaudited.keeps_ret)
  then have t: "keeps no_audit (assertTableExists env s t)" for s t
    unfolding assertTableExists_def by (intro unaudited.keeps_bind assms)
  show ?thesis
    by (cases req) (auto simp: request_body_def createTable_body_def alterTable_body_def createIndex_body_def
        dropIndex_body_def dropTable_body_def truncateTable_body_def split_beta
        intro!: unaudited.keeps_bind unaudited.keeps_lift unaudited.keeps_ret unaudited_run_ddl unaudited_writable t assms)
qed

text \<open>
  C29. Every schema change hands exactly one entry to the audit trail, stored unless that write fails: a success
  exactly when it returned a result and otherwise with the class of its error; on a read-only connection it is
  refused, and nothing reaches the database.
\<close>

theorem ddl_audited:
  assumes "\<And>s t. keeps no_audit (deColumns env s t)" "\<And>s t. keeps no_audit (deStructure env s t)"
    "run_request env connectionId userId corr req w = (r, w')"
  shows "\<exists>entry. wAudit w' = wAudit w @ (if audit_write_ok w then [entry] else []) \<and> aeUser entry = userId \<and> aeConnection entry = connectionId
      \<and> aeCorrelation entry = corr
      \<and> (case r of Inr x \<Rightarrow> aeOutcome entry = Success \<and> aeErrorClass entry = None
         | Inl err \<Rightarrow> aeOutcome entry = Failure \<and> aeErrorClass entry = Some (errorClassOf err))
      \<and> (deReadOnly env = Inr True \<longrightarrow> r = Inl (Forbidden ''This connection is read-only'') \<and> wWire w' = wWire w \<and> wDb w' = wDb w)"
proof -
  obtain base where base: "run_request env connectionId userId corr req = withAudit base (request_body env req)"
    "abUser base = userId" "abConnection base = connectionId" "abCorrelation base = corr"
    using run_request_audited by blast
  have "wAudit (snd (request_body env req w)) = wAudit w" "audit_write_ok (snd (request_body env req w)) = audit_write_ok w"
    using unaudited_request [OF assms(1,2), of req] by (simp_all add: keeps_def no_audit_def audit_write_ok_def)
  moreover obtain r1 w1 where body: "request_body env req w = (r1, w1)" by fastforce
  ultimately show ?thesis
    using assms(3) bodies_gated [of env req w] base(2-)
    by (intro exI [of _ "\<lparr>aeUser = abUser base, aeConnection = abConnection base, aeAction = abAction base,
          aeSchema = abSchema base, aeTable = abTable base, aeSql = abSql base, aeOutcome = (if isl r then Failure else Success),
          aeErrorClass = (case r of Inl err \<Rightarrow> Some (errorClassOf err) | Inr x \<Rightarrow> None), aeCorrelation = abCorrelation base\<rparr>"])
      (cases r1; auto simp: base(1) withAudit_run audit_record_def audit_audited_one)
qed

theorem ddl_audited_witness:
  "map aeOutcome (wAudit (snd (run_request (example_ddl_env\<lparr>deReadOnly := Inr True\<rparr>) ''c'' ''u'' None
      (DropTable ''main'' ''t'') example_world))) = [Failure]"
proof -
  let ?env = "example_ddl_env\<lparr>deReadOnly := Inr True\<rparr>"
  have "keeps no_audit (deColumns ?env s t)" "keeps no_audit (deStructure ?env s t)" for s t
    by (simp_all add: example_ddl_env_def unaudited.keeps_ret)
  from ddl_audited [OF this surjective_pairing, of "''c''" "''u''" None "DropTable ''main'' ''t''" example_world]
  show ?thesis by (auto simp: example_world_def audit_write_ok_def)
qed

subsection \<open>Dropping an index on MySQL\<close>

text \<open>
  The service passes the index as the name of the reference; MySQL's builder takes the reference for the table.
  The statement names the index twice and never the table.
\<close>

lemma mysql_drop_index_names_no_table:
  assumes "buildDropIndex Mysql (ddl_ref schema index) index = Inr f" "schema \<noteq> []"
  shows "token_idents (lex Mysql (fragSql f)) = [index, schema, index]"
  using drop_index_reads [OF assms(1)] assms(2) by (simp add: drop_index_names_def ref_names_def ddl_ref_def qualify_def)

end
