(* ===== verification/JsMap.thy ===== *)
theory JsMap
  imports Main
begin

text \<open>
  A JavaScript \<open>Map\<close> as the list of its entries in insertion order: \<open>set\<close> keeps the place of a key it
  has and appends a new one, \<open>delete\<close> removes, \<open>get\<close> is \<open>map_of\<close>. The interface of a finite map the
  services rely on is the locale \<open>js_map_ops\<close>.
\<close>

fun jm_set :: "'k \<Rightarrow> 'v \<Rightarrow> ('k \<times> 'v) list \<Rightarrow> ('k \<times> 'v) list" where
  "jm_set k v [] = [(k, v)]"
| "jm_set k v ((k', v') # m) = (if k' = k then (k, v) # m else (k', v') # jm_set k v m)"

definition jm_del :: "'k \<Rightarrow> ('k \<times> 'v) list \<Rightarrow> ('k \<times> 'v) list" where
  "jm_del k m = filter (\<lambda>e. fst e \<noteq> k) m"

definition jm_keys :: "('k \<times> 'v) list \<Rightarrow> 'k list" where
  "jm_keys m = map fst m"

definition jm_ok :: "('k \<times> 'v) list \<Rightarrow> bool" where
  "jm_ok m \<longleftrightarrow> distinct (map fst m)"

locale js_map_ops =
  fixes get :: "'m \<Rightarrow> 'k \<Rightarrow> 'v option"
    and put :: "'k \<Rightarrow> 'v \<Rightarrow> 'm \<Rightarrow> 'm"
    and del :: "'k \<Rightarrow> 'm \<Rightarrow> 'm"
    and keys :: "'m \<Rightarrow> 'k list"
    and ok :: "'m \<Rightarrow> bool"
  assumes get_set: "get (put k v m) = (get m)(k \<mapsto> v)"
    and get_del: "get (del k m) = (get m)(k := None)"
    and keys_get: "k \<in> set (keys m) \<longleftrightarrow> get m k \<noteq> None"
    and distinct_keys: "ok m \<Longrightarrow> distinct (keys m)"
    and ok_set: "ok m \<Longrightarrow> ok (put k v m)"
    and ok_del: "ok m \<Longrightarrow> ok (del k m)"
begin

lemma keys_set [simp]: "set (keys (put k v m)) = insert k (set (keys m))"
  by (rule set_eqI) (simp add: keys_get get_set)

lemma keys_del [simp]: "set (keys (del k m)) = set (keys m) - {k}"
  by (rule set_eqI) (simp add: keys_get get_del)

lemma length_keys_set:
  "ok m \<Longrightarrow> length (keys (put k v m)) = (if k \<in> set (keys m) then length (keys m) else Suc (length (keys m)))"
  using distinct_card [OF distinct_keys [OF ok_set, of m k v]] distinct_card [OF distinct_keys, of m]
  by (auto simp: insert_absorb card_insert_if)

lemma length_keys_del:
  "ok m \<Longrightarrow> length (keys (del k m)) = (if k \<in> set (keys m) then length (keys m) - 1 else length (keys m))"
  using distinct_card [OF distinct_keys [OF ok_del, of m k]] distinct_card [OF distinct_keys, of m]
  by (auto simp: card_Diff_singleton_if)

end

lemma map_of_jm_set: "map_of (jm_set k v m) = (map_of m)(k \<mapsto> v)"
proof (rule ext)
  fix x
  show "map_of (jm_set k v m) x = ((map_of m)(k \<mapsto> v)) x"
    by (induction m) auto
qed

lemma map_of_jm_del: "map_of (jm_del k m) = (map_of m)(k := None)"
proof (rule ext)
  fix x
  show "map_of (jm_del k m) x = ((map_of m)(k := None)) x"
    by (induction m) (auto simp: jm_del_def)
qed

lemma fst_jm_set: "fst ` set (jm_set k v m) = insert k (fst ` set m)"
  by (induction k v m rule: jm_set.induct) (simp_all add: insert_commute)

lemma distinct_jm_set: "distinct (map fst m) \<Longrightarrow> distinct (map fst (jm_set k v m))"
  by (induction k v m rule: jm_set.induct) (auto simp: fst_jm_set)

lemma jm_keys_get: "k \<in> set (jm_keys m) \<longleftrightarrow> map_of m k \<noteq> None"
  by (simp add: jm_keys_def map_of_eq_None_iff)

lemma jm_ok_del: "jm_ok m \<Longrightarrow> jm_ok (jm_del k m)"
  by (simp add: jm_ok_def jm_del_def distinct_map_filter)

interpretation jm: js_map_ops map_of jm_set jm_del jm_keys jm_ok
proof
  fix k k' :: 'k and v :: 'v and m :: "('k \<times> 'v) list"
  show "map_of (jm_set k v m) = (map_of m)(k \<mapsto> v)" by (rule map_of_jm_set)
  show "map_of (jm_del k m) = (map_of m)(k := None)" by (rule map_of_jm_del)
  show "k \<in> set (jm_keys m) \<longleftrightarrow> map_of m k \<noteq> None" by (rule jm_keys_get)
  show "jm_ok m \<Longrightarrow> distinct (jm_keys m)" by (simp add: jm_ok_def jm_keys_def)
  show "jm_ok m \<Longrightarrow> jm_ok (jm_set k v m)" by (simp add: jm_ok_def distinct_jm_set)
  show "jm_ok m \<Longrightarrow> jm_ok (jm_del k m)" by (rule jm_ok_del)
qed

lemma set_jm_del: "set (jm_del k m) = {e \<in> set m. fst e \<noteq> k}"
  by (auto simp: jm_del_def)

lemma jm_del_set [simp]: "jm_del k (jm_set k v m) = jm_del k m"
  unfolding jm_del_def by (induction k v m rule: jm_set.induct) auto

lemma jm_del_del [simp]: "jm_del k (jm_del k m) = jm_del k m"
  by (simp add: jm_del_def)

lemma jm_del_absent: "map_of m k = None \<Longrightarrow> jm_del k m = m"
  unfolding jm_del_def by (auto simp: map_of_eq_None_iff intro!: filter_True)

lemma length_jm_del_le: "length (jm_del k m) \<le> length m"
  by (simp add: jm_del_def)

lemma filter_jm_del_le: "length (filter P (jm_del k m)) \<le> length (filter P m)"
  by (induction m) (auto simp: jm_del_def)

lemma length_jm_set: "k \<in> set (jm_keys m) \<Longrightarrow> length (jm_set k v m) = length m"
  unfolding jm_keys_def by (induction k v m rule: jm_set.induct) (simp_all, force)

lemma filter_jm_set:
  "map_of m k = Some v \<Longrightarrow> P (k, v') = P (k, v) \<Longrightarrow> length (filter P (jm_set k v' m)) = length (filter P m)"
  by (induction m) auto

lemma jm_set_fresh: "k \<notin> set (jm_keys m) \<Longrightarrow> jm_set k v m = m @ [(k, v)]"
  by (induction m) (auto simp: jm_keys_def)

lemma filter_jm_del_less:
  "map_of m k = Some v \<Longrightarrow> P (k, v) \<Longrightarrow> length (filter P (jm_del k m)) < length (filter P m)"
proof (induction m)
  case Nil
  then show ?case by simp
next
  case (Cons e m)
  then show ?case
    using filter_jm_del_le [of P k m] by (cases e) (auto simp: jm_del_def le_imp_less_Suc split: if_splits)
qed

end
