(* ===== verification/SchemaDiff.thy ===== *)
theory SchemaDiff
  imports DdlService JsMap "HOL-Library.List_Lexorder" "HOL-Library.Char_ord" "HOL-Library.Sublist"
begin

text \<open>
  \<open>schema-diff/diff.util.ts\<close> and \<open>schema-diff/schema-diff.service.ts\<close>: the comparison of two live schemas and the
  change-set that would make one like the other. A JavaScript \<open>Map\<close> built from a list keeps the last entry of a
  key; the keys are visited in the order of their code units. The schema descriptions of the later sections say
  what the changes ask for: tables, columns, secondary indexes and foreign keys by name; no engine is modelled.
\<close>

datatype diff_status = Added | Removed | Changed | Unchanged

record resolved_table =
  rtName :: string
  rtColumns :: "column_metadata list"
  rtIndexes :: "index_metadata list"
  rtForeignKeys :: "foreign_key_metadata list"

record 'a keyed_diff =
  kdKey :: string
  kdStatus :: diff_status
  kdLeft :: "'a option"
  kdRight :: "'a option"

record table_diff =
  tdName :: string
  tdStatus :: diff_status
  tdExistsLeft :: bool
  tdExistsRight :: bool
  tdColumns :: "column_metadata keyed_diff list"
  tdIndexes :: "index_metadata keyed_diff list"
  tdForeignKeys :: "foreign_key_metadata keyed_diff list"

record schema_ref =
  srConnection :: string
  srSchema :: string

record schema_diff =
  sdLeft :: schema_ref
  sdRight :: schema_ref
  sdTables :: "table_diff list"

subsection \<open>Equality of the members\<close>

definition columnsEqual :: "column_metadata \<Rightarrow> column_metadata \<Rightarrow> bool" where
  "columnsEqual a b \<longleftrightarrow> dataType a = dataType b \<and> nullable a = nullable b \<and> isPrimaryKey a = isPrimaryKey b
     \<and> autoIncrement a = autoIncrement b \<and> defaultValue a = defaultValue b"

definition arraysEqual :: "string list \<Rightarrow> string list \<Rightarrow> bool" where
  "arraysEqual a b \<longleftrightarrow> length a = length b \<and> list_all (\<lambda>(v, w). v = w) (zip a b)"

definition indexesEqual :: "index_metadata \<Rightarrow> index_metadata \<Rightarrow> bool" where
  "indexesEqual a b \<longleftrightarrow> isUnique a = isUnique b \<and> isPrimary a = isPrimary b \<and> ixMethod a = ixMethod b
     \<and> arraysEqual (ixColumns a) (ixColumns b)"

definition foreignKeysEqual :: "foreign_key_metadata \<Rightarrow> foreign_key_metadata \<Rightarrow> bool" where
  "foreignKeysEqual a b \<longleftrightarrow> fkReferencedSchema a = fkReferencedSchema b \<and> fkReferencedTable a = fkReferencedTable b
     \<and> arraysEqual (fkColumns a) (fkColumns b) \<and> arraysEqual (fkReferencedColumns a) (fkReferencedColumns b)
     \<and> fkOnDelete a = fkOnDelete b \<and> fkOnUpdate a = fkOnUpdate b"

subsection \<open>The comparison\<close>

text \<open>\<open>new Map(items.map((item) => [keyOf(item), item]))\<close>\<close>

definition map_by :: "('a \<Rightarrow> string) \<Rightarrow> 'a list \<Rightarrow> (string \<times> 'a) list" where
  "map_by keyOf items = fold (\<lambda>item. jm_set (keyOf item) item) items []"

definition union_keys :: "(string \<times> 'a) list \<Rightarrow> (string \<times> 'a) list \<Rightarrow> string list" where
  "union_keys leftMap rightMap = sort (remdups (jm_keys leftMap @ jm_keys rightMap))"

definition member_status :: "('a \<Rightarrow> 'a \<Rightarrow> bool) \<Rightarrow> 'a option \<Rightarrow> 'a option \<Rightarrow> diff_status" where
  "member_status equal left right =
     (case (left, right) of
        (Some a, Some b) \<Rightarrow> if equal a b then Unchanged else Changed
      | (Some a, None) \<Rightarrow> Removed
      | (None, _) \<Rightarrow> Added)"

definition diffByKey :: "'a list \<Rightarrow> 'a list \<Rightarrow> ('a \<Rightarrow> string) \<Rightarrow> ('a \<Rightarrow> 'a \<Rightarrow> bool) \<Rightarrow> 'a keyed_diff list" where
  "diffByKey leftItems rightItems keyOf equal =
     (let leftMap = map_by keyOf leftItems; rightMap = map_by keyOf rightItems in
      map (\<lambda>key. let left = map_of leftMap key; right = map_of rightMap key in
             \<lparr>kdKey = key, kdStatus = member_status equal left right, kdLeft = left, kdRight = right\<rparr>)
        (union_keys leftMap rightMap))"

definition members :: "('a \<Rightarrow> 'b list) \<Rightarrow> 'a option \<Rightarrow> 'b list" where
  "members f t = (case t of None \<Rightarrow> [] | Some t \<Rightarrow> f t)"

definition diff_table :: "string \<Rightarrow> resolved_table option \<Rightarrow> resolved_table option \<Rightarrow> table_diff" where
  "diff_table name leftTable rightTable =
     (let cols = diffByKey (members rtColumns leftTable) (members rtColumns rightTable) colName columnsEqual;
          ixs = diffByKey (members rtIndexes leftTable) (members rtIndexes rightTable) ixName indexesEqual;
          fks = diffByKey (members rtForeignKeys leftTable) (members rtForeignKeys rightTable) fkConstraintName foreignKeysEqual;
          existsLeft = leftTable \<noteq> None; existsRight = rightTable \<noteq> None;
          hasMemberChange = list_ex (\<lambda>s. s \<noteq> Unchanged) (map kdStatus cols @ map kdStatus ixs @ map kdStatus fks) in
      \<lparr>tdName = name,
        tdStatus = (if \<not> existsLeft then Added else if \<not> existsRight then Removed
                    else if hasMemberChange then Changed else Unchanged),
        tdExistsLeft = existsLeft, tdExistsRight = existsRight,
        tdColumns = cols, tdIndexes = ixs, tdForeignKeys = fks\<rparr>)"

definition buildSchemaDiff :: "schema_ref \<Rightarrow> resolved_table list \<Rightarrow> schema_ref \<Rightarrow> resolved_table list \<Rightarrow> schema_diff" where
  "buildSchemaDiff left leftTables right rightTables =
     (let leftMap = map_by rtName leftTables; rightMap = map_by rtName rightTables in
      \<lparr>sdLeft = left, sdRight = right,
        sdTables = map (\<lambda>name. diff_table name (map_of leftMap name) (map_of rightMap name)) (union_keys leftMap rightMap)\<rparr>)"

subsection \<open>The change-set\<close>

datatype side = LeftSide | RightSide

definition source_of :: "side \<Rightarrow> 'a keyed_diff \<Rightarrow> 'a option" where
  "source_of source d = (if source = LeftSide then kdLeft d else kdRight d)"

definition target_of :: "side \<Rightarrow> 'a keyed_diff \<Rightarrow> 'a option" where
  "target_of source d = (if source = LeftSide then kdRight d else kdLeft d)"

definition columnMetadataToNewColumn :: "column_metadata \<Rightarrow> new_column" where
  "columnMetadataToNewColumn col =
     \<lparr>ncName = colName col, ncType = dataType col, ncNullable = nullable col, ncPrimaryKey = isPrimaryKey col,
       ncAutoIncrement = autoIncrement col, ncDefault = defaultValue col\<rparr>"

text \<open>\<open>...(x ? { key: x } : {})\<close>: an empty text counts as absent.\<close>

definition truthy_text :: "string option \<Rightarrow> string option" where
  "truthy_text x = (if x = Some [] then None else x)"

definition foreignKeyAddOp :: "foreign_key_metadata \<Rightarrow> alter_op" where
  "foreignKeyAddOp fk = AddForeignKey
     \<lparr>fksConstraintName = Some (fkConstraintName fk), fksColumns = fkColumns fk, fksReferencedSchema = fkReferencedSchema fk,
       fksReferencedTable = fkReferencedTable fk, fksReferencedColumns = fkReferencedColumns fk,
       fksOnDelete = truthy_text (fkOnDelete fk), fksOnUpdate = truthy_text (fkOnUpdate fk)\<rparr>"

definition create_index_of :: "string \<Rightarrow> string \<Rightarrow> index_metadata \<Rightarrow> ddl_request" where
  "create_index_of schema table ix = CreateIndex
     \<lparr>ciSchema = schema, ciTable = table, ciName = Some (ixName ix), ciColumns = ixColumns ix, ciUnique = isUnique ix,
       ciMethod = Some (ixMethod ix)\<rparr>"

definition new_index_changes :: "side \<Rightarrow> string \<Rightarrow> string \<Rightarrow> index_metadata keyed_diff \<Rightarrow> ddl_request list" where
  "new_index_changes source schema table d =
     (case source_of source d of
        Some src \<Rightarrow> if isPrimary src then [] else [create_index_of schema table src]
      | None \<Rightarrow> [])"

definition new_fk_changes :: "side \<Rightarrow> string \<Rightarrow> string \<Rightarrow> foreign_key_metadata keyed_diff \<Rightarrow> ddl_request list" where
  "new_fk_changes source schema table d =
     (case source_of source d of Some src \<Rightarrow> [AlterTable schema table (foreignKeyAddOp src)] | None \<Rightarrow> [])"

definition column_changes :: "side \<Rightarrow> string \<Rightarrow> string \<Rightarrow> column_metadata keyed_diff \<Rightarrow> ddl_request list" where
  "column_changes source schema table d =
     (case (source_of source d, target_of source d) of
        (Some src, None) \<Rightarrow> [AlterTable schema table (AddColumn (columnMetadataToNewColumn src))]
      | (None, Some tgt) \<Rightarrow> [AlterTable schema table (DropColumn (colName tgt))]
      | (Some src, Some tgt) \<Rightarrow>
          (if nullable src \<noteq> nullable tgt then [AlterTable schema table (SetNotNull (colName src) (\<not> nullable src))] else [])
          @ (if defaultValue src \<noteq> defaultValue tgt then [AlterTable schema table (SetDefault (colName src) (defaultValue src))] else [])
          @ (if dataType src \<noteq> dataType tgt then [AlterTable schema table (ChangeType (colName src) (dataType src) None)] else [])
      | (None, None) \<Rightarrow> [])"

definition index_changes :: "side \<Rightarrow> string \<Rightarrow> string \<Rightarrow> index_metadata keyed_diff \<Rightarrow> ddl_request list" where
  "index_changes source schema table d =
     (let primary = (\<lambda>x. case x of None \<Rightarrow> False | Some ix \<Rightarrow> isPrimary ix) in
      if primary (source_of source d) \<or> primary (target_of source d) then []
      else
        (case (source_of source d, target_of source d) of
           (Some src, None) \<Rightarrow> [create_index_of schema table src]
         | (None, Some tgt) \<Rightarrow> [DropIndex schema table (ixName tgt)]
         | (Some src, Some tgt) \<Rightarrow> [DropIndex schema table (ixName tgt), create_index_of schema table src]
         | (None, None) \<Rightarrow> []))"

definition fk_changes :: "side \<Rightarrow> string \<Rightarrow> string \<Rightarrow> foreign_key_metadata keyed_diff \<Rightarrow> ddl_request list" where
  "fk_changes source schema table d =
     (case (source_of source d, target_of source d) of
        (Some src, None) \<Rightarrow> [AlterTable schema table (foreignKeyAddOp src)]
      | (None, Some tgt) \<Rightarrow> [AlterTable schema table (DropForeignKey (fkConstraintName tgt))]
      | (Some src, Some tgt) \<Rightarrow>
          [AlterTable schema table (DropForeignKey (fkConstraintName tgt)), AlterTable schema table (foreignKeyAddOp src)]
      | (None, None) \<Rightarrow> [])"

definition create_table_of :: "side \<Rightarrow> string \<Rightarrow> table_diff \<Rightarrow> ddl_request" where
  "create_table_of source schema table = CreateTable
     \<lparr>ctSchema = schema, ctTable = tdName table,
       ctColumns = map columnMetadataToNewColumn (List.map_filter (source_of source) (tdColumns table))\<rparr>"

definition table_changes :: "side \<Rightarrow> string \<Rightarrow> table_diff \<Rightarrow> ddl_request list" where
  "table_changes source schema table =
     (let name = tdName table;
          existsInSource = (if source = LeftSide then tdExistsLeft table else tdExistsRight table);
          existsInTarget = (if source = LeftSide then tdExistsRight table else tdExistsLeft table) in
      if existsInSource \<and> \<not> existsInTarget then
        create_table_of source schema table
          # concat (map (new_index_changes source schema name) (tdIndexes table))
          @ concat (map (new_fk_changes source schema name) (tdForeignKeys table))
      else if \<not> existsInSource \<and> existsInTarget then [DropTable schema name]
      else if \<not> existsInSource \<and> \<not> existsInTarget then []
      else
        concat (map (column_changes source schema name) (tdColumns table))
          @ concat (map (index_changes source schema name) (tdIndexes table))
          @ concat (map (fk_changes source schema name) (tdForeignKeys table)))"

definition target_schema :: "side \<Rightarrow> schema_diff \<Rightarrow> string" where
  "target_schema source diff = (if source = LeftSide then srSchema (sdRight diff) else srSchema (sdLeft diff))"

definition buildMigrationCandidates :: "schema_diff \<Rightarrow> side \<Rightarrow> ddl_request list" where
  "buildMigrationCandidates diff source =
     concat (map (table_changes source (target_schema source diff)) (sdTables diff))"

fun isDestructiveChange :: "ddl_request \<Rightarrow> bool" where
  "isDestructiveChange (DropTable schema table) = True"
| "isDestructiveChange (DropIndex schema table index) = True"
| "isDestructiveChange (AlterTable schema table op) =
     (case op of DropColumn c \<Rightarrow> True | DropForeignKey n \<Rightarrow> True | _ \<Rightarrow> False)"
| "isDestructiveChange _ = False"

subsection \<open>The service\<close>

text \<open>
  The connections' owners, the metadata service and the DDL service of each connection are parameters. The
  reads that the code starts together run one after the other here.
\<close>

record schema_entry =
  seName :: string
  seTables :: "(string \<times> column_metadata list) list"

record 'd diff_env =
  dfOwnership :: "string \<Rightarrow> string \<Rightarrow> unit res"
  dfDdl :: "string \<Rightarrow> 'd ddl_env"
  dfSchemas :: "string \<Rightarrow> ('d world, schema_entry list) eff"
  dfForeignKeys :: "string \<Rightarrow> string \<Rightarrow> ('d world, schema_foreign_key list) eff"
  dfIndexes :: "string \<Rightarrow> string \<Rightarrow> string \<Rightarrow> ('d world, index_metadata list) eff"

record schema_diff_change_item =
  itChange :: ddl_request
  itSql :: string
  itDestructive :: bool

definition assertSameEngine :: "'d diff_env \<Rightarrow> string \<Rightarrow> string \<Rightarrow> unit res" where
  "assertSameEngine env leftId rightId =
     res_bind (deDriver (dfDdl env leftId)) (\<lambda>leftEngine.
     res_bind (deDriver (dfDdl env rightId)) (\<lambda>rightEngine.
     require (leftEngine = rightEngine) (BadRequest ''Schema comparison requires both connections to use the same engine'')))"

definition resolveSchemaTables :: "'d diff_env \<Rightarrow> string \<Rightarrow> string \<Rightarrow> ('d world, resolved_table list) eff" where
  "resolveSchemaTables env connectionId schema =
     bind_eff (dfSchemas env connectionId) (\<lambda>schemas.
     bind_eff (dfForeignKeys env connectionId schema) (\<lambda>foreignKeys.
     let tables = (case find (\<lambda>s. seName s = schema) schemas of None \<Rightarrow> [] | Some s \<Rightarrow> seTables s);
         fksOf = (\<lambda>name. map foreign_key_metadata.truncate (filter (\<lambda>fk. sfkTable fk = name) foreignKeys)) in
     each_eff (\<lambda>(name, columns).
       bind_eff (dfIndexes env connectionId schema name) (\<lambda>ixs.
       ret \<lparr>rtName = name, rtColumns = columns, rtIndexes = ixs, rtForeignKeys = fksOf name\<rparr>)) tables))"

definition compare_schemas :: "'d diff_env \<Rightarrow> string \<Rightarrow> schema_ref \<Rightarrow> schema_ref \<Rightarrow> ('d world, schema_diff) eff" where
  "compare_schemas env userId left right =
     bind_eff (lift_res (dfOwnership env userId (srConnection left))) (\<lambda>_.
     bind_eff (lift_res (dfOwnership env userId (srConnection right))) (\<lambda>_.
     bind_eff (lift_res (assertSameEngine env (srConnection left) (srConnection right))) (\<lambda>_.
     bind_eff (resolveSchemaTables env (srConnection left) (srSchema left)) (\<lambda>leftTables.
     bind_eff (resolveSchemaTables env (srConnection right) (srSchema right)) (\<lambda>rightTables.
     ret (buildSchemaDiff left leftTables right rightTables))))))"

definition migration_item :: "'d ddl_env \<Rightarrow> ddl_request \<Rightarrow> ('d world, schema_diff_change_item list) eff" where
  "migration_item env change =
     catch_eff
       (bind_eff (preview env change) (\<lambda>sql.
        ret [\<lparr>itChange = change, itSql = sql, itDestructive = isDestructiveChange change\<rparr>]))
       (\<lambda>err. ret [])"

definition generateMigration ::
  "'d diff_env \<Rightarrow> string \<Rightarrow> schema_ref \<Rightarrow> schema_ref \<Rightarrow> side \<Rightarrow> ('d world, schema_diff_change_item list) eff" where
  "generateMigration env userId left right source =
     bind_eff (compare_schemas env userId left right) (\<lambda>diff.
     let targetId = (if source = LeftSide then srConnection right else srConnection left) in
     bind_eff (each_eff (migration_item (dfDdl env targetId)) (buildMigrationCandidates diff source)) (\<lambda>items.
     ret (concat items)))"

subsection \<open>The comparison is by name\<close>

lemma map_by_snoc: "map_by k (xs @ [x]) = jm_set (k x) x (map_by k xs)"
  by (simp add: map_by_def)

lemma jm_ok_map_by: "jm_ok (map_by k xs)"
  by (induction xs rule: rev_induct) (simp_all add: map_by_snoc jm.ok_set, simp add: map_by_def jm_ok_def)

lemma keys_map_by: "set (jm_keys (map_by k xs)) = k ` set xs"
  by (induction xs rule: rev_induct) (simp_all add: map_by_snoc, simp add: map_by_def jm_keys_def)

lemma map_by_key: "map_of (map_by k xs) n = Some x \<Longrightarrow> x \<in> set xs \<and> k x = n"
  by (induction xs rule: rev_induct)
    (auto simp: map_by_snoc map_of_jm_set split: if_splits, auto simp: map_by_def)

lemma map_by_None: "map_of (map_by k xs) n = None \<longleftrightarrow> n \<notin> k ` set xs"
  by (metis jm_keys_get keys_map_by)

lemma map_by_distinct: "distinct (map k xs) \<Longrightarrow> x \<in> set xs \<Longrightarrow> map_of (map_by k xs) (k x) = Some x"
  by (induction xs rule: rev_induct) (auto simp: map_by_snoc map_of_jm_set, metis image_eqI)

lemma union_keys_set: "set (union_keys l r) = set (jm_keys l) \<union> set (jm_keys r)"
  by (simp add: union_keys_def)

lemma union_keys_sorted: "sorted (union_keys l r)" "distinct (union_keys l r)"
  by (simp_all add: union_keys_def)

lemma arraysEqual_eq [simp]: "arraysEqual a b \<longleftrightarrow> a = b"
  by (auto simp: arraysEqual_def list_all_iff list_eq_iff_zip_eq)

lemma diffByKey_keys [simp]: "map kdKey (diffByKey l r k eq) = union_keys (map_by k l) (map_by k r)"
  by (simp add: diffByKey_def Let_def comp_def)

lemma in_diffByKey:
  "d \<in> set (diffByKey l r k eq) \<longleftrightarrow>
     kdKey d \<in> k ` set l \<union> k ` set r \<and> kdLeft d = map_of (map_by k l) (kdKey d)
     \<and> kdRight d = map_of (map_by k r) (kdKey d) \<and> kdStatus d = member_status eq (kdLeft d) (kdRight d)"
  unfolding diffByKey_def Let_def
  by (cases d) (auto simp: union_keys_set keys_map_by)

text \<open>The reference: what a column, an index, a foreign key and a table are, up to what the comparison looks at.\<close>

definition column_shape :: "column_metadata \<Rightarrow> string \<times> string \<times> bool \<times> bool \<times> bool \<times> string option" where
  "column_shape c = (colName c, dataType c, nullable c, isPrimaryKey c, autoIncrement c, defaultValue c)"

definition index_shape :: "index_metadata \<Rightarrow> string \<times> bool \<times> bool \<times> string \<times> string list" where
  "index_shape i = (ixName i, isUnique i, isPrimary i, ixMethod i, ixColumns i)"

definition fk_shape ::
  "foreign_key_metadata \<Rightarrow> string \<times> string option \<times> string \<times> string list \<times> string list \<times> string option \<times> string option" where
  "fk_shape f = (fkConstraintName f, fkReferencedSchema f, fkReferencedTable f, fkColumns f, fkReferencedColumns f,
     fkOnDelete f, fkOnUpdate f)"

definition same_shape :: "resolved_table \<Rightarrow> resolved_table \<Rightarrow> bool" where
  "same_shape l r \<longleftrightarrow> column_shape ` set (rtColumns l) = column_shape ` set (rtColumns r)
     \<and> index_shape ` set (rtIndexes l) = index_shape ` set (rtIndexes r)
     \<and> fk_shape ` set (rtForeignKeys l) = fk_shape ` set (rtForeignKeys r)"

definition well_named :: "resolved_table list \<Rightarrow> bool" where
  "well_named ts \<longleftrightarrow> distinct (map rtName ts) \<and>
     list_all (\<lambda>t. distinct (map colName (rtColumns t)) \<and> distinct (map ixName (rtIndexes t))
       \<and> distinct (map fkConstraintName (rtForeignKeys t))) ts"

lemma all_unchanged:
  assumes "distinct (map k l)" "distinct (map k r)" "\<And>a b. k a = k b \<and> eq a b \<longleftrightarrow> shape a = shape b"
  shows "list_all (\<lambda>d. kdStatus d = Unchanged) (diffByKey l r k eq) \<longleftrightarrow> shape ` set l = shape ` set r"
proof
  assume all: "list_all (\<lambda>d. kdStatus d = Unchanged) (diffByKey l r k eq)"
  have pair: "\<exists>a b. a \<in> set l \<and> b \<in> set r \<and> k a = n \<and> k b = n \<and> eq a b" if n: "n \<in> k ` set l \<union> k ` set r" for n
  proof -
    let ?l = "map_of (map_by k l) n" and ?r = "map_of (map_by k r) n"
    have "\<lparr>kdKey = n, kdStatus = member_status eq ?l ?r, kdLeft = ?l, kdRight = ?r\<rparr> \<in> set (diffByKey l r k eq)"
      using n by (simp add: in_diffByKey)
    with all have "member_status eq ?l ?r = Unchanged" by (auto simp: list_all_iff)
    then obtain a b where "?l = Some a" "?r = Some b" "eq a b"
      by (auto simp: member_status_def split: option.splits if_splits)
    then show ?thesis using map_by_key by metis
  qed
  have same: "\<And>xs x y. distinct (map k xs) \<Longrightarrow> x \<in> set xs \<Longrightarrow> y \<in> set xs \<Longrightarrow> k x = k y \<Longrightarrow> x = y"
    by (meson distinct_map inj_onD)
  show "shape ` set l = shape ` set r"
  proof (intro equalityI subsetI)
    fix s
    assume "s \<in> shape ` set l"
    then obtain a where a: "a \<in> set l" "s = shape a" by blast
    then obtain a' b where "a' \<in> set l" "b \<in> set r" "k a' = k a" "k b = k a" "eq a' b"
      using pair [of "k a"] by blast
    then have "a' = a" using same [OF assms(1)] a by blast
    then have "shape a = shape b" using assms(3) \<open>k b = k a\<close> \<open>eq a' b\<close> by metis
    then show "s \<in> shape ` set r" using \<open>b \<in> set r\<close> a by simp
  next
    fix s
    assume "s \<in> shape ` set r"
    then obtain b where b: "b \<in> set r" "s = shape b" by blast
    then obtain a b' where "a \<in> set l" "b' \<in> set r" "k a = k b" "k b' = k b" "eq a b'"
      using pair [of "k b"] by blast
    then have "b' = b" using same [OF assms(2)] b by blast
    then have "shape a = shape b" using assms(3) \<open>k a = k b\<close> \<open>eq a b'\<close> by metis
    then show "s \<in> shape ` set l" using \<open>a \<in> set l\<close> b by (metis imageI)
  qed
next
  assume eq: "shape ` set l = shape ` set r"
  show "list_all (\<lambda>d. kdStatus d = Unchanged) (diffByKey l r k eq)"
    unfolding list_all_iff
  proof (intro ballI)
    fix d
    assume d: "d \<in> set (diffByKey l r k eq)"
    then have "kdKey d \<in> k ` set l \<union> k ` set r" by (simp add: in_diffByKey)
    then obtain a b where ab: "a \<in> set l" "b \<in> set r" "shape a = shape b" "kdKey d = k a"
    proof
      assume "kdKey d \<in> k ` set l"
      then obtain a where a: "a \<in> set l" "kdKey d = k a" by blast
      then have "shape a \<in> shape ` set r" using eq by blast
      then obtain b where "b \<in> set r" "shape a = shape b" by blast
      then show ?thesis using that a by blast
    next
      assume "kdKey d \<in> k ` set r"
      then obtain b where b: "b \<in> set r" "kdKey d = k b" by blast
      then have "shape b \<in> shape ` set l" using eq by blast
      then obtain a where a: "a \<in> set l" "shape a = shape b" by auto
      then have "k a = k b" using assms(3) [of a b] by blast
      then show ?thesis using that a b by simp
    qed
    then have "k b = k a" "eq a b" using assms(3) [of a b] by simp_all
    then have "kdLeft d = Some a" "kdRight d = Some b"
      using d ab map_by_distinct [OF assms(1) ab(1)] map_by_distinct [OF assms(2) ab(2)] by (simp_all add: in_diffByKey)
    then show "kdStatus d = Unchanged" using d \<open>eq a b\<close> by (simp add: in_diffByKey member_status_def)
  qed
qed

lemma shapes:
  "colName a = colName b \<and> columnsEqual a b \<longleftrightarrow> column_shape a = column_shape b"
  "ixName i = ixName j \<and> indexesEqual i j \<longleftrightarrow> index_shape i = index_shape j"
  "fkConstraintName f = fkConstraintName g \<and> foreignKeysEqual f g \<longleftrightarrow> fk_shape f = fk_shape g"
  by (auto simp: columnsEqual_def column_shape_def indexesEqual_def index_shape_def foreignKeysEqual_def fk_shape_def)

lemma changed_status: "list_ex (\<lambda>s. s \<noteq> Unchanged) (map kdStatus ds) \<longleftrightarrow> \<not> list_all (\<lambda>d. kdStatus d = Unchanged) ds"
  by (auto simp: list_ex_iff list_all_iff)

lemma no_member_change:
  assumes "well_named [l]" "well_named [r]"
  shows "tdStatus (diff_table n (Some l) (Some r)) = Unchanged \<longleftrightarrow> same_shape l r"
proof -
  have "tdStatus (diff_table n (Some l) (Some r)) = Unchanged \<longleftrightarrow>
      \<not> list_ex (\<lambda>s. s \<noteq> Unchanged) (map kdStatus (diffByKey (rtColumns l) (rtColumns r) colName columnsEqual)) \<and>
      \<not> list_ex (\<lambda>s. s \<noteq> Unchanged) (map kdStatus (diffByKey (rtIndexes l) (rtIndexes r) ixName indexesEqual)) \<and>
      \<not> list_ex (\<lambda>s. s \<noteq> Unchanged) (map kdStatus (diffByKey (rtForeignKeys l) (rtForeignKeys r) fkConstraintName foreignKeysEqual))"
    by (simp add: diff_table_def Let_def members_def)
  also have "\<dots> \<longleftrightarrow> same_shape l r"
    using assms by (simp add: changed_status well_named_def same_shape_def all_unchanged [OF _ _ shapes(1)]
        all_unchanged [OF _ _ shapes(2)] all_unchanged [OF _ _ shapes(3)])
  finally show ?thesis .
qed

lemma table_status:
  assumes "well_named L" "well_named R" "n \<in> rtName ` set L \<union> rtName ` set R"
    "t = diff_table n (map_of (map_by rtName L) n) (map_of (map_by rtName R) n)"
  shows "tdStatus t = Added \<longleftrightarrow> n \<notin> rtName ` set L"
    "tdStatus t = Removed \<longleftrightarrow> n \<notin> rtName ` set R"
    "tdStatus t = Unchanged \<longleftrightarrow> (\<exists>l \<in> set L. \<exists>r \<in> set R. rtName l = n \<and> rtName r = n \<and> same_shape l r)"
proof -
  let ?l = "map_of (map_by rtName L) n" and ?r = "map_of (map_by rtName R) n"
  let ?same = "\<exists>l \<in> set L. \<exists>r \<in> set R. rtName l = n \<and> rtName r = n \<and> same_shape l r"
  have l: "?l = None \<longleftrightarrow> n \<notin> rtName ` set L" and r: "?r = None \<longleftrightarrow> n \<notin> rtName ` set R"
    by (simp_all add: map_by_None)
  have "(tdStatus t = Added \<longleftrightarrow> n \<notin> rtName ` set L) \<and> (tdStatus t = Removed \<longleftrightarrow> n \<notin> rtName ` set R)
      \<and> (tdStatus t = Unchanged \<longleftrightarrow> ?same)"
  proof (cases "?l = None \<or> ?r = None")
    case True
    then have status: "tdStatus t = (if ?l = None then Added else Removed)"
      unfolding assms(4) diff_table_def Let_def by (cases ?l; cases ?r; simp)
    have one: "n \<notin> rtName ` set L \<or> n \<notin> rtName ` set R" using True l r by blast
    then have "\<not> ?same" by (metis image_eqI)
    moreover have "?l = None \<longleftrightarrow> n \<in> rtName ` set R \<and> n \<notin> rtName ` set L" using l assms(3) [unfolded Un_iff] one by argo
    ultimately show ?thesis using status one l by (cases "?l = None") simp_all
  next
    case False
    then obtain a b where ab: "?l = Some a" "?r = Some b" by (cases ?l; cases ?r) auto
    have in_ab: "a \<in> set L" "rtName a = n" "b \<in> set R" "rtName b = n"
      using ab map_by_key [of rtName L n a] map_by_key [of rtName R n b] by simp_all
    have wn: "well_named [a]" "well_named [b]" and dist: "distinct (map rtName L)" "distinct (map rtName R)"
      using assms(1,2) in_ab by (simp_all add: well_named_def list_all_iff)
    have "?same \<longleftrightarrow> same_shape a b"
    proof
      assume ?same
      then obtain l' r' where lr: "l' \<in> set L" "r' \<in> set R" "rtName l' = n" "rtName r' = n" "same_shape l' r'" by blast
      then have "l' = a" "r' = b"
        using map_by_distinct [OF dist(1) lr(1)] map_by_distinct [OF dist(2) lr(2)] ab by simp_all
      then show "same_shape a b" using lr by simp
    next
      assume "same_shape a b"
      then show ?same using in_ab by blast
    qed
    moreover have "tdStatus t \<noteq> Added \<and> tdStatus t \<noteq> Removed"
      by (simp add: assms(4) ab diff_table_def Let_def)
    ultimately show ?thesis
      using no_member_change [OF wn, of n] l r False by (simp add: assms(4) ab)
  qed
  then show "tdStatus t = Added \<longleftrightarrow> n \<notin> rtName ` set L" "tdStatus t = Removed \<longleftrightarrow> n \<notin> rtName ` set R"
    "tdStatus t = Unchanged \<longleftrightarrow> ?same" by simp_all
qed

text \<open>
  C30. The comparison is right. Its tables are the names of both sides, each once and in order; a table is marked added
  when only the right side has it, removed when only the left side has it, and unchanged exactly when both sides
  have it with the same columns, indexes and foreign keys, in whatever order they are listed; otherwise changed.
\<close>

theorem buildSchemaDiff_exact:
  assumes "well_named leftTables" "well_named rightTables"
  shows "map tdName (sdTables (buildSchemaDiff left leftTables right rightTables))
           = sorted_list_of_set (rtName ` set leftTables \<union> rtName ` set rightTables)
    \<and> list_all (\<lambda>t.
        (tdStatus t = Added \<longleftrightarrow> tdName t \<notin> rtName ` set leftTables)
        \<and> (tdStatus t = Removed \<longleftrightarrow> tdName t \<notin> rtName ` set rightTables)
        \<and> (tdStatus t = Unchanged \<longleftrightarrow> (\<exists>l \<in> set leftTables. \<exists>r \<in> set rightTables.
             rtName l = tdName t \<and> rtName r = tdName t \<and> same_shape l r)))
      (sdTables (buildSchemaDiff left leftTables right rightTables))"
proof -
  let ?l = "map_of (map_by rtName leftTables)" and ?r = "map_of (map_by rtName rightTables)"
  let ?ns = "union_keys (map_by rtName leftTables) (map_by rtName rightTables)"
  have tables: "sdTables (buildSchemaDiff left leftTables right rightTables) = map (\<lambda>n. diff_table n (?l n) (?r n)) ?ns"
    by (simp add: buildSchemaDiff_def Let_def)
  have set: "set ?ns = rtName ` set leftTables \<union> rtName ` set rightTables"
    by (simp add: union_keys_set keys_map_by)
  have "?ns = sorted_list_of_set (set ?ns)"
    using union_keys_sorted sorted_list_of_set.idem_if_sorted_distinct by metis
  moreover have "tdName (diff_table n l r) = n" for n l r
    by (simp add: diff_table_def Let_def)
  ultimately show ?thesis
    using table_status [OF assms] by (simp add: tables set list_all_iff comp_def)
qed

subsection \<open>What a change-set asks for\<close>

text \<open>
  A schema description, by name, and each request read as an edit of it: an edit is possible when what it adds
  is absent and what it drops or alters is there. This says what the requests ask for and is no model of an
  engine: an engine also looks at what depends on what (a column that an index or a key still uses, a referenced
  table that is not there yet), which a description does not hold. The index that carries the primary key is not
  an index of its own.
\<close>

record column_desc =
  lcType :: string
  lcNullable :: bool
  lcDefault :: "string option"
  lcPrimary :: bool
  lcAuto :: bool

record index_desc =
  liUnique :: bool
  liMethod :: "string option"
  liColumns :: "string list"

record table_desc =
  ltColumns :: "string \<Rightarrow> column_desc option"
  ltIndexes :: "string \<Rightarrow> index_desc option"
  ltForeignKeys :: "string \<Rightarrow> foreign_key_spec option"

type_synonym schema_desc = "string \<Rightarrow> table_desc option"

definition add_at :: "string \<Rightarrow> 'v \<Rightarrow> (string \<Rightarrow> 'v option) \<Rightarrow> (string \<Rightarrow> 'v option) option" where
  "add_at k v m = (if m k = None then Some (m(k \<mapsto> v)) else None)"

definition drop_at :: "string \<Rightarrow> (string \<Rightarrow> 'v option) \<Rightarrow> (string \<Rightarrow> 'v option) option" where
  "drop_at k m = (if m k = None then None else Some (m(k := None)))"

definition alter_at :: "string \<Rightarrow> ('v \<Rightarrow> 'v) \<Rightarrow> (string \<Rightarrow> 'v option) \<Rightarrow> (string \<Rightarrow> 'v option) option" where
  "alter_at k f m = (case m k of None \<Rightarrow> None | Some v \<Rightarrow> Some (m(k \<mapsto> f v)))"

definition new_column_desc :: "new_column \<Rightarrow> column_desc" where
  "new_column_desc c = \<lparr>lcType = ncType c, lcNullable = ncNullable c, lcDefault = ncDefault c, lcPrimary = ncPrimaryKey c,
     lcAuto = ncAutoIncrement c\<rparr>"

definition set_columns :: "(string \<Rightarrow> column_desc option) \<Rightarrow> table_desc \<Rightarrow> table_desc" where
  "set_columns m t = t\<lparr>ltColumns := m\<rparr>"

definition set_indexes :: "(string \<Rightarrow> index_desc option) \<Rightarrow> table_desc \<Rightarrow> table_desc" where
  "set_indexes m t = t\<lparr>ltIndexes := m\<rparr>"

definition set_fks :: "(string \<Rightarrow> foreign_key_spec option) \<Rightarrow> table_desc \<Rightarrow> table_desc" where
  "set_fks m t = t\<lparr>ltForeignKeys := m\<rparr>"

fun edit_table :: "ddl_request \<Rightarrow> table_desc \<Rightarrow> table_desc option" where
  "edit_table (AlterTable s n op) t =
     (case op of
        AddColumn c \<Rightarrow> map_option (\<lambda>m. set_columns m t) (add_at (ncName c) (new_column_desc c) (ltColumns t))
      | DropColumn c \<Rightarrow> map_option (\<lambda>m. set_columns m t) (drop_at c (ltColumns t))
      | SetNotNull c b \<Rightarrow> map_option (\<lambda>m. set_columns m t) (alter_at c (\<lambda>x. x\<lparr>lcNullable := \<not> b\<rparr>) (ltColumns t))
      | SetDefault c d \<Rightarrow> map_option (\<lambda>m. set_columns m t) (alter_at c (\<lambda>x. x\<lparr>lcDefault := d\<rparr>) (ltColumns t))
      | ChangeType c ty u \<Rightarrow> map_option (\<lambda>m. set_columns m t) (alter_at c (\<lambda>x. x\<lparr>lcType := ty\<rparr>) (ltColumns t))
      | AddForeignKey spec \<Rightarrow>
          (case fksConstraintName spec of
             None \<Rightarrow> None
           | Some k \<Rightarrow> map_option (\<lambda>m. set_fks m t) (add_at k spec (ltForeignKeys t)))
      | DropForeignKey k \<Rightarrow> map_option (\<lambda>m. set_fks m t) (drop_at k (ltForeignKeys t))
      | SetComment c x \<Rightarrow> Some t)"
| "edit_table (CreateIndex r) t =
     (case ciName r of
        None \<Rightarrow> None
      | Some k \<Rightarrow> map_option (\<lambda>m. set_indexes m t)
          (add_at k \<lparr>liUnique = ciUnique r, liMethod = ciMethod r, liColumns = ciColumns r\<rparr> (ltIndexes t)))"
| "edit_table (DropIndex s n k) t = map_option (\<lambda>m. set_indexes m t) (drop_at k (ltIndexes t))"
| "edit_table _ t = None"

definition new_table_desc :: "create_table_request \<Rightarrow> table_desc" where
  "new_table_desc r = \<lparr>ltColumns = map_of (map (\<lambda>c. (ncName c, new_column_desc c)) (ctColumns r)),
     ltIndexes = Map.empty, ltForeignKeys = Map.empty\<rparr>"

fun place :: "ddl_request \<Rightarrow> string \<times> string" where
  "place (CreateTable r) = (ctSchema r, ctTable r)"
| "place (AlterTable s t op) = (s, t)"
| "place (CreateIndex r) = (ciSchema r, ciTable r)"
| "place (DropIndex s t i) = (s, t)"
| "place (DropTable s t) = (s, t)"
| "place (TruncateTable s t) = (s, t)"

definition edit_schema :: "string \<Rightarrow> ddl_request \<Rightarrow> schema_desc \<Rightarrow> schema_desc option" where
  "edit_schema schema change live =
     (let n = snd (place change) in
      if fst (place change) \<noteq> schema then None
      else
        case change of
          CreateTable r \<Rightarrow> if distinct (map ncName (ctColumns r)) then add_at n (new_table_desc r) live else None
        | DropTable s t \<Rightarrow> drop_at n live
        | TruncateTable s t \<Rightarrow> None
        | _ \<Rightarrow> Option.bind (live n) (\<lambda>t. map_option (\<lambda>t'. live(n \<mapsto> t')) (edit_table change t)))"

fun run_steps :: "('c \<Rightarrow> 's \<Rightarrow> 's option) \<Rightarrow> 'c list \<Rightarrow> 's \<Rightarrow> 's option" where
  "run_steps f [] s = Some s"
| "run_steps f (c # cs) s = Option.bind (f c s) (run_steps f cs)"

text \<open>The description of what was read.\<close>

definition column_desc_of :: "column_metadata \<Rightarrow> column_desc" where
  "column_desc_of c = \<lparr>lcType = dataType c, lcNullable = nullable c, lcDefault = defaultValue c, lcPrimary = isPrimaryKey c,
     lcAuto = autoIncrement c\<rparr>"

definition index_desc_of :: "index_metadata \<Rightarrow> index_desc" where
  "index_desc_of i = \<lparr>liUnique = isUnique i, liMethod = Some (ixMethod i), liColumns = ixColumns i\<rparr>"

definition fk_spec :: "foreign_key_metadata \<Rightarrow> foreign_key_spec" where
  "fk_spec fk = (case foreignKeyAddOp fk of AddForeignKey spec \<Rightarrow> spec)"

definition col_at :: "resolved_table \<Rightarrow> string \<Rightarrow> column_metadata option" where
  "col_at t = map_of (map_by colName (rtColumns t))"

definition ix_at :: "resolved_table \<Rightarrow> string \<Rightarrow> index_metadata option" where
  "ix_at t = map_of (map_by ixName (rtIndexes t))"

definition fk_at :: "resolved_table \<Rightarrow> string \<Rightarrow> foreign_key_metadata option" where
  "fk_at t = map_of (map_by fkConstraintName (rtForeignKeys t))"

definition index_desc_opt :: "index_metadata option \<Rightarrow> index_desc option" where
  "index_desc_opt x = (case x of None \<Rightarrow> None | Some i \<Rightarrow> if isPrimary i then None else Some (index_desc_of i))"

definition is_primary :: "index_metadata option \<Rightarrow> bool" where
  "is_primary x = (case x of None \<Rightarrow> False | Some i \<Rightarrow> isPrimary i)"

definition table_desc_of :: "resolved_table \<Rightarrow> table_desc" where
  "table_desc_of t =
     \<lparr>ltColumns = (\<lambda>k. map_option column_desc_of (col_at t k)),
       ltIndexes = (\<lambda>k. index_desc_opt (ix_at t k)),
       ltForeignKeys = (\<lambda>k. map_option fk_spec (fk_at t k))\<rparr>"

definition table_at :: "resolved_table list \<Rightarrow> string \<Rightarrow> resolved_table option" where
  "table_at ts = map_of (map_by rtName ts)"

definition schema_desc_of :: "resolved_table list \<Rightarrow> schema_desc" where
  "schema_desc_of ts n = map_option table_desc_of (table_at ts n)"

text \<open>
  What the reconciled table is: a table the target lacks is the source's; in a table both have, a column that both
  have keeps the target's key and auto-increment flags, and an index that either side has as its primary key stays.
\<close>

definition merged_column :: "column_desc option \<Rightarrow> column_desc option \<Rightarrow> column_desc option" where
  "merged_column s t =
     (case (s, t) of
        (None, _) \<Rightarrow> None
      | (Some a, None) \<Rightarrow> Some a
      | (Some a, Some b) \<Rightarrow> Some (a\<lparr>lcPrimary := lcPrimary b, lcAuto := lcAuto b\<rparr>))"

definition merged_index :: "index_metadata option \<Rightarrow> index_metadata option \<Rightarrow> index_desc option" where
  "merged_index s t = index_desc_opt (if is_primary s \<or> is_primary t then t else s)"

definition merged_table :: "resolved_table \<Rightarrow> resolved_table \<Rightarrow> table_desc" where
  "merged_table s t =
     \<lparr>ltColumns = (\<lambda>k. merged_column (ltColumns (table_desc_of s) k) (ltColumns (table_desc_of t) k)),
       ltIndexes = (\<lambda>k. merged_index (ix_at s k) (ix_at t k)),
       ltForeignKeys = ltForeignKeys (table_desc_of s)\<rparr>"

definition merged_schema :: "resolved_table list \<Rightarrow> resolved_table list \<Rightarrow> schema_desc" where
  "merged_schema S T n =
     (case (table_at S n, table_at T n) of
        (None, _) \<Rightarrow> None
      | (Some s, None) \<Rightarrow> Some (table_desc_of s)
      | (Some s, Some t) \<Rightarrow> Some (merged_table s t))"

definition keys_agree :: "resolved_table list \<Rightarrow> resolved_table list \<Rightarrow> bool" where
  "keys_agree S T \<longleftrightarrow>
     (\<forall>n s t. table_at S n = Some s \<longrightarrow> table_at T n = Some t \<longrightarrow>
        (\<forall>k. is_primary (ix_at s k) = is_primary (ix_at t k)) \<and>
        (\<forall>k a b. col_at s k = Some a \<longrightarrow> col_at t k = Some b \<longrightarrow>
           isPrimaryKey a = isPrimaryKey b \<and> autoIncrement a = autoIncrement b))"

subsection \<open>Reconciling member by member\<close>

lemma run_steps_append: "run_steps f (xs @ ys) s = Option.bind (run_steps f xs s) (run_steps f ys)"
  by (induction xs arbitrary: s) (simp_all split: Option.bind_split)

text \<open>
  The shape of every part of the change-set: a part of the state is a map by name, and for each name in turn
  there are steps that set its entry and touch nothing else.
\<close>

locale keyed_state =
  fixes view :: "'s \<Rightarrow> string \<Rightarrow> 'v option"
    and put :: "(string \<Rightarrow> 'v option) \<Rightarrow> 's \<Rightarrow> 's"
    and step :: "'c \<Rightarrow> 's \<Rightarrow> 's option"
  assumes view_put: "view (put m s) = m"
    and put_put: "put m (put m' s) = put m s"
    and put_view: "put (view s) s = s"
begin

lemma each_member:
  assumes "distinct (map key ds)" "\<And>d. d \<in> set ds \<Longrightarrow> view s (key d) = old d"
    "\<And>d s'. d \<in> set ds \<Longrightarrow> view s' (key d) = old d \<Longrightarrow>
       run_steps step (changes d) s' = Some (put ((view s')(key d := new d)) s')"
  shows "run_steps step (concat (map changes ds)) s
    = Some (put (\<lambda>k. case map_of (map (\<lambda>d. (key d, new d)) ds) k of None \<Rightarrow> view s k | Some v \<Rightarrow> v) s)"
  using assms
proof (induction ds arbitrary: s)
  case Nil
  then show ?case by (simp add: put_view)
next
  case (Cons d ds)
  let ?s = "put ((view s)(key d := new d)) s"
  have head: "run_steps step (changes d) s = Some ?s" using Cons.prems(2,3) [of d] by (metis list.set_intros(1))
  have "view ?s (key d') = old d'" if "d' \<in> set ds" for d'
  proof -
    have "key d' \<noteq> key d"
      using Cons.prems(1) that by (metis distinct.simps(2) image_eqI list.map(2) set_map)
    then show ?thesis using Cons.prems(2) [of d'] that by (simp add: view_put)
  qed
  then have "run_steps step (concat (map changes ds)) ?s
    = Some (put (\<lambda>k. case map_of (map (\<lambda>d. (key d, new d)) ds) k of None \<Rightarrow> view ?s k | Some v \<Rightarrow> v) ?s)"
    using Cons.prems(1,3) by (intro Cons.IH) simp_all
  moreover have "(\<lambda>k. case map_of (map (\<lambda>d. (key d, new d)) ds) k of None \<Rightarrow> view ?s k | Some v \<Rightarrow> v)
    = (\<lambda>k. case map_of (map (\<lambda>d. (key d, new d)) (d # ds)) k of None \<Rightarrow> view s k | Some v \<Rightarrow> v)"
  proof
    fix k
    have "map_of (map (\<lambda>d. (key d, new d)) ds) (key d) = None"
      using Cons.prems(1) by (auto simp: map_of_eq_None_iff image_iff)
    then show "(case map_of (map (\<lambda>d. (key d, new d)) ds) k of None \<Rightarrow> view ?s k | Some v \<Rightarrow> v)
      = (case map_of (map (\<lambda>d. (key d, new d)) (d # ds)) k of None \<Rightarrow> view s k | Some v \<Rightarrow> v)"
      by (cases "k = key d") (simp_all add: view_put split: option.split)
  qed
  ultimately show ?case using head by (simp add: run_steps_append put_put)
qed

end

interpretation columns: keyed_state ltColumns set_columns edit_table
  by unfold_locales (simp_all add: set_columns_def)

interpretation indexes: keyed_state ltIndexes set_indexes edit_table
  by unfold_locales (simp_all add: set_indexes_def)

interpretation foreign_keys: keyed_state ltForeignKeys set_fks edit_table
  by unfold_locales (simp_all add: set_fks_def)

interpretation tables: keyed_state "\<lambda>live. live" "\<lambda>m live. m" "edit_schema schema" for schema
  by unfold_locales simp_all

text \<open>The entries of a comparison, seen from the source.\<close>

definition picked :: "side \<Rightarrow> 'a \<Rightarrow> 'a \<Rightarrow> 'a" where
  "picked source l r = (if source = LeftSide then l else r)"

definition other :: "side \<Rightarrow> 'a \<Rightarrow> 'a \<Rightarrow> 'a" where
  "other source l r = (if source = LeftSide then r else l)"

lemma diff_entry:
  assumes "d \<in> set (diffByKey l r k eq)"
  shows "source_of source d = map_of (map_by k (picked source l r)) (kdKey d)"
    "target_of source d = map_of (map_by k (other source l r)) (kdKey d)"
  using assms by (auto simp: in_diffByKey source_of_def target_of_def picked_def other_def)

lemma entry_key:
  assumes "d \<in> set (diffByKey l r k eq)"
  shows "source_of source d = Some x \<Longrightarrow> k x = kdKey d" "target_of source d = Some x \<Longrightarrow> k x = kdKey d"
  using diff_entry [OF assms, of source] map_by_key by metis+

lemma map_of_diff:
  "map_of (map (\<lambda>d. (kdKey d, f (source_of source d) (target_of source d))) (diffByKey l r k eq)) n
   = (if n \<in> k ` set l \<union> k ` set r
      then Some (f (map_of (map_by k (picked source l r)) n) (map_of (map_by k (other source l r)) n)) else None)"
proof (cases "n \<in> k ` set l \<union> k ` set r")
  case True
  let ?d = "\<lparr>kdKey = n, kdStatus = member_status eq (map_of (map_by k l) n) (map_of (map_by k r) n),
    kdLeft = map_of (map_by k l) n, kdRight = map_of (map_by k r) n\<rparr>"
  let ?g = "\<lambda>d. (kdKey d, f (source_of source d) (target_of source d))"
  have d: "?d \<in> set (diffByKey l r k eq)" using True by (simp add: in_diffByKey)
  have "distinct (map fst (map ?g (diffByKey l r k eq)))"
    by (simp add: comp_def union_keys_sorted)
  moreover have "?g ?d \<in> set (map ?g (diffByKey l r k eq))" using imageI [OF d, of ?g] by (simp only: set_map)
  ultimately have "map_of (map ?g (diffByKey l r k eq)) (fst (?g ?d)) = Some (snd (?g ?d))"
    by (intro map_of_is_SomeI) (simp_all only: prod.collapse)
  with True diff_entry [OF d, of source] show ?thesis by simp
next
  case False
  then have "n \<notin> set (map kdKey (diffByKey l r k eq))"
    unfolding diffByKey_keys by (simp add: union_keys_set keys_map_by)
  then have "n \<notin> fst ` set (map (\<lambda>d. (kdKey d, f (source_of source d) (target_of source d))) (diffByKey l r k eq))"
    by (simp only: set_map image_image fst_conv not_False_eq_True)
  with False show ?thesis using map_of_eq_None_iff by metis
qed

text \<open>Both sides at once: the entries of a name that neither side has.\<close>

lemma no_entry:
  "n \<notin> k ` set l \<union> k ` set r \<Longrightarrow>
   map_of (map_by k (picked source l r)) n = None \<and> map_of (map_by k (other source l r)) n = None"
  by (simp add: map_by_None picked_def other_def)

lemma set_columns_simps [simp]:
  "ltColumns (set_columns m t) = m" "ltIndexes (set_columns m t) = ltIndexes t" "ltForeignKeys (set_columns m t) = ltForeignKeys t"
  "ltIndexes (set_indexes i t) = i" "ltColumns (set_indexes i t) = ltColumns t" "ltForeignKeys (set_indexes i t) = ltForeignKeys t"
  "ltForeignKeys (set_fks f t) = f" "ltColumns (set_fks f t) = ltColumns t" "ltIndexes (set_fks f t) = ltIndexes t"
  "set_columns m (set_columns m' t) = set_columns m t" "set_indexes i (set_indexes i' t) = set_indexes i t"
  "set_fks f (set_fks f' t) = set_fks f t" "set_columns (ltColumns t) t = t" "set_indexes (ltIndexes t) t = t"
  "set_fks (ltForeignKeys t) t = t"
  by (simp_all add: set_columns_def set_indexes_def set_fks_def)

lemma fun_upd_same: "m k = v \<Longrightarrow> m(k := v) = m"
  by auto

lemma new_column_desc_of: "new_column_desc (columnMetadataToNewColumn c) = column_desc_of c"
  by (simp add: new_column_desc_def columnMetadataToNewColumn_def column_desc_of_def)

lemma nc_name [simp]: "ncName (columnMetadataToNewColumn c) = colName c"
  by (simp add: columnMetadataToNewColumn_def)

text \<open>The keys of an entry's members.\<close>

lemma source_cases:
  assumes "d \<in> set (diffByKey l r k eq)"
  obtains (none) "source_of source d = None" | (some) x where "source_of source d = Some x" "k x = kdKey d"
  using entry_key(1) [OF assms, of source] by (cases "source_of source d") blast+

lemma target_cases:
  assumes "d \<in> set (diffByKey l r k eq)"
  obtains (none) "target_of source d = None" | (some) x where "target_of source d = Some x" "k x = kdKey d"
  using entry_key(2) [OF assms, of source] by (cases "target_of source d") blast+

lemma column_step:
  assumes "d \<in> set (diffByKey l r colName columnsEqual)"
    "ltColumns t (kdKey d) = map_option column_desc_of (target_of source d)"
  shows "run_steps edit_table (column_changes source s n d) t
    = Some (set_columns ((ltColumns t)(kdKey d :=
        merged_column (map_option column_desc_of (source_of source d)) (map_option column_desc_of (target_of source d)))) t)"
  using assms(2)
  by (cases rule: source_cases [OF assms(1), of source]; cases rule: target_cases [OF assms(1), of source])
    (simp_all add: column_changes_def merged_column_def add_at_def drop_at_def alter_at_def new_column_desc_of
      column_desc_of_def fun_upd_same)

lemma index_step:
  assumes "d \<in> set (diffByKey l r ixName indexesEqual)" "ltIndexes t (kdKey d) = index_desc_opt (target_of source d)"
  shows "run_steps edit_table (index_changes source s n d) t
    = Some (set_indexes ((ltIndexes t)(kdKey d := merged_index (source_of source d) (target_of source d))) t)"
proof (cases "is_primary (source_of source d) \<or> is_primary (target_of source d)")
  case True
  then have "index_changes source s n d = []"
    by (auto simp: index_changes_def is_primary_def Let_def split: option.splits)
  with True show ?thesis using assms(2) by (auto simp: merged_index_def fun_upd_same)
next
  case False
  have changes: "index_changes source s n d =
      (case target_of source d of Some tgt \<Rightarrow> [DropIndex s n (ixName tgt)] | None \<Rightarrow> [])
      @ (case source_of source d of Some src \<Rightarrow> [create_index_of s n src] | None \<Rightarrow> [])"
    using False by (simp add: index_changes_def is_primary_def Let_def split: option.splits)
  show ?thesis
    unfolding changes using False assms(2)
    by (cases rule: source_cases [OF assms(1), of source]; cases rule: target_cases [OF assms(1), of source])
      (simp_all add: merged_index_def index_desc_opt_def is_primary_def create_index_of_def index_desc_of_def
        add_at_def drop_at_def fun_upd_same)
qed

lemma fk_spec_simps:
  "foreignKeyAddOp fk = AddForeignKey (fk_spec fk)" "fksConstraintName (fk_spec fk) = Some (fkConstraintName fk)"
  by (simp_all add: fk_spec_def foreignKeyAddOp_def)

lemma fk_step:
  assumes "d \<in> set (diffByKey l r fkConstraintName foreignKeysEqual)"
    "ltForeignKeys t (kdKey d) = map_option fk_spec (target_of source d)"
  shows "run_steps edit_table (fk_changes source s n d) t
    = Some (set_fks ((ltForeignKeys t)(kdKey d := map_option fk_spec (source_of source d))) t)"
  using assms(2)
  by (cases rule: source_cases [OF assms(1), of source]; cases rule: target_cases [OF assms(1), of source])
    (simp_all add: fk_changes_def fk_spec_simps add_at_def drop_at_def fun_upd_same)

lemma new_index_step:
  assumes "d \<in> set (diffByKey l r ixName indexesEqual)" "ltIndexes t (kdKey d) = None"
  shows "run_steps edit_table (new_index_changes source s n d) t
    = Some (set_indexes ((ltIndexes t)(kdKey d := index_desc_opt (source_of source d))) t)"
  using assms(2)
  by (cases rule: source_cases [OF assms(1), of source])
    (simp_all add: new_index_changes_def index_desc_opt_def create_index_of_def index_desc_of_def add_at_def fun_upd_same)

lemma new_fk_step:
  assumes "d \<in> set (diffByKey l r fkConstraintName foreignKeysEqual)" "ltForeignKeys t (kdKey d) = None"
  shows "run_steps edit_table (new_fk_changes source s n d) t
    = Some (set_fks ((ltForeignKeys t)(kdKey d := map_option fk_spec (source_of source d))) t)"
  using assms(2)
  by (cases rule: source_cases [OF assms(1), of source])
    (simp_all add: new_fk_changes_def fk_spec_simps add_at_def fun_upd_same)

text \<open>All members of one kind, over the whole comparison.\<close>

lemma members_result:
  assumes "\<And>n. n \<notin> k ` set l \<union> k ` set r \<Longrightarrow> view n = f None None"
  shows "(\<lambda>n. case map_of (map (\<lambda>d. (kdKey d, f (source_of source d) (target_of source d))) (diffByKey l r k eq)) n of
      None \<Rightarrow> view n | Some v \<Rightarrow> v)
    = (\<lambda>n. f (map_of (map_by k (picked source l r)) n) (map_of (map_by k (other source l r)) n))"
  by (rule ext) (use assms no_entry [of _ k l r source] in \<open>auto simp: map_of_diff\<close>)

lemma diff_distinct: "distinct (map kdKey (diffByKey l r k eq))"
  by (simp add: union_keys_sorted)

context keyed_state
begin

lemma each_entry:
  assumes "view s = (\<lambda>n. g (map_of (map_by k (other source l r)) n))" "f None None = g None"
    "\<And>d s'. d \<in> set (diffByKey l r k eq) \<Longrightarrow> view s' (kdKey d) = g (target_of source d) \<Longrightarrow>
       run_steps step (changes d) s' = Some (put ((view s')(kdKey d := f (source_of source d) (target_of source d))) s')"
  shows "run_steps step (concat (map changes (diffByKey l r k eq))) s
    = Some (put (\<lambda>n. f (map_of (map_by k (picked source l r)) n) (map_of (map_by k (other source l r)) n)) s)"
proof -
  have "view s (kdKey d) = g (target_of source d)" if "d \<in> set (diffByKey l r k eq)" for d
    using diff_entry(2) [OF that] by (simp add: assms(1))
  then have run: "run_steps step (concat (map changes (diffByKey l r k eq))) s
    = Some (put (\<lambda>n. case map_of (map (\<lambda>d. (kdKey d, f (source_of source d) (target_of source d))) (diffByKey l r k eq)) n of
        None \<Rightarrow> view s n | Some v \<Rightarrow> v) s)"
    using diff_distinct assms(3) by (intro each_member [where old = "\<lambda>d. g (target_of source d)"]) simp_all
  have "view s n = f None None" if "n \<notin> k ` set l \<union> k ` set r" for n
    using no_entry [OF that, of source] by (simp add: assms(1,2))
  with members_result [of k l r "view s" f source eq] run show ?thesis by simp
qed

end

lemma columns_reconciled:
  assumes "ltColumns t = (\<lambda>n. map_option column_desc_of (map_of (map_by colName (other source l r)) n))"
  shows "run_steps edit_table (concat (map (column_changes source s n) (diffByKey l r colName columnsEqual))) t
    = Some (set_columns (\<lambda>n. merged_column (map_option column_desc_of (map_of (map_by colName (picked source l r)) n))
        (map_option column_desc_of (map_of (map_by colName (other source l r)) n))) t)"
  by (rule columns.each_entry [where g = "map_option column_desc_of"
        and f = "\<lambda>x y. merged_column (map_option column_desc_of x) (map_option column_desc_of y)"])
    (simp_all add: assms merged_column_def column_step)

lemma indexes_reconciled:
  assumes "ltIndexes t = (\<lambda>n. index_desc_opt (map_of (map_by ixName (other source l r)) n))"
  shows "run_steps edit_table (concat (map (index_changes source s n) (diffByKey l r ixName indexesEqual))) t
    = Some (set_indexes (\<lambda>n. merged_index (map_of (map_by ixName (picked source l r)) n)
        (map_of (map_by ixName (other source l r)) n)) t)"
  by (rule indexes.each_entry [where g = index_desc_opt and f = merged_index])
    (simp_all add: assms merged_index_def index_step)

lemma fks_reconciled:
  assumes "ltForeignKeys t = (\<lambda>n. map_option fk_spec (map_of (map_by fkConstraintName (other source l r)) n))"
  shows "run_steps edit_table (concat (map (fk_changes source s n) (diffByKey l r fkConstraintName foreignKeysEqual))) t
    = Some (set_fks (\<lambda>n. map_option fk_spec (map_of (map_by fkConstraintName (picked source l r)) n)) t)"
  by (rule foreign_keys.each_entry [where g = "map_option fk_spec" and f = "\<lambda>x y. map_option fk_spec x"])
    (simp_all add: assms fk_step)

lemma new_indexes:
  assumes "ltIndexes t = Map.empty"
  shows "run_steps edit_table (concat (map (new_index_changes source s n) (diffByKey l r ixName indexesEqual))) t
    = Some (set_indexes (\<lambda>n. index_desc_opt (map_of (map_by ixName (picked source l r)) n)) t)"
  by (rule indexes.each_entry [where g = "\<lambda>x. None" and f = "\<lambda>x y. index_desc_opt x"])
    (simp_all add: assms new_index_step, simp add: index_desc_opt_def)

lemma new_fks:
  assumes "ltForeignKeys t = Map.empty"
  shows "run_steps edit_table (concat (map (new_fk_changes source s n) (diffByKey l r fkConstraintName foreignKeysEqual))) t
    = Some (set_fks (\<lambda>n. map_option fk_spec (map_of (map_by fkConstraintName (picked source l r)) n)) t)"
  by (rule foreign_keys.each_entry [where g = "\<lambda>x. None" and f = "\<lambda>x y. map_option fk_spec x"])
    (simp_all add: assms new_fk_step)

text \<open>Changes inside a table, as changes of the schema.\<close>

definition inside :: "string \<Rightarrow> string \<Rightarrow> ddl_request \<Rightarrow> bool" where
  "inside s n c \<longleftrightarrow> place c = (s, n) \<and> (case c of AlterTable a b d \<Rightarrow> True | CreateIndex r \<Rightarrow> True | DropIndex a b d \<Rightarrow> True | _ \<Rightarrow> False)"

lemma edit_inside:
  "inside s n c \<Longrightarrow> edit_schema s c live = Option.bind (live n) (\<lambda>t. map_option (\<lambda>t'. live(n \<mapsto> t')) (edit_table c t))"
  by (cases c) (simp_all add: inside_def edit_schema_def)

lemma run_inside:
  "list_all (inside s n) cs \<Longrightarrow> live n = Some t \<Longrightarrow>
   run_steps (edit_schema s) cs live = map_option (\<lambda>t'. live(n \<mapsto> t')) (run_steps edit_table cs t)"
proof (induction cs arbitrary: live t)
  case Nil
  then show ?case by (auto simp: fun_eq_iff)
next
  case (Cons c cs)
  have "inside s n c" using Cons.prems by simp
  note step = edit_inside [OF this, of live]
  show ?case
  proof (cases "edit_table c t")
    case None
    then show ?thesis using Cons.prems by (simp add: step)
  next
    case (Some a)
    have "run_steps (edit_schema s) cs (live(n \<mapsto> a)) = map_option (\<lambda>t'. (live(n \<mapsto> a))(n \<mapsto> t')) (run_steps edit_table cs a)"
      by (rule Cons.IH) (use Cons.prems in simp_all)
    then show ?thesis using Some Cons.prems by (simp add: step del: fun_upd_apply)
  qed
qed

lemma changes_inside:
  "list_all (inside s n) (concat (map (column_changes source s n) cs))"
  "list_all (inside s n) (concat (map (index_changes source s n) is))"
  "list_all (inside s n) (concat (map (fk_changes source s n) fs))"
  "list_all (inside s n) (concat (map (new_index_changes source s n) is))"
  "list_all (inside s n) (concat (map (new_fk_changes source s n) fs))"
  by (auto simp: list_all_iff inside_def column_changes_def index_changes_def fk_changes_def new_index_changes_def
      new_fk_changes_def create_index_of_def Let_def split: option.splits if_splits)

lemma picked_map_by: "members f (if source = LeftSide then x else y) = picked source (members f x) (members f y)"
  "members f (if source = LeftSide then y else x) = other source (members f x) (members f y)"
  by (simp_all add: picked_def other_def)

lemma new_columns:
  fixes ds :: "column_metadata keyed_diff list"
  assumes "ds = diffByKey l r colName columnsEqual"
  shows "distinct (map ncName (map columnMetadataToNewColumn (List.map_filter (source_of source) ds)))"
    "map_of (map (\<lambda>c. (ncName c, new_column_desc c)) (map columnMetadataToNewColumn (List.map_filter (source_of source) ds)))
      = (\<lambda>n. map_option column_desc_of (map_of (map_by colName (picked source l r)) n))"
proof -
  have keys: "source_of source d = Some x \<Longrightarrow> colName x = kdKey d" if "d \<in> set ds" for d x
    using entry_key(1) that assms by metis
  have filter: "map colName (List.map_filter (source_of source) es) = map kdKey (filter (\<lambda>d. source_of source d \<noteq> None) es)"
    if "set es \<subseteq> set ds" for es
    using that keys by (induction es) (auto simp: map_filter_simps)
  have "distinct (map kdKey ds)" unfolding assms by (rule diff_distinct)
  then show "distinct (map ncName (map columnMetadataToNewColumn (List.map_filter (source_of source) ds)))"
    using filter [of ds] by (simp add: comp_def distinct_map_filter)
  have "map_of (map (\<lambda>c. (colName c, column_desc_of c)) (List.map_filter (source_of source) es)) n
      = Option.bind (map_of (map (\<lambda>d. (kdKey d, source_of source d)) es) n) (map_option column_desc_of)"
    if "set es \<subseteq> set ds" "distinct (map kdKey es)" for es n
    using that
  proof (induction es)
    case Nil
    then show ?case by (simp add: map_filter_simps)
  next
    case (Cons d es)
    have none: "map_of (map (\<lambda>d. (kdKey d, source_of source d)) es) (kdKey d) = None"
      using Cons.prems(2) by (auto simp: map_of_eq_None_iff image_iff)
    show ?case
      using Cons none keys [of d] by (cases "source_of source d") (auto simp: map_filter_simps)
  qed
  from this [of ds] \<open>distinct (map kdKey ds)\<close>
  have "map_of (map (\<lambda>c. (colName c, column_desc_of c)) (List.map_filter (source_of source) ds)) n
      = Option.bind (map_of (map (\<lambda>d. (kdKey d, source_of source d)) ds) n) (map_option column_desc_of)" for n
    by simp
  moreover have "Option.bind (map_of (map (\<lambda>d. (kdKey d, source_of source d)) ds) n) (map_option column_desc_of)
      = map_option column_desc_of (map_of (map_by colName (picked source l r)) n)" for n
    using map_of_diff [of "\<lambda>x y. x" source l r colName columnsEqual n] no_entry [of n colName l r source]
    by (auto simp: assms)
  ultimately show "map_of (map (\<lambda>c. (ncName c, new_column_desc c)) (map columnMetadataToNewColumn (List.map_filter (source_of source) ds)))
      = (\<lambda>n. map_option column_desc_of (map_of (map_by colName (picked source l r)) n))"
    by (simp add: fun_eq_iff comp_def new_column_desc_of)
qed

definition merged_entry :: "resolved_table option \<Rightarrow> resolved_table option \<Rightarrow> table_desc option" where
  "merged_entry s t =
     (case (s, t) of
        (None, _) \<Rightarrow> None
      | (Some s, None) \<Rightarrow> Some (table_desc_of s)
      | (Some s, Some t) \<Rightarrow> Some (merged_table s t))"

lemma diff_table_simps [simp]:
  "tdName (diff_table n l r) = n" "tdExistsLeft (diff_table n l r) \<longleftrightarrow> l \<noteq> None" "tdExistsRight (diff_table n l r) \<longleftrightarrow> r \<noteq> None"
  "tdColumns (diff_table n l r) = diffByKey (members rtColumns l) (members rtColumns r) colName columnsEqual"
  "tdIndexes (diff_table n l r) = diffByKey (members rtIndexes l) (members rtIndexes r) ixName indexesEqual"
  "tdForeignKeys (diff_table n l r) = diffByKey (members rtForeignKeys l) (members rtForeignKeys r) fkConstraintName foreignKeysEqual"
  by (simp_all add: diff_table_def Let_def)

lemma picked_members:
  "picked source (members f l) (members f r) = members f (picked source l r)"
  "other source (members f l) (members f r) = members f (other source l r)"
  by (simp_all add: picked_def other_def)

lemma table_changes_cases:
  "table_changes source s (diff_table n l r) =
     (let ixs = diffByKey (members rtIndexes l) (members rtIndexes r) ixName indexesEqual;
          fks = diffByKey (members rtForeignKeys l) (members rtForeignKeys r) fkConstraintName foreignKeysEqual in
      case (picked source l r, other source l r) of
        (Some x, None) \<Rightarrow> create_table_of source s (diff_table n l r)
          # concat (map (new_index_changes source s n) ixs) @ concat (map (new_fk_changes source s n) fks)
      | (None, Some y) \<Rightarrow> [DropTable s n]
      | (None, None) \<Rightarrow> []
      | (Some x, Some y) \<Rightarrow>
          concat (map (column_changes source s n)
              (diffByKey (members rtColumns l) (members rtColumns r) colName columnsEqual))
          @ concat (map (index_changes source s n) ixs) @ concat (map (fk_changes source s n) fks))"
  by (cases source; cases l; cases r) (simp_all add: table_changes_def picked_def other_def Let_def)

lemma picked_maps:
  assumes "picked source l r = Some src"
  shows "map_of (map_by colName (picked source (members rtColumns l) (members rtColumns r))) = col_at src"
    "map_of (map_by ixName (picked source (members rtIndexes l) (members rtIndexes r))) = ix_at src"
    "map_of (map_by fkConstraintName (picked source (members rtForeignKeys l) (members rtForeignKeys r))) = fk_at src"
  using assms by (simp_all add: picked_members col_at_def ix_at_def fk_at_def) (simp_all add: members_def)

lemma other_maps:
  assumes "other source l r = Some tgt"
  shows "map_of (map_by colName (other source (members rtColumns l) (members rtColumns r))) = col_at tgt"
    "map_of (map_by ixName (other source (members rtIndexes l) (members rtIndexes r))) = ix_at tgt"
    "map_of (map_by fkConstraintName (other source (members rtForeignKeys l) (members rtForeignKeys r))) = fk_at tgt"
  using assms by (simp_all add: picked_members col_at_def ix_at_def fk_at_def) (simp_all add: members_def)

definition bare :: "table_desc \<Rightarrow> table_desc" where
  "bare t = \<lparr>ltColumns = ltColumns t, ltIndexes = Map.empty, ltForeignKeys = Map.empty\<rparr>"

lemma created_table:
  assumes "picked source l r = Some src" "live n = None"
  shows "edit_schema s (create_table_of source s (diff_table n l r)) live = Some (live(n \<mapsto> bare (table_desc_of src)))"
proof -
  let ?ds = "diffByKey (members rtColumns l) (members rtColumns r) colName columnsEqual"
  note new = new_columns [of ?ds "members rtColumns l" "members rtColumns r" source, OF refl, unfolded picked_maps(1) [OF assms(1)]]
  then show ?thesis
    using assms(2)
    by (simp add: create_table_of_def edit_schema_def add_at_def new_table_desc_def table_desc_of_def bare_def Let_def del: map_map)
qed

lemma new_table_filled:
  assumes "picked source l r = Some src"
  shows "run_steps edit_table
      (concat (map (new_index_changes source s n) (diffByKey (members rtIndexes l) (members rtIndexes r) ixName indexesEqual))
       @ concat (map (new_fk_changes source s n)
           (diffByKey (members rtForeignKeys l) (members rtForeignKeys r) fkConstraintName foreignKeysEqual)))
      (bare (table_desc_of src)) = Some (table_desc_of src)"
  by (simp add: run_steps_append bare_def new_indexes new_fks picked_maps [OF assms] table_desc_of_def set_indexes_def set_fks_def)

lemma table_merged:
  assumes "picked source l r = Some src" "other source l r = Some tgt"
  shows "run_steps edit_table
      (concat (map (column_changes source s n) (diffByKey (members rtColumns l) (members rtColumns r) colName columnsEqual))
       @ concat (map (index_changes source s n) (diffByKey (members rtIndexes l) (members rtIndexes r) ixName indexesEqual))
       @ concat (map (fk_changes source s n)
           (diffByKey (members rtForeignKeys l) (members rtForeignKeys r) fkConstraintName foreignKeysEqual)))
      (table_desc_of tgt) = Some (merged_table src tgt)"
proof -
  note maps = picked_maps [OF assms(1)] other_maps [OF assms(2)]
  note parts = columns_reconciled [of _ source "members rtColumns l" "members rtColumns r", unfolded maps]
    indexes_reconciled [of _ source "members rtIndexes l" "members rtIndexes r", unfolded maps]
    fks_reconciled [of _ source "members rtForeignKeys l" "members rtForeignKeys r", unfolded maps]
  have "ltColumns (table_desc_of tgt) = (\<lambda>k. map_option column_desc_of (col_at tgt k))"
    "ltIndexes (table_desc_of tgt) = (\<lambda>k. index_desc_opt (ix_at tgt k))"
    "ltForeignKeys (table_desc_of tgt) = (\<lambda>k. map_option fk_spec (fk_at tgt k))"
    by (simp_all add: table_desc_of_def)
  then show ?thesis
    by (simp add: run_steps_append parts)
      (simp add: set_columns_def set_indexes_def set_fks_def merged_table_def table_desc_of_def)
qed

lemma table_step:
  assumes "live n = map_option table_desc_of (other source l r)"
  shows "run_steps (edit_schema s) (table_changes source s (diff_table n l r)) live
    = Some (live(n := merged_entry (picked source l r) (other source l r)))"
proof (cases "picked source l r")
  case None
  then show ?thesis
    using assms
    by (cases "other source l r") (simp_all add: table_changes_cases Let_def merged_entry_def fun_upd_same edit_schema_def drop_at_def)
next
  case (Some src)
  show ?thesis
  proof (cases "other source l r")
    case None
    let ?live = "live(n \<mapsto> bare (table_desc_of src))"
    have "edit_schema s (create_table_of source s (diff_table n l r)) live = Some ?live"
      using created_table [OF Some] assms None by simp
    moreover have "run_steps (edit_schema s)
       (concat (map (new_index_changes source s n) (diffByKey (members rtIndexes l) (members rtIndexes r) ixName indexesEqual))
         @ concat (map (new_fk_changes source s n)
             (diffByKey (members rtForeignKeys l) (members rtForeignKeys r) fkConstraintName foreignKeysEqual))) ?live
      = Some (live(n \<mapsto> table_desc_of src))"
      by (subst run_inside [of s n _ _ "bare (table_desc_of src)"])
        (simp_all add: changes_inside new_table_filled [OF Some])
    ultimately show ?thesis
      using Some None by (simp add: table_changes_cases Let_def merged_entry_def)
  next
    case tgt: (Some tgt)
    have live: "live n = Some (table_desc_of tgt)" using assms tgt by simp
    note merged = table_merged [OF Some tgt]
    show ?thesis
      unfolding table_changes_cases Let_def Some tgt merged_entry_def prod.case option.case
      by (subst run_inside [of s n _ live "table_desc_of tgt"])
        (simp_all only: live list_all_append changes_inside merged option.map simp_thms)
  qed
qed

lemma keep_keys:
  assumes "keys_agree S T" "table_at S n = Some s" "table_at T n = Some t"
  shows "merged_table s t = table_desc_of s"
proof -
  have flags: "col_at s k = Some a \<Longrightarrow> col_at t k = Some b \<Longrightarrow> isPrimaryKey a = isPrimaryKey b \<and> autoIncrement a = autoIncrement b"
    and prim: "is_primary (ix_at s k) = is_primary (ix_at t k)" for k a b
    using assms by (simp_all add: keys_agree_def)
  have "merged_column (map_option column_desc_of (col_at s k)) (map_option column_desc_of (col_at t k))
      = map_option column_desc_of (col_at s k)" for k
    by (cases "col_at s k"; cases "col_at t k") (auto simp: merged_column_def column_desc_of_def dest: flags)
  moreover have "merged_index (ix_at s k) (ix_at t k) = index_desc_opt (ix_at s k)" for k
    using prim [of k]
    by (auto simp: merged_index_def index_desc_opt_def is_primary_def split: option.splits)
  ultimately show ?thesis by (simp add: merged_table_def table_desc_of_def)
qed

lemma merged_schema_agree:
  assumes "keys_agree S T"
  shows "merged_schema S T = schema_desc_of S"
  by (rule ext) (simp add: merged_schema_def schema_desc_of_def keep_keys [OF assms] split: option.split)

text \<open>
  C31. The change-set is an edit script from the target to the source. Its requests, read in order as edits of the
  target's description, are all possible - nothing that is there is added, nothing that is absent is dropped or
  altered - and lead to the source's description: the same tables, columns, secondary indexes and foreign keys,
  with no table or member of the target left over, up to the key and auto-increment flags and the primary-key
  index of a table both sides have, which the change-set leaves alone; where the two sides agree on those, to
  exactly the source's. Whether an engine accepts the statements is not said: dependencies between a column, its
  indexes and its keys are no part of a description.
\<close>

theorem change_set_edits_to_source:
  assumes "S = (if source = LeftSide then leftTables else rightTables)"
    "T = (if source = LeftSide then rightTables else leftTables)"
    "diff = buildSchemaDiff left leftTables right rightTables"
  shows "run_steps (edit_schema (target_schema source diff)) (buildMigrationCandidates diff source) (schema_desc_of T)
      = Some (merged_schema S T)
    \<and> (keys_agree S T \<longrightarrow> merged_schema S T = schema_desc_of S)"
proof -
  let ?l = "table_at leftTables" and ?r = "table_at rightTables"
  let ?ns = "union_keys (map_by rtName leftTables) (map_by rtName rightTables)"
  let ?s = "target_schema source diff"
  let ?new = "\<lambda>n. merged_entry (picked source (?l n) (?r n)) (other source (?l n) (?r n))"
  have tables: "sdTables diff = map (\<lambda>n. diff_table n (?l n) (?r n)) ?ns"
    by (simp add: assms(3) buildSchemaDiff_def Let_def table_at_def)
  have sides: "picked source (?l n) (?r n) = table_at S n" "other source (?l n) (?r n) = table_at T n" for n
    by (simp_all add: assms(1,2) picked_def other_def)
  have "run_steps (edit_schema ?s) (concat (map (table_changes source ?s) (sdTables diff))) (schema_desc_of T)
    = Some (\<lambda>k. case map_of (map (\<lambda>d. (tdName d, ?new (tdName d))) (sdTables diff)) k of
        None \<Rightarrow> schema_desc_of T k | Some v \<Rightarrow> v)"
  proof (rule tables.each_member [where old = "\<lambda>d. schema_desc_of T (tdName d)"])
    show "distinct (map tdName (sdTables diff))"
      by (simp add: tables comp_def union_keys_sorted)
  next
    fix d live
    assume d: "d \<in> set (sdTables diff)" "live (tdName d) = schema_desc_of T (tdName d)"
    then obtain n where n: "d = diff_table n (?l n) (?r n)" by (auto simp: tables)
    then show "run_steps (edit_schema ?s) (table_changes source ?s d) live = Some (live(tdName d := ?new (tdName d)))"
      using table_step [of live n source "?l n" "?r n" ?s] d(2) by (simp add: n schema_desc_of_def sides)
  qed (rule refl)
  moreover have "(\<lambda>k. case map_of (map (\<lambda>d. (tdName d, ?new (tdName d))) (sdTables diff)) k of
      None \<Rightarrow> schema_desc_of T k | Some v \<Rightarrow> v) = merged_schema S T"
  proof
    fix k
    have "table_at T k = None \<and> table_at S k = None" if "k \<notin> set ?ns"
      using that by (auto simp: assms(1,2) union_keys_set keys_map_by table_at_def map_by_None)
    then show "(case map_of (map (\<lambda>d. (tdName d, ?new (tdName d))) (sdTables diff)) k of
        None \<Rightarrow> schema_desc_of T k | Some v \<Rightarrow> v) = merged_schema S T k"
      by (auto simp: tables comp_def map_of_map_restrict restrict_map_def sides merged_schema_def merged_entry_def
          schema_desc_of_def split: option.split)
  qed
  ultimately show ?thesis
    using merged_schema_agree by (simp add: buildMigrationCandidates_def)
qed

definition example_column :: "string \<Rightarrow> string \<Rightarrow> column_metadata" where
  "example_column n ty = \<lparr>colName = n, dataType = ty, nullable = True, isPrimaryKey = False, autoIncrement = False,
     defaultValue = None, colComment = None, nativeType = None, nativeDefinition = None\<rparr>"

definition example_table :: "string \<Rightarrow> index_metadata list \<Rightarrow> resolved_table" where
  "example_table ty ixs = \<lparr>rtName = ''t'', rtColumns = [example_column ''a'' ty], rtIndexes = ixs, rtForeignKeys = []\<rparr>"

lemmas diff_eval = buildSchemaDiff_def diff_table_def diffByKey_def union_keys_def map_by_def jm_keys_def Let_def members_def
  member_status_def example_table_def example_column_def buildMigrationCandidates_def table_changes_def target_schema_def
  column_changes_def index_changes_def source_of_def target_of_def

theorem buildSchemaDiff_exact_witness:
  "map tdStatus (sdTables (buildSchemaDiff \<lparr>srConnection = ''c'', srSchema = ''s''\<rparr> [example_table ''integer'' []]
      \<lparr>srConnection = ''d'', srSchema = ''s''\<rparr> [example_table ''integer'' []])) = [Unchanged]"
proof -
  have wn: "well_named [example_table ''integer'' []]" by (simp add: well_named_def example_table_def)
  show ?thesis
    using buildSchemaDiff_exact [OF wn wn, of "\<lparr>srConnection = ''c'', srSchema = ''s''\<rparr>" "\<lparr>srConnection = ''d'', srSchema = ''s''\<rparr>"]
    by (auto simp: same_shape_def example_table_def map_eq_Cons_conv)
qed

lemma example_candidates:
  "buildMigrationCandidates (buildSchemaDiff l [example_table ''bigint'' []] r [example_table ''integer'' []]) LeftSide
   = [AlterTable (srSchema r) ''t'' (ChangeType ''a'' ''bigint'' None)]"
  by (simp add: diff_eval columnsEqual_def)

theorem change_set_edits_to_source_witness:
  "run_steps (edit_schema ''s'') [AlterTable ''s'' ''t'' (ChangeType ''a'' ''bigint'' None)]
     (schema_desc_of [example_table ''integer'' []]) = Some (schema_desc_of [example_table ''bigint'' []])"
proof -
  let ?r = "\<lparr>srConnection = ''d'', srSchema = ''s''\<rparr>"
  have "keys_agree [example_table ''bigint'' []] [example_table ''integer'' []]"
    by (auto simp: keys_agree_def table_at_def map_by_def example_table_def example_column_def ix_at_def col_at_def
        split: if_splits)
  then show ?thesis
    using change_set_edits_to_source [of _ LeftSide "[example_table ''bigint'' []]" "[example_table ''integer'' []]" _ _ ?r ?r,
        OF refl refl refl]
    by (simp add: example_candidates) (simp add: target_schema_def buildSchemaDiff_def Let_def)
qed

subsection \<open>What the service proposes\<close>

lemma keeps_if: "keeps R a \<Longrightarrow> keeps R b \<Longrightarrow> keeps R (if c then a else b)"
  by simp

lemma preview_sends:
  assumes "\<And>s t. keeps (sends P) (deColumns env s t)" "\<And>s t. keeps (sends P) (deStructure env s t)"
  shows "keeps (sends P) (preview env req)"
proof -
  have writable: "keeps (sends P) (ddl_writable env)"
    unfolding ddl_writable_def by (intro sending.keeps_intros keeps_if)
  have exists: "keeps (sends P) (assertTableExists env s t)" for s t
    unfolding assertTableExists_def by (intro sending.keeps_intros keeps_if assms)
  show ?thesis
    by (cases req) (auto simp: preview_def split_beta intro!: sending.keeps_bind sending.keeps_lift sending.keeps_ret
        writable exists assms)
qed

definition reads_only :: "(channel \<times> sql_fragment \<Rightarrow> bool) \<Rightarrow> 'd diff_env \<Rightarrow> bool" where
  "reads_only P env \<longleftrightarrow>
     (\<forall>c. keeps (sends P) (dfSchemas env c)) \<and> (\<forall>c s. keeps (sends P) (dfForeignKeys env c s))
     \<and> (\<forall>c s t. keeps (sends P) (dfIndexes env c s t))
     \<and> (\<forall>c s t. keeps (sends P) (deColumns (dfDdl env c) s t)) \<and> (\<forall>c s t. keeps (sends P) (deStructure (dfDdl env c) s t))"

lemma compare_sends: "reads_only P env \<Longrightarrow> keeps (sends P) (compare_schemas env userId left right)"
  unfolding compare_schemas_def resolveSchemaTables_def Let_def split_beta reads_only_def
  by (intro sending.keeps_intros) blast+

text \<open>What a candidate contributes: nothing, or itself with a statement its preview gave.\<close>

definition item_for :: "'d ddl_env \<Rightarrow> ddl_request \<Rightarrow> schema_diff_change_item list \<Rightarrow> bool" where
  "item_for env c is \<longleftrightarrow> is = [] \<or>
     (\<exists>v sql. fst (preview env c v) = Inr sql
        \<and> is = [\<lparr>itChange = c, itSql = sql, itDestructive = isDestructiveChange c\<rparr>])"

lemma migration_item_run: "\<exists>is. fst (migration_item env c w) = Inr is \<and> item_for env c is"
  unfolding migration_item_def item_for_def
  by (cases "preview env c w") (auto simp: eff_simps split: sum.splits, metis fst_conv)

lemma migration_items_run:
  "\<exists>iss. fst (each_eff (migration_item env) cs w) = Inr iss \<and> list_all2 (item_for env) cs iss"
proof (induction cs arbitrary: w)
  case Nil
  then show ?case by simp
next
  case (Cons c cs)
  obtain i w1 where one: "migration_item env c w = (Inr i, w1)" "item_for env c i"
    using migration_item_run [of env c w] by (metis prod.collapse)
  obtain iss w2 where "each_eff (migration_item env) cs w1 = (Inr iss, w2)" "list_all2 (item_for env) cs iss"
    using Cons.IH [of w1] by (metis prod.collapse)
  with one show ?case by (simp add: bind_eff_run)
qed

lemma destructive_iff:
  "isDestructiveChange c \<longleftrightarrow>
     (\<exists>s t. c = DropTable s t) \<or> (\<exists>s t i. c = DropIndex s t i)
     \<or> (\<exists>s t k. c = AlterTable s t (DropColumn k)) \<or> (\<exists>s t k. c = AlterTable s t (DropForeignKey k))"
  by (cases c rule: isDestructiveChange.cases) (auto split: alter_op.splits)

lemma items_subseq:
  "list_all2 (item_for env) cs iss \<Longrightarrow> subseq (map itChange (concat iss)) cs \<and>
     list_all (\<lambda>it. (itDestructive it \<longleftrightarrow>
         (\<exists>s t. itChange it = DropTable s t) \<or> (\<exists>s t i. itChange it = DropIndex s t i)
         \<or> (\<exists>s t c. itChange it = AlterTable s t (DropColumn c)) \<or> (\<exists>s t k. itChange it = AlterTable s t (DropForeignKey k)))
       \<and> (\<exists>v. fst (preview env (itChange it) v) = Inr (itSql it))) (concat iss)"
  by (induction rule: list_all2_induct) (auto simp: item_for_def destructive_iff)

text \<open>
  C32. A generated change-set is only proposed. It needs both connections to be the user's and of one engine, and
  sends nothing beyond the reads of the catalogue; what it returns are the candidates of the comparison, in their
  order, each with the statement its preview gave and marked destructive exactly when it drops a table, an index,
  a column or a foreign key.
\<close>

theorem generateMigration_proposes:
  assumes "reads_only P env" "generateMigration env userId left right source w = (r, w')"
  shows "sends P w w' \<and>
    (case r of
       Inr items \<Rightarrow>
         dfOwnership env userId (srConnection left) = Inr () \<and> dfOwnership env userId (srConnection right) = Inr ()
         \<and> deDriver (dfDdl env (srConnection left)) = deDriver (dfDdl env (srConnection right))
         \<and> (\<exists>diff. fst (compare_schemas env userId left right w) = Inr diff
              \<and> subseq (map itChange items) (buildMigrationCandidates diff source))
         \<and> list_all (\<lambda>it. (itDestructive it \<longleftrightarrow>
                (\<exists>s t. itChange it = DropTable s t) \<or> (\<exists>s t i. itChange it = DropIndex s t i)
                \<or> (\<exists>s t c. itChange it = AlterTable s t (DropColumn c)) \<or> (\<exists>s t k. itChange it = AlterTable s t (DropForeignKey k)))
              \<and> (\<exists>v. fst (preview (dfDdl env (srConnection (if source = LeftSide then right else left))) (itChange it) v)
                    = Inr (itSql it))) items
     | Inl err \<Rightarrow> fst (compare_schemas env userId left right w) = Inl err)"
proof -
  let ?target = "dfDdl env (srConnection (if source = LeftSide then right else left))"
  obtain c w1 where compare: "compare_schemas env userId left right w = (c, w1)" by fastforce
  have reads: "keeps (sends P) (migration_item ?target change)" for change
    using assms(1) unfolding migration_item_def reads_only_def
    by (intro sending.keeps_intros preview_sends) blast+
  have "keeps (sends P) (generateMigration env userId left right source)"
    unfolding generateMigration_def Let_def if_distrib [of srConnection, symmetric]
    by (intro sending.keeps_bind sending.keeps_each sending.keeps_ret reads compare_sends [OF assms(1)])
  then have sent: "sends P w w'" using assms(2) unfolding keeps_def by (metis snd_conv)
  show ?thesis
  proof (cases c)
    case (Inl err)
    then have "r = Inl err" using assms(2) compare by (auto simp: generateMigration_def eff_simps)
    then show ?thesis using compare sent Inl by simp
  next
    case (Inr diff)
    have gates: "dfOwnership env userId (srConnection left) = Inr ()" "dfOwnership env userId (srConnection right) = Inr ()"
      "deDriver (dfDdl env (srConnection left)) = deDriver (dfDdl env (srConnection right))"
      using compare unfolding Inr compare_schemas_def assertSameEngine_def
      by (auto simp: res_simps require_def elim!: bind_eff_cases split: if_splits)
    obtain iss w2 where iss: "each_eff (migration_item ?target) (buildMigrationCandidates diff source) w1 = (Inr iss, w2)"
      "list_all2 (item_for ?target) (buildMigrationCandidates diff source) iss"
      using migration_items_run [of ?target "buildMigrationCandidates diff source" w1] by (metis prod.collapse)
    have "r = Inr (concat iss)"
      using assms(2) compare iss(1)
      by (simp add: generateMigration_def bind_eff_run Inr Let_def if_distrib [of srConnection])
    then show ?thesis
      using sent gates compare Inr items_subseq [OF iss(2)] by auto
  qed
qed

definition example_diff_env :: "nat diff_env" where
  "example_diff_env =
     \<lparr>dfOwnership = (\<lambda>u c. Inr ()), dfDdl = (\<lambda>c. example_ddl_env),
      dfSchemas = (\<lambda>c. ret [\<lparr>seName = ''s'', seTables = (if c = ''d'' then [(''t'', [])] else [])\<rparr>]),
      dfForeignKeys = (\<lambda>c s. ret []), dfIndexes = (\<lambda>c s t. ret [])\<rparr>"

lemma example_reads: "reads_only P example_diff_env"
  by (simp add: reads_only_def example_diff_env_def example_ddl_env_def sending.keeps_ret)

lemma sends_nothing: "sends (\<lambda>x. False) w w' \<Longrightarrow> wWire w' = wWire w"
  by (auto simp: sends_def) (metis list.exhaust list.pred_inject(2))

theorem generateMigration_proposes_witness:
  "wWire (snd (generateMigration example_diff_env ''u'' \<lparr>srConnection = ''c'', srSchema = ''s''\<rparr>
      \<lparr>srConnection = ''d'', srSchema = ''s''\<rparr> LeftSide example_world)) = []"
  using generateMigration_proposes [OF example_reads [of "\<lambda>x. False"] surjective_pairing, where userId = "''u''"
      and left = "\<lparr>srConnection = ''c'', srSchema = ''s''\<rparr>" and right = "\<lparr>srConnection = ''d'', srSchema = ''s''\<rparr>"
      and source = LeftSide and w = example_world, THEN conjunct1, THEN sends_nothing]
  by (simp add: example_world_def)

subsection \<open>Where the change-set goes wrong\<close>

text \<open>
  An index or a foreign key that is the same on both sides is dropped and created again: the change-set of two
  equal schemas is not empty.
\<close>

definition example_index :: index_metadata where
  "example_index = \<lparr>ixName = ''i'', ixColumns = [''a''], isUnique = False, isPrimary = False, ixMethod = ''btree'', ixDefinition = []\<rparr>"

lemma unchanged_index_recreated:
  "buildMigrationCandidates (buildSchemaDiff l [example_table ''integer'' [example_index]] r
       [example_table ''integer'' [example_index]]) LeftSide
   = [DropIndex (srSchema r) ''t'' ''i'', create_index_of (srSchema r) ''t'' example_index]"
  by (simp add: diff_eval columnsEqual_def example_index_def)

lemma self_unchanged:
  assumes "\<And>x. eq x x"
  shows "list_all (\<lambda>d. kdStatus d = Unchanged) (diffByKey xs xs k eq)"
  using assms by (auto simp: list_all_iff in_diffByKey member_status_def map_by_None split: option.splits)

lemma equal_tables_unchanged: "tdStatus (diff_table n (Some t) (Some t)) = Unchanged"
  by (simp add: diff_table_def Let_def members_def changed_status self_unchanged columnsEqual_def indexesEqual_def
      foreignKeysEqual_def)

text \<open>
  A column and an index on it that the source lacks are dropped in that order: PostgreSQL drops the index with the
  column, so that the request that drops it fails, and SQLite refuses to drop a column that is still indexed.
\<close>

lemma column_dropped_before_its_index:
  "buildMigrationCandidates (buildSchemaDiff l [example_table ''integer'' []\<lparr>rtColumns := []\<rparr>] r
       [example_table ''integer'' [example_index]]) LeftSide
   = [AlterTable (srSchema r) ''t'' (DropColumn ''a''), DropIndex (srSchema r) ''t'' ''i'']"
  by (simp add: diff_eval example_index_def)

text \<open>
  Foreign keys within two schemas of different names never compare equal, and what is added on the target refers to
  the source's schema.
\<close>

lemma foreign_key_of_source_schema:
  "fkReferencedSchema a \<noteq> fkReferencedSchema b \<Longrightarrow> \<not> foreignKeysEqual a b"
  "fksReferencedSchema (fk_spec a) = fkReferencedSchema a"
  by (simp_all add: foreignKeysEqual_def fk_spec_def foreignKeyAddOp_def)

text \<open>
  The candidates are previewed against the live target one by one: an index of a table that is still to be created is
  refused, because the live table has no columns, and silently left out.
\<close>

lemma new_table_index_dropped:
  assumes "deReadOnly env = Inr False" "deDriver env = Inr e" "deColumns env schema table = ret []" "ixColumns ix \<noteq> []"
  shows "fst (migration_item env (create_index_of schema table ix) w) = Inr []"
  using assms
  by (cases "ixColumns ix") (auto simp: migration_item_def preview_def create_index_of_def ddl_writable_def eff_simps
      check_index_columns_def require_def res_simps assertExists_def)

text \<open>On a read-only target every preview is refused, and the schemas look reconciled.\<close>

lemma read_only_target_looks_reconciled:
  assumes "deReadOnly env = Inr True"
  shows "fst (migration_item env change w) = Inr []"
  using assms by (simp add: migration_item_def preview_def ddl_writable_def eff_simps)

end
