(* ===== verification/AiService.thy ===== *)
theory AiService
  imports AiPrompt SchemaDiff
begin

text \<open>
  The assistant: what it is told of the schema (\<open>ai/retrieval.service.ts\<close>), whom it is asked as (the checks of \<open>ai/ai.service.ts\<close>),
  and what becomes of its answers. The language model is a parameter, a function from what is asked of it to its answer, and every
  call of it is logged; the reads of the catalogue and the previews run in the world of the services. Of a prompt, the wording is left
  out and what varies in it is kept.
\<close>

subsection \<open>Retrieval\<close>

record table_overview =
  toName :: string
  toRowEstimate :: "nat option"
  toComment :: "string option"

record 'd retrieval_env =
  reSchemas :: "('d world, (string \<times> string list) list) eff"
  reStructure :: "string \<Rightarrow> string \<Rightarrow> ('d world, table_structure) eff"
  reOverview :: "string \<Rightarrow> ('d world, table_overview list) eff"

definition DEFAULT_CONTEXT_CHARS :: nat where "DEFAULT_CONTEXT_CHARS = 24000"
definition MAX_INDEX_TABLES :: nat where "MAX_INDEX_TABLES = 5000"
definition MAX_TOOL_TABLES :: nat where "MAX_TOOL_TABLES = 15"

definition full_name :: "string \<times> string \<Rightarrow> string" where
  "full_name t = fst t @ ''.'' @ snd t"

definition listTables :: "'d retrieval_env \<Rightarrow> ('d world, (string \<times> string) list) eff" where
  "listTables env = bind_eff (reSchemas env) (\<lambda>schemas. ret (concat (map (\<lambda>(s, ts). map (\<lambda>t. (s, t)) ts) schemas)))"

definition index_header :: "nat \<Rightarrow> string" where
  "index_header n =
     ''-- All '' @ show_nat n @ '' tables in the database. Columns are NOT shown here '' @ em_dash @
     '' call the get_table_schema tool for a table's columns and foreign keys before referencing it.''"

definition index_line :: "string \<times> string \<Rightarrow> string" where
  "index_line t = ''--   '' @ full_name t"

text \<open>The lines that fit: the first table that would go over the budget ends the index. The dash of the header counts as one character.\<close>

fun index_lines :: "nat \<Rightarrow> nat \<Rightarrow> nat \<Rightarrow> (string \<times> string) list \<Rightarrow> (string \<times> string) list" where
  "index_lines maxChars used shown [] = []"
| "index_lines maxChars used shown (t # ts) =
     (if shown \<ge> MAX_INDEX_TABLES \<or> used + length (index_line t) > maxChars then []
      else t # index_lines maxChars (used + length (index_line t) + 1) (Suc shown) ts)"

definition context_of :: "nat \<Rightarrow> (string \<times> string) list \<Rightarrow> string" where
  "context_of maxChars tables =
     (if tables = [] then []
      else (let header = index_header (length tables); shown = index_lines maxChars (length header - 2) 0 tables;
                more = (if length shown < length tables
                  then [''--   '' @ ellipsis @ '' and '' @ show_nat (length tables - length shown) @ '' more tables (use get_table_schema by name)'']
                  else [])
            in header @ [CHR 0x0A] @ join [CHR 0x0A] (map index_line shown @ more)))"

definition buildContext :: "'d retrieval_env \<Rightarrow> nat option \<Rightarrow> ('d world, string) eff" where
  "buildContext env maxChars =
     bind_eff (listTables env) (\<lambda>tables. ret (context_of (default_to DEFAULT_CONTEXT_CHARS maxChars) tables))"

definition find_table :: "(string \<times> string) list \<Rightarrow> string \<Rightarrow> (string \<times> string) option" where
  "find_table tables raw =
     find (\<lambda>t. js_lower (full_name t) = js_lower raw \<or> js_lower (snd t) = js_lower raw) tables"

definition column_line :: "column_metadata \<Rightarrow> string" where
  "column_line c =
     ''  '' @ colName c @ '' '' @ column_metadata.dataType c @
     (if isPrimaryKey c then '' PRIMARY KEY'' else if \<not> column_metadata.nullable c then '' NOT NULL'' else [])"

definition foreign_key_line :: "foreign_key_metadata \<Rightarrow> string" where
  "foreign_key_line fk =
     ''  FOREIGN KEY ('' @ join '', '' (fkColumns fk) @ '') REFERENCES '' @
     (if truthy (fkReferencedSchema fk) then the (fkReferencedSchema fk) @ ''.'' @ fkReferencedTable fk else fkReferencedTable fk) @
     ''('' @ join '', '' (fkReferencedColumns fk) @ '')''"

definition index_comment :: "index_metadata \<Rightarrow> string" where
  "index_comment i =
     ''  -- INDEX '' @ ixName i @ '' ON ('' @ join '', '' (ixColumns i) @ '')'' @ (if isUnique i then '' UNIQUE'' else [])"

definition table_block :: "string \<times> string \<Rightarrow> table_structure \<Rightarrow> table_overview option \<Rightarrow> string" where
  "table_block t structure overview =
     (let nl = [CHR 0x0A];
          body = map column_line (tsColumns structure) @ map foreign_key_line (tsForeignKeys structure);
          indexes = join nl (map index_comment (filter (\<lambda>i. \<not> isPrimary i) (tsIndexes structure)));
          head = ''-- '' @ full_name t @
            (case overview of Some v \<Rightarrow> (case toRowEstimate v of Some n \<Rightarrow> '' (~'' @ show_nat n @ '' rows)'' | None \<Rightarrow> []) | None \<Rightarrow> []);
          commentLine = (case overview of
              Some v \<Rightarrow> if truthy (toComment v) then ''-- '' @ the (toComment v) @ nl else []
            | None \<Rightarrow> [])
      in head @ nl @ commentLine @ ''('' @ nl @ join ('','' @ nl) body @ nl @ '')'' @ (if indexes = [] then [] else nl @ indexes))"

definition loadOverview :: "'d retrieval_env \<Rightarrow> string \<Rightarrow> ('d world, table_overview list) eff" where
  "loadOverview env schema = catch_eff (reOverview env schema) (\<lambda>_. ret [])"

text \<open>The statistics of a schema are read once; of two tables of one name the last is kept, as in the map the code builds.\<close>

fun describe_names :: "'d retrieval_env \<Rightarrow> (string \<times> string) list \<Rightarrow> (string \<times> table_overview list) list \<Rightarrow> string list \<Rightarrow> ('d world, string list) eff" where
  "describe_names env tables cache [] = ret []"
| "describe_names env tables cache (raw # names) =
     (case find_table tables raw of
        None \<Rightarrow> bind_eff (describe_names env tables cache names) (\<lambda>bs. ret ((''-- '' @ raw @ '': no such table'') # bs))
      | Some t \<Rightarrow>
          bind_eff (case map_of cache (fst t) of
              Some v \<Rightarrow> ret v
            | None \<Rightarrow> loadOverview env (fst t)) (\<lambda>overview.
          bind_eff (reStructure env (fst t) (snd t)) (\<lambda>structure.
          bind_eff (describe_names env tables ((fst t, overview) # cache) names) (\<lambda>bs.
            ret (table_block t structure (find (\<lambda>v. toName v = snd t) (rev overview)) # bs)))))"

definition describeTables :: "'d retrieval_env \<Rightarrow> string list \<Rightarrow> ('d world, string) eff" where
  "describeTables env names =
     bind_eff (listTables env) (\<lambda>tables.
     bind_eff (describe_names env tables [] (take MAX_TOOL_TABLES names)) (\<lambda>blocks.
       ret (let text = join [CHR 0x0A, CHR 0x0A] blocks in if text = [] then ''-- no tables found'' else text)))"

subsection \<open>What is asked of the model\<close>

datatype prompt =
    ChatPrompt string string "string list"
  | ChartPrompt "(string \<times> string) list" "row list"
  | SchemaPrompt string string "string option" "sanitized_plan option" suggest_scope
  | DescribePrompt string string string string "string option"

record provider_call =
  pcBaseUrl :: string
  pcApiKey :: string
  pcModel :: string
  pcPrompt :: prompt
  pcMessages :: "(string \<times> string) list"
  pcMaxTokens :: "nat option"

record 'd ai_env =
  aiApp :: app_env
  aiDb :: app_db
  aiUser :: string
  aiConnection :: string
  aiReadOnly :: "bool res"
  aiLabel :: "string res"
  aiRetrieval :: "'d retrieval_env"
  aiDdl :: "'d ddl_env"
  aiLoosePreview :: "string \<Rightarrow> string \<Rightarrow> row \<Rightarrow> ('d world, string) eff"
  aiProvider :: "provider_call list \<Rightarrow> provider_call \<Rightarrow> string option"

record 'd ai_world =
  awWorld :: "'d world"
  awCalls :: "provider_call list"

definition in_world :: "('d world, 'a) eff \<Rightarrow> ('d ai_world, 'a) eff" where
  "in_world m = (\<lambda>s. case m (awWorld s) of (r, w) \<Rightarrow> (r, s\<lparr>awWorld := w\<rparr>))"

definition FEW_SHOT_LIMIT :: nat where "FEW_SHOT_LIMIT = 5"
definition FEW_SHOT_MAX_SQL_CHARS :: nat where "FEW_SHOT_MAX_SQL_CHARS = 600"
definition SUGGEST_MAX_TABLES :: nat where "SUGGEST_MAX_TABLES = 15"

definition resolveEndpoint :: "'d ai_env \<Rightarrow> string \<Rightarrow> string \<Rightarrow> decrypted_endpoint res" where
  "resolveEndpoint env endpointId model =
     res_bind (assertOwnership (aiUser env) (aiConnection env) (aiDb env)) (\<lambda>_.
     res_bind (getDecrypted (aiApp env) (aiUser env) endpointId (aiDb env)) (\<lambda>endpoint.
       if JStr model \<in> set (deModels endpoint) then Inr endpoint else Inl (BadRequest ''Model not available on this endpoint'')))"

definition complete :: "'d ai_env \<Rightarrow> provider_call \<Rightarrow> ('d ai_world, string) eff" where
  "complete env call =
     (\<lambda>s. (case aiProvider env (awCalls s) call of
         Some text \<Rightarrow> Inr text | None \<Rightarrow> Inl (ServiceUnavailable ''AI provider request failed.''),
       s\<lparr>awCalls := awCalls s @ [call]\<rparr>))"

definition call_with :: "decrypted_endpoint \<Rightarrow> string \<Rightarrow> prompt \<Rightarrow> (string \<times> string) list \<Rightarrow> nat option \<Rightarrow> provider_call" where
  "call_with endpoint model p messages maxTokens =
     \<lparr>pcBaseUrl = deBaseUrl endpoint, pcApiKey = deApiKey endpoint, pcModel = model, pcPrompt = p, pcMessages = messages,
      pcMaxTokens = maxTokens\<rparr>"

definition assert_writable :: "'d ai_env \<Rightarrow> unit res" where
  "assert_writable env =
     res_bind (aiReadOnly env) (\<lambda>readOnly. if readOnly then Inl (Forbidden ''This connection is read-only'') else Inr ())"

subsection \<open>Chat\<close>

definition recentQueryExamples :: "'d ai_env \<Rightarrow> string list" where
  "recentQueryExamples env =
     take FEW_SHOT_LIMIT (filter (\<lambda>sql. 0 < length sql \<and> length sql \<le> FEW_SHOT_MAX_SQL_CHARS)
       (map js_trim (map hdSql (map (toQueryHistoryDto (aiDb env)) (collapseConsecutiveDuplicates
         (take (FEW_SHOT_LIMIT * 3) (filter (\<lambda>h. hiConnectionId h = aiConnection env) (own_history (aiUser env) (aiDb env)))))))))"

definition prepareChat :: "'d ai_env \<Rightarrow> string \<Rightarrow> string \<Rightarrow> ('d ai_world, decrypted_endpoint \<times> prompt) eff" where
  "prepareChat env endpointId model =
     bind_eff (lift_res (resolveEndpoint env endpointId model)) (\<lambda>endpoint.
     bind_eff (in_world (buildContext (aiRetrieval env) (deContextBudget endpoint))) (\<lambda>schemaContext.
     bind_eff (lift_res (aiLabel env)) (\<lambda>label.
       ret (endpoint, ChatPrompt label schemaContext (recentQueryExamples env)))))"

text \<open>The text between the first SQL fence and the next fence.\<close>

definition fenced_sql :: "string \<Rightarrow> string option" where
  "fenced_sql content =
     (let fence = replicate 3 backtick; opening = fence @ ''sql'' @ [CHR 0x0A]
      in case find_sub opening content of
           None \<Rightarrow> None
         | Some i \<Rightarrow>
             (let rest = drop (i + length opening) content
              in case find_sub fence rest of None \<Rightarrow> None | Some j \<Rightarrow> Some (take j rest)))"

definition chat :: "'d ai_env \<Rightarrow> string \<Rightarrow> string \<Rightarrow> (string \<times> string) list \<Rightarrow> ('d ai_world, string \<times> string option) eff" where
  "chat env endpointId model messages =
     bind_eff (prepareChat env endpointId model) (\<lambda>(endpoint, p).
     bind_eff (complete env (call_with endpoint model p messages None)) (\<lambda>content.
       ret (content, map_option js_trim (fenced_sql content))))"

subsection \<open>Charts\<close>

definition suggestChart ::
  "'d ai_env \<Rightarrow> string \<Rightarrow> string \<Rightarrow> (string \<times> string) list \<Rightarrow> row list \<Rightarrow> ('d ai_world, chart_suggestion option) eff" where
  "suggestChart env endpointId model columns sample =
     bind_eff (lift_res (resolveEndpoint env endpointId model)) (\<lambda>endpoint.
     bind_eff (complete env (call_with endpoint model (ChartPrompt columns (sanitizeSample sample))
         [(''user'', ''Suggest a chart for this result.'')] (deMaxOutputTokens endpoint))) (\<lambda>content.
       ret (parseChartSuggestion content (map fst columns))))"

subsection \<open>Schema changes\<close>

text \<open>The pattern of a literal word between two word boundaries.\<close>

fun contains_word :: "bool \<Rightarrow> string \<Rightarrow> string \<Rightarrow> bool" where
  "contains_word in_word w s \<longleftrightarrow>
     (starts_with w s \<and> in_word \<noteq> word_starts s \<and>
      (if w = [] then in_word else word_char (last w)) \<noteq> word_starts (drop (length w) s)) \<or>
     (case s of [] \<Rightarrow> False | c # t \<Rightarrow> contains_word (word_char c) w t)"

declare contains_word.simps [simp del]

definition resolveTablesFromSql :: "string \<Rightarrow> (string \<times> string) list \<Rightarrow> string list" where
  "resolveTablesFromSql sql tables =
     (let haystack = js_lower sql in
      map full_name (filter (\<lambda>t. str_includes (js_lower (full_name t)) haystack \<or> contains_word False (js_lower (snd t)) haystack) tables))"

record suggest_request =
  sqEndpointId :: string
  sqModel :: string
  sqScope :: "suggest_scope option"
  sqTables :: "(string \<times> string) list"
  sqPlan :: "plan_result option"
  sqSql :: "string option"

definition resolveSuggestTables :: "'d ai_env \<Rightarrow> suggest_request \<Rightarrow> ('d world, string list) eff" where
  "resolveSuggestTables env req =
     (if sqTables req \<noteq> [] then ret (map full_name (take SUGGEST_MAX_TABLES (sqTables req)))
      else if \<not> truthy (sqSql req) then ret []
      else bind_eff (listTables (aiRetrieval env)) (\<lambda>tables.
        ret (take SUGGEST_MAX_TABLES (resolveTablesFromSql (the (sqSql req)) tables))))"

text \<open>
  An operation of a reply whose fields have the types the request declares; of any other one, what the preview makes of it is a parameter.
\<close>

definition bool_or_none :: "js_val \<Rightarrow> bool option" where
  "bool_or_none v = (case v of JBool b \<Rightarrow> Some b | _ \<Rightarrow> None)"

text \<open>An optional field: absent, or of its type.\<close>

definition optional_as :: "(js_val \<Rightarrow> 'a option) \<Rightarrow> js_val \<Rightarrow> 'a option option" where
  "optional_as f v = (if v = JUndef then Some None else map_option Some (f v))"

definition typed_column :: "js_val \<Rightarrow> new_column option" where
  "typed_column v =
     (let c = own_props v in
      case (text_or_none (get_prop c ''name''), text_or_none (get_prop c ''type''), bool_or_none (get_prop c ''nullable''),
            bool_or_none (get_prop c ''isPrimaryKey''), optional_as bool_or_none (get_prop c ''autoIncrement''),
            optional_as text_or_none (get_prop c ''default'')) of
        (Some n, Some t, Some b, Some pk, Some ai, Some d) \<Rightarrow>
          Some \<lparr>ncName = n, ncType = t, ncNullable = b, ncPrimaryKey = pk, ncAutoIncrement = (ai = Some True), ncDefault = d\<rparr>
      | _ \<Rightarrow> None)"

definition typed_operation :: "row \<Rightarrow> alter_op option" where
  "typed_operation op =
     (let kind = get_prop op ''kind'' in
      if kind = JStr ''addColumn'' then map_option AddColumn (typed_column (get_prop op ''column''))
      else (case text_or_none (get_prop op ''column'') of
          None \<Rightarrow> None
        | Some c \<Rightarrow>
            if kind = JStr ''setNotNull'' then map_option (SetNotNull c) (bool_or_none (get_prop op ''notNull''))
            else if kind = JStr ''setDefault'' then
              (if get_prop op ''default'' = JNull then Some (SetDefault c None)
               else map_option (\<lambda>d. SetDefault c (Some d)) (text_or_none (get_prop op ''default'')))
            else if kind = JStr ''changeType'' then
              (case (text_or_none (get_prop op ''type''), optional_as text_or_none (get_prop op ''using'')) of
                 (Some t, Some u) \<Rightarrow> Some (ChangeType c t u)
               | _ \<Rightarrow> None)
            else None))"

definition preview_change :: "'d ai_env \<Rightarrow> suggested_change \<Rightarrow> ('d world, string) eff" where
  "preview_change env change =
     (case change of
        SuggestIndex r \<Rightarrow> preview (aiDdl env) (CreateIndex r)
      | SuggestAlter schema table op \<Rightarrow>
          (case typed_operation op of
             Some o' \<Rightarrow> preview (aiDdl env) (AlterTable schema table o')
           | None \<Rightarrow> aiLoosePreview env schema table op))"

record schema_suggestion =
  ssChange :: suggested_change
  ssRationale :: string
  ssSql :: string

text \<open>A candidate whose preview fails is dropped.\<close>

fun preview_candidates :: "'d ai_env \<Rightarrow> (suggested_change \<times> string) list \<Rightarrow> ('d world, schema_suggestion list) eff" where
  "preview_candidates env [] = ret []"
| "preview_candidates env ((change, rationale) # cs) =
     bind_eff (catch_eff (bind_eff (preview_change env change) (\<lambda>sql.
           ret [\<lparr>ssChange = change, ssRationale = rationale, ssSql = sql\<rparr>])) (\<lambda>_. ret [])) (\<lambda>kept.
     bind_eff (preview_candidates env cs) (\<lambda>rest. ret (kept @ rest)))"

definition suggestSchemaChanges :: "'d ai_env \<Rightarrow> suggest_request \<Rightarrow> ('d ai_world, schema_suggestion list) eff" where
  "suggestSchemaChanges env req =
     (let scope = default_to WholeSchema (sqScope req) in
      bind_eff (lift_res (resolveEndpoint env (sqEndpointId req) (sqModel req))) (\<lambda>endpoint.
      bind_eff (lift_res (assert_writable env)) (\<lambda>_.
      bind_eff (in_world (resolveSuggestTables env req)) (\<lambda>tableNames.
      bind_eff (in_world (describeTables (aiRetrieval env) tableNames)) (\<lambda>schemaContext.
      bind_eff (lift_res (aiLabel env)) (\<lambda>label.
      bind_eff (complete env (call_with endpoint (sqModel req)
          (SchemaPrompt label schemaContext (if_truthy (sqSql req)) (map_option sanitizePlanForPrompt (sqPlan req)) scope)
          [(''user'', ''Suggest schema changes for this database.'')] (deMaxOutputTokens endpoint))) (\<lambda>content.
        in_world (preview_candidates env (parseSchemaSuggestions content scope)))))))))"

record describe_request =
  dqEndpointId :: string
  dqModel :: string
  dqSchema :: string
  dqTable :: string
  dqColumn :: "string option"

definition describeObject :: "'d ai_env \<Rightarrow> describe_request \<Rightarrow> ('d ai_world, string) eff" where
  "describeObject env req =
     bind_eff (lift_res (resolveEndpoint env (dqEndpointId req) (dqModel req))) (\<lambda>endpoint.
     bind_eff (lift_res (assert_writable env)) (\<lambda>_.
     bind_eff (in_world (describeTables (aiRetrieval env) [full_name (dqSchema req, dqTable req)])) (\<lambda>schemaContext.
     bind_eff (lift_res (aiLabel env)) (\<lambda>label.
     bind_eff (complete env (call_with endpoint (dqModel req)
         (DescribePrompt label schemaContext (dqSchema req) (dqTable req) (if_truthy (dqColumn req)))
         [(''user'', ''Write the description.'')] (deMaxOutputTokens endpoint))) (\<lambda>content.
       ret (normalizeDraftedComment content))))))"

subsection \<open>The streamed chat and its tool\<close>

definition MAX_TOOL_ROUNDS :: nat where "MAX_TOOL_ROUNDS = 5"

record tool_delta =
  tdIndex :: nat
  tdId :: "string option"
  tdName :: "string option"
  tdArgs :: "string option"

record chunk =
  ckContent :: "string option"
  ckCalls :: "tool_delta list"
  ckFinish :: "string option"
  ckUsage :: "(nat \<times> nat \<times> nat) option"

record pending_call =
  pdId :: string
  pdName :: string
  pdArgs :: string

text \<open>A message of the conversation with the provider: text of a role, the calls the model asked for, the result of one.\<close>

datatype chat_message =
    TextMessage string string
  | CallsMessage "pending_call list"
  | ToolMessage string string

text \<open>The provider answers a request with chunks, and may break off after them.\<close>

record 'd stream_env =
  seCalls :: "chat_message list \<Rightarrow> chunk list \<times> bool"
  seTool :: "row \<Rightarrow> ('d world, string) eff"

definition add_delta :: "(nat \<times> pending_call) list \<Rightarrow> tool_delta \<Rightarrow> (nat \<times> pending_call) list" where
  "add_delta pending tc =
     (let cur = default_to \<lparr>pdId = [], pdName = [], pdArgs = []\<rparr> (map_of pending (tdIndex tc));
          cur = (if truthy (tdId tc) then cur\<lparr>pdId := the (tdId tc)\<rparr> else cur);
          cur = (if truthy (tdName tc) then cur\<lparr>pdName := the (tdName tc)\<rparr> else cur);
          cur = (if truthy (tdArgs tc) then cur\<lparr>pdArgs := pdArgs cur @ the (tdArgs tc)\<rparr> else cur)
      in if tdIndex tc \<in> fst ` set pending then map (\<lambda>(i, c). if i = tdIndex tc then (i, cur) else (i, c)) pending
         else pending @ [(tdIndex tc, cur)])"

definition stream_deltas :: "chunk list \<Rightarrow> string list" where
  "stream_deltas chunks = concat (map (\<lambda>c. if truthy (ckContent c) then [the (ckContent c)] else []) chunks)"

definition pending_calls :: "chunk list \<Rightarrow> pending_call list" where
  "pending_calls chunks = map snd (foldl add_delta [] (concat (map ckCalls chunks)))"

definition finish_reason :: "chunk list \<Rightarrow> string option" where
  "finish_reason chunks = foldl (\<lambda>f c. if truthy (ckFinish c) then ckFinish c else f) None chunks"

definition TABLE_SCHEMA_TOOL :: string where "TABLE_SCHEMA_TOOL = ''get_table_schema''"

text \<open>\<open>tableSchemaTool\<close> and \<open>runTool\<close>, with the one tool of the service.\<close>

definition table_schema_tool :: "'d retrieval_env \<Rightarrow> row \<Rightarrow> ('d world, string) eff" where
  "table_schema_tool env args =
     (let tables = (case get_prop args ''tables'' of JArr vs \<Rightarrow> vs | _ \<Rightarrow> []);
          names = concat (map (\<lambda>v. case v of JStr s \<Rightarrow> [s] | _ \<Rightarrow> []) tables)
      in if names = [] then ret (''Provide a non-empty '' @ [CHR 0x22] @ ''tables'' @ [CHR 0x22] @ '' array of table names.'')
         else describeTables env names)"

definition runTool :: "'d stream_env \<Rightarrow> pending_call \<Rightarrow> ('d world, string) eff" where
  "runTool env call =
     (if pdName call \<noteq> TABLE_SCHEMA_TOOL then ret (''Unknown tool: '' @ pdName call)
      else catch_eff
        (bind_eff (lift_res (if pdArgs call = [] then Inr (JObj []) else
             (case json_parse (pdArgs call) of
                None \<Rightarrow> Inl (PlainError ''SyntaxError'')
              | Some JNull \<Rightarrow> Inl (PlainError ''Cannot read properties of null'')
              | Some v \<Rightarrow> Inr v))) (\<lambda>args. seTool env (own_props args)))
        (\<lambda>_. ret (''Error executing '' @ pdName call @ ''.'')))"

record 'd chat_stream_state =
  ssWorld :: "'d world"
  ssRequests :: "chat_message list list"
  ssDeltas :: "string list"
  ssUsage :: "nat \<times> nat \<times> nat"
  ssReported :: "(nat \<times> nat \<times> nat) option"

definition add_usage :: "nat \<times> nat \<times> nat \<Rightarrow> chunk \<Rightarrow> nat \<times> nat \<times> nat" where
  "add_usage acc c =
     (case (acc, ckUsage c) of
        ((p, q, t), Some (p', q', t')) \<Rightarrow> (p + p', q + q', t + t')
      | (_, None) \<Rightarrow> acc)"

definition ask_stream :: "'d stream_env \<Rightarrow> chat_message list \<Rightarrow> ('d chat_stream_state, chunk list) eff" where
  "ask_stream env messages = (\<lambda>s. case seCalls env messages of (chunks, broken) \<Rightarrow>
       (if broken then Inl (PlainError ''AI provider request failed'') else Inr chunks,
        s\<lparr>ssRequests := ssRequests s @ [messages], ssDeltas := ssDeltas s @ stream_deltas chunks,
          ssUsage := foldl add_usage (ssUsage s) chunks\<rparr>))"

definition run_tool_call :: "'d stream_env \<Rightarrow> pending_call \<Rightarrow> ('d chat_stream_state, chat_message) eff" where
  "run_tool_call env call =
     (\<lambda>s. case runTool env call (ssWorld s) of (r, w) \<Rightarrow> (res_map (ToolMessage (pdId call)) r, s\<lparr>ssWorld := w\<rparr>))"

fun stream_rounds :: "nat \<Rightarrow> 'd stream_env \<Rightarrow> bool \<Rightarrow> chat_message list \<Rightarrow> ('d chat_stream_state, unit) eff" where
  "stream_rounds 0 env tools messages = ret ()"
| "stream_rounds (Suc n) env tools messages =
     bind_eff (ask_stream env messages) (\<lambda>chunks.
       if finish_reason chunks \<noteq> Some ''tool_calls'' \<or> pending_calls chunks = [] \<or> \<not> tools then ret ()
       else (let calls = pending_calls chunks in
         bind_eff (each_eff (run_tool_call env) calls) (\<lambda>results.
           stream_rounds n env tools
             (messages @ [CallsMessage (map (\<lambda>c. if pdArgs c = [] then c\<lparr>pdArgs := ''{}''\<rparr> else c) calls)] @ results))))"

text \<open>However the rounds end, the usage the provider reported is passed on, if it reported any.\<close>

definition completeStream :: "'d stream_env \<Rightarrow> bool \<Rightarrow> string \<Rightarrow> (string \<times> string) list \<Rightarrow> ('d chat_stream_state, unit) eff" where
  "completeStream env tools systemPrompt messages =
     (\<lambda>s. case stream_rounds MAX_TOOL_ROUNDS env tools
             (TextMessage ''system'' systemPrompt # map (\<lambda>m. TextMessage (fst m) (snd m)) messages) (s\<lparr>ssUsage := (0, 0, 0)\<rparr>) of
        (r, s') \<Rightarrow> (r, if snd (snd (ssUsage s')) > 0 then s'\<lparr>ssReported := Some (ssUsage s')\<rparr> else s'))"

subsection \<open>Every suggestion is allowed and previewed\<close>

definition change_request :: "suggested_change \<Rightarrow> ddl_request option" where
  "change_request c =
     (case c of SuggestIndex r \<Rightarrow> Some (CreateIndex r)
      | SuggestAlter schema table op \<Rightarrow> map_option (AlterTable schema table) (typed_operation op))"

definition allowed_change :: "suggest_scope \<Rightarrow> suggested_change \<Rightarrow> bool" where
  "allowed_change scope c \<longleftrightarrow>
     (case c of
        SuggestIndex r \<Rightarrow> ciColumns r \<noteq> []
      | SuggestAlter schema table op \<Rightarrow> scope = WholeSchema \<and> (\<exists>k \<in> set SUGGESTABLE_ALTER_OPS. get_prop op ''kind'' = JStr k)) \<and>
     (case change_request c of None \<Rightarrow> True | Some req \<Rightarrow> \<not> isDestructiveChange req)"

lemma typed_not_destructive: "typed_operation op = Some x \<Longrightarrow> \<not> isDestructiveChange (AlterTable schema table x)"
  by (auto simp: typed_operation_def Let_def split: option.splits if_splits)

lemma text_or_none_Some: "text_or_none v = Some s \<longleftrightarrow> v = JStr s"
  by (cases v) (simp_all add: text_or_none_def)

lemma validateChange_allowed:
  assumes "validateChange v = Some c" "scope = IndexesOnly \<longrightarrow> (\<exists>r. c = SuggestIndex r)"
  shows "allowed_change scope c"
proof (cases c)
  case (SuggestIndex r)
  then have "ciColumns r \<noteq> []"
    using assms(1) by (auto simp: validateChange_def Let_def split: if_splits option.splits)
  then show ?thesis by (simp add: allowed_change_def SuggestIndex change_request_def)
next
  case (SuggestAlter schema table op)
  then have "\<exists>k \<in> set SUGGESTABLE_ALTER_OPS. get_prop op ''kind'' = JStr k"
    using assms(1) by (auto simp: validateChange_def Let_def text_or_none_Some split: if_splits option.splits)
  moreover have "scope = WholeSchema" using assms(2) SuggestAlter by (cases scope) auto
  ultimately show ?thesis
    using typed_not_destructive [of op]
    by (cases "typed_operation op") (auto simp: allowed_change_def SuggestAlter change_request_def)
qed

lemma suggestion_allowed:
  assumes "suggestion_of scope item = Some (c, rationale)"
  shows "allowed_change scope c \<and> rationale \<noteq> [] \<and> length rationale \<le> MAX_RATIONALE_CHARS"
proof -
  from assms obtain t where t: "js_trim t \<noteq> []" "rationale = take MAX_RATIONALE_CHARS (js_trim t)"
      "validateChange (get_prop (own_props item) ''change'') = Some c" "scope = IndexesOnly \<longrightarrow> (\<exists>r. c = SuggestIndex r)"
    by (auto simp: suggestion_of_def split: if_splits option.splits suggested_change.splits)
  moreover have "rationale \<noteq> []" using t by (simp add: MAX_RATIONALE_CHARS_def)
  ultimately show ?thesis using validateChange_allowed [OF t(3,4)] by (simp add: t(2))
qed

lemma collect_bounded:
  "length out \<le> MAX_SCHEMA_SUGGESTIONS \<Longrightarrow> \<forall>s \<in> set out. allowed_change scope (fst s) \<Longrightarrow>
   length (collect_suggestions scope out items) \<le> MAX_SCHEMA_SUGGESTIONS \<and>
   (\<forall>s \<in> set (collect_suggestions scope out items). allowed_change scope (fst s))"
proof (induction scope out items rule: collect_suggestions.induct)
  case (2 scope out item items)
  show ?case
  proof (cases "length out \<ge> MAX_SCHEMA_SUGGESTIONS")
    case False
    show ?thesis
    proof (cases "suggestion_of scope item")
      case None
      show ?thesis using "2.IH"(1) [OF False None "2.prems"] False by (simp add: None)
    next
      case (Some s)
      then have "allowed_change scope (fst s)" using suggestion_allowed [of scope item "fst s" "snd s"] by simp
      then have all: "\<forall>s \<in> set (out @ [s]). allowed_change scope (fst s)" using "2.prems"(2) by simp
      have len: "length (out @ [s]) \<le> MAX_SCHEMA_SUGGESTIONS" using False by simp
      have "collect_suggestions scope out (item # items) = collect_suggestions scope (out @ [s]) items" using False Some by simp
      then show ?thesis using "2.IH"(2) [OF False Some len all] by simp
    qed
  qed (use "2.prems" in simp)
qed simp

lemma parsed_bounded:
  "length (parseSchemaSuggestions content scope) \<le> MAX_SCHEMA_SUGGESTIONS \<and>
   (\<forall>s \<in> set (parseSchemaSuggestions content scope). allowed_change scope (fst s))"
proof (cases "\<exists>items. reply_json CHR ''['' CHR '']'' content = Some (JArr items)")
  case True
  then obtain items where "parseSchemaSuggestions content scope = collect_suggestions scope [] items"
    by (auto simp: parseSchemaSuggestions_def)
  then show ?thesis using collect_bounded [of "[]" scope items] by simp
next
  case False
  have "parseSchemaSuggestions content scope = []"
  proof (cases "reply_json CHR ''['' CHR '']'' content")
    case (Some v)
    with False show ?thesis by (cases v) (simp_all add: parseSchemaSuggestions_def)
  qed (simp add: parseSchemaSuggestions_def)
  then show ?thesis by simp
qed

lemma previewed_candidates:
  "preview_candidates env cs w = (Inr ss, w') \<Longrightarrow> length ss \<le> length cs \<and>
    (\<forall>x \<in> set ss. ssChange x \<in> fst ` set cs \<and> (\<exists>v. fst (preview_change env (ssChange x) v) = Inr (ssSql x)))"
proof (induction env cs arbitrary: w ss rule: preview_candidates.induct)
  case (2 env change rationale cs)
  obtain r w1 where p: "preview_change env change w = (r, w1)" by (cases "preview_change env change w")
  show ?case
  proof (cases r)
    case (Inl e)
    with 2(2) p have "preview_candidates env cs w1 = (Inr ss, w')" by (simp add: eff_simps split: prod.splits sum.splits)
    from 2(1) [OF this] show ?thesis by auto
  next
    case (Inr sql)
    with 2(2) p obtain ss' where ss: "preview_candidates env cs w1 = (Inr ss', w')"
        "ss = \<lparr>ssChange = change, ssRationale = rationale, ssSql = sql\<rparr> # ss'"
      by (auto simp: eff_simps split: prod.splits sum.splits)
    have "fst (preview_change env change w) = Inr sql" using p Inr by simp
    then show ?thesis using 2(1) [OF ss(1)] unfolding ss(2) by auto
  qed
qed simp

lemma preview_candidates_total: "\<exists>ss w'. preview_candidates env cs w = (Inr ss, w')"
proof (induction env cs arbitrary: w rule: preview_candidates.induct)
  case (2 env change rationale cs)
  obtain r w1 where p: "preview_change env change w = (r, w1)" by (cases "preview_change env change w")
  obtain ss w' where "preview_candidates env cs w1 = (Inr ss, w')" using 2 by blast
  then show ?case using p by (cases r) (auto simp: eff_simps)
qed simp

lemma in_world_run: "in_world m s = (case m (awWorld s) of (r, w) \<Rightarrow> (r, s\<lparr>awWorld := w\<rparr>))"
  by (simp add: in_world_def)

text \<open>What the reads and the previews of the assistant send.\<close>

definition catalogue_only :: "(channel \<times> sql_fragment \<Rightarrow> bool) \<Rightarrow> 'd ai_env \<Rightarrow> bool" where
  "catalogue_only P env \<longleftrightarrow>
     keeps (sends P) (reSchemas (aiRetrieval env)) \<and> (\<forall>s t. keeps (sends P) (reStructure (aiRetrieval env) s t)) \<and>
     (\<forall>s. keeps (sends P) (reOverview (aiRetrieval env) s)) \<and>
     (\<forall>s t. keeps (sends P) (deColumns (aiDdl env) s t)) \<and> (\<forall>s t. keeps (sends P) (deStructure (aiDdl env) s t)) \<and>
     (\<forall>s t op. keeps (sends P) (aiLoosePreview env s t op))"

lemma listTables_sends: "keeps (sends P) (reSchemas env) \<Longrightarrow> keeps (sends P) (listTables env)"
  unfolding listTables_def by (intro sending.keeps_intros)

lemma describe_names_sends:
  assumes "\<And>s t. keeps (sends P) (reStructure env s t)" "\<And>s. keeps (sends P) (reOverview env s)"
  shows "keeps (sends P) (describe_names env tables cache names)"
proof (induction names arbitrary: cache)
  case (Cons raw names)
  have "keeps (sends P) (loadOverview env k)" for k
    unfolding loadOverview_def by (intro sending.keeps_intros assms)
  then show ?case by (auto intro!: sending.keeps_intros assms Cons.IH split: option.split)
qed (auto intro: sending.keeps_intros)

lemma describeTables_sends:
  assumes "keeps (sends P) (reSchemas env)" "\<And>s t. keeps (sends P) (reStructure env s t)" "\<And>s. keeps (sends P) (reOverview env s)"
  shows "keeps (sends P) (describeTables env names)"
  unfolding describeTables_def by (intro sending.keeps_intros listTables_sends describe_names_sends assms)

lemma preview_candidates_sends:
  assumes "catalogue_only P env"
  shows "keeps (sends P) (preview_candidates env cs)"
proof (induction cs)
  case (Cons c cs)
  have "keeps (sends P) (preview_change env x)" for x
    using assms by (cases x) (auto simp: preview_change_def catalogue_only_def intro!: preview_sends split: option.split)
  then show ?case by (cases c) (auto intro!: sending.keeps_intros Cons.IH)
next
  case Nil
  show ?case unfolding preview_candidates.simps by (rule sending.keeps_ret)
qed

text \<open>The same, of the assistant's world.\<close>

definition ai_sends :: "(channel \<times> sql_fragment \<Rightarrow> bool) \<Rightarrow> 'd ai_world \<Rightarrow> 'd ai_world \<Rightarrow> bool" where
  "ai_sends P s s' \<longleftrightarrow> sends P (awWorld s) (awWorld s')"

interpretation ai_sending: step_relation "ai_sends P" for P
  using sending.refl_R sending.trans_R by unfold_locales (auto simp: ai_sends_def)

lemma keeps_in_world: "keeps (sends P) m \<Longrightarrow> keeps (ai_sends P) (in_world m)"
  by (auto simp: keeps_def ai_sends_def in_world_run split: prod.split) (metis snd_conv)

lemma keeps_complete: "keeps (ai_sends P) (complete env call)"
  by (simp add: keeps_def ai_sends_def complete_def sending.refl_R)

lemma suggest_sends:
  assumes "catalogue_only P env"
  shows "keeps (ai_sends P) (suggestSchemaChanges env req)"
proof -
  have "keeps (sends P) (resolveSuggestTables env req)"
    using assms unfolding resolveSuggestTables_def by (auto simp: catalogue_only_def intro!: sending.keeps_intros listTables_sends)
  moreover have "keeps (sends P) (describeTables (aiRetrieval env) names)" for names
    using assms by (auto simp: catalogue_only_def intro: describeTables_sends)
  ultimately show ?thesis
    unfolding suggestSchemaChanges_def Let_def
    by (intro ai_sending.keeps_intros keeps_in_world keeps_complete preview_candidates_sends [OF assms])
qed

lemma in_world_calls: "in_world m s = (r, s') \<Longrightarrow> awCalls s' = awCalls s"
  by (auto simp: in_world_run split: prod.splits)

text \<open>What the one call of a suggestion can be.\<close>

definition suggest_call :: "'d ai_env \<Rightarrow> suggest_request \<Rightarrow> provider_call \<Rightarrow> bool" where
  "suggest_call env req call \<longleftrightarrow>
     aiReadOnly env = Inr False \<and>
     (\<exists>endpoint label schemaContext. resolveEndpoint env (sqEndpointId req) (sqModel req) = Inr endpoint \<and>
        call = call_with endpoint (sqModel req)
          (SchemaPrompt label schemaContext (if_truthy (sqSql req)) (map_option sanitizePlanForPrompt (sqPlan req)) (default_to WholeSchema (sqScope req)))
          [(''user'', ''Suggest schema changes for this database.'')] (deMaxOutputTokens endpoint))"

text \<open>A property of how the log of calls and the result relate, over the reads and checks before the call.\<close>

definition ends :: "(provider_call list \<Rightarrow> 'a res \<Rightarrow> provider_call list \<Rightarrow> bool) \<Rightarrow> ('d ai_world, 'a) eff \<Rightarrow> bool" where
  "ends C m \<longleftrightarrow> (\<forall>s. C (awCalls s) (fst (m s)) (awCalls (snd (m s))))"

lemma ends_lift: "(\<And>c e. C c (Inl e) c) \<Longrightarrow> (\<And>x. r = Inr x \<Longrightarrow> ends C (f x)) \<Longrightarrow> ends C (bind_eff (lift_res r) f)"
  by (cases r) (simp_all add: ends_def bind_eff_run)

lemma ends_world: "(\<And>c e. C c (Inl e) c) \<Longrightarrow> (\<And>x. ends C (f x)) \<Longrightarrow> ends C (bind_eff (in_world m) f)"
  by (auto simp: ends_def bind_eff_run in_world_run split: prod.split sum.split) (metis ai_world.ext_inject ai_world.surjective ai_world.update_convs(1))

lemma ends_complete:
  assumes "\<And>c e. C c (Inl e) (c @ [call])" "\<And>content s. C (awCalls s) (fst (f content (s\<lparr>awCalls := awCalls s @ [call]\<rparr>)))
      (awCalls (snd (f content (s\<lparr>awCalls := awCalls s @ [call]\<rparr>))))"
  shows "ends C (bind_eff (complete env call) f)"
  using assms by (auto simp: ends_def bind_eff_run complete_def split: option.split)

definition suggest_outcome ::
  "'d ai_env \<Rightarrow> suggest_request \<Rightarrow> provider_call list \<Rightarrow> schema_suggestion list res \<Rightarrow> provider_call list \<Rightarrow> bool" where
  "suggest_outcome env req c r c' \<longleftrightarrow>
     (\<exists>calls. c' = c @ calls \<and> length calls \<le> 1 \<and> list_all (suggest_call env req) calls) \<and>
     (\<forall>ss. r = Inr ss \<longrightarrow> length ss \<le> MAX_SCHEMA_SUGGESTIONS \<and>
        list_all (\<lambda>x. allowed_change (default_to WholeSchema (sqScope req)) (ssChange x) \<and>
          (\<exists>w. fst (preview_change env (ssChange x) w) = Inr (ssSql x))) ss)"

lemma candidates_outcome:
  assumes "preview_candidates env (parseSchemaSuggestions content scope) w = (Inr ss, w')"
  shows "length ss \<le> MAX_SCHEMA_SUGGESTIONS \<and>
    list_all (\<lambda>x. allowed_change scope (ssChange x) \<and> (\<exists>w. fst (preview_change env (ssChange x) w) = Inr (ssSql x))) ss"
  using previewed_candidates [OF assms] parsed_bounded [of content scope] by (force simp: list_all_iff)

lemma suggest_ends: "ends (suggest_outcome env req) (suggestSchemaChanges env req)"
proof -
  have fails: "suggest_outcome env req c (Inl e) c" for c e by (simp add: suggest_outcome_def)
  show ?thesis
    unfolding suggestSchemaChanges_def Let_def
  proof (intro ends_lift ends_world ends_complete fails)
    fix endpoint u names ctx label
    let ?call = "call_with endpoint (sqModel req) (SchemaPrompt label ctx (if_truthy (sqSql req))
      (map_option sanitizePlanForPrompt (sqPlan req)) (default_to WholeSchema (sqScope req)))
      [(''user'', ''Suggest schema changes for this database.'')] (deMaxOutputTokens endpoint)"
    assume "resolveEndpoint env (sqEndpointId req) (sqModel req) = Inr endpoint" "assert_writable env = Inr u"
    then have ok: "suggest_call env req ?call"
      by (auto simp: suggest_call_def assert_writable_def res_bind_Inr_iff split: if_splits)
    show "suggest_outcome env req c (Inl e) (c @ [?call])" for c e using ok by (simp add: suggest_outcome_def)
    show "suggest_outcome env req (awCalls s)
        (fst (in_world (preview_candidates env (parseSchemaSuggestions content (default_to WholeSchema (sqScope req)))) (s\<lparr>awCalls := awCalls s @ [?call]\<rparr>)))
        (awCalls (snd (in_world (preview_candidates env (parseSchemaSuggestions content (default_to WholeSchema (sqScope req)))) (s\<lparr>awCalls := awCalls s @ [?call]\<rparr>))))" for content s
      using ok candidates_outcome [of env content "default_to WholeSchema (sqScope req)" "awWorld s"]
      by (auto simp: suggest_outcome_def in_world_run split: prod.split)
  qed
qed

definition demo_ai_world :: "unit ai_world" where
  "demo_ai_world = \<lparr>awWorld = \<lparr>wDb = (), wWire = [], wAudit = [], wAuditWrites = [], wHistory = []\<rparr>, awCalls = []\<rparr>"

definition demo_ai_env :: "unit ai_env" where
  "demo_ai_env =
     \<lparr>aiApp = \<lparr>aeEngine = (\<lambda>e. Some True), aeEncrypt = (\<lambda>n s. s), aeDecrypt = id, aeDatabaseUrl = [], aeResolve = id,
        aeTest = (\<lambda>e p h. \<lparr>trOk = True, trMessage = []\<rparr>), aeContains = (\<lambda>n t. True)\<rparr>,
      aiDb = \<lparr>dbConnections = [], dbHistory = [], dbSnippets = [], dbConversations = [], dbMessages = [],
        dbEndpoints = [\<lparr>leId = ''e'', leUserId = ''ann'', leName = ''local'', leBaseUrl = ''http://localhost/v1'', leEncryptedApiKey = [],
          leModels = serializeModels [''small''], leContextBudget = None, leMaxOutputTokens = None, leCreatedAt = 0\<rparr>], dbEvicted = []\<rparr>,
      aiUser = ''ann'', aiConnection = SYSTEM_CONNECTION_ID, aiReadOnly = Inr False, aiLabel = Inr ''PostgreSQL'',
      aiRetrieval = \<lparr>reSchemas = ret [(''public'', [''t''])],
        reStructure = (\<lambda>s t. ret \<lparr>tsColumns = [], tsIndexes = [], tsForeignKeys = [], tsComment = None\<rparr>), reOverview = (\<lambda>s. ret [])\<rparr>,
      aiDdl = \<lparr>deDriver = Inr Pg, deReadOnly = Inr False, deExec = (\<lambda>ch f d. (Inl (PlainError ''closed''), d)), deColumns = (\<lambda>s t. ret []),
        deStructure = (\<lambda>s t. ret \<lparr>tsColumns = [], tsIndexes = [], tsForeignKeys = [], tsComment = None\<rparr>), deErrno = (\<lambda>e. None)\<rparr>,
      aiLoosePreview = (\<lambda>s t op. throw (PlainError ''TypeError'')),
      aiProvider = (\<lambda>cs c. Some ''no suggestion'')\<rparr>"

definition demo_request :: suggest_request where
  "demo_request = \<lparr>sqEndpointId = ''e'', sqModel = ''small'', sqScope = Some IndexesOnly, sqTables = [(''public'', ''t'')], sqPlan = None, sqSql = None\<rparr>"



subsection \<open>The stream ends\<close>

definition same_requests :: "'d chat_stream_state \<Rightarrow> 'd chat_stream_state \<Rightarrow> bool" where
  "same_requests s s' \<longleftrightarrow> ssRequests s' = ssRequests s"

interpretation requests: step_relation same_requests
  by unfold_locales (auto simp: same_requests_def)

definition stream_sends :: "(channel \<times> sql_fragment \<Rightarrow> bool) \<Rightarrow> 'd chat_stream_state \<Rightarrow> 'd chat_stream_state \<Rightarrow> bool" where
  "stream_sends P s s' \<longleftrightarrow> sends P (ssWorld s) (ssWorld s')"

interpretation stream_sending: step_relation "stream_sends P" for P
  using sending.refl_R sending.trans_R by unfold_locales (auto simp: stream_sends_def)

lemma runTool_total: "\<exists>t w'. runTool env call w = (Inr t, w')"
  by (auto simp: runTool_def catch_eff_run split: prod.split sum.split)

text \<open>The answer to a call: the result of running the tool, under the identifier of the call.\<close>

definition tool_answer :: "'d stream_env \<Rightarrow> pending_call \<Rightarrow> chat_message \<Rightarrow> bool" where
  "tool_answer env call m \<longleftrightarrow> (\<exists>t w w'. runTool env call w = (Inr t, w') \<and> m = ToolMessage (pdId call) t)"

lemma run_tool_call_total: "\<exists>m s'. run_tool_call env call s = (Inr m, s') \<and> tool_answer env call m"
  using runTool_total [of env call "ssWorld s"] by (fastforce simp: run_tool_call_def tool_answer_def)

lemma tool_results:
  "\<exists>ms s'. each_eff (run_tool_call env) calls s = (Inr ms, s') \<and> list_all2 (tool_answer env) calls ms \<and> ssRequests s' = ssRequests s"
proof -
  obtain ms s' where run: "each_eff (run_tool_call env) calls s = (Inr ms, s')" "list_all2 (tool_answer env) calls ms"
    using each_eff_total [of "run_tool_call env" "tool_answer env" calls s] run_tool_call_total by blast
  have "keeps same_requests (each_eff (run_tool_call env) calls)"
    by (rule requests.keeps_each) (auto simp: keeps_def same_requests_def run_tool_call_def split: prod.split)
  then show ?thesis using run by (auto simp: keeps_def same_requests_def dest: spec [of _ s])
qed

text \<open>
  The conversation of a streamed chat, as the list of its requests. The provider's answer to a request ends it if
  the answer broke off, did not end on calls or has none, or if there is no tool. Each request after the first is the
  one before it, the calls of the provider's answer to that one (without arguments, an empty object), and the answer
  to each of these calls in order.
\<close>

definition ends_conversation :: "'d stream_env \<Rightarrow> bool \<Rightarrow> chat_message list \<Rightarrow> bool" where
  "ends_conversation env tools request \<longleftrightarrow>
     (case seCalls env request of (chunks, broken) \<Rightarrow>
        broken \<or> finish_reason chunks \<noteq> Some ''tool_calls'' \<or> pending_calls chunks = [] \<or> \<not> tools)"

definition follows :: "'d stream_env \<Rightarrow> chat_message list \<Rightarrow> chat_message list \<Rightarrow> bool" where
  "follows env request request' \<longleftrightarrow>
     (let calls = pending_calls (fst (seCalls env request)) in
      \<exists>results. list_all2 (tool_answer env) calls results \<and>
        request' = request @ [CallsMessage (map (\<lambda>c. if pdArgs c = [] then c\<lparr>pdArgs := ''{}''\<rparr> else c) calls)] @ results)"

definition conversation :: "'d stream_env \<Rightarrow> bool \<Rightarrow> nat \<Rightarrow> chat_message list \<Rightarrow> chat_message list list \<Rightarrow> bool" where
  "conversation env tools limit start reqs \<longleftrightarrow>
     reqs \<noteq> [] \<and> hd reqs = start \<and> length reqs \<le> limit \<and>
     (\<forall>i. Suc i < length reqs \<longrightarrow> \<not> ends_conversation env tools (reqs ! i) \<and> follows env (reqs ! i) (reqs ! Suc i)) \<and>
     (ends_conversation env tools (last reqs) \<or> length reqs = limit)"

lemma conversation_Cons:
  assumes "conversation env tools n request' reqs" "\<not> ends_conversation env tools request" "follows env request request'"
  shows "conversation env tools (Suc n) request (request # reqs)"
proof -
  have "\<not> ends_conversation env tools ((request # reqs) ! i) \<and> follows env ((request # reqs) ! i) ((request # reqs) ! Suc i)"
    if "Suc i < length (request # reqs)" for i
    using that assms by (cases i) (auto simp: conversation_def hd_conv_nth)
  then show ?thesis using assms(1) by (auto simp: conversation_def)
qed

lemma stream_requests:
  "\<exists>reqs. ssRequests (snd (stream_rounds (Suc n) env tools messages s)) = ssRequests s @ reqs \<and>
     conversation env tools (Suc n) messages reqs"
proof (induction n arbitrary: messages s)
  case (Suc n)
  obtain chunks broken where asked: "seCalls env messages = (chunks, broken)" by (cases "seCalls env messages")
  define s1 where "s1 = s\<lparr>ssRequests := ssRequests s @ [messages], ssDeltas := ssDeltas s @ stream_deltas chunks,
      ssUsage := foldl add_usage (ssUsage s) chunks\<rparr>"
  let ?calls = "pending_calls chunks"
  show ?case
  proof (cases "ends_conversation env tools messages")
    case True
    then have "snd (stream_rounds (Suc (Suc n)) env tools messages s) = s1"
      by (auto simp: bind_eff_run ask_stream_def asked s1_def ends_conversation_def)
    then show ?thesis using True by (intro exI [of _ "[messages]"]) (simp add: s1_def conversation_def)
  next
    case False
    obtain ms s2 where results: "each_eff (run_tool_call env) ?calls s1 = (Inr ms, s2)" "list_all2 (tool_answer env) ?calls ms"
        "ssRequests s2 = ssRequests s1"
      using tool_results by blast
    define msgs where "msgs = messages @ [CallsMessage (map (\<lambda>c. if pdArgs c = [] then c\<lparr>pdArgs := ''{}''\<rparr> else c) ?calls)] @ ms"
    have follows: "follows env messages msgs"
      using results(2) by (auto simp: follows_def Let_def asked msgs_def)
    have "stream_rounds (Suc (Suc n)) env tools messages s = stream_rounds (Suc n) env tools msgs s2"
      using False results(1)
      by (subst stream_rounds.simps) (simp add: bind_eff_run ask_stream_def asked s1_def msgs_def Let_def ends_conversation_def del: stream_rounds.simps)
    moreover obtain reqs where "ssRequests (snd (stream_rounds (Suc n) env tools msgs s2)) = ssRequests s2 @ reqs"
        "conversation env tools (Suc n) msgs reqs"
      using Suc [of msgs s2] by blast
    ultimately show ?thesis
      using results(3) conversation_Cons [OF _ False follows]
      by (intro exI [of _ "messages # reqs"]) (simp add: s1_def del: stream_rounds.simps)
  qed
next
  case 0
  obtain chunks broken where asked: "seCalls env messages = (chunks, broken)" by (cases "seCalls env messages")
  have "ssRequests (snd (stream_rounds (Suc 0) env tools messages s)) = ssRequests s @ [messages]"
    using tool_results [of env "pending_calls chunks" "s\<lparr>ssRequests := ssRequests s @ [messages], ssDeltas := ssDeltas s @ stream_deltas chunks,
      ssUsage := foldl add_usage (ssUsage s) chunks\<rparr>"]
    by (auto simp: bind_eff_run ask_stream_def asked Let_def)
  then show ?case by (intro exI [of _ "[messages]"]) (simp add: conversation_def)
qed

lemma ask_stream_sends: "keeps (stream_sends P) (ask_stream env messages)"
  by (auto simp: keeps_def ask_stream_def stream_sends_def sending.refl_R split: prod.split)

lemma runTool_sends:
  assumes "\<And>args. keeps (sends P) (seTool env args)"
  shows "keeps (sends P) (runTool env call)"
  unfolding runTool_def by (auto intro!: sending.keeps_intros assms)

lemma run_tool_call_sends:
  assumes "\<And>args. keeps (sends P) (seTool env args)"
  shows "keeps (stream_sends P) (run_tool_call env call)"
proof -
  have "sends P w (snd (runTool env call w))" for w
    using runTool_sends [where env = env and call = call, OF assms] by (simp add: keeps_def)
  then show ?thesis by (auto simp: keeps_def run_tool_call_def stream_sends_def split: prod.split) (metis snd_conv)
qed

lemma stream_rounds_sends:
  assumes "\<And>args. keeps (sends P) (seTool env args)"
  shows "keeps (stream_sends P) (stream_rounds n env tools messages)"
proof (induction n arbitrary: messages)
  case (Suc n)
  then show ?case
    by (auto simp: Let_def intro!: stream_sending.keeps_intros ask_stream_sends run_tool_call_sends [OF assms])
qed (auto intro: stream_sending.keeps_intros)

lemma table_schema_tool_sends:
  assumes "keeps (sends P) (reSchemas env)" "\<And>s t. keeps (sends P) (reStructure env s t)" "\<And>s. keeps (sends P) (reOverview env s)"
  shows "keeps (sends P) (table_schema_tool env args)"
  unfolding table_schema_tool_def Let_def by (auto intro!: sending.keeps_intros describeTables_sends assms)

text \<open>The tool of the chat only reads the catalogue: all that a stream sends to the database are the reads behind the descriptions.\<close>

lemma stream_reads_catalogue:
  assumes "keeps (sends P) (reSchemas env)" "\<And>s t. keeps (sends P) (reStructure env s t)" "\<And>s. keeps (sends P) (reOverview env s)"
  shows "keeps (stream_sends P) (stream_rounds n \<lparr>seCalls = calls, seTool = table_schema_tool env\<rparr> tools messages)"
  by (rule stream_rounds_sends) (simp add: table_schema_tool_sends assms)

definition demo_stream_env :: "unit stream_env" where
  "demo_stream_env =
     \<lparr>seCalls = (\<lambda>messages. ([\<lparr>ckContent = None, ckCalls = [\<lparr>tdIndex = 0, tdId = Some ''c1'', tdName = Some ''get_table_schema'', tdArgs = None\<rparr>],
          ckFinish = Some ''tool_calls'', ckUsage = Some (10, 2, 12)\<rparr>], False)),
      seTool = table_schema_tool (aiRetrieval demo_ai_env)\<rparr>"

text \<open>
  C11. A streamed chat is bounded. Whatever the model answers, \<open>completeStream\<close> makes at least one and at most five
  requests. The first is the system prompt and the messages; each further one is the one before it, exactly the calls
  of the model's answer to that one, and one answer of the tool for each call, in order and under the call's
  identifier. It goes on after each answer that is complete, ends on calls and has some, provided there is a tool, and
  it stops at the first answer that is not so, or after the fifth.
\<close>

theorem stream_bounded:
  assumes "completeStream env tools systemPrompt messages s = (r, s')"
  shows "\<exists>reqs. ssRequests s' = ssRequests s @ reqs \<and> 1 \<le> length reqs \<and> length reqs \<le> 5 \<and>
    conversation env tools 5 (TextMessage ''system'' systemPrompt # map (\<lambda>m. TextMessage (fst m) (snd m)) messages) reqs"
proof -
  let ?first = "TextMessage ''system'' systemPrompt # map (\<lambda>m. TextMessage (fst m) (snd m)) messages"
  let ?s = "s\<lparr>ssUsage := (0, 0, 0)\<rparr>"
  have five: "MAX_TOOL_ROUNDS = Suc 4" by (simp add: MAX_TOOL_ROUNDS_def)
  obtain s1 where s1: "stream_rounds (Suc 4) env tools ?first ?s = (r, s1)" "ssRequests s' = ssRequests s1"
    using assms unfolding completeStream_def five by (auto split: prod.splits if_splits simp del: stream_rounds.simps)
  obtain reqs where "ssRequests s1 = ssRequests s @ reqs" "conversation env tools (Suc 4) ?first reqs"
    using stream_requests [of 4 env tools ?first ?s] s1(1) by (auto simp del: stream_rounds.simps)
  then show ?thesis using s1(2) by (intro exI [of _ reqs]) (auto simp: conversation_def Suc_le_eq)
qed

text \<open>A model that always asks for the tool is stopped after its fifth answer.\<close>

theorem stream_bounded_witness:
  "\<exists>r s'. completeStream demo_stream_env True ''help'' [(''user'', ''hi'')]
       \<lparr>ssWorld = awWorld demo_ai_world, ssRequests = [], ssDeltas = [], ssUsage = (0, 0, 0), ssReported = None\<rparr> = (r, s') \<and>
     length (ssRequests s') = 5 \<and> hd (ssRequests s') = [TextMessage ''system'' ''help'', TextMessage ''user'' ''hi'']"
proof -
  let ?s = "\<lparr>ssWorld = awWorld demo_ai_world, ssRequests = [], ssDeltas = [], ssUsage = (0, 0, 0), ssReported = None\<rparr> :: unit chat_stream_state"
  obtain r s' where run: "completeStream demo_stream_env True ''help'' [(''user'', ''hi'')] ?s = (r, s')"
    by (cases "completeStream demo_stream_env True ''help'' [(''user'', ''hi'')] ?s")
  have "\<not> ends_conversation demo_stream_env True request" for request
    by (simp add: ends_conversation_def demo_stream_env_def finish_reason_def truthy_def pending_calls_def add_delta_def Let_def)
  with stream_bounded [OF run] run show ?thesis by (auto simp: conversation_def)
qed

end
