(* ===== verification/Editability.thy ===== *)
theory Editability
  imports JsValue
begin

text \<open>
  \<open>query/editability.ts\<close>: which result of a \<open>SELECT\<close> the grid may edit. A parsed statement is the
  JavaScript value the parser returns; the functions read its properties as the code does. The
  interfaces \<open>ParsedSelect\<close>, \<open>ParsedTableRef\<close> and \<open>ParsedColumn\<close> of the source say which properties a
  statement has; the parser itself is not modelled.
\<close>

subsection \<open>Reading an AST\<close>

text \<open>\<open>v.k\<close>; only an object has named properties here.\<close>

fun field :: "js_val \<Rightarrow> string \<Rightarrow> js_val" where
  "field (JObj fs) k = get_prop fs k"
| "field v k = JUndef"

fun arr_of :: "js_val \<Rightarrow> js_val list" where
  "arr_of (JArr vs) = vs"
| "arr_of v = []"

fun is_arr :: "js_val \<Rightarrow> bool" where
  "is_arr (JArr vs) = True"
| "is_arr v = False"

fun is_str :: "js_val \<Rightarrow> bool" where
  "is_str (JStr s) = True"
| "is_str v = False"

fun truthy :: "js_val \<Rightarrow> bool" where
  "truthy JUndef = False"
| "truthy JNull = False"
| "truthy (JBool b) = b"
| "truthy (JNum i) = (i \<noteq> 0)"
| "truthy (JDec s) = True"
| "truthy (JNonFinite s) = (s \<noteq> ''NaN'')"
| "truthy (JBig i) = (i \<noteq> 0)"
| "truthy (JStr s) = (s \<noteq> [])"
| "truthy (JDate a b) = True"
| "truthy (JBytes b) = True"
| "truthy (JArr vs) = True"
| "truthy (JObj fs) = True"

text \<open>The nodes of an AST, the root included.\<close>

inductive subnode :: "js_val \<Rightarrow> js_val \<Rightarrow> bool" where
  subnode_refl: "subnode v v"
| subnode_arr: "v \<in> set vs \<Longrightarrow> subnode u v \<Longrightarrow> subnode u (JArr vs)"
| subnode_obj: "(k, v) \<in> set fs \<Longrightarrow> subnode u v \<Longrightarrow> subnode u (JObj fs)"

inductive_simps subnode_JArr: "subnode u (JArr vs)"
inductive_simps subnode_JObj: "subnode u (JObj fs)"
inductive_simps subnode_leaf: "subnode u JUndef" "subnode u JNull" "subnode u (JBool b)"
  "subnode u (JNum i)" "subnode u (JDec s)" "subnode u (JNonFinite s)" "subnode u (JBig i)"
  "subnode u (JStr s)" "subnode u (JDate a b)" "subnode u (JBytes b)"

text \<open>The scans of the code stop at the first node that answers; both are this search.\<close>

fun any_node :: "(js_val \<Rightarrow> bool) \<Rightarrow> js_val \<Rightarrow> bool" where
  "any_node P (JArr vs) = (P (JArr vs) \<or> list_ex (any_node P) vs)"
| "any_node P (JObj fs) = (P (JObj fs) \<or> list_ex (\<lambda>f. any_node P (snd f)) fs)"
| "any_node P v = P v"

lemma any_node_subnode: "any_node P v \<longleftrightarrow> (\<exists>u. subnode u v \<and> P u)"
proof (induction v)
  case (JArr vs)
  then have "list_ex (any_node P) vs \<longleftrightarrow> (\<exists>v \<in> set vs. \<exists>u. subnode u v \<and> P u)"
    by (auto simp: list_ex_iff)
  then show ?case by (auto simp: subnode_JArr)
next
  case (JObj fs)
  have "any_node P (snd f) \<longleftrightarrow> (\<exists>u. subnode u (snd f) \<and> P u)" if "f \<in> set fs" for f
    using JObj [OF that, of "snd f"] by (simp add: snds.simps)
  then have "list_ex (\<lambda>f. any_node P (snd f)) fs \<longleftrightarrow> (\<exists>f \<in> set fs. \<exists>u. subnode u (snd f) \<and> P u)"
    by (simp add: list_ex_iff)
  also have "\<dots> \<longleftrightarrow> (\<exists>u k v. (k, v) \<in> set fs \<and> subnode u v \<and> P u)"
    by (metis prod.collapse snd_conv)
  finally show ?case by (simp add: subnode_JObj) blast
qed (simp_all add: subnode_leaf)

definition select_node :: "js_val \<Rightarrow> bool" where
  "select_node v \<longleftrightarrow> field v ''type'' = JStr ''select''"

definition containsSubquery :: "js_val \<Rightarrow> bool" where
  "containsSubquery node = any_node select_node node"

subsection \<open>The decision\<close>

record single_table_ref =
  st_schema :: string
  st_table :: string

datatype editability =
    ReadOnly
  | Editable (sourceTable: string) (editPrimaryKey: "string list")

definition isSelect :: "js_val \<Rightarrow> bool" where
  "isSelect statement \<longleftrightarrow> field statement ''type'' = JStr ''select''"

definition extractSingleTable :: "js_val list \<Rightarrow> string \<Rightarrow> single_table_ref option" where
  "extractSingleTable statements defaultSchema =
     (case statements of
        [statement] \<Rightarrow>
          if \<not> isSelect statement then None
          else if arr_of (field statement ''with'') \<noteq> [] then None
          else if \<not> nullish (field statement ''_next'') then None
          else (case field statement ''from'' of
                  JArr [ref] \<Rightarrow>
                    if truthy (field ref ''join'') then None
                    else (case field ref ''table'' of
                            JStr t \<Rightarrow>
                              if containsSubquery (field statement ''where'') then None
                              else Some \<lparr>st_schema = (case field ref ''db'' of JStr d \<Rightarrow> d | _ \<Rightarrow> defaultSchema),
                                         st_table = t\<rparr>
                          | _ \<Rightarrow> None)
                | _ \<Rightarrow> None)
      | _ \<Rightarrow> None)"

definition isStarColumn :: "js_val \<Rightarrow> bool" where
  "isStarColumn column \<longleftrightarrow>
     field (field column ''expr'') ''type'' = JStr ''column_ref'' \<and>
     field (field column ''expr'') ''column'' = JStr ''*''"

definition projectsEverything :: "js_val list \<Rightarrow> bool" where
  "projectsEverything columns \<longleftrightarrow> length columns = 1 \<and> isStarColumn (columns ! 0)"

definition columnRefName :: "js_val \<Rightarrow> string option" where
  "columnRefName expr =
     (if field expr ''type'' \<noteq> JStr ''column_ref'' then None
      else (case field expr ''column'' of
              JStr s \<Rightarrow> if s = ''*'' then None else Some s
            | c \<Rightarrow> (case field (field c ''expr'') ''value'' of JStr s \<Rightarrow> Some s | _ \<Rightarrow> None)))"

definition projectsAllOf :: "string list \<Rightarrow> js_val list \<Rightarrow> bool" where
  "projectsAllOf names columns \<longleftrightarrow>
     list_all (\<lambda>name. list_ex (\<lambda>column.
       columnRefName (field column ''expr'') = Some name \<and> name \<noteq> []) columns) names"

definition hasAggregate :: "js_val list \<Rightarrow> bool" where
  "hasAggregate columns \<longleftrightarrow>
     list_ex (\<lambda>column. field (field column ''expr'') ''type'' = JStr ''aggr_func'') columns"

definition analyzeEditability :: "js_val list \<Rightarrow> single_table_ref \<Rightarrow> string list \<Rightarrow> editability" where
  "analyzeEditability statements table primaryKey =
     (if primaryKey = [] then ReadOnly
      else (case statements of
              [statement] \<Rightarrow>
                if \<not> isSelect statement then ReadOnly
                else if truthy (field (field statement ''distinct'') ''type'') then ReadOnly
                else if truthy (field statement ''groupby'') then ReadOnly
                else (let columns = arr_of (field statement ''columns'') in
                      if hasAggregate columns then ReadOnly
                      else if \<not> projectsEverything columns \<and> \<not> projectsAllOf primaryKey columns then ReadOnly
                      else Editable (st_schema table @ ''.'' @ st_table table) primaryKey)
            | _ \<Rightarrow> ReadOnly))"

text \<open>The two analyses as every caller composes them: the table first, its key, then the verdict.\<close>

definition decide_editability :: "js_val list \<Rightarrow> string \<Rightarrow> (single_table_ref \<Rightarrow> string list) \<Rightarrow> editability" where
  "decide_editability statements defaultSchema keyOf =
     (case extractSingleTable statements defaultSchema of
        None \<Rightarrow> ReadOnly
      | Some t \<Rightarrow> analyzeEditability statements t (keyOf t))"

subsection \<open>What an editable verdict means\<close>

lemma extractSingleTable_Some:
  assumes "extractSingleTable statements d = Some t"
  shows "\<exists>s ref. statements = [s] \<and> isSelect s \<and> arr_of (field s ''with'') = [] \<and>
    nullish (field s ''_next'') \<and> field s ''from'' = JArr [ref] \<and> \<not> truthy (field ref ''join'') \<and>
    field ref ''table'' = JStr (st_table t) \<and> \<not> containsSubquery (field s ''where'')"
  using assms unfolding extractSingleTable_def
  by (auto split: list.splits js_val.splits if_splits)

lemma analyzeEditability_Editable:
  assumes "analyzeEditability statements t pk = Editable src k"
  shows "\<exists>s. statements = [s] \<and> isSelect s \<and> k = pk \<and> pk \<noteq> [] \<and>
    src = st_schema t @ ''.'' @ st_table t \<and>
    \<not> truthy (field (field s ''distinct'') ''type'') \<and> \<not> truthy (field s ''groupby'') \<and>
    \<not> hasAggregate (arr_of (field s ''columns'')) \<and>
    (projectsEverything (arr_of (field s ''columns'')) \<or> projectsAllOf pk (arr_of (field s ''columns'')))"
  using assms unfolding analyzeEditability_def
  by (auto simp: Let_def split: list.splits if_splits)

lemma projectsAllOf_iff:
  "projectsAllOf names columns \<longleftrightarrow>
     (\<forall>n \<in> set names. n \<noteq> [] \<and> (\<exists>c \<in> set columns. columnRefName (field c ''expr'') = Some n))"
  by (auto simp: projectsAllOf_def list_all_iff list_ex_iff)

text \<open>
  C15. An editable verdict is sound: it is given only to one plain \<open>SELECT\<close> from one base table
  without joins, set operations, CTEs, \<open>DISTINCT\<close> or \<open>GROUP BY\<close>, none of whose projected columns is
  itself an aggregate call (an aggregate inside a larger expression is not looked for, see
  \<open>nested_aggregate_editable\<close>), with no \<open>SELECT\<close> node anywhere in its \<open>WHERE\<close>; the key it reports is the non-empty key of the table it
  names, and the projection is \<open>*\<close> or names every column of that key.
\<close>

theorem editable_verdict_sound:
  assumes "decide_editability statements d keyOf = Editable src k"
  shows "\<exists>s ref t. statements = [s] \<and> isSelect s \<and>
    extractSingleTable [s] d = Some t \<and> src = st_schema t @ ''.'' @ st_table t \<and> k = keyOf t \<and> k \<noteq> [] \<and>
    field s ''from'' = JArr [ref] \<and> field ref ''table'' = JStr (st_table t) \<and> \<not> truthy (field ref ''join'') \<and>
    nullish (field s ''_next'') \<and> arr_of (field s ''with'') = [] \<and>
    \<not> (\<exists>u. subnode u (field s ''where'') \<and> select_node u) \<and>
    \<not> truthy (field (field s ''distinct'') ''type'') \<and> \<not> truthy (field s ''groupby'') \<and>
    \<not> (\<exists>c \<in> set (arr_of (field s ''columns'')). field (field c ''expr'') ''type'' = JStr ''aggr_func'') \<and>
    ((\<exists>c. arr_of (field s ''columns'') = [c] \<and> isStarColumn c) \<or>
     (\<forall>n \<in> set k. \<exists>c \<in> set (arr_of (field s ''columns'')). columnRefName (field c ''expr'') = Some n))"
proof -
  from assms obtain t where t: "extractSingleTable statements d = Some t"
      and a: "analyzeEditability statements t (keyOf t) = Editable src k"
    by (auto simp: decide_editability_def split: option.splits)
  from extractSingleTable_Some [OF t] obtain s ref where s: "statements = [s]"
      "arr_of (field s ''with'') = []" "nullish (field s ''_next'')" "field s ''from'' = JArr [ref]"
      "\<not> truthy (field ref ''join'')" "field ref ''table'' = JStr (st_table t)"
      "\<not> containsSubquery (field s ''where'')"
    by blast
  note e = analyzeEditability_Editable [OF a]
  have star: "projectsEverything cs \<Longrightarrow> \<exists>c. cs = [c] \<and> isStarColumn c" for cs
    by (auto simp: projectsEverything_def length_Suc_conv)
  show ?thesis
    by (rule exI [of _ s], rule exI [of _ ref], rule exI [of _ t])
       (use s t e star in \<open>auto simp: containsSubquery_def any_node_subnode hasAggregate_def
          list_ex_iff projectsAllOf_iff\<close>)
qed

definition example_select :: js_val where
  "example_select = JObj [(''type'', JStr ''select''), (''with'', JNull), (''distinct'', JNull),
     (''columns'', JArr [JObj [(''expr'', JObj [(''type'', JStr ''column_ref''), (''column'', JStr ''id'')])],
                         JObj [(''expr'', JObj [(''type'', JStr ''column_ref''), (''column'', JStr ''name'')])]]),
     (''from'', JArr [JObj [(''db'', JNull), (''table'', JStr ''users'')]]),
     (''where'', JObj [(''type'', JStr ''binary_expr''), (''operator'', JStr ''='')]),
     (''groupby'', JNull)]"

lemma decide_example: "decide_editability [example_select] ''public'' (\<lambda>t. [''id'']) = Editable ''public.users'' [''id'']"
  by (simp add: decide_editability_def extractSingleTable_def analyzeEditability_def example_select_def
      isSelect_def containsSubquery_def select_node_def nullish_def hasAggregate_def projectsEverything_def
      projectsAllOf_def columnRefName_def isStarColumn_def)

theorem editable_verdict_sound_witness:
  "\<exists>t. extractSingleTable [example_select] ''public'' = Some t \<and> ''public.users'' = st_schema t @ ''.'' @ st_table t"
  using editable_verdict_sound [OF decide_example] by auto

text \<open>
  The scan for aggregates looks only at the top node of each projected column: of
  \<open>SELECT id, COUNT(*) + 1 FROM users\<close>, an aggregate query, the result is judged editable.
\<close>

definition nested_aggregate_select :: js_val where
  "nested_aggregate_select = JObj [(''type'', JStr ''select''),
     (''columns'', JArr [JObj [(''expr'', JObj [(''type'', JStr ''column_ref''), (''column'', JStr ''id'')])],
        JObj [(''expr'', JObj [(''type'', JStr ''binary_expr''), (''operator'', JStr ''+''),
          (''left'', JObj [(''type'', JStr ''aggr_func''), (''name'', JStr ''COUNT'')]),
          (''right'', JObj [(''type'', JStr ''number''), (''value'', JNum 1)])])]]),
     (''from'', JArr [JObj [(''db'', JNull), (''table'', JStr ''users'')]])]"

lemma nested_aggregate_editable:
  "decide_editability [nested_aggregate_select] ''public'' (\<lambda>t. [''id'']) = Editable ''public.users'' [''id'']"
  by (simp add: decide_editability_def extractSingleTable_def analyzeEditability_def nested_aggregate_select_def
      isSelect_def containsSubquery_def select_node_def nullish_def hasAggregate_def projectsEverything_def
      projectsAllOf_def columnRefName_def isStarColumn_def)

text \<open>
  The decision reads the column a projection refers to and never the name it is given, so an alias
  that hands the key's name to another column does not change the verdict.
\<close>

definition aliased :: "string \<Rightarrow> string \<Rightarrow> js_val" where
  "aliased col al = JObj [(''expr'', JObj [(''type'', JStr ''column_ref''), (''column'', JStr col)]), (''as'', JStr al)]"

definition swapped_select :: js_val where
  "swapped_select = JObj [(''type'', JStr ''select''),
     (''columns'', JArr [aliased ''id'' ''other'', aliased ''name'' ''id'']),
     (''from'', JArr [JObj [(''db'', JNull), (''table'', JStr ''users'')]])]"

lemma alias_ignored: "decide_editability [swapped_select] ''public'' (\<lambda>t. [''id'']) = Editable ''public.users'' [''id'']"
  by (simp add: decide_editability_def extractSingleTable_def analyzeEditability_def swapped_select_def aliased_def
      isSelect_def containsSubquery_def select_node_def nullish_def hasAggregate_def projectsEverything_def
      projectsAllOf_def columnRefName_def isStarColumn_def)

end
