(* ===== verification/Splitter.thy ===== *)
theory Splitter
  imports Identifiers
begin

text \<open>
  \<open>query/statement-splitter.ts\<close>. The first part is the code: one loop over a position in the text,
  with the inner loops that skip comments, quoted text and dollar-quoted bodies. The second part is
  what it means: a text falls into lexical pieces, the segments are what the top-level semicolons
  separate, the statements are the segments trimmed, empty ones dropped.
\<close>

subsection \<open>The code\<close>

definition ident_start :: "char \<Rightarrow> bool" where
  "ident_start c \<longleftrightarrow> alpha_char c \<or> c = CHR ''_''"

text \<open>\<open>DOLLAR_TAG_RE = /^\$([A-Za-z_][A-Za-z0-9_]*)?\$/\<close>, the text it matches.\<close>

definition dollar_tag :: "string \<Rightarrow> string option" where
  "dollar_tag s =
     (case s of
        [] \<Rightarrow> None
      | c # t \<Rightarrow>
          if c \<noteq> CHR ''$'' then None
          else
            (let tag = (case t of [] \<Rightarrow> [] | d # _ \<Rightarrow> if ident_start d then takeWhile word_char t else [])
             in if starts_with ''$'' (drop (length tag) t) then Some (CHR ''$'' # tag @ ''$'') else None))"

function skip_block_comment :: "string \<Rightarrow> nat \<Rightarrow> nat \<Rightarrow> nat" where
  "skip_block_comment sql i depth =
     (if i < length sql \<and> depth > 0 then
        (let pair = slice i (i + 2) sql in
         if pair = ''/*'' then skip_block_comment sql (i + 2) (depth + 1)
         else if pair = ''*/'' then skip_block_comment sql (i + 2) (depth - 1)
         else skip_block_comment sql (i + 1) depth)
      else i)"
  by pat_completeness auto
termination
  by (relation "measure (\<lambda>(sql, i, depth). length sql - i)") auto

function skip_quoted :: "string \<Rightarrow> char \<Rightarrow> nat \<Rightarrow> nat" where
  "skip_quoted sql ch i =
     (if i < length sql then
        (if sql ! i = ch then
           (if i + 1 < length sql \<and> sql ! (i + 1) = ch then skip_quoted sql ch (i + 2) else i + 1)
         else skip_quoted sql ch (i + 1))
      else i)"
  by pat_completeness auto
termination
  by (relation "measure (\<lambda>(sql, ch, i). length sql - i)") auto

declare skip_block_comment.simps [simp del] skip_quoted.simps [simp del]

definition is_quote :: "char \<Rightarrow> bool" where
  "is_quote c \<longleftrightarrow> c = CHR 0x27 \<or> c = CHR 0x22"

text \<open>The position after one turn of the loop at \<open>i\<close>, for a turn that meets no semicolon.\<close>

definition next_pos :: "string \<Rightarrow> nat \<Rightarrow> nat" where
  "next_pos sql i =
     (let two = slice i (i + 2) sql; ch = sql ! i in
      if two = ''--'' then
        (case index_of [CHR 0x0A] sql (i + 2) of None \<Rightarrow> length sql | Some nl \<Rightarrow> nl + 1)
      else if two = ''/*'' then skip_block_comment sql (i + 2) 1
      else if is_quote ch then skip_quoted sql ch (i + 1)
      else if ch = CHR ''$'' then
        (case dollar_tag (drop i sql) of
           None \<Rightarrow> i + 1
         | Some delim \<Rightarrow>
             (case index_of delim sql (i + length delim) of
                None \<Rightarrow> i + 1
              | Some closeIndex \<Rightarrow> closeIndex + length delim))
      else i + 1)"

lemma skip_block_comment_ge: "i \<le> skip_block_comment sql i d"
proof (induction sql i d rule: skip_block_comment.induct)
  case (1 sql i d)
  then show ?case
    by (subst skip_block_comment.simps) (auto simp: Let_def intro: le_trans [rotated])
qed

lemma skip_quoted_ge: "i \<le> skip_quoted sql ch i"
proof (induction sql ch i rule: skip_quoted.induct)
  case (1 sql ch i)
  then show ?case
    by (subst skip_quoted.simps) (auto intro: le_trans [rotated])
qed

lemma dollar_tag_Some:
  "dollar_tag s = Some d \<Longrightarrow>
     \<exists>tag. d = CHR ''$'' # tag @ ''$'' \<and> list_all word_char tag \<and> starts_with d s"
proof -
  assume a: "dollar_tag s = Some d"
  then obtain t where s: "s = CHR ''$'' # t"
    by (auto simp: dollar_tag_def split: list.splits if_splits)
  define tag where "tag = (case t of [] \<Rightarrow> [] | e # _ \<Rightarrow> if ident_start e then takeWhile word_char t else [])"
  have tt: "t = tag @ drop (length tag) t"
    unfolding tag_def by (cases t) (simp_all add: dropWhile_eq_drop [symmetric])
  have w: "list_all word_char tag"
    unfolding tag_def by (cases t) (auto simp: list_all_iff dest: set_takeWhileD)
  from a s have d: "d = CHR ''$'' # tag @ ''$''" and st: "starts_with ''$'' (drop (length tag) t)"
    by (simp_all add: dollar_tag_def tag_def Let_def split: if_splits)
  from st obtain v where "drop (length tag) t = ''$'' @ v" by (auto simp: starts_with_iff)
  with tt have "t = tag @ ''$'' @ v" by simp
  then have "starts_with d s" using d s by (auto simp: starts_with_iff)
  with d w show ?thesis by blast
qed

lemma dollar_tag_length: "dollar_tag s = Some d \<Longrightarrow> 2 \<le> length d"
  by (auto dest: dollar_tag_Some)

lemma next_pos_greater: "i < length sql \<Longrightarrow> i < next_pos sql i"
proof -
  assume i: "i < length sql"
  have "i < skip_block_comment sql (i + 2) 1" using skip_block_comment_ge [of "i + 2" sql 1] by simp
  moreover have "i < skip_quoted sql c (i + 1)" for c using skip_quoted_ge [of "i + 1" sql c] by simp
  ultimately show ?thesis
    using i
    by (auto simp: next_pos_def Let_def index_of_def split: option.splits
        dest!: dollar_tag_length)
qed

function split_loop :: "string \<Rightarrow> nat \<Rightarrow> nat \<Rightarrow> string list \<Rightarrow> string list" where
  "split_loop sql start i statements =
     (if i < length sql then
        (if sql ! i = CHR '';'' then
           (let segment = js_trim (slice start i sql)
            in split_loop sql (i + 1) (i + 1)
                 (if length segment > 0 then statements @ [segment] else statements))
         else split_loop sql start (next_pos sql i) statements)
      else
        (let last_segment = js_trim (drop start sql)
         in if length last_segment > 0 then statements @ [last_segment] else statements))"
  by pat_completeness auto
termination
  by (relation "measure (\<lambda>(sql, start, i, statements). length sql - i)")
     (auto intro: diff_less_mono2 next_pos_greater)

declare split_loop.simps [simp del]

definition splitStatements :: "string \<Rightarrow> string list" where
  "splitStatements sql = split_loop sql 0 0 []"

subsection \<open>The lexical pieces of a text\<close>

definition line_len :: "string \<Rightarrow> nat" where
  "line_len s =
     (if CHR 0x0A \<in> set s then length (takeWhile (\<lambda>c. c \<noteq> CHR 0x0A) s) + 1 else length s)"

function block_len :: "nat \<Rightarrow> string \<Rightarrow> nat" where
  "block_len d s =
     (if s = [] \<or> d = 0 then 0
      else if starts_with ''/*'' s then 2 + block_len (d + 1) (drop 2 s)
      else if starts_with ''*/'' s then 2 + block_len (d - 1) (drop 2 s)
      else 1 + block_len d (drop 1 s))"
  by pat_completeness auto
termination
  by (relation "measure (\<lambda>(d, s). length s)") auto

function quote_len :: "char \<Rightarrow> string \<Rightarrow> nat" where
  "quote_len q s =
     (if s = [] then 0
      else if starts_with [q, q] s then 2 + quote_len q (drop 2 s)
      else if hd s = q then 1
      else 1 + quote_len q (drop 1 s))"
  by pat_completeness auto
termination
  by (relation "measure (\<lambda>(q, s). length s)") auto

declare block_len.simps [simp del] quote_len.simps [simp del]

text \<open>The length of the first piece of a non-empty text.\<close>

definition piece_len :: "string \<Rightarrow> nat" where
  "piece_len s =
     (if starts_with ''--'' s then 2 + line_len (drop 2 s)
      else if starts_with ''/*'' s then 2 + block_len 1 (drop 2 s)
      else if is_quote (hd s) then 1 + quote_len (hd s) (drop 1 s)
      else if hd s = CHR ''$'' then
        (case dollar_tag s of
           None \<Rightarrow> 1
         | Some d \<Rightarrow> (case find_sub d (drop (length d) s) of None \<Rightarrow> 1 | Some k \<Rightarrow> length d + k + length d))
      else 1)"

lemma piece_len_pos: "s \<noteq> [] \<Longrightarrow> 0 < piece_len s"
  by (auto simp: piece_len_def split: option.splits dest!: dollar_tag_length)

text \<open>The texts between the top-level semicolons.\<close>

function segments :: "string \<Rightarrow> string list" where
  "segments s =
     (if s = [] then [[]]
      else if hd s = CHR '';'' then [] # segments (tl s)
      else (let rest = segments (drop (piece_len s) s)
            in (take (piece_len s) s @ hd rest) # tl rest))"
  by pat_completeness auto
termination
  by (relation "measure length") (auto simp: piece_len_pos)

declare segments.simps [simp del]

lemma segments_Nil [simp]: "segments [] = [[]]"
  by (simp add: segments.simps)

lemma segments_ne: "segments s \<noteq> []"
  by (subst segments.simps) (simp add: Let_def)

subsection \<open>The loop and the pieces agree\<close>

lemma slice_drop: "slice i (i + n) s = take n (drop i s)"
  by (simp add: slice_def)

lemma starts_with_drop: "starts_with p (drop i s) \<longleftrightarrow> slice i (i + length p) s = p"
  by (simp add: starts_with_def slice_drop)

lemma skip_block_comment_len: "skip_block_comment sql i d = i + block_len d (drop i sql)"
proof (induction sql i d rule: skip_block_comment.induct)
  case (1 sql i d)
  show ?case
  proof (cases "i < length sql \<and> d > 0")
    case False
    then show ?thesis
      by (subst skip_block_comment.simps, subst block_len.simps) auto
  next
    case True
    then have ne: "drop i sql \<noteq> []" by simp
    consider (open_) "starts_with ''/*'' (drop i sql)"
      | (close_) "\<not> starts_with ''/*'' (drop i sql)" "starts_with ''*/'' (drop i sql)"
      | (other) "\<not> starts_with ''/*'' (drop i sql)" "\<not> starts_with ''*/'' (drop i sql)" by blast
    then show ?thesis
      using "1.IH" [OF True refl] True ne
      by cases
         ((subst skip_block_comment.simps, subst block_len.simps,
           simp add: starts_with_drop Let_def add.commute)+)
  qed
qed

lemma skip_quoted_len: "skip_quoted sql ch i = i + quote_len ch (drop i sql)"
proof (induction sql ch i rule: skip_quoted.induct)
  case (1 sql ch i)
  show ?case
  proof (cases "i < length sql")
    case False
    then show ?thesis by (subst skip_quoted.simps, subst quote_len.simps) simp
  next
    case True
    then have ne: "drop i sql \<noteq> []" and h: "hd (drop i sql) = sql ! i"
      by (simp_all add: hd_drop_conv_nth)
    have two: "starts_with [ch, ch] (drop i sql) \<longleftrightarrow>
        sql ! i = ch \<and> i + 1 < length sql \<and> sql ! (i + 1) = ch"
    proof (cases "i + 1 < length sql")
      case True
      then have "drop i sql = sql ! i # sql ! (i + 1) # drop (i + 2) sql"
        by (simp add: Cons_nth_drop_Suc)
      then show ?thesis using True by (simp add: starts_with_def)
    next
      case False
      then have "length (drop i sql) \<le> 1" by simp
      then have "length (take 2 (drop i sql)) \<noteq> length [ch, ch]" by simp
      then have "\<not> starts_with [ch, ch] (drop i sql)"
        unfolding starts_with_def by (metis length_Cons list.size(3) numeral_2_eq_2)
      with False show ?thesis by simp
    qed
    show ?thesis
      using "1.IH" True two ne h
      by (subst skip_quoted.simps, subst quote_len.simps) (auto simp: add.commute)
  qed
qed

lemma next_pos_len: "i < length sql \<Longrightarrow> next_pos sql i = i + piece_len (drop i sql)"
proof -
  assume i: "i < length sql"
  then have h: "hd (drop i sql) = sql ! i" by (simp add: hd_drop_conv_nth)
  have ll: "(case index_of [CHR 0x0A] sql (i + 2) of None \<Rightarrow> length sql | Some nl \<Rightarrow> nl + 1)
      = i + (2 + line_len (drop 2 (drop i sql)))" if "starts_with ''--'' (drop i sql)"
  proof -
    from that have "length (take (length ''--'') (drop i sql)) = length ''--''"
      unfolding starts_with_def by (rule arg_cong)
    then have "i + 2 \<le> length sql" by simp
    then show ?thesis
      by (auto simp: index_of_def find_sub_single line_len_def add.commute)
  qed
  show ?thesis
    unfolding next_pos_def piece_len_def Let_def
    using ll h starts_with_drop [of "''--''" i sql] starts_with_drop [of "''/*''" i sql]
    by (auto simp: skip_block_comment_len skip_quoted_len index_of_def add.commute add.left_commute
        split: option.splits)
qed

subsection \<open>The statements are the segments, trimmed\<close>

definition keep_nonempty :: "string list \<Rightarrow> string list" where
  "keep_nonempty xs = filter (\<lambda>x. x \<noteq> []) xs"

lemma keep_nonempty_Cons [simp]:
  "keep_nonempty (x # xs) = (if x = [] then keep_nonempty xs else x # keep_nonempty xs)"
  by (simp add: keep_nonempty_def)

lemma keep_nonempty_Nil [simp]: "keep_nonempty [] = []"
  by (simp add: keep_nonempty_def)

lemma segments_semi: "hd s = CHR '';'' \<Longrightarrow> s \<noteq> [] \<Longrightarrow> segments s = [] # segments (tl s)"
  by (subst segments.simps) simp

lemma segments_piece:
  "hd s \<noteq> CHR '';'' \<Longrightarrow> s \<noteq> [] \<Longrightarrow>
   segments s = (take (piece_len s) s @ hd (segments (drop (piece_len s) s))) # tl (segments (drop (piece_len s) s))"
  by (subst segments.simps) (simp add: Let_def)

lemma slice_extend:
  "start \<le> i \<Longrightarrow> slice start (i + k) s = slice start i s @ take k (drop i s)"
proof -
  assume "start \<le> i"
  then have e: "i + k - start = (i - start) + k" by simp
  show ?thesis
    unfolding slice_def e take_add using \<open>start \<le> i\<close> by simp
qed

lemma slice_self [simp]: "slice i i s = []"
  by (simp add: slice_def)

lemma split_loop_segments:
  "start \<le> i \<Longrightarrow>
   split_loop sql start i acc =
     acc @ keep_nonempty (map js_trim
       ((slice start i sql @ hd (segments (drop i sql))) # tl (segments (drop i sql))))"
proof (induction sql start i acc rule: split_loop.induct)
  case (1 sql start i acc)
  show ?case
  proof (cases "i < length sql")
    case False
    with "1.prems" show ?thesis
      by (subst split_loop.simps) (simp add: slice_def)
  next
    case True
    then have h: "hd (drop i sql) = sql ! i" and ne: "drop i sql \<noteq> []"
      and tl: "tl (drop i sql) = drop (i + 1) sql"
      by (simp_all add: hd_drop_conv_nth tl_drop drop_Suc)
    show ?thesis
    proof (cases "sql ! i = CHR '';''")
      case semi: True
      have sg: "segments (drop i sql) = [] # segments (drop (i + 1) sql)"
        using segments_semi [of "drop i sql"] h ne semi tl by simp
      obtain x xs where one: "segments (drop (i + 1) sql) = x # xs"
        using segments_ne by (cases "segments (drop (i + 1) sql)") auto
      show ?thesis
        using "1.IH"(1) [OF True semi refl] semi True one
        by (subst split_loop.simps) (simp add: sg Let_def)
    next
      case other: False
      let ?k = "piece_len (drop i sql)"
      have sg: "segments (drop i sql) = (take ?k (drop i sql) @ hd (segments (drop (i + ?k) sql)))
          # tl (segments (drop (i + ?k) sql))"
        using segments_piece [of "drop i sql"] h ne other by (simp add: add.commute)
      have np: "next_pos sql i = i + ?k" using True by (rule next_pos_len)
      have "split_loop sql start i acc = split_loop sql start (i + ?k) acc"
        using True other np by (subst split_loop.simps) simp
      also have "\<dots> = acc @ keep_nonempty (map js_trim
          ((slice start (i + ?k) sql @ hd (segments (drop (i + ?k) sql)))
           # tl (segments (drop (i + ?k) sql))))"
        using "1.IH"(2) [OF True other] "1.prems" np by simp
      also have "slice start (i + ?k) sql = slice start i sql @ take ?k (drop i sql)"
        using "1.prems" by (rule slice_extend)
      finally show ?thesis by (simp add: sg)
    qed
  qed
qed

lemma splitStatements_segments: "splitStatements sql = keep_nonempty (map js_trim (segments sql))"
  using split_loop_segments [of 0 0 sql "[]"]
  by (simp add: splitStatements_def slice_def segments_ne flip: list.map)

lemma join_hd: "xs \<noteq> [] \<Longrightarrow> join sep ((a @ hd xs) # tl xs) = a @ join sep xs"
  by (cases xs; cases "tl xs") auto

lemma join_segments: "join '';'' (segments s) = s"
proof (induction s rule: segments.induct)
  case (1 s)
  consider (nil) "s = []" | (semi) "s \<noteq> []" "hd s = CHR '';''" | (other) "s \<noteq> []" "hd s \<noteq> CHR '';''"
    by blast
  then show ?case
  proof cases
    case nil
    then show ?thesis by simp
  next
    case semi
    with 1 have "join '';'' (segments s) = '';'' @ tl s"
      by (simp add: segments_semi join_Cons segments_ne)
    with semi show ?thesis by (cases s) auto
  next
    case other
    with 1 show ?thesis by (simp add: segments_piece join_hd segments_ne)
  qed
qed

text \<open>
  C4. The splitter loses and invents nothing: the text is the segments joined by semicolons, the
  statements are exactly the segments trimmed with the empty ones dropped, in order, and no
  statement is empty or has white space around it.
\<close>

theorem splitStatements_spec:
  "splitStatements sql = filter (\<lambda>s. s \<noteq> []) (map js_trim (segments sql))
   \<and> join '';'' (segments sql) = sql
   \<and> list_all (\<lambda>s. s \<noteq> [] \<and> trimmed s) (splitStatements sql)"
  by (simp add: splitStatements_segments join_segments keep_nonempty_def list_all_iff)
     (auto simp: trimmed_js_trim)

subsection \<open>A statement is one segment\<close>

lemma starts_with_prefix: "starts_with p x \<Longrightarrow> starts_with p (x @ y)"
  by (auto simp: starts_with_iff)

lemma starts_with_shorten: "starts_with p (x @ y) \<Longrightarrow> length p \<le> length x \<Longrightarrow> starts_with p x"
  by (simp add: starts_with_def)

lemma block_len_Nil [simp]: "block_len d [] = 0"
  by (subst block_len.simps) simp

lemma block_len_0 [simp]: "block_len 0 s = 0"
  by (subst block_len.simps) simp

lemma quote_len_Nil [simp]: "quote_len q [] = 0"
  by (subst quote_len.simps) simp

lemma block_len_eq_0: "block_len d s = 0 \<longleftrightarrow> s = [] \<or> d = 0"
  by (subst block_len.simps) simp

lemma quote_len_eq_0: "quote_len q s = 0 \<longleftrightarrow> s = []"
  by (subst quote_len.simps) simp

lemma block_len_open:
  "starts_with ''/*'' s \<Longrightarrow> 0 < d \<Longrightarrow> block_len d s = 2 + block_len (d + 1) (drop 2 s)"
  by (subst block_len.simps) (auto simp: starts_with_def)

lemma block_len_close:
  "starts_with ''*/'' s \<Longrightarrow> \<not> starts_with ''/*'' s \<Longrightarrow> 0 < d \<Longrightarrow>
   block_len d s = 2 + block_len (d - 1) (drop 2 s)"
  by (subst block_len.simps) (auto simp: starts_with_def)

lemma block_len_other:
  "\<not> starts_with ''*/'' (c # s) \<Longrightarrow> \<not> starts_with ''/*'' (c # s) \<Longrightarrow> 0 < d \<Longrightarrow>
   block_len d (c # s) = 1 + block_len d s"
  by (subst block_len.simps) simp

lemma quote_len_pair: "starts_with [q, q] s \<Longrightarrow> quote_len q s = 2 + quote_len q (drop 2 s)"
  by (subst quote_len.simps) (auto simp: starts_with_def)

lemma quote_len_single:
  "\<not> starts_with [q, q] (c # s) \<Longrightarrow> quote_len q (c # s) = (if c = q then 1 else 1 + quote_len q s)"
  by (subst quote_len.simps) simp

lemma block_len_append:
  "block_len d (x @ y) \<le> length x \<Longrightarrow> block_len d x = block_len d (x @ y)"
proof (induction d x rule: block_len.induct)
  case (1 d x)
  show ?case
  proof (cases "x = [] \<or> d = 0")
    case True
    then show ?thesis using "1.prems" by (auto simp: block_len_eq_0)
  next
    case False
    consider (open_) "starts_with ''/*'' (x @ y)"
      | (close_) "\<not> starts_with ''/*'' (x @ y)" "starts_with ''*/'' (x @ y)"
      | (other) "\<not> starts_with ''/*'' (x @ y)" "\<not> starts_with ''*/'' (x @ y)" by blast
    then show ?thesis
    proof cases
      case open_
      with False "1.prems" have l: "2 \<le> length x" by (simp add: block_len_open)
      with open_ have "starts_with ''/*'' x" by (simp add: starts_with_shorten)
      with 1 False open_ l show ?thesis by (simp add: block_len_open)
    next
      case close_
      with False "1.prems" have l: "2 \<le> length x" by (simp add: block_len_close)
      with close_ have "starts_with ''*/'' x" "\<not> starts_with ''/*'' x"
        by (auto simp: starts_with_shorten dest: starts_with_prefix)
      with 1 False close_ l show ?thesis by (simp add: block_len_close)
    next
      case other
      then have "\<not> starts_with ''*/'' x" "\<not> starts_with ''/*'' x" by (auto dest: starts_with_prefix)
      with 1 False other show ?thesis by (cases x) (simp_all add: block_len_other)
    qed
  qed
qed

lemma quote_len_append:
  "quote_len q (x @ y) \<le> length x \<Longrightarrow> quote_len q x = quote_len q (x @ y)"
proof (induction q x rule: quote_len.induct)
  case (1 q x)
  show ?case
  proof (cases x)
    case Nil
    then show ?thesis using "1.prems" by (simp add: quote_len_eq_0)
  next
    case (Cons c x')
    show ?thesis
    proof (cases "starts_with [q, q] (x @ y)")
      case True
      with "1.prems" have l: "2 \<le> length x" by (simp add: quote_len_pair)
      with True have "starts_with [q, q] x" by (simp add: starts_with_shorten)
      with 1 True l Cons show ?thesis using quote_len_pair [of q x] quote_len_pair [of q "x @ y"] by simp
    next
      case False
      then have "\<not> starts_with [q, q] x" by (auto dest: starts_with_prefix)
      with 1 False Cons show ?thesis by (auto simp: quote_len_single)
    qed
  qed
qed

lemma dollar_tag_not_dollar: "hd s \<noteq> CHR ''$'' \<Longrightarrow> dollar_tag s = None"
  by (cases s) (simp_all add: dollar_tag_def)

lemma takeWhile_stop: "takeWhile P (tag @ c # v) = tag" if "list_all P tag" "\<not> P c"
  using that by (induction tag) auto

lemma dollar_tag_intro:
  assumes "s = CHR ''$'' # tag @ ''$'' @ v" "list_all word_char tag" "tag = [] \<or> ident_start (hd tag)"
  shows "dollar_tag s = Some (CHR ''$'' # tag @ ''$'')"
proof -
  have nd: "\<not> word_char (CHR ''$'')" "\<not> ident_start (CHR ''$'')"
    by (simp_all add: word_char_def ident_start_def alpha_char_def digit_char_def lower_char_def ascii_lower_def)
  show ?thesis
  proof (cases tag)
    case Nil
    with assms nd show ?thesis by (simp add: dollar_tag_def starts_with_def)
  next
    case (Cons e tag')
    with assms have "ident_start e" by simp
    moreover have "takeWhile word_char (tag @ CHR ''$'' # v) = tag"
      using assms(2) nd(1) by (rule takeWhile_stop)
    ultimately show ?thesis using assms(1) Cons by (simp add: dollar_tag_def starts_with_def)
  qed
qed

lemma dollar_tag_tag:
  "dollar_tag s = Some d \<Longrightarrow>
     \<exists>tag v. s = CHR ''$'' # tag @ ''$'' @ v \<and> d = CHR ''$'' # tag @ ''$'' \<and> list_all word_char tag
       \<and> (tag = [] \<or> ident_start (hd tag))"
proof -
  assume a: "dollar_tag s = Some d"
  then obtain tag where t: "d = CHR ''$'' # tag @ ''$''" "list_all word_char tag" "starts_with d s"
    using dollar_tag_Some by blast
  then obtain v where s: "s = CHR ''$'' # tag @ ''$'' @ v" by (auto simp: starts_with_iff)
  have "ident_start (hd tag)" if "tag \<noteq> []"
    using a s t(1) that
    by (cases tag) (auto simp: dollar_tag_def Let_def split: if_splits)
  with s t show ?thesis by blast
qed

lemma dollar_tag_append: "dollar_tag x = Some d \<Longrightarrow> dollar_tag (x @ y) = Some d"
  by (drule dollar_tag_tag) (auto intro: dollar_tag_intro)

lemma dollar_tag_shorten:
  assumes "dollar_tag (x @ y) = Some d" "length d \<le> length x"
  shows "dollar_tag x = Some d"
proof -
  obtain tag v where t: "x @ y = CHR ''$'' # tag @ ''$'' @ v" "d = CHR ''$'' # tag @ ''$''"
      "list_all word_char tag" "tag = [] \<or> ident_start (hd tag)"
    using dollar_tag_tag [OF assms(1)] by blast
  then have "x @ y = d @ v" by simp
  with assms(2) obtain w where "x = d @ w" by (auto simp: append_eq_append_conv2)
  with t show ?thesis by (auto intro: dollar_tag_intro)
qed

lemma find_sub_append_Some:
  "find_sub p (x @ y) = Some k \<Longrightarrow> k + length p \<le> length x \<Longrightarrow> find_sub p x = Some k"
proof (induction x arbitrary: k)
  case Nil
  then show ?case by (cases y) (auto split: if_splits)
next
  case (Cons c x)
  show ?case
  proof (cases "starts_with p (c # x @ y)")
    case True
    with Cons.prems have "k = 0" by simp
    with Cons.prems True have "starts_with p (c # x)"
      using starts_with_shorten [of p "c # x" y] by simp
    with \<open>k = 0\<close> show ?thesis by simp
  next
    case False
    then have "\<not> starts_with p (c # x)" using starts_with_prefix [of p "c # x" y] by auto
    with False Cons show ?thesis by auto
  qed
qed

lemma find_sub_append_None: "find_sub p (x @ y) = None \<Longrightarrow> find_sub p x = None"
  using find_sub_take [of p "x @ y" "length x"] by simp

lemma line_len_append: "line_len (x @ y) \<le> length x \<Longrightarrow> line_len x = line_len (x @ y)"
proof (cases "CHR 0x0A \<in> set x")
  case True
  then show ?thesis by (auto simp: line_len_def takeWhile_append1)
next
  case False
  then have t: "takeWhile (\<lambda>c. c \<noteq> CHR 0x0A) (x @ y) = x @ takeWhile (\<lambda>c. c \<noteq> CHR 0x0A) y"
    by (intro takeWhile_append2) auto
  assume "line_len (x @ y) \<le> length x"
  with False t show ?thesis by (auto simp: line_len_def split: if_splits)
qed

lemma piece_len_append:
  assumes x: "x \<noteq> []" and k: "piece_len (x @ y) \<le> length x"
  shows "piece_len x = piece_len (x @ y)"
proof -
  have h: "hd (x @ y) = hd x" using x by simp
  consider (line) "starts_with ''--'' (x @ y)"
    | (block) "\<not> starts_with ''--'' (x @ y)" "starts_with ''/*'' (x @ y)"
    | (rest) "\<not> starts_with ''--'' (x @ y)" "\<not> starts_with ''/*'' (x @ y)" by blast
  then show ?thesis
  proof cases
    case line
    with k have l: "2 \<le> length x" by (simp add: piece_len_def)
    with line have s: "starts_with ''--'' x" by (simp add: starts_with_shorten)
    from line k l have "line_len (drop 2 x @ y) \<le> length (drop 2 x)" by (simp add: piece_len_def)
    with line s l show ?thesis by (simp add: piece_len_def line_len_append)
  next
    case block
    with k have l: "2 \<le> length x" by (simp add: piece_len_def)
    with block have s: "starts_with ''/*'' x" "\<not> starts_with ''--'' x"
      by (auto simp: starts_with_shorten dest: starts_with_prefix)
    from block k l have "block_len 1 (drop 2 x @ y) \<le> length (drop 2 x)" by (simp add: piece_len_def)
    with block s l show ?thesis by (simp add: piece_len_def block_len_append)
  next
    case rest
    then have s: "\<not> starts_with ''/*'' x" "\<not> starts_with ''--'' x" by (auto dest: starts_with_prefix)
    show ?thesis
    proof (cases "is_quote (hd x)")
      case True
      with x rest h k have "quote_len (hd x) (drop 1 x @ y) \<le> length (drop 1 x)"
        by (cases x) (simp_all add: piece_len_def)
      from quote_len_append [OF this] True x rest h s show ?thesis
        by (cases x) (simp_all add: piece_len_def)
    next
      case nq: False
      show ?thesis
      proof (cases "dollar_tag (x @ y)")
        case None
        then have "dollar_tag x = None" using dollar_tag_append [of x _ y] by (cases "dollar_tag x") auto
        with None nq rest h s show ?thesis by (simp add: piece_len_def)
      next
        case (Some d)
        then have dx: "dollar_tag x = (if length d \<le> length x then Some d else None)"
          using dollar_tag_shorten [of x y d] dollar_tag_append [of x _ y]
            dollar_tag_tag [of x] by (cases "dollar_tag x") auto
        show ?thesis
        proof (cases "find_sub d (drop (length d) (x @ y))")
          case None
          then have "find_sub d (drop (length d) x) = None" if "length d \<le> length x"
            using that by (auto dest: find_sub_append_None)
          with None Some dx nq rest h s show ?thesis by (simp add: piece_len_def)
        next
          case (Some j)
          have hd: "hd x = CHR ''$''"
            using dollar_tag_not_dollar [of "x @ y"] \<open>dollar_tag (x @ y) = Some d\<close> h by force
          with Some k nq rest h \<open>dollar_tag (x @ y) = Some d\<close>
          have l: "length d + j + length d \<le> length x" by (simp add: piece_len_def)
          then have "find_sub d (drop (length d) x) = Some j"
            using Some find_sub_append_Some [of d "drop (length d) x" y j] by simp
          with Some dx l nq rest h s hd \<open>dollar_tag (x @ y) = Some d\<close> show ?thesis
            by (simp add: piece_len_def)
        qed
      qed
    qed
  qed
qed

text \<open>White space behind a text changes only how far its last piece reaches.\<close>

lemma starts_with_space:
  assumes "starts_with p (x @ y)" "list_all js_space y" "list_all (\<lambda>c. \<not> js_space c) p"
  shows "starts_with p x"
proof (cases "length p \<le> length x")
  case True
  with assms(1) show ?thesis by (rule starts_with_shorten)
next
  case False
  from assms(1) obtain t where "x @ y = p @ t" by (auto simp: starts_with_iff)
  with False obtain q where q: "p = x @ q" "y = q @ t" "q \<noteq> []"
    by (auto simp: append_eq_append_conv2)
  with assms(2,3) have "js_space (hd q)" "\<not> js_space (hd q)" by (cases q; simp)+
  then show ?thesis by simp
qed

lemma starts_with_space_iff:
  "list_all js_space y \<Longrightarrow> list_all (\<lambda>c. \<not> js_space c) p \<Longrightarrow>
   starts_with p (x @ y) \<longleftrightarrow> starts_with p x"
  by (auto intro: starts_with_space starts_with_prefix)

lemma space_facts:
  "js_space c \<Longrightarrow> c \<noteq> CHR 0x27 \<and> c \<noteq> CHR 0x22 \<and> c \<noteq> CHR ''$'' \<and> c \<noteq> CHR ''-'' \<and> c \<noteq> CHR ''/'' \<and>
     c \<noteq> CHR ''*'' \<and> c \<noteq> CHR '';'' \<and> \<not> is_quote c"
  by (auto simp: js_space_def is_quote_def)

lemma not_space [simp]:
  "\<not> js_space (CHR ''-'')" "\<not> js_space (CHR ''/'')" "\<not> js_space (CHR ''*'')"
  "\<not> js_space (CHR ''$'')" "\<not> js_space (CHR 0x27)" "\<not> js_space (CHR 0x22)"
  by (simp_all add: js_space_def)

lemma line_len_space: "line_len x = min (length x) (line_len (x @ y))"
proof (cases "CHR 0x0A \<in> set x")
  case True
  then obtain a b where x: "x = a @ CHR 0x0A # b" "CHR 0x0A \<notin> set a"
    by (metis split_list_first)
  then have "takeWhile (\<lambda>c. c \<noteq> CHR 0x0A) (a @ CHR 0x0A # w) = a" for w
    by (intro takeWhile_stop) (auto simp: list_all_iff)
  with x show ?thesis by (simp add: line_len_def)
next
  case False
  then have "takeWhile (\<lambda>c. c \<noteq> CHR 0x0A) (x @ y) = x @ takeWhile (\<lambda>c. c \<noteq> CHR 0x0A) y"
    by (intro takeWhile_append2) auto
  with False show ?thesis by (auto simp: line_len_def)
qed

lemma block_len_space:
  "list_all js_space y \<Longrightarrow> block_len d x = min (length x) (block_len d (x @ y))"
proof (induction d x rule: block_len.induct)
  case (1 d x)
  show ?case
  proof (cases "x = [] \<or> d = 0")
    case True
    then show ?thesis by auto
  next
    case False
    note sw = starts_with_space_iff [OF "1.prems", of "''/*''" x]
      starts_with_space_iff [OF "1.prems", of "''*/''" x]
    consider (open_) "starts_with ''/*'' x"
      | (close_) "\<not> starts_with ''/*'' x" "starts_with ''*/'' x"
      | (other) "\<not> starts_with ''/*'' x" "\<not> starts_with ''*/'' x" by blast
    then show ?thesis
    proof cases
      case open_
      then obtain z where "x = ''/*'' @ z" by (auto simp: starts_with_iff)
      with 1 False open_ sw show ?thesis by (simp add: block_len_open)
    next
      case close_
      then obtain z where "x = ''*/'' @ z" by (auto simp: starts_with_iff)
      with 1 False close_ sw show ?thesis by (simp add: block_len_close)
    next
      case other
      with 1 False sw show ?thesis by (cases x) (simp_all add: block_len_other)
    qed
  qed
qed

lemma quote_len_space:
  "list_all js_space y \<Longrightarrow> \<not> js_space q \<Longrightarrow> quote_len q x = min (length x) (quote_len q (x @ y))"
proof (induction q x rule: quote_len.induct)
  case (1 q x)
  have sw: "starts_with [q, q] (x @ y) \<longleftrightarrow> starts_with [q, q] x"
    using 1 by (intro starts_with_space_iff) simp_all
  show ?case
  proof (cases "starts_with [q, q] x")
    case True
    then obtain z where "x = [q, q] @ z" by (auto simp: starts_with_iff)
    with 1 True sw show ?thesis
      using quote_len_pair [of q x] quote_len_pair [of q "x @ y"] by simp
  next
    case False
    with 1 sw show ?thesis by (cases x) (simp_all add: quote_len_single)
  qed
qed

lemma dollar_tag_last: "dollar_tag s = Some d \<Longrightarrow> d \<noteq> [] \<and> last d = CHR ''$''"
  by (auto dest: dollar_tag_Some)

lemma dollar_fits:
  assumes "x @ y = u @ d @ v" "d \<noteq> []" "last d = CHR ''$''" "list_all js_space y"
  shows "length u + length d \<le> length x"
proof (rule ccontr)
  assume n: "\<not> ?thesis"
  obtain e where d: "d = e @ ''$''" using assms(2,3) by (cases d rule: rev_cases) auto
  let ?i = "length u + length e"
  have "(u @ d @ v) ! ?i = CHR ''$''" using d by (simp add: nth_append)
  then have a: "(x @ y) ! ?i = CHR ''$''" using assms(1) by simp
  have "?i < length (x @ y)" using assms(1) d by simp
  moreover from n d have "length x \<le> ?i" by simp
  ultimately have "CHR ''$'' \<in> set y" using a
    by (metis add_diff_inverse_nat length_append linorder_not_le nat_add_left_cancel_less nth_append nth_mem)
  with assms(4) show False by (auto simp: list_all_iff)
qed

lemma dollar_piece_fits:
  assumes "dollar_tag (x @ y) = Some d" "find_sub d (drop (length d) (x @ y)) = Some j"
    "list_all js_space y"
  shows "length d + j + length d \<le> length x"
proof -
  let ?z = "x @ y"
  let ?r = "drop (length d) ?z"
  note d = dollar_tag_last [OF assms(1)]
  from find_sub_Some [OF assms(2)]
  have r: "?r = take j ?r @ d @ drop (j + length d) ?r" and l: "j + length d \<le> length ?r" by blast+
  have "?z = take (length d) ?z @ ?r" by (rule append_take_drop_id [symmetric])
  with r have "x @ y = (take (length d) ?z @ take j ?r) @ d @ drop (j + length d) ?r"
    by (metis append.assoc)
  from dollar_fits [OF this] d assms(3)
  have "length (take (length d) ?z @ take j ?r) + length d \<le> length x" by blast
  moreover obtain v where "?z = d @ v"
    using dollar_tag_Some [OF assms(1)] by (auto simp: starts_with_iff)
  then have "length d \<le> length ?z" by (metis le_add1 length_append)
  ultimately show ?thesis using l by simp
qed

lemma piece_len_space:
  assumes x: "x \<noteq> []" and y: "list_all js_space y"
  shows "piece_len x = min (length x) (piece_len (x @ y))"
proof (cases "piece_len (x @ y) \<le> length x")
  case True
  with piece_len_append [OF x this] show ?thesis by simp
next
  case False
  have h: "hd (x @ y) = hd x" using x by simp
  have l: "1 \<le> length x" using x by (cases x) simp_all
  note sw = starts_with_space_iff [OF y, of "''--''" x] starts_with_space_iff [OF y, of "''/*''" x]
  consider (line) "starts_with ''--'' x"
    | (block) "\<not> starts_with ''--'' x" "starts_with ''/*'' x"
    | (quote) "\<not> starts_with ''--'' x" "\<not> starts_with ''/*'' x" "is_quote (hd x)"
    | (rest) "\<not> starts_with ''--'' x" "\<not> starts_with ''/*'' x" "\<not> is_quote (hd x)" by blast
  then show ?thesis
  proof cases
    case line
    then obtain z where "x = ''--'' @ z" by (auto simp: starts_with_iff)
    with line sw line_len_space [of z y] show ?thesis by (simp add: piece_len_def)
  next
    case block
    then obtain z where "x = ''/*'' @ z" by (auto simp: starts_with_iff)
    with block sw block_len_space [OF y, of 1 z] show ?thesis by (simp add: piece_len_def)
  next
    case quote
    then have "\<not> js_space (hd x)" by (auto dest: space_facts)
    with quote sw x quote_len_space [OF y, of "hd x" "drop 1 x"] h show ?thesis
      by (cases x) (simp_all add: piece_len_def)
  next
    case rest
    with sw h False l obtain d j where
      "dollar_tag (x @ y) = Some d" "find_sub d (drop (length d) (x @ y)) = Some j"
      "piece_len (x @ y) = length d + j + length d"
      by (auto simp: piece_len_def split: if_splits option.splits)
    with dollar_piece_fits [of x y d j] y False show ?thesis by simp
  qed
qed

lemma piece_len_le: "z \<noteq> [] \<Longrightarrow> piece_len z \<le> length z"
  using piece_len_space [of z "[]"] by simp

lemma segments_hd_prefix: "\<exists>t. z = hd (segments z) @ t"
proof (induction z rule: segments.induct)
  case (1 z)
  show ?case
  proof (cases "z = [] \<or> hd z = CHR '';''")
    case True
    then show ?thesis by (cases "z = []") (auto simp: segments_semi)
  next
    case False
    with 1 obtain t where "drop (piece_len z) z = hd (segments (drop (piece_len z) z)) @ t" by auto
    then have "z = (take (piece_len z) z @ hd (segments (drop (piece_len z) z))) @ t"
      by (metis append.assoc append_take_drop_id)
    with False show ?thesis by (auto simp: segments_piece)
  qed
qed

lemma segments_one:
  "x \<noteq> [] \<Longrightarrow> hd x \<noteq> CHR '';'' \<Longrightarrow> segments (drop (piece_len x) x) = [drop (piece_len x) x] \<Longrightarrow>
   segments x = [x]"
  by (simp add: segments_piece)

lemma segments_shorten:
  "hd (segments z) = x @ w \<Longrightarrow> list_all js_space w \<Longrightarrow> segments x = [x]"
proof (induction z arbitrary: x rule: segments.induct)
  case (1 z)
  show ?case
  proof (cases "x = []")
    case True
    then show ?thesis by simp
  next
    case x: False
    have z1: "z \<noteq> []" using "1.prems" x by auto
    moreover have "hd z \<noteq> CHR '';''" using "1.prems" x z1 segments_semi [of z] by auto
    ultimately have z: "z \<noteq> []" "hd z \<noteq> CHR '';''" by simp_all
    let ?k = "piece_len z"
    have k: "0 < ?k" "?k \<le> length z" using z by (simp_all add: piece_len_pos piece_len_le)
    have eq: "x @ w = take ?k z @ hd (segments (drop ?k z))"
      using "1.prems"(1) segments_piece [OF z(2,1)] by simp
    have "hd (x @ w) = hd z" using eq k z by (simp add: hd_append)
    with x z have nx: "hd x \<noteq> CHR '';''" by simp
    show ?thesis
    proof (cases "?k \<le> length x")
      case True
      let ?x' = "drop ?k x"
      from arg_cong [OF eq, of "take ?k"] True k have "take ?k x = take ?k z" by simp
      then have "x = take ?k z @ ?x'" by (metis append_take_drop_id)
      moreover from arg_cong [OF eq, of "drop ?k"] True k have "?x' @ w = hd (segments (drop ?k z))" by simp
      ultimately obtain x' where x': "x = take ?k z @ x'" "x' @ w = hd (segments (drop ?k z))" by blast
      obtain t where "z = (x @ w) @ t" using segments_hd_prefix [of z] "1.prems"(1) by auto
      then have px: "piece_len x = ?k" using True piece_len_append [OF x, of "w @ t"] by simp
      have "segments x' = [x']" using "1.IH"(2) [OF z x'(2) [symmetric] "1.prems"(2)] .
      moreover have "drop (piece_len x) x = x'"
        unfolding px by (subst x'(1)) (use k in simp)
      ultimately show ?thesis using segments_one [OF x nx] by simp
    next
      case False
      with eq k obtain u where "x @ u = take ?k z" and w: "w = u @ hd (segments (drop ?k z))"
        by (auto simp: append_eq_append_conv2)
      then have u: "take ?k z = x @ u" by simp
      have "piece_len (take ?k z) = ?k"
        using piece_len_append [of "take ?k z" "drop ?k z"] k z by simp
      moreover have "list_all js_space u" using "1.prems"(2) w by simp
      ultimately have "piece_len x = length x"
        using piece_len_space [OF x, of u] u False by simp
      then show ?thesis using segments_one [OF x nx] by simp
    qed
  qed
qed

lemma segments_drop_space: "list_all js_space u \<Longrightarrow> hd (segments (u @ z)) = u @ hd (segments z)"
proof (induction u)
  case Nil
  then show ?case by simp
next
  case (Cons c u)
  then have c: "c \<noteq> CHR '';''" "piece_len (c # u @ z) = 1"
    using space_facts [of c] by (simp_all add: piece_len_def starts_with_def)
  with Cons segments_piece [of "c # u @ z"] show ?case by simp
qed

lemma segments_suffix: "seg \<in> set (segments s) \<Longrightarrow> \<exists>z. seg = hd (segments z)"
proof (induction s rule: segments.induct)
  case (1 s)
  consider (nil) "s = []" | (semi) "s \<noteq> []" "hd s = CHR '';''" | (other) "s \<noteq> []" "hd s \<noteq> CHR '';''"
    by blast
  then show ?case
  proof cases
    case nil
    with 1 have "seg = hd (segments [])" by simp
    then show ?thesis by blast
  next
    case semi
    with 1 have "seg = hd (segments []) \<or> seg \<in> set (segments (tl s))" by (simp add: segments_semi)
    with 1 semi show ?thesis by blast
  next
    case other
    with 1 have "seg = hd (segments s) \<or> seg \<in> set (tl (segments (drop (piece_len s) s)))"
      by (auto simp: segments_piece)
    with 1 other segments_ne show ?thesis by (metis list.set_sel(2))
  qed
qed

lemma statement_one_segment:
  assumes "seg \<in> set (segments sql)"
  shows "segments (js_trim seg) = [js_trim seg]"
proof -
  obtain z where z: "seg = hd (segments z)" using segments_suffix [OF assms] by blast
  obtain u w where t: "seg = u @ js_trim seg @ w" "list_all js_space u" "list_all js_space w"
    using js_trim_decomp by blast
  obtain v where "z = seg @ v" using segments_hd_prefix [of z] z by auto
  with t(1) have "z = u @ (js_trim seg @ w @ v)" by (metis append.assoc)
  then have "hd (segments z) = u @ hd (segments (js_trim seg @ w @ v))"
    using segments_drop_space [OF t(2)] by simp
  with z t(1) have "hd (segments (js_trim seg @ w @ v)) = js_trim seg @ w"
    by (metis same_append_eq)
  from segments_shorten [OF this t(3)] show ?thesis .
qed

text \<open>
  A statement the splitter returns is one statement: splitting it again gives it back, so no
  top-level semicolon is left inside it, whatever literals and comments it carries (an unterminated
  one included).
\<close>

theorem splitStatements_stable:
  "list_all (\<lambda>stmt. splitStatements stmt = [stmt]) (splitStatements sql)"
  by (auto simp: list_all_iff splitStatements_segments keep_nonempty_def statement_one_segment)

end
