(* ===== verification/Paging.thy ===== *)
theory Paging
  imports Splitter Dialect
begin

text \<open>
  \<open>query/paging.ts\<close>: the bounded window around a \<open>SELECT\<close>, and the lexical tests the query service
  shares (\<open>SELECT_PREFIX\<close>, \<open>EXPLAIN_RE\<close>, \<open>\banalyze\b\<close>).
\<close>

definition QUERY_PAGE_SIZE :: nat where
  "QUERY_PAGE_SIZE = 100"

record query_order_by =
  obColumn :: string
  obDir :: sort_dir
  obQuoteIdent :: "string \<Rightarrow> string res"

definition orderByClause :: "query_order_by option \<Rightarrow> string res" where
  "orderByClause orderBy =
     (case orderBy of
        None \<Rightarrow> Inr []
      | Some ob \<Rightarrow> res_map (\<lambda>c. '' ORDER BY '' @ c @ '' '' @ sort_text (obDir ob)) (obQuoteIdent ob (obColumn ob)))"

text \<open>\<open>sql.trim().replace(/;\s*$/, '')\<close>\<close>

definition strip_statement :: "string \<Rightarrow> string" where
  "strip_statement sql = drop_trailing_semicolon (js_trim sql)"

definition buildPagedQuery ::
  "string \<Rightarrow> (nat \<Rightarrow> string) \<Rightarrow> nat \<Rightarrow> nat \<Rightarrow> query_order_by option \<Rightarrow> sql_fragment res" where
  "buildPagedQuery sql placeholder limit offset orderBy =
     res_map (\<lambda>ob. \<lparr>fragSql = ''SELECT * FROM ('' @ strip_statement sql @ '') AS __prost_query'' @ ob
                       @ '' LIMIT '' @ placeholder 1 @ '' OFFSET '' @ placeholder 2,
                     fragParams = [JNum (int limit + 1), JNum (int offset)]\<rparr>)
       (orderByClause orderBy)"

definition buildOrderedStatement :: "string \<Rightarrow> query_order_by \<Rightarrow> string res" where
  "buildOrderedStatement sql orderBy =
     res_map (\<lambda>ob. ''SELECT * FROM ('' @ strip_statement sql @ '') AS __prost_query'' @ ob)
       (orderByClause (Some orderBy))"

subsection \<open>Keywords\<close>

text \<open>\<open>/^w\b/i\<close> and what follows the match; \<open>w\<close> in lower case, ending in a word character.\<close>

definition strip_keyword :: "string \<Rightarrow> string \<Rightarrow> string option" where
  "strip_keyword w s =
     (if map ascii_lower (take (length w) s) = w
         \<and> (drop (length w) s = [] \<or> \<not> word_char (s ! length w))
      then Some (drop (length w) s) else None)"

text \<open>\<open>/\bw\b/i.test(s)\<close>: the keyword somewhere, neither end inside a longer word.\<close>

fun has_keyword_after :: "bool \<Rightarrow> string \<Rightarrow> string \<Rightarrow> bool" where
  "has_keyword_after prev_word w [] = False"
| "has_keyword_after prev_word w (c # s) =
     ((\<not> prev_word \<and> strip_keyword w (c # s) \<noteq> None) \<or> has_keyword_after (word_char c) w s)"

definition has_keyword :: "string \<Rightarrow> string \<Rightarrow> bool" where
  "has_keyword w s = has_keyword_after False w s"

definition looksLikeSingleSelect :: "string \<Rightarrow> bool" where
  "looksLikeSingleSelect sql \<longleftrightarrow>
     strip_keyword ''select'' (trim_start sql) \<noteq> None \<and> \<not> str_includes '';'' (strip_statement sql)"

lemma drop_trailing_semicolon_trimmed:
  "trimmed t \<Longrightarrow> drop_trailing_semicolon t = (if t \<noteq> [] \<and> last t = CHR '';'' then butlast t else t)"
  by (simp add: drop_trailing_semicolon_def trimmed_trim_end)

lemma strip_statement_cases:
  "js_trim sql = strip_statement sql \<or> js_trim sql = strip_statement sql @ '';''"
  unfolding strip_statement_def drop_trailing_semicolon_trimmed [OF trimmed_js_trim]
  by (metis append_butlast_last_id)

lemma length_join_segments: "length (segments s) \<le> Suc (count_list s (CHR '';''))"
proof (induction s rule: segments.induct)
  case (1 s)
  consider (nil) "s = []" | (semi) "s \<noteq> []" "hd s = CHR '';''" | (other) "s \<noteq> []" "hd s \<noteq> CHR '';''"
    by blast
  then show ?case
  proof cases
    case nil
    then show ?thesis by simp
  next
    case semi
    with 1 show ?thesis by (cases s) (simp_all add: segments_semi)
  next
    case other
    have c: "count_list (drop n s) x \<le> count_list s x" for n x
      by (metis append_take_drop_id count_list_append le_add2)
    have "length (segments s) = length (segments (drop (piece_len s) s))"
      using other segments_ne by (simp add: segments_piece)
    also have "\<dots> \<le> Suc (count_list (drop (piece_len s) s) (CHR '';''))" using 1 other by simp
    also have "\<dots> \<le> Suc (count_list s (CHR '';''))" using c by simp
    finally show ?thesis .
  qed
qed

lemma single_segment: "CHR '';'' \<notin> set s \<Longrightarrow> segments s = [s]"
  using length_join_segments [of s] join_segments [of s] segments_ne [of s]
  by (cases "segments s") (auto simp: count_list_0_iff)

lemma trailing_segments:
  assumes "CHR '';'' \<notin> set t" "list_all js_space w"
  shows "segments (t @ '';'' @ w) = [t, w] \<or> segments (t @ '';'' @ w) = [t @ '';'' @ w]"
proof -
  let ?s = "t @ '';'' @ w"
  have nw: "CHR '';'' \<notin> set w" using assms(2) space_facts by (auto simp: list_all_iff)
  have "count_list ?s (CHR '';'') = 1" using assms(1) nw by (simp add: count_list_0_iff)
  then have l: "length (segments ?s) \<le> 2" using length_join_segments [of ?s] by simp
  have j: "join '';'' (segments ?s) = ?s" by (rule join_segments)
  obtain a as where a: "segments ?s = a # as" using segments_ne by (cases "segments ?s") auto
  show ?thesis
  proof (cases as)
    case Nil
    with a j show ?thesis by simp
  next
    case (Cons b bs)
    with a l have ab: "segments ?s = [a, b]" by simp
    with j have eq: "a @ CHR '';'' # b = t @ CHR '';'' # w" by simp
    have "count_list a (CHR '';'') + count_list b (CHR '';'') = 0"
      using \<open>count_list ?s (CHR '';'') = 1\<close> arg_cong [OF eq, of "\<lambda>x. count_list x (CHR '';'')"] by simp
    then have "CHR '';'' \<notin> set a" "CHR '';'' \<notin> set b" by (simp_all add: count_list_0_iff)
    with eq have "a = t \<and> b = w" by (metis append_Cons_eq_iff)
    with ab show ?thesis by simp
  qed
qed

lemma strip_keyword_nonempty: "strip_keyword w s \<noteq> None \<Longrightarrow> w \<noteq> [] \<Longrightarrow> s \<noteq> []"
  by (auto simp: strip_keyword_def)

lemma trim_start_space: "list_all js_space u \<Longrightarrow> trim_start (u @ x) = trim_start x"
  by (simp add: trim_start_def dropWhile_append2 list_all_iff)

lemma trim_end_space: "list_all js_space w \<Longrightarrow> trim_end (x @ w) = trim_end x"
  unfolding trim_end_def rev_append
  by (subst dropWhile_append2) (simp_all add: list_all_iff)

lemma trim_start_Nil [simp]: "trim_start [] = []"
  by (simp add: trim_start_def)

lemma trim_end_Nil [simp]: "trim_end [] = []"
  by (simp add: trim_end_def)

lemma js_trim_space: "list_all js_space s \<Longrightarrow> js_trim s = []"
  using trim_start_space [of s "[]"] by (simp add: js_trim_def)

lemma trim_start_hd: "x \<noteq> [] \<Longrightarrow> \<not> js_space (hd x) \<Longrightarrow> trim_start (x @ w) = x @ w"
  by (cases x) (simp_all add: trim_start_def)

text \<open>Text of spaces and semicolons cannot lend a keyword its characters.\<close>

lemma strip_keyword_prefix:
  assumes "strip_keyword w (x @ z) \<noteq> None" "list_all (\<lambda>c. js_space c \<or> c = CHR '';'') z"
    "list_all (\<lambda>c. \<not> js_space c \<and> c \<noteq> CHR '';'') w"
  shows "strip_keyword w x \<noteq> None"
proof -
  from assms(1) have m: "map ascii_lower (take (length w) (x @ z)) = w"
    and b: "drop (length w) (x @ z) = [] \<or> \<not> word_char ((x @ z) ! length w)"
    by (auto simp: strip_keyword_def split: if_splits)
  have "length w \<le> length x"
  proof (rule ccontr)
    assume "\<not> length w \<le> length x"
    moreover have "length w \<le> length (x @ z)" using arg_cong [OF m, of length] by simp
    ultimately obtain c z' where z: "z = c # z'" by (cases z) auto
    have "(x @ z) ! length x = c" using z by simp
    then have "w ! length x = ascii_lower c"
      using m \<open>\<not> length w \<le> length x\<close> \<open>length w \<le> length (x @ z)\<close>
      by (metis linorder_not_le nth_map nth_take length_map length_take min.absorb2)
    moreover have "ascii_lower c = c"
      using assms(2) z by (auto simp: js_space_def ascii_lower_def)
    ultimately have "c \<in> set w" using \<open>\<not> length w \<le> length x\<close> by (metis linorder_not_le nth_mem)
    with assms(2,3) z show False by (auto simp: list_all_iff)
  qed
  with m b show ?thesis by (auto simp: strip_keyword_def nth_append split: if_splits)
qed

lemma single_segment_statement:
  "segments s = [s] \<Longrightarrow> js_trim s \<noteq> [] \<Longrightarrow> splitStatements s = [js_trim s]"
  by (simp add: splitStatements_segments)

text \<open>
  What \<open>looksLikeSingleSelect\<close> accepts is one statement: the splitter finds exactly one in it, so
  the paged wrapper around it holds one statement, and that statement starts with the keyword.
\<close>

theorem looksLikeSingleSelect_single:
  assumes "looksLikeSingleSelect sql"
  shows "\<exists>stmt. splitStatements sql = [stmt] \<and> strip_keyword ''select'' stmt \<noteq> None"
proof -
  let ?t = "strip_statement sql"
  from assms have k: "strip_keyword ''select'' (trim_start sql) \<noteq> None" and ns: "CHR '';'' \<notin> set ?t"
    by (auto simp: looksLikeSingleSelect_def includes_single)
  obtain u w where d: "sql = u @ js_trim sql @ w" and u: "list_all js_space u" and w: "list_all js_space w"
    using js_trim_decomp by blast
  have us: "CHR '';'' \<notin> set u" "CHR '';'' \<notin> set w"
    using u w space_facts by (auto simp: list_all_iff)
  have ts: "trim_start sql = trim_start (js_trim sql @ w)" using d trim_start_space [OF u] by metis
  have kw: "list_all (\<lambda>c. \<not> js_space c \<and> c \<noteq> CHR '';'') ''select''" by (simp add: js_space_def)
  have ne: "js_trim sql \<noteq> []"
  proof
    assume "js_trim sql = []"
    then have "trim_start sql = []" using ts trim_start_space [OF w, of "[]"] by simp
    with k show False by (simp add: strip_keyword_def)
  qed
  then have h: "\<not> js_space (hd (js_trim sql))" using trimmed_js_trim [of sql] by (simp add: trimmed_def)
  then have ts': "trim_start sql = js_trim sql @ w" using ts trim_start_hd [OF ne] by simp
  have whole: "\<exists>stmt. splitStatements sql = [stmt] \<and> strip_keyword ''select'' stmt \<noteq> None"
    if "segments sql = [sql]"
    using single_segment_statement [OF that ne] k ts' w
      strip_keyword_prefix [of "''select''" "js_trim sql" w, OF _ _ kw] by (auto simp: list_all_iff)
  from strip_statement_cases [of sql] show ?thesis
  proof
    assume "js_trim sql = ?t"
    with d us ns have "CHR '';'' \<notin> set sql" by (metis UnE set_append)
    then show ?thesis using single_segment whole by blast
  next
    assume t: "js_trim sql = ?t @ '';''"
    then have "sql = (u @ ?t) @ '';'' @ w" using d by simp
    then have "segments sql = [u @ ?t, w] \<or> segments sql = [sql]"
      using trailing_segments [of "u @ ?t" w] us(1) ns w by auto
    then show ?thesis
    proof
      assume sg: "segments sql = [u @ ?t, w]"
      have "?t \<noteq> []"
      proof
        assume "?t = []"
        then have "trim_start sql = [] @ '';'' @ w" using ts' t by simp
        then have "strip_keyword ''select'' [] \<noteq> None"
          using k strip_keyword_prefix [of "''select''" "[]" "'';'' @ w", OF _ _ kw] w
          by (auto simp: list_all_iff)
        then show False by (simp add: strip_keyword_def)
      qed
      then have "hd (js_trim sql) = hd ?t" using t by (metis hd_append2)
      with h \<open>?t \<noteq> []\<close> have "trim_start ?t = ?t" using trim_start_hd [of ?t "[]"] by simp
      then have jt: "js_trim (u @ ?t) = trim_end ?t" by (simp add: js_trim_def trim_start_space [OF u])
      obtain v where v: "?t = trim_end ?t @ v" "list_all js_space v" using trim_end_decomp by blast
      then have "trim_start sql = trim_end ?t @ (v @ '';'' @ w)" using ts' t by (metis append.assoc)
      then have "strip_keyword ''select'' (trim_end ?t) \<noteq> None"
        using k strip_keyword_prefix [of "''select''" "trim_end ?t" "v @ '';'' @ w", OF _ _ kw] v(2) w
        by (auto simp: list_all_iff)
      moreover from this have "trim_end ?t \<noteq> []" by (auto simp: strip_keyword_def)
      ultimately show ?thesis using sg jt js_trim_space [OF w] by (simp add: splitStatements_segments)
    next
      assume "segments sql = [sql]"
      then show ?thesis by (rule whole)
    qed
  qed
qed

theorem looksLikeSingleSelect_single_witness:
  "\<exists>stmt. splitStatements '' SELECT 1; '' = [stmt] \<and> strip_keyword ''select'' stmt \<noteq> None"
  by (rule looksLikeSingleSelect_single)
     (simp add: looksLikeSingleSelect_def strip_keyword_def trim_start_def strip_statement_def js_trim_def
       trim_end_def drop_trailing_semicolon_def js_space_def str_includes_def starts_with_def
       ascii_lower_def word_char_def alpha_char_def digit_char_def lower_char_def char_of_def bit_0)

subsection \<open>The window as the engine reads it\<close>

definition order_tokens :: "query_order_by option \<Rightarrow> token list" where
  "order_tokens orderBy =
     (case orderBy of None \<Rightarrow> []
      | Some ob \<Rightarrow> map TChar '' ORDER BY '' @ TIdent (obColumn ob) # map TChar ('' '' @ sort_text (obDir ob)))"

lemma plain_sort: "list_all plain_char (sort_text d)"
  by (cases d) (simp_all add: sort_text_def plain_char_def)

lemma lex_orderBy:
  assumes "orderByClause orderBy = Inr ob"
    "\<And>o'. orderBy = Some o' \<Longrightarrow> obQuoteIdent o' = engine_quote e"
  shows "lex e (ob @ '' '' @ r) = order_tokens orderBy @ lex e ('' '' @ r)"
proof (cases orderBy)
  case None
  with assms(1) show ?thesis by (simp add: orderByClause_def order_tokens_def)
next
  case (Some o')
  with assms obtain c where c: "engine_quote e (obColumn o') = Inr c"
      "ob = '' ORDER BY '' @ c @ '' '' @ sort_text (obDir o')"
    by (auto simp: orderByClause_def res_simps)
  have "lex e (c @ ('' '' @ sort_text (obDir o') @ '' '' @ r))
      = TIdent (obColumn o') # lex e ('' '' @ sort_text (obDir o') @ '' '' @ r)"
    using lex_engine_quote [OF c(1)] by simp
  also have "lex e ('' '' @ sort_text (obDir o') @ '' '' @ r)
      = map TChar ('' '' @ sort_text (obDir o')) @ lex e ('' '' @ r)"
    using lex_plain [of "'' '' @ sort_text (obDir o')" e "'' '' @ r"] plain_sort
    by (simp add: plain_char_def)
  finally show ?thesis
    using Some c(2) lex_plain [of "'' ORDER BY ''" e] by (simp add: order_tokens_def plain_char_def)
qed

lemma paged_query_tokens:
  assumes "buildPagedQuery sql (engine_placeholder e) limit offset orderBy = Inr f"
    and closed: "\<And>r. lex e (strip_statement sql @ '')'' @ r) = lex e (strip_statement sql) @ lex e ('')'' @ r)"
    and "\<And>o'. orderBy = Some o' \<Longrightarrow> obQuoteIdent o' = engine_quote e"
  shows "lex e (fragSql f) = map TChar ''SELECT * FROM ('' @ lex e (strip_statement sql)
            @ map TChar '') AS __prost_query'' @ order_tokens orderBy
            @ map TChar '' LIMIT '' @ param_token e 1 # map TChar '' OFFSET '' @ [param_token e 2]"
    and "fragParams f = [JNum (int limit + 1), JNum (int offset)]"
proof -
  obtain ob where ob: "orderByClause orderBy = Inr ob"
     and f: "f = \<lparr>fragSql = ''SELECT * FROM ('' @ strip_statement sql @ '') AS __prost_query'' @ ob
                       @ '' LIMIT '' @ engine_placeholder e 1 @ '' OFFSET '' @ engine_placeholder e 2,
                     fragParams = [JNum (int limit + 1), JNum (int offset)]\<rparr>"
    using assms(1) by (auto simp: buildPagedQuery_def res_simps)
  let ?tail = "''LIMIT '' @ engine_placeholder e 1 @ '' OFFSET '' @ engine_placeholder e 2 @ []"
  have tail: "lex e ('' '' @ ?tail)
      = map TChar '' LIMIT '' @ param_token e 1 # map TChar '' OFFSET '' @ [param_token e 2]"
    using lex_plain [of "'' LIMIT ''" e] lex_plain [of "'' OFFSET ''" e]
      lex_placeholder [of "'' OFFSET '' @ engine_placeholder e 2 @ []" e 1] lex_placeholder [of "[]" e 2]
    by (simp add: plain_char_def)
  have "lex e ('') AS __prost_query'' @ ob @ '' '' @ ?tail)
      = map TChar '') AS __prost_query'' @ order_tokens orderBy @ lex e ('' '' @ ?tail)"
    using lex_plain [of "'') AS __prost_query''" e] lex_orderBy [OF ob assms(3)]
    by (simp add: plain_char_def)
  with tail show "lex e (fragSql f) = map TChar ''SELECT * FROM ('' @ lex e (strip_statement sql)
            @ map TChar '') AS __prost_query'' @ order_tokens orderBy
            @ map TChar '' LIMIT '' @ param_token e 1 # map TChar '' OFFSET '' @ [param_token e 2]"
    using closed [of "'' AS __prost_query'' @ ob @ '' '' @ ?tail"] lex_plain [of "''SELECT * FROM (''" e]
    by (simp add: f plain_char_def)
  show "fragParams f = [JNum (int limit + 1), JNum (int offset)]" by (simp add: f)
qed

text \<open>
  The window is outside the statement: when the statement's own text ends its last token (no
  comment or quote is left open at its end), every engine reads the paged query as the statement in parentheses, the requested order, and a \<open>LIMIT\<close> and \<open>OFFSET\<close> bound, in order, to one
  row more than the page and to the offset.
\<close>

theorem buildPagedQuery_window:
  assumes "buildPagedQuery sql (engine_placeholder e) limit offset orderBy = Inr f"
    and "\<And>r. lex e (strip_statement sql @ '')'' @ r) = lex e (strip_statement sql) @ lex e ('')'' @ r)"
    and "\<And>o'. orderBy = Some o' \<Longrightarrow> obQuoteIdent o' = engine_quote e"
  shows "lex e (fragSql f) = map TChar ''SELECT * FROM ('' @ lex e (strip_statement sql)
            @ map TChar '') AS __prost_query'' @ order_tokens orderBy
            @ map TChar '' LIMIT '' @ param_token e 1 # map TChar '' OFFSET '' @ [param_token e 2]
    \<and> fragParams f = [JNum (int limit + 1), JNum (int offset)]"
  using paged_query_tokens [OF assms] by blast

lemma strip_example: "strip_statement ''SELECT 1;'' = ''SELECT 1''"
  by (simp add: strip_statement_def js_trim_def trim_start_def trim_end_def
      drop_trailing_semicolon_def js_space_def)

lemma plain_example: "list_all plain_char ''SELECT 1''"
  by (simp add: plain_char_def)

definition example_page :: sql_fragment where
  "example_page = \<lparr>fragSql = ''SELECT * FROM (SELECT 1) AS __prost_query LIMIT $1 OFFSET $2'',
                   fragParams = [JNum 101, JNum 0]\<rparr>"

theorem buildPagedQuery_window_witness:
  "lex Pg (fragSql example_page) = map TChar ''SELECT * FROM ('' @ map TChar ''SELECT 1''
     @ map TChar '') AS __prost_query'' @ [] @ map TChar '' LIMIT '' @ TParam 1 # map TChar '' OFFSET '' @ [TParam 2]
   \<and> fragParams example_page = [JNum 101, JNum 0]"
proof -
  have b: "buildPagedQuery ''SELECT 1;'' (engine_placeholder Pg) 100 0 None = Inr example_page"
    by (simp add: buildPagedQuery_def orderByClause_def strip_example engine_placeholder_def
        pgPlaceholder_def show_nat_digit example_page_def)
  have l: "lex Pg (''SELECT 1'' @ r) = map TChar ''SELECT 1'' @ lex Pg r" for r
    using plain_example by (rule lex_plain)
  from l [of "[]"] have l0: "lex Pg ''SELECT 1'' = map TChar ''SELECT 1''" by simp
  have "lex Pg (strip_statement ''SELECT 1;'' @ '')'' @ r)
      = lex Pg (strip_statement ''SELECT 1;'') @ lex Pg ('')'' @ r)" for r
    unfolding strip_example l0 by (rule l)
  from buildPagedQuery_window [OF b this] show ?thesis
    unfolding strip_example l0 by (simp add: order_tokens_def param_token_def param_index_def)
qed

text \<open>
  A statement whose last token is a line comment keeps it, and the wrapper's own text then stands
  inside the comment: PostgreSQL reads neither the closing parenthesis nor the window.
\<close>

lemma buildPagedQuery_comment_swallows_window:
  assumes "buildPagedQuery ''SELECT 1 -- all'' (engine_placeholder Pg) limit offset None = Inr f"
  shows "lex Pg (fragSql f) = map TChar ''SELECT * FROM (SELECT 1 '' @ [TComment]"
proof -
  have "strip_statement ''SELECT 1 -- all'' = ''SELECT 1 -- all''"
    by (simp add: strip_statement_def js_trim_def trim_start_def trim_end_def
        drop_trailing_semicolon_def js_space_def)
  with assms have f: "fragSql f = ''SELECT * FROM (SELECT 1 '' @ CHR ''-'' # CHR ''-'' #
      ('' all) AS __prost_query LIMIT '' @ engine_placeholder Pg 1 @ '' OFFSET '' @ engine_placeholder Pg 2)"
    by (auto simp: buildPagedQuery_def orderByClause_def)
  have nl: "list_all (\<lambda>c. c \<noteq> CHR 0x0A) (engine_placeholder Pg i)" for i
    by (auto simp: engine_placeholder_def pgPlaceholder_def list_all_iff dest!: show_nat_digits) (simp add: digit_char_def)
  have "dropWhile (\<lambda>c. c \<noteq> CHR 0x0A) (CHR ''-'' # CHR ''-'' #
      ('' all) AS __prost_query LIMIT '' @ engine_placeholder Pg 1 @ '' OFFSET '' @ engine_placeholder Pg 2)) = []"
    using nl by (auto simp: list_all_iff)
  then have "lex Pg (CHR ''-'' # CHR ''-'' #
      ('' all) AS __prost_query LIMIT '' @ engine_placeholder Pg 1 @ '' OFFSET '' @ engine_placeholder Pg 2))
      = [TComment]"
    by (simp only: lex.simps(2) skip_comment_def line_comment_def starts_with_def)
       (simp add: ident_quote_def)
  then show ?thesis
    using lex_plain [of "''SELECT * FROM (SELECT 1 ''" Pg] by (simp add: f plain_char_def)
qed

end
