(* ===== verification/QueryService.thy ===== *)
theory QueryService
  imports Editability Paging Sessions
begin

text \<open>
  \<open>query/query.service.ts\<close>: running a SQL script on a connection. What the service takes from outside is
  an environment: the parser (\<open>node-sql-parser\<close>, under the driver's dialect; \<open>None\<close> where it throws), the
  target database, and what the connection's row, the metadata service and the driver answer. Times
  taken are not modelled. \<open>Promise\<close>s are effects (theory Effects).
\<close>

record 'd query_env =
  qeEngine :: engine
  qeExec :: "'d exec"
  qeAstify :: "string \<Rightarrow> js_val option"
  qeReadOnly :: bool
  qeDefaultNamespace :: string
  qeTableColumns :: "string \<Rightarrow> string \<Rightarrow> ('d world, column_metadata list) eff"
  qeDescribe :: "'d query_fn \<Rightarrow> field_info list \<Rightarrow> string list \<Rightarrow> ('d world, column_metadata list) eff"
  qeFormatExplain :: "row list \<Rightarrow> string"
  qeSupportsQueryPlan :: bool
  qeSupportsExplainAnalyze :: bool
  qeBuildExplain :: "string \<Rightarrow> bool \<Rightarrow> sql_fragment"

definition pool_run :: "'d query_env \<Rightarrow> 'd query_fn" where
  "pool_run env = send (qeExec env) Pooled"

subsection \<open>Classifying a statement\<close>

definition WRITE_STATEMENT_TYPES :: "string list" where
  "WRITE_STATEMENT_TYPES = [''insert'', ''update'', ''delete'', ''replace'']"

definition AGENT_QUERY_ROW_LIMIT :: nat where
  "AGENT_QUERY_ROW_LIMIT = 100"

definition write_node :: "js_val \<Rightarrow> bool" where
  "write_node v = (case field v ''type'' of JStr t \<Rightarrow> js_lower t \<in> set WRITE_STATEMENT_TYPES | _ \<Rightarrow> False)"

definition astContainsWriteStatement :: "js_val \<Rightarrow> bool" where
  "astContainsWriteStatement node = any_node write_node node"

definition WRITE_ACTION_BY_KEYWORD :: "string \<Rightarrow> string option" where
  "WRITE_ACTION_BY_KEYWORD =
     map_of [(''insert'', ''insert''), (''update'', ''update''), (''delete'', ''delete''),
             (''replace'', ''insert''), (''truncate'', ''truncate'')]"

definition auditActionForStatement :: "js_val option \<Rightarrow> string \<Rightarrow> string" where
  "auditActionForStatement ast text =
     (let by_type = (case ast of
                       None \<Rightarrow> None
                     | Some a \<Rightarrow> (case field a ''type'' of JStr t \<Rightarrow> WRITE_ACTION_BY_KEYWORD (js_lower t) | _ \<Rightarrow> None));
          keyword = js_lower (takeWhile (\<lambda>c. \<not> js_space c) (js_trim text))
      in case by_type of
           Some action \<Rightarrow> action
         | None \<Rightarrow> (case WRITE_ACTION_BY_KEYWORD keyword of Some action \<Rightarrow> action | None \<Rightarrow> ''ddl''))"

definition auditTargetFromAst :: "js_val option \<Rightarrow> string option \<times> string option" where
  "auditTargetFromAst ast =
     (let a = (case ast of None \<Rightarrow> JUndef | Some v \<Rightarrow> v);
          raw = (if nullish (field a ''table'') then field a ''from'' else field a ''table'');
          first = (case raw of JArr vs \<Rightarrow> (case vs of [] \<Rightarrow> JUndef | v # _ \<Rightarrow> v) | v \<Rightarrow> v)
      in case field first ''table'' of
           JStr t \<Rightarrow> ((case field first ''db'' of JStr d \<Rightarrow> if d \<noteq> [] then Some d else None | _ \<Rightarrow> None), Some t)
         | _ \<Rightarrow> (None, None))"

text \<open>\<open>EXPLAIN_RE\<close>: a match, with the text of the option list (empty where there is none).\<close>

definition explain_match :: "string \<Rightarrow> string option" where
  "explain_match s =
     (case strip_keyword ''explain'' (trim_start s) of
        None \<Rightarrow> None
      | Some rest \<Rightarrow>
          Some (case trim_start rest of
                  [] \<Rightarrow> []
                | c # u \<Rightarrow> if c = CHR ''('' \<and> CHR '')'' \<in> set u then takeWhile (\<lambda>x. x \<noteq> CHR '')'') u else []))"

text \<open>\<open>/^\s*explain\s+analyze\b/i\<close>\<close>

definition explain_analyze_prefix :: "string \<Rightarrow> bool" where
  "explain_analyze_prefix s =
     (case strip_keyword ''explain'' (trim_start s) of
        None \<Rightarrow> False
      | Some rest \<Rightarrow> rest \<noteq> [] \<and> js_space (hd rest) \<and> strip_keyword ''analyze'' (trim_start rest) \<noteq> None)"

definition is_analyze :: "string \<Rightarrow> string \<Rightarrow> bool" where
  "is_analyze statementText optionsList \<longleftrightarrow> explain_analyze_prefix statementText \<or> has_keyword ''analyze'' optionsList"

definition tryAstifyOne :: "'d query_env \<Rightarrow> string \<Rightarrow> js_val option" where
  "tryAstifyOne env sql =
     (case qeAstify env sql of
        None \<Rightarrow> None
      | Some ast \<Rightarrow>
          (let first = (case ast of JArr vs \<Rightarrow> (case vs of [] \<Rightarrow> JUndef | v # _ \<Rightarrow> v) | v \<Rightarrow> v)
           in if nullish first then None else Some first))"

datatype access = Read | Write

definition classifyStatement :: "'d query_env \<Rightarrow> string \<Rightarrow> access" where
  "classifyStatement env statementText =
     (case explain_match statementText of
        Some optionsList \<Rightarrow> if is_analyze statementText optionsList then Write else Read
      | None \<Rightarrow>
          (case tryAstifyOne env statementText of
             None \<Rightarrow> if looksLikeSingleSelect statementText then Read else Write
           | Some ast \<Rightarrow>
               if field ast ''type'' = JStr ''select''
               then (if astContainsWriteStatement ast then Write else Read)
               else Write))"

text \<open>The test the executor, \<open>fetchPage\<close> and \<open>resolveSingleSelect\<close> share.\<close>

definition is_select_statement :: "'d query_env \<Rightarrow> string \<Rightarrow> bool" where
  "is_select_statement env text =
     (case tryAstifyOne env text of
        None \<Rightarrow> looksLikeSingleSelect text
      | Some ast \<Rightarrow> field ast ''type'' = JStr ''select'')"

subsection \<open>Running one statement\<close>

datatype statement_result =
    RowsResult string "row list" "column_metadata list" nat bool editability
  | CommandResult string string nat
  | PlanResult string string bool
  | ErrorResult string string "string option" string

fun is_error :: "statement_result \<Rightarrow> bool" where
  "is_error (ErrorResult s m c k) = True"
| "is_error (RowsResult s r c n t e) = False"
| "is_error (CommandResult s c n) = False"
| "is_error (PlanResult s t a) = False"

fun result_sql :: "statement_result \<Rightarrow> string" where
  "result_sql (RowsResult s r c n t e) = s"
| "result_sql (CommandResult s c n) = s"
| "result_sql (PlanResult s t a) = s"
| "result_sql (ErrorResult s m c k) = s"

fun editability_key :: "editability \<Rightarrow> string list" where
  "editability_key ReadOnly = []"
| "editability_key (Editable src pk) = pk"

fun error_message :: "http_error \<Rightarrow> string" where
  "error_message (PlainError m) = m"
| "error_message (BadRequest m) = m"
| "error_message (Forbidden m) = m"
| "error_message (NotFound m) = m"
| "error_message (Conflict m) = m"
| "error_message (Unprocessable m) = m"
| "error_message (ServiceUnavailable m) = m"
| "error_message (DriverError c m) = m"

fun error_code :: "http_error \<Rightarrow> string option" where
  "error_code (DriverError c m) = c"
| "error_code e = None"

definition toErrorResult :: "string \<Rightarrow> http_error \<Rightarrow> string \<Rightarrow> statement_result" where
  "toErrorResult statementText e correlationId =
     ErrorResult statementText (error_message e) (error_code e) correlationId"

definition resolveEditability :: "'d query_env \<Rightarrow> js_val list \<Rightarrow> ('d world, editability) eff" where
  "resolveEditability env statements =
     (case extractSingleTable statements (qeDefaultNamespace env) of
        None \<Rightarrow> ret ReadOnly
      | Some table \<Rightarrow>
          bind_eff (qeTableColumns env (st_schema table) (st_table table)) (\<lambda>tableColumns.
            ret (analyzeEditability statements table (primary_key_of tableColumns))))"

definition mapColumns :: "'d query_env \<Rightarrow> field_info list \<Rightarrow> string list \<Rightarrow> ('d world, column_metadata list) eff" where
  "mapColumns env flds primaryKey =
     (if flds = [] then ret [] else qeDescribe env (pool_run env) flds primaryKey)"

definition executePlan :: "'d query_env \<Rightarrow> string \<Rightarrow> string \<Rightarrow> 'd query_fn \<Rightarrow> ('d world, statement_result) eff" where
  "executePlan env statementText optionsList run =
     bind_eff (run (plain_frag statementText)) (\<lambda>r.
       ret (PlanResult statementText (qeFormatExplain env (drRows r)) (is_analyze statementText optionsList)))"

definition executeCommand :: "'d query_env \<Rightarrow> string \<Rightarrow> 'd query_fn \<Rightarrow> ('d world, statement_result) eff" where
  "executeCommand env statementText run =
     bind_eff (run (plain_frag statementText)) (\<lambda>r.
       if drFields r \<noteq> [] then
         bind_eff (mapColumns env (drFields r) []) (\<lambda>columns.
           ret (RowsResult statementText (drRows r) columns (length (drRows r)) False ReadOnly))
       else ret (CommandResult statementText (drCommand r)
                   (case drRowCount r of None \<Rightarrow> 0 | Some n \<Rightarrow> n)))"

definition page_rows :: "nat \<Rightarrow> row list \<Rightarrow> row list \<times> bool" where
  "page_rows limit rows = (if length rows > limit then (take limit rows, True) else (rows, False))"

definition executeRows ::
  "'d query_env \<Rightarrow> string \<Rightarrow> js_val option \<Rightarrow> bool \<Rightarrow> 'd query_fn \<Rightarrow> ('d world, statement_result) eff" where
  "executeRows env statementText ast isOnlyStatement run =
     bind_eff (lift_res (buildPagedQuery statementText (engine_placeholder (qeEngine env)) QUERY_PAGE_SIZE 0 None)) (\<lambda>paged.
     bind_eff (if ast = None
               then catch_eff (bind_eff (run paged) (\<lambda>r. ret (Some r))) (\<lambda>e. ret None)
               else bind_eff (run paged) (\<lambda>r. ret (Some r))) (\<lambda>attempt.
     (case attempt of
        None \<Rightarrow> executeCommand env statementText run
      | Some queryResult \<Rightarrow>
          (let (pageRows, truncated) = page_rows QUERY_PAGE_SIZE (drRows queryResult) in
           bind_eff (case ast of
                       Some a \<Rightarrow> if isOnlyStatement \<and> field a ''type'' = JStr ''select''
                                 then resolveEditability env [a] else ret ReadOnly
                     | None \<Rightarrow> ret ReadOnly) (\<lambda>editability.
           bind_eff (mapColumns env (drFields queryResult) (editability_key editability)) (\<lambda>columns.
             ret (RowsResult statementText pageRows columns (length pageRows) truncated editability)))))))"

definition executeOneStatement ::
  "'d query_env \<Rightarrow> string \<Rightarrow> bool \<Rightarrow> 'd query_fn \<Rightarrow> ('d world, statement_result) eff" where
  "executeOneStatement env statementText isOnlyStatement run =
     (case explain_match statementText of
        Some optionsList \<Rightarrow> executePlan env statementText optionsList run
      | None \<Rightarrow>
          if is_select_statement env statementText
          then executeRows env statementText (tryAstifyOne env statementText) isOnlyStatement run
          else executeCommand env statementText run)"

subsection \<open>Running a script\<close>

definition executeAutocommit :: "'d query_env \<Rightarrow> string list \<Rightarrow> string \<Rightarrow> ('d world, statement_result list) eff" where
  "executeAutocommit env statementTexts correlationId =
     each_eff (\<lambda>statementText.
         catch_eff (executeOneStatement env statementText (length statementTexts = 1) (pool_run env))
           (\<lambda>e. ret (toErrorResult statementText e correlationId)))
       statementTexts"

fun transactional_loop ::
  "'d query_env \<Rightarrow> string \<Rightarrow> 'd query_fn \<Rightarrow> string list \<Rightarrow> statement_result list
     \<Rightarrow> ('d world, statement_result list) eff" where
  "transactional_loop env correlationId query [] results =
     bind_eff (query commit_frag) (\<lambda>_. ret results)"
| "transactional_loop env correlationId query (statementText # rest) results =
     bind_eff
       (catch_eff (bind_eff (executeOneStatement env statementText False query) (\<lambda>r. ret (r, False)))
          (\<lambda>e. ret (toErrorResult statementText e correlationId, True)))
       (\<lambda>(r, failed).
         if failed then bind_eff (query rollback_frag) (\<lambda>_. ret (results @ [r]))
         else transactional_loop env correlationId query rest (results @ [r]))"

definition executeTransactional :: "'d query_env \<Rightarrow> string list \<Rightarrow> string \<Rightarrow> ('d world, statement_result list) eff" where
  "executeTransactional env statementTexts correlationId =
     engine_withSession (qeEngine env) (qeExec env) (\<lambda>query.
       bind_eff (query (plain_frag ''BEGIN'')) (\<lambda>_.
         transactional_loop env correlationId query statementTexts []))"

definition auditStatement ::
  "'d query_env \<Rightarrow> string \<Rightarrow> string \<Rightarrow> string \<Rightarrow> string \<Rightarrow> audit_outcome \<Rightarrow> string option \<Rightarrow> ('d world, unit) eff" where
  "auditStatement env userId connectionId correlationId text outcome errorClass =
     (let ast = tryAstifyOne env text; target = auditTargetFromAst ast in
      audit_record \<lparr>abUser = userId, abConnection = connectionId, abAction = auditActionForStatement ast text,
                    abSql = text, abSchema = fst target, abTable = snd target,
                    abCorrelation = (if correlationId = [] then None else Some correlationId)\<rparr>
        outcome errorClass)"

definition auditMutations ::
  "'d query_env \<Rightarrow> string \<Rightarrow> string \<Rightarrow> string \<Rightarrow> string list \<Rightarrow> statement_result list \<Rightarrow> bool \<Rightarrow> ('d world, unit list) eff" where
  "auditMutations env userId connectionId correlationId statementTexts statements transactional =
     (let rolledBack = transactional \<and> list_ex is_error statements in
      each_eff (\<lambda>i.
          (let text = statementTexts ! i;
               result = (if i < length statements then Some (statements ! i) else None)
           in if classifyStatement env text \<noteq> Write then ret ()
              else if result = None \<and> \<not> rolledBack then ret ()
              else (let failed = rolledBack \<or> (case result of None \<Rightarrow> True | Some r \<Rightarrow> is_error r);
                        errorClass = (case result of
                            Some (ErrorResult s m c k) \<Rightarrow> Some (case c of None \<Rightarrow> ''Error'' | Some code \<Rightarrow> code)
                          | _ \<Rightarrow> if rolledBack then Some ''rolled_back'' else None)
                    in auditStatement env userId connectionId correlationId text
                         (if failed then Failure else Success) errorClass)))
        [0 ..< length statementTexts])"

record execute_response =
  erStatements :: "statement_result list"
  erTransactional :: bool
  erStatementCount :: nat

definition history_record :: "string \<Rightarrow> string \<Rightarrow> string \<Rightarrow> ('d world, unit) eff" where
  "history_record userId connectionId sql =
     update_world (\<lambda>w. w\<lparr>wHistory := wHistory w @ [(userId, connectionId, sql)]\<rparr>)"

definition execute ::
  "'d query_env \<Rightarrow> string \<Rightarrow> string \<Rightarrow> string \<Rightarrow> string \<Rightarrow> bool \<Rightarrow> ('d world, execute_response) eff" where
  "execute env connectionId sql userId correlationId transactional =
     (let statementTexts = splitStatements sql in
      if statementTexts = [] then
        ret \<lparr>erStatements = [], erTransactional = transactional, erStatementCount = 0\<rparr>
      else
        (let blocked = (if qeReadOnly env then filter (\<lambda>text. classifyStatement env text = Write) statementTexts else []) in
         if blocked \<noteq> [] then
           bind_eff (each_eff (\<lambda>text.
               auditStatement env userId connectionId correlationId text Failure (Some ''read-only'')) blocked)
             (\<lambda>_. throw (Forbidden ''This connection is read-only''))
         else
           bind_eff (if transactional then executeTransactional env statementTexts correlationId
                     else executeAutocommit env statementTexts correlationId) (\<lambda>statements.
           bind_eff (history_record userId connectionId sql) (\<lambda>_.
           bind_eff (auditMutations env userId connectionId correlationId statementTexts statements transactional) (\<lambda>_.
             ret \<lparr>erStatements = statements, erTransactional = transactional,
                  erStatementCount = length statementTexts\<rparr>)))))"

subsection \<open>The other entry points\<close>

record fetch_response =
  frRows :: "row list"
  frTruncated :: bool

definition fetchPage ::
  "'d query_env \<Rightarrow> string \<Rightarrow> nat \<Rightarrow> nat \<Rightarrow> string option \<Rightarrow> sort_dir \<Rightarrow> ('d world, fetch_response) eff" where
  "fetchPage env sql offset limit sortBy dir =
     (case splitStatements sql of
        [statementText] \<Rightarrow>
          if explain_match statementText \<noteq> None \<or> \<not> is_select_statement env statementText
          then throw (BadRequest ''Only SELECT statements can be paged'')
          else
            (let orderBy = (case sortBy of
                              None \<Rightarrow> None
                            | Some c \<Rightarrow> if c = [] then None
                                        else Some \<lparr>obColumn = c, obDir = dir, obQuoteIdent = engine_quote (qeEngine env)\<rparr>)
             in bind_eff (lift_res (buildPagedQuery statementText (engine_placeholder (qeEngine env)) limit offset orderBy)) (\<lambda>paged.
                bind_eff (pool_run env paged) (\<lambda>r.
                  (let (rows, truncated) = page_rows limit (drRows r) in
                   ret \<lparr>frRows = rows, frTruncated = truncated\<rparr>))))
      | _ \<Rightarrow> throw (BadRequest ''Only a single SELECT statement can be paged''))"

definition resolveSingleSelect :: "'d query_env \<Rightarrow> string \<Rightarrow> ('d world, string) eff" where
  "resolveSingleSelect env sql =
     (case splitStatements sql of
        [statementText] \<Rightarrow>
          if explain_match statementText \<noteq> None \<or> \<not> is_select_statement env statementText
          then throw (BadRequest ''Only SELECT statements can be streamed'')
          else ret statementText
      | _ \<Rightarrow> throw (BadRequest ''Only a single SELECT statement can be streamed''))"

definition runReadOnlyQuery :: "'d query_env \<Rightarrow> string \<Rightarrow> ('d world, statement_result) eff" where
  "runReadOnlyQuery env sql =
     (case splitStatements sql of
        [statementText] \<Rightarrow>
          if explain_match statementText \<noteq> None
          then throw (Unprocessable ''EXPLAIN cannot be run by the assistant'')
          else
            (case tryAstifyOne env statementText of
               None \<Rightarrow> throw (Unprocessable ''The statement could not be parsed as a read-only query'')
             | Some ast \<Rightarrow>
                 if field ast ''type'' \<noteq> JStr ''select'' \<or> astContainsWriteStatement ast
                 then throw (Unprocessable ''Only read-only SELECT statements can be run by the assistant'')
                 else
                   bind_eff (lift_res (buildPagedQuery statementText (engine_placeholder (qeEngine env)) AGENT_QUERY_ROW_LIMIT 0 None)) (\<lambda>paged.
                   bind_eff (engine_withReadOnlyTransaction (qeEngine env) (qeExec env) (\<lambda>q. q paged)) (\<lambda>queryResult.
                   (let (pageRows, truncated) = page_rows AGENT_QUERY_ROW_LIMIT (drRows queryResult) in
                    bind_eff (resolveEditability env [ast]) (\<lambda>editability.
                    bind_eff (mapColumns env (drFields queryResult) (editability_key editability)) (\<lambda>columns.
                      ret (RowsResult statementText pageRows columns (length pageRows) truncated editability)))))))
      | _ \<Rightarrow> throw (Unprocessable ''The assistant may only run a single read-only SELECT statement''))"

definition analyzeSelectEditability :: "'d query_env \<Rightarrow> string \<Rightarrow> ('d world, editability) eff" where
  "analyzeSelectEditability env statementText =
     (case tryAstifyOne env statementText of
        None \<Rightarrow> ret ReadOnly
      | Some ast \<Rightarrow> if field ast ''type'' \<noteq> JStr ''select'' then ret ReadOnly else resolveEditability env [ast])"

definition describeColumns :: "'d query_env \<Rightarrow> field_info list \<Rightarrow> string list \<Rightarrow> ('d world, column_metadata list) eff" where
  "describeColumns env flds primaryKey = mapColumns env flds primaryKey"

record plan_response =
  prRows :: "row list"
  prAnalyze :: bool
  prFormat :: string
  prText :: string

text \<open>The plan's tree is the parse of the rows (theory ExplainPlan); here the rows stand for it.\<close>

definition explain :: "'d query_env \<Rightarrow> string \<Rightarrow> bool \<Rightarrow> ('d world, plan_response) eff" where
  "explain env sql analyze =
     (case splitStatements sql of
        [statement] \<Rightarrow>
          if \<not> qeSupportsQueryPlan env then throw (BadRequest ''This engine does not support structured query plans'')
          else if analyze \<and> \<not> qeSupportsExplainAnalyze env
            then throw (BadRequest ''Explain Analyze is not supported for this engine'')
          else if analyze \<and> qeReadOnly env then throw (Forbidden ''This connection is read-only'')
          else bind_eff (pool_run env (qeBuildExplain env statement analyze)) (\<lambda>r.
                 ret \<lparr>prRows = drRows r, prAnalyze = analyze,
                      prFormat = (if qeEngine env = Sqlite then ''steps'' else ''json''),
                      prText = qeFormatExplain env (drRows r)\<rparr>)
      | _ \<Rightarrow> throw (BadRequest ''Explain expects a single statement''))"

subsection \<open>What the guard lets through\<close>

text \<open>The entry a statement leaves in the trail.\<close>

definition audit_entry_for ::
  "'d query_env \<Rightarrow> string \<Rightarrow> string \<Rightarrow> string \<Rightarrow> string \<Rightarrow> audit_outcome \<Rightarrow> string option \<Rightarrow> audit_entry" where
  "audit_entry_for env userId connectionId correlationId text outcome errorClass =
     (let ast = tryAstifyOne env text; target = auditTargetFromAst ast in
      \<lparr>aeUser = userId, aeConnection = connectionId, aeAction = auditActionForStatement ast text,
       aeSchema = fst target, aeTable = snd target, aeSql = text, aeOutcome = outcome,
       aeErrorClass = errorClass, aeCorrelation = (if correlationId = [] then None else Some correlationId)\<rparr>)"

lemma auditStatement_run:
  "auditStatement env u c k text oc cl w =
     (Inr (), audited [audit_entry_for env u c k text oc cl] w)"
  by (simp add: auditStatement_def audit_record_def audit_entry_for_def Let_def)

lemma each_audit_run:
  "\<exists>us. each_eff (\<lambda>text. auditStatement env u c k text oc cl) ts w =
     (Inr us, audited (map (\<lambda>text. audit_entry_for env u c k text oc cl) ts) w)"
  using each_eff_audit [of "\<lambda>text. auditStatement env u c k text oc cl"
      "\<lambda>text. [audit_entry_for env u c k text oc cl]" ts w] auditStatement_run
  by fastforce

text \<open>
  C1. The read-only guard lets no script through that holds a write: on a read-only connection, a script
  with one statement that is not classified as a read is refused as a whole before anything is sent to
  the database or recorded as history. All that is left of it is one entry of the audit trail for each
  blocked statement, in order: a failure of the class \<open>read-only\<close>, handed to \<open>record\<close>.
\<close>

theorem execute_read_only_guard:
  assumes "qeReadOnly env" "\<exists>text \<in> set (splitStatements sql). classifyStatement env text = Write"
  shows "execute env connectionId sql userId correlationId transactional w =
    (Inl (Forbidden ''This connection is read-only''),
     audited (map (\<lambda>text. audit_entry_for env userId connectionId correlationId text Failure (Some ''read-only''))
         (filter (\<lambda>text. classifyStatement env text = Write) (splitStatements sql))) w)"
proof -
  let ?b = "filter (\<lambda>text. classifyStatement env text = Write) (splitStatements sql)"
  from assms(2) have ne: "?b \<noteq> []" "splitStatements sql \<noteq> []" by (auto simp: filter_empty_conv)
  obtain us where "each_eff (\<lambda>text. auditStatement env userId connectionId correlationId text Failure (Some ''read-only'')) ?b w =
     (Inr us, audited (map (\<lambda>text. audit_entry_for env userId connectionId correlationId text Failure (Some ''read-only'')) ?b) w)"
    using each_audit_run by blast
  with ne assms(1) show ?thesis by (simp add: execute_def Let_def bind_eff_run)
qed

text \<open>Autocommit: each statement answers for itself.\<close>

lemma executeOneStatement_sql:
  "executeOneStatement env text only run w = (Inr r, w') \<Longrightarrow> result_sql r = text"
  unfolding executeOneStatement_def executePlan_def executeRows_def executeCommand_def
  by (auto simp: eff_simps Let_def split: option.splits prod.splits sum.splits if_splits)

text \<open>
  Running a script in autocommit never fails as a whole: it returns one result for every statement,
  in order and under the statement's own text, a statement that fails giving an error result and
  leaving the others to run.
\<close>

theorem executeAutocommit_one_result_each:
  "\<exists>results w'. executeAutocommit env texts correlationId w = (Inr results, w') \<and> map result_sql results = texts"
proof -
  let ?f = "\<lambda>t. catch_eff (executeOneStatement env t (length texts = 1) (pool_run env))
      (\<lambda>e. ret (toErrorResult t e correlationId))"
  have "\<exists>r w'. ?f t w = (Inr r, w') \<and> result_sql r = t" for t w
    by (cases "executeOneStatement env t (length texts = 1) (pool_run env) w")
       (auto simp: catch_eff_run toErrorResult_def executeOneStatement_sql split: sum.splits)
  from each_eff_total [of ?f "\<lambda>t r. result_sql r = t" texts w, OF this]
  obtain rs w' where "each_eff ?f texts w = (Inr rs, w')" "list_all2 (\<lambda>t r. result_sql r = t) texts rs" by blast
  moreover from this(2) have "map result_sql rs = texts"
    by (induction rule: list_all2_induct) simp_all
  ultimately show ?thesis unfolding executeAutocommit_def by blast
qed

subsection \<open>Transactional scripts\<close>

text \<open>How a transactional run ends: on its last statement sent, given whether a statement failed.\<close>

definition script_outcome :: "string list \<Rightarrow> statement_result list \<Rightarrow> bool" where
  "script_outcome texts rs \<longleftrightarrow>
     map result_sql rs = take (length rs) texts \<and> list_all (\<lambda>r. \<not> is_error r) (butlast rs) \<and>
     (list_ex is_error rs \<or> length rs = length texts)"

definition end_frag :: "statement_result list \<Rightarrow> sql_fragment" where
  "end_frag rs = (if list_ex is_error rs then rollback_frag else commit_frag)"

lemma executeOneStatement_no_error:
  "executeOneStatement env text only run w = (Inr r, w') \<Longrightarrow> \<not> is_error r"
  unfolding executeOneStatement_def executePlan_def executeRows_def executeCommand_def
  by (auto simp: eff_simps Let_def split: option.splits prod.splits sum.splits if_splits)

lemma send_last:
  "send exec ch f w = (r, w') \<Longrightarrow> wWire w' = wWire w @ [(ch, f)]"
  using wire_send [of exec ch f w] by simp

text \<open>
  What one statement of a script puts on the wire: its own fragments on the client - the text, or the paged
  wrapper of a \<open>SELECT\<close>, followed by the text when the wrapper of an unparsed one failed - and behind them
  the catalogue reads that describe its columns, which go to the pool and satisfy \<open>D\<close>.
\<close>

definition own_frags :: "'d query_env \<Rightarrow> string \<Rightarrow> sql_fragment list set" where
  "own_frags env text =
     (if explain_match text = None \<and> is_select_statement env text
      then (case buildPagedQuery text (engine_placeholder (qeEngine env)) QUERY_PAGE_SIZE 0 None of
              Inl e \<Rightarrow> {[]}
            | Inr paged \<Rightarrow> {[paged]} \<union> (if tryAstifyOne env text = None then {[paged, plain_frag text]} else {}))
      else {[plain_frag text]})"

definition statement_wire ::
  "'d query_env \<Rightarrow> (sql_fragment \<Rightarrow> bool) \<Rightarrow> channel \<Rightarrow> string \<Rightarrow> (channel \<times> sql_fragment) list \<Rightarrow> bool" where
  "statement_wire env D ch text xs \<longleftrightarrow>
     (\<exists>own reads. xs = map (Pair ch) own @ map (Pair Pooled) reads \<and> own \<in> own_frags env text \<and> list_all D reads)"

definition describes_with :: "'d query_env \<Rightarrow> (sql_fragment \<Rightarrow> bool) \<Rightarrow> bool" where
  "describes_with env D \<longleftrightarrow>
     (\<forall>fs pk. keeps (sends (\<lambda>(ch, f). ch = Pooled \<and> D f)) (qeDescribe env (pool_run env) fs pk))"

lemma pooled_reads:
  "list_all (\<lambda>(ch, f). ch = Pooled \<and> D f) xs \<longleftrightarrow> (\<exists>reads. xs = map (Pair Pooled) reads \<and> list_all D reads)"
proof
  assume "list_all (\<lambda>(ch, f). ch = Pooled \<and> D f) xs"
  then have "map (Pair Pooled) (map snd xs) = xs \<and> list_all D (map snd xs)"
    by (induction xs) auto
  then show "\<exists>reads. xs = map (Pair Pooled) reads \<and> list_all D reads" by metis
qed (auto simp: list.pred_map comp_def)

lemma mapColumns_wire:
  assumes "describes_with env D" "mapColumns env fs pk w = (r, w')"
  shows "\<exists>reads. wWire w' = wWire w @ map (Pair Pooled) reads \<and> list_all D reads"
proof (cases "fs = []")
  case True
  with assms(2) show ?thesis by (auto simp: mapColumns_def)
next
  case False
  with assms(2) have w': "w' = snd (qeDescribe env (pool_run env) fs pk w)" by (simp add: mapColumns_def)
  have "sends (\<lambda>(ch, f). ch = Pooled \<and> D f) w w'"
    using assms(1) unfolding describes_with_def keeps_def w' by blast
  then show ?thesis unfolding sends_def pooled_reads by blast
qed

lemma executeCommand_wire:
  assumes "describes_with env D" "executeCommand env text (send exec ch) w = (r, w')"
  shows "\<exists>reads. wWire w' = wWire w @ (ch, plain_frag text) # map (Pair Pooled) reads \<and> list_all D reads"
proof -
  obtain r1 w1 where q: "send exec ch (plain_frag text) w = (r1, w1)" by fastforce
  show ?thesis
  proof (cases r1)
    case (Inl e)
    with q assms(2) show ?thesis by (intro exI [of _ "[]"]) (auto simp: executeCommand_def bind_eff_run send_last)
  next
    case (Inr x)
    obtain r2 w2 where m: "mapColumns env (drFields x) [] w1 = (r2, w2)" by fastforce
    from q assms(2) Inr m have "w' = w1 \<or> w' = w2"
      by (auto simp: executeCommand_def bind_eff_run split: if_splits sum.splits)
    with mapColumns_wire [OF assms(1) m] send_last [OF q] show ?thesis by auto
  qed
qed

lemma executeRows_wire:
  assumes "describes_with env D" "executeRows env text ast False (send exec ch) w = (r, w')"
    "buildPagedQuery text (engine_placeholder (qeEngine env)) QUERY_PAGE_SIZE 0 None = Inr paged"
  shows "\<exists>own reads. wWire w' = wWire w @ map (Pair ch) own @ map (Pair Pooled) reads \<and> list_all D reads
    \<and> (own = [paged] \<or> ast = None \<and> own = [paged, plain_frag text])"
proof -
  obtain r1 w1 where q: "send exec ch paged w = (r1, w1)" by fastforce
  note wire1 = send_last [OF q]
  show ?thesis
  proof (cases r1)
    case (Inr x)
    obtain rows trunc where page: "page_rows QUERY_PAGE_SIZE (drRows x) = (rows, trunc)" by fastforce
    obtain r2 w2 where m: "mapColumns env (drFields x) [] w1 = (r2, w2)" by fastforce
    from q assms(2,3) Inr m page have "w' = w2"
      by (auto simp: executeRows_def bind_eff_run catch_eff_run split: if_splits sum.splits option.splits)
    moreover obtain reads where "wWire w2 = wWire w1 @ map (Pair Pooled) reads" "list_all D reads"
      using mapColumns_wire [OF assms(1) m] by blast
    ultimately show ?thesis
      using wire1 by (intro exI [of _ "[paged]"] exI [of _ reads]) simp
  next
    case (Inl e)
    show ?thesis
    proof (cases ast)
      case None
      with q assms(2,3) Inl have "executeCommand env text (send exec ch) w1 = (r, w')"
        by (simp add: executeRows_def bind_eff_run catch_eff_run)
      from executeCommand_wire [OF assms(1) this] obtain reads where
        "wWire w' = wWire w1 @ (ch, plain_frag text) # map (Pair Pooled) reads" "list_all D reads" by blast
      with wire1 None show ?thesis
        by (intro exI [of _ "[paged, plain_frag text]"] exI [of _ reads]) simp
    next
      case (Some a)
      with q assms(2,3) Inl wire1 show ?thesis
        by (intro exI [of _ "[paged]"] exI [of _ "[]"]) (simp add: executeRows_def bind_eff_run)
    qed
  qed
qed

lemma executeOneStatement_wire:
  assumes "describes_with env D" "executeOneStatement env text False (send exec ch) w = (r, w')"
  shows "\<exists>xs. wWire w' = wWire w @ xs \<and> statement_wire env D ch text xs"
proof (cases "explain_match text")
  case (Some opts)
  with assms(2) have "w' = snd (send exec ch (plain_frag text) w)"
    by (auto simp: executeOneStatement_def executePlan_def bind_eff_run split: prod.splits sum.splits)
  with Some show ?thesis
    by (auto simp: statement_wire_def own_frags_def intro!: exI [of _ "[]"])
next
  case None
  note no_explain = None
  show ?thesis
  proof (cases "is_select_statement env text")
    case False
    with None assms(2) have "executeCommand env text (send exec ch) w = (r, w')" by (simp add: executeOneStatement_def)
    from executeCommand_wire [OF assms(1) this] None False show ?thesis
      by (auto simp: statement_wire_def own_frags_def)
  next
    case True
    with None assms(2) have rows: "executeRows env text (tryAstifyOne env text) False (send exec ch) w = (r, w')"
      by (simp add: executeOneStatement_def)
    show ?thesis
    proof (cases "buildPagedQuery text (engine_placeholder (qeEngine env)) QUERY_PAGE_SIZE 0 None")
      case (Inl e)
      with rows have "w' = w" by (simp add: executeRows_def bind_eff_run)
      with Inl None True show ?thesis by (simp add: statement_wire_def own_frags_def)
    next
      case (Inr paged)
      obtain own reads where own: "wWire w' = wWire w @ map (Pair ch) own @ map (Pair Pooled) reads" "list_all D reads"
        "own = [paged] \<or> tryAstifyOne env text = None \<and> own = [paged, plain_frag text]"
        using executeRows_wire [OF assms(1) rows Inr] by blast
      from own(3) Inr None True have "own \<in> own_frags env text" by (auto simp: own_frags_def)
      with own(1,2) show ?thesis unfolding statement_wire_def by blast
    qed
  qed
qed

lemma transactional_loop_run:
  assumes "describes_with env D" "transactional_loop env k (send exec ch) texts results w = (Inr rs, w')"
    "list_all (\<lambda>r. \<not> is_error r) results"
  shows "\<exists>new blocks. rs = results @ new \<and> script_outcome texts new \<and>
    wWire w' = wWire w @ concat blocks @ [(ch, end_frag new)] \<and>
    list_all2 (statement_wire env D ch) (take (length new) texts) blocks"
  using assms(2,3)
proof (induction texts arbitrary: results w)
  case Nil
  then obtain x where "send exec ch commit_frag w = (Inr x, w')" "rs = results"
    by (auto elim!: bind_eff_cases)
  then show ?case by (auto simp: script_outcome_def end_frag_def dest: send_last)
next
  case (Cons t ts)
  let ?one = "executeOneStatement env t False (send exec ch)"
  obtain o1 w1 where o1: "?one w = (o1, w1)" by fastforce
  obtain xs where xs: "wWire w1 = wWire w @ xs" "statement_wire env D ch t xs"
    using executeOneStatement_wire [OF assms(1) o1] by blast
  show ?case
  proof (cases o1)
    case (Inr r)
    then have nr: "\<not> is_error r" "result_sql r = t"
      using o1 executeOneStatement_no_error executeOneStatement_sql by blast+
    from Cons.prems(1) o1 Inr
    have "transactional_loop env k (send exec ch) ts (results @ [r]) w1 = (Inr rs, w')"
      by (simp add: bind_eff_run catch_eff_run)
    from Cons.IH [OF this] Cons.prems(2) nr(1) obtain new blocks where
      "rs = (results @ [r]) @ new" "script_outcome ts new" "wWire w' = wWire w1 @ concat blocks @ [(ch, end_frag new)]"
      "list_all2 (statement_wire env D ch) (take (length new) ts) blocks" by auto
    with nr xs show ?thesis
      by (intro exI [of _ "r # new"] exI [of _ "xs # blocks"]) (auto simp: script_outcome_def end_frag_def)
  next
    case (Inl e)
    let ?r = "toErrorResult t e k"
    from Cons.prems(1) o1 Inl have "bind_eff (send exec ch rollback_frag) (\<lambda>_. ret (results @ [?r])) w1 = (Inr rs, w')"
      by (simp add: bind_eff_run catch_eff_run)
    then obtain x where "send exec ch rollback_frag w1 = (Inr x, w')" "rs = results @ [?r]"
      by (auto elim!: bind_eff_cases)
    with xs show ?thesis
      by (intro exI [of _ "[?r]"] exI [of _ "[xs]"])
        (auto simp: script_outcome_def end_frag_def toErrorResult_def dest: send_last)
  qed
qed

text \<open>What the session of the driver sends around the script: the script's \<open>BEGIN\<close> is a second one where it
  opens a transaction of its own.\<close>

definition script_opening :: "engine \<Rightarrow> (channel \<times> sql_fragment) list" where
  "script_opening e = map (Pair (client_channel e))
     (if e = Mysql then [plain_frag ''BEGIN''] else [plain_frag ''BEGIN'', plain_frag ''BEGIN''])"

definition script_closing :: "engine \<Rightarrow> (channel \<times> sql_fragment) list" where
  "script_closing e = (if e = Mysql then [] else [(client_channel e, commit_frag)])"

definition script_body :: "'d query_env \<Rightarrow> string \<Rightarrow> string list \<Rightarrow> 'd query_fn \<Rightarrow> ('d world, statement_result list) eff" where
  "script_body env k texts query =
     bind_eff (query (plain_frag ''BEGIN'')) (\<lambda>_. transactional_loop env k query texts [])"

lemma script_body_run:
  assumes "describes_with env D" "script_body env k texts (send exec ch) w = (Inr rs, w')"
  shows "script_outcome texts rs \<and> (\<exists>blocks. wWire w' = wWire w @ [(ch, plain_frag ''BEGIN'')] @ concat blocks @ [(ch, end_frag rs)]
     \<and> list_all2 (statement_wire env D ch) (take (length rs) texts) blocks)"
proof -
  obtain x w1 where "send exec ch (plain_frag ''BEGIN'') w = (Inr x, w1)"
    "transactional_loop env k (send exec ch) texts [] w1 = (Inr rs, w')"
    using assms(2) unfolding script_body_def by (auto elim!: bind_eff_cases)
  with transactional_loop_run [OF assms(1) this(2)] show ?thesis by (auto dest!: send_last)
qed

lemma commit_or_rollback_Inr:
  assumes "commit_or_rollback q begins fn w = (Inr rs, w')"
  obtains us w1 w2 z where "each_eff q begins w = (Inr us, w1)" "fn q w1 = (Inr rs, w2)" "q commit_frag w2 = (Inr z, w')"
  using assms unfolding commit_or_rollback_def
  by (auto simp: eff_simps ignore_errors_def split: prod.splits sum.splits)

text \<open>
  SQLite refuses a \<open>BEGIN\<close> inside a transaction, and its driver's \<open>withSession\<close> has sent one already: a
  transactional script on SQLite never gets to its first statement.
\<close>

definition refuses_nested_begin :: "'d exec \<Rightarrow> bool" where
  "refuses_nested_begin exec \<longleftrightarrow>
     (\<forall>d r d'. exec Pooled (plain_frag ''BEGIN'') d = (Inr r, d') \<longrightarrow>
        isl (fst (exec Pooled (plain_frag ''BEGIN'') d')))"

lemma sqlite_transactional_never_runs:
  assumes "qeEngine env = Sqlite" "refuses_nested_begin (qeExec env)"
  shows "\<exists>e. fst (executeTransactional env texts correlationId w) = Inl e"
    and "\<exists>xs. wWire (snd (executeTransactional env texts correlationId w)) = wWire w @ xs
      \<and> set xs \<subseteq> {(Pooled, plain_frag ''BEGIN''), (Pooled, rollback_frag)}"
proof -
  let ?q = "send (qeExec env) Pooled"
  obtain r w1 where b1: "?q (plain_frag ''BEGIN'') w = (r, w1)" by fastforce
  obtain r2 w2 where b2: "?q (plain_frag ''BEGIN'') w1 = (r2, w2)" by fastforce
  have two: "isl r2" if "\<not> isl r"
    using assms(2) that snd_send [OF b1] snd_send [OF b2] unfolding refuses_nested_begin_def
    by (cases r) (auto, metis fst_conv)
  have run: "executeTransactional env texts correlationId w =
      (case r of Inl e \<Rightarrow> (Inl e, w1)
       | Inr x \<Rightarrow> (case r2 of Inl e \<Rightarrow> (Inl e, snd (?q rollback_frag w2))
                  | Inr y \<Rightarrow> commit_or_rollback ?q []
                      (\<lambda>query. bind_eff (query (plain_frag ''BEGIN'')) (\<lambda>_. transactional_loop env correlationId query texts [])) w1))"
    using assms(1) b1 b2
    by (auto simp: executeTransactional_def engine_withSession_def sqlite_withSession_def commit_or_rollback_def
        eff_simps ignore_errors_def split: sum.splits)
  show "\<exists>e. fst (executeTransactional env texts correlationId w) = Inl e"
    unfolding run using two by (cases r; cases r2) auto
  show "\<exists>xs. wWire (snd (executeTransactional env texts correlationId w)) = wWire w @ xs
      \<and> set xs \<subseteq> {(Pooled, plain_frag ''BEGIN''), (Pooled, rollback_frag)}"
    unfolding run using two send_last [OF b1] send_last [OF b2] by (cases r; cases r2) auto
qed

text \<open>
  C14. A transactional script stops at its first failure and ends its transaction once. When the run
  returns, its results are those of a prefix of the script, in order, none but the last an error, and all of
  the wire is known: the opening \<open>BEGIN\<close>s, for each result the fragments of its own statement, one
  \<open>COMMIT\<close> when all the statements ran or one \<open>ROLLBACK\<close> when one failed, and the \<open>COMMIT\<close> of the driver's
  session where it has one (PostgreSQL and SQLite). On SQLite, which refuses a \<open>BEGIN\<close> within a transaction,
  the run never returns: its session has sent one already, and no statement of the script is ever sent.
\<close>

theorem executeTransactional_ends:
  assumes "describes_with env D" "executeTransactional env texts correlationId w = (r, w')"
  shows "(\<forall>rs. r = Inr rs \<longrightarrow> script_outcome texts rs \<and>
      (\<exists>blocks. wWire w' = wWire w @ script_opening (qeEngine env) @ concat blocks
           @ [(client_channel (qeEngine env), end_frag rs)] @ script_closing (qeEngine env)
         \<and> list_all2 (statement_wire env D (client_channel (qeEngine env))) (take (length rs) texts) blocks))
    \<and> (qeEngine env = Sqlite \<and> refuses_nested_begin (qeExec env) \<longrightarrow> isl r \<and>
        (\<exists>xs. wWire w' = wWire w @ xs \<and> set xs \<subseteq> {(Pooled, plain_frag ''BEGIN''), (Pooled, rollback_frag)}))"
proof (intro conjI impI allI)
  fix rs assume r: "r = Inr rs"
  let ?e = "qeEngine env" let ?q = "send (qeExec env) (client_channel ?e)"
  have split: "executeTransactional env texts correlationId = engine_withSession ?e (qeExec env) (script_body env correlationId texts)"
    by (simp add: executeTransactional_def script_body_def [abs_def])
  note run = assms(2) [unfolded r split]
  obtain w1 w2 where
    body: "script_body env correlationId texts ?q w1 = (Inr rs, w2)"
    and before: "wWire w1 = wWire w @ (if ?e = Mysql then [] else [(client_channel ?e, plain_frag ''BEGIN'')])"
    and after: "wWire w' = wWire w2 @ script_closing ?e"
  proof (cases ?e)
    case Mysql
    with run show thesis
      by (intro that [of w w']) (simp_all add: engine_withSession_def mysql_withSession_def script_closing_def client_channel_def)
  next
    case Pg
    with run have "commit_or_rollback ?q [plain_frag ''BEGIN''] (script_body env correlationId texts) w = (Inr rs, w')"
      by (simp add: engine_withSession_def pg_withSession_def client_channel_def)
    then obtain us w1 w2 z where "each_eff ?q [plain_frag ''BEGIN''] w = (Inr us, w1)"
      "script_body env correlationId texts ?q w1 = (Inr rs, w2)" "?q commit_frag w2 = (Inr z, w')"
      by (rule commit_or_rollback_Inr)
    with Pg show thesis
      by (intro that [of w1 w2]) (auto simp: script_closing_def elim!: bind_eff_cases dest!: send_last)
  next
    case Sqlite
    with run obtain x w0 where "?q (plain_frag ''BEGIN'') w = (Inr x, w0)"
      "commit_or_rollback ?q [] (script_body env correlationId texts) w0 = (Inr rs, w')"
      by (auto simp: engine_withSession_def sqlite_withSession_def client_channel_def elim!: bind_eff_cases)
    moreover from this(2) obtain us w1 w2 z where "each_eff ?q [] w0 = (Inr us, w1)"
      "script_body env correlationId texts ?q w1 = (Inr rs, w2)" "?q commit_frag w2 = (Inr z, w')"
      by (rule commit_or_rollback_Inr)
    ultimately show thesis using Sqlite
      by (intro that [of w1 w2]) (auto simp: script_closing_def dest!: send_last)
  qed
  from script_body_run [OF assms(1) body] show "script_outcome texts rs" by blast
  from script_body_run [OF assms(1) body] before after
  show "\<exists>blocks. wWire w' = wWire w @ script_opening ?e @ concat blocks
           @ [(client_channel ?e, end_frag rs)] @ script_closing ?e
         \<and> list_all2 (statement_wire env D (client_channel ?e)) (take (length rs) texts) blocks"
    by (auto simp: script_opening_def)
next
  assume "qeEngine env = Sqlite \<and> refuses_nested_begin (qeExec env)"
  then have s: "qeEngine env = Sqlite" "refuses_nested_begin (qeExec env)" by simp_all
  show "isl r" using sqlite_transactional_never_runs(1) [OF s, of texts correlationId w] assms(2) by auto
  show "\<exists>xs. wWire w' = wWire w @ xs \<and> set xs \<subseteq> {(Pooled, plain_frag ''BEGIN''), (Pooled, rollback_frag)}"
    using sqlite_transactional_never_runs(2) [OF s, of texts correlationId w] assms(2) by simp
qed

subsection \<open>Classification and execution agree\<close>

text \<open>
  The guard and the executor agree on what a read is: a statement classified as a read runs either
  as a plan without \<open>ANALYZE\<close> or through the paged \<open>SELECT\<close> path, and a parsed one has no node anywhere in
  its tree that is an \<open>INSERT\<close>, \<open>UPDATE\<close>, \<open>DELETE\<close> or \<open>REPLACE\<close>.
\<close>

theorem classified_read_runs_as_read:
  assumes "classifyStatement env text = Read"
  shows "(\<exists>opts. explain_match text = Some opts \<and> \<not> is_analyze text opts \<and>
            executeOneStatement env text only run = executePlan env text opts run)
    \<or> (explain_match text = None \<and> is_select_statement env text \<and>
         executeOneStatement env text only run = executeRows env text (tryAstifyOne env text) only run \<and>
         \<not> (\<exists>ast u. tryAstifyOne env text = Some ast \<and> subnode u ast \<and> write_node u))"
  using assms unfolding classifyStatement_def executeOneStatement_def is_select_statement_def
    astContainsWriteStatement_def any_node_subnode
  by (auto split: option.splits if_splits)

text \<open>
  A comment between the two keywords hides \<open>ANALYZE\<close> from both tests of the guard, so what PostgreSQL
  runs as \<open>EXPLAIN ANALYZE\<close> is classified as a read, whatever the parser says.
\<close>

lemma explain_comment_hides_analyze:
  "classifyStatement env ''EXPLAIN/**/ANALYZE DELETE FROM t'' = Read"
  by (simp add: classifyStatement_def explain_match_def strip_keyword_def trim_start_def js_space_def
      is_analyze_def explain_analyze_prefix_def has_keyword_def ascii_lower_def word_char_def alpha_char_def
      lower_char_def digit_char_def char_of_def bit_0)

subsection \<open>Paging\<close>

text \<open>\<open>LIMIT n OFFSET m\<close> as the engines document it, on a query whose full result is \<open>rs\<close>.\<close>

definition windowed :: "'d exec \<Rightarrow> row list \<Rightarrow> bool" where
  "windowed exec rs \<longleftrightarrow>
     (\<forall>f n m d r d'. fragParams f = [JNum (int n), JNum (int m)] \<longrightarrow> exec Pooled f d = (Inr r, d') \<longrightarrow>
        drRows r = take n (drop m rs))"

text \<open>
  A page is exactly its window: over a query whose full result is \<open>rs\<close>, the page at an offset is the
  next \<open>limit\<close> rows, it is marked truncated exactly when rows remain behind it, and the one statement sent
  is the paged wrapper.
\<close>

theorem fetchPage_window:
  assumes "fetchPage env sql offset limit sortBy dir w = (Inr resp, w')" "windowed (qeExec env) rs"
  shows "frRows resp = take limit (drop offset rs) \<and> (frTruncated resp \<longleftrightarrow> offset + limit < length rs)
    \<and> (\<exists>paged. fragParams paged = [JNum (int limit + 1), JNum (int offset)] \<and> wWire w' = wWire w @ [(Pooled, paged)])"
proof -
  from assms(1) obtain stmt paged ob r where
    b: "buildPagedQuery stmt (engine_placeholder (qeEngine env)) limit offset ob = Inr paged"
    and run: "pool_run env paged w = (Inr r, w')"
    and resp: "resp = \<lparr>frRows = fst (page_rows limit (drRows r)), frTruncated = snd (page_rows limit (drRows r))\<rparr>"
    unfolding fetchPage_def
    by (auto simp: eff_simps Let_def split: list.splits if_splits sum.splits prod.splits)
  have ps: "fragParams paged = [JNum (int limit + 1), JNum (int offset)]"
    using b by (auto simp: buildPagedQuery_def res_simps)
  then have "fragParams paged = [JNum (int (Suc limit)), JNum (int offset)]" by (simp add: algebra_simps)
  with assms(2) run have rows: "drRows r = take (Suc limit) (drop offset rs)"
    unfolding windowed_def pool_run_def by (metis snd_send)
  have "wWire w' = wWire w @ [(Pooled, paged)]"
    using run send_last by (simp add: pool_run_def)
  with ps show ?thesis
    unfolding resp rows page_rows_def by (auto simp: min_def)
qed

text \<open>
  Paging and streaming never run anything but a single \<open>SELECT\<close>: a script that is not exactly one
  statement, an \<open>EXPLAIN\<close>, or a statement the shared test does not take for a \<open>SELECT\<close> is refused by
  both entry points before anything is sent.
\<close>

theorem paging_and_streaming_refuse:
  assumes "\<not> (\<exists>stmt. splitStatements sql = [stmt] \<and> explain_match stmt = None \<and> is_select_statement env stmt)"
  shows "(\<exists>m. fetchPage env sql offset limit sortBy dir w = (Inl (BadRequest m), w))
    \<and> (\<exists>m. resolveSingleSelect env sql w = (Inl (BadRequest m), w))"
  using assms unfolding fetchPage_def resolveSingleSelect_def
  by (auto split: list.splits)

subsection \<open>The assistant's queries\<close>

definition ro_open :: "engine \<Rightarrow> (channel \<times> sql_fragment) list" where
  "ro_open e =
     (case e of
        Pg \<Rightarrow> [(Pinned, plain_frag ''BEGIN''), (Pinned, plain_frag ''SET TRANSACTION READ ONLY'')]
      | Mysql \<Rightarrow> [(Pinned, plain_frag ''START TRANSACTION READ ONLY'')]
      | Sqlite \<Rightarrow> [(Pooled, plain_frag ''PRAGMA query_only = ON'')])"

text \<open>Reading metadata and result columns only adds to what was sent.\<close>

definition metadata_appends :: "'d query_env \<Rightarrow> bool" where
  "metadata_appends env \<longleftrightarrow>
     (\<forall>s t. keeps (sends (\<lambda>_. True)) (qeTableColumns env s t)) \<and>
     (\<forall>fs pk. keeps (sends (\<lambda>_. True)) (qeDescribe env (pool_run env) fs pk))"

text \<open>What a read-only transaction around one statement sends: the bracket, then the statement; or, when
  the engine refuses the bracket, at most the bracket's start and a \<open>ROLLBACK\<close>.\<close>

lemma ro_transaction_wire:
  "\<exists>ys. wWire (snd (engine_withReadOnlyTransaction e exec (\<lambda>q. q paged) w)) = wWire w @ ys \<and>
     ((\<exists>zs. ys = ro_open e @ (client_channel e, paged) # zs) \<or>
      (set ys \<subseteq> insert (client_channel e, rollback_frag) (set (ro_open e))
        \<and> isl (fst (engine_withReadOnlyTransaction e exec (\<lambda>q. q paged) w))))"
proof (cases e)
  case Pg
  then show ?thesis
    by (auto simp: engine_withReadOnlyTransaction_def pg_withReadOnlyTransaction_def commit_or_rollback_def
        eff_simps ignore_errors_def ro_open_def client_channel_def split: sum.splits prod.splits dest!: send_last)
next
  case Mysql
  then show ?thesis
    by (auto simp: engine_withReadOnlyTransaction_def mysql_withReadOnlyTransaction_def commit_or_rollback_def
        eff_simps ignore_errors_def ro_open_def client_channel_def split: sum.splits prod.splits dest!: send_last)
next
  case Sqlite
  then show ?thesis
    by (auto simp: engine_withReadOnlyTransaction_def sqlite_withReadOnlyTransaction_def Let_def
        eff_simps ro_open_def client_channel_def split: sum.splits prod.splits dest!: send_last)
qed

lemma resolveEditability_appends:
  "metadata_appends env \<Longrightarrow> keeps (sends (\<lambda>_. True)) (resolveEditability env sts)"
  unfolding resolveEditability_def metadata_appends_def
  by (auto split: option.splits intro!: sending.keeps_intros)

lemma mapColumns_appends: "metadata_appends env \<Longrightarrow> keeps (sends (\<lambda>_. True)) (mapColumns env fs pk)"
  unfolding mapColumns_def metadata_appends_def by (auto intro!: sending.keeps_intros)


subsection \<open>The trail of a script\<close>

text \<open>
  Every write a script attempted is handed to the audit trail exactly once, in the script's order, and
  nothing else is: the entries are those of the statements classified as writes that were attempted
  (all of them when the transaction was rolled back), under the acting user, and an entry says success
  only if its statement returned a result that is no error in a script that was not rolled back.
\<close>

theorem auditMutations_exact:
  "\<exists>us new. auditMutations env u c k texts rs transactional w = (Inr us, audited new w) \<and>
     map aeSql new = map (\<lambda>i. texts ! i) (filter (\<lambda>i. classifyStatement env (texts ! i) = Write \<and>
        (i < length rs \<or> (transactional \<and> list_ex is_error rs))) [0 ..< length texts]) \<and>
     list_all (\<lambda>a. aeUser a = u \<and> aeConnection a = c \<and> (aeOutcome a = Success \<longleftrightarrow>
        \<not> (transactional \<and> list_ex is_error rs) \<and> aeErrorClass a = None)) new"
proof -
  let ?rolled = "transactional \<and> list_ex is_error rs"
  define cls where "cls i = (case (if i < length rs then Some (rs ! i) else None) of
      Some (ErrorResult s m cd kk) \<Rightarrow> Some (case cd of None \<Rightarrow> ''Error'' | Some code \<Rightarrow> code)
    | _ \<Rightarrow> if ?rolled then Some ''rolled_back'' else None)" for i
  define oc where "oc i = (if ?rolled \<or> (case (if i < length rs then Some (rs ! i) else None) of
      None \<Rightarrow> True | Some r \<Rightarrow> is_error r) then Failure else Success)" for i
  define att where "att i \<longleftrightarrow> classifyStatement env (texts ! i) = Write \<and> (i < length rs \<or> ?rolled)" for i
  define f where "f i = (let text = texts ! i;
               result = (if i < length rs then Some (rs ! i) else None)
           in if classifyStatement env text \<noteq> Write then ret ()
              else if result = None \<and> \<not> ?rolled then ret ()
              else (let failed = ?rolled \<or> (case result of None \<Rightarrow> True | Some r \<Rightarrow> is_error r);
                        errorClass = (case result of
                            Some (ErrorResult s m cd kk) \<Rightarrow> Some (case cd of None \<Rightarrow> ''Error'' | Some code \<Rightarrow> code)
                          | _ \<Rightarrow> if ?rolled then Some ''rolled_back'' else None)
                    in auditStatement env u c k text (if failed then Failure else Success) errorClass))" for i
  define g where "g i = (if att i then [audit_entry_for env u c k (texts ! i) (oc i) (cls i)] else [])" for i
  have sqls: "map aeSql (concat (map g is)) = map (\<lambda>i. texts ! i) (filter att is)" for "is"
    by (induction "is") (simp_all add: g_def audit_entry_for_def Let_def)
  have alls: "list_all (\<lambda>a. aeUser a = u \<and> aeConnection a = c \<and>
      (aeOutcome a = Success \<longleftrightarrow> \<not> ?rolled \<and> aeErrorClass a = None)) (concat (map g is))" for "is"
  proof -
    have "(oc i = Success) \<longleftrightarrow> \<not> ?rolled \<and> cls i = None" if "att i" for i
      using that unfolding oc_def cls_def att_def
      by (cases "i < length rs"; cases "rs ! i") (auto split: option.splits)
    then show ?thesis
      by (induction "is") (auto simp: g_def audit_entry_for_def Let_def)
  qed
  have "\<exists>v. f i w = (Inr v, audited (g i) w)" for i and w :: "'a world"
    unfolding f_def g_def att_def oc_def cls_def by (auto simp: Let_def auditStatement_run)
  from each_eff_audit [of f g "[0 ..< length texts]" w, OF this]
  obtain us where "each_eff f [0 ..< length texts] w =
      (Inr us, audited (concat (map g [0 ..< length texts])) w)" by blast
  moreover have "auditMutations env u c k texts rs transactional w = each_eff f [0 ..< length texts] w"
    unfolding auditMutations_def f_def Let_def by simp
  ultimately show ?thesis
    unfolding att_def [symmetric] using sqls alls
    by (intro exI [of _ us] exI [of _ "concat (map g [0 ..< length texts])"]) simp
qed

subsection \<open>The properties on concrete environments\<close>

text \<open>A database that answers everything with an empty result, behind a parser that takes every text for
  a \<open>SELECT\<close> or for nothing.\<close>

definition demo_result :: driver_result where
  "demo_result = \<lparr>drRows = [], drFields = [], drRowCount = Some 0, drCommand = ''X'', drLastInsertId = JUndef\<rparr>"

definition demo_exec :: "unit exec" where
  "demo_exec ch f d = (Inr demo_result, d)"

definition demo_env :: "engine \<Rightarrow> bool \<Rightarrow> js_val option \<Rightarrow> unit query_env" where
  "demo_env e ro ast = \<lparr>qeEngine = e, qeExec = demo_exec, qeAstify = (\<lambda>_. ast), qeReadOnly = ro,
     qeDefaultNamespace = ''public'', qeTableColumns = (\<lambda>s t. ret []), qeDescribe = (\<lambda>q fs pk. ret []),
     qeFormatExplain = (\<lambda>rows. []), qeSupportsQueryPlan = True, qeSupportsExplainAnalyze = True,
     qeBuildExplain = (\<lambda>q a. plain_frag q)\<rparr>"

definition demo_world :: "unit world" where
  "demo_world = \<lparr>wDb = (), wWire = [], wAudit = [], wAuditWrites = [], wHistory = []\<rparr>"

definition demo_select :: js_val where
  "demo_select = JObj [(''type'', JStr ''select'')]"

lemmas demo_defs = demo_env_def demo_exec_def demo_result_def demo_world_def

lemma split_word: "splitStatements ''x'' = [''x'']"
proof -
  have "js_trim ''x'' = ''x''" by (rule js_trim_trimmed) (simp add: trimmed_def js_space_def)
  then show ?thesis using single_segment_statement [of "''x''"] single_segment [of "''x''"] by simp
qed

lemma word_facts: "explain_match ''x'' = None" "\<not> looksLikeSingleSelect ''x''"
  by (simp_all add: explain_match_def looksLikeSingleSelect_def strip_keyword_def trim_start_def js_space_def
      ascii_lower_def char_of_def bit_0)

theorem execute_read_only_guard_witness:
  "execute (demo_env Pg True None) ''c'' ''x'' ''u'' [] False demo_world =
    (Inl (Forbidden ''This connection is read-only''),
     audited [audit_entry_for (demo_env Pg True None) ''u'' ''c'' [] ''x'' Failure (Some ''read-only'')] demo_world)"
proof -
  have c: "classifyStatement (demo_env Pg True None) ''x'' = Write"
    by (simp add: classifyStatement_def word_facts tryAstifyOne_def demo_env_def)
  have r: "qeReadOnly (demo_env Pg True None)" by (simp add: demo_env_def)
  have b: "\<exists>text \<in> set (splitStatements ''x''). classifyStatement (demo_env Pg True None) text = Write"
    by (simp add: split_word c)
  show ?thesis
    using execute_read_only_guard [OF r b] by (simp add: split_word c)
qed

theorem executeTransactional_ends_witness:
  "\<exists>rs w'. executeTransactional (demo_env Mysql False None) [''x''] [] demo_world = (Inr rs, w') \<and>
     script_outcome [''x''] rs \<and>
     wWire w' = map (Pair Pinned) [plain_frag ''BEGIN'', plain_frag ''x'', plain_frag ''COMMIT'']"
proof -
  let ?env = "demo_env Mysql False None"
  have run: "\<exists>w'. executeTransactional ?env [''x''] [] demo_world = (Inr [CommandResult ''x'' ''X'' 0], w')"
    by (simp add: executeTransactional_def engine_withSession_def mysql_withSession_def bind_eff_run send_def
        demo_defs catch_eff_run executeOneStatement_def word_facts is_select_statement_def tryAstifyOne_def
        executeCommand_def plain_frag_def commit_frag_def)
  then obtain w' where w': "executeTransactional ?env [''x''] [] demo_world = (Inr [CommandResult ''x'' ''X'' 0], w')" ..
  have d: "describes_with ?env (\<lambda>_. False)" by (simp add: describes_with_def demo_env_def sending.keeps_ret)
  have e: "qeEngine ?env = Mysql" "wWire demo_world = []" by (simp_all add: demo_env_def demo_world_def)
  have own: "own_frags ?env ''x'' = {[plain_frag ''x'']}"
    by (simp add: own_frags_def word_facts is_select_statement_def tryAstifyOne_def demo_env_def)
  have none: "list_all (\<lambda>_. False) xs \<longleftrightarrow> xs = []" for xs :: "sql_fragment list" by (cases xs) simp_all
  from executeTransactional_ends [OF d w'] obtain blocks where "script_outcome [''x''] [CommandResult ''x'' ''X'' 0]"
    "wWire w' = script_opening Mysql @ concat blocks
       @ [(Pinned, end_frag [CommandResult ''x'' ''X'' 0])] @ script_closing Mysql"
    "list_all2 (statement_wire ?env (\<lambda>_. False) Pinned) [''x''] blocks"
    unfolding e client_channel_def by auto
  then show ?thesis
    using w' by (auto simp: list_all2_Cons1 statement_wire_def own none script_opening_def script_closing_def
        client_channel_def end_frag_def commit_frag_def)
qed

theorem classified_read_runs_as_read_witness:
  "\<exists>opts. explain_match ''explain x'' = Some opts \<and> \<not> is_analyze ''explain x'' opts"
proof -
  have c: "classifyStatement (demo_env Pg True None) ''explain x'' = Read"
    by (simp add: classifyStatement_def explain_match_def strip_keyword_def trim_start_def js_space_def
      is_analyze_def explain_analyze_prefix_def has_keyword_def ascii_lower_def word_char_def alpha_char_def
      lower_char_def digit_char_def char_of_def bit_0)
  have "explain_match ''explain x'' \<noteq> None"
    by (simp add: explain_match_def strip_keyword_def trim_start_def js_space_def ascii_lower_def word_char_def
        alpha_char_def lower_char_def digit_char_def char_of_def bit_0)
  with classified_read_runs_as_read [OF c, of False "pool_run (demo_env Pg True None)"] show ?thesis by auto
qed

theorem fetchPage_window_witness:
  "\<exists>resp w'. fetchPage (demo_env Mysql False (Some demo_select)) ''x'' 0 5 None ASC demo_world = (Inr resp, w')
     \<and> frRows resp = [] \<and> \<not> frTruncated resp"
proof -
  let ?env = "demo_env Mysql False (Some demo_select)"
  have s: "is_select_statement ?env ''x''"
    by (simp add: is_select_statement_def tryAstifyOne_def demo_env_def demo_select_def nullish_def)
  have "\<exists>resp w'. fetchPage ?env ''x'' 0 5 None ASC demo_world = (Inr resp, w')"
    by (simp add: fetchPage_def split_word word_facts s buildPagedQuery_def orderByClause_def bind_eff_run
        pool_run_def send_def) (simp add: demo_defs page_rows_def)
  then obtain resp w' where r: "fetchPage ?env ''x'' 0 5 None ASC demo_world = (Inr resp, w')" by blast
  have "windowed (qeExec ?env) []" by (simp add: windowed_def demo_defs)
  from fetchPage_window [OF r this] r show ?thesis by auto
qed

theorem paging_and_streaming_refuse_witness:
  "\<exists>m. fetchPage (demo_env Pg False None) ''x'' 0 5 None ASC demo_world = (Inl (BadRequest m), demo_world)"
proof -
  have "\<not> is_select_statement (demo_env Pg False None) ''x''"
    by (simp add: is_select_statement_def tryAstifyOne_def demo_env_def word_facts)
  then show ?thesis
    using paging_and_streaming_refuse [of "''x''" "demo_env Pg False None" 0 5 None ASC demo_world]
    by (simp add: split_word)
qed


end
