(* ===== verification/Masking.thy ===== *)
theory Masking
  imports JsValue
begin

text \<open>
  \<open>grid/masking.ts\<close>: which columns of a table a user has masked, and the redaction of rows. The
  preference is an object of objects, so a list of entries; a JavaScript set of names is the list of its
  elements in insertion order. Names of \<open>Object.prototype\<close> (\<open>toString\<close>, ...) are not properties of a row here.
\<close>

definition MASK_TOKEN :: string where
  "MASK_TOKEN = concat (replicate 4 [CHR 0xE2, CHR 0x80, CHR 0xA2])"

type_synonym masked_columns = "(string \<times> (string \<times> string list) list) list"

text \<open>\<open>[...new Set(xs)]\<close>\<close>

fun js_set :: "'a list \<Rightarrow> 'a list" where
  "js_set [] = []"
| "js_set (x # xs) = x # filter (\<lambda>y. y \<noteq> x) (js_set xs)"

lemma set_js_set [simp]: "set (js_set xs) = set xs"
  by (induction xs) auto

lemma distinct_js_set [simp]: "distinct (js_set xs)"
  by (induction xs) auto

definition tableKey :: "string \<Rightarrow> string \<Rightarrow> string" where
  "tableKey schema table = schema @ ''.'' @ table"

definition maskedColumnsFor ::
  "masked_columns option \<Rightarrow> string \<Rightarrow> string \<Rightarrow> string \<Rightarrow> string list \<Rightarrow> string list" where
  "maskedColumnsFor masked connectionId schema table primaryKey =
     (let configured =
        (case masked of None \<Rightarrow> []
         | Some m \<Rightarrow>
             (case map_of m connectionId of None \<Rightarrow> []
              | Some tables \<Rightarrow> (case map_of tables (tableKey schema table) of None \<Rightarrow> [] | Some cs \<Rightarrow> cs)))
      in js_set (filter (\<lambda>column. column \<notin> set primaryKey) configured))"

definition redactValue :: "js_val \<Rightarrow> js_val" where
  "redactValue value = (if nullish value then value else JStr MASK_TOKEN)"

definition redact_step :: "string \<Rightarrow> row \<Rightarrow> row" where
  "redact_step column out =
     (if has_prop out column then put_prop column (redactValue (get_prop out column)) out else out)"

definition redactRow :: "string list \<Rightarrow> row \<Rightarrow> row" where
  "redactRow masked row = fold redact_step masked row"

definition redactRows :: "row list \<Rightarrow> string list \<Rightarrow> row list" where
  "redactRows rows masked = (if masked = [] then rows else map (redactRow masked) rows)"

subsection \<open>Redaction, value by value\<close>

lemma redactValue_idem [simp]: "redactValue (redactValue v) = redactValue v"
  by (simp add: redactValue_def nullish_def)

lemma redactValue_undef [simp]: "redactValue JUndef = JUndef"
  by (simp add: redactValue_def nullish_def)

lemma get_prop_absent: "\<not> has_prop r k \<Longrightarrow> get_prop r k = JUndef"
  by (induction r) auto

lemma get_redact_step: "get_prop (redact_step c r) k = (if k = c then redactValue (get_prop r k) else get_prop r k)"
  by (auto simp: redact_step_def get_put_prop get_prop_absent)

lemma keys_redact_step [simp]: "map fst (redact_step c r) = map fst r"
  by (simp add: redact_step_def)

lemma redactRow_simps [simp]:
  "redactRow [] r = r" "redactRow (c # m) r = redactRow m (redact_step c r)"
  by (simp_all add: redactRow_def)

lemma get_redactRow:
  "get_prop (redactRow m r) k = (if k \<in> set m then redactValue (get_prop r k) else get_prop r k)"
  by (induction m arbitrary: r) (auto simp: get_redact_step)

lemma keys_redactRow [simp]: "map fst (redactRow m r) = map fst r"
  by (induction m arbitrary: r) simp_all

lemma redactRows_eq: "redactRows rows m = map (redactRow m) rows"
  by (simp add: redactRows_def map_idI)

lemma row_eqI:
  assumes "map fst r = map fst s" "distinct (map fst r)" "\<And>k. get_prop r k = get_prop s k"
  shows "r = s"
  using assms
proof (induction r arbitrary: s)
  case Nil
  then show ?case by simp
next
  case (Cons f r)
  from Cons.prems(1) obtain g t where s: "s = g # t" "fst f = fst g" "map fst r = map fst t"
    by (cases s) auto
  have "snd f = snd g" using Cons.prems(3) [of "fst f"] s by simp
  moreover have "r = t"
  proof (rule Cons.IH)
    show "map fst r = map fst t" by (rule s(3))
    show "distinct (map fst r)" using Cons.prems(2) by simp
    fix k
    have "fst f \<notin> set (map fst r)" "fst g \<notin> set (map fst t)"
      using Cons.prems(1,2) s by auto
    then have "\<not> has_prop r (fst f)" "\<not> has_prop t (fst f)"
      using s(2) by (auto simp: has_prop_def)
    then show "get_prop r k = get_prop t k"
      using Cons.prems(3) [of k] s by (cases "k = fst f") (auto simp: get_prop_absent split: if_splits)
  qed
  ultimately show ?case using s by (simp add: prod_eq_iff)
qed

subsection \<open>The transform\<close>

text \<open>
  Redaction under a user's preference is exact and keeps rows addressable: a redacted row has the
  same columns in the same order; a masked column shows the token unless it held no value; every other
  column, and every primary-key column even if the user masked it, shows what the database returned.
\<close>

theorem redactRows_exact:
  "list_all2 (\<lambda>r r'. map fst r' = map fst r
      \<and> (\<forall>k. get_prop r' k =
           (if k \<in> set masked \<and> \<not> nullish (get_prop r k) then JStr MASK_TOKEN else get_prop r k))
      \<and> map (get_prop r') primaryKey = map (get_prop r) primaryKey)
    rows (redactRows rows masked)"
  if "masked = maskedColumnsFor prefs connectionId schema table primaryKey"
proof -
  have "k \<notin> set masked" if "k \<in> set primaryKey" for k
    using that \<open>masked = _\<close> by (auto simp: maskedColumnsFor_def Let_def)
  then show ?thesis
    by (auto simp: redactRows_eq list_all2_conv_all_nth get_redactRow redactValue_def)
qed

theorem redactRows_exact_witness:
  "get_prop (redactRow [''email''] [(''id'', JNum 1), (''email'', JStr ''a@b'')]) ''email'' = JStr MASK_TOKEN
   \<and> get_prop (redactRow [''email''] [(''id'', JNum 1), (''email'', JStr ''a@b'')]) ''id'' = JNum 1"
proof -
  have "[''email''] = maskedColumnsFor (Some [(''c'', [(''public.users'', [''id'', ''email''])])]) ''c'' ''public'' ''users'' [''id'']"
    by (simp add: maskedColumnsFor_def tableKey_def)
  from redactRows_exact [OF this, of "[[(''id'', JNum 1), (''email'', JStr ''a@b'')]]"]
  show ?thesis by (simp add: redactRows_eq nullish_def)
qed

definition same_outside :: "string list \<Rightarrow> row \<Rightarrow> row \<Rightarrow> bool" where
  "same_outside masked r s \<longleftrightarrow>
     map fst r = map fst s \<and> distinct (map fst r) \<and>
     list_all (\<lambda>k. if k \<in> set masked
                  then get_prop r k = get_prop s k \<or> (\<not> nullish (get_prop r k) \<and> \<not> nullish (get_prop s k))
                  else get_prop r k = get_prop s k) (map fst r)"

lemma redactRow_hides:
  assumes "same_outside masked r s"
  shows "redactRow masked r = redactRow masked s"
proof (rule row_eqI)
  show "map fst (redactRow masked r) = map fst (redactRow masked s)" "distinct (map fst (redactRow masked r))"
    using assms by (auto simp: same_outside_def)
  fix k
  show "get_prop (redactRow masked r) k = get_prop (redactRow masked s) k"
  proof (cases "has_prop r k")
    case True
    then have "k \<in> set (map fst r)" by (auto simp: has_prop_def)
    with assms have "if k \<in> set masked
        then get_prop r k = get_prop s k \<or> (\<not> nullish (get_prop r k) \<and> \<not> nullish (get_prop s k))
        else get_prop r k = get_prop s k"
      unfolding same_outside_def list_all_iff by blast
    then show ?thesis by (auto simp: get_redactRow redactValue_def split: if_splits)
  next
    case False
    have "set (map fst r) = set (map fst s)" using assms by (simp add: same_outside_def)
    with False have "\<not> has_prop s k" by (simp add: has_prop_def)
    with False show ?thesis by (simp add: get_redactRow get_prop_absent)
  qed
qed

lemma redactRows_same:
  "list_all2 (same_outside masked) rows rows' \<Longrightarrow> redactRows rows masked = redactRows rows' masked"
  by (auto simp: redactRows_eq list_all2_conv_all_nth redactRow_hides intro: nth_equalityI)

text \<open>
  C5. A masked value does not leak: two results that differ only in the non-null values of masked
  columns are redacted to the same rows, so nothing of those values can be told from what is sent;
  and redacting again changes nothing.
\<close>

theorem redactRows_hides:
  assumes "list_all2 (same_outside masked) rows rows'"
  shows "redactRows rows masked = redactRows rows' masked
    \<and> redactRows (redactRows rows masked) masked = redactRows rows masked"
proof
  show "redactRows rows masked = redactRows rows' masked" by (rule redactRows_same [OF assms])
  have again: "redactRow masked (redactRow masked r) = redactRow masked r" if "distinct (map fst r)" for r
    by (rule row_eqI) (use that in \<open>simp_all add: get_redactRow\<close>)
  have "distinct (map fst r)" if "r \<in> set rows" for r
    using assms that unfolding list_all2_conv_all_nth same_outside_def by (metis in_set_conv_nth)
  with again show "redactRows (redactRows rows masked) masked = redactRows rows masked"
    unfolding redactRows_eq map_map by (intro map_cong) simp_all
qed

theorem redactRows_hides_witness:
  "redactRows [[(''id'', JNum 1), (''email'', JStr ''a@b'')]] [''email'']
     = redactRows [[(''id'', JNum 1), (''email'', JNum 42)]] [''email'']"
  using redactRows_hides [of "[''email'']" "[[(''id'', JNum 1), (''email'', JStr ''a@b'')]]"
    "[[(''id'', JNum 1), (''email'', JNum 42)]]"]
  by (simp add: same_outside_def nullish_def)

end
