(* ===== verification/Preferences.thy ===== *)
theory Preferences
  imports Json Masking
begin

text \<open>
  The preferences of a user: \<open>preference/preference-validation.ts\<close>, \<open>preference.service.ts\<close>, the decorators of
  \<open>dto/update-preference.dto.ts\<close> and the allow-lists of \<open>shared-types/user.ts\<close>. The body of a request, the row of the
  database and the answer are JavaScript objects, so lists of properties; the table of rows is a map from user ids.
  An own \<open>toString\<close> of a rejected value is not looked up when it is quoted in the error.
\<close>

subsection \<open>Allow-lists\<close>

definition COLOR_MODES :: "string list" where
  "COLOR_MODES = [''light'', ''dark'', ''system'']"

definition FONT_SIZES :: "string list" where
  "FONT_SIZES = [''xs'', ''sm'', ''md'', ''lg'', ''xl'']"

definition GRID_DENSITIES :: "string list" where
  "GRID_DENSITIES = [''tight'', ''compact'', ''normal'', ''comfortable'', ''spacious'']"

definition PALETTE_TOKEN_KEYS :: "string list" where
  "PALETTE_TOKEN_KEYS = [''accent'', ''bg'', ''surface'', ''text'', ''border'']"

definition FONT_FAMILIES :: "string list" where
  "FONT_FAMILIES = [''system'', ''inter'', ''serif'']"

definition MONO_FONT_FAMILIES :: "string list" where
  "MONO_FONT_FAMILIES = [''jetbrains-mono'', ''system-mono'', ''fira-code'']"

definition RADIUS_SCALES :: "string list" where
  "RADIUS_SCALES = [''square'', ''compact'', ''normal'', ''roomy'', ''round'']"

definition DATA_COLOR_KEYS :: "string list" where
  "DATA_COLOR_KEYS = [''number'', ''string'', ''decimal'', ''boolean'', ''temporal'', ''null'']"

definition EDITOR_FONT_SIZES :: "js_val list" where
  "EDITOR_FONT_SIZES = map JStr [''xs'', ''sm'', ''md'', ''lg'', ''xl'']"

definition TAB_SIZES :: "js_val list" where
  "TAB_SIZES = map JNum [2, 4, 8]"

definition LINE_NUMBER_MODES :: "js_val list" where
  "LINE_NUMBER_MODES = map JStr [''on'', ''off'', ''relative'']"

definition NULL_DISPLAYS :: "js_val list" where
  "NULL_DISPLAYS = map JStr [''null'', ''parens'', ''blank'', ''upper'', ''symbol'']"

definition BOOLEAN_DISPLAYS :: "js_val list" where
  "BOOLEAN_DISPLAYS = map JStr [''truefalse'', ''check'', ''onezero'', ''yesno'', ''onoff'']"

definition PAGE_SIZES :: "js_val list" where
  "PAGE_SIZES = map JNum [50, 100, 200, 500]"

definition DATE_FORMATS :: "js_val list" where
  "DATE_FORMATS = map JStr [''iso'', ''friendly'', ''relative'']"

definition COLUMN_RENDER_MODES :: "string list" where
  "COLUMN_RENDER_MODES = [''date'', ''boolean'', ''json'']"

definition MAX_PALETTES :: nat where "MAX_PALETTES = 12"
definition MAX_PALETTE_NAME_LENGTH :: nat where "MAX_PALETTE_NAME_LENGTH = 40"
definition MAX_MASKED_TABLES :: nat where "MAX_MASKED_TABLES = 500"
definition MAX_MASKED_COLUMNS_PER_TABLE :: nat where "MAX_MASKED_COLUMNS_PER_TABLE = 100"

text \<open>The ids and default chords of \<open>KEYBINDING_ACTIONS\<close>.\<close>

definition KEYBINDING_ACTIONS :: "(string \<times> string) list" where
  "KEYBINDING_ACTIONS =
     [(''command-palette'', ''mod+k''), (''run-statement'', ''mod+enter''), (''run-all'', ''mod+shift+enter''),
      (''format-sql'', ''shift+alt+f''), (''new-query-tab'', ''alt+t''), (''close-tab'', ''alt+w''),
      (''show-shortcuts'', ''shift+alt+h''), (''find-in-grid'', ''mod+f''), (''copy-cells'', ''mod+c''),
      (''save-edits'', ''mod+s''), (''next-tab'', ''alt+pagedown''), (''prev-tab'', ''alt+pageup''),
      (''focus-editor'', ''alt+1''), (''focus-results'', ''alt+2''), (''toggle-left-sidebar'', ''alt+b''),
      (''toggle-ai-sidebar'', ''alt+j''), (''toggle-focus-mode'', ''alt+enter''), (''refresh-view'', ''alt+r'')]"

definition ACTION_IDS :: "string list" where
  "ACTION_IDS = map fst KEYBINDING_ACTIONS"

definition hex_class :: rx where
  "hex_class = Cls (\<lambda>c. digit_char c \<or> (let n = of_char (ascii_lower c) :: nat in 97 \<le> n \<and> n \<le> 102))"

definition HEX_COLOR_PATTERN :: rx where
  "HEX_COLOR_PATTERN = Seq (Lit CHR ''#'') (Alt (Seqs (replicate 3 hex_class)) (Seqs (replicate 6 hex_class)))"

definition modifier_rx :: rx where
  "modifier_rx = Alts [Word ''mod'', Word ''ctrl'', Word ''cmd'', Word ''shift'', Word ''alt'']"

definition CHORD_PATTERN :: rx where
  "CHORD_PATTERN =
     Seqs [modifier_rx, Star (Seq (Lit CHR ''+'') modifier_rx), Lit CHR ''+'', Plus (Cls (\<lambda>c. lower_char c \<or> digit_char c))]"

subsection \<open>Validation\<close>

abbreviation bad :: "string \<Rightarrow> 'a res" where
  "bad message \<equiv> Inl (BadRequest message)"

fun isPlainObject :: "js_val \<Rightarrow> row option" where
  "isPlainObject (JObj fs) = Some fs"
| "isPlainObject v = None"

definition plain_object :: "string \<Rightarrow> js_val \<Rightarrow> row res" where
  "plain_object message v = (case isPlainObject v of None \<Rightarrow> bad message | Some fs \<Rightarrow> Inr fs)"

text \<open>\<open>typeof v !== 'string' || !test(v)\<close> throws.\<close>

definition string_that :: "(string \<Rightarrow> bool) \<Rightarrow> js_val \<Rightarrow> bool" where
  "string_that test v = (case v of JStr s \<Rightarrow> test s | _ \<Rightarrow> False)"

definition validateKeybindings :: "js_val \<Rightarrow> js_val res" where
  "validateKeybindings value =
     res_bind (plain_object ''keybindings must be an object'' value) (\<lambda>entries.
     res_map (\<lambda>_. value) (traverse (\<lambda>(actionId, chord).
       res_bind (require (actionId \<in> set ACTION_IDS) (BadRequest (''Unknown keybinding action: '' @ actionId))) (\<lambda>_.
       require (string_that (rx_match CHORD_PATTERN) chord)
         (BadRequest (''Invalid chord for '' @ actionId @ '': '' @ js_to_string chord)))) entries))"

definition validate_hex :: "string \<Rightarrow> js_val \<Rightarrow> unit res" where
  "validate_hex key hex =
     require (string_that (rx_match HEX_COLOR_PATTERN) hex) (BadRequest (''Invalid color for '' @ key @ '': '' @ js_to_string hex))"

definition validate_palette :: "js_val \<Rightarrow> js_val res" where
  "validate_palette palette =
     res_bind (plain_object ''Each palette must be an object'' palette) (\<lambda>fields.
     let name = get_prop fields ''name''; colors = get_prop fields ''colors'' in
     res_bind (require (string_that (\<lambda>s. js_trim s \<noteq> []) name) (BadRequest ''Palette name is required'')) (\<lambda>_.
     res_bind (require (string_that (\<lambda>s. length s \<le> MAX_PALETTE_NAME_LENGTH) name)
       (BadRequest (''Palette name must be '' @ show_nat MAX_PALETTE_NAME_LENGTH @ '' characters or fewer''))) (\<lambda>_.
     res_bind (plain_object ''Palette colors must be an object'' colors) (\<lambda>entries.
     res_map (\<lambda>_. JObj [(''name'', name), (''colors'', colors)]) (traverse (\<lambda>(key, hex).
       res_bind (require (key \<in> set PALETTE_TOKEN_KEYS) (BadRequest (''Unknown palette color key: '' @ key))) (\<lambda>_.
       validate_hex key hex)) entries)))))"

definition validateCustomPalettes :: "js_val \<Rightarrow> js_val res" where
  "validateCustomPalettes value =
     (case value of
        JArr palettes \<Rightarrow>
          res_bind (require (length palettes \<le> MAX_PALETTES)
            (BadRequest (''At most '' @ show_nat MAX_PALETTES @ '' custom palettes are allowed''))) (\<lambda>_.
          res_map JArr (traverse validate_palette palettes))
      | _ \<Rightarrow> bad ''customPalettes must be an array'')"

definition validateColumnRenderOverrides :: "js_val \<Rightarrow> js_val res" where
  "validateColumnRenderOverrides value =
     res_bind (plain_object ''columnRenderOverrides must be an object'' value) (\<lambda>connections.
     res_map (\<lambda>_. value) (traverse (\<lambda>(_, tables).
       res_bind (plain_object ''Each connection render-override entry must be an object'' tables) (traverse (\<lambda>(_, columns).
         res_bind (plain_object ''Each table render-override entry must be an object'' columns) (traverse (\<lambda>(_, mode).
           require (string_that (\<lambda>m. m \<in> set COLUMN_RENDER_MODES) mode)
             (BadRequest (''Invalid column render mode: '' @ js_to_string mode)))))))
       connections))"

text \<open>\<open>out[key] = value\<close> by assignment: on \<open>__proto__\<close> it sets the prototype, and the object has no such property.\<close>

definition js_assign :: "string \<Rightarrow> 'v \<Rightarrow> (string \<times> 'v) list \<Rightarrow> (string \<times> 'v) list" where
  "js_assign k v out = (if k = ''__proto__'' then out else js_put k v out)"

definition masked_names :: "string \<Rightarrow> js_val \<Rightarrow> string list res" where
  "masked_names table columns =
     (case columns of
        JArr vs \<Rightarrow>
          res_bind (require (length vs \<le> MAX_MASKED_COLUMNS_PER_TABLE)
            (BadRequest (''Too many masked columns on '' @ table @ '' (max '' @ show_nat MAX_MASKED_COLUMNS_PER_TABLE @ '')''))) (\<lambda>_.
          res_map js_set (traverse (\<lambda>column.
            case column of
              JStr c \<Rightarrow> if js_trim c = [] then bad (''Invalid masked column name on '' @ table @ '': '' @ c) else Inr c
            | _ \<Rightarrow> bad (''Invalid masked column name on '' @ table @ '': '' @ js_to_string column)) vs))
      | _ \<Rightarrow> bad (''Masked columns for '' @ table @ '' must be an array''))"

definition keep_table :: "string \<times> string list \<Rightarrow> row \<Rightarrow> row" where
  "keep_table t out = (if snd t \<noteq> [] then js_assign (fst t) (JArr (map JStr (snd t))) out else out)"

definition masked_tables :: "js_val \<Rightarrow> row res" where
  "masked_tables tables =
     res_bind (plain_object ''Each connection masking entry must be an object'' tables) (\<lambda>entries.
     res_bind (require (length entries \<le> MAX_MASKED_TABLES)
       (BadRequest (''Too many masked tables (max '' @ show_nat MAX_MASKED_TABLES @ '')''))) (\<lambda>_.
     res_map (\<lambda>ts. fold keep_table ts []) (traverse (\<lambda>(table, columns).
       res_map (\<lambda>names. (table, names)) (masked_names table columns)) entries)))"

definition keep_connection :: "string \<times> row \<Rightarrow> row \<Rightarrow> row" where
  "keep_connection c out = (if snd c \<noteq> [] then js_assign (fst c) (JObj (snd c)) out else out)"

definition validateMaskedColumns :: "js_val \<Rightarrow> js_val res" where
  "validateMaskedColumns value =
     res_bind (plain_object ''maskedColumns must be an object'' value) (\<lambda>entries.
     res_map (\<lambda>cs. JObj (fold keep_connection cs [])) (traverse (\<lambda>(connectionId, tables).
       res_map (\<lambda>out. (connectionId, out)) (masked_tables tables)) entries))"

definition validateDataColors :: "js_val \<Rightarrow> js_val res" where
  "validateDataColors value =
     res_bind (plain_object ''dataColors must be an object'' value) (\<lambda>entries.
     res_map (\<lambda>_. value) (traverse (\<lambda>(key, hex).
       res_bind (require (key \<in> set DATA_COLOR_KEYS) (BadRequest (''Unknown data color key: '' @ key))) (\<lambda>_.
       validate_hex key hex)) entries))"

fun is_bool :: "js_val \<Rightarrow> bool" where
  "is_bool (JBool b) = True"
| "is_bool v = False"

definition optBool :: "row \<Rightarrow> string \<Rightarrow> unit res" where
  "optBool obj key =
     require (get_prop obj key = JUndef \<or> is_bool (get_prop obj key)) (BadRequest (key @ '' must be a boolean''))"

definition optEnum :: "row \<Rightarrow> string \<Rightarrow> js_val list \<Rightarrow> unit res" where
  "optEnum obj key allowed =
     require (get_prop obj key = JUndef \<or> get_prop obj key \<in> set allowed)
       (BadRequest (''Invalid '' @ key @ '': '' @ js_to_string (get_prop obj key)))"

definition optString :: "row \<Rightarrow> string \<Rightarrow> unit res" where
  "optString obj key =
     require (get_prop obj key = JUndef \<or> string_that (\<lambda>_. True) (get_prop obj key)) (BadRequest (key @ '' must be a string''))"

definition all_checks :: "unit res list \<Rightarrow> unit res" where
  "all_checks cs = res_map (\<lambda>_. ()) (traverse (\<lambda>c. c) cs)"

definition validateEditorPrefs :: "js_val \<Rightarrow> js_val res" where
  "validateEditorPrefs value =
     res_bind (plain_object ''editor must be an object'' value) (\<lambda>obj.
     res_map (\<lambda>_. value) (all_checks
       [optEnum obj ''fontSize'' EDITOR_FONT_SIZES, optEnum obj ''tabSize'' TAB_SIZES, optBool obj ''insertSpaces'',
        optBool obj ''wordWrap'', optBool obj ''minimap'', optEnum obj ''lineNumbers'' LINE_NUMBER_MODES,
        optBool obj ''formatOnRun'']))"

definition validateGridPrefs :: "js_val \<Rightarrow> js_val res" where
  "validateGridPrefs value =
     res_bind (plain_object ''grid must be an object'' value) (\<lambda>obj.
     res_map (\<lambda>_. value) (all_checks
       [optEnum obj ''nullDisplay'' NULL_DISPLAYS, optEnum obj ''booleanDisplay'' BOOLEAN_DISPLAYS, optBool obj ''rowNumbers'',
        optEnum obj ''pageSize'' PAGE_SIZES, optEnum obj ''dateFormat'' DATE_FORMATS, optString obj ''timeZone'']))"

definition validateBehaviorPrefs :: "js_val \<Rightarrow> js_val res" where
  "validateBehaviorPrefs value =
     res_bind (plain_object ''behavior must be an object'' value) (\<lambda>obj.
     res_map (\<lambda>_. value) (all_checks
       [optBool obj ''transactionByDefault'', optBool obj ''confirmWrites'', optBool obj ''restoreTabs'',
        optString obj ''startupConnection'']))"

definition validateConnectionOverrides :: "js_val \<Rightarrow> js_val res" where
  "validateConnectionOverrides value =
     res_bind (plain_object ''connectionOverrides must be an object'' value) (\<lambda>entries.
     res_map (\<lambda>_. value) (traverse (\<lambda>(_, override).
       res_bind (plain_object ''Each connection override must be an object'' override) (\<lambda>obj.
       let accentColor = get_prop obj ''accentColor''; colorMode = get_prop obj ''colorMode'' in
       res_bind (require (accentColor = JUndef \<or> string_that (rx_match HEX_COLOR_PATTERN) accentColor)
         (BadRequest (''Invalid override accentColor: '' @ js_to_string accentColor))) (\<lambda>_.
       require (colorMode = JUndef \<or> colorMode \<in> set (map JStr COLOR_MODES))
         (BadRequest (''Invalid override colorMode: '' @ js_to_string colorMode))))) entries))"

subsection \<open>The request\<close>

definition one_of :: "string list \<Rightarrow> js_val \<Rightarrow> bool" where
  "one_of xs v = string_that (\<lambda>s. s \<in> set xs) v"

definition is_object :: "js_val \<Rightarrow> bool" where
  "is_object v \<longleftrightarrow> isPlainObject v \<noteq> None"

fun is_array :: "js_val \<Rightarrow> bool" where
  "is_array (JArr vs) = True"
| "is_array v = False"

text \<open>The decorators of the DTO's properties under \<open>IsOptional\<close>, which lets \<open>null\<close> and \<open>undefined\<close> through.\<close>

definition dto_decorators :: "(string \<times> (js_val \<Rightarrow> bool)) list" where
  "dto_decorators =
     [(''colorMode'', one_of COLOR_MODES),
      (''accentColor'', string_that (rx_match (Seq (Lit CHR ''#'') (Seqs (replicate 6 hex_class))))),
      (''fontSize'', one_of FONT_SIZES), (''gridDensity'', one_of GRID_DENSITIES),
      (''keybindings'', is_object), (''customPalettes'', is_array), (''connectionOverrides'', is_object),
      (''columnRenderOverrides'', is_object), (''maskedColumns'', is_object), (''fontFamily'', one_of FONT_FAMILIES),
      (''monoFontFamily'', one_of MONO_FONT_FAMILIES), (''radiusScale'', one_of RADIUS_SCALES), (''dataColors'', is_object),
      (''editor'', is_object), (''grid'', is_object), (''behavior'', is_object), (''reduceMotion'', is_bool),
      (''hideFocusRing'', is_bool), (''aiEnabled'', is_bool)]"

definition dto_accepted :: "row \<Rightarrow> bool" where
  "dto_accepted dto \<longleftrightarrow> list_all (\<lambda>(key, check). nullish (get_prop dto key) \<or> check (get_prop dto key)) dto_decorators"

subsection \<open>The service\<close>

definition DEFAULTS :: row where
  "DEFAULTS =
     [(''colorMode'', JStr ''system''), (''accentColor'', JStr ''#498fff''), (''fontSize'', JStr ''md''),
      (''gridDensity'', JStr ''normal''), (''keybindings'', JObj []), (''customPalettes'', JArr []),
      (''connectionOverrides'', JObj []), (''columnRenderOverrides'', JObj []), (''maskedColumns'', JObj []),
      (''radiusScale'', JStr ''normal''), (''dataColors'', JObj []), (''editor'', JObj []), (''grid'', JObj []),
      (''behavior'', JObj []), (''reduceMotion'', JBool False), (''hideFocusRing'', JBool True), (''aiEnabled'', JBool True)]"

definition stringified :: "(js_val \<Rightarrow> js_val res) \<Rightarrow> js_val \<Rightarrow> js_val res" where
  "stringified validate v = res_bind (validate v) (\<lambda>w. res_map JStr (json_stringify w))"

text \<open>The statements of \<open>toRowData\<close>, in order: a property of the DTO and what is stored of it.\<close>

definition row_fields :: "(string \<times> (js_val \<Rightarrow> js_val res)) list" where
  "row_fields =
     [(''colorMode'', Inr), (''accentColor'', Inr), (''fontSize'', Inr), (''gridDensity'', Inr),
      (''keybindings'', stringified validateKeybindings), (''customPalettes'', stringified validateCustomPalettes),
      (''connectionOverrides'', stringified validateConnectionOverrides),
      (''columnRenderOverrides'', stringified validateColumnRenderOverrides),
      (''maskedColumns'', stringified validateMaskedColumns), (''fontFamily'', Inr), (''monoFontFamily'', Inr),
      (''radiusScale'', Inr), (''dataColors'', stringified validateDataColors), (''editor'', stringified validateEditorPrefs),
      (''grid'', stringified validateGridPrefs), (''behavior'', stringified validateBehaviorPrefs), (''reduceMotion'', Inr),
      (''hideFocusRing'', Inr), (''aiEnabled'', Inr)]"

definition toRowData :: "row \<Rightarrow> row res" where
  "toRowData dto =
     traverse (\<lambda>(key, store). res_map (\<lambda>v. (key, v)) (store (get_prop dto key)))
       (filter (\<lambda>(key, _). get_prop dto key \<noteq> JUndef) row_fields)"

definition parseJson :: "js_val \<Rightarrow> js_val \<Rightarrow> js_val" where
  "parseJson raw fallback = (case json_parse (js_to_string raw) of Some v \<Rightarrow> v | None \<Rightarrow> fallback)"

definition json_columns :: "(string \<times> js_val) list" where
  "json_columns =
     [(''keybindings'', JObj []), (''customPalettes'', JArr []), (''connectionOverrides'', JObj []),
      (''columnRenderOverrides'', JObj []), (''maskedColumns'', JObj []), (''dataColors'', JObj []), (''editor'', JObj []),
      (''grid'', JObj []), (''behavior'', JObj [])]"

definition read_column :: "string \<Rightarrow> js_val \<Rightarrow> js_val" where
  "read_column key stored =
     (case map_of json_columns key of
        Some fallback \<Rightarrow> parseJson stored fallback
      | None \<Rightarrow> if key \<in> {''fontFamily'', ''monoFontFamily''} \<and> nullish stored then JUndef else stored)"

definition toUserPreferenceDto :: "row \<Rightarrow> row" where
  "toUserPreferenceDto r = map (\<lambda>(key, _). (key, read_column key (get_prop r key))) row_fields"

type_synonym pref_table = "string \<Rightarrow> row option"

definition get_preferences :: "pref_table \<Rightarrow> string \<Rightarrow> row" where
  "get_preferences db userId = (case db userId of Some r \<Rightarrow> toUserPreferenceDto r | None \<Rightarrow> DEFAULTS)"

text \<open>The columns of \<open>schema.prisma\<close>'s \<open>UserPreference\<close> with their defaults; the two fonts may be null.\<close>

definition schema_defaults :: row where
  "schema_defaults =
     [(''colorMode'', JStr ''system''), (''accentColor'', JStr ''#498fff''), (''fontSize'', JStr ''md''),
      (''gridDensity'', JStr ''normal''), (''fontFamily'', JNull), (''monoFontFamily'', JNull),
      (''radiusScale'', JStr ''normal''), (''reduceMotion'', JBool False), (''hideFocusRing'', JBool False),
      (''aiEnabled'', JBool True), (''keybindings'', JStr ''{}''), (''customPalettes'', JStr ''[]''),
      (''connectionOverrides'', JStr ''{}''), (''columnRenderOverrides'', JStr ''{}''), (''maskedColumns'', JStr ''{}''),
      (''dataColors'', JStr ''{}''), (''editor'', JStr ''{}''), (''grid'', JStr ''{}''), (''behavior'', JStr ''{}'')]"

definition write_columns :: "row \<Rightarrow> row \<Rightarrow> row" where
  "write_columns data r = fold (\<lambda>f r. put_prop (fst f) (snd f) r) data r"

text \<open>\<open>upsert\<close>: a null for a column that is not nullable is refused, before anything is written.\<close>

definition upsert_preference :: "string \<Rightarrow> row \<Rightarrow> row \<Rightarrow> pref_table \<Rightarrow> row res \<times> pref_table" where
  "upsert_preference userId create update db =
     (let (data, r) = (case db userId of Some r \<Rightarrow> (update, r) | None \<Rightarrow> (create, schema_defaults)) in
      if list_ex (\<lambda>f. snd f = JNull \<and> fst f \<notin> {''fontFamily'', ''monoFontFamily''}) data
      then (Inl (PlainError ''Argument must not be null''), db)
      else (let r' = write_columns data r in (Inr r', db(userId \<mapsto> r'))))"

definition nullish_or :: "js_val \<Rightarrow> js_val \<Rightarrow> js_val" where
  "nullish_or v d = (if nullish v then d else v)"

text \<open>The row \<open>create\<close> writes: six columns are always set, then the spread of \<open>data\<close> (a later entry wins).\<close>

definition always_written :: "string list" where
  "always_written = [''colorMode'', ''accentColor'', ''fontSize'', ''gridDensity'', ''radiusScale'', ''hideFocusRing'']"

definition create_columns :: "row \<Rightarrow> row \<Rightarrow> row" where
  "create_columns dto data =
     filter (\<lambda>f. \<not> has_prop data (fst f))
       (map (\<lambda>key. (key, nullish_or (get_prop dto key) (get_prop DEFAULTS key))) always_written)
     @ data"

definition update_preferences :: "string \<Rightarrow> row \<Rightarrow> pref_table \<Rightarrow> row res \<times> pref_table" where
  "update_preferences userId dto db =
     (case toRowData dto of
        Inl e \<Rightarrow> (Inl e, db)
      | Inr data \<Rightarrow>
          (case upsert_preference userId (create_columns dto data) data db of
             (Inl e, db') \<Rightarrow> (Inl e, db')
           | (Inr r, db') \<Rightarrow> (Inr (toUserPreferenceDto r), db')))"

subsection \<open>What a preference may be\<close>

definition keybindings_shape :: "js_val \<Rightarrow> bool" where
  "keybindings_shape v \<longleftrightarrow>
     (\<exists>fs. v = JObj fs \<and> (\<forall>(actionId, chord) \<in> set fs. actionId \<in> set ACTION_IDS \<and> (\<exists>t. chord = JStr t \<and> in_lang CHORD_PATTERN t)))"

definition colors_shape :: "string list \<Rightarrow> js_val \<Rightarrow> bool" where
  "colors_shape keys v \<longleftrightarrow>
     (\<exists>fs. v = JObj fs \<and> (\<forall>(key, hex) \<in> set fs. key \<in> set keys \<and> (\<exists>t. hex = JStr t \<and> in_lang HEX_COLOR_PATTERN t)))"

definition palette_shape :: "js_val \<Rightarrow> bool" where
  "palette_shape p \<longleftrightarrow>
     (\<exists>name colors. p = JObj [(''name'', JStr name), (''colors'', colors)] \<and> js_trim name \<noteq> []
        \<and> length name \<le> 40 \<and> colors_shape PALETTE_TOKEN_KEYS colors)"

definition palettes_shape :: "js_val \<Rightarrow> bool" where
  "palettes_shape v \<longleftrightarrow> (\<exists>ps. v = JArr ps \<and> length ps \<le> 12 \<and> list_all palette_shape ps)"

definition entries_of :: "(js_val \<Rightarrow> bool) \<Rightarrow> js_val \<Rightarrow> bool" where
  "entries_of P v \<longleftrightarrow> (\<exists>fs. v = JObj fs \<and> list_all (\<lambda>f. P (snd f)) fs)"

definition render_shape :: "js_val \<Rightarrow> bool" where
  "render_shape v \<longleftrightarrow> entries_of (entries_of (entries_of (one_of COLUMN_RENDER_MODES))) v"

text \<open>The value a map of masked columns is sent as.\<close>

definition columns_value :: "string list \<Rightarrow> js_val" where
  "columns_value cs = JArr (map JStr cs)"

definition tables_value :: "(string \<times> string list) list \<Rightarrow> js_val" where
  "tables_value ts = JObj (map (\<lambda>t. (fst t, columns_value (snd t))) ts)"

definition masked_value :: "masked_columns \<Rightarrow> js_val" where
  "masked_value m = JObj (map (\<lambda>c. (fst c, tables_value (snd c))) m)"

definition masked_columns_ok :: "masked_columns \<Rightarrow> bool" where
  "masked_columns_ok m \<longleftrightarrow>
     enumerated m \<and>
     (\<forall>(c, ts) \<in> set m. ts \<noteq> [] \<and> enumerated ts \<and> length ts \<le> 500 \<and>
        (\<forall>(t, cs) \<in> set ts. cs \<noteq> [] \<and> distinct cs \<and> length cs \<le> 100 \<and> (\<forall>x \<in> set cs. js_trim x \<noteq> [])))"

definition masks_shape :: "js_val \<Rightarrow> bool" where
  "masks_shape v \<longleftrightarrow> (\<exists>m. v = masked_value m \<and> masked_columns_ok m)"

definition optional :: "row \<Rightarrow> string \<Rightarrow> (js_val \<Rightarrow> bool) \<Rightarrow> bool" where
  "optional obj key P \<longleftrightarrow> get_prop obj key = JUndef \<or> P (get_prop obj key)"

definition editor_shape :: "js_val \<Rightarrow> bool" where
  "editor_shape v \<longleftrightarrow>
     (\<exists>obj. v = JObj obj \<and> optional obj ''fontSize'' (\<lambda>x. x \<in> set EDITOR_FONT_SIZES) \<and> optional obj ''tabSize'' (\<lambda>x. x \<in> set TAB_SIZES)
        \<and> optional obj ''insertSpaces'' is_bool \<and> optional obj ''wordWrap'' is_bool \<and> optional obj ''minimap'' is_bool
        \<and> optional obj ''lineNumbers'' (\<lambda>x. x \<in> set LINE_NUMBER_MODES) \<and> optional obj ''formatOnRun'' is_bool)"

definition grid_shape :: "js_val \<Rightarrow> bool" where
  "grid_shape v \<longleftrightarrow>
     (\<exists>obj. v = JObj obj \<and> optional obj ''nullDisplay'' (\<lambda>x. x \<in> set NULL_DISPLAYS)
        \<and> optional obj ''booleanDisplay'' (\<lambda>x. x \<in> set BOOLEAN_DISPLAYS) \<and> optional obj ''rowNumbers'' is_bool
        \<and> optional obj ''pageSize'' (\<lambda>x. x \<in> set PAGE_SIZES) \<and> optional obj ''dateFormat'' (\<lambda>x. x \<in> set DATE_FORMATS)
        \<and> optional obj ''timeZone'' (string_that (\<lambda>_. True)))"

definition behavior_shape :: "js_val \<Rightarrow> bool" where
  "behavior_shape v \<longleftrightarrow>
     (\<exists>obj. v = JObj obj \<and> optional obj ''transactionByDefault'' is_bool \<and> optional obj ''confirmWrites'' is_bool
        \<and> optional obj ''restoreTabs'' is_bool \<and> optional obj ''startupConnection'' (string_that (\<lambda>_. True)))"

definition override_shape :: "js_val \<Rightarrow> bool" where
  "override_shape v \<longleftrightarrow>
     (\<exists>obj. v = JObj obj \<and> optional obj ''accentColor'' (string_that (in_lang HEX_COLOR_PATTERN))
        \<and> optional obj ''colorMode'' (one_of COLOR_MODES))"

subsection \<open>The validators accept exactly these\<close>

lemma plain_object_Inr [res_simps]: "plain_object m v = Inr fs \<longleftrightarrow> v = JObj fs"
  by (cases v) (auto simp: plain_object_def)

lemma string_that_iff: "string_that P v \<longleftrightarrow> (\<exists>s. v = JStr s \<and> P s)"
  by (cases v) (auto simp: string_that_def)

lemma traverse_defined: "(\<exists>ys. traverse f xs = Inr ys) \<longleftrightarrow> (\<forall>x \<in> set xs. \<exists>y. f x = Inr y)"
proof (induction xs)
  case (Cons x xs)
  then show ?case by (cases "f x"; cases "traverse f xs") auto
qed simp

lemma checked_entries: "res_map (\<lambda>_. v) (traverse f xs) = Inr w \<longleftrightarrow> w = v \<and> (\<forall>x \<in> set xs. \<exists>y. f x = Inr y)"
  using traverse_defined [of f xs] by (auto simp: res_map_Inr_iff)

lemma nested_entries:
  "(\<exists>y. res_bind (plain_object m v) (traverse f) = Inr y) \<longleftrightarrow> (\<exists>fs. v = JObj fs \<and> (\<forall>x \<in> set fs. \<exists>y. f x = Inr y))"
  by (cases v) (simp_all add: plain_object_def traverse_defined)

lemma validate_hex_iff: "validate_hex key hex = Inr u \<longleftrightarrow> (\<exists>t. hex = JStr t \<and> in_lang HEX_COLOR_PATTERN t)"
  by (simp add: validate_hex_def require_Inr_iff string_that_iff rx_match_in_lang)

lemma validateKeybindings_iff: "validateKeybindings v = Inr w \<longleftrightarrow> w = v \<and> keybindings_shape v"
  by (auto simp: validateKeybindings_def keybindings_shape_def res_bind_Inr_iff plain_object_Inr checked_entries
      require_Inr_iff string_that_iff rx_match_in_lang split_beta)

lemma validateDataColors_iff: "validateDataColors v = Inr w \<longleftrightarrow> w = v \<and> colors_shape DATA_COLOR_KEYS v"
  by (auto simp: validateDataColors_def colors_shape_def res_bind_Inr_iff plain_object_Inr checked_entries
      require_Inr_iff validate_hex_iff split_beta)

lemma validate_palette_shape: "validate_palette p = Inr w \<Longrightarrow> palette_shape w"
  by (auto simp: validate_palette_def palette_shape_def colors_shape_def Let_def res_bind_Inr_iff
      plain_object_Inr checked_entries require_Inr_iff string_that_iff validate_hex_iff split_beta MAX_PALETTE_NAME_LENGTH_def)

lemma validate_palette_again: "palette_shape p \<Longrightarrow> validate_palette p = Inr p"
  by (auto simp: validate_palette_def palette_shape_def colors_shape_def Let_def res_bind_Inr_iff
      plain_object_Inr checked_entries require_Inr_iff string_that_iff validate_hex_iff split_beta MAX_PALETTE_NAME_LENGTH_def)

lemma validateCustomPalettes_shape:
  assumes "validateCustomPalettes v = Inr w"
  shows "palettes_shape w"
proof -
  obtain ps qs where "v = JArr ps" "length ps \<le> 12" "traverse validate_palette ps = Inr qs" and w: "w = JArr qs"
    using assms by (auto simp: validateCustomPalettes_def MAX_PALETTES_def res_bind_Inr_iff res_map_Inr_iff require_Inr_iff
        split: js_val.splits)
  then have "list_all2 (\<lambda>p q. validate_palette p = Inr q) ps qs" "length qs \<le> 12"
    using traverse_length [of validate_palette ps qs] by (simp_all add: traverse_Inr_iff)
  then show ?thesis
    using validate_palette_shape by (auto simp: palettes_shape_def w list_all_length list_all2_conv_all_nth)
qed

lemma plain_object_JObj [simp]: "plain_object m (JObj fs) = Inr fs"
  by (simp add: plain_object_def)

lemma validateColumnRenderOverrides_iff: "validateColumnRenderOverrides v = Inr w \<longleftrightarrow> w = v \<and> render_shape v"
proof (cases "\<exists>fs. v = JObj fs")
  case True
  then obtain fs where v: "v = JObj fs" by blast
  show ?thesis
    by (simp add: v validateColumnRenderOverrides_def render_shape_def one_of_def entries_of_def list_all_iff split_beta
        checked_entries nested_entries require_Inr_iff)
next
  case False
  then show ?thesis
    by (auto simp: validateColumnRenderOverrides_def render_shape_def entries_of_def res_bind_Inr_iff plain_object_Inr)
qed

lemma all_checks_Inr: "all_checks cs = Inr u \<longleftrightarrow> list_all (\<lambda>c. c = Inr ()) cs"
  by (auto simp: all_checks_def checked_entries list_all_iff)

lemma optional_checks [simp]:
  "optEnum obj key allowed = Inr u \<longleftrightarrow> optional obj key (\<lambda>x. x \<in> set allowed)"
  "optBool obj key = Inr u \<longleftrightarrow> optional obj key is_bool"
  "optString obj key = Inr u \<longleftrightarrow> optional obj key (string_that (\<lambda>_. True))"
  by (simp_all add: optEnum_def optBool_def optString_def optional_def require_Inr_iff)

lemma validateEditorPrefs_iff: "validateEditorPrefs v = Inr w \<longleftrightarrow> w = v \<and> editor_shape v"
  by (auto simp: validateEditorPrefs_def editor_shape_def res_bind_Inr_iff res_map_Inr_iff plain_object_Inr all_checks_Inr)

lemma validateGridPrefs_iff: "validateGridPrefs v = Inr w \<longleftrightarrow> w = v \<and> grid_shape v"
  by (auto simp: validateGridPrefs_def grid_shape_def res_bind_Inr_iff res_map_Inr_iff plain_object_Inr all_checks_Inr)

lemma validateBehaviorPrefs_iff: "validateBehaviorPrefs v = Inr w \<longleftrightarrow> w = v \<and> behavior_shape v"
  by (auto simp: validateBehaviorPrefs_def behavior_shape_def res_bind_Inr_iff res_map_Inr_iff plain_object_Inr all_checks_Inr)

lemma one_of_iff: "one_of xs v \<longleftrightarrow> v \<in> set (map JStr xs)"
  by (auto simp: one_of_def string_that_iff)

lemma validateConnectionOverrides_iff: "validateConnectionOverrides v = Inr w \<longleftrightarrow> w = v \<and> entries_of override_shape v"
  by (auto simp: validateConnectionOverrides_def override_shape_def entries_of_def list_all_iff split_beta Let_def optional_def
      res_bind_Inr_iff plain_object_Inr checked_entries require_Inr_iff one_of_iff string_that_iff rx_match_in_lang)

subsection \<open>Masked columns\<close>

text \<open>The map in Masking's form, as the grid reads it.\<close>

definition strings_of :: "js_val \<Rightarrow> string list" where
  "strings_of v = (case v of JArr vs \<Rightarrow> map js_to_string vs | _ \<Rightarrow> [])"

definition tables_of :: "js_val \<Rightarrow> (string \<times> string list) list" where
  "tables_of v = (case v of JObj fs \<Rightarrow> map (\<lambda>f. (fst f, strings_of (snd f))) fs | _ \<Rightarrow> [])"

definition masked_of :: "js_val \<Rightarrow> masked_columns" where
  "masked_of v = (case v of JObj fs \<Rightarrow> map (\<lambda>f. (fst f, tables_of (snd f))) fs | _ \<Rightarrow> [])"

text \<open>What the validator makes of a map: names once, no empty table, no empty connection.\<close>

definition kept_tables :: "(string \<times> string list) list \<Rightarrow> (string \<times> string list) list" where
  "kept_tables ts = map (\<lambda>t. (fst t, js_set (snd t))) (filter (\<lambda>t. snd t \<noteq> [] \<and> fst t \<noteq> ''__proto__'') ts)"

definition kept_masks :: "masked_columns \<Rightarrow> masked_columns" where
  "kept_masks m = map (\<lambda>c. (fst c, kept_tables (snd c))) (filter (\<lambda>c. kept_tables (snd c) \<noteq> [] \<and> fst c \<noteq> ''__proto__'') m)"

definition within_caps :: "masked_columns \<Rightarrow> bool" where
  "within_caps m \<longleftrightarrow>
     (\<forall>c \<in> set m. length (snd c) \<le> 500 \<and> (\<forall>t \<in> set (snd c). length (snd t) \<le> 100 \<and> (\<forall>x \<in> set (snd t). js_trim x \<noteq> [])))"

lemma masked_of_value [simp]: "masked_of (masked_value m) = m"
proof -
  have "strings_of (columns_value cs) = cs" for cs by (simp add: strings_of_def columns_value_def comp_def)
  then have "tables_of (tables_value ts) = ts" for ts by (simp add: tables_of_def tables_value_def comp_def)
  then show ?thesis by (simp add: masked_of_def masked_value_def comp_def)
qed

lemma enumerated_map [simp]: "enumerated (map (\<lambda>f. (fst f, g f)) fs) = enumerated fs"
  by (simp add: enumerated_def sorted_wrt_map)

lemma enumerated_filter: "enumerated fs \<Longrightarrow> enumerated (filter P fs)"
  by (simp add: enumerated_def sorted_wrt_filter)

lemma fold_kept:
  "enumerated fs \<Longrightarrow>
   fold (\<lambda>f out. if P f then js_assign (fst f) (g f) out else out) fs []
     = map (\<lambda>f. (fst f, g f)) (filter (\<lambda>f. P f \<and> fst f \<noteq> ''__proto__'') fs)"
proof (induction fs rule: rev_induct)
  case (snoc f fs)
  then have e: "enumerated fs" and f: "\<forall>h \<in> set fs. fst h \<noteq> fst f \<and> \<not> prop_before (fst f) (fst h)"
    by (auto simp: enumerated_def sorted_wrt_append)
  let ?kept = "map (\<lambda>f. (fst f, g f)) (filter (\<lambda>f. P f \<and> fst f \<noteq> ''__proto__'') fs)"
  have "js_put (fst f) (g f) ?kept = ?kept @ [(fst f, g f)]"
    by (rule js_put_last) (use f in force)
  then show ?case using snoc.IH [OF e] by (simp add: js_assign_def)
qed simp

lemma length_js_set: "length (js_set xs) \<le> length xs"
  by (induction xs) (auto intro: order_trans [OF length_filter_le])

lemma js_set_Nil_iff [simp]: "js_set xs = [] \<longleftrightarrow> xs = []"
  by (cases xs) auto

lemma masked_names_iff:
  "masked_names t v = Inr ns \<longleftrightarrow>
     (\<exists>cs. v = columns_value cs \<and> ns = js_set cs \<and> length cs \<le> 100 \<and> (\<forall>x \<in> set cs. js_trim x \<noteq> []))"
proof -
  have "traverse (\<lambda>column. case column of JStr c \<Rightarrow> if js_trim c = [] then bad (e c) else Inr c | _ \<Rightarrow> bad (e' column)) vs = Inr cs
      \<longleftrightarrow> vs = map JStr cs \<and> (\<forall>x \<in> set cs. js_trim x \<noteq> [])" for vs cs e e'
    by (induction vs arbitrary: cs) (auto simp: res_bind_Inr_iff split: js_val.splits if_splits)
  then show ?thesis
    by (cases v) (auto simp: masked_names_def columns_value_def MAX_MASKED_COLUMNS_PER_TABLE_def res_bind_Inr_iff
        res_map_Inr_iff require_Inr_iff)
qed

lemma traverse_pairs:
  "traverse (\<lambda>(k, v). res_map (\<lambda>x. (k, x)) (f k v)) es = Inr ys \<longleftrightarrow>
     list_all2 (\<lambda>e y. fst y = fst e \<and> f (fst e) (snd e) = Inr (snd y)) es ys"
  by (auto simp: traverse_Inr_iff split_beta res_map_Inr_iff elim!: list_all2_mono)

lemma fold_keep_table:
  assumes "enumerated ts"
  shows "fold keep_table (map (\<lambda>t. (fst t, js_set (snd t))) ts) [] = map (\<lambda>t. (fst t, columns_value (snd t))) (kept_tables ts)"
  using fold_kept [OF assms, of "\<lambda>t. snd t \<noteq> []" "\<lambda>t. columns_value (js_set (snd t))"]
  by (simp add: keep_table_def [abs_def] fold_map comp_def columns_value_def kept_tables_def cong: if_cong)

lemma list_all2_images:
  "list_all2 (\<lambda>e y. \<exists>t. Q t \<and> e = f t \<and> y = g t) es ys \<longleftrightarrow>
     (\<exists>ts. es = map f ts \<and> ys = map g ts \<and> (\<forall>t \<in> set ts. Q t))"
proof
  show "\<exists>ts. es = map f ts \<and> ys = map g ts \<and> (\<forall>t \<in> set ts. Q t)"
    if "list_all2 (\<lambda>e y. \<exists>t. Q t \<and> e = f t \<and> y = g t) es ys"
    using that
  proof (induction rule: list_all2_induct)
    case (Cons e es y ys)
    then obtain t ts where "Q t" "e = f t" "y = g t" "es = map f ts" "ys = map g ts" "\<forall>t \<in> set ts. Q t" by blast
    then show ?case by (intro exI [of _ "t # ts"]) simp
  qed simp
next
  assume "\<exists>ts. es = map f ts \<and> ys = map g ts \<and> (\<forall>t \<in> set ts. Q t)"
  then show "list_all2 (\<lambda>e y. \<exists>t. Q t \<and> e = f t \<and> y = g t) es ys"
    by (auto simp: list_all2_map1 list_all2_map2 list_all2_same) blast
qed

lemma tables_read:
  "list_all2 (\<lambda>e y. fst y = fst e \<and> masked_names (fst e) (snd e) = Inr (snd y)) es ys \<longleftrightarrow>
     (\<exists>ts. es = map (\<lambda>t. (fst t, columns_value (snd t))) ts \<and> ys = map (\<lambda>t. (fst t, js_set (snd t))) ts \<and>
        (\<forall>t \<in> set ts. length (snd t) \<le> 100 \<and> (\<forall>x \<in> set (snd t). js_trim x \<noteq> [])))"
  unfolding list_all2_images [symmetric]
  by (rule arg_cong2 [where f = "\<lambda>R xs. list_all2 R xs ys"]) (auto simp: masked_names_iff fun_eq_iff)

lemma masked_tables_iff:
  assumes "json_data v"
  shows "masked_tables v = Inr out \<longleftrightarrow>
    (\<exists>ts. v = tables_value ts \<and> enumerated ts \<and> length ts \<le> 500 \<and>
       (\<forall>t \<in> set ts. length (snd t) \<le> 100 \<and> (\<forall>x \<in> set (snd t). js_trim x \<noteq> [])) \<and>
       JObj out = tables_value (kept_tables ts))"
    (is "?l \<longleftrightarrow> ?r")
proof -
  show ?thesis
  proof
    assume ?l
    then obtain es ys where es: "v = JObj es" "length es \<le> 500" "out = fold keep_table ys []"
      "list_all2 (\<lambda>e y. fst y = fst e \<and> masked_names (fst e) (snd e) = Inr (snd y)) es ys"
      by (auto simp: masked_tables_def res_bind_Inr_iff res_map_Inr_iff plain_object_Inr require_Inr_iff traverse_pairs
          MAX_MASKED_TABLES_def)
    then obtain ts where ts: "es = map (\<lambda>t. (fst t, columns_value (snd t))) ts" "ys = map (\<lambda>t. (fst t, js_set (snd t))) ts"
      "\<forall>t \<in> set ts. length (snd t) \<le> 100 \<and> (\<forall>x \<in> set (snd t). js_trim x \<noteq> [])"
      unfolding tables_read by blast
    have "enumerated ts" using assms es(1) ts(1) by simp
    then show ?r using es(1-3) ts fold_keep_table by (intro exI [of _ ts]) (simp add: tables_value_def)
  next
    assume ?r
    then obtain ts where ts: "v = tables_value ts" "enumerated ts" "length ts \<le> 500" "JObj out = tables_value (kept_tables ts)"
      "\<forall>t \<in> set ts. length (snd t) \<le> 100 \<and> (\<forall>x \<in> set (snd t). js_trim x \<noteq> [])" by blast
    then have "traverse (\<lambda>(table, columns). res_map (\<lambda>names. (table, names)) (masked_names table columns))
        (map (\<lambda>t. (fst t, columns_value (snd t))) ts) = Inr (map (\<lambda>t. (fst t, js_set (snd t))) ts)"
      unfolding traverse_pairs tables_read by blast
    then show ?l using ts(1,3,4) fold_keep_table [OF ts(2)]
      by (simp add: masked_tables_def tables_value_def MAX_MASKED_TABLES_def)
  qed
qed

lemma fold_keep_connection:
  assumes "enumerated m"
  shows "fold keep_connection (map (\<lambda>c. (fst c, map (\<lambda>t. (fst t, columns_value (snd t))) (kept_tables (snd c)))) m) []
    = map (\<lambda>c. (fst c, tables_value (snd c))) (kept_masks m)"
  using fold_kept [OF assms, of "\<lambda>c. kept_tables (snd c) \<noteq> []" "\<lambda>c. tables_value (kept_tables (snd c))"]
  by (simp add: keep_connection_def [abs_def] fold_map comp_def tables_value_def kept_masks_def cong: if_cong)

lemma connections_read:
  assumes "\<forall>e \<in> set es. json_data (snd e)"
  shows "list_all2 (\<lambda>e y. fst y = fst e \<and> masked_tables (snd e) = Inr (snd y)) es ys \<longleftrightarrow>
     (\<exists>m. es = map (\<lambda>c. (fst c, tables_value (snd c))) m \<and>
          ys = map (\<lambda>c. (fst c, map (\<lambda>t. (fst t, columns_value (snd t))) (kept_tables (snd c)))) m \<and>
          (\<forall>c \<in> set m. enumerated (snd c) \<and> length (snd c) \<le> 500 \<and>
             (\<forall>t \<in> set (snd c). length (snd t) \<le> 100 \<and> (\<forall>x \<in> set (snd t). js_trim x \<noteq> []))))"
  unfolding list_all2_images [symmetric]
  using assms by (intro list.rel_cong) (auto simp: masked_tables_iff tables_value_def)

lemma validateMaskedColumns_iff:
  assumes "json_data v"
  shows "validateMaskedColumns v = Inr w \<longleftrightarrow>
    (\<exists>m. v = masked_value m \<and> enumerated m \<and> (\<forall>c \<in> set m. enumerated (snd c)) \<and> within_caps m \<and>
       w = masked_value (kept_masks m))"
    (is "?l \<longleftrightarrow> ?r")
proof
  assume ?l
  then obtain es ys where es: "v = JObj es" "w = JObj (fold keep_connection ys [])"
    "list_all2 (\<lambda>e y. fst y = fst e \<and> masked_tables (snd e) = Inr (snd y)) es ys"
    by (auto simp: validateMaskedColumns_def res_bind_Inr_iff res_map_Inr_iff plain_object_Inr traverse_pairs)
  have data: "enumerated es" "\<forall>e \<in> set es. json_data (snd e)" using assms es(1) by (auto simp: list_all_iff)
  then obtain m where m: "es = map (\<lambda>c. (fst c, tables_value (snd c))) m"
    "ys = map (\<lambda>c. (fst c, map (\<lambda>t. (fst t, columns_value (snd t))) (kept_tables (snd c)))) m"
    "\<forall>c \<in> set m. enumerated (snd c) \<and> length (snd c) \<le> 500 \<and>
       (\<forall>t \<in> set (snd c). length (snd t) \<le> 100 \<and> (\<forall>x \<in> set (snd t). js_trim x \<noteq> []))"
    using es(3) unfolding connections_read [OF data(2)] by blast
  have "enumerated m" using data(1) m(1) by simp
  then show ?r
    using es(1,2) m fold_keep_connection by (intro exI [of _ m]) (simp add: masked_value_def within_caps_def)
next
  assume ?r
  then obtain m where m: "v = masked_value m" "enumerated m" "\<forall>c \<in> set m. enumerated (snd c)" "within_caps m"
    "w = masked_value (kept_masks m)" by blast
  let ?es = "map (\<lambda>c. (fst c, tables_value (snd c))) m"
  have "\<forall>e \<in> set ?es. json_data (snd e)" using assms m(1) by (auto simp: masked_value_def list_all_iff)
  from connections_read [OF this]
  have "traverse (\<lambda>(connectionId, tables). res_map (\<lambda>out. (connectionId, out)) (masked_tables tables)) ?es
      = Inr (map (\<lambda>c. (fst c, map (\<lambda>t. (fst t, columns_value (snd t))) (kept_tables (snd c)))) m)"
    unfolding traverse_pairs using m(3,4) unfolding within_caps_def by blast
  then show ?l
    using m(1,5) fold_keep_connection [OF m(2)] by (simp add: validateMaskedColumns_def masked_value_def)
qed

lemma kept_masks_ok:
  assumes "enumerated m" "\<forall>c \<in> set m. enumerated (snd c)" "within_caps m"
  shows "masked_columns_ok (kept_masks m)"
proof -
  have "length (kept_tables ts) \<le> length ts" for ts by (simp add: kept_tables_def)
  moreover have "length (js_set cs) \<le> 100" if "length cs \<le> 100" for cs :: "string list"
    using length_js_set [of cs] that by linarith
  ultimately show ?thesis
    using assms
    by (fastforce simp: masked_columns_ok_def kept_masks_def kept_tables_def within_caps_def intro: enumerated_filter
        intro: order_trans [OF length_filter_le])
qed

subsection \<open>Stored and read back\<close>

definition validator :: "string \<Rightarrow> (js_val \<Rightarrow> js_val res) option" where
  "validator = map_of
     [(''keybindings'', validateKeybindings), (''customPalettes'', validateCustomPalettes),
      (''connectionOverrides'', validateConnectionOverrides), (''columnRenderOverrides'', validateColumnRenderOverrides),
      (''maskedColumns'', validateMaskedColumns), (''dataColors'', validateDataColors), (''editor'', validateEditorPrefs),
      (''grid'', validateGridPrefs), (''behavior'', validateBehaviorPrefs)]"

definition font_key :: "string \<Rightarrow> bool" where
  "font_key k \<longleftrightarrow> k \<in> {''fontFamily'', ''monoFontFamily''}"

definition store_fits :: "string \<Rightarrow> (js_val \<Rightarrow> js_val res) \<Rightarrow> bool" where
  "store_fits k st \<longleftrightarrow>
     (case validator k of
        Some f \<Rightarrow> st = stringified f \<and> map_of json_columns k \<noteq> None \<and> \<not> font_key k
      | None \<Rightarrow> st = Inr \<and> map_of json_columns k = None)"

lemma row_fields_store: "(k, st) \<in> set row_fields \<Longrightarrow> store_fits k st"
proof -
  have "list_all (\<lambda>f. store_fits (fst f) (snd f)) row_fields"
    unfolding row_fields_def list.pred_inject fst_conv snd_conv
    by (intro conjI TrueI;
        simp add: store_fits_def validator_def json_columns_def font_key_def map_of_Cons_code del: map_of.simps)
  then show "(k, st) \<in> set row_fields \<Longrightarrow> store_fits k st" by (auto simp: list_all_iff)
qed

lemma row_fields_distinct: "distinct (map fst row_fields)"
  by code_simp

lemma row_fields_columns: "(k, st) \<in> set row_fields \<Longrightarrow> has_prop schema_defaults k"
proof -
  have "list_all (\<lambda>k. has_prop schema_defaults k) (map fst row_fields)" by code_simp
  then show "(k, st) \<in> set row_fields \<Longrightarrow> has_prop schema_defaults k" by (auto simp: list_all_iff)
qed

lemma get_prop_member: "distinct (map fst r) \<Longrightarrow> (k, v) \<in> set r \<Longrightarrow> get_prop r k = v"
  by (simp add: get_prop_def)

lemma toRowData_keys:
  assumes "toRowData dto = Inr data"
  shows "map fst data = filter (\<lambda>k. get_prop dto k \<noteq> JUndef) (map fst row_fields)" "distinct (map fst data)"
proof -
  have "map fst ys = map fst xs" if "list_all2 (\<lambda>(k, st) y. res_map (\<lambda>v. (k, v)) (st (get_prop dto k)) = Inr y) xs ys" for xs ys
    using that by (induction rule: list_all2_induct) (auto simp: res_map_Inr_iff)
  then show eq: "map fst data = filter (\<lambda>k. get_prop dto k \<noteq> JUndef) (map fst row_fields)"
    using assms by (simp add: toRowData_def traverse_Inr_iff filter_map comp_def case_prod_beta')
  show "distinct (map fst data)" using row_fields_distinct by (simp add: eq distinct_filter)
qed

lemma list_all2_find:
  "list_all2 (\<lambda>(k, st) y. res_map (\<lambda>v. (k, v)) (st (g k)) = Inr y) xs ys \<Longrightarrow> (k, st) \<in> set xs \<Longrightarrow>
   \<exists>v. (k, v) \<in> set ys \<and> st (g k) = Inr v"
  by (induction rule: list_all2_induct) (auto simp: res_map_Inr_iff)

lemma toRowData_value:
  assumes "toRowData dto = Inr data" "(k, st) \<in> set row_fields"
  shows "has_prop data k \<longleftrightarrow> get_prop dto k \<noteq> JUndef"
    "get_prop dto k \<noteq> JUndef \<Longrightarrow> st (get_prop dto k) = Inr (get_prop data k)"
proof -
  show "has_prop data k \<longleftrightarrow> get_prop dto k \<noteq> JUndef"
    using toRowData_keys(1) [OF assms(1)] assms(2) unfolding has_prop_def list.set_map [symmetric] by force
  assume "get_prop dto k \<noteq> JUndef"
  then have mem: "(k, st) \<in> set (filter (\<lambda>(key, _). get_prop dto key \<noteq> JUndef) row_fields)" using assms(2) by simp
  have "list_all2 (\<lambda>(k, st) y. res_map (\<lambda>v. (k, v)) (st (get_prop dto k)) = Inr y)
      (filter (\<lambda>(key, _). get_prop dto key \<noteq> JUndef) row_fields) data"
    using assms(1) by (simp add: toRowData_def traverse_Inr_iff case_prod_beta')
  from list_all2_find [OF this mem] obtain v where "(k, v) \<in> set data" "st (get_prop dto k) = Inr v" by blast
  then show "st (get_prop dto k) = Inr (get_prop data k)"
    using get_prop_member [OF toRowData_keys(2) [OF assms(1)]] by simp
qed

lemma get_write_columns:
  "distinct (map fst data) \<Longrightarrow> \<forall>f \<in> set data. has_prop r (fst f) \<Longrightarrow>
   get_prop (write_columns data r) k = (if has_prop data k then get_prop data k else get_prop r k)"
proof (induction data arbitrary: r)
  case (Cons f data)
  have "\<not> has_prop data (fst f)" using Cons.prems(1) by (simp add: has_prop_def)
  then show ?case
    using Cons.IH [of "put_prop (fst f) (snd f) r"] Cons.prems by (auto simp: write_columns_def get_put_prop)
qed (simp add: write_columns_def)

lemma keys_write_columns [simp]: "map fst (write_columns data r) = map fst r"
  by (induction data arbitrary: r) (simp_all add: write_columns_def)

text \<open>A stored structure reads back as the value the validator returned.\<close>

lemma stringified_reads:
  assumes "stringified f v = Inr x" "\<And>w. f v = Inr w \<Longrightarrow> json_data w"
  shows "\<exists>w. f v = Inr w \<and> parseJson x fallback = w"
proof -
  obtain w t where "f v = Inr w" "json_stringify w = Inr t" "x = JStr t"
    using assms(1) by (auto simp: stringified_def res_bind_Inr_iff res_map_Inr_iff)
  moreover from this have "json_parse t = Some w" using json_round_trip assms(2) by blast
  ultimately show ?thesis by (auto simp: parseJson_def)
qed

lemma palettes_data: "json_data v \<Longrightarrow> validateCustomPalettes v = Inr w \<Longrightarrow> json_data w"
proof -
  have get: "json_data (get_prop fs k) \<or> get_prop fs k = JUndef" if "list_all (\<lambda>f. json_data (snd f)) fs" for fs k
    using that by (induction fs) auto
  have data: "json_data q" if p: "json_data p" and q: "validate_palette p = Inr q" for p q
  proof -
    obtain fs name colors where "p = JObj fs" "get_prop fs ''name'' = JStr name" "get_prop fs ''colors'' = JObj colors"
      "q = JObj [(''name'', JStr name), (''colors'', JObj colors)]"
      using q by (auto simp: validate_palette_def Let_def res_bind_Inr_iff plain_object_Inr checked_entries
          require_Inr_iff string_that_iff)
    moreover have "enumerated [(''name'', x), (''colors'', y)]" for x y :: js_val
      by (simp add: enumerated_def prop_before_def array_index_def digit_char_def)
    ultimately show ?thesis using p get [of fs "''colors''"] by auto
  qed
  assume v: "json_data v" and w: "validateCustomPalettes v = Inr w"
  obtain ps qs where ps: "v = JArr ps" "traverse validate_palette ps = Inr qs" "w = JArr qs"
    using w by (auto simp: validateCustomPalettes_def res_bind_Inr_iff res_map_Inr_iff require_Inr_iff split: js_val.splits)
  have "list_all2 (\<lambda>p q. validate_palette p = Inr q) ps qs" using ps(2) by (simp add: traverse_Inr_iff)
  moreover have "list_all json_data ps" using v ps(1) by simp
  ultimately have "list_all json_data qs" by (induction rule: list_all2_induct) (auto intro: data)
  then show "json_data w" by (simp add: ps(3))
qed

lemma masks_data: "json_data v \<Longrightarrow> validateMaskedColumns v = Inr w \<Longrightarrow> masks_shape w \<and> json_data w"
proof -
  have tables: "json_data (tables_value (kept_tables ts))" if "enumerated ts" for ts
    using that by (auto simp: tables_value_def columns_value_def list_all_iff kept_tables_def comp_def enumerated_filter)
  assume "json_data v" "validateMaskedColumns v = Inr w"
  then obtain m where m: "enumerated m" "\<forall>c \<in> set m. enumerated (snd c)" "within_caps m" "w = masked_value (kept_masks m)"
    using validateMaskedColumns_iff by blast
  have "json_data w"
    using m(1,2) tables by (auto simp: m(4) masked_value_def list_all_iff kept_masks_def comp_def enumerated_filter)
  then show ?thesis using kept_masks_ok [OF m(1-3)] m(4) by (auto simp: masks_shape_def)
qed

text \<open>What a preference, as it is read, may be.\<close>

definition pref_shapes :: "(string \<times> (js_val \<Rightarrow> bool)) list" where
  "pref_shapes =
     [(''colorMode'', one_of COLOR_MODES),
      (''accentColor'', string_that (rx_match (Seq (Lit CHR ''#'') (Seqs (replicate 6 hex_class))))),
      (''fontSize'', one_of FONT_SIZES), (''gridDensity'', one_of GRID_DENSITIES), (''keybindings'', keybindings_shape),
      (''customPalettes'', palettes_shape), (''connectionOverrides'', entries_of override_shape),
      (''columnRenderOverrides'', render_shape), (''maskedColumns'', masks_shape),
      (''fontFamily'', \<lambda>v. v = JUndef \<or> one_of FONT_FAMILIES v), (''monoFontFamily'', \<lambda>v. v = JUndef \<or> one_of MONO_FONT_FAMILIES v),
      (''radiusScale'', one_of RADIUS_SCALES), (''dataColors'', colors_shape DATA_COLOR_KEYS), (''editor'', editor_shape),
      (''grid'', grid_shape), (''behavior'', behavior_shape), (''reduceMotion'', is_bool), (''hideFocusRing'', is_bool),
      (''aiEnabled'', is_bool)]"

text \<open>What the pipe's decorators and the deep validators together allow for a property.\<close>

definition shape_fits :: "string \<Rightarrow> (js_val \<Rightarrow> bool) \<Rightarrow> (js_val \<Rightarrow> bool) \<Rightarrow> bool" where
  "shape_fits k check P \<longleftrightarrow>
     (case validator k of
        Some f \<Rightarrow> (\<forall>v w. json_data v \<longrightarrow> f v = Inr w \<longrightarrow> P w \<and> json_data w)
      | None \<Rightarrow> (\<forall>v. check v \<longrightarrow> P v) \<and> (font_key k \<longrightarrow> P JUndef))"

lemma validator_simps:
  "validator ''keybindings'' = Some validateKeybindings" "validator ''customPalettes'' = Some validateCustomPalettes"
  "validator ''connectionOverrides'' = Some validateConnectionOverrides"
  "validator ''columnRenderOverrides'' = Some validateColumnRenderOverrides"
  "validator ''maskedColumns'' = Some validateMaskedColumns" "validator ''dataColors'' = Some validateDataColors"
  "validator ''editor'' = Some validateEditorPrefs" "validator ''grid'' = Some validateGridPrefs"
  "validator ''behavior'' = Some validateBehaviorPrefs"
  by (simp_all add: validator_def map_of_Cons_code del: map_of.simps)

lemma fits_validator:
  "validator k = Some f \<Longrightarrow> (\<And>v w. json_data v \<Longrightarrow> f v = Inr w \<Longrightarrow> P w \<and> json_data w) \<Longrightarrow> shape_fits k check P"
  by (auto simp: shape_fits_def)

lemma json_fields_fit:
  "shape_fits ''keybindings'' c1 keybindings_shape" "shape_fits ''customPalettes'' c2 palettes_shape"
  "shape_fits ''connectionOverrides'' c3 (entries_of override_shape)" "shape_fits ''columnRenderOverrides'' c4 render_shape"
  "shape_fits ''maskedColumns'' c5 masks_shape" "shape_fits ''dataColors'' c6 (colors_shape DATA_COLOR_KEYS)"
  "shape_fits ''editor'' c7 editor_shape" "shape_fits ''grid'' c8 grid_shape" "shape_fits ''behavior'' c9 behavior_shape"
proof -
  show "shape_fits ''keybindings'' c1 keybindings_shape" by (rule fits_validator [OF validator_simps(1)]) (simp add: validateKeybindings_iff)
  show "shape_fits ''customPalettes'' c2 palettes_shape" by (rule fits_validator [OF validator_simps(2)]) (blast intro: validateCustomPalettes_shape palettes_data)
  show "shape_fits ''connectionOverrides'' c3 (entries_of override_shape)" by (rule fits_validator [OF validator_simps(3)]) (simp add: validateConnectionOverrides_iff)
  show "shape_fits ''columnRenderOverrides'' c4 render_shape" by (rule fits_validator [OF validator_simps(4)]) (simp add: validateColumnRenderOverrides_iff)
  show "shape_fits ''maskedColumns'' c5 masks_shape" by (rule fits_validator [OF validator_simps(5)]) (blast intro: masks_data [THEN conjunct1] masks_data [THEN conjunct2])
  show "shape_fits ''dataColors'' c6 (colors_shape DATA_COLOR_KEYS)" by (rule fits_validator [OF validator_simps(6)]) (simp add: validateDataColors_iff)
  show "shape_fits ''editor'' c7 editor_shape" by (rule fits_validator [OF validator_simps(7)]) (simp add: validateEditorPrefs_iff)
  show "shape_fits ''grid'' c8 grid_shape" by (rule fits_validator [OF validator_simps(8)]) (simp add: validateGridPrefs_iff)
  show "shape_fits ''behavior'' c9 behavior_shape" by (rule fits_validator [OF validator_simps(9)]) (simp add: validateBehaviorPrefs_iff)
qed

lemma shapes_fit: "list_all2 (\<lambda>d p. fst d = fst p \<and> shape_fits (fst d) (snd d) (snd p)) dto_decorators pref_shapes"
  unfolding dto_decorators_def pref_shapes_def list.rel_inject fst_conv snd_conv
  by (intro conjI TrueI refl json_fields_fit list.rel_intros;
      simp add: shape_fits_def validator_def font_key_def map_of_Cons_code del: map_of.simps)

lemma validator_data:
  assumes "validator k = Some f" "json_data v" "f v = Inr w"
  shows "json_data w"
proof -
  have "f \<in> {validateKeybindings, validateCustomPalettes, validateConnectionOverrides, validateColumnRenderOverrides,
      validateMaskedColumns, validateDataColors, validateEditorPrefs, validateGridPrefs, validateBehaviorPrefs}"
    using map_of_SomeD [OF assms(1) [unfolded validator_def]] unfolding set_simps insert_iff prod.inject by blast
  then consider "f = validateCustomPalettes" | "f = validateMaskedColumns"
    | "f \<in> {validateKeybindings, validateConnectionOverrides, validateColumnRenderOverrides, validateDataColors,
        validateEditorPrefs, validateGridPrefs, validateBehaviorPrefs}" by blast
  then show ?thesis
  proof cases
    case 1
    then show ?thesis using assms(2,3) palettes_data by blast
  next
    case 2
    then show ?thesis using assms(2,3) masks_data by blast
  next
    case 3
    then have "w = v"
      using assms(3)
      by (auto simp: validateKeybindings_iff validateConnectionOverrides_iff validateColumnRenderOverrides_iff
          validateDataColors_iff validateEditorPrefs_iff validateGridPrefs_iff validateBehaviorPrefs_iff)
    then show ?thesis using assms(2) by simp
  qed
qed

subsection \<open>The operations\<close>

definition requested :: "string \<Rightarrow> js_val \<Rightarrow> js_val" where
  "requested k v =
     (case validator k of
        Some f \<Rightarrow> (case f v of Inr w \<Rightarrow> w | Inl _ \<Rightarrow> v)
      | None \<Rightarrow> if font_key k \<and> v = JNull then JUndef else v)"

definition pref_row_columns :: "row \<Rightarrow> bool" where
  "pref_row_columns r \<longleftrightarrow> map fst r = map fst schema_defaults"

definition dto_shape :: "row \<Rightarrow> bool" where
  "dto_shape d \<longleftrightarrow> list_all (\<lambda>(k, P). P (get_prop d k)) pref_shapes"

text \<open>Every row of the table has the columns of the schema and reads as a well-formed preference.\<close>

definition prefs_ok :: "pref_table \<Rightarrow> bool" where
  "prefs_ok db \<longleftrightarrow> (\<forall>u r. db u = Some r \<longrightarrow> pref_row_columns r \<and> dto_shape (toUserPreferenceDto r))"

lemma has_prop_keys: "map fst r = map fst s \<Longrightarrow> has_prop r k = has_prop s k"
  unfolding has_prop_def list.set_map [symmetric] by simp

lemma get_toUserPreferenceDto:
  "(k, st) \<in> set row_fields \<Longrightarrow> get_prop (toUserPreferenceDto r) k = read_column k (get_prop r k)"
  using row_fields_distinct
  by (intro get_prop_member) (force simp: toUserPreferenceDto_def comp_def case_prod_beta')+

lemma json_data_get: "list_all (\<lambda>f. json_data (snd f)) fs \<Longrightarrow> get_prop fs k \<noteq> JUndef \<Longrightarrow> json_data (get_prop fs k)"
  by (induction fs) (auto split: if_splits)

text \<open>What the row holds for a property the request names reads back as what was requested.\<close>

lemma stored_requested:
  assumes "toRowData dto = Inr data" "json_data (JObj dto)" "(k, st) \<in> set row_fields" "get_prop dto k \<noteq> JUndef"
  shows "read_column k (get_prop data k) = requested k (get_prop dto k)"
proof -
  have st: "st (get_prop dto k) = Inr (get_prop data k)" using toRowData_value(2) assms(1,3,4) by blast
  have fits: "store_fits k st" using row_fields_store assms(3) by blast
  have dto: "json_data (get_prop dto k)" using json_data_get assms(2,4) by simp
  show ?thesis
  proof (cases "validator k")
    case None
    then have "get_prop data k = get_prop dto k" "map_of json_columns k = None" using st fits by (auto simp: store_fits_def)
    then show ?thesis
      using None assms(4) by (auto simp: read_column_def requested_def font_key_def nullish_def)
  next
    case (Some f)
    then obtain fallback where f: "stringified f (get_prop dto k) = Inr (get_prop data k)" "map_of json_columns k = Some fallback"
      using st fits by (auto simp: store_fits_def)
    have "json_data w" if "f (get_prop dto k) = Inr w" for w
      using validator_data [OF Some] dto that by blast
    from stringified_reads [OF f(1) this, of fallback] show ?thesis
      by (auto simp: read_column_def f(2) requested_def Some)
  qed
qed

definition created :: "string \<Rightarrow> js_val" where
  "created k =
     (if k \<in> set always_written then get_prop DEFAULTS k else get_prop schema_defaults k)"

lemma created_reads: "(k, st) \<in> set row_fields \<Longrightarrow> read_column k (created k) = get_prop DEFAULTS k"
proof -
  have "list_all (\<lambda>k. read_column k (created k) = get_prop DEFAULTS k) (map fst row_fields)" by code_simp
  then show "(k, st) \<in> set row_fields \<Longrightarrow> read_column k (created k) = get_prop DEFAULTS k" by (auto simp: list_all_iff)
qed

lemma get_prop_in: "has_prop r k \<Longrightarrow> (k, get_prop r k) \<in> set r"
  by (induction r) auto

lemma get_prop_append: "get_prop (r @ s) k = (if has_prop r k then get_prop r k else get_prop s k)"
  by (induction r) auto

lemma has_prop_append [simp]: "has_prop (r @ s) k \<longleftrightarrow> has_prop r k \<or> has_prop s k"
  by (auto simp: has_prop_def)

lemma data_columns:
  assumes "toRowData dto = Inr data" "has_prop data k"
  shows "has_prop schema_defaults k"
proof -
  have "k \<in> set (map fst data)" using assms(2) by (simp add: has_prop_def)
  then have "k \<in> fst ` set row_fields" unfolding toRowData_keys(1) [OF assms(1)] by auto
  then show ?thesis using row_fields_columns by force
qed

lemma upsert_cases:
  assumes "update_preferences u dto db = (Inr d, db')"
  obtains data r' where "toRowData dto = Inr data" "db' = db(u \<mapsto> r')" "d = toUserPreferenceDto r'"
    "r' = (case db u of Some r \<Rightarrow> write_columns data r | None \<Rightarrow> write_columns (create_columns dto data) schema_defaults)"
    "\<forall>k. has_prop data k \<longrightarrow> get_prop data k = JNull \<longrightarrow> font_key k"
proof -
  obtain data where data: "toRowData dto = Inr data" using assms by (auto simp: update_preferences_def split: sum.splits)
  let ?D = "case db u of Some r \<Rightarrow> data | None \<Rightarrow> create_columns dto data"
  let ?r = "case db u of Some r \<Rightarrow> write_columns data r | None \<Rightarrow> write_columns (create_columns dto data) schema_defaults"
  have up: "\<not> list_ex (\<lambda>f. snd f = JNull \<and> fst f \<notin> {''fontFamily'', ''monoFontFamily''}) ?D \<and>
      db' = db(u \<mapsto> ?r) \<and> d = toUserPreferenceDto ?r"
    using assms data by (auto simp: update_preferences_def upsert_preference_def Let_def split: option.splits if_splits)
  have "set data \<subseteq> set ?D" by (auto simp: create_columns_def split: option.splits)
  then have "\<forall>f \<in> set data. snd f = JNull \<longrightarrow> font_key (fst f)"
    using up by (auto simp: list_ex_iff font_key_def)
  then have "\<forall>k. has_prop data k \<longrightarrow> get_prop data k = JNull \<longrightarrow> font_key k"
    using get_prop_in by (metis fst_conv snd_conv)
  with data up that show thesis by blast
qed

lemma chosen_columns:
  "has_prop (filter (\<lambda>f. P (fst f)) (map (\<lambda>k. (k, g k)) ks)) k \<longleftrightarrow> k \<in> set ks \<and> P k"
  "get_prop (filter (\<lambda>f. P (fst f)) (map (\<lambda>k. (k, g k)) ks)) k = (if k \<in> set ks \<and> P k then g k else JUndef)"
  by (induction ks) auto

lemma always_written: "distinct always_written" "k \<in> set always_written \<Longrightarrow> has_prop schema_defaults k"
proof -
  show "distinct always_written" by code_simp
  have "list_all (has_prop schema_defaults) always_written" by code_simp
  then show "k \<in> set always_written \<Longrightarrow> has_prop schema_defaults k" by (simp add: list_all_iff)
qed

lemma get_create_columns:
  assumes "toRowData dto = Inr data" "(k, st) \<in> set row_fields"
  shows "get_prop (write_columns (create_columns dto data) schema_defaults) k
    = (if get_prop dto k = JUndef then created k else get_prop data k)"
proof -
  let ?set = "filter (\<lambda>f. \<not> has_prop data (fst f))
    (map (\<lambda>key. (key, nullish_or (get_prop dto key) (get_prop DEFAULTS key))) always_written)"
  have "map fst ?set = filter (\<lambda>k. \<not> has_prop data k) always_written"
    by (simp only: filter_map comp_def fst_conv map_map map_ident)
  then have "distinct (map fst (?set @ data))"
    using toRowData_keys(2) [OF assms(1)] always_written(1) by (auto simp: has_prop_def)
  moreover have "\<forall>f \<in> set (?set @ data). has_prop schema_defaults (fst f)"
    using data_columns [OF assms(1)] always_written(2) by (force simp: has_prop_def)
  ultimately have "get_prop (write_columns (?set @ data) schema_defaults) k =
      (if has_prop (?set @ data) k then get_prop (?set @ data) k else get_prop schema_defaults k)"
    by (rule get_write_columns)
  moreover have "has_prop data k \<longleftrightarrow> get_prop dto k \<noteq> JUndef" using toRowData_value(1) assms by blast
  moreover note chosen_columns [of "\<lambda>k. \<not> has_prop data k" "\<lambda>key. nullish_or (get_prop dto key) (get_prop DEFAULTS key)"]
  ultimately show ?thesis
    by (simp add: create_columns_def created_def get_prop_append) (simp add: nullish_or_def nullish_def)
qed

lemma update_reads:
  assumes "update_preferences u dto db = (Inr d, db')" "json_data (JObj dto)" "\<forall>r. db u = Some r \<longrightarrow> pref_row_columns r"
    "(k, st) \<in> set row_fields"
  shows "get_prop d k = (if get_prop dto k = JUndef then get_prop (get_preferences db u) k else requested k (get_prop dto k))"
proof -
  obtain data r' where u: "toRowData dto = Inr data" "d = toUserPreferenceDto r'"
    "r' = (case db u of Some r \<Rightarrow> write_columns data r | None \<Rightarrow> write_columns (create_columns dto data) schema_defaults)"
    by (rule upsert_cases [OF assms(1)])
  have d: "get_prop d k = read_column k (get_prop r' k)" using get_toUserPreferenceDto assms(4) by (simp add: u(2))
  have hp: "has_prop data k \<longleftrightarrow> get_prop dto k \<noteq> JUndef" using toRowData_value(1) u(1) assms(4) by blast
  have "get_prop r' k = (if get_prop dto k = JUndef
      then (case db u of Some r \<Rightarrow> get_prop r k | None \<Rightarrow> created k) else get_prop data k)"
  proof (cases "db u")
    case None
    then show ?thesis using get_create_columns [OF u(1) assms(4)] by (simp add: u(3))
  next
    case (Some r)
    have "has_prop r (fst f)" if "f \<in> set data" for f
      using data_columns [OF u(1), of "fst f"] that assms(3) Some has_prop_keys [of r schema_defaults]
      by (auto simp: pref_row_columns_def has_prop_def)
    then show ?thesis
      using get_write_columns [OF toRowData_keys(2) [OF u(1)], of r k] hp by (simp add: u(3) Some)
  qed
  then show ?thesis
    using d stored_requested [OF u(1) assms(2,4)] created_reads [OF assms(4)] get_toUserPreferenceDto [OF assms(4)]
    by (auto simp: get_preferences_def split: option.splits)
qed

lemma update_unchanged: "update_preferences u dto db = (Inl e, db') \<Longrightarrow> db' = db"
  by (auto simp: update_preferences_def upsert_preference_def Let_def split: sum.splits option.splits if_splits prod.splits)

lemma update_others: "update_preferences u dto db = (r, db') \<Longrightarrow> v \<noteq> u \<Longrightarrow> db' v = db v"
  by (auto simp: update_preferences_def upsert_preference_def Let_def split: sum.splits option.splits if_splits prod.splits)

lemma update_row:
  assumes "update_preferences u dto db = (Inr d, db')" "\<forall>r. db u = Some r \<longrightarrow> pref_row_columns r"
  obtains r' where "db' u = Some r'" "pref_row_columns r'" "d = toUserPreferenceDto r'"
  using upsert_cases [OF assms(1)] assms(2)
  by (metis (no_types, lifting) fun_upd_same keys_write_columns option.case_eq_if option.collapse pref_row_columns_def)

lemma DEFAULTS_shape: "dto_shape DEFAULTS"
proof -
  have "rx_match (Seq (Lit CHR ''#'') (Seqs (replicate 6 hex_class))) ''#498fff''" by code_simp
  then show ?thesis
    by (simp add: dto_shape_def pref_shapes_def DEFAULTS_def one_of_def string_that_def COLOR_MODES_def FONT_SIZES_def
        GRID_DENSITIES_def RADIUS_SCALES_def keybindings_shape_def palettes_shape_def entries_of_def render_shape_def
        colors_shape_def editor_shape_def grid_shape_def behavior_shape_def optional_def masks_shape_def masked_value_def
        masked_columns_ok_def enumerated_def)
qed

lemma dto_value_fits:
  assumes "dto_accepted dto" "json_data (JObj dto)" "toRowData dto = Inr data" "get_prop dto k \<noteq> JUndef"
    "get_prop dto k = JNull \<longrightarrow> validator k = None \<longrightarrow> font_key k"
    "(k, check) \<in> set dto_decorators" "shape_fits k check P" "(k, st) \<in> set row_fields"
  shows "P (requested k (get_prop dto k))"
proof (cases "validator k")
  case None
  show ?thesis
  proof (cases "get_prop dto k = JNull")
    case True
    then show ?thesis using None assms(5,7) by (auto simp: shape_fits_def requested_def)
  next
    case False
    then have "check (get_prop dto k)" using assms(1,4,6) by (auto simp: dto_accepted_def list_all_iff nullish_def)
    then show ?thesis using None False assms(7) by (auto simp: shape_fits_def requested_def)
  qed
next
  case (Some f)
  then have "st = stringified f" using row_fields_store [OF assms(8)] by (simp add: store_fits_def)
  then obtain w where w: "f (get_prop dto k) = Inr w"
    using toRowData_value(2) [OF assms(3,8,4)] by (auto simp: stringified_def res_bind_Inr_iff)
  moreover have "json_data (get_prop dto k)" using json_data_get assms(2,4) by simp
  ultimately show ?thesis using Some assms(7) by (auto simp: shape_fits_def requested_def)
qed

lemma list_all2_shape:
  "list_all2 (\<lambda>d p. fst d = fst p \<and> Q (fst d) (snd d) (snd p)) ds ps \<Longrightarrow> (k, P) \<in> set ps \<Longrightarrow>
   \<exists>check. (k, check) \<in> set ds \<and> Q k check P"
  by (induction rule: list_all2_induct) (auto simp: prod_eq_iff)

lemma pref_shapes_stored: "(k, P) \<in> set pref_shapes \<Longrightarrow> \<exists>st. (k, st) \<in> set row_fields"
proof -
  have "map fst pref_shapes = map fst row_fields" by (simp add: pref_shapes_def row_fields_def)
  then have "set (map fst pref_shapes) = set (map fst row_fields)" by simp
  then show "(k, P) \<in> set pref_shapes \<Longrightarrow> \<exists>st. (k, st) \<in> set row_fields" by force
qed

lemma update_shape:
  assumes "update_preferences u dto db = (Inr d, db')" "prefs_ok db" "dto_accepted dto" "json_data (JObj dto)"
  shows "dto_shape d"
proof -
  have cols: "\<forall>r. db u = Some r \<longrightarrow> pref_row_columns r" and old: "dto_shape (get_preferences db u)"
    using assms(2) DEFAULTS_shape by (auto simp: prefs_ok_def get_preferences_def split: option.splits)
  obtain data where data: "toRowData dto = Inr data" "\<forall>k. has_prop data k \<longrightarrow> get_prop data k = JNull \<longrightarrow> font_key k"
    by (rule upsert_cases [OF assms(1)])
  have "P (get_prop d k)" if kP: "(k, P) \<in> set pref_shapes" for k P
  proof -
    obtain check where check: "(k, check) \<in> set dto_decorators" "shape_fits k check P"
      using list_all2_shape [OF shapes_fit kP] by blast
    obtain st where st: "(k, st) \<in> set row_fields" using pref_shapes_stored [OF kP] by blast
    show ?thesis
    proof (cases "get_prop dto k = JUndef")
      case True
      then show ?thesis
        using update_reads [OF assms(1,4) cols st] old kP by (auto simp: dto_shape_def list_all_iff)
    next
      case False
      have "get_prop dto k = JNull \<longrightarrow> validator k = None \<longrightarrow> font_key k"
        using toRowData_value [OF data(1) st] row_fields_store [OF st] False data(2) by (auto simp: store_fits_def)
      then show ?thesis
        using update_reads [OF assms(1,4) cols st] False dto_value_fits [OF assms(3,4) data(1) False _ check st] by simp
    qed
  qed
  then show ?thesis by (auto simp: dto_shape_def list_all_iff)
qed

text \<open>
  C38. From a table of well-formed preferences, a request the pipe lets through leaves well-formed preferences:
  every user then reads a complete preference object whose fields keep to their allow-lists, patterns and caps
  (chords, palettes, render modes, masked columns, editor, grid and behaviour settings), whether the update was
  accepted or refused, and a refused one leaves the table as it was.
\<close>

theorem preferences_well_formed:
  assumes "prefs_ok db" "dto_accepted dto" "json_data (JObj dto)" "update_preferences u dto db = (r, db')"
  shows "prefs_ok db' \<and> dto_shape (get_preferences db' v) \<and> (case r of Inl _ \<Rightarrow> db' = db | Inr d \<Rightarrow> d = get_preferences db' u)"
proof -
  have read: "dto_shape (get_preferences t v)" if "prefs_ok t" for t
    using that DEFAULTS_shape by (auto simp: prefs_ok_def get_preferences_def split: option.splits)
  show ?thesis
  proof (cases r)
    case (Inl e)
    then show ?thesis using update_unchanged [OF assms(4) [unfolded Inl]] assms(1) read by simp
  next
    case (Inr d)
    note up = assms(4) [unfolded Inr]
    obtain r' where r': "db' u = Some r'" "pref_row_columns r'" "d = toUserPreferenceDto r'"
      using update_row [OF up] assms(1) by (auto simp: prefs_ok_def)
    have "dto_shape d" by (rule update_shape [OF up assms(1-3)])
    then have "prefs_ok db'"
      using assms(1) r' update_others [OF up] by (metis option.inject prefs_ok_def)
    then show ?thesis using read r' Inr by (simp add: get_preferences_def)
  qed
qed


lemma js_set_filter: "js_set (filter P xs) = filter P (js_set xs)"
  by (induction xs) (auto simp: filter_filter conj_commute intro!: filter_cong)

lemma js_set_idem [simp]: "js_set (js_set xs) = js_set xs"
proof -
  have "js_set ys = ys" if "distinct ys" for ys :: "'a list"
    using that by (induction ys) (auto intro!: filter_True)
  then show ?thesis by simp
qed

lemma map_of_kept:
  "distinct (map fst fs) \<Longrightarrow>
   map_of (map (\<lambda>f. (fst f, g (snd f))) (filter (\<lambda>f. P (snd f) \<and> fst f \<noteq> z) fs)) k =
     (if k = z then None else case map_of fs k of Some x \<Rightarrow> if P x then Some (g x) else None | None \<Rightarrow> None)"
proof (induction fs)
  case (Cons f fs)
  have "map_of fs k = None" if "fst f = k" using Cons.prems that by (force simp: map_of_eq_None_iff)
  then show ?case using Cons by (cases f) auto
qed simp

lemma mask_lookup:
  assumes "enumerated m" "\<forall>c \<in> set m. enumerated (snd c)" "c \<noteq> ''__proto__''"
  shows "maskedColumnsFor (Some (kept_masks m)) c schema table pk = maskedColumnsFor (Some m) c schema table pk"
proof -
  have key: "tableKey schema table \<noteq> ''__proto__''"
  proof
    assume "tableKey schema table = ''__proto__''"
    then have "CHR ''.'' \<in> set ''__proto__''" by (metis in_set_conv_decomp tableKey_def append_Cons append_Nil)
    then show False by simp
  qed
  have tables: "map_of (kept_tables ts) (tableKey schema table) =
      (case map_of ts (tableKey schema table) of Some cs \<Rightarrow> if cs \<noteq> [] then Some (js_set cs) else None | None \<Rightarrow> None)"
    if "enumerated ts" for ts
    using map_of_kept [OF enumerated_distinct [OF that], of js_set "\<lambda>cs. cs \<noteq> []" "''__proto__''" "tableKey schema table"] key
    by (simp add: kept_tables_def)
  have conn: "map_of (kept_masks m) c =
      (case map_of m c of Some ts \<Rightarrow> if kept_tables ts \<noteq> [] then Some (kept_tables ts) else None | None \<Rightarrow> None)"
    using map_of_kept [OF enumerated_distinct [OF assms(1)], of kept_tables "\<lambda>ts. kept_tables ts \<noteq> []" "''__proto__''" c] assms(3)
    by (simp add: kept_masks_def)
  show ?thesis
  proof (cases "map_of m c")
    case None
    then show ?thesis by (simp add: maskedColumnsFor_def conn)
  next
    case (Some ts)
    then have "enumerated ts" using assms(2) by (force dest: map_of_SomeD)
    from tables [OF this] show ?thesis
      by (cases "kept_tables ts = []")
        (auto simp: maskedColumnsFor_def conn Some js_set_filter split: option.splits if_splits)
  qed
qed

lemma listed_columns:
  assumes "enumerated m" "\<forall>c \<in> set m. enumerated (snd c)"
  shows "distinct (maskedColumnsFor (Some m) c schema table pk)"
    "column \<in> set (maskedColumnsFor (Some m) c schema table pk) \<longleftrightarrow> column \<notin> set pk \<and>
       (\<exists>tables columns. (c, tables) \<in> set m \<and> (schema @ ''.'' @ table, columns) \<in> set tables \<and> column \<in> set columns)"
proof -
  have tables: "map_of m c = Some ts \<longleftrightarrow> (c, ts) \<in> set m" for ts
    using enumerated_distinct [OF assms(1)] by (simp add: map_of_eq_Some_iff)
  have columns: "map_of ts k = Some cs \<longleftrightarrow> (k, cs) \<in> set ts" if "(c, ts) \<in> set m" for ts k cs
  proof -
    have "enumerated ts" using that assms(2) by force
    from enumerated_distinct [OF this] show ?thesis by (simp add: map_of_eq_Some_iff)
  qed
  show "distinct (maskedColumnsFor (Some m) c schema table pk)" by (simp add: maskedColumnsFor_def Let_def)
  show "column \<in> set (maskedColumnsFor (Some m) c schema table pk) \<longleftrightarrow> column \<notin> set pk \<and>
       (\<exists>tables columns. (c, tables) \<in> set m \<and> (schema @ ''.'' @ table, columns) \<in> set tables \<and> column \<in> set columns)"
  proof (cases "map_of m c")
    case None
    then have "(c, ts) \<notin> set m" for ts using tables [of ts] by simp
    then show ?thesis using None by (simp add: maskedColumnsFor_def)
  next
    case (Some ts)
    then have c: "(c, ts') \<in> set m \<longleftrightarrow> ts' = ts" for ts' using tables [of ts'] by auto
    then have ts: "(k, cs) \<in> set ts \<longleftrightarrow> map_of ts k = Some cs" for k cs using columns by blast
    show ?thesis
      unfolding c by (cases "map_of ts (schema @ ''.'' @ table)") (simp_all add: maskedColumnsFor_def Some tableKey_def ts, blast)
  qed
qed

text \<open>
  C40. What a user masks is masked: once an update with a map of masked columns is accepted, a later read of the
  preferences masks, for each connection and table and whatever its primary key, exactly the columns that the request
  lists under that connection and table and that are not in the primary key, each once; through validation, the JSON
  text of the row and its parsing nothing is lost or added.
\<close>

theorem saved_masks_apply:
  assumes "prefs_ok db" "json_data (JObj dto)" "update_preferences u dto db = (Inr d, db')"
    "get_prop dto ''maskedColumns'' = masked_value m" "c \<noteq> ''__proto__''"
  shows "let masked = maskedColumnsFor (Some (masked_of (get_prop (get_preferences db' u) ''maskedColumns''))) c schema table pk in
    distinct masked \<and>
    (\<forall>column. column \<in> set masked \<longleftrightarrow> column \<notin> set pk \<and>
       (\<exists>tables columns. (c, tables) \<in> set m \<and> (schema @ ''.'' @ table, columns) \<in> set tables \<and> column \<in> set columns))"
proof -
  have st: "(''maskedColumns'', stringified validateMaskedColumns) \<in> set row_fields" by (simp add: row_fields_def)
  have data: "json_data (masked_value m)"
    using json_data_get [of dto "''maskedColumns''"] assms(2,4) by (simp add: masked_value_def)
  then have enum: "enumerated m" "\<forall>c \<in> set m. enumerated (snd c)"
    by (auto simp: masked_value_def tables_value_def list_all_iff)
  obtain row_data where row: "toRowData dto = Inr row_data" by (rule upsert_cases [OF assms(3)])
  have "\<exists>w. validateMaskedColumns (masked_value m) = Inr w"
    using toRowData_value(2) [OF row st] assms(4) by (auto simp: stringified_def res_bind_Inr_iff masked_value_def)
  then obtain m' where "masked_value m = masked_value m'" "validateMaskedColumns (masked_value m) = Inr (masked_value (kept_masks m'))"
    using validateMaskedColumns_iff [OF data] by blast
  then have w: "validateMaskedColumns (masked_value m) = Inr (masked_value (kept_masks m))"
    by (metis masked_of_value)
  have cols: "\<forall>r. db u = Some r \<longrightarrow> pref_row_columns r" using assms(1) by (auto simp: prefs_ok_def)
  obtain r' where "db' u = Some r'" "d = toUserPreferenceDto r'" using update_row [OF assms(3) cols] by blast
  then have "get_prop (get_preferences db' u) ''maskedColumns'' = masked_value (kept_masks m)"
    using update_reads [OF assms(3,2) cols st] w assms(4)
    by (simp add: get_preferences_def requested_def validator_simps masked_value_def)
  then show ?thesis unfolding Let_def by (simp add: mask_lookup [OF enum assms(5)] listed_columns [OF enum])
qed

subsection \<open>At a concrete request\<close>

definition sample_masks :: masked_columns where
  "sample_masks = [(''conn-1'', [(''public.users'', [''email'', ''phone'', ''email'']), (''public.empty'', [])])]"

definition sample_dto :: row where
  "sample_dto = [(''colorMode'', JStr ''dark''), (''maskedColumns'', masked_value sample_masks)]"

lemma sample_data: "json_data (JObj sample_dto)"
  by (simp add: sample_dto_def sample_masks_def masked_value_def tables_value_def columns_value_def enumerated_def
      prop_before_def array_index_def digit_char_def)

lemma sample_accepted: "dto_accepted sample_dto"
  by code_simp

lemma sample_updates: "\<exists>d db'. update_preferences ''u'' sample_dto (\<lambda>_. None) = (Inr d, db')"
proof -
  have "case fst (update_preferences ''u'' sample_dto (\<lambda>_. None)) of Inl _ \<Rightarrow> False | Inr _ \<Rightarrow> True" by code_simp
  then show ?thesis by (cases "update_preferences ''u'' sample_dto (\<lambda>_. None)") (auto split: sum.splits)
qed

lemma no_prefs_ok: "prefs_ok (\<lambda>_. None)"
  by (simp add: prefs_ok_def)

theorem preferences_well_formed_witness:
  "dto_shape (get_preferences (snd (update_preferences ''u'' sample_dto (\<lambda>_. None))) ''u'')"
  using preferences_well_formed [OF no_prefs_ok sample_accepted sample_data surjective_pairing] by blast


theorem saved_masks_apply_witness:
  "\<exists>d db'. update_preferences ''u'' sample_dto (\<lambda>_. None) = (Inr d, db')
     \<and> set (maskedColumnsFor (Some (masked_of (get_prop (get_preferences db' ''u'') ''maskedColumns''))) ''conn-1'' ''public'' ''users'' [''phone''])
       = {''email''}"
proof -
  obtain d db' where up: "update_preferences ''u'' sample_dto (\<lambda>_. None) = (Inr d, db')" using sample_updates by blast
  have masks: "get_prop sample_dto ''maskedColumns'' = masked_value sample_masks" by (simp add: sample_dto_def)
  have "''conn-1'' \<noteq> ''__proto__''" by simp
  from saved_masks_apply [OF no_prefs_ok sample_data up masks this, of "''public''" "''users''" "[''phone'']"] up
  show ?thesis by (intro exI [of _ d] exI [of _ db']) (auto simp: Let_def sample_masks_def)
qed

subsection \<open>Where the comments say something else\<close>

text \<open>A chord with no modifier is refused, though the grammar's comment allows none.\<close>

lemma plain_key_refused: "\<not> rx_match CHORD_PATTERN ''f5''"
  by code_simp

text \<open>A short colour is a colour for palettes and overrides, and not for the accent.\<close>

lemma short_accent_refused:
  "rx_match HEX_COLOR_PATTERN ''#abc'' \<and> \<not> dto_accepted [(''accentColor'', JStr ''#abc'')]"
  by code_simp

text \<open>A field outside the lists is stored with the editor's preferences as it came.\<close>

lemma unknown_editor_field: "validateEditorPrefs (JObj [(''anything'', v)]) = Inr (JObj [(''anything'', v)])"
  by (simp add: validateEditorPrefs_iff editor_shape_def optional_def)

text \<open>A null scalar passes the pipe and the service, and fails in the database call.\<close>

lemma null_scalar_fails:
  "dto_accepted [(''colorMode'', JNull)]
     \<and> fst (update_preferences ''u'' [(''colorMode'', JNull)] (\<lambda>_. None)) = Inl (PlainError ''Argument must not be null'')"
  by code_simp

text \<open>The caps are per connection: a map with any number of connections is accepted.\<close>

lemma enumerated_single [simp]: "enumerated [f]"
  by (simp add: enumerated_def)

lemma connections_uncapped:
  assumes "enumerated m" "\<forall>c \<in> set m. snd c = [(''t'', [''x''])]"
  shows "validateMaskedColumns (masked_value m) = Inr (masked_value (kept_masks m))"
proof -
  have data: "json_data (masked_value m)"
    using assms by (auto simp: masked_value_def tables_value_def columns_value_def list_all_iff)
  have "within_caps m" using assms(2) by (auto simp: within_caps_def js_trim_trimmed trimmed_def js_space_def)
  then show ?thesis
    unfolding validateMaskedColumns_iff [OF data] using assms by (intro exI [of _ m]) simp
qed

end
