(* ===== verification/StatementRanges.thy ===== *)
theory StatementRanges
  imports Splitter
begin

text \<open>
  The web client's \<open>workspace/statementRanges.ts\<close>: the splitter of the server written a second time, keeping the
  place of every statement, and the statement under the cursor. The turns of the two loops are the same text, so
  the position after a turn is the server's \<open>next_pos\<close>; what is pushed and what is read off differ.
\<close>

record statement_range =
  rgSql :: string
  rgStart :: nat
  rgEnd :: nat

definition pushSegment :: "string \<Rightarrow> nat \<Rightarrow> nat \<Rightarrow> statement_range list \<Rightarrow> statement_range list" where
  "pushSegment sql from till ranges =
     (let raw = slice from till sql;
          leading = length raw - length (trim_start raw);
          trimmed_text = js_trim raw in
      if length trimmed_text = 0 then ranges
      else ranges @ [\<lparr>rgSql = trimmed_text, rgStart = from + leading, rgEnd = from + leading + length trimmed_text\<rparr>])"

function range_loop :: "string \<Rightarrow> nat \<Rightarrow> nat \<Rightarrow> statement_range list \<Rightarrow> statement_range list" where
  "range_loop sql start i ranges =
     (if i < length sql then
        (if sql ! i = CHR '';'' then range_loop sql (i + 1) (i + 1) (pushSegment sql start i ranges)
         else range_loop sql start (next_pos sql i) ranges)
      else pushSegment sql start (length sql) ranges)"
  by pat_completeness auto
termination
  by (relation "measure (\<lambda>(sql, start, i, ranges). length sql - i)")
     (auto intro: diff_less_mono2 next_pos_greater)

declare range_loop.simps [simp del]

definition splitStatementRanges :: "string \<Rightarrow> statement_range list" where
  "splitStatementRanges sql = range_loop sql 0 0 []"

text \<open>The loop over the ranges: what it returns at once, or the candidate it ends with.\<close>

fun find_range :: "nat \<Rightarrow> statement_range option \<Rightarrow> statement_range list \<Rightarrow> statement_range option" where
  "find_range offset candidate [] = candidate"
| "find_range offset candidate (r # ranges) =
     (if rgStart r \<le> offset \<and> offset \<le> rgEnd r then Some r
      else if rgStart r \<le> offset then find_range offset (Some r) ranges
      else candidate)"

definition statementAtOffset :: "string \<Rightarrow> nat \<Rightarrow> string option" where
  "statementAtOffset sql offset =
     (case splitStatementRanges sql of
        [] \<Rightarrow> None
      | first # rest \<Rightarrow>
          (case find_range offset None (first # rest) of
             None \<Rightarrow> Some (rgSql first)
           | Some r \<Rightarrow> Some (rgSql r)))"

subsection \<open>The two splitters agree\<close>

text \<open>A range is in place: it is what stands there, and it has no white space at its ends.\<close>

definition in_place :: "string \<Rightarrow> statement_range \<Rightarrow> bool" where
  "in_place sql r \<longleftrightarrow> rgSql r = slice (rgStart r) (rgEnd r) sql \<and> rgSql r \<noteq> [] \<and> trimmed (rgSql r)
     \<and> rgStart r < rgEnd r \<and> rgEnd r \<le> length sql"

text \<open>Ranges in place, in order, with the semicolon between them, none after \<open>n\<close>.\<close>

definition in_order :: "string \<Rightarrow> nat \<Rightarrow> statement_range list \<Rightarrow> bool" where
  "in_order sql n ranges \<longleftrightarrow> list_all (in_place sql) ranges \<and> sorted_wrt (\<lambda>a b. rgEnd a < rgStart b) ranges
     \<and> list_all (\<lambda>r. rgEnd r < n) ranges"

lemma slice_at: "s = us @ m @ vs \<Longrightarrow> m = slice (length us) (length us + length m) s"
  by (simp add: slice_def)

lemma slice_slice: "b \<le> till - from \<Longrightarrow> slice a b (slice from till s) = slice (from + a) (from + b) s"
  by (simp add: slice_def drop_take min_def add.commute diff_diff_left)

lemma trim_place:
  assumes "s = slice from till sql" "till \<le> length sql" "from \<le> till" "js_trim s \<noteq> []"
  shows "let a = from + (length s - length (trim_start s)); b = a + length (js_trim s) in
    js_trim s = slice a b sql \<and> from \<le> a \<and> a < b \<and> b \<le> till"
proof -
  obtain us where us: "s = us @ trim_start s" using trim_start_decomp by blast
  obtain vs where vs: "trim_start s = js_trim s @ vs" using trim_end_decomp unfolding js_trim_def by blast
  have len: "length s = till - from" using assms by (simp add: slice_def)
  have lead: "length s - length (trim_start s) = length us" using us by (metis add_diff_cancel_right' length_append)
  have total: "length us + length (js_trim s) \<le> length s" using us vs by (metis add_le_mono1 le_add1 length_append add_left_mono)
  have "js_trim s = slice (length us) (length us + length (js_trim s)) s"
    by (rule slice_at [of s us "js_trim s" vs]) (use us vs in simp)
  also have "\<dots> = slice (from + length us) (from + (length us + length (js_trim s))) sql"
    unfolding assms(1) by (rule slice_slice) (use total len assms(1) in simp)
  finally show ?thesis
    unfolding lead Let_def using total len assms(3,4) by (simp add: add.assoc)
qed

lemma pushSegment_order:
  assumes "in_order sql from ranges" "from \<le> till" "till \<le> length sql"
  shows "in_order sql (Suc till) (pushSegment sql from till ranges)"
    "map rgSql (pushSegment sql from till ranges) =
       map rgSql ranges @ (if js_trim (slice from till sql) = [] then [] else [js_trim (slice from till sql)])"
proof -
  have old: "list_all (in_place sql) ranges" "sorted_wrt (\<lambda>a b. rgEnd a < rgStart b) ranges" "list_all (\<lambda>r. rgEnd r < from) ranges"
    using assms(1) by (simp_all add: in_order_def)
  show "in_order sql (Suc till) (pushSegment sql from till ranges)"
  proof (cases "js_trim (slice from till sql) = []")
    case True
    then show ?thesis
      using old assms(2) by (auto simp: pushSegment_def Let_def in_order_def list_all_iff)
  next
    case False
    note place = trim_place [OF refl assms(3,2) False, unfolded Let_def]
    let ?r = "\<lparr>rgSql = js_trim (slice from till sql),
      rgStart = from + (length (slice from till sql) - length (trim_start (slice from till sql))),
      rgEnd = from + (length (slice from till sql) - length (trim_start (slice from till sql))) + length (js_trim (slice from till sql))\<rparr>"
    have push: "pushSegment sql from till ranges = ranges @ [?r]"
      using False by (simp add: pushSegment_def Let_def)
    have "in_place sql ?r"
      using place False assms(3) trimmed_js_trim by (simp add: in_place_def)
    moreover have "\<forall>r \<in> set ranges. rgEnd r < rgStart ?r"
      using old(3) place by (auto simp: list_all_iff)
    moreover have "rgEnd ?r < Suc till" using place by simp
    ultimately show ?thesis
      using old assms(2) unfolding push in_order_def
      by (auto simp: sorted_wrt_append list_all_iff)
  qed
qed (simp add: pushSegment_def Let_def)

lemma in_order_mono: "in_order sql n ranges \<Longrightarrow> n \<le> m \<Longrightarrow> in_order sql m ranges"
  by (auto simp: in_order_def list_all_iff)

lemma range_loop_split:
  assumes "start \<le> i" "i \<le> length sql" "in_order sql start ranges"
  shows "in_order sql (Suc (length sql)) (range_loop sql start i ranges)
    \<and> map rgSql (range_loop sql start i ranges) = split_loop sql start i (map rgSql ranges)"
  using assms
proof (induction sql start i ranges rule: range_loop.induct)
  case (1 sql start i ranges)
  show ?case
  proof (cases "i < length sql")
    case False
    then have i: "i = length sql" using "1.prems"(2) by simp
    have "js_trim (slice start (length sql) sql) = js_trim (drop start sql)" by (simp add: slice_def)
    then show ?thesis
      using pushSegment_order [OF "1.prems"(3), of "length sql"] "1.prems"(1) False i
      by (subst (1 2) range_loop.simps, subst split_loop.simps) (simp add: Let_def)
  next
    case True
    show ?thesis
    proof (cases "sql ! i = CHR '';''")
      case semi: True
      note push = pushSegment_order [OF "1.prems"(3,1,2)]
      have "in_order sql (Suc i) (pushSegment sql start i ranges)"
        and m: "map rgSql (pushSegment sql start i ranges) = map rgSql ranges
          @ (if js_trim (slice start i sql) = [] then [] else [js_trim (slice start i sql)])"
        using push by simp_all
      then show ?thesis
        using "1.IH"(1) [OF True semi] True semi
        by (subst (1 2) range_loop.simps, subst split_loop.simps) (simp add: Let_def)
    next
      case False
      have "next_pos sql i \<le> length sql"
        using next_pos_len [OF True] piece_len_le [of "drop i sql"] True by simp
      then show ?thesis
        using "1.IH"(2) [OF True False] True False "1.prems" next_pos_greater [OF True]
        by (subst (1 2) range_loop.simps, subst split_loop.simps) simp
    qed
  qed
qed

lemma splitStatementRanges_order:
  "map rgSql (splitStatementRanges sql) = splitStatements sql"
  "sorted_wrt (\<lambda>a b. rgEnd a < rgStart b) (splitStatementRanges sql)"
  "list_all (\<lambda>r. rgStart r < rgEnd r) (splitStatementRanges sql)"
  "list_all (in_place sql) (splitStatementRanges sql)"
proof -
  have "in_order sql 0 []" by (simp add: in_order_def)
  from range_loop_split [OF _ _ this]
  show "map rgSql (splitStatementRanges sql) = splitStatements sql"
    "sorted_wrt (\<lambda>a b. rgEnd a < rgStart b) (splitStatementRanges sql)"
    "list_all (\<lambda>r. rgStart r < rgEnd r) (splitStatementRanges sql)"
    "list_all (in_place sql) (splitStatementRanges sql)"
    by (auto simp: splitStatementRanges_def splitStatements_def in_order_def in_place_def list_all_iff)
qed

text \<open>
  C33. The editor splits a script exactly as the server does: the texts of its ranges are the server's statements, in
  order, and every range is the place of its text in the script, the ranges apart by a semicolon at least.
\<close>

theorem splitStatementRanges_mirror:
  "map rgSql (splitStatementRanges sql) = splitStatements sql
   \<and> list_all (\<lambda>r. rgSql r = slice (rgStart r) (rgEnd r) sql \<and> rgStart r < rgEnd r \<and> rgEnd r \<le> length sql) (splitStatementRanges sql)
   \<and> sorted_wrt (\<lambda>a b. rgEnd a < rgStart b) (splitStatementRanges sql)"
  using splitStatementRanges_order by (auto simp: in_place_def list_all_iff)

subsection \<open>The statement under the cursor\<close>

lemma find_range_result:
  assumes "sorted_wrt (\<lambda>a b. rgEnd a < rgStart b) ranges" "list_all (\<lambda>r. rgStart r < rgEnd r) ranges"
  shows "find_range offset candidate ranges =
    (case filter (\<lambda>r. rgStart r \<le> offset) ranges of [] \<Rightarrow> candidate | rs \<Rightarrow> Some (last rs))"
  using assms
proof (induction offset candidate ranges rule: find_range.induct)
  case (1 offset candidate)
  then show ?case by simp
next
  case (2 offset candidate r ranges)
  have later: "\<forall>r' \<in> set ranges. rgEnd r < rgStart r'" using "2.prems"(1) by simp
  show ?case
  proof (cases "rgStart r \<le> offset")
    case False
    then have "filter (\<lambda>r. rgStart r \<le> offset) ranges = []"
      using later "2.prems"(2) by (auto simp: filter_empty_conv list_all_iff)
    with False show ?thesis by simp
  next
    case True
    show ?thesis
    proof (cases "offset \<le> rgEnd r")
      case inside: True
      then have "filter (\<lambda>r. rgStart r \<le> offset) ranges = []"
        using later by (auto simp: filter_empty_conv)
      with True inside show ?thesis by simp
    next
      case False
      then show ?thesis
        using True "2.IH" "2.prems" by (simp split: list.split)
    qed
  qed
qed

lemma snoc_not_Nil: "xs @ [x] \<noteq> []"
  by simp

lemma case_last: "ws \<noteq> [] \<Longrightarrow> (case ws of [] \<Rightarrow> a | y # ys \<Rightarrow> last (y # ys)) = last ws"
  by (cases ws) simp_all

text \<open>
  The statement under the cursor is the last one that begins at or before it, or the first one when there is none:
  with the cursor in a statement, that statement; between statements, the one before. It is a statement the server
  would run, and there is none only for a script without statements.
\<close>

theorem statementAtOffset_nearest:
  "statementAtOffset sql offset =
     (case splitStatementRanges sql of
        [] \<Rightarrow> None
      | first # rest \<Rightarrow>
          Some (rgSql (case filter (\<lambda>r. rgStart r \<le> offset) (first # rest) of [] \<Rightarrow> first | rs \<Rightarrow> last rs)))
   \<and> (statementAtOffset sql offset = None \<longleftrightarrow> splitStatements sql = [])
   \<and> (\<forall>r \<in> set (splitStatementRanges sql). rgStart r \<le> offset \<longrightarrow> offset \<le> rgEnd r \<longrightarrow> statementAtOffset sql offset = Some (rgSql r))"
proof -
  let ?rs = "splitStatementRanges sql"
  note mirror = splitStatementRanges_order [of sql]
  note found = find_range_result [OF mirror(2,3), of offset None]
  have at: "statementAtOffset sql offset = (case ?rs of [] \<Rightarrow> None
      | first # rest \<Rightarrow> Some (rgSql (case filter (\<lambda>r. rgStart r \<le> offset) (first # rest) of [] \<Rightarrow> first | rs \<Rightarrow> last rs)))"
  proof (cases ?rs)
    case (Cons first rest)
    with found show ?thesis
      unfolding statementAtOffset_def Cons list.case by (simp only: Cons) (simp split: list.split)
  qed (simp add: statementAtOffset_def)
  have none: "statementAtOffset sql offset = None \<longleftrightarrow> splitStatements sql = []"
    unfolding at mirror(1) [symmetric] by (simp split: list.split)
  have "statementAtOffset sql offset = Some (rgSql r)"
    if r: "r \<in> set ?rs" "rgStart r \<le> offset" "offset \<le> rgEnd r" for r
  proof -
    obtain xs ys where rs: "?rs = xs @ r # ys" using split_list [OF r(1)] by blast
    have "filter (\<lambda>r. rgStart r \<le> offset) ys = []"
      using mirror(2) r(3) unfolding rs by (auto simp: filter_empty_conv sorted_wrt_append)
    then have "filter (\<lambda>r. rgStart r \<le> offset) ?rs = filter (\<lambda>r. rgStart r \<le> offset) xs @ [r]"
      using r(2) by (simp add: rs)
    moreover obtain first rest where cons: "?rs = first # rest" using rs by (cases xs) simp_all
    ultimately have "filter (\<lambda>r. rgStart r \<le> offset) (first # rest) = filter (\<lambda>r. rgStart r \<le> offset) xs @ [r]" by metis
    then show ?thesis
      unfolding at cons list.case by (simp only: case_last [OF snoc_not_Nil] last_snoc)
  qed
  with at none show ?thesis by blast
qed

lemma two_ranges: "splitStatementRanges ''a;b'' = [\<lparr>rgSql = ''a'', rgStart = 0, rgEnd = 1\<rparr>, \<lparr>rgSql = ''b'', rgStart = 2, rgEnd = 3\<rparr>]"
  by (simp add: splitStatementRanges_def range_loop.simps pushSegment_def next_pos_def slice_def is_quote_def Let_def
      js_trim_def trim_start_def trim_end_def js_space_def)

theorem statementAtOffset_nearest_witness: "statementAtOffset ''a;b'' 3 = Some ''b''"
  using statementAtOffset_nearest [of "''a;b''" 3] by (simp add: two_ranges)

text \<open>MySQL's quotes are unknown to both: a semicolon in a back-quoted name cuts the statement.\<close>

lemma back_quoted_name_cut: "splitStatements ''`a;b`'' = [''`a'', ''b`'']"
  by (simp add: splitStatements_def split_loop.simps next_pos_def slice_def is_quote_def Let_def js_trim_def trim_start_def
      trim_end_def js_space_def)

end
