(* ===== verification/Workspace.thy ===== *)
theory Workspace
  imports SqlTypes "HOL-Library.Multiset"
begin

text \<open>
  The tabs of the web client: \<open>stores/workspaceStore.ts\<close> and \<open>stores/tableViewModeStore.ts\<close>. Every action of the
  store is a function on its state; the identifier that \<open>crypto.randomUUID\<close> draws for a new query tab is an
  argument. A property that may be missing, or \<open>undefined\<close>, is an option.
\<close>

datatype tab_kind =
    TableTab | QueryTab | OverviewTab | ObjectTab | ErTab | SessionsTab | PerformanceTab | AuditTab | DiffTab

datatype view_mode = RowsMode | StructureMode | ProfileMode

datatype focus_target = FocusEditor | FocusResults

datatype view_action = RefreshView | ExportView

record 'r workspace_tab =
  tabId :: string
  tabLabel :: string
  tabKind :: tab_kind
  tabConnection :: "string option"
  tabSchema :: "string option"
  tabTable :: "string option"
  tabObjectKind :: "schema_object_kind option"
  tabObjectName :: "string option"
  tabViewMode :: "view_mode option"
  tabSql :: "string option"
  tabResult :: "'r option"
  tabTransactional :: "bool option"
  tabSearch :: "string option"
  tabPresetFilter :: "row_filter option"
  tabPresetConnection :: "string option"
  tabCompareConnection :: "string option"
  tabCompareSchema :: "string option"

record cursor_position =
  cpLine :: nat
  cpColumn :: nat

record reveal_column_target =
  rvSchema :: string
  rvTable :: string
  rvColumn :: string

record 'r workspace_state =
  wsTabs :: "'r workspace_tab list"
  wsActive :: string
  wsPendingSql :: "string option"
  wsTransactionalDefault :: bool
  wsCursor :: "cursor_position option"
  wsReveal :: "reveal_column_target option"
  wsDirty :: bool
  wsFocus :: "focus_target option"
  wsViewAction :: "view_action option"
  wsModes :: "string \<Rightarrow> (string \<Rightarrow> view_mode option) option"

subsection \<open>The store of view modes\<close>

definition modes_get :: "(string \<Rightarrow> (string \<Rightarrow> view_mode option) option) \<Rightarrow> string \<Rightarrow> string \<Rightarrow> view_mode option" where
  "modes_get modes connectionId key = (case modes connectionId of None \<Rightarrow> None | Some m \<Rightarrow> m key)"

definition modes_set ::
  "string \<Rightarrow> string \<Rightarrow> view_mode \<Rightarrow> (string \<Rightarrow> (string \<Rightarrow> view_mode option) option)
     \<Rightarrow> (string \<Rightarrow> (string \<Rightarrow> view_mode option) option)" where
  "modes_set connectionId key mode modes =
     modes(connectionId \<mapsto> (case modes connectionId of None \<Rightarrow> Map.empty | Some m \<Rightarrow> m)(key \<mapsto> mode))"

subsection \<open>Identifiers and new tabs\<close>

definition table_tab_id :: "string \<Rightarrow> string \<Rightarrow> string \<Rightarrow> string" where
  "table_tab_id connectionId schema table = ''table:'' @ connectionId @ '':'' @ schema @ ''.'' @ table"

definition overview_tab_id :: "string \<Rightarrow> string \<Rightarrow> string" where
  "overview_tab_id connectionId schema = ''overview:'' @ connectionId @ '':'' @ schema"

definition er_tab_id :: "string \<Rightarrow> string \<Rightarrow> string" where
  "er_tab_id connectionId schema = ''er:'' @ connectionId @ '':'' @ schema"

definition sessions_tab_id :: "string \<Rightarrow> string" where
  "sessions_tab_id connectionId = ''sessions:'' @ connectionId"

definition performance_tab_id :: "string \<Rightarrow> string" where
  "performance_tab_id connectionId = ''performance:'' @ connectionId"

definition diff_tab_id :: "string \<Rightarrow> string \<Rightarrow> string \<Rightarrow> string \<Rightarrow> string" where
  "diff_tab_id connectionId schema compareConnectionId compareSchema =
     ''schema-diff:'' @ connectionId @ '':'' @ schema @ '':'' @ compareConnectionId @ '':'' @ compareSchema"

definition object_tab_id :: "string \<Rightarrow> string \<Rightarrow> string \<Rightarrow> string" where
  "object_tab_id connectionId schema name = ''object:'' @ connectionId @ '':'' @ schema @ ''.'' @ name"

definition audit_tab_id :: string where
  "audit_tab_id = ''audit''"

definition plain_tab :: "string \<Rightarrow> string \<Rightarrow> tab_kind \<Rightarrow> 'r workspace_tab" where
  "plain_tab i label kind =
     \<lparr>tabId = i, tabLabel = label, tabKind = kind, tabConnection = None, tabSchema = None, tabTable = None,
       tabObjectKind = None, tabObjectName = None, tabViewMode = None, tabSql = None, tabResult = None,
       tabTransactional = None, tabSearch = None, tabPresetFilter = None, tabPresetConnection = None,
       tabCompareConnection = None, tabCompareSchema = None\<rparr>"

text \<open>The text of a new query tab: a comment with the keys, then an example. The two dots in it are U+00B7.\<close>

definition INITIAL_SQL :: string where
  "INITIAL_SQL =
     ''-- Cmd/Ctrl+Enter: run statement at cursor '' @ [CHR 0xB7] @ '' Cmd/Ctrl+Shift+Enter: run all'' @ [CHR 0x0A]
       @ ''SELECT * FROM users;''"

definition initialTabs :: "'r workspace_tab list" where
  "initialTabs = [(plain_tab ''query-1'' ''Query 1'' QueryTab)\<lparr>tabSql := Some INITIAL_SQL\<rparr>]"

definition initial_workspace :: "'r workspace_state" where
  "initial_workspace =
     \<lparr>wsTabs = initialTabs, wsActive = ''query-1'', wsPendingSql = None, wsTransactionalDefault = False, wsCursor = None,
       wsReveal = None, wsDirty = False, wsFocus = None, wsViewAction = None, wsModes = Map.empty\<rparr>"

subsection \<open>Opening\<close>

definition has_tab :: "string \<Rightarrow> 'r workspace_state \<Rightarrow> bool" where
  "has_tab i st \<longleftrightarrow> list_ex (\<lambda>tab. tabId tab = i) (wsTabs st)"

definition map_tab :: "string \<Rightarrow> ('r workspace_tab \<Rightarrow> 'r workspace_tab) \<Rightarrow> 'r workspace_tab list \<Rightarrow> 'r workspace_tab list" where
  "map_tab i f tabs = map (\<lambda>tab. if tabId tab = i then f tab else tab) tabs"

definition handoff :: "string option \<Rightarrow> row_filter option \<Rightarrow> 'r workspace_tab \<Rightarrow> 'r workspace_tab" where
  "handoff search rf tab =
     (let t1 = (case search of None \<Rightarrow> tab | Some s \<Rightarrow> tab\<lparr>tabSearch := Some s\<rparr>)
      in case rf of None \<Rightarrow> t1 | Some f \<Rightarrow> t1\<lparr>tabPresetFilter := Some f\<rparr>)"

definition resolved_mode :: "view_mode option \<Rightarrow> view_mode option \<Rightarrow> view_mode" where
  "resolved_mode requested remembered =
     (case requested of Some m \<Rightarrow> m | None \<Rightarrow> (case remembered of Some m \<Rightarrow> m | None \<Rightarrow> RowsMode))"

definition openTable ::
  "string \<Rightarrow> string \<Rightarrow> string \<Rightarrow> view_mode option \<Rightarrow> string option \<Rightarrow> row_filter option
     \<Rightarrow> 'r workspace_state \<Rightarrow> 'r workspace_state" where
  "openTable connectionId schema table viewMode search rf st =
     (let i = table_tab_id connectionId schema table;
          resolvedViewMode = resolved_mode viewMode (modes_get (wsModes st) connectionId (schema @ ''.'' @ table))
      in if has_tab i st
         then st\<lparr>wsActive := i,
                 wsTabs := map_tab i (\<lambda>tab. handoff search rf (tab\<lparr>tabViewMode := Some resolvedViewMode\<rparr>)) (wsTabs st)\<rparr>
         else st\<lparr>wsTabs := wsTabs st @
                   [handoff search rf ((plain_tab i table TableTab)\<lparr>tabConnection := Some connectionId, tabSchema := Some schema,
                      tabTable := Some table, tabViewMode := Some resolvedViewMode\<rparr>)],
                 wsActive := i\<rparr>)"

text \<open>Show the tab of this identifier, or append it.\<close>

definition open_or_append :: "'r workspace_tab \<Rightarrow> 'r workspace_state \<Rightarrow> 'r workspace_state" where
  "open_or_append tab st =
     (if has_tab (tabId tab) st then st\<lparr>wsActive := tabId tab\<rparr>
      else st\<lparr>wsTabs := wsTabs st @ [tab], wsActive := tabId tab\<rparr>)"

definition openOverview :: "string \<Rightarrow> string \<Rightarrow> 'r workspace_state \<Rightarrow> 'r workspace_state" where
  "openOverview connectionId schema =
     open_or_append ((plain_tab (overview_tab_id connectionId schema) schema OverviewTab)
       \<lparr>tabConnection := Some connectionId, tabSchema := Some schema\<rparr>)"

definition openErDiagram :: "string \<Rightarrow> string \<Rightarrow> 'r workspace_state \<Rightarrow> 'r workspace_state" where
  "openErDiagram connectionId schema =
     open_or_append ((plain_tab (er_tab_id connectionId schema) (schema @ '' diagram'') ErTab)
       \<lparr>tabConnection := Some connectionId, tabSchema := Some schema\<rparr>)"

definition openSessions :: "string \<Rightarrow> 'r workspace_state \<Rightarrow> 'r workspace_state" where
  "openSessions connectionId =
     open_or_append ((plain_tab (sessions_tab_id connectionId) ''Sessions'' SessionsTab)\<lparr>tabConnection := Some connectionId\<rparr>)"

definition openPerformance :: "string \<Rightarrow> 'r workspace_state \<Rightarrow> 'r workspace_state" where
  "openPerformance connectionId =
     open_or_append ((plain_tab (performance_tab_id connectionId) ''Performance'' PerformanceTab)
       \<lparr>tabConnection := Some connectionId\<rparr>)"

definition openSchemaDiff :: "string \<Rightarrow> string \<Rightarrow> string \<Rightarrow> string \<Rightarrow> 'r workspace_state \<Rightarrow> 'r workspace_state" where
  "openSchemaDiff connectionId schema compareConnectionId compareSchema =
     open_or_append ((plain_tab (diff_tab_id connectionId schema compareConnectionId compareSchema)
         (schema @ '' vs '' @ compareSchema) DiffTab)
       \<lparr>tabConnection := Some connectionId, tabSchema := Some schema, tabCompareConnection := Some compareConnectionId,
         tabCompareSchema := Some compareSchema\<rparr>)"

definition openObject :: "string \<Rightarrow> string \<Rightarrow> schema_object_kind \<Rightarrow> string \<Rightarrow> 'r workspace_state \<Rightarrow> 'r workspace_state" where
  "openObject connectionId schema kind name =
     open_or_append ((plain_tab (object_tab_id connectionId schema name) name ObjectTab)
       \<lparr>tabConnection := Some connectionId, tabSchema := Some schema, tabObjectKind := Some kind, tabObjectName := Some name\<rparr>)"

definition openAudit :: "string option \<Rightarrow> 'r workspace_state \<Rightarrow> 'r workspace_state" where
  "openAudit connectionId st =
     (if has_tab audit_tab_id st
      then st\<lparr>wsActive := audit_tab_id,
              wsTabs := map_tab audit_tab_id (\<lambda>tab. tab\<lparr>tabPresetConnection := connectionId\<rparr>) (wsTabs st)\<rparr>
      else st\<lparr>wsTabs := wsTabs st @ [(plain_tab audit_tab_id ''Audit Log'' AuditTab)\<lparr>tabPresetConnection := connectionId\<rparr>],
              wsActive := audit_tab_id\<rparr>)"

definition revealTableColumn :: "string \<Rightarrow> string \<Rightarrow> string \<Rightarrow> string \<Rightarrow> 'r workspace_state \<Rightarrow> 'r workspace_state" where
  "revealTableColumn connectionId schema table column st =
     (let i = table_tab_id connectionId schema table in
      st\<lparr>wsReveal := Some \<lparr>rvSchema = schema, rvTable = table, rvColumn = column\<rparr>,
         wsActive := i,
         wsTabs := (if has_tab i st then map_tab i (\<lambda>tab. tab\<lparr>tabViewMode := Some StructureMode\<rparr>) (wsTabs st)
                    else wsTabs st @ [(plain_tab i table TableTab)\<lparr>tabConnection := Some connectionId, tabSchema := Some schema,
                      tabTable := Some table, tabViewMode := Some StructureMode\<rparr>])\<rparr>)"

definition newQueryTab :: "string \<Rightarrow> 'r workspace_state \<Rightarrow> 'r workspace_state" where
  "newQueryTab uuid st =
     (let queryTabCount = length (filter (\<lambda>tab. tabKind tab = QueryTab) (wsTabs st)); i = ''query-'' @ uuid
      in st\<lparr>wsTabs := wsTabs st @ [(plain_tab i (''Query '' @ show_nat (queryTabCount + 1)) QueryTab)\<lparr>tabSql := Some INITIAL_SQL\<rparr>],
            wsActive := i\<rparr>)"

subsection \<open>Closing\<close>

definition keep_indexed :: "('a \<Rightarrow> nat \<Rightarrow> bool) \<Rightarrow> 'a list \<Rightarrow> 'a list" where
  "keep_indexed keep xs = map fst (filter (\<lambda>(x, i). keep x i) (zip xs [0 ..< length xs]))"

definition active_after :: "'r workspace_tab list \<Rightarrow> string \<Rightarrow> string" where
  "active_after tabs otherwise = (if tabs = [] then otherwise else tabId (last tabs))"

definition survivors :: "'r workspace_tab list \<Rightarrow> ('r workspace_tab \<Rightarrow> nat \<Rightarrow> bool) \<Rightarrow> 'r workspace_tab list" where
  "survivors tabs keep =
     (let kept = keep_indexed keep tabs in
      if list_ex (\<lambda>tab. tabKind tab = QueryTab) kept then kept
      else case find (\<lambda>tab. tabKind tab = QueryTab) tabs of
             None \<Rightarrow> kept
           | Some firstQuery \<Rightarrow> keep_indexed (\<lambda>tab i. keep tab i \<or> tabId tab = tabId firstQuery) tabs)"

definition applyClose ::
  "'r workspace_tab list \<Rightarrow> string \<Rightarrow> ('r workspace_tab \<Rightarrow> nat \<Rightarrow> bool) \<Rightarrow> 'r workspace_tab list \<times> string" where
  "applyClose tabs activeTabId keep =
     (let left_open = survivors tabs keep
      in (left_open, if list_ex (\<lambda>tab. tabId tab = activeTabId) left_open then activeTabId
                     else active_after left_open activeTabId))"

definition close_to :: "('r workspace_tab \<Rightarrow> nat \<Rightarrow> bool) \<Rightarrow> 'r workspace_state \<Rightarrow> 'r workspace_state" where
  "close_to keep st =
     (let (tabs, active) = applyClose (wsTabs st) (wsActive st) keep in st\<lparr>wsTabs := tabs, wsActive := active\<rparr>)"

text \<open>\<open>closeTab\<close>, and the same step in \<open>closeTableTab\<close>.\<close>

definition closeTab :: "string \<Rightarrow> 'r workspace_state \<Rightarrow> 'r workspace_state" where
  "closeTab i st =
     (let tabs = filter (\<lambda>tab. tabId tab \<noteq> i) (wsTabs st)
      in st\<lparr>wsTabs := tabs, wsActive := (if i = wsActive st then active_after tabs i else wsActive st)\<rparr>)"

definition closeTableTab :: "string \<Rightarrow> string \<Rightarrow> string \<Rightarrow> 'r workspace_state \<Rightarrow> 'r workspace_state" where
  "closeTableTab connectionId schema table st =
     (let i = table_tab_id connectionId schema table in if \<not> has_tab i st then st else closeTab i st)"

definition tab_index :: "string \<Rightarrow> 'r workspace_state \<Rightarrow> nat option" where
  "tab_index i st = map_option fst (find (\<lambda>(k, tab). tabId tab = i) (enumerate 0 (wsTabs st)))"

definition closeOtherTabs :: "string \<Rightarrow> 'r workspace_state \<Rightarrow> 'r workspace_state" where
  "closeOtherTabs i = close_to (\<lambda>tab k. tabId tab = i)"

definition closeTabsToLeft :: "string \<Rightarrow> 'r workspace_state \<Rightarrow> 'r workspace_state" where
  "closeTabsToLeft i st = (case tab_index i st of None \<Rightarrow> st | Some idx \<Rightarrow> close_to (\<lambda>tab k. k \<ge> idx) st)"

definition closeTabsToRight :: "string \<Rightarrow> 'r workspace_state \<Rightarrow> 'r workspace_state" where
  "closeTabsToRight i st = (case tab_index i st of None \<Rightarrow> st | Some idx \<Rightarrow> close_to (\<lambda>tab k. k \<le> idx) st)"

definition closeAllTableTabs :: "'r workspace_state \<Rightarrow> 'r workspace_state" where
  "closeAllTableTabs = close_to (\<lambda>tab k. tabKind tab = QueryTab)"

subsection \<open>The rest\<close>

definition reorderTab :: "string \<Rightarrow> string \<Rightarrow> 'r workspace_state \<Rightarrow> 'r workspace_state" where
  "reorderTab draggedId targetId st =
     (if draggedId = targetId then st
      else case (tab_index draggedId st, tab_index targetId st) of
             (Some from, Some till) \<Rightarrow>
               (let rest = take from (wsTabs st) @ drop (Suc from) (wsTabs st); moved = wsTabs st ! from
                in st\<lparr>wsTabs := take till rest @ [moved] @ drop till rest\<rparr>)
           | _ \<Rightarrow> st)"

definition update_tab :: "string \<Rightarrow> ('r workspace_tab \<Rightarrow> 'r workspace_tab) \<Rightarrow> 'r workspace_state \<Rightarrow> 'r workspace_state" where
  "update_tab i f st = st\<lparr>wsTabs := map_tab i f (wsTabs st)\<rparr>"

definition loadQuery :: "string \<Rightarrow> 'r workspace_state \<Rightarrow> 'r workspace_state" where
  "loadQuery sql st =
     (let firstQuery = find (\<lambda>tab. tabKind tab = QueryTab) (wsTabs st);
          target = (case find (\<lambda>tab. tabId tab = wsActive st) (wsTabs st) of
              Some active \<Rightarrow> if tabKind active = QueryTab then Some active else firstQuery
            | None \<Rightarrow> firstQuery)
      in st\<lparr>wsPendingSql := Some sql, wsActive := (case target of None \<Rightarrow> wsActive st | Some t \<Rightarrow> tabId t)\<rparr>)"

datatype 'r workspace_action =
    OpenTable string string string "view_mode option" "string option" "row_filter option"
  | OpenOverview string string
  | OpenErDiagram string string
  | OpenSessions string
  | OpenPerformance string
  | OpenSchemaDiff string string string string
  | OpenObject string string schema_object_kind string
  | OpenAudit "string option"
  | RevealTableColumn string string string string
  | NewQueryTab string
  | CloseTab string
  | CloseTableTab string string string
  | CloseOtherTabs string
  | CloseTabsToLeft string
  | CloseTabsToRight string
  | CloseAllTableTabs
  | ReorderTab string string
  | SelectTab string
  | ClearAuditPreset string
  | ClearTabSearch string
  | ClearTabFilter string
  | SetTabViewMode string view_mode
  | SetTabSql string string
  | SetTabResult string "'r option"
  | SetTabTransactional string bool
  | LoadQuery string
  | ClearPendingQuerySql
  | SetTransactionalDefault bool
  | SetCursorPosition cursor_position
  | ClearRevealColumn
  | RequestFocus "focus_target option"
  | RequestViewAction "view_action option"
  | SetActiveTabDirty bool
  | RememberViewMode string string view_mode

fun workspace_step :: "'r workspace_action \<Rightarrow> 'r workspace_state \<Rightarrow> 'r workspace_state" where
  "workspace_step (OpenTable c s t m search rf) st = openTable c s t m search rf st"
| "workspace_step (OpenOverview c s) st = openOverview c s st"
| "workspace_step (OpenErDiagram c s) st = openErDiagram c s st"
| "workspace_step (OpenSessions c) st = openSessions c st"
| "workspace_step (OpenPerformance c) st = openPerformance c st"
| "workspace_step (OpenSchemaDiff c s c' s') st = openSchemaDiff c s c' s' st"
| "workspace_step (OpenObject c s k n) st = openObject c s k n st"
| "workspace_step (OpenAudit c) st = openAudit c st"
| "workspace_step (RevealTableColumn c s t col) st = revealTableColumn c s t col st"
| "workspace_step (NewQueryTab uuid) st = newQueryTab uuid st"
| "workspace_step (CloseTab i) st = closeTab i st"
| "workspace_step (CloseTableTab c s t) st = closeTableTab c s t st"
| "workspace_step (CloseOtherTabs i) st = closeOtherTabs i st"
| "workspace_step (CloseTabsToLeft i) st = closeTabsToLeft i st"
| "workspace_step (CloseTabsToRight i) st = closeTabsToRight i st"
| "workspace_step CloseAllTableTabs st = closeAllTableTabs st"
| "workspace_step (ReorderTab d t) st = reorderTab d t st"
| "workspace_step (SelectTab i) st = st\<lparr>wsActive := i\<rparr>"
| "workspace_step (ClearAuditPreset i) st = update_tab i (\<lambda>tab. tab\<lparr>tabPresetConnection := None\<rparr>) st"
| "workspace_step (ClearTabSearch i) st = update_tab i (\<lambda>tab. tab\<lparr>tabSearch := None\<rparr>) st"
| "workspace_step (ClearTabFilter i) st = update_tab i (\<lambda>tab. tab\<lparr>tabPresetFilter := None\<rparr>) st"
| "workspace_step (SetTabViewMode i m) st = update_tab i (\<lambda>tab. tab\<lparr>tabViewMode := Some m\<rparr>) st"
| "workspace_step (SetTabSql i sql) st = update_tab i (\<lambda>tab. tab\<lparr>tabSql := Some sql\<rparr>) st"
| "workspace_step (SetTabResult i r) st = update_tab i (\<lambda>tab. tab\<lparr>tabResult := r\<rparr>) st"
| "workspace_step (SetTabTransactional i b) st = update_tab i (\<lambda>tab. tab\<lparr>tabTransactional := Some b\<rparr>) st"
| "workspace_step (LoadQuery sql) st = loadQuery sql st"
| "workspace_step ClearPendingQuerySql st = st\<lparr>wsPendingSql := None\<rparr>"
| "workspace_step (SetTransactionalDefault b) st = st\<lparr>wsTransactionalDefault := b\<rparr>"
| "workspace_step (SetCursorPosition p) st = st\<lparr>wsCursor := Some p\<rparr>"
| "workspace_step ClearRevealColumn st = st\<lparr>wsReveal := None\<rparr>"
| "workspace_step (RequestFocus t) st = st\<lparr>wsFocus := t\<rparr>"
| "workspace_step (RequestViewAction a) st = st\<lparr>wsViewAction := a\<rparr>"
| "workspace_step (SetActiveTabDirty b) st = st\<lparr>wsDirty := b\<rparr>"
| "workspace_step (RememberViewMode c k m) st = st\<lparr>wsModes := modes_set c k m (wsModes st)\<rparr>"

subsection \<open>What holds of every workspace\<close>

text \<open>A tab's identifier says what the tab shows, and a tab of each kind has what its view reads.\<close>

definition identified :: "'r workspace_tab \<Rightarrow> bool" where
  "identified tab \<longleftrightarrow>
     (case tabKind tab of
        TableTab \<Rightarrow> (case (tabConnection tab, tabSchema tab, tabTable tab) of
            (Some c, Some s, Some t) \<Rightarrow> tabId tab = table_tab_id c s t \<and> tabViewMode tab \<noteq> None | _ \<Rightarrow> False)
      | QueryTab \<Rightarrow> starts_with ''query-'' (tabId tab) \<and> tabSql tab \<noteq> None
      | OverviewTab \<Rightarrow> (case (tabConnection tab, tabSchema tab) of
            (Some c, Some s) \<Rightarrow> tabId tab = overview_tab_id c s | _ \<Rightarrow> False)
      | ObjectTab \<Rightarrow> (case (tabConnection tab, tabSchema tab, tabObjectName tab, tabObjectKind tab) of
            (Some c, Some s, Some n, Some k) \<Rightarrow> tabId tab = object_tab_id c s n | _ \<Rightarrow> False)
      | ErTab \<Rightarrow> (case (tabConnection tab, tabSchema tab) of (Some c, Some s) \<Rightarrow> tabId tab = er_tab_id c s | _ \<Rightarrow> False)
      | SessionsTab \<Rightarrow> (case tabConnection tab of Some c \<Rightarrow> tabId tab = sessions_tab_id c | _ \<Rightarrow> False)
      | PerformanceTab \<Rightarrow> (case tabConnection tab of Some c \<Rightarrow> tabId tab = performance_tab_id c | _ \<Rightarrow> False)
      | AuditTab \<Rightarrow> tabId tab = audit_tab_id
      | DiffTab \<Rightarrow> (case (tabConnection tab, tabSchema tab, tabCompareConnection tab, tabCompareSchema tab) of
            (Some c, Some s, Some c', Some s') \<Rightarrow> tabId tab = diff_tab_id c s c' s' | _ \<Rightarrow> False))"

definition tab_ids :: "'r workspace_state \<Rightarrow> string list" where
  "tab_ids st = map tabId (wsTabs st)"

definition workspace_ok :: "'r workspace_state \<Rightarrow> bool" where
  "workspace_ok st \<longleftrightarrow> distinct (tab_ids st) \<and> (wsTabs st \<noteq> [] \<longrightarrow> wsActive st \<in> set (tab_ids st))
     \<and> list_all identified (wsTabs st)"

text \<open>What the views do: they select open tabs, and the identifiers drawn for query tabs are new.\<close>

definition enabled :: "'r workspace_action \<Rightarrow> 'r workspace_state \<Rightarrow> bool" where
  "enabled a st \<longleftrightarrow>
     (case a of NewQueryTab uuid \<Rightarrow> ''query-'' @ uuid \<notin> set (tab_ids st) | SelectTab i \<Rightarrow> i \<in> set (tab_ids st) | _ \<Rightarrow> True)"

inductive workspace_reachable :: "'r workspace_state \<Rightarrow> bool" where
  reach_initial: "workspace_reachable initial_workspace"
| reach_step: "workspace_reachable st \<Longrightarrow> enabled a st \<Longrightarrow> workspace_reachable (workspace_step a st)"

lemma has_tab_iff: "has_tab i st \<longleftrightarrow> i \<in> set (tab_ids st)"
  by (auto simp: has_tab_def tab_ids_def list_ex_iff)

lemma map_tab_ids: "(\<And>tab. tabId (f tab) = tabId tab) \<Longrightarrow> map tabId (map_tab i f tabs) = map tabId tabs"
  by (simp add: map_tab_def)

lemma handoff_simps [simp]:
  "tabId (handoff search rf tab) = tabId tab" "tabKind (handoff search rf tab) = tabKind tab"
  "tabConnection (handoff search rf tab) = tabConnection tab" "tabSchema (handoff search rf tab) = tabSchema tab"
  "tabTable (handoff search rf tab) = tabTable tab" "tabViewMode (handoff search rf tab) = tabViewMode tab"
  "tabSql (handoff search rf tab) = tabSql tab" "tabObjectKind (handoff search rf tab) = tabObjectKind tab"
  "tabObjectName (handoff search rf tab) = tabObjectName tab" "tabCompareSchema (handoff search rf tab) = tabCompareSchema tab"
  "tabCompareConnection (handoff search rf tab) = tabCompareConnection tab"
  by (simp_all add: handoff_def Let_def split: option.split)

text \<open>An update that leaves what identifies a tab.\<close>

definition keeps_identity :: "('r workspace_tab \<Rightarrow> 'r workspace_tab) \<Rightarrow> bool" where
  "keeps_identity f \<longleftrightarrow> (\<forall>tab. tabId (f tab) = tabId tab \<and> tabKind (f tab) = tabKind tab \<and> (identified tab \<longrightarrow> identified (f tab)))"

lemma ok_update:
  assumes "workspace_ok st" "keeps_identity f"
  shows "workspace_ok (st\<lparr>wsTabs := map_tab i f (wsTabs st)\<rparr>)"
proof -
  have ids: "map tabId (map_tab i f (wsTabs st)) = map tabId (wsTabs st)"
    using assms(2) by (intro map_tab_ids) (simp add: keeps_identity_def)
  moreover have "list_all identified (map_tab i f (wsTabs st))"
    using assms unfolding workspace_ok_def keeps_identity_def map_tab_def by (auto simp: list_all_iff)
  ultimately show ?thesis
    using assms(1) by (simp add: workspace_ok_def tab_ids_def) (simp add: map_tab_def)
qed

lemma ok_select: "workspace_ok st \<Longrightarrow> i \<in> set (tab_ids st) \<Longrightarrow> workspace_ok (st\<lparr>wsActive := i\<rparr>)"
  by (simp add: workspace_ok_def tab_ids_def)

lemma ok_append:
  "workspace_ok st \<Longrightarrow> tabId tab \<notin> set (tab_ids st) \<Longrightarrow> identified tab \<Longrightarrow>
   workspace_ok (st\<lparr>wsTabs := wsTabs st @ [tab], wsActive := tabId tab\<rparr>)"
  by (simp add: workspace_ok_def tab_ids_def)

lemma ok_open_or_append: "workspace_ok st \<Longrightarrow> identified tab \<Longrightarrow> workspace_ok (open_or_append tab st)"
  by (simp add: open_or_append_def has_tab_iff ok_select ok_append)

text \<open>Closing keeps some of the tabs, in their order.\<close>

lemma ok_nths:
  assumes "workspace_ok st" "tabs = nths (wsTabs st) N" "tabs \<noteq> [] \<Longrightarrow> active \<in> tabId ` set tabs"
  shows "workspace_ok (st\<lparr>wsTabs := tabs, wsActive := active\<rparr>)"
proof -
  have "map tabId tabs = nths (map tabId (wsTabs st)) N" by (simp add: assms(2) nths_map)
  then have "distinct (map tabId tabs)" using assms(1) by (simp add: workspace_ok_def tab_ids_def)
  moreover have "list_all identified tabs"
    using assms(1) by (auto simp: assms(2) workspace_ok_def list_all_iff dest: in_set_nthsD)
  ultimately show ?thesis using assms(3) by (simp add: workspace_ok_def tab_ids_def)
qed

lemma keep_indexed_nths: "keep_indexed keep xs = nths xs {i. i < length xs \<and> keep (xs ! i) i}"
proof -
  have "filter (\<lambda>(x, i). keep x i) (zip xs [0 ..< length xs])
      = filter (\<lambda>p. snd p \<in> {i. i < length xs \<and> keep (xs ! i) i}) (zip xs [0 ..< length xs])"
    by (rule filter_cong) (auto simp: set_zip)
  then show ?thesis by (simp add: keep_indexed_def nths_def)
qed

lemma filter_nths: "\<exists>N. filter P xs = nths xs N"
proof -
  have "filter P xs = keep_indexed (\<lambda>x i. P x) xs"
  proof (induction xs rule: rev_induct)
    case (snoc x xs)
    then show ?case by (simp add: keep_indexed_def)
  qed (simp add: keep_indexed_def)
  then show ?thesis by (auto simp: keep_indexed_nths)
qed

lemma active_after_in: "tabs \<noteq> [] \<Longrightarrow> active_after tabs i \<in> tabId ` set tabs"
  by (simp add: active_after_def)

lemma survivors_nths: "\<exists>N. survivors tabs keep = nths tabs N"
  by (auto simp: survivors_def Let_def keep_indexed_nths split: option.split)

lemma ok_close_to:
  assumes "workspace_ok st"
  shows "workspace_ok (close_to keep st)"
proof -
  let ?s = "survivors (wsTabs st) keep"
  obtain N where "?s = nths (wsTabs st) N" using survivors_nths by blast
  moreover have "(if list_ex (\<lambda>tab. tabId tab = wsActive st) ?s then wsActive st else active_after ?s (wsActive st)) \<in> tabId ` set ?s"
    if "?s \<noteq> []"
    using active_after_in [OF that] by (auto simp: list_ex_iff intro: rev_image_eqI)
  ultimately show ?thesis
    unfolding close_to_def applyClose_def Let_def prod.case by (rule ok_nths [OF assms])
qed

lemma ok_closeTab:
  assumes "workspace_ok st"
  shows "workspace_ok (closeTab i st)"
proof -
  let ?tabs = "filter (\<lambda>tab. tabId tab \<noteq> i) (wsTabs st)"
  have "(if i = wsActive st then active_after ?tabs i else wsActive st) \<in> tabId ` set ?tabs" if "?tabs \<noteq> []"
  proof (cases "i = wsActive st")
    case True
    then show ?thesis using active_after_in [OF that] by simp
  next
    case False
    have "wsTabs st \<noteq> []" using that by auto
    then show ?thesis using False assms by (auto simp: workspace_ok_def tab_ids_def)
  qed
  moreover obtain N where "?tabs = nths (wsTabs st) N" using filter_nths by blast
  ultimately show ?thesis
    unfolding closeTab_def Let_def by (intro ok_nths [OF assms]) simp_all
qed

lemma tab_index_Some: "tab_index i st = Some k \<Longrightarrow> k < length (wsTabs st) \<and> tabId (wsTabs st ! k) = i"
  by (auto simp: tab_index_def find_Some_iff enumerate_eq_zip)

lemma moved_mset:
  assumes "k < length xs"
  shows "mset (take j (take k xs @ drop (Suc k) xs) @ [xs ! k] @ drop j (take k xs @ drop (Suc k) xs)) = mset xs"
proof -
  let ?rest = "take k xs @ drop (Suc k) xs"
  have "mset xs = mset (take k xs @ xs ! k # drop (Suc k) xs)" using assms by (simp add: id_take_nth_drop [symmetric])
  also have "\<dots> = add_mset (xs ! k) (mset (take j ?rest @ drop j ?rest))" by (simp only: append_take_drop_id) simp
  finally show ?thesis by simp
qed

lemma ok_reorder: "workspace_ok st \<Longrightarrow> workspace_ok (reorderTab d t st)"
proof -
  assume ok: "workspace_ok st"
  have perm: "workspace_ok (st\<lparr>wsTabs := tabs\<rparr>)" if "mset tabs = mset (wsTabs st)" for tabs
  proof -
    have "mset (map tabId tabs) = mset (map tabId (wsTabs st))" "set tabs = set (wsTabs st)" "tabs = [] \<longleftrightarrow> wsTabs st = []"
      using that by (simp_all, metis set_mset_mset, metis mset_zero_iff)
    moreover from this have "distinct (map tabId tabs)"
      using ok mset_eq_imp_distinct_iff unfolding workspace_ok_def tab_ids_def by blast
    ultimately show ?thesis using ok by (simp add: workspace_ok_def tab_ids_def list_all_iff)
  qed
  show ?thesis
  proof (cases "d = t \<or> tab_index d st = None \<or> tab_index t st = None")
    case True
    then show ?thesis using ok by (auto simp: reorderTab_def split: option.split)
  next
    case False
    then obtain k j where kj: "tab_index d st = Some k" "tab_index t st = Some j" by auto
    then show ?thesis
      using False perm [OF moved_mset [of k "wsTabs st" j]] tab_index_Some [OF kj(1)] by (simp add: reorderTab_def Let_def)
  qed
qed

lemma ok_load: "workspace_ok st \<Longrightarrow> workspace_ok (loadQuery sql st)"
proof -
  assume ok: "workspace_ok st"
  have "(case target of None \<Rightarrow> wsActive st | Some t \<Rightarrow> tabId t) \<in> set (tab_ids st)"
    if "wsTabs st \<noteq> []" "\<And>t. target = Some t \<Longrightarrow> t \<in> set (wsTabs st)" for target
    using that ok by (auto simp: workspace_ok_def tab_ids_def split: option.split)
  moreover have "find P xs = Some x \<Longrightarrow> x \<in> set xs" for P and xs :: "'a workspace_tab list" and x
    by (auto simp: find_Some_iff)
  ultimately show ?thesis
    using ok unfolding loadQuery_def Let_def workspace_ok_def tab_ids_def
    by (auto split: option.splits if_splits)
qed

lemma identified_open [simp]:
  "identified ((plain_tab (table_tab_id c s t) l TableTab)\<lparr>tabConnection := Some c, tabSchema := Some s, tabTable := Some t,
     tabViewMode := Some m\<rparr>)"
  "identified ((plain_tab (overview_tab_id c s) l OverviewTab)\<lparr>tabConnection := Some c, tabSchema := Some s\<rparr>)"
  "identified ((plain_tab (er_tab_id c s) l ErTab)\<lparr>tabConnection := Some c, tabSchema := Some s\<rparr>)"
  "identified ((plain_tab (sessions_tab_id c) l SessionsTab)\<lparr>tabConnection := Some c\<rparr>)"
  "identified ((plain_tab (performance_tab_id c) l PerformanceTab)\<lparr>tabConnection := Some c\<rparr>)"
  "identified ((plain_tab (diff_tab_id c s c' s') l DiffTab)\<lparr>tabConnection := Some c, tabSchema := Some s,
     tabCompareConnection := Some c', tabCompareSchema := Some s'\<rparr>)"
  "identified ((plain_tab (object_tab_id c s n) l ObjectTab)\<lparr>tabConnection := Some c, tabSchema := Some s,
     tabObjectKind := Some k, tabObjectName := Some n\<rparr>)"
  "identified ((plain_tab audit_tab_id l AuditTab)\<lparr>tabPresetConnection := p\<rparr>)"
  "identified ((plain_tab (''query-'' @ uuid) l QueryTab)\<lparr>tabSql := Some sql\<rparr>)"
  by (simp_all add: identified_def plain_tab_def starts_with_def)

lemma plain_tab_id [simp]: "tabId (plain_tab i l k) = i" "tabKind (plain_tab i l k) = k"
  by (simp_all add: plain_tab_def)

lemma identified_updates:
  "identified tab \<Longrightarrow> identified (tab\<lparr>tabViewMode := Some m\<rparr>)" "identified (tab\<lparr>tabPresetConnection := p\<rparr>) = identified tab"
  "identified tab \<Longrightarrow> identified (tab\<lparr>tabSql := Some sql\<rparr>)" "identified (tab\<lparr>tabSearch := q\<rparr>) = identified tab"
  "identified (tab\<lparr>tabPresetFilter := rf\<rparr>) = identified tab" "identified (tab\<lparr>tabResult := r\<rparr>) = identified tab"
  "identified (tab\<lparr>tabTransactional := b\<rparr>) = identified tab"
  by (auto simp: identified_def split: tab_kind.splits option.splits)

lemma identified_handoff [simp]: "identified (handoff search rf tab) = identified tab"
  by (simp add: handoff_def identified_updates Let_def split: option.split)

lemma keeps_identity_updates [simp]:
  "keeps_identity (\<lambda>tab. handoff search rf (tab\<lparr>tabViewMode := Some m\<rparr>))"
  "keeps_identity (\<lambda>tab. tab\<lparr>tabViewMode := Some m\<rparr>)" "keeps_identity (\<lambda>tab. tab\<lparr>tabPresetConnection := p\<rparr>)"
  "keeps_identity (\<lambda>tab. tab\<lparr>tabSql := Some sql\<rparr>)" "keeps_identity (\<lambda>tab. tab\<lparr>tabSearch := q\<rparr>)"
  "keeps_identity (\<lambda>tab. tab\<lparr>tabPresetFilter := f\<rparr>)" "keeps_identity (\<lambda>tab. tab\<lparr>tabResult := r\<rparr>)"
  "keeps_identity (\<lambda>tab. tab\<lparr>tabTransactional := b\<rparr>)"
  by (simp_all add: keeps_identity_def identified_updates)

text \<open>Show a tab that is open and update it, or append it.\<close>

lemma ok_show_or_append:
  assumes "workspace_ok st" "keeps_identity f" "identified tab" "tabId tab = i"
  shows "workspace_ok (if has_tab i st then st\<lparr>wsActive := i, wsTabs := map_tab i f (wsTabs st)\<rparr>
           else st\<lparr>wsTabs := wsTabs st @ [tab], wsActive := i\<rparr>)"
proof (cases "has_tab i st")
  case True
  then have "workspace_ok (st\<lparr>wsActive := i\<rparr>)" using ok_select [OF assms(1)] by (simp add: has_tab_iff)
  from ok_update [OF this assms(2), of i] show ?thesis using True by simp
next
  case False
  then show ?thesis using ok_append [OF assms(1) _ assms(3)] assms(4) by (simp add: has_tab_iff)
qed

lemma ok_openTable: "workspace_ok st \<Longrightarrow> workspace_ok (openTable c s t m search rf st)"
  unfolding openTable_def Let_def by (rule ok_show_or_append) simp_all

lemma ok_openAudit: "workspace_ok st \<Longrightarrow> workspace_ok (openAudit p st)"
  unfolding openAudit_def by (rule ok_show_or_append) simp_all

lemma ok_reveal: "workspace_ok st \<Longrightarrow> workspace_ok (revealTableColumn c s t col st)"
proof -
  assume ok: "workspace_ok st"
  have more: "workspace_ok (st\<lparr>wsReveal := r\<rparr>) = workspace_ok st" for st :: "'a workspace_state" and r
    by (simp add: workspace_ok_def tab_ids_def)
  let ?tab = "(plain_tab (table_tab_id c s t) t TableTab)\<lparr>tabConnection := Some c, tabSchema := Some s, tabTable := Some t,
    tabViewMode := Some StructureMode\<rparr>"
  have "workspace_ok (st\<lparr>wsReveal := Some \<lparr>rvSchema = s, rvTable = t, rvColumn = col\<rparr>\<rparr>)" using ok by (simp add: more)
  from ok_show_or_append [OF this keeps_identity_updates(2), of ?tab "table_tab_id c s t" StructureMode]
  show ?thesis
    by (simp add: revealTableColumn_def Let_def has_tab_def workspace_ok_def tab_ids_def split: if_splits)
qed

lemma enabled_select: "enabled (SelectTab i) st \<Longrightarrow> i \<in> set (tab_ids st)"
  by (simp add: enabled_def)

lemma ok_newQueryTab: "workspace_ok st \<Longrightarrow> enabled (NewQueryTab uuid) st \<Longrightarrow> workspace_ok (newQueryTab uuid st)"
  by (simp add: workspace_ok_def tab_ids_def enabled_def newQueryTab_def Let_def identified_def plain_tab_def starts_with_def)

lemma ok_step: "workspace_ok st \<Longrightarrow> enabled a st \<Longrightarrow> workspace_ok (workspace_step a st)"
proof -
  assume ok: "workspace_ok st" and en: "enabled a st"
  have rest: "workspace_ok (st\<lparr>wsPendingSql := q\<rparr>)" "workspace_ok (st\<lparr>wsTransactionalDefault := b\<rparr>)" "workspace_ok (st\<lparr>wsCursor := p\<rparr>)"
    "workspace_ok (st\<lparr>wsReveal := r\<rparr>)" "workspace_ok (st\<lparr>wsFocus := f\<rparr>)" "workspace_ok (st\<lparr>wsViewAction := v\<rparr>)"
    "workspace_ok (st\<lparr>wsDirty := b\<rparr>)" "workspace_ok (st\<lparr>wsModes := md\<rparr>)" for q b p r f v md
    using ok by (simp_all add: workspace_ok_def tab_ids_def)
  show ?thesis
    using ok en
    by (cases a)
      (auto simp: rest ok_newQueryTab ok_openTable ok_openAudit ok_reveal ok_closeTab ok_close_to ok_reorder ok_load ok_select
        openOverview_def openErDiagram_def openSessions_def openPerformance_def openSchemaDiff_def openObject_def ok_open_or_append
        Let_def closeTableTab_def closeOtherTabs_def closeTabsToLeft_def closeTabsToRight_def closeAllTableTabs_def
        update_tab_def ok_update split: option.split dest: enabled_select)
qed

lemma reachable_ok: "workspace_reachable st \<Longrightarrow> workspace_ok st"
proof (induction rule: workspace_reachable.induct)
  case reach_initial
  show ?case
    by (simp add: workspace_ok_def tab_ids_def initial_workspace_def initialTabs_def identified_def plain_tab_def starts_with_def)
qed (rule ok_step)

subsection \<open>A query tab remains\<close>

definition has_query :: "'r workspace_state \<Rightarrow> bool" where
  "has_query st \<longleftrightarrow> list_ex (\<lambda>tab. tabKind tab = QueryTab) (wsTabs st)"

text \<open>What the tab bar asks before it closes a tab (\<open>workspace/WorkspaceTabBar.tsx\<close>).\<close>

definition closable :: "string \<Rightarrow> 'r workspace_state \<Rightarrow> bool" where
  "closable i st \<longleftrightarrow> list_all (\<lambda>tab. tabId tab = i \<longrightarrow> tabKind tab \<noteq> QueryTab) (wsTabs st)
     \<or> length (filter (\<lambda>tab. tabKind tab = QueryTab) (wsTabs st)) > 1"

lemma has_query_kinds: "has_query st \<longleftrightarrow> QueryTab \<in> tabKind ` set (wsTabs st)"
  by (force simp: has_query_def list_ex_iff)

lemma query_update: "keeps_identity f \<Longrightarrow> tabKind ` set (map_tab i f tabs) = tabKind ` set tabs"
proof -
  assume "keeps_identity f"
  then have "tabKind \<circ> (\<lambda>tab. if tabId tab = i then f tab else tab) = tabKind" by (auto simp: keeps_identity_def)
  then show ?thesis unfolding map_tab_def set_map image_comp by simp
qed

lemma in_keep_indexed: "x \<in> set (keep_indexed keep xs) \<longleftrightarrow> (\<exists>k < length xs. x = xs ! k \<and> keep x k)"
  by (auto simp: keep_indexed_nths set_nths)

lemma query_close_to: "has_query st \<Longrightarrow> has_query (close_to keep st)"
proof -
  assume "has_query st"
  then obtain q where q: "find (\<lambda>tab. tabKind tab = QueryTab) (wsTabs st) = Some q"
    by (cases "find (\<lambda>tab. tabKind tab = QueryTab) (wsTabs st)") (auto simp: has_query_def list_ex_iff find_None_iff)
  then have "tabKind q = QueryTab" "q \<in> set (wsTabs st)" by (auto simp: find_Some_iff)
  then have "\<exists>tab \<in> set (survivors (wsTabs st) keep). tabKind tab = QueryTab"
    using q by (auto simp: survivors_def Let_def list_ex_iff in_keep_indexed in_set_conv_nth [of q] intro!: bexI [of _ q])
  then show ?thesis by (simp add: has_query_def close_to_def applyClose_def Let_def list_ex_iff)
qed

lemma query_closeTab:
  assumes "workspace_ok st" "has_query st" "closable i st"
  shows "has_query (closeTab i st)"
proof (cases "list_all (\<lambda>tab. tabId tab = i \<longrightarrow> tabKind tab \<noteq> QueryTab) (wsTabs st)")
  case True
  then show ?thesis using assms(2) by (auto simp: closeTab_def has_query_def Let_def list_ex_iff list_all_iff)
next
  case False
  let ?q = "filter (\<lambda>tab. tabKind tab = QueryTab) (wsTabs st)"
  have "length ?q > 1" using False assms(3) unfolding closable_def by blast
  then obtain x y r where q: "?q = x # y # r" by (cases ?q; cases "tl ?q") auto
  have "distinct (map tabId ?q)" using assms(1) by (simp add: workspace_ok_def tab_ids_def distinct_map_filter)
  then have "tabId x \<noteq> i \<or> tabId y \<noteq> i" by (auto simp: q)
  moreover have "x \<in> set ?q" "y \<in> set ?q" by (simp_all only: q list.set_intros)
  ultimately show ?thesis by (auto simp: closeTab_def has_query_def Let_def list_ex_iff)
qed

lemma query_not_table: "identified tab \<Longrightarrow> tabKind tab = QueryTab \<Longrightarrow> tabId tab \<noteq> table_tab_id c s t"
  by (auto simp: identified_def table_tab_id_def starts_with_def)

lemma query_closeTableTab:
  assumes "workspace_ok st" "has_query st"
  shows "has_query (closeTableTab c s t st)"
proof -
  obtain q where "q \<in> set (wsTabs st)" "tabKind q = QueryTab" using assms(2) by (auto simp: has_query_def list_ex_iff)
  moreover from this have "tabId q \<noteq> table_tab_id c s t"
    using assms(1) by (intro query_not_table) (auto simp: workspace_ok_def list_all_iff)
  ultimately show ?thesis by (auto simp: closeTableTab_def Let_def closeTab_def has_query_def list_ex_iff)
qed

lemma query_reorder: "has_query st \<Longrightarrow> has_query (reorderTab d t st)"
proof -
  assume q: "has_query st"
  have "set (take j (take k (wsTabs st) @ drop (Suc k) (wsTabs st)) @ [wsTabs st ! k]
      @ drop j (take k (wsTabs st) @ drop (Suc k) (wsTabs st))) = set (wsTabs st)" if "tab_index d st = Some k" for k j
    using moved_mset [of k "wsTabs st" j] tab_index_Some [OF that] by (metis set_mset_mset)
  then show ?thesis using q by (auto simp: reorderTab_def has_query_kinds Let_def split: option.split)
qed

lemma query_load: "has_query st \<Longrightarrow> has_query (loadQuery sql st)"
  by (simp add: loadQuery_def Let_def has_query_def)

lemma query_open: "has_query st \<Longrightarrow> has_query (open_or_append tab st)"
  by (auto simp: open_or_append_def has_query_def)

text \<open>
  C35. In a reachable workspace with a query tab, every action leaves a query tab, when a single tab is closed only as
  the tab bar allows it: not the last query tab.
\<close>

theorem query_tab_remains:
  assumes "workspace_reachable st" "has_query st" "\<forall>i. a = CloseTab i \<longrightarrow> closable i st"
  shows "has_query (workspace_step a st)"
proof -
  note ok = reachable_ok [OF assms(1)]
  have rest: "has_query (st\<lparr>wsPendingSql := q\<rparr>)" "has_query (st\<lparr>wsTransactionalDefault := b\<rparr>)" "has_query (st\<lparr>wsCursor := p\<rparr>)"
    "has_query (st\<lparr>wsReveal := r\<rparr>)" "has_query (st\<lparr>wsFocus := f\<rparr>)" "has_query (st\<lparr>wsViewAction := v\<rparr>)"
    "has_query (st\<lparr>wsDirty := b\<rparr>)" "has_query (st\<lparr>wsModes := md\<rparr>)" "has_query (st\<lparr>wsActive := q'\<rparr>)" for q b p r f v md q'
    using assms(2) by (simp_all add: has_query_def)
  have upd: "keeps_identity f \<Longrightarrow> has_query (update_tab i f st)" for f i
    using assms(2) by (simp add: has_query_kinds update_tab_def query_update)
  show ?thesis
  proof (cases a)
    case OpenTable
    then show ?thesis using assms(2) by (auto simp: openTable_def Let_def has_query_kinds query_update)
  next
    case OpenAudit
    then show ?thesis using assms(2) by (auto simp: openAudit_def has_query_kinds query_update)
  next
    case RevealTableColumn
    then show ?thesis using assms(2) by (auto simp: revealTableColumn_def Let_def has_query_kinds query_update)
  next
    case NewQueryTab
    then show ?thesis by (simp add: newQueryTab_def Let_def has_query_def)
  qed (use assms(2,3) in \<open>auto simp: rest upd query_open openOverview_def openErDiagram_def openSessions_def openPerformance_def
      openSchemaDiff_def openObject_def query_close_to query_closeTab [OF ok] query_closeTableTab [OF ok] query_reorder
      closeOtherTabs_def closeTabsToLeft_def closeTabsToRight_def closeAllTableTabs_def query_load
      split: option.split\<close>)
qed

lemma query_tab_remains_witness:
  "has_query (workspace_step CloseAllTableTabs (initial_workspace :: unit workspace_state))"
  using query_tab_remains [OF reach_initial, of CloseAllTableTabs]
  by (simp add: has_query_def initial_workspace_def initialTabs_def)

text \<open>
  The command \<open>close-tab\<close> of the palette (\<open>search/commands.ts\<close>) and its key (\<open>layout/AppLayout.tsx\<close>) close the active tab
  unasked: the last query tab goes, and the active identifier names no tab.
\<close>

lemma close_command_unguarded:
  "let st = closeTab (wsActive initial_workspace) (initial_workspace :: 'r workspace_state)
   in wsTabs st = [] \<and> \<not> has_query st \<and> wsActive st = ''query-1'' \<and> \<not> closable ''query-1'' (initial_workspace :: 'r workspace_state)"
  by (simp add: closeTab_def initial_workspace_def initialTabs_def has_query_def active_after_def closable_def)

text \<open>The identifier of an object tab leaves out its kind: a second object of the same name shows the first.\<close>

lemma object_kind_ignored:
  "let st = openObject c s KFunction n (openObject c s KView n initial_workspace)
   in map_option tabObjectKind (find (\<lambda>tab. tabId tab = wsActive st) (wsTabs st)) = Some (Some KView)"
  by (simp add: openObject_def open_or_append_def has_tab_def initial_workspace_def initialTabs_def object_tab_id_def plain_tab_def)

text \<open>A schema with a dot shares its identifiers: the second of these tables shows the first.\<close>

lemma table_ids_collide: "table_tab_id c ''a.b'' ''c'' = table_tab_id c ''a'' ''b.c''"
  by (simp add: table_tab_id_def)

subsection \<open>What opening a table shows\<close>

text \<open>Names whose identifiers are unique: no colon in a connection's identifier, no dot in a schema's name.\<close>

definition plain_ref :: "string \<Rightarrow> string \<Rightarrow> bool" where
  "plain_ref c s \<longleftrightarrow> CHR '':'' \<notin> set c \<and> CHR ''.'' \<notin> set s"

definition plain_refs :: "'r workspace_state \<Rightarrow> bool" where
  "plain_refs st \<longleftrightarrow> list_all (\<lambda>tab. tabKind tab = TableTab \<longrightarrow>
     (case (tabConnection tab, tabSchema tab) of (Some c, Some s) \<Rightarrow> plain_ref c s | _ \<Rightarrow> True)) (wsTabs st)"

definition shown_tab :: "'r workspace_state \<Rightarrow> 'r workspace_tab option" where
  "shown_tab st = find (\<lambda>tab. tabId tab = wsActive st) (wsTabs st)"

lemma until_inj: "x \<notin> set a \<Longrightarrow> x \<notin> set b \<Longrightarrow> a @ x # r = b @ x # r' \<Longrightarrow> a = b \<and> r = r'"
proof (induction a arbitrary: b)
  case Nil
  then show ?case by (cases b) auto
next
  case (Cons y a)
  then show ?case by (cases b) auto
qed

lemma table_tab_id_inj:
  assumes "plain_ref c s" "plain_ref c' s'" "table_tab_id c s t = table_tab_id c' s' t'"
  shows "c = c' \<and> s = s' \<and> t = t'"
proof -
  have "c = c' \<and> s @ ''.'' @ t = s' @ ''.'' @ t'"
    using assms by (intro until_inj [of "CHR '':''"]) (simp_all add: table_tab_id_def plain_ref_def)
  moreover from this have "s = s' \<and> t = t'"
    using assms by (intro until_inj [of "CHR ''.''"]) (simp_all add: plain_ref_def)
  ultimately show ?thesis by simp
qed

lemma table_id_kind: "identified tab \<Longrightarrow> tabId tab = table_tab_id c s t \<Longrightarrow> tabKind tab = TableTab"
  by (cases "tabKind tab")
    (auto simp: identified_def table_tab_id_def starts_with_def overview_tab_id_def er_tab_id_def sessions_tab_id_def
      performance_tab_id_def diff_tab_id_def object_tab_id_def audit_tab_id_def split: option.splits)

lemma table_tab_shows:
  assumes "identified tab" "tabId tab = table_tab_id c s t" "plain_refs st" "tab \<in> set (wsTabs st)" "plain_ref c s"
  shows "tabConnection tab = Some c \<and> tabSchema tab = Some s \<and> tabTable tab = Some t"
proof -
  have k: "tabKind tab = TableTab" using table_id_kind [OF assms(1,2)] .
  then obtain c' s' t' where *: "tabConnection tab = Some c'" "tabSchema tab = Some s'" "tabTable tab = Some t'"
    "table_tab_id c s t = table_tab_id c' s' t'"
    using assms(1,2) by (auto simp: identified_def split: option.splits)
  then have "plain_ref c' s'" using assms(3,4) k unfolding plain_refs_def list_all_iff by fastforce
  then show ?thesis using table_tab_id_inj [OF assms(5) _ *(4)] * by simp
qed

lemma find_append_new: "\<not> list_ex P xs \<Longrightarrow> P x \<Longrightarrow> find P (xs @ [x]) = Some x"
  by (induction xs) auto

lemma find_map_tab:
  "(\<And>tab. tabId (f tab) = tabId tab) \<Longrightarrow>
   find (\<lambda>tab. tabId tab = i) (map_tab i f tabs) = map_option f (find (\<lambda>tab. tabId tab = i) tabs)"
  by (induction tabs) (auto simp: map_tab_def)

lemma handoff_search [simp]:
  "tabSearch (handoff search rf tab) = (case search of None \<Rightarrow> tabSearch tab | Some q \<Rightarrow> Some q)"
  "tabPresetFilter (handoff search rf tab) = (case rf of None \<Rightarrow> tabPresetFilter tab | Some f \<Rightarrow> Some f)"
  by (simp_all add: handoff_def Let_def split: option.split)

text \<open>
  Opening a table shows that table of that connection, in the requested view, else the remembered one, else the
  rows, with the search and the filter that were handed over.
\<close>

theorem openTable_shows:
  assumes "workspace_reachable st" "plain_refs st" "plain_ref c s"
  shows "case shown_tab (openTable c s t mode search rf st) of None \<Rightarrow> False
    | Some tab \<Rightarrow> tabKind tab = TableTab \<and> tabConnection tab = Some c \<and> tabSchema tab = Some s \<and> tabTable tab = Some t
        \<and> tabViewMode tab = Some (resolved_mode mode (modes_get (wsModes st) c (s @ ''.'' @ t)))
        \<and> (search \<noteq> None \<longrightarrow> tabSearch tab = search) \<and> (rf \<noteq> None \<longrightarrow> tabPresetFilter tab = rf)"
proof (cases "find (\<lambda>tab. tabId tab = table_tab_id c s t) (wsTabs st)")
  case None
  then have "\<not> has_tab (table_tab_id c s t) st" by (auto simp: has_tab_def find_None_iff list_ex_iff)
  then show ?thesis
    using find_append_new [of "\<lambda>tab. tabId tab = table_tab_id c s t" "wsTabs st"]
    by (auto simp: shown_tab_def openTable_def Let_def has_tab_def resolved_mode_def plain_tab_def split: option.split)
next
  case (Some tab)
  then have tab: "tab \<in> set (wsTabs st)" "tabId tab = table_tab_id c s t" by (auto simp: find_Some_iff)
  then have open_tab: "has_tab (table_tab_id c s t) st" by (auto simp: has_tab_def list_ex_iff)
  have "identified tab" using reachable_ok [OF assms(1)] tab(1) by (simp add: workspace_ok_def list_all_iff)
  note shown = table_id_kind [OF this tab(2)] table_tab_shows [OF this tab(2) assms(2) tab(1) assms(3)]
  show ?thesis
    using shown Some open_tab
    by (auto simp: shown_tab_def openTable_def Let_def find_map_tab resolved_mode_def split: option.split)
qed

lemma openTable_shows_witness:
  "\<exists>tab. shown_tab (openTable ''c1'' ''public'' ''users'' None None None (initial_workspace :: unit workspace_state)) = Some tab
     \<and> tabTable tab = Some ''users'' \<and> tabViewMode tab = Some RowsMode"
  using openTable_shows [OF reach_initial, of "''c1''" "''public''" "''users''" None None None]
  by (auto simp: plain_ref_def plain_refs_def initial_workspace_def initialTabs_def plain_tab_def resolved_mode_def modes_get_def
      split: option.splits)

text \<open>
  C34. In every reachable workspace the tabs have distinct identifiers, each of them says what the tab shows and the tab has
  the data its view reads, and when any tab is open, the active tab is an open one (a workspace whose last tab was
  closed keeps an active identifier of no tab).
\<close>

theorem workspace_well_formed:
  assumes "workspace_reachable st"
  shows "workspace_ok st"
  using assms by (rule reachable_ok)

lemma workspace_well_formed_witness:
  "workspace_ok (workspace_step (OpenErDiagram ''c1'' ''public'') (initial_workspace :: unit workspace_state))"
  by (rule workspace_well_formed [OF reach_step [OF reach_initial]]) (simp add: enabled_def)

end
