(* ===== verification/RowDrivers.thy ===== *)
theory RowDrivers
  imports RowSql Sessions
begin

text \<open>
  The row writes of the drivers (\<open>insertRow\<close> and \<open>updateRow\<close> of \<open>drivers/*/*-driver.ts\<close>): what is sent over
  the query function of the transaction, and the persisted row that is handed back; \<open>None\<close> where the code
  returns \<open>undefined\<close> (\<open>rows[0]\<close> of no rows).
\<close>

text \<open>\<open>rows[0]\<close>, and the entry of a \<open>Map\<close> made from pairs: the last one given.\<close>

definition first_row :: "driver_result \<Rightarrow> row option" where
  "first_row r = (case drRows r of [] \<Rightarrow> None | x # xs \<Rightarrow> Some x)"

definition map_get :: "(string \<times> js_val) list \<Rightarrow> string \<Rightarrow> js_val option" where
  "map_get entries c = map_of (rev entries) c"

definition row_gone :: "table_ref \<Rightarrow> http_error" where
  "row_gone ref =
     NotFound (''Row in \"'' @ (case refNamespace ref of None \<Rightarrow> [] | Some ns \<Rightarrow> ns) @ ''.'' @ refName ref
       @ ''\" no longer exists '' @ em_dash @ '' it may have been changed or deleted'')"

subsection \<open>Engines with \<open>RETURNING\<close>\<close>

definition pg_insertRow ::
  "'d query_fn \<Rightarrow> table_ref \<Rightarrow> (string \<times> js_val) list \<Rightarrow> column_metadata list \<Rightarrow> ('d world, row option) eff" where
  "pg_insertRow q ref entries columns =
     bind_eff (lift_res (pgBuildInsertRow ref entries)) (\<lambda>f.
     bind_eff (q f) (\<lambda>r. ret (first_row r)))"

definition pg_updateRow ::
  "'d query_fn \<Rightarrow> table_ref \<Rightarrow> string \<Rightarrow> js_val \<Rightarrow> string list \<Rightarrow> js_val list \<Rightarrow> ('d world, row option) eff" where
  "pg_updateRow q ref column value primaryKey primaryKeyValues =
     bind_eff (lift_res (pgBuildUpdateRow ref column value primaryKey primaryKeyValues)) (\<lambda>f.
     bind_eff (q f) (\<lambda>r.
     if drRowCount r \<noteq> Some 1 then throw (row_gone ref) else ret (first_row r)))"

definition sqlite_insertRow ::
  "'d query_fn \<Rightarrow> table_ref \<Rightarrow> (string \<times> js_val) list \<Rightarrow> column_metadata list \<Rightarrow> ('d world, row option) eff" where
  "sqlite_insertRow q ref entries columns =
     bind_eff (lift_res (sqliteBuildInsertRow ref entries)) (\<lambda>f.
     bind_eff (q f) (\<lambda>r. ret (first_row r)))"

definition sqlite_updateRow ::
  "'d query_fn \<Rightarrow> table_ref \<Rightarrow> string \<Rightarrow> js_val \<Rightarrow> string list \<Rightarrow> js_val list \<Rightarrow> ('d world, row option) eff" where
  "sqlite_updateRow q ref column value primaryKey primaryKeyValues =
     bind_eff (lift_res (sqliteBuildUpdateRow ref column value primaryKey primaryKeyValues)) (\<lambda>f.
     bind_eff (q f) (\<lambda>r.
     if drRowCount r \<noteq> Some 1 then throw (row_gone ref) else ret (first_row r)))"

subsection \<open>MySQL\<close>

text \<open>
  There is no \<open>RETURNING\<close>: the row is read again by its primary key. An insert needs the whole key, or
  the generated id of the one component that is missing.
\<close>

definition missing_key :: "string list \<Rightarrow> (string \<times> js_val) list \<Rightarrow> string list" where
  "missing_key primaryKey entries = filter (\<lambda>column. map_get entries column = None) primaryKey"

definition mysql_insertable :: "column_metadata list \<Rightarrow> (string \<times> js_val) list \<Rightarrow> bool" where
  "mysql_insertable columns entries =
     (let primaryKey = primary_key_of columns;
          autoIncrementPrimaryKey = map_option colName (find (\<lambda>column. isPrimaryKey column \<and> autoIncrement column) columns);
          missing = missing_key primaryKey entries;
          hasCompletePrimaryKey = (primaryKey \<noteq> [] \<and> missing = []);
          hasOneMissingAutoIncrementKey = (case missing of [column] \<Rightarrow> Some column = autoIncrementPrimaryKey | _ \<Rightarrow> False)
      in hasCompletePrimaryKey \<or> hasOneMissingAutoIncrementKey)"

definition mysql_key_values :: "string list \<Rightarrow> (string \<times> js_val) list \<Rightarrow> js_val \<Rightarrow> js_val list" where
  "mysql_key_values primaryKey entries lastInsertId =
     (let missing = missing_key primaryKey entries
      in map (\<lambda>column. if missing \<noteq> [] \<and> column = hd missing then lastInsertId
                       else (case map_get entries column of None \<Rightarrow> JUndef | Some v \<Rightarrow> v)) primaryKey)"

definition mysql_insertRow ::
  "'d query_fn \<Rightarrow> table_ref \<Rightarrow> (string \<times> js_val) list \<Rightarrow> column_metadata list \<Rightarrow> ('d world, row option) eff" where
  "mysql_insertRow q ref entries columns =
     (let primaryKey = primary_key_of columns in
      if \<not> mysql_insertable columns entries
      then throw (Unprocessable ''MySQL inserts require a complete primary key or exactly one missing AUTO_INCREMENT primary-key component'')
      else bind_eff (lift_res (mysqlBuildInsertRow ref entries)) (\<lambda>f.
           bind_eff (q f) (\<lambda>inserted.
           bind_eff (lift_res (mysqlBuildSelectByPk ref primaryKey
             (mysql_key_values primaryKey entries (drLastInsertId inserted)))) (\<lambda>g.
           bind_eff (q g) (\<lambda>selected. ret (first_row selected))))))"

definition mysql_updateRow ::
  "'d query_fn \<Rightarrow> table_ref \<Rightarrow> string \<Rightarrow> js_val \<Rightarrow> string list \<Rightarrow> js_val list \<Rightarrow> ('d world, row option) eff" where
  "mysql_updateRow q ref column value primaryKey primaryKeyValues =
     bind_eff (lift_res (mysqlBuildUpdateRow ref column value primaryKey primaryKeyValues)) (\<lambda>f.
     bind_eff (q f) (\<lambda>_.
     bind_eff (lift_res (mysqlBuildSelectByPk ref primaryKey
       (map (\<lambda>(c, i). if c = column then value else at primaryKeyValues i)
          (zip primaryKey [0 ..< length primaryKey])))) (\<lambda>g.
     bind_eff (q g) (\<lambda>selected.
     case first_row selected of None \<Rightarrow> throw (row_gone ref) | Some r \<Rightarrow> ret (Some r)))))"

subsection \<open>By engine\<close>

definition engine_insertRow ::
  "engine \<Rightarrow> 'd query_fn \<Rightarrow> table_ref \<Rightarrow> (string \<times> js_val) list \<Rightarrow> column_metadata list \<Rightarrow> ('d world, row option) eff" where
  "engine_insertRow e =
     (case e of Pg \<Rightarrow> pg_insertRow | Mysql \<Rightarrow> mysql_insertRow | Sqlite \<Rightarrow> sqlite_insertRow)"

definition engine_updateRow ::
  "engine \<Rightarrow> 'd query_fn \<Rightarrow> table_ref \<Rightarrow> string \<Rightarrow> js_val \<Rightarrow> string list \<Rightarrow> js_val list \<Rightarrow> ('d world, row option) eff" where
  "engine_updateRow e =
     (case e of Pg \<Rightarrow> pg_updateRow | Mysql \<Rightarrow> mysql_updateRow | Sqlite \<Rightarrow> sqlite_updateRow)"

text \<open>
  The key a MySQL insert reads its row back by is the key of the row it wrote: every component the
  client supplied is the value supplied, and the one generated component, if any, is the generated id.
\<close>

lemma mysql_insert_key:
  assumes "mysql_insertable columns entries" "i < length (primary_key_of columns)"
  shows "mysql_key_values (primary_key_of columns) entries gen ! i =
    (case map_get entries (primary_key_of columns ! i) of Some v \<Rightarrow> v | None \<Rightarrow> gen)"
proof -
  let ?pk = "primary_key_of columns" and ?m = "missing_key (primary_key_of columns) entries"
  let ?c = "?pk ! i"
  have in_m: "?c \<in> set ?m \<longleftrightarrow> map_get entries ?c = None"
    using assms(2) by (simp add: missing_key_def)
  have small: "?m = [] \<or> (\<exists>c. ?m = [c])"
    using assms(1) by (auto simp: mysql_insertable_def Let_def split: list.splits)
  show ?thesis
    using in_m small assms(2)
    by (auto simp: mysql_key_values_def Let_def split: option.splits)
qed

end
