(* ===== verification/GridService.thy ===== *)
theory GridService
  imports RowDrivers GridFilter Masking ConnString
begin

text \<open>
  \<open>grid/grid.service.ts\<close>: reading a page of a table and writing rows back. What the service takes from
  outside is an environment: the connection's row (engine and read-only flag), the target database, the
  metadata service's columns and keys, the user's masking preference. The three requests that
  \<open>getRows\<close> awaits together are run one after the other.
\<close>

record 'd grid_env =
  geDriver :: "engine res"
  geReadOnly :: "bool res"
  geExec :: "'d exec"
  gePreferences :: "string \<Rightarrow> masked_columns option res"
  geColumns :: "string \<Rightarrow> string \<Rightarrow> ('d world, column_metadata list) eff"
  geForeignKeys :: "string \<Rightarrow> string \<Rightarrow> ('d world, foreign_key_metadata list) eff"
  geReferencingKeys :: "string \<Rightarrow> string \<Rightarrow> ('d world, schema_foreign_key list) eff"

record write_context =
  wcUser :: string
  wcCorrelation :: "string option"

record bulk_row_edit =
  brePrimaryKey :: row
  breEdits :: "(string \<times> js_val) list"
  breVersion :: "string option"
  breExpected :: "row option"

record get_rows_options =
  groLimit :: "int option"
  groOffset :: "int option"
  groSortBy :: "string option"
  groSortDesc :: bool
  groFilter :: "row_filter option"
  groUser :: "string option"
  groReveal :: bool

record grid_response =
  grRows :: "row list"
  grColumns :: "column_metadata list"
  grTotalRows :: js_val
  grEditable :: bool
  grSourceTable :: string
  grPrimaryKey :: "string list"
  grConcurrency :: "concurrency option"
  grForeignKeys :: "foreign_key_metadata list option"
  grReferencingKeys :: "schema_foreign_key list option"
  grMaskedColumns :: "string list option"

definition DEFAULT_LIMIT :: int where
  "DEFAULT_LIMIT = 100"

definition engine_concurrency :: "engine \<Rightarrow> concurrency" where
  "engine_concurrency e = (case e of Pg \<Rightarrow> Token | Mysql \<Rightarrow> Preimage | Sqlite \<Rightarrow> Preimage)"

definition grid_run :: "'d grid_env \<Rightarrow> 'd query_fn" where
  "grid_run env = send (geExec env) Pooled"

subsection \<open>Audit descriptors\<close>

definition buildAuditSql :: "string \<Rightarrow> string \<Rightarrow> string \<Rightarrow> string list \<Rightarrow> string list \<Rightarrow> string" where
  "buildAuditSql action schema table columns pkColumns =
     (let target = schema @ ''.'' @ table;
          wh = (if pkColumns \<noteq> [] then '' WHERE '' @ join '' AND '' (map (\<lambda>c. c @ '' = ?'') pkColumns) else [])
      in if action = ''update'' then ''UPDATE '' @ target @ '' SET '' @ join '', '' (map (\<lambda>c. c @ '' = ?'') columns) @ wh
         else if action = ''insert'' then ''INSERT INTO '' @ target @ '' ('' @ join '', '' columns @ '')''
         else if action = ''delete'' then ''DELETE FROM '' @ target @ wh
         else js_upper action @ '' '' @ target)"

definition auditBase :: "write_context \<Rightarrow> string \<Rightarrow> string \<Rightarrow> string \<Rightarrow> string \<Rightarrow> string \<Rightarrow> audit_base" where
  "auditBase ctx connectionId action schema table sql =
     \<lparr>abUser = wcUser ctx, abConnection = connectionId, abAction = action, abSql = sql,
      abSchema = Some schema, abTable = Some table, abCorrelation = wcCorrelation ctx\<rparr>"

subsection \<open>Checks the operations share\<close>

definition table_text :: "string \<Rightarrow> string \<Rightarrow> string" where
  "table_text schema table = ''\"'' @ schema @ ''.'' @ table @ ''\"''"

definition assertWritable :: "'d grid_env \<Rightarrow> ('d world, unit) eff" where
  "assertWritable env =
     bind_eff (lift_res (geReadOnly env)) (\<lambda>readOnly.
       if readOnly then throw (Forbidden ''This connection is read-only'') else ret ())"

definition resolveTable :: "'d grid_env \<Rightarrow> string \<Rightarrow> string \<Rightarrow> ('d world, column_metadata list) eff" where
  "resolveTable env schema table =
     bind_eff (geColumns env schema table) (\<lambda>columns.
       if columns = [] then throw (NotFound (''Table '' @ table_text schema table @ '' not found'')) else ret columns)"

definition assertEditable :: "string list \<Rightarrow> string \<Rightarrow> string \<Rightarrow> unit res" where
  "assertEditable primaryKey schema table =
     require (primaryKey \<noteq> [])
       (Unprocessable (''Table '' @ table_text schema table @ '' has no primary key and is not editable''))"

definition assertPrimaryKeyMatches :: "row \<Rightarrow> string list \<Rightarrow> string \<Rightarrow> string \<Rightarrow> unit res" where
  "assertPrimaryKeyMatches provided expected schema table =
     (let providedKeys = map fst provided in
      require (length providedKeys = length expected \<and> (\<forall>column \<in> set expected. column \<in> set providedKeys))
        (Unprocessable (''Primary key for '' @ table_text schema table @ '' must be exactly: '' @ join '', '' expected)))"

definition assertColumn :: "column_metadata list \<Rightarrow> string \<Rightarrow> string \<Rightarrow> string \<Rightarrow> unit res" where
  "assertColumn columns column schema table =
     require (column \<in> set (map colName columns))
       (Unprocessable (''Column \"'' @ column @ ''\" does not exist on '' @ table_text schema table))"

definition resolveMasked ::
  "'d grid_env \<Rightarrow> string option \<Rightarrow> string \<Rightarrow> string \<Rightarrow> string \<Rightarrow> string list \<Rightarrow> string list res" where
  "resolveMasked env userId connectionId schema table primaryKey =
     (case userId of
        None \<Rightarrow> Inr []
      | Some u \<Rightarrow>
          if u = [] then Inr []
          else res_map (\<lambda>prefs. maskedColumnsFor prefs connectionId schema table primaryKey) (gePreferences env u))"

definition assertNotMasked ::
  "'d grid_env \<Rightarrow> string \<Rightarrow> string \<Rightarrow> string \<Rightarrow> string \<Rightarrow> string list \<Rightarrow> string list \<Rightarrow> unit res" where
  "assertNotMasked env userId connectionId schema table columns primaryKey =
     res_bind (resolveMasked env (Some userId) connectionId schema table primaryKey) (\<lambda>masked.
       let blocked = filter (\<lambda>column. column \<in> set masked) columns in
       require (blocked = [])
         (Unprocessable (''Cannot edit masked '' @ (if length blocked = 1 then ''column'' else ''columns'') @ '' ''
            @ join '', '' (map (\<lambda>c. ''\"'' @ c @ ''\"'') blocked) @ '' '' @ em_dash @ '' unmark them as sensitive first'')))"

text \<open>\<open>primaryKey.map((c) => req.primaryKey[c])\<close>\<close>

definition key_values :: "row \<Rightarrow> string list \<Rightarrow> js_val list" where
  "key_values provided primaryKey = map (get_prop provided) primaryKey"

definition grid_ref :: "string \<Rightarrow> string \<Rightarrow> table_ref" where
  "grid_ref schema table = \<lparr>refNamespace = Some schema, refName = table\<rparr>"

subsection \<open>Counts\<close>

text \<open>\<open>parseInt(s, 10)\<close>, and \<open>Math.max(0, Math.round(Number(v)))\<close> for the texts of decimal numbers.\<close>

definition parse_int :: "string \<Rightarrow> js_val" where
  "parse_int s =
     (let t = trim_start s;
          negative = (t \<noteq> [] \<and> hd t = CHR ''-'');
          body = (if t \<noteq> [] \<and> (hd t = CHR ''-'' \<or> hd t = CHR ''+'') then tl t else t);
          ds = takeWhile digit_char body
      in if ds = [] then JNonFinite ''NaN''
         else JNum (if negative then - int (read_nat ds) else int (read_nat ds)))"

definition rounded_text :: "string \<Rightarrow> js_val" where
  "rounded_text s =
     (let t = js_trim s;
          negative = (t \<noteq> [] \<and> hd t = CHR ''-'');
          body = (if t \<noteq> [] \<and> (hd t = CHR ''-'' \<or> hd t = CHR ''+'') then tl t else t);
          ds = takeWhile digit_char body;
          rest = drop (length ds) body;
          fs = (if rest \<noteq> [] \<and> hd rest = CHR ''.'' then tl rest else rest)
      in if t = [] then JNum 0
         else if ds @ fs = [] \<or> \<not> list_all digit_char fs then JNonFinite ''NaN''
         else if negative then JNum 0
         else JNum (int (read_nat ds) + (if fs \<noteq> [] \<and> read_nat [hd fs] \<ge> 5 then 1 else 0)))"

definition rounded_count :: "js_val \<Rightarrow> js_val" where
  "rounded_count v =
     (case v of
        JNum i \<Rightarrow> JNum (max 0 i)
      | JBig i \<Rightarrow> JNum (max 0 i)
      | JBool b \<Rightarrow> JNum (if b then 1 else 0)
      | JDec s \<Rightarrow> rounded_text s
      | JStr s \<Rightarrow> rounded_text s
      | JNonFinite s \<Rightarrow> if s = ''-Infinity'' then JNum 0 else v
      | _ \<Rightarrow> JNonFinite ''NaN'')"

definition count_column :: "string \<Rightarrow> driver_result \<Rightarrow> js_val" where
  "count_column c r = (case first_row r of None \<Rightarrow> JUndef | Some x \<Rightarrow> get_prop x c)"

definition getFilteredRowCount ::
  "'d grid_env \<Rightarrow> engine \<Rightarrow> string \<Rightarrow> string \<Rightarrow> string \<Rightarrow> js_val list \<Rightarrow> ('d world, js_val) eff" where
  "getFilteredRowCount env e schema table clause params =
     bind_eff (lift_res (buildFilteredRowCount e (grid_ref schema table) clause params)) (\<lambda>f.
     bind_eff (grid_run env f) (\<lambda>r.
       let count = count_column ''count'' r
       in ret (parse_int (if nullish count then ''0'' else js_to_string count))))"

definition getApproximateRowCount :: "'d grid_env \<Rightarrow> engine \<Rightarrow> string \<Rightarrow> string \<Rightarrow> ('d world, js_val) eff" where
  "getApproximateRowCount env e schema table =
     bind_eff (lift_res (buildRowCountEstimate e (grid_ref schema table))) (\<lambda>f.
     bind_eff (grid_run env f) (\<lambda>r.
       let estimate = count_column ''reltuples'' r
       in ret (if nullish estimate then JNum 0 else rounded_count estimate)))"

subsection \<open>Reading a page\<close>

definition recordReveal ::
  "string \<Rightarrow> string \<Rightarrow> string \<Rightarrow> string \<Rightarrow> string list \<Rightarrow> ('d world, unit) eff" where
  "recordReveal userId connectionId schema table columns =
     withAudit
       (auditBase \<lparr>wcUser = userId, wcCorrelation = None\<rparr> connectionId ''reveal'' schema table
         (''REVEAL '' @ schema @ ''.'' @ table @ '' ('' @ join '', '' columns @ '')''))
       (ret ())"

definition bestEffort :: "('d world, 'a list) eff \<Rightarrow> ('d world, 'a list option) eff" where
  "bestEffort load = catch_eff (bind_eff load (\<lambda>xs. ret (Some xs))) (\<lambda>err. ret None)"

definition order_column :: "get_rows_options \<Rightarrow> column_metadata list \<Rightarrow> string option" where
  "order_column options columns =
     (let first_key = (case primary_key_of columns of [] \<Rightarrow> None | c # cs \<Rightarrow> Some c)
      in case groSortBy options of
           None \<Rightarrow> first_key
         | Some c \<Rightarrow> if c \<noteq> [] \<and> c \<in> set (map colName columns) then Some c else first_key)"

definition has_filter :: "get_rows_options \<Rightarrow> bool" where
  "has_filter options = (case groFilter options of None \<Rightarrow> False | Some f \<Rightarrow> conditions f \<noteq> [])"

definition compiled_filter :: "get_rows_options \<Rightarrow> column_metadata list \<Rightarrow> engine \<Rightarrow> (string \<times> js_val list) res" where
  "compiled_filter options columns e =
     (case groFilter options of
        Some f \<Rightarrow> if conditions f \<noteq> [] then compileWhere f columns 0 (engine_whereDialect e) else Inr ([], [])
      | None \<Rightarrow> Inr ([], []))"

definition page_options :: "get_rows_options \<Rightarrow> column_metadata list \<Rightarrow> engine \<Rightarrow> string \<times> js_val list \<Rightarrow> select_rows_options" where
  "page_options options columns e compiled =
     \<lparr>whereClause = fst compiled, whereParams = snd compiled, orderColumn = order_column options columns,
      sortDir = (if groSortDesc options then DESC else ASC),
      optLimit = (case groLimit options of None \<Rightarrow> DEFAULT_LIMIT | Some n \<Rightarrow> n),
      optOffset = (case groOffset options of None \<Rightarrow> 0 | Some n \<Rightarrow> n),
      includeVersion = (primary_key_of columns \<noteq> [] \<and> engine_concurrency e = Token)\<rparr>"

definition reveal_step ::
  "string \<Rightarrow> string \<Rightarrow> string \<Rightarrow> get_rows_options \<Rightarrow> string list \<Rightarrow> ('d world, unit) eff" where
  "reveal_step connectionId schema table options masked =
     (if masked \<noteq> [] \<and> groReveal options
      then recordReveal (case groUser options of None \<Rightarrow> [] | Some u \<Rightarrow> u) connectionId schema table masked
      else ret ())"

definition getRows ::
  "'d grid_env \<Rightarrow> string \<Rightarrow> string \<Rightarrow> string \<Rightarrow> get_rows_options \<Rightarrow> ('d world, grid_response) eff" where
  "getRows env connectionId schema table options =
     bind_eff (lift_res (geDriver env)) (\<lambda>e.
     bind_eff (resolveTable env schema table) (\<lambda>columns.
     let primaryKey = primary_key_of columns in
     bind_eff (lift_res (resolveMasked env (groUser options) connectionId schema table primaryKey)) (\<lambda>masked.
     bind_eff (lift_res (compiled_filter options columns e)) (\<lambda>compiled.
     let redacting = (masked \<noteq> [] \<and> \<not> groReveal options);
         opts = page_options options columns e compiled;
         wantForeignKeys = (optOffset opts = 0) in
     bind_eff (reveal_step connectionId schema table options masked) (\<lambda>_.
     bind_eff (lift_res (buildSelectRows e (grid_ref schema table) opts)) (\<lambda>frag.
     bind_eff (grid_run env frag) (\<lambda>r.
     bind_eff (if wantForeignKeys then bestEffort (geForeignKeys env schema table) else ret None) (\<lambda>foreignKeys.
     bind_eff (if wantForeignKeys then bestEffort (geReferencingKeys env schema table) else ret None) (\<lambda>referencingKeys.
     bind_eff (if has_filter options then getFilteredRowCount env e schema table (fst compiled) (snd compiled)
               else getApproximateRowCount env e schema table) (\<lambda>totalRows.
     ret \<lparr>grRows = (if redacting then redactRows (drRows r) masked else drRows r),
          grColumns = columns,
          grTotalRows = totalRows,
          grEditable = (primaryKey \<noteq> []),
          grSourceTable = schema @ ''.'' @ table,
          grPrimaryKey = primaryKey,
          grConcurrency = (if primaryKey \<noteq> [] then Some (engine_concurrency e) else None),
          grForeignKeys = foreignKeys,
          grReferencingKeys = referencingKeys,
          grMaskedColumns = (if redacting then Some masked else None)\<rparr>))))))))))"

subsection \<open>Writing one row\<close>

definition updateCell_body ::
  "'d grid_env \<Rightarrow> string \<Rightarrow> string \<Rightarrow> string \<Rightarrow> row \<Rightarrow> string \<Rightarrow> js_val \<Rightarrow> write_context \<Rightarrow> ('d world, row option) eff" where
  "updateCell_body env connectionId schema table key column value ctx =
     bind_eff (assertWritable env) (\<lambda>_.
     bind_eff (lift_res (geDriver env)) (\<lambda>e.
     bind_eff (resolveTable env schema table) (\<lambda>columns.
     let primaryKey = primary_key_of columns in
     bind_eff (lift_res (assertEditable primaryKey schema table)) (\<lambda>_.
     bind_eff (lift_res (assertColumn columns column schema table)) (\<lambda>_.
     bind_eff (lift_res (assertNotMasked env (wcUser ctx) connectionId schema table [column] primaryKey)) (\<lambda>_.
     bind_eff (lift_res (assertPrimaryKeyMatches key primaryKey schema table)) (\<lambda>_.
     engine_withTransaction e (geExec env) (\<lambda>q.
       engine_updateRow e q (grid_ref schema table) column value primaryKey (key_values key primaryKey)))))))))"

definition updateCell ::
  "'d grid_env \<Rightarrow> string \<Rightarrow> string \<Rightarrow> string \<Rightarrow> row \<Rightarrow> string \<Rightarrow> js_val \<Rightarrow> write_context \<Rightarrow> ('d world, row option) eff" where
  "updateCell env connectionId schema table key column value ctx =
     withAudit (auditBase ctx connectionId ''update'' schema table
         (buildAuditSql ''update'' schema table [column] (map fst key)))
       (updateCell_body env connectionId schema table key column value ctx)"

definition insertRow_body ::
  "'d grid_env \<Rightarrow> string \<Rightarrow> string \<Rightarrow> row \<Rightarrow> ('d world, row option) eff" where
  "insertRow_body env schema table values =
     bind_eff (assertWritable env) (\<lambda>_.
     bind_eff (lift_res (geDriver env)) (\<lambda>e.
     bind_eff (resolveTable env schema table) (\<lambda>columns.
     bind_eff (lift_res (assertEditable (primary_key_of columns) schema table)) (\<lambda>_.
     let entries = filter (\<lambda>(column, v). column \<in> set (map colName columns)) values in
     engine_withTransaction e (geExec env) (\<lambda>q.
       engine_insertRow e q (grid_ref schema table) entries columns)))))"

definition insertRow ::
  "'d grid_env \<Rightarrow> string \<Rightarrow> string \<Rightarrow> string \<Rightarrow> row \<Rightarrow> write_context \<Rightarrow> ('d world, row option) eff" where
  "insertRow env connectionId schema table values ctx =
     withAudit (auditBase ctx connectionId ''insert'' schema table
         (buildAuditSql ''insert'' schema table (map fst values) []))
       (insertRow_body env schema table values)"

definition deleteRow_body ::
  "'d grid_env \<Rightarrow> string \<Rightarrow> string \<Rightarrow> row \<Rightarrow> ('d world, unit) eff" where
  "deleteRow_body env schema table key =
     bind_eff (assertWritable env) (\<lambda>_.
     bind_eff (lift_res (geDriver env)) (\<lambda>e.
     bind_eff (resolveTable env schema table) (\<lambda>columns.
     let primaryKey = primary_key_of columns in
     bind_eff (lift_res (assertEditable primaryKey schema table)) (\<lambda>_.
     bind_eff (lift_res (assertPrimaryKeyMatches key primaryKey schema table)) (\<lambda>_.
     bind_eff (lift_res (buildDeleteRow e (grid_ref schema table) primaryKey (key_values key primaryKey))) (\<lambda>frag.
     bind_eff (grid_run env frag) (\<lambda>r.
     if drRowCount r \<noteq> Some 1
     then throw (NotFound (''Row in '' @ table_text schema table @ '' no longer exists''))
     else ret ())))))))"

definition deleteRow ::
  "'d grid_env \<Rightarrow> string \<Rightarrow> string \<Rightarrow> string \<Rightarrow> row \<Rightarrow> write_context \<Rightarrow> ('d world, unit) eff" where
  "deleteRow env connectionId schema table key ctx =
     withAudit (auditBase ctx connectionId ''delete'' schema table
         (buildAuditSql ''delete'' schema table [] (map fst key)))
       (deleteRow_body env schema table key)"

subsection \<open>Writing a batch\<close>

definition validateBulkRow ::
  "bulk_row_edit \<Rightarrow> column_metadata list \<Rightarrow> string list \<Rightarrow> string \<Rightarrow> string \<Rightarrow> js_val list res" where
  "validateBulkRow r columns primaryKey schema table =
     res_bind (assertPrimaryKeyMatches (brePrimaryKey r) primaryKey schema table) (\<lambda>_.
     res_bind (require (breEdits r \<noteq> [])
       (BadRequest (''No column edits supplied for a row in '' @ table_text schema table))) (\<lambda>_.
     res_bind (traverse (\<lambda>e. assertColumn columns (fst e) schema table) (breEdits r)) (\<lambda>_.
     Inr (key_values (brePrimaryKey r) primaryKey))))"

definition resolveGuard :: "bulk_row_edit \<Rightarrow> column_metadata list \<Rightarrow> string \<Rightarrow> string \<Rightarrow> row_update_guard res" where
  "resolveGuard r columns schema table =
     (case breVersion r of
        Some v \<Rightarrow> Inr (GuardVersion (JStr v))
      | None \<Rightarrow>
          (case breExpected r of
             Some entries \<Rightarrow>
               res_bind (require (entries \<noteq> [])
                 (BadRequest (''Concurrency guard for '' @ table_text schema table @ '' is empty''))) (\<lambda>_.
               res_bind (traverse (\<lambda>e. assertColumn columns (fst e) schema table) entries) (\<lambda>_.
               Inr (GuardPreimage (map fst entries) (map snd entries))))
           | None \<Rightarrow> Inl (BadRequest (''Row edit for '' @ table_text schema table
                       @ '' is missing a concurrency guard (version or expected)''))))"

record prepared_edit =
  peKeyValues :: "js_val list"
  peEdits :: "(string \<times> js_val) list"
  peGuard :: row_update_guard

definition prepare_row ::
  "column_metadata list \<Rightarrow> string list \<Rightarrow> string \<Rightarrow> string \<Rightarrow> bulk_row_edit \<Rightarrow> prepared_edit res" where
  "prepare_row columns primaryKey schema table r =
     res_bind (validateBulkRow r columns primaryKey schema table) (\<lambda>pkValues.
     res_bind (resolveGuard r columns schema table) (\<lambda>guard.
     Inr \<lparr>peKeyValues = pkValues, peEdits = breEdits r, peGuard = guard\<rparr>))"

text \<open>The clause is put together from quoted columns and placeholders.\<close>

definition key_clause :: "engine \<Rightarrow> string list \<Rightarrow> string res" where
  "key_clause e primaryKey = render e (Txt ''WHERE '' # sep_by '' AND '' (assigns '' = '' 1 primaryKey))"

definition reselectRow ::
  "'d query_fn \<Rightarrow> engine \<Rightarrow> table_ref \<Rightarrow> string list \<Rightarrow> js_val list \<Rightarrow> (string \<times> js_val) list \<Rightarrow> ('d world, row option) eff" where
  "reselectRow q e ref primaryKey pkValues edits =
     (let newPkValues = map (\<lambda>(column, i). case map_get edits column of Some v \<Rightarrow> v | None \<Rightarrow> at pkValues i)
                          (zip primaryKey [0 ..< length primaryKey]) in
      bind_eff (lift_res (key_clause e primaryKey)) (\<lambda>clause.
      bind_eff (lift_res (buildSelectRows e ref
        \<lparr>whereClause = clause, whereParams = newPkValues,
         orderColumn = (case primaryKey of [] \<Rightarrow> None | c # cs \<Rightarrow> Some c), sortDir = ASC, optLimit = 1, optOffset = 0,
         includeVersion = False\<rparr>)) (\<lambda>frag.
      bind_eff (q frag) (\<lambda>r. ret (first_row r)))))"

definition row_changed :: "string \<Rightarrow> string \<Rightarrow> http_error" where
  "row_changed schema table =
     Conflict (''Row in '' @ table_text schema table @ '' changed since you loaded it '' @ em_dash
       @ '' nothing was saved. Refresh and retry.'')"

definition bulk_step ::
  "'d query_fn \<Rightarrow> engine \<Rightarrow> string \<Rightarrow> string \<Rightarrow> string list \<Rightarrow> prepared_edit \<Rightarrow> ('d world, row option) eff" where
  "bulk_step q e schema table primaryKey p =
     bind_eff (lift_res (buildUpdateRowGuarded e (grid_ref schema table) (peEdits p) primaryKey (peKeyValues p) (peGuard p))) (\<lambda>frag.
     bind_eff (q frag) (\<lambda>r.
     if drRowCount r \<noteq> Some 1 then throw (row_changed schema table)
     else (case first_row r of
             Some x \<Rightarrow> ret (Some x)
           | None \<Rightarrow> reselectRow q e (grid_ref schema table) primaryKey (peKeyValues p) (peEdits p))))"

definition bulkUpdate_body ::
  "'d grid_env \<Rightarrow> string \<Rightarrow> string \<Rightarrow> string \<Rightarrow> bulk_row_edit list \<Rightarrow> string list \<Rightarrow> write_context \<Rightarrow> ('d world, row option list) eff" where
  "bulkUpdate_body env connectionId schema table edited bulkColumns ctx =
     bind_eff (assertWritable env) (\<lambda>_.
     bind_eff (lift_res (geDriver env)) (\<lambda>e.
     bind_eff (resolveTable env schema table) (\<lambda>columns.
     let primaryKey = primary_key_of columns in
     bind_eff (lift_res (assertEditable primaryKey schema table)) (\<lambda>_.
     bind_eff (lift_res (require (edited \<noteq> []) (BadRequest ''No row edits supplied''))) (\<lambda>_.
     bind_eff (lift_res (assertNotMasked env (wcUser ctx) connectionId schema table bulkColumns primaryKey)) (\<lambda>_.
     bind_eff (lift_res (traverse (prepare_row columns primaryKey schema table) edited)) (\<lambda>prepared.
     engine_withTransaction e (geExec env) (\<lambda>q.
       each_eff (bulk_step q e schema table primaryKey) prepared))))))))"

definition bulk_columns :: "bulk_row_edit list \<Rightarrow> string list" where
  "bulk_columns edited = js_set (concat (map (\<lambda>r. map fst (breEdits r)) edited))"

definition bulk_audit_sql :: "string \<Rightarrow> string \<Rightarrow> bulk_row_edit list \<Rightarrow> string" where
  "bulk_audit_sql schema table edited =
     buildAuditSql ''update'' schema table (bulk_columns edited) [] @ '' (bulk: '' @ show_nat (length edited) @ '' rows)''"

definition bulkUpdate ::
  "'d grid_env \<Rightarrow> string \<Rightarrow> string \<Rightarrow> string \<Rightarrow> bulk_row_edit list \<Rightarrow> write_context \<Rightarrow> ('d world, row option list) eff" where
  "bulkUpdate env connectionId schema table edited ctx =
     withAudit (auditBase ctx connectionId ''update'' schema table (bulk_audit_sql schema table edited))
       (bulkUpdate_body env connectionId schema table edited (bulk_columns edited) ctx)"

subsection \<open>The writes as requests\<close>

datatype grid_write =
    UpdateCell row string js_val
  | BulkUpdate "bulk_row_edit list"
  | InsertRow row
  | DeleteRow row

definition discard :: "('d world, 'a) eff \<Rightarrow> ('d world, unit) eff" where
  "discard m = bind_eff m (\<lambda>_. ret ())"

definition run_write ::
  "'d grid_env \<Rightarrow> string \<Rightarrow> string \<Rightarrow> string \<Rightarrow> grid_write \<Rightarrow> write_context \<Rightarrow> ('d world, unit) eff" where
  "run_write env connectionId schema table op ctx =
     (case op of
        UpdateCell key column v \<Rightarrow> discard (updateCell env connectionId schema table key column v ctx)
      | BulkUpdate edited \<Rightarrow> discard (bulkUpdate env connectionId schema table edited ctx)
      | InsertRow values \<Rightarrow> discard (insertRow env connectionId schema table values ctx)
      | DeleteRow key \<Rightarrow> deleteRow env connectionId schema table key ctx)"

definition write_body ::
  "'d grid_env \<Rightarrow> string \<Rightarrow> string \<Rightarrow> string \<Rightarrow> grid_write \<Rightarrow> write_context \<Rightarrow> ('d world, unit) eff" where
  "write_body env connectionId schema table op ctx =
     (case op of
        UpdateCell key column v \<Rightarrow> discard (updateCell_body env connectionId schema table key column v ctx)
      | BulkUpdate edited \<Rightarrow>
          discard (bulkUpdate_body env connectionId schema table edited (bulk_columns edited) ctx)
      | InsertRow values \<Rightarrow> discard (insertRow_body env schema table values)
      | DeleteRow key \<Rightarrow> deleteRow_body env schema table key)"

fun write_action :: "grid_write \<Rightarrow> string" where
  "write_action (UpdateCell key column v) = ''update''"
| "write_action (BulkUpdate edited) = ''update''"
| "write_action (InsertRow values) = ''insert''"
| "write_action (DeleteRow key) = ''delete''"

fun write_sql :: "string \<Rightarrow> string \<Rightarrow> grid_write \<Rightarrow> string" where
  "write_sql schema table (UpdateCell key column v) = buildAuditSql ''update'' schema table [column] (map fst key)"
| "write_sql schema table (BulkUpdate edited) = bulk_audit_sql schema table edited"
| "write_sql schema table (InsertRow values) = buildAuditSql ''insert'' schema table (map fst values) []"
| "write_sql schema table (DeleteRow key) = buildAuditSql ''delete'' schema table [] (map fst key)"

text \<open>Two requests that name the same columns, whatever values they carry.\<close>

fun same_names :: "grid_write \<Rightarrow> grid_write \<Rightarrow> bool" where
  "same_names (UpdateCell k c v) (UpdateCell k' c' v') \<longleftrightarrow> map fst k = map fst k' \<and> c = c'"
| "same_names (BulkUpdate es) (BulkUpdate es') \<longleftrightarrow>
     map (\<lambda>r. map fst (breEdits r)) es = map (\<lambda>r. map fst (breEdits r)) es'"
| "same_names (InsertRow vs) (InsertRow vs') \<longleftrightarrow> map fst vs = map fst vs'"
| "same_names (DeleteRow k) (DeleteRow k') \<longleftrightarrow> map fst k = map fst k'"
| "same_names _ _ \<longleftrightarrow> False"

lemma same_names_sql: "same_names op op' \<Longrightarrow> write_sql schema table op = write_sql schema table op'"
proof (induction op op' rule: same_names.induct)
  case (2 es es')
  then have "length es = length es'" by (metis length_map same_names.simps(2))
  with 2 show ?case by (simp add: bulk_audit_sql_def bulk_columns_def)
qed simp_all

text \<open>What a write names: the keys that must be the table's key, and the columns it sets.\<close>

fun write_keys :: "grid_write \<Rightarrow> row list" where
  "write_keys (UpdateCell key column v) = [key]"
| "write_keys (BulkUpdate edited) = map brePrimaryKey edited"
| "write_keys (InsertRow values) = []"
| "write_keys (DeleteRow key) = [key]"

fun write_columns :: "grid_write \<Rightarrow> string list" where
  "write_columns (UpdateCell key column v) = [column]"
| "write_columns (BulkUpdate edited) = bulk_columns edited"
| "write_columns (InsertRow values) = []"
| "write_columns (DeleteRow key) = []"

lemma discard_run: "discard m w = (case m w of (Inl e, w') \<Rightarrow> (Inl e, w') | (Inr x, w') \<Rightarrow> (Inr (), w'))"
  by (auto simp: discard_def bind_eff_run split: prod.splits sum.splits)

lemma discard_withAudit: "discard (withAudit b m) = withAudit b (discard m)"
  by (rule ext) (auto simp: discard_run withAudit_run split: prod.splits sum.splits)

lemma run_write_audit:
  "run_write env connectionId schema table op ctx =
     withAudit (auditBase ctx connectionId (write_action op) schema table (write_sql schema table op))
       (write_body env connectionId schema table op ctx)"
  by (cases op) (simp_all add: run_write_def write_body_def updateCell_def bulkUpdate_def insertRow_def
      deleteRow_def discard_withAudit)

subsection \<open>Every write is recorded once\<close>

lemma unaudited_transaction:
  assumes "\<And>q. (\<And>f. keeps no_audit (q f)) \<Longrightarrow> keeps no_audit (fn q)"
  shows "keeps no_audit (engine_withTransaction e exec fn)"
  unfolding engine_withTransaction_eq commit_or_rollback_def
  by (intro unaudited.keeps_intros unaudited_send assms)

lemma unaudited_insert:
  assumes "\<And>f. keeps no_audit (q f)"
  shows "keeps no_audit (engine_insertRow e q ref entries columns)"
  unfolding engine_insertRow_def pg_insertRow_def mysql_insertRow_def sqlite_insertRow_def
  by (cases e) (auto simp: Let_def intro!: unaudited.keeps_intros assms)

lemma unaudited_update:
  assumes "\<And>f. keeps no_audit (q f)"
  shows "keeps no_audit (engine_updateRow e q ref column v pk pv)"
  unfolding engine_updateRow_def pg_updateRow_def mysql_updateRow_def sqlite_updateRow_def
  by (cases e) (auto simp: Let_def intro!: unaudited.keeps_intros assms split: option.splits)

lemma unaudited_bulk_step:
  assumes "\<And>f. keeps no_audit (q f)"
  shows "keeps no_audit (bulk_step q e schema table pk p)"
  unfolding bulk_step_def reselectRow_def
  by (auto simp: Let_def intro!: unaudited.keeps_intros assms split: option.splits)

lemma unaudited_body:
  assumes "keeps no_audit (geColumns env schema table)"
  shows "keeps no_audit (write_body env connectionId schema table op ctx)"
proof -
  note parts = unaudited.keeps_intros unaudited_send unaudited_transaction unaudited_insert unaudited_update
    unaudited_bulk_step assms
  note defs = discard_def assertWritable_def resolveTable_def Let_def grid_run_def
  show ?thesis
    by (cases op)
      (auto simp: write_body_def updateCell_body_def bulkUpdate_body_def insertRow_body_def deleteRow_body_def defs
        intro!: parts)
qed

text \<open>
  Every write through the grid, whether it succeeds, is refused or fails, hands exactly one entry to
  the audit trail (stored unless that write fails), with the action, the table and the outcome; the statement recorded is a function of the
  names in the request alone, so no value that was written or that located a row is recorded.
\<close>

theorem grid_write_audited:
  assumes "keeps no_audit (geColumns env schema table)"
    "run_write env connectionId schema table op ctx w = (r, w')"
  shows "wAudit w' = wAudit w @ stored_entries (wAuditWrites w)
      [\<lparr>aeUser = wcUser ctx, aeConnection = connectionId, aeAction = write_action op, aeSchema = Some schema,
        aeTable = Some table, aeSql = write_sql schema table op, aeOutcome = (if isl r then Failure else Success),
        aeErrorClass = (case r of Inl e \<Rightarrow> Some (errorClassOf e) | Inr _ \<Rightarrow> None), aeCorrelation = wcCorrelation ctx\<rparr>]
    \<and> (\<forall>op'. same_names op op' \<longrightarrow> write_sql schema table op' = write_sql schema table op)"
proof -
  have "wAudit (snd (write_body env connectionId schema table op ctx w)) = wAudit w"
    "wAuditWrites (snd (write_body env connectionId schema table op ctx w)) = wAuditWrites w"
    using unaudited_body [OF assms(1)] by (simp_all add: keeps_def no_audit_def)
  then show ?thesis
    using assms(2) same_names_sql [of op]
    by (auto simp: run_write_audit withAudit_run audit_record_def auditBase_def audit_audited split: prod.splits sum.splits)
qed

subsection \<open>What a write is let through on\<close>

definition let_through ::
  "'d grid_env \<Rightarrow> string \<Rightarrow> string \<Rightarrow> string \<Rightarrow> grid_write \<Rightarrow> write_context \<Rightarrow> column_metadata list \<Rightarrow> bool" where
  "let_through env connectionId schema table op ctx columns \<longleftrightarrow>
     geReadOnly env = Inr False \<and> primary_key_of columns \<noteq> [] \<and>
     (\<forall>key \<in> set (write_keys op). length key = length (primary_key_of columns) \<and>
        set (primary_key_of columns) \<subseteq> fst ` set key) \<and>
     set (write_columns op) \<subseteq> set (map colName columns) \<and>
     (write_columns op \<noteq> [] \<longrightarrow>
        (\<exists>masked. resolveMasked env (Some (wcUser ctx)) connectionId schema table (primary_key_of columns) = Inr masked
          \<and> set (write_columns op) \<inter> set masked = {}))"

lemma assert_iffs:
  "assertEditable pk schema table = Inr u \<longleftrightarrow> pk \<noteq> []"
  "assertColumn columns c schema table = Inr u \<longleftrightarrow> c \<in> set (map colName columns)"
  "assertPrimaryKeyMatches key pk schema table = Inr u \<longleftrightarrow> length key = length pk \<and> set pk \<subseteq> fst ` set key"
  "assertNotMasked env user connectionId schema table cs pk = Inr u \<longleftrightarrow>
     (\<exists>masked. resolveMasked env (Some user) connectionId schema table pk = Inr masked \<and> set cs \<inter> set masked = {})"
  by (auto simp: assertEditable_def assertColumn_def assertPrimaryKeyMatches_def assertNotMasked_def res_simps Let_def
      filter_empty_conv subset_iff)

lemma traverse_each: "traverse f xs = Inr ys \<Longrightarrow> x \<in> set xs \<Longrightarrow> \<exists>y. f x = Inr y"
  by (auto simp: res_simps list_all2_conv_all_nth in_set_conv_nth)

lemma columns_exist:
  assumes "traverse (\<lambda>e. assertColumn columns (fst e) schema table) es = Inr us"
  shows "fst ` set es \<subseteq> set (map colName columns)"
  using traverse_each [OF assms] by (auto simp: assert_iffs)

lemma prepare_row_ok:
  assumes "prepare_row columns pk schema table r = Inr p"
  shows "length (brePrimaryKey r) = length pk" "set pk \<subseteq> fst ` set (brePrimaryKey r)" "breEdits r \<noteq> []"
    "fst ` set (breEdits r) \<subseteq> set (map colName columns)"
    "peKeyValues p = key_values (brePrimaryKey r) pk" "peEdits p = breEdits r"
    "resolveGuard r columns schema table = Inr (peGuard p)"
proof -
  obtain us guard where "length (brePrimaryKey r) = length pk" "set pk \<subseteq> fst ` set (brePrimaryKey r)"
    "breEdits r \<noteq> []" "traverse (\<lambda>e. assertColumn columns (fst e) schema table) (breEdits r) = Inr us"
    "resolveGuard r columns schema table = Inr guard"
    "p = \<lparr>peKeyValues = key_values (brePrimaryKey r) pk, peEdits = breEdits r, peGuard = guard\<rparr>"
    using assms
    by (auto simp: prepare_row_def validateBulkRow_def res_bind_Inr_iff require_Inr_iff assert_iffs(3))
  then show "length (brePrimaryKey r) = length pk" "set pk \<subseteq> fst ` set (brePrimaryKey r)" "breEdits r \<noteq> []"
    "fst ` set (breEdits r) \<subseteq> set (map colName columns)"
    "peKeyValues p = key_values (brePrimaryKey r) pk" "peEdits p = breEdits r"
    "resolveGuard r columns schema table = Inr (peGuard p)"
    using columns_exist by simp_all
qed

lemma bulk_columns_exist:
  assumes "traverse (prepare_row columns pk schema table) edited = Inr ps" "r \<in> set edited"
  shows "fst ` set (breEdits r) \<subseteq> set (map colName columns)"
    "length (brePrimaryKey r) = length pk" "set pk \<subseteq> fst ` set (brePrimaryKey r)"
proof -
  obtain p where p: "prepare_row columns pk schema table r = Inr p" using traverse_each [OF assms] by blast
  show "fst ` set (breEdits r) \<subseteq> set (map colName columns)"
    "length (brePrimaryKey r) = length pk" "set pk \<subseteq> fst ` set (brePrimaryKey r)"
    using prepare_row_ok(4,1,2) [OF p] by simp_all
qed

text \<open>\<open>gated W P m w\<close>: \<open>P\<close> holds if running \<open>m\<close> leaves a wire that is not in \<open>W\<close>.\<close>

definition gated :: "(channel \<times> sql_fragment) list set \<Rightarrow> bool \<Rightarrow> ('d world, 'a) eff \<Rightarrow> 'd world \<Rightarrow> bool" where
  "gated W P m w \<longleftrightarrow> (wWire (snd (m w)) \<notin> W \<longrightarrow> P)"

lemma gated_lift:
  "wWire w \<in> W \<Longrightarrow> (\<And>y. r = Inr y \<Longrightarrow> gated W P (f y) w) \<Longrightarrow> gated W P (bind_eff (lift_res r) f) w"
  by (cases r) (simp_all add: gated_def eff_simps)

lemma gated_writable:
  "wWire w \<in> W \<Longrightarrow> (geReadOnly env = Inr False \<Longrightarrow> gated W P (f ()) w) \<Longrightarrow> gated W P (bind_eff (assertWritable env) f) w"
  by (auto simp: gated_def eff_simps assertWritable_def split: sum.splits)

lemma gated_resolve:
  "geColumns env schema table w = (cr, w1) \<Longrightarrow> wWire w1 \<in> W \<Longrightarrow>
     (\<And>columns. cr = Inr columns \<Longrightarrow> gated W P (f columns) w1) \<Longrightarrow>
     gated W P (bind_eff (resolveTable env schema table) f) w"
  by (auto simp: gated_def eff_simps resolveTable_def split: sum.splits)

lemma gated_discard: "gated W P m w \<Longrightarrow> gated W P (discard m) w"
  by (auto simp: gated_def discard_run split: prod.splits sum.splits)

lemmas gated_intros = gated_discard gated_writable gated_lift

lemma gated_end: "P \<Longrightarrow> gated W P m w"
  by (simp add: gated_def)

lemma body_gated:
  assumes "geColumns env schema table w = (cr, w1)"
  shows "gated {wWire w, wWire w1} (\<exists>columns. cr = Inr columns \<and> let_through env connectionId schema table op ctx columns)
    (write_body env connectionId schema table op ctx) w"
proof (cases op)
  case (UpdateCell key column v)
  show ?thesis
    unfolding UpdateCell write_body_def grid_write.case updateCell_body_def Let_def
    by (intro gated_intros gated_resolve [OF assms]) (auto intro!: gated_end simp: assert_iffs let_through_def)
next
  case (BulkUpdate edited)
  have through: "let_through env connectionId schema table op ctx columns"
    if "geReadOnly env = Inr False" "assertEditable (primary_key_of columns) schema table = Inr a"
      "assertNotMasked env (wcUser ctx) connectionId schema table (bulk_columns edited) (primary_key_of columns) = Inr b"
      "traverse (prepare_row columns (primary_key_of columns) schema table) edited = Inr ps" for columns a b ps
  proof -
    have "set (bulk_columns edited) \<subseteq> set (map colName columns)"
      using bulk_columns_exist(1) [OF that(4)] by (simp add: bulk_columns_def UN_subset_iff image_image)
    moreover have "\<forall>r \<in> set edited. length (brePrimaryKey r) = length (primary_key_of columns)
        \<and> set (primary_key_of columns) \<subseteq> fst ` set (brePrimaryKey r)"
      using bulk_columns_exist(2,3) [OF that(4)] by blast
    ultimately show ?thesis
      using that(1-3) unfolding BulkUpdate let_through_def assert_iffs by simp
  qed
  show ?thesis
    unfolding BulkUpdate write_body_def grid_write.case bulkUpdate_body_def Let_def
    by (intro gated_intros gated_resolve [OF assms])
       (simp | rule gated_end, blast intro: through [unfolded BulkUpdate])+
next
  case (InsertRow vs)
  show ?thesis
    unfolding InsertRow write_body_def grid_write.case insertRow_body_def Let_def
    by (intro gated_intros gated_resolve [OF assms]) (auto intro!: gated_end simp: assert_iffs let_through_def)
next
  case (DeleteRow key)
  show ?thesis
    unfolding DeleteRow write_body_def grid_write.case deleteRow_body_def Let_def
    by (intro gated_intros gated_resolve [OF assms]) (auto intro!: gated_end simp: assert_iffs let_through_def)
qed

lemma insert_body_sends:
  assumes "geColumns env schema table w = (cr, w1)" "insertRow_body env schema table values w = (r, w')"
    "wWire w' \<noteq> wWire w" "wWire w' \<noteq> wWire w1"
  shows "\<exists>columns e. cr = Inr columns \<and> geDriver env = Inr e \<and>
    w' = snd (engine_withTransaction e (geExec env) (\<lambda>q. engine_insertRow e q (grid_ref schema table)
      (filter (\<lambda>(column, v). column \<in> set (map colName columns)) values) columns) w1)"
  using assms unfolding insertRow_body_def resolveTable_def assertWritable_def
  by (auto simp: eff_simps Let_def split: sum.splits if_splits)

text \<open>
  C23. Nothing reaches the table unless the request is let through: when a write sends anything but the
  catalogue lookup, the connection is writable, the table has a primary key, every key that locates a row
  names exactly that key's columns, and every column an update writes exists and is not masked for the user.
  An insert has neither of these tests: what it sends is the insertion of the request's entries whose columns
  the table has, the other entries dropped, a masked column written like any other.
\<close>

theorem grid_write_gate:
  assumes "geColumns env schema table w = (cr, w1)"
    "run_write env connectionId schema table op ctx w = (r, w')"
    "wWire w' \<noteq> wWire w" "wWire w' \<noteq> wWire w1"
  shows "\<exists>columns. cr = Inr columns \<and> let_through env connectionId schema table op ctx columns
    \<and> (\<forall>values. op = InsertRow values \<longrightarrow> (\<exists>e. geDriver env = Inr e \<and>
        wWire w' = wWire (snd (engine_withTransaction e (geExec env) (\<lambda>q. engine_insertRow e q (grid_ref schema table)
          (filter (\<lambda>(column, v). column \<in> set (map colName columns)) values) columns) w1))))"
proof -
  have wire: "wWire (snd (write_body env connectionId schema table op ctx w)) = wWire w'"
    using assms(2) by (auto simp: run_write_audit withAudit_run audit_record_def split: prod.splits sum.splits)
  then obtain columns where columns: "cr = Inr columns" "let_through env connectionId schema table op ctx columns"
    using body_gated [OF assms(1), of connectionId op ctx] assms(3,4) by (auto simp: gated_def)
  have "\<exists>e. geDriver env = Inr e \<and>
        wWire w' = wWire (snd (engine_withTransaction e (geExec env) (\<lambda>q. engine_insertRow e q (grid_ref schema table)
          (filter (\<lambda>(column, v). column \<in> set (map colName columns)) vs) columns) w1))" if insert: "op = InsertRow vs" for vs
  proof -
    obtain r0 w0 where body: "insertRow_body env schema table vs w = (r0, w0)" by fastforce
    then have "wWire w0 = wWire w'" using wire by (simp add: insert write_body_def discard_run split: sum.splits)
    with insert_body_sends [OF assms(1) body] assms(3,4) columns(1) show ?thesis by auto
  qed
  with columns show ?thesis by blast
qed

subsection \<open>A batch is saved whole\<close>

text \<open>What a batch sends inside its transaction: guarded updates and row reads.\<close>

definition row_statement :: "engine \<Rightarrow> sql_fragment \<Rightarrow> bool" where
  "row_statement e f \<longleftrightarrow>
     (\<exists>ref edits pk pv g. buildUpdateRowGuarded e ref edits pk pv g = Inr f) \<or> (\<exists>ref opts. buildSelectRows e ref opts = Inr f)"

lemma keeps_lifted:
  assumes "\<And>w. R w w" "\<And>y. r = Inr y \<Longrightarrow> keeps R (f y)"
  shows "keeps R (bind_eff (lift_res r) f)"
  using assms by (cases r) (simp_all add: keeps_def bind_eff_def)

lemma bulk_only_dml: "only_dml (row_statement e) (\<lambda>q :: 'd query_fn. each_eff (bulk_step q e schema table pk) ps)"
  unfolding only_dml_def
proof (intro allI impI)
  fix q :: "'d query_fn" and R :: "'d world \<Rightarrow> 'd world \<Rightarrow> bool"
  assume R: "\<forall>w. R w w" "\<forall>w w' w''. R w w' \<longrightarrow> R w' w'' \<longrightarrow> R w w''"
    "\<forall>f. row_statement e f \<longrightarrow> keeps R (q f)"
  then have step: "step_relation R" by unfold_locales blast+
  have sends: "buildUpdateRowGuarded e ref edits pk' pv g = Inr f \<Longrightarrow> keeps R (q f)"
    "buildSelectRows e ref opts = Inr f \<Longrightarrow> keeps R (q f)" for ref edits pk' pv g opts f
    using R(3) unfolding row_statement_def by blast+
  show "keeps R (each_eff (bulk_step q e schema table pk) ps)"
    unfolding bulk_step_def reselectRow_def Let_def
    by (auto intro: sends intro!: R(1) [rule_format] step_relation.keeps_each [OF step] step_relation.keeps_bind [OF step] keeps_lifted
        step_relation.keeps_throw [OF step] step_relation.keeps_ret [OF step] split: option.splits)
qed

lemma catalogue_then:
  assumes "keeps (\<lambda>w w'. committed (wDb w') = committed (wDb w)) (geColumns env schema table)"
  shows "keeps (\<lambda>w w'. committed (wDb w') = committed (wDb w)) (resolveTable env schema table)"
proof -
  have step: "step_relation (\<lambda>w w'. committed (wDb w') = committed (wDb w))"
    by unfold_locales simp_all
  show ?thesis
    unfolding resolveTable_def
    by (auto intro!: step_relation.keeps_bind [OF step] step_relation.keeps_throw [OF step]
        step_relation.keeps_ret [OF step] assms)
qed

text \<open>
  C24. A batch is saved whole or not at all: when a bulk update ends in an exception, because of a stale row, a
  guard or column that is refused, a failing statement or a failing \<open>COMMIT\<close>, what the other clients of the
  database see is what they saw before.
\<close>

theorem bulkUpdate_all_or_nothing:
  assumes "geDriver env = Inr e"
    "holds_back e (geExec env) committed inTx (row_statement e)"
    "keeps (\<lambda>w w'. committed (wDb w') = committed (wDb w)) (geColumns env schema table)"
    "bulkUpdate env connectionId schema table edited ctx w = (Inl err, w')"
  shows "committed (wDb w') = committed (wDb w)"
proof -
  obtain w0 where w0: "bulkUpdate_body env connectionId schema table edited (bulk_columns edited) ctx w = (Inl err, w0)"
    and db: "wDb w' = wDb w0"
    using assms(4) by (auto simp: bulkUpdate_def withAudit_run audit_record_def split: prod.splits sum.splits)
  have cat: "committed (wDb v') = committed (wDb v)" if "resolveTable env schema table v = (r, v')" for r v v'
    using catalogue_then [OF assms(3)] that unfolding keeps_def by (metis snd_conv)
  note atomic = transaction_atomic [OF assms(2) bulk_only_dml]
  have "committed (wDb w0) = committed (wDb w)"
    using w0 assms(1) atomic unfolding bulkUpdate_body_def assertWritable_def Let_def
    by (auto simp: eff_simps dest!: cat split: prod.splits sum.splits if_splits)
  with db show ?thesis by simp
qed

text \<open>An edit sends its guarded update, and on an engine that does not return the row, one read of it.\<close>

definition edit_sends ::
  "engine \<Rightarrow> table_ref \<Rightarrow> string list \<Rightarrow> (string \<times> js_val) list \<Rightarrow> js_val list \<Rightarrow> row_update_guard \<Rightarrow> sql_fragment list \<Rightarrow> bool" where
  "edit_sends e ref pk edits pkValues guard fs \<longleftrightarrow>
     (\<exists>frag. buildUpdateRowGuarded e ref edits pk pkValues guard = Inr frag \<and>
        (fs = [frag] \<or> (\<exists>opts sel. buildSelectRows e ref opts = Inr sel \<and> fs = [frag, sel])))"

definition prepared_sends :: "engine \<Rightarrow> table_ref \<Rightarrow> string list \<Rightarrow> prepared_edit \<Rightarrow> sql_fragment list \<Rightarrow> bool" where
  "prepared_sends e ref pk p fs \<longleftrightarrow> edit_sends e ref pk (peEdits p) (peKeyValues p) (peGuard p) fs"

lemma bulk_step_sends:
  assumes "bulk_step (send exec ch) e schema table pk p w = (Inr x, w')"
  shows "\<exists>fs. prepared_sends e (grid_ref schema table) pk p fs \<and> wWire w' = wWire w @ map (Pair ch) fs"
proof (cases "buildUpdateRowGuarded e (grid_ref schema table) (peEdits p) pk (peKeyValues p) (peGuard p)")
  case (Inl err)
  with assms show ?thesis by (simp add: bulk_step_def eff_simps)
next
  case (Inr frag)
  obtain r w1 where r: "send exec ch frag w = (r, w1)" by fastforce
  then have w1: "wWire w1 = wWire w @ [(ch, frag)]" by (metis snd_conv wire_send)
  show ?thesis
  proof (cases "w' = w1")
    case True
    then show ?thesis
      using Inr w1 by (intro exI [of _ "[frag]"]) (simp add: prepared_sends_def edit_sends_def)
  next
    case False
    then obtain opts sel where "buildSelectRows e (grid_ref schema table) opts = Inr sel" "w' = snd (send exec ch sel w1)"
      using assms Inr r unfolding bulk_step_def reselectRow_def Let_def
      by (auto simp: eff_simps split: prod.splits sum.splits if_splits option.splits)
    then show ?thesis
      using Inr w1 by (intro exI [of _ "[frag, sel]"]) (auto simp: prepared_sends_def edit_sends_def)
  qed
qed

lemma bulk_loop_sends:
  assumes "each_eff (bulk_step (send exec ch) e schema table pk) ps w = (Inr rs, w')"
  shows "\<exists>fss. list_all2 (prepared_sends e (grid_ref schema table) pk) ps fss \<and>
      wWire w' = wWire w @ map (Pair ch) (concat fss) \<and> length rs = length ps"
  using assms
proof (induction ps arbitrary: w rs)
  case Nil
  then show ?case by simp
next
  case (Cons p ps)
  from Cons.prems obtain x w1 ys where x: "bulk_step (send exec ch) e schema table pk p w = (Inr x, w1)"
    and ys: "each_eff (bulk_step (send exec ch) e schema table pk) ps w1 = (Inr ys, w')" "rs = x # ys"
    by (auto elim!: bind_eff_cases)
  obtain fs where 1: "prepared_sends e (grid_ref schema table) pk p fs" "wWire w1 = wWire w @ map (Pair ch) fs"
    using bulk_step_sends [OF x] by blast
  obtain fss where "list_all2 (prepared_sends e (grid_ref schema table) pk) ps fss"
      "wWire w' = wWire w1 @ map (Pair ch) (concat fss)" "length ys = length ps"
    using Cons.IH [OF ys(1)] by blast
  with 1 ys(2) show ?case
    by (intro exI [of _ "fs # fss"]) simp
qed

lemma prepared_row_sends:
  assumes "prepare_row columns pk schema table r = Inr p" "prepared_sends e ref pk p fs"
  shows "\<exists>guard. resolveGuard r columns schema table = Inr guard \<and>
    edit_sends e ref pk (breEdits r) (key_values (brePrimaryKey r) pk) guard fs"
  using prepare_row_ok(5-7) [OF assms(1)] assms(2) by (simp add: prepared_sends_def)

text \<open>
  C25. A bulk update that succeeds sent one transaction: \<open>BEGIN\<close>, then for each row edit in the order of the
  request its guarded update, keyed by the row's own primary key and carrying its own guard, with at
  most one read of the row after it, then \<open>COMMIT\<close>; and it returns one row per edit.
\<close>

theorem bulkUpdate_sends:
  assumes "geDriver env = Inr e" "geColumns env schema table w = (Inr columns, w1)"
    "bulkUpdate env connectionId schema table edited ctx w = (Inr rs, w')"
  shows "\<exists>fss. list_all2 (\<lambda>r fs. \<exists>guard. resolveGuard r columns schema table = Inr guard \<and>
          edit_sends e (grid_ref schema table) (primary_key_of columns) (breEdits r)
            (key_values (brePrimaryKey r) (primary_key_of columns)) guard fs) edited fss
    \<and> wWire w' = wWire w1 @ map (Pair (client_channel e)) (begin_frag e # concat fss @ [commit_frag])
    \<and> length rs = length edited"
proof -
  let ?pk = "primary_key_of columns" and ?q = "send (geExec env) (client_channel e)"
  obtain w0 where w0: "bulkUpdate_body env connectionId schema table edited (bulk_columns edited) ctx w = (Inr rs, w0)"
    and wire: "wWire w' = wWire w0"
    using assms(3) by (auto simp: bulkUpdate_def withAudit_run audit_record_def split: prod.splits sum.splits)
  obtain ps where ps: "traverse (prepare_row columns ?pk schema table) edited = Inr ps"
    and tx: "engine_withTransaction e (geExec env) (\<lambda>q. each_eff (bulk_step q e schema table ?pk) ps) w1 = (Inr rs, w0)"
    using w0 assms(1,2) unfolding bulkUpdate_body_def assertWritable_def resolveTable_def Let_def
    by (auto simp: eff_simps split: prod.splits sum.splits if_splits)
  from tx obtain x v1 v2 z where run: "?q (begin_frag e) w1 = (Inr x, v1)"
    "each_eff (bulk_step ?q e schema table ?pk) ps v1 = (Inr rs, v2)" "?q commit_frag v2 = (Inr z, w0)"
    unfolding engine_withTransaction_eq by (cases rule: transaction_run) auto
  obtain fss where fss: "list_all2 (prepared_sends e (grid_ref schema table) ?pk) ps fss"
    "wWire v2 = wWire v1 @ map (Pair (client_channel e)) (concat fss)" "length rs = length ps"
    using bulk_loop_sends [OF run(2)] by blast
  have wires: "wWire v1 = wWire w1 @ [(client_channel e, begin_frag e)]" "wWire w0 = wWire v2 @ [(client_channel e, commit_frag)]"
    using run(1,3) by (metis snd_conv wire_send)+
  have "list_all2 (\<lambda>r p. prepare_row columns ?pk schema table r = Inr p) edited ps"
    using ps by (simp add: traverse_Inr_iff)
  then have "list_all2 (\<lambda>r fs. \<exists>guard. resolveGuard r columns schema table = Inr guard \<and>
          edit_sends e (grid_ref schema table) ?pk (breEdits r) (key_values (brePrimaryKey r) ?pk) guard fs) edited fss"
    using fss(1) by (rule list_all2_trans [rotated]) (rule prepared_row_sends)
  with fss(2,3) wires wire traverse_length [OF ps] show ?thesis
    by (intro exI [of _ fss]) simp
qed

subsection \<open>A masked value is redacted or its reveal is on record\<close>

definition masked_cell :: "js_val \<Rightarrow> bool" where
  "masked_cell v \<longleftrightarrow> nullish v \<or> v = JStr MASK_TOKEN"

definition reveal_recorded ::
  "string \<Rightarrow> string \<Rightarrow> string \<Rightarrow> string \<Rightarrow> string list \<Rightarrow> audit_entry list \<Rightarrow> bool" where
  "reveal_recorded userId connectionId schema table masked trail \<longleftrightarrow>
     (\<exists>x \<in> set trail. aeUser x = userId \<and> aeConnection x = connectionId \<and> aeAction x = ''reveal'' \<and>
        aeSql x = ''REVEAL '' @ schema @ ''.'' @ table @ '' ('' @ join '', '' masked @ '')'')"

lemma redacted_cell:
  assumes "r \<in> set (redactRows rows masked)" "c \<in> set masked"
  shows "masked_cell (get_prop r c)"
  using assms by (auto simp: redactRows_eq get_redactRow masked_cell_def redactValue_def)

definition audit_grows :: "'d world \<Rightarrow> 'd world \<Rightarrow> bool" where
  "audit_grows w w' \<longleftrightarrow> (\<exists>xs. wAudit w' = wAudit w @ xs)"

interpretation growing: step_relation audit_grows
  by unfold_locales (auto simp: audit_grows_def)

lemma growing_run: "keeps audit_grows (grid_run env f)"
  by (simp add: keeps_def audit_grows_def grid_run_def)

lemma recordReveal_run:
  "recordReveal userId connectionId schema table masked w = (Inr (),
     audited [\<lparr>aeUser = userId, aeConnection = connectionId, aeAction = ''reveal'', aeSchema = Some schema,
        aeTable = Some table, aeSql = ''REVEAL '' @ schema @ ''.'' @ table @ '' ('' @ join '', '' masked @ '')'',
        aeOutcome = Success, aeErrorClass = None, aeCorrelation = None\<rparr>] w)"
  by (simp add: recordReveal_def withAudit_run audit_record_def auditBase_def)

text \<open>What \<open>getRows\<close> does once the page is read.\<close>

definition after_page ::
  "'d grid_env \<Rightarrow> engine \<Rightarrow> string \<Rightarrow> string \<Rightarrow> get_rows_options \<Rightarrow> column_metadata list \<Rightarrow> string list \<Rightarrow>
   string \<times> js_val list \<Rightarrow> driver_result \<Rightarrow> ('d world, grid_response) eff" where
  "after_page env e schema table options columns masked compiled r =
     (let primaryKey = primary_key_of columns;
          redacting = (masked \<noteq> [] \<and> \<not> groReveal options);
          wantForeignKeys = (optOffset (page_options options columns e compiled) = 0) in
     bind_eff (if wantForeignKeys then bestEffort (geForeignKeys env schema table) else ret None) (\<lambda>foreignKeys.
     bind_eff (if wantForeignKeys then bestEffort (geReferencingKeys env schema table) else ret None) (\<lambda>referencingKeys.
     bind_eff (if has_filter options then getFilteredRowCount env e schema table (fst compiled) (snd compiled)
               else getApproximateRowCount env e schema table) (\<lambda>totalRows.
     ret \<lparr>grRows = (if redacting then redactRows (drRows r) masked else drRows r),
          grColumns = columns,
          grTotalRows = totalRows,
          grEditable = (primaryKey \<noteq> []),
          grSourceTable = schema @ ''.'' @ table,
          grPrimaryKey = primaryKey,
          grConcurrency = (if primaryKey \<noteq> [] then Some (engine_concurrency e) else None),
          grForeignKeys = foreignKeys,
          grReferencingKeys = referencingKeys,
          grMaskedColumns = (if redacting then Some masked else None)\<rparr>))))"

lemma getRows_after_page:
  "getRows env connectionId schema table options =
     bind_eff (lift_res (geDriver env)) (\<lambda>e.
     bind_eff (resolveTable env schema table) (\<lambda>columns.
     bind_eff (lift_res (resolveMasked env (groUser options) connectionId schema table (primary_key_of columns))) (\<lambda>masked.
     bind_eff (lift_res (compiled_filter options columns e)) (\<lambda>compiled.
     bind_eff (reveal_step connectionId schema table options masked) (\<lambda>_.
     bind_eff (lift_res (buildSelectRows e (grid_ref schema table) (page_options options columns e compiled))) (\<lambda>frag.
     bind_eff (grid_run env frag) (after_page env e schema table options columns masked compiled)))))))"
  by (simp add: getRows_def after_page_def [abs_def] Let_def)

lemma after_page_rows:
  assumes "after_page env e schema table options columns masked compiled r w = (Inr resp, w')"
  shows "grRows resp = (if masked \<noteq> [] \<and> \<not> groReveal options then redactRows (drRows r) masked else drRows r)"
    "grPrimaryKey resp = primary_key_of columns"
  using assms unfolding after_page_def Let_def by (auto elim!: bind_eff_cases)

lemma growing_after_page:
  assumes "keeps audit_grows (geForeignKeys env schema table)" "keeps audit_grows (geReferencingKeys env schema table)"
  shows "keeps audit_grows (after_page env e schema table options columns masked compiled r)"
  unfolding after_page_def bestEffort_def getFilteredRowCount_def getApproximateRowCount_def Let_def
  by (auto intro!: growing.keeps_intros growing_run assms)

text \<open>
  C26. A masked value leaves the service only when asked for, and then on record if the audit entry can be
  written: of a page that is returned, each cell of a column the user has masked, outside the primary key, holds
  no value or the mask token, or the user asked for a reveal, and the audit trail has the user's reveal of
  exactly the masked columns of that table unless the write of that entry failed.
\<close>

theorem getRows_masked_or_recorded:
  assumes "getRows env connectionId schema table options w = (Inr resp, w')"
    "resolveMasked env (groUser options) connectionId schema table (grPrimaryKey resp) = Inr masked"
    "keeps no_audit (geColumns env schema table)"
    "keeps audit_grows (geForeignKeys env schema table)" "keeps audit_grows (geReferencingKeys env schema table)"
    "row \<in> set (grRows resp)" "c \<in> set masked"
  shows "masked_cell (get_prop row c) \<or>
    groReveal options \<and> (audit_write_ok w \<longrightarrow>
      reveal_recorded (the (groUser options)) connectionId schema table masked (wAudit w'))"
proof -
  obtain e columns m compiled w1 w2 frag r w3 where
    m: "resolveMasked env (groUser options) connectionId schema table (primary_key_of columns) = Inr m"
    and cols: "resolveTable env schema table w = (Inr columns, w1)"
    and reveal: "reveal_step connectionId schema table options m w1 = (Inr (), w2)"
    and run: "grid_run env frag w2 = (Inr r, w3)"
    and after: "after_page env e schema table options columns m compiled r w3 = (Inr resp, w')"
    using assms(1) unfolding getRows_after_page by (auto elim!: bind_eff_cases)
  have masked: "masked = m" using assms(2) m after_page_rows(2) [OF after] by simp
  show ?thesis
  proof (cases "groReveal options")
    case False
    then have "masked_cell (get_prop row c)"
      using after_page_rows(1) [OF after] assms(6,7) redacted_cell masked by (auto split: if_splits)
    then show ?thesis ..
  next
    case True
    have "groUser options \<noteq> None" "m \<noteq> []"
      using m masked assms(7) by (auto simp: resolveMasked_def split: option.splits)
    with reveal True have w2: "w2 = snd (recordReveal (the (groUser options)) connectionId schema table m w1)"
      by (auto simp: reveal_step_def)
    have "audit_grows w2 w3" "audit_grows w3 w'"
      using growing_run [of env frag] run growing_after_page [OF assms(4,5)] after
      unfolding keeps_def by (metis snd_conv)+
    then obtain xs where "wAudit w' = wAudit w2 @ xs"
      using growing.trans_R audit_grows_def by blast
    moreover have "keeps no_audit (resolveTable env schema table)"
      unfolding resolveTable_def by (auto intro!: unaudited.keeps_intros assms(3))
    then have "audit_write_ok w1 = audit_write_ok w"
      using cols unfolding keeps_def no_audit_def audit_write_ok_def by (metis snd_conv)
    ultimately show ?thesis
      using True by (simp add: reveal_recorded_def w2 recordReveal_run masked audit_audited_one)
  qed
qed

subsection \<open>Witnesses\<close>

text \<open>A database with one number: what is committed, and the value inside the open transaction.\<close>

type_synonym tally = "int \<times> int option"

definition tally_exec :: "row list \<Rightarrow> tally exec" where
  "tally_exec answer ch f d =
     (let ok = \<lambda>xs n. Inr \<lparr>drRows = xs, drFields = [], drRowCount = n, drCommand = [], drLastInsertId = JUndef\<rparr>
      in if f = begin_frag Sqlite then (ok [] None, (fst d, Some (fst d)))
         else if f = commit_frag then (ok [] None, (case snd d of Some v \<Rightarrow> (v, None) | None \<Rightarrow> d))
         else if f = rollback_frag then (ok [] None, (fst d, None))
         else (ok answer (Some (length answer)), map_prod id (map_option ((+) 1)) d))"

definition tally_columns :: "column_metadata list" where
  "tally_columns =
     (let col = \<lambda>name pk. \<lparr>colName = name, dataType = ''integer'', nullable = \<not> pk, isPrimaryKey = pk,
        autoIncrement = False, defaultValue = None, colComment = None, nativeType = None, nativeDefinition = None\<rparr>
      in [col ''id'' True, col ''a'' False, col ''b'' False])"

definition tally_env :: "row list \<Rightarrow> tally grid_env" where
  "tally_env answer = \<lparr>geDriver = Inr Sqlite, geReadOnly = Inr False, geExec = tally_exec answer,
     gePreferences = (\<lambda>_. Inr (Some [(''c'', [(''s.t'', [''b''])])])), geColumns = (\<lambda>_ _. ret tally_columns),
     geForeignKeys = (\<lambda>_ _. ret []), geReferencingKeys = (\<lambda>_ _. ret [])\<rparr>"

definition tally_world :: "tally world" where
  "tally_world = \<lparr>wDb = (0, None), wWire = [], wAudit = [], wAuditWrites = [], wHistory = []\<rparr>"

definition tally_edit :: bulk_row_edit where
  "tally_edit = \<lparr>brePrimaryKey = [(''id'', JNum 7)], breEdits = [(''a'', JNum 1)], breVersion = None,
     breExpected = Some [(''a'', JNull)]\<rparr>"

definition tally_user :: write_context where
  "tally_user = \<lparr>wcUser = ''u'', wcCorrelation = None\<rparr>"

lemma tally_env_simps [simp]:
  "geDriver (tally_env answer) = Inr Sqlite" "geReadOnly (tally_env answer) = Inr False"
  "geExec (tally_env answer) = tally_exec answer" "geColumns (tally_env answer) s t = ret tally_columns"
  "geForeignKeys (tally_env answer) s t = ret []" "geReferencingKeys (tally_env answer) s t = ret []"
  "gePreferences (tally_env answer) u = Inr (Some [(''c'', [(''s.t'', [''b''])])])"
  by (simp_all add: tally_env_def)

lemma row_statement_not_bracket:
  "row_statement Sqlite f \<Longrightarrow> f \<noteq> commit_frag \<and> f \<noteq> rollback_frag"
  by (auto simp: row_statement_def buildUpdateRowGuarded_def sqliteBuildUpdateRowGuarded_def buildSelectRows_def
      sqliteBuildSelectRows_def fragment_Inr render_Cons_Inr piece_text_def commit_frag_def rollback_frag_def plain_frag_def
      split: row_update_guard.splits) (metis row_update_guard.exhaust)+

lemma tally_holds_back:
  "holds_back Sqlite (tally_exec answer) fst (\<lambda>d. snd d \<noteq> None) (row_statement Sqlite)"
  using row_statement_not_bracket
  by (auto simp: holds_back_def tally_exec_def Let_def begin_frag_def commit_frag_def rollback_frag_def plain_frag_def
      split: option.splits if_splits)

lemma tally_update:
  "buildUpdateRowGuarded Sqlite (grid_ref ''s'' ''t'') [(''a'', JNum 1)] [''id''] [JNum 7] (GuardPreimage [''a''] [JNull])
   = Inr \<lparr>fragSql = ''UPDATE \"s\".\"t\" SET \"a\" = ? WHERE \"id\" = ? AND \"a\" IS ? RETURNING *'',
          fragParams = [JNum 1, JNum 7, JNull]\<rparr>"
  by (simp add: buildUpdateRowGuarded_def sqliteBuildUpdateRowGuarded_def render_eval grid_ref_def)

lemmas tally_eval = assertWritable_def resolveTable_def tally_columns_def primary_key_of_def Let_def assertEditable_def
  assertColumn_def assertPrimaryKeyMatches_def resolveMasked_def maskedColumnsFor_def tableKey_def tally_user_def eff_simps

lemma tally_prepared:
  "traverse (prepare_row tally_columns [''id''] ''s'' ''t'') [tally_edit] =
     Inr [\<lparr>peKeyValues = [JNum 7], peEdits = [(''a'', JNum 1)], peGuard = GuardPreimage [''a''] [JNull]\<rparr>]"
  by (simp add: prepare_row_def validateBulkRow_def resolveGuard_def tally_edit_def key_values_def tally_eval)

lemma tally_bulk_body:
  "bulkUpdate_body (tally_env answer) ''c'' ''s'' ''t'' [tally_edit] [''a''] tally_user w =
     engine_withTransaction Sqlite (tally_exec answer) (\<lambda>q. each_eff (bulk_step q Sqlite ''s'' ''t'' [''id''])
       [\<lparr>peKeyValues = [JNum 7], peEdits = [(''a'', JNum 1)], peGuard = GuardPreimage [''a''] [JNull]\<rparr>]) w"
  using tally_prepared
  by (simp add: bulkUpdate_body_def assertNotMasked_def tally_eval)

lemmas tally_run = engine_withTransaction_eq commit_or_rollback_def bulk_step_def tally_update send_def tally_exec_def
  client_channel_def begin_frag_def commit_frag_def rollback_frag_def plain_frag_def tally_world_def first_row_def
  ignore_errors_def row_changed_def eff_simps

lemma tally_conflict:
  "isl (fst (bulkUpdate (tally_env []) ''c'' ''s'' ''t'' [tally_edit] tally_user tally_world))"
proof -
  have c: "bulk_columns [tally_edit] = [''a'']" by (simp add: bulk_columns_def tally_edit_def)
  show ?thesis
    by (simp add: bulkUpdate_def withAudit_run c tally_bulk_body) (simp add: tally_run Let_def)
qed

theorem bulkUpdate_all_or_nothing_witness:
  "fst (wDb (snd (bulkUpdate (tally_env []) ''c'' ''s'' ''t'' [tally_edit] tally_user tally_world))) = 0"
proof -
  obtain err w' where run: "bulkUpdate (tally_env []) ''c'' ''s'' ''t'' [tally_edit] tally_user tally_world = (Inl err, w')"
    using tally_conflict by (metis isl_def prod.collapse)
  have dr: "geDriver (tally_env []) = Inr Sqlite" by simp
  have hb: "holds_back Sqlite (geExec (tally_env [])) fst (\<lambda>d. snd d \<noteq> None) (row_statement Sqlite)"
    unfolding tally_env_simps by (rule tally_holds_back)
  have cat: "keeps (\<lambda>w w'. fst (wDb w') = fst (wDb w)) (geColumns (tally_env []) ''s'' ''t'')"
    by (simp add: keeps_def)
  have "fst (wDb w') = fst (wDb tally_world)" by (rule bulkUpdate_all_or_nothing [OF dr hb cat run])
  with run show ?thesis by (simp add: tally_world_def)
qed

lemma tally_saved:
  "\<exists>w'. bulkUpdate (tally_env [x]) ''c'' ''s'' ''t'' [tally_edit] tally_user tally_world = (Inr [Some x], w')"
proof -
  have c: "bulk_columns [tally_edit] = [''a'']" by (simp add: bulk_columns_def tally_edit_def)
  show ?thesis
    by (simp add: bulkUpdate_def withAudit_run c tally_bulk_body) (simp add: tally_run Let_def)
qed

theorem bulkUpdate_sends_witness:
  "\<exists>fss. wWire (snd (bulkUpdate (tally_env [[]]) ''c'' ''s'' ''t'' [tally_edit] tally_user tally_world)) =
     map (Pair Pooled) (begin_frag Sqlite # concat fss @ [commit_frag]) \<and> length fss = 1"
proof -
  obtain w' where run: "bulkUpdate (tally_env [[]]) ''c'' ''s'' ''t'' [tally_edit] tally_user tally_world = (Inr [Some []], w')"
    using tally_saved by blast
  have cols: "geColumns (tally_env [[]]) ''s'' ''t'' tally_world = (Inr tally_columns, tally_world)" by simp
  have dr: "geDriver (tally_env [[]]) = Inr Sqlite" by simp
  have ch: "client_channel Sqlite = Pooled" "wWire tally_world = []" by (simp_all add: client_channel_def tally_world_def)
  have "\<exists>fss. length [tally_edit] = length fss \<and>
      wWire w' = map (Pair Pooled) (begin_frag Sqlite # concat fss @ [commit_frag])"
    using bulkUpdate_sends [OF dr cols run, unfolded ch append_Nil] by (blast dest: list_all2_lengthD)
  then show ?thesis using run by simp metis
qed

theorem grid_write_audited_witness:
  "map aeSql (wAudit (snd (run_write (tally_env []) ''c'' ''s'' ''t'' (DeleteRow [(''id'', JNum 7)]) tally_user tally_world)))
   = [''DELETE FROM s.t WHERE id = ?'']"
proof -
  obtain r w' where run: "run_write (tally_env []) ''c'' ''s'' ''t'' (DeleteRow [(''id'', JNum 7)]) tally_user tally_world = (r, w')"
    by fastforce
  have "keeps no_audit (geColumns (tally_env []) ''s'' ''t'')" by (simp add: keeps_def no_audit_def)
  from grid_write_audited [OF this run] run show ?thesis
    by (simp add: buildAuditSql_def tally_world_def)
qed

lemma tally_key:
  "primary_key_of tally_columns = [''id'']" "tally_columns \<noteq> []"
  "assertEditable [''id''] s t = Inr ()" "assertPrimaryKeyMatches [(''id'', v)] [''id''] s t = Inr ()"
  by (simp_all add: tally_columns_def primary_key_of_def Let_def assertEditable_def assertPrimaryKeyMatches_def)

lemma tally_delete_sends:
  "wWire (snd (run_write (tally_env []) ''c'' ''s'' ''t'' (DeleteRow [(''id'', JNum 7)]) tally_user tally_world)) \<noteq> []"
  by (simp add: run_write_def deleteRow_def withAudit_run deleteRow_body_def assertWritable_def resolveTable_def Let_def
      tally_key buildDeleteRow_def sqliteBuildDeleteRow_def render_eval grid_ref_def key_values_def grid_run_def tally_run audit_record_def)

theorem grid_write_gate_witness:
  "let_through (tally_env []) ''c'' ''s'' ''t'' (DeleteRow [(''id'', JNum 7)]) tally_user tally_columns"
proof -
  obtain r w' where run: "run_write (tally_env []) ''c'' ''s'' ''t'' (DeleteRow [(''id'', JNum 7)]) tally_user tally_world = (r, w')"
    by fastforce
  have cols: "geColumns (tally_env []) ''s'' ''t'' tally_world = (Inr tally_columns, tally_world)" by simp
  have "wWire w' \<noteq> wWire tally_world" using tally_delete_sends run by (simp add: tally_world_def)
  from grid_write_gate [OF cols run this this] show ?thesis by simp
qed

text \<open>The rows a write hands back are not redacted: the batch returns the value of a column the user has masked.\<close>

lemma bulk_returns_masked:
  "resolveMasked (tally_env answer) (Some (wcUser tally_user)) ''c'' ''s'' ''t'' [''id''] = Inr [''b'']"
  "\<exists>w'. bulkUpdate (tally_env [[(''b'', JNum 3)]]) ''c'' ''s'' ''t'' [tally_edit] tally_user tally_world
     = (Inr [Some [(''b'', JNum 3)]], w')"
  using tally_saved by (simp_all add: resolveMasked_def tally_user_def maskedColumnsFor_def tableKey_def)

definition tally_read :: get_rows_options where
  "tally_read = \<lparr>groLimit = None, groOffset = Some 5, groSortBy = None, groSortDesc = False, groFilter = None,
     groUser = Some ''u'', groReveal = False\<rparr>"

lemma tally_masked:
  "resolveMasked (tally_env answer) (groUser tally_read) ''c'' ''s'' ''t'' [''id''] = Inr [''b'']"
  by (simp add: resolveMasked_def tally_read_def maskedColumnsFor_def tableKey_def)

lemma tally_page:
  "\<exists>resp w'. getRows (tally_env [[(''b'', JNum 3)]]) ''c'' ''s'' ''t'' tally_read tally_world = (Inr resp, w') \<and>
     grRows resp = redactRows [[(''b'', JNum 3)]] [''b''] \<and> grPrimaryKey resp = [''id'']"
  by (simp add: getRows_def tally_read_def resolveTable_def Let_def tally_key resolveMasked_def maskedColumnsFor_def tableKey_def
      eff_simps compiled_filter_def page_options_def order_column_def reveal_step_def
      engine_concurrency_def buildSelectRows_def sqliteBuildSelectRows_def where_pieces_def order_pieces_def sort_text_def
      render_eval grid_ref_def grid_run_def tally_run has_filter_def getApproximateRowCount_def buildRowCountEstimate_def
      sqliteBuildRowCountEstimate_def count_column_def)

text \<open>The same page with the values revealed.\<close>

definition tally_reveal :: get_rows_options where
  "tally_reveal = tally_read\<lparr>groReveal := True\<rparr>"

lemma tally_reveal_page:
  "\<exists>resp w'. getRows (tally_env [[(''b'', JNum 3)]]) ''c'' ''s'' ''t'' tally_reveal w = (Inr resp, w') \<and>
     grRows resp = [[(''b'', JNum 3)]] \<and> grPrimaryKey resp = [''id''] \<and>
     wAudit w' = wAudit (snd (recordReveal ''u'' ''c'' ''s'' ''t'' [''b''] w))"
  by (simp add: getRows_def tally_reveal_def tally_read_def resolveTable_def Let_def tally_key resolveMasked_def maskedColumnsFor_def
      tableKey_def eff_simps compiled_filter_def page_options_def order_column_def reveal_step_def
      engine_concurrency_def buildSelectRows_def sqliteBuildSelectRows_def where_pieces_def order_pieces_def sort_text_def
      render_eval grid_ref_def grid_run_def tally_run has_filter_def getApproximateRowCount_def buildRowCountEstimate_def
      sqliteBuildRowCountEstimate_def count_column_def recordReveal_run)

theorem getRows_masked_or_recorded_witness:
  "\<exists>resp w'. getRows (tally_env [[(''b'', JNum 3)]]) ''c'' ''s'' ''t'' tally_reveal tally_world = (Inr resp, w') \<and>
     get_prop (hd (grRows resp)) ''b'' = JNum 3 \<and> reveal_recorded ''u'' ''c'' ''s'' ''t'' [''b''] (wAudit w')"
proof -
  obtain resp w' where run: "getRows (tally_env [[(''b'', JNum 3)]]) ''c'' ''s'' ''t'' tally_reveal tally_world = (Inr resp, w')"
    and rows: "grRows resp = [[(''b'', JNum 3)]]" "grPrimaryKey resp = [''id'']"
    using tally_reveal_page by blast
  have m: "resolveMasked (tally_env [[(''b'', JNum 3)]]) (groUser tally_reveal) ''c'' ''s'' ''t'' (grPrimaryKey resp) = Inr [''b'']"
    unfolding rows(2) by (simp add: resolveMasked_def tally_reveal_def tally_read_def maskedColumnsFor_def tableKey_def)
  have quiet: "keeps no_audit (geColumns (tally_env [[(''b'', JNum 3)]]) ''s'' ''t'')"
    "keeps audit_grows (geForeignKeys (tally_env [[(''b'', JNum 3)]]) ''s'' ''t'')"
    "keeps audit_grows (geReferencingKeys (tally_env [[(''b'', JNum 3)]]) ''s'' ''t'')"
    by (simp_all add: keeps_def no_audit_def audit_grows_def)
  have "hd (grRows resp) \<in> set (grRows resp)" by (simp add: rows(1))
  from getRows_masked_or_recorded [OF run m quiet this, of "''b''"] run rows(1) show ?thesis
    by (simp add: masked_cell_def nullish_def audit_write_ok_def tally_world_def tally_reveal_def tally_read_def)
qed

text \<open>
  The write of the audit entry is neither awaited nor checked: when it fails, the masked values are returned all
  the same and no trace of the reveal is left.
\<close>

lemma reveal_lost:
  "\<exists>resp w'. getRows (tally_env [[(''b'', JNum 3)]]) ''c'' ''s'' ''t'' tally_reveal (tally_world\<lparr>wAuditWrites := [False]\<rparr>) = (Inr resp, w') \<and>
     get_prop (hd (grRows resp)) ''b'' = JNum 3 \<and> wAudit w' = []"
proof -
  let ?w = "tally_world\<lparr>wAuditWrites := [False]\<rparr>"
  obtain resp w' where "getRows (tally_env [[(''b'', JNum 3)]]) ''c'' ''s'' ''t'' tally_reveal ?w = (Inr resp, w')"
    "grRows resp = [[(''b'', JNum 3)]]" "wAudit w' = wAudit (snd (recordReveal ''u'' ''c'' ''s'' ''t'' [''b''] ?w))"
    using tally_reveal_page by blast
  then show ?thesis by (simp add: recordReveal_run audited_def tally_world_def)
qed

end
