(* ===== verification/CursorSession.thy ===== *)
theory CursorSession
  imports Paging JsMap
begin

text \<open>
  \<open>query/cursor-session.service.ts\<close>: the sessions of forward-only streaming cursors. The service's
  state is one JavaScript map of sessions. Its methods await the pool, the driver and the metadata
  service; each stretch between two \<open>await\<close>s is one operation here, \<open>openStream\<close> and \<open>fetchStream\<close> compose
  them into the methods, and \<open>cs_step\<close> interleaves the stretches of any number of calls. \<open>ssCursors\<close>
  holds the driver's open cursors with the rows they have not served, \<open>ssOpening\<close> the calls of \<open>open\<close> that
  passed the capacity check and have not ended, \<open>ssFetching\<close> the fetches that wait for their block. A
  session id (\<open>randomUUID\<close>) is a fresh number.
\<close>

record cursor_session =
  csConnection :: string
  csUser :: string
  csCursor :: nat
  csPosition :: nat
  csLastUsed :: int

record stream_config =
  scIdleMs :: int
  scMaxRows :: nat
  scMaxSessions :: nat
  scMaxPerConnection :: nat

record stream_state =
  ssSessions :: "(nat \<times> cursor_session) list"
  ssCursors :: "(nat \<times> row list) list"
  ssOpening :: "(nat \<times> string) list"
  ssFetching :: "(nat \<times> nat) list"
  ssNext :: nat

definition ss_init :: stream_state where
  "ss_init = \<lparr>ssSessions = [], ssCursors = [], ssOpening = [], ssFetching = [], ssNext = 0\<rparr>"

subsection \<open>The driver's cursor\<close>

text \<open>
  The three drivers' \<open>fetch\<close>: up to \<open>n\<close> rows; the cursor is complete, and closes itself, when it has
  fewer. A cursor that was closed fails.
\<close>

definition closeCursor :: "nat \<Rightarrow> stream_state \<Rightarrow> stream_state" where
  "closeCursor c st = st\<lparr>ssCursors := jm_del c (ssCursors st)\<rparr>"

definition cursorFetch :: "nat \<Rightarrow> nat \<Rightarrow> stream_state \<Rightarrow> (row list \<times> bool) res \<times> stream_state" where
  "cursorFetch c n st =
     (case map_of (ssCursors st) c of
        None \<Rightarrow> (Inl (DriverError None ''Cursor is closed''), st)
      | Some rest \<Rightarrow>
          (let complete = length (take n rest) < n
           in (Inr (take n rest, complete),
               if complete then closeCursor c st else st\<lparr>ssCursors := jm_set c (drop n rest) (ssCursors st)\<rparr>)))"

subsection \<open>Sessions\<close>

definition closeSession :: "nat \<Rightarrow> stream_state \<Rightarrow> stream_state" where
  "closeSession sessionId st =
     (case map_of (ssSessions st) sessionId of
        None \<Rightarrow> st
      | Some session \<Rightarrow> closeCursor (csCursor session) (st\<lparr>ssSessions := jm_del sessionId (ssSessions st)\<rparr>))"

definition requireSession :: "string \<Rightarrow> string \<Rightarrow> nat \<Rightarrow> stream_state \<Rightarrow> cursor_session res" where
  "requireSession connectionId userId sessionId st =
     (case map_of (ssSessions st) sessionId of
        None \<Rightarrow> Inl (NotFound ''Cursor session not found or expired'')
      | Some session \<Rightarrow>
          if csConnection session \<noteq> connectionId \<or> csUser session \<noteq> userId
          then Inl (NotFound ''Cursor session not found or expired'')
          else Inr session)"

definition perConnection :: "string \<Rightarrow> stream_state \<Rightarrow> nat" where
  "perConnection connectionId st = length (filter (\<lambda>e. csConnection (snd e) = connectionId) (ssSessions st))"

definition assertCapacity :: "stream_config \<Rightarrow> string \<Rightarrow> stream_state \<Rightarrow> unit res" where
  "assertCapacity cfg connectionId st =
     (if length (ssSessions st) \<ge> scMaxSessions cfg
      then Inl (ServiceUnavailable ''Too many active streaming sessions; try again shortly'')
      else if perConnection connectionId st \<ge> scMaxPerConnection cfg
      then Inl (ServiceUnavailable ''Too many active streams on this connection; close one and retry'')
      else Inr ())"

subsection \<open>open\<close>

definition cursorSql :: "string \<Rightarrow> query_order_by option \<Rightarrow> string res" where
  "cursorSql statementText sortBy =
     (case sortBy of None \<Rightarrow> Inr statementText | Some orderBy \<Rightarrow> buildOrderedStatement statementText orderBy)"

text \<open>The checks before the first \<open>await\<close> on the pool; a call that passes is in flight.\<close>

definition open_admit :: "stream_config \<Rightarrow> bool \<Rightarrow> string \<Rightarrow> stream_state \<Rightarrow> nat res \<times> stream_state" where
  "open_admit cfg canStream connectionId st =
     (if \<not> canStream then (Inl (BadRequest ''Streaming is not supported for this engine''), st)
      else case assertCapacity cfg connectionId st of
             Inl e \<Rightarrow> (Inl e, st)
           | Inr _ \<Rightarrow> (Inr (ssNext st), st\<lparr>ssOpening := (ssNext st, connectionId) # ssOpening st, ssNext := Suc (ssNext st)\<rparr>))"

definition open_ends :: "nat \<Rightarrow> stream_state \<Rightarrow> stream_state" where
  "open_ends c st = st\<lparr>ssOpening := jm_del c (ssOpening st)\<rparr>"

definition open_cursor :: "nat \<Rightarrow> row list \<Rightarrow> stream_state \<Rightarrow> stream_state" where
  "open_cursor c rs st = st\<lparr>ssCursors := jm_set c rs (ssCursors st)\<rparr>"

text \<open>The first block; when it fails the cursor is closed and the call ends.\<close>

definition open_first :: "nat \<Rightarrow> stream_state \<Rightarrow> (row list \<times> bool) res \<times> stream_state" where
  "open_first c st = cursorFetch c QUERY_PAGE_SIZE st"

definition open_fetch_failed :: "nat \<Rightarrow> stream_state \<Rightarrow> stream_state" where
  "open_fetch_failed c st = open_ends c (closeCursor c st)"

record stream_block =
  sbSession :: nat
  sbRows :: "row list"
  sbComplete :: bool
  sbTruncated :: bool

definition open_finish ::
  "stream_config \<Rightarrow> nat \<Rightarrow> string \<Rightarrow> string \<Rightarrow> row list \<Rightarrow> bool \<Rightarrow> int \<Rightarrow> stream_state \<Rightarrow> stream_block \<times> stream_state" where
  "open_finish cfg c connectionId userId rs complete now st =
     (let truncated = (\<not> complete \<and> length rs \<ge> scMaxRows cfg);
          ended = (complete \<or> truncated);
          sessionId = ssNext st;
          session = \<lparr>csConnection = connectionId, csUser = userId, csCursor = c, csPosition = length rs, csLastUsed = now\<rparr>;
          st1 = st\<lparr>ssNext := Suc (ssNext st)\<rparr>;
          st2 = (if ended then closeCursor c st1
                 else st1\<lparr>ssSessions := jm_set sessionId session (ssSessions st1)\<rparr>)
      in (\<lparr>sbSession = sessionId, sbRows = rs, sbComplete = ended, sbTruncated = truncated\<rparr>, open_ends c st2))"

text \<open>
  The method, run alone. \<open>opened\<close> is what \<open>pool.openCursor\<close> answers for the statement (the rows of the
  result, or its failure), \<open>described\<close> what the editability and column lookups answer.
\<close>

definition openStream ::
  "stream_config \<Rightarrow> bool \<Rightarrow> string \<Rightarrow> string \<Rightarrow> string \<Rightarrow> query_order_by option \<Rightarrow>
   (sql_fragment \<Rightarrow> row list res) \<Rightarrow> unit res \<Rightarrow> int \<Rightarrow> stream_state \<Rightarrow> stream_block res \<times> stream_state" where
  "openStream cfg canStream connectionId userId statementText sortBy opened described now st =
     (case open_admit cfg canStream connectionId st of
        (Inl e, st0) \<Rightarrow> (Inl e, st0)
      | (Inr c, st0) \<Rightarrow>
          (case res_bind (cursorSql statementText sortBy) (\<lambda>sql. opened \<lparr>fragSql = sql, fragParams = []\<rparr>) of
             Inl e \<Rightarrow> (Inl e, open_ends c st0)
           | Inr rs \<Rightarrow>
               (case open_first c (open_cursor c rs st0) of
                  (Inl e, st1) \<Rightarrow> (Inl e, open_fetch_failed c st1)
                | (Inr (rows, complete), st1) \<Rightarrow>
                    (case described of
                       Inl e \<Rightarrow> (Inl e, open_ends c st1)
                     | Inr _ \<Rightarrow>
                         (let (block, st2) = open_finish cfg c connectionId userId rows complete now st1
                          in (Inr block, st2))))))"

subsection \<open>fetch, close and reap\<close>

definition fetch_begin ::
  "stream_config \<Rightarrow> string \<Rightarrow> string \<Rightarrow> nat \<Rightarrow> nat \<Rightarrow> int \<Rightarrow> stream_state \<Rightarrow> nat option res \<times> stream_state" where
  "fetch_begin cfg connectionId userId sessionId limit now st =
     (case requireSession connectionId userId sessionId st of
        Inl e \<Rightarrow> (Inl e, st)
      | Inr session \<Rightarrow>
          (let st1 = st\<lparr>ssSessions := jm_set sessionId (session\<lparr>csLastUsed := now\<rparr>) (ssSessions st)\<rparr>
           in if scMaxRows cfg \<le> csPosition session then (Inr None, closeSession sessionId st1)
              else (let blockSize = min limit (scMaxRows cfg - csPosition session)
                    in (Inr (Some blockSize), st1\<lparr>ssFetching := (sessionId, blockSize) # ssFetching st1\<rparr>))))"

text \<open>
  The block arrived for the session object the call holds; \<open>session.position += rows.length\<close> on an object
  the map has dropped meanwhile is not seen by any later call.
\<close>

definition fetch_end ::
  "stream_config \<Rightarrow> nat \<Rightarrow> nat \<Rightarrow> nat \<Rightarrow> stream_state \<Rightarrow> stream_block res \<times> stream_state" where
  "fetch_end cfg sessionId cursor blockSize st0 =
     (let st = st0\<lparr>ssFetching := remove1 (sessionId, blockSize) (ssFetching st0)\<rparr>
      in case cursorFetch cursor blockSize st of
           (Inl e, st1) \<Rightarrow> (Inl e, st1)
         | (Inr (rows, complete), st1) \<Rightarrow>
             (case map_of (ssSessions st1) sessionId of
                None \<Rightarrow> (Inr \<lparr>sbSession = sessionId, sbRows = rows, sbComplete = complete, sbTruncated = False\<rparr>, st1)
              | Some session \<Rightarrow>
                  (let position = csPosition session + length rows;
                       st2 = st1\<lparr>ssSessions := jm_set sessionId (session\<lparr>csPosition := position\<rparr>) (ssSessions st1)\<rparr>;
                       hitBudget = (\<not> complete \<and> position \<ge> scMaxRows cfg)
                   in (Inr \<lparr>sbSession = sessionId, sbRows = rows, sbComplete = (complete \<or> hitBudget), sbTruncated = hitBudget\<rparr>,
                       if complete \<or> hitBudget then closeSession sessionId st2 else st2))))"

definition fetchStream ::
  "stream_config \<Rightarrow> string \<Rightarrow> string \<Rightarrow> nat \<Rightarrow> nat \<Rightarrow> int \<Rightarrow> stream_state \<Rightarrow> stream_block res \<times> stream_state" where
  "fetchStream cfg connectionId userId sessionId limit now st =
     (case fetch_begin cfg connectionId userId sessionId limit now st of
        (Inl e, st1) \<Rightarrow> (Inl e, st1)
      | (Inr None, st1) \<Rightarrow> (Inr \<lparr>sbSession = sessionId, sbRows = [], sbComplete = True, sbTruncated = True\<rparr>, st1)
      | (Inr (Some blockSize), st1) \<Rightarrow>
          (case map_of (ssSessions st1) sessionId of
             None \<Rightarrow> (Inl (NotFound ''Cursor session not found or expired''), st1)
           | Some session \<Rightarrow> fetch_end cfg sessionId (csCursor session) blockSize st1))"

definition closeStream :: "string \<Rightarrow> string \<Rightarrow> nat \<Rightarrow> stream_state \<Rightarrow> unit res \<times> stream_state" where
  "closeStream connectionId userId sessionId st =
     (case map_of (ssSessions st) sessionId of
        None \<Rightarrow> (Inr (), st)
      | Some session \<Rightarrow>
          if csConnection session \<noteq> connectionId \<or> csUser session \<noteq> userId
          then (Inl (NotFound ''Cursor session not found''), st)
          else (Inr (), closeSession sessionId st))"

definition reap :: "stream_config \<Rightarrow> int \<Rightarrow> stream_state \<Rightarrow> stream_state" where
  "reap cfg now st =
     fold (\<lambda>(sessionId, session) s. if now - csLastUsed session > scIdleMs cfg then closeSession sessionId s else s)
       (ssSessions st) st"

subsection \<open>Every interleaving\<close>

text \<open>
  \<open>k\<close> bounds how many calls of \<open>open\<close> may be between their capacity check and their end at once, and a
  failed lookup after the first block is a step of its own (\<open>cs_lookup_failed\<close>): it ends the call and
  leaves the cursor.
\<close>

inductive cs_step :: "stream_config \<Rightarrow> nat \<Rightarrow> bool \<Rightarrow> stream_state \<Rightarrow> stream_state \<Rightarrow> bool" for cfg k lookups_fail where
  cs_admit: "length (ssOpening st) < k \<Longrightarrow> open_admit cfg True connectionId st = (Inr c, st') \<Longrightarrow> cs_step cfg k lookups_fail st st'"
| cs_not_opened: "c \<in> set (jm_keys (ssOpening st)) \<Longrightarrow> map_of (ssCursors st) c = None \<Longrightarrow>
    cs_step cfg k lookups_fail st (open_ends c st)"
| cs_opened: "c \<in> set (jm_keys (ssOpening st)) \<Longrightarrow> map_of (ssCursors st) c = None \<Longrightarrow>
    cs_step cfg k lookups_fail st (open_cursor c rs st)"
| cs_first: "c \<in> set (jm_keys (ssOpening st)) \<Longrightarrow> cs_step cfg k lookups_fail st (snd (open_first c st))"
| cs_fetch_failed: "c \<in> set (jm_keys (ssOpening st)) \<Longrightarrow> cs_step cfg k lookups_fail st (open_fetch_failed c st)"
| cs_lookup_failed: "lookups_fail \<Longrightarrow> cs_step cfg k lookups_fail st (open_ends c st)"
| cs_finish: "map_of (ssOpening st) c = Some connectionId \<Longrightarrow> complete \<or> c \<in> set (jm_keys (ssCursors st)) \<Longrightarrow>
    cs_step cfg k lookups_fail st (snd (open_finish cfg c connectionId userId rs complete now st))"
| cs_fetch_begin: "cs_step cfg k lookups_fail st (snd (fetch_begin cfg connectionId userId sessionId limit now st))"
| cs_fetch_end: "map_of (ssSessions st) sessionId = Some session \<Longrightarrow> (sessionId, blockSize) \<in> set (ssFetching st) \<Longrightarrow>
    cs_step cfg k lookups_fail st (snd (fetch_end cfg sessionId (csCursor session) blockSize st))"
| cs_fetch_late: "map_of (ssSessions st) sessionId = None \<Longrightarrow>
    cs_step cfg k lookups_fail st (st\<lparr>ssFetching := remove1 (sessionId, blockSize) (ssFetching st)\<rparr>)"
| cs_close: "cs_step cfg k lookups_fail st (snd (closeStream connectionId userId sessionId st))"
| cs_reap: "cs_step cfg k lookups_fail st (reap cfg now st)"

inductive cs_reachable :: "stream_config \<Rightarrow> nat \<Rightarrow> bool \<Rightarrow> stream_state \<Rightarrow> bool" for cfg k lookups_fail where
  cs_start: "cs_reachable cfg k lookups_fail ss_init"
| cs_next: "cs_reachable cfg k lookups_fail st \<Longrightarrow> cs_step cfg k lookups_fail st st' \<Longrightarrow> cs_reachable cfg k lookups_fail st'"

subsection \<open>The invariant\<close>

definition owns :: "stream_state \<Rightarrow> nat \<Rightarrow> nat \<Rightarrow> bool" where
  "owns st sessionId c \<longleftrightarrow> (\<exists>s. map_of (ssSessions st) sessionId = Some s \<and> csCursor s = c)"

definition fresh_ok :: "stream_state \<Rightarrow> bool" where
  "fresh_ok st \<longleftrightarrow> jm_ok (ssSessions st) \<and> jm_ok (ssOpening st) \<and>
     (\<forall>x \<in> set (jm_keys (ssSessions st)) \<union> set (jm_keys (ssOpening st)) \<union> set (jm_keys (ssCursors st)). x < ssNext st)"

definition owners_ok :: "stream_state \<Rightarrow> bool" where
  "owners_ok st \<longleftrightarrow>
     (\<forall>i c. owns st i c \<longrightarrow> c \<in> set (jm_keys (ssCursors st)) \<and> c \<notin> set (jm_keys (ssOpening st))) \<and>
     (\<forall>i j c. owns st i c \<longrightarrow> owns st j c \<longrightarrow> i = j)"

definition no_orphan :: "stream_state \<Rightarrow> bool" where
  "no_orphan st \<longleftrightarrow> (\<forall>c \<in> set (jm_keys (ssCursors st)). c \<in> set (jm_keys (ssOpening st)) \<or> (\<exists>i. owns st i c))"

definition cs_ok :: "bool \<Rightarrow> stream_state \<Rightarrow> bool" where
  "cs_ok lookups_fail st \<longleftrightarrow> fresh_ok st \<and> owners_ok st \<and> (lookups_fail \<or> no_orphan st)"

lemmas cs_inv = cs_ok_def fresh_ok_def owners_ok_def no_orphan_def

lemma cs_ok_frame:
  "cs_ok lf st \<Longrightarrow> ssSessions st' = ssSessions st \<Longrightarrow> ssOpening st' = ssOpening st \<Longrightarrow>
   jm_keys (ssCursors st') = jm_keys (ssCursors st) \<Longrightarrow> ssNext st' = ssNext st \<Longrightarrow> cs_ok lf st'"
  unfolding cs_inv owns_def by simp

lemma cs_ok_rows:
  assumes "cs_ok lf st" "c \<in> set (jm_keys (ssCursors st)) \<or> c \<in> set (jm_keys (ssOpening st))"
  shows "cs_ok lf (st\<lparr>ssCursors := jm_set c rs (ssCursors st)\<rparr>)"
  using assms unfolding cs_inv owns_def by auto

lemma owns_closeCursor [simp]: "owns (closeCursor c st) = owns st"
  by (simp add: owns_def closeCursor_def fun_eq_iff)

lemma cs_ok_closeCursor:
  assumes "cs_ok lf st" "c \<in> set (jm_keys (ssOpening st))"
  shows "cs_ok lf (closeCursor c st)"
  using assms unfolding cs_inv owns_closeCursor by (auto simp: closeCursor_def)

lemma cs_ok_open_ends:
  assumes "cs_ok lf st" "c \<notin> set (jm_keys (ssCursors st)) \<or> lf"
  shows "cs_ok lf (open_ends c st)"
proof -
  have "owns (open_ends c st) = owns st" by (simp add: owns_def open_ends_def fun_eq_iff)
  then show ?thesis using assms unfolding cs_inv by (auto simp: open_ends_def jm.ok_del)
qed

lemma cs_ok_update:
  assumes "cs_ok lf st" "map_of (ssSessions st) i = Some s" "csCursor s' = csCursor s"
  shows "cs_ok lf (st\<lparr>ssSessions := jm_set i s' (ssSessions st)\<rparr>)"
proof -
  have "owns (st\<lparr>ssSessions := jm_set i s' (ssSessions st)\<rparr>) = owns st"
    using assms(2,3) by (auto simp: owns_def jm.get_set fun_eq_iff)
  moreover have "i \<in> set (jm_keys (ssSessions st))"
    using assms(2) by (simp add: jm.keys_get)
  ultimately show ?thesis using assms(1) unfolding cs_inv by (auto simp: jm.ok_set)
qed

lemma owns_closeSession: "owns (closeSession i st) j c \<longleftrightarrow> owns st j c \<and> j \<noteq> i"
  by (auto simp: owns_def closeSession_def closeCursor_def jm.get_del split: option.split)

lemma cs_ok_closeSession:
  assumes "cs_ok lf st"
  shows "cs_ok lf (closeSession i st)"
proof (cases "map_of (ssSessions st) i")
  case None
  with assms show ?thesis by (simp add: closeSession_def)
next
  case (Some s)
  then have own: "owns st i (csCursor s)" by (simp add: owns_def)
  have st': "ssSessions (closeSession i st) = jm_del i (ssSessions st)"
    "ssOpening (closeSession i st) = ssOpening st" "ssNext (closeSession i st) = ssNext st"
    "ssCursors (closeSession i st) = jm_del (csCursor s) (ssCursors st)"
    using Some by (simp_all add: closeSession_def closeCursor_def)
  have f: "fresh_ok (closeSession i st)"
    using assms unfolding cs_ok_def fresh_ok_def st' by (auto simp: jm.ok_del)
  have o: "owners_ok (closeSession i st)"
    using assms own unfolding cs_ok_def owners_ok_def owns_closeSession st' by auto
  have "owns st i c \<Longrightarrow> c = csCursor s" for c using Some by (simp add: owns_def)
  then have "no_orphan st \<Longrightarrow> no_orphan (closeSession i st)"
    unfolding no_orphan_def owns_closeSession st' jm.keys_del by blast
  with f o assms show ?thesis by (auto simp: cs_ok_def)
qed

lemma cs_ok_register:
  assumes "cs_ok lf st" "c \<in> set (jm_keys (ssOpening st))" "c \<in> set (jm_keys (ssCursors st))" "csCursor s = c"
  shows "cs_ok lf (open_ends c (st\<lparr>ssNext := Suc (ssNext st), ssSessions := jm_set (ssNext st) s (ssSessions st)\<rparr>))"
    (is "cs_ok lf ?st")
proof -
  have new: "ssNext st \<notin> set (jm_keys (ssSessions st))"
    using assms(1) by (auto simp: cs_ok_def fresh_ok_def)
  then have "map_of (ssSessions st) (ssNext st) = None" by (simp add: jm.keys_get)
  then have own: "owns ?st j d \<longleftrightarrow> owns st j d \<or> j = ssNext st \<and> d = c" for j d
    using assms(4) by (auto simp: owns_def open_ends_def jm.get_set)
  have fresh: "fresh_ok ?st"
    using assms(1) by (auto simp: cs_ok_def fresh_ok_def open_ends_def jm.ok_set jm.ok_del less_Suc_eq)
  have "\<not> owns st j c" for j
    using assms(1,2) by (auto simp: cs_ok_def owners_ok_def)
  then have "owners_ok ?st"
    using assms(1,3) unfolding cs_ok_def owners_ok_def own by (auto simp: open_ends_def)
  moreover have "no_orphan st \<Longrightarrow> no_orphan ?st"
    unfolding no_orphan_def own by (auto simp: open_ends_def)
  ultimately show ?thesis using fresh assms(1) by (auto simp: cs_ok_def)
qed

lemma cs_ok_cursorFetch_opening:
  assumes "cs_ok lf st" "c \<in> set (jm_keys (ssOpening st))"
  shows "cs_ok lf (snd (cursorFetch c n st))"
  using assms cs_ok_closeCursor [OF assms] cs_ok_rows [OF assms(1), of c]
  by (simp add: cursorFetch_def Let_def split: option.split)

lemma cs_ok_finish:
  assumes ok: "cs_ok lf st" and c: "map_of (ssOpening st) c = Some connectionId"
    and avail: "complete \<or> c \<in> set (jm_keys (ssCursors st))"
  shows "cs_ok lf (snd (open_finish cfg c connectionId userId rs complete now st))"
proof -
  have co: "c \<in> set (jm_keys (ssOpening st))" using c by (simp add: jm.keys_get)
  show ?thesis
  proof (cases "complete \<or> length rs \<ge> scMaxRows cfg")
    case True
    have next_ok: "cs_ok lf (st\<lparr>ssNext := Suc (ssNext st)\<rparr>)"
      using ok unfolding cs_inv owns_def by (auto simp: less_Suc_eq)
    have "cs_ok lf (closeCursor c (st\<lparr>ssNext := Suc (ssNext st)\<rparr>))"
      by (rule cs_ok_closeCursor [OF next_ok]) (simp add: co)
    then have "cs_ok lf (open_ends c (closeCursor c (st\<lparr>ssNext := Suc (ssNext st)\<rparr>)))"
      by (rule cs_ok_open_ends) (simp add: closeCursor_def)
    with True show ?thesis by (auto simp: open_finish_def Let_def)
  next
    case False
    with avail have "c \<in> set (jm_keys (ssCursors st))" by simp
    from cs_ok_register [OF ok co this] False show ?thesis
      by (simp add: open_finish_def Let_def)
  qed
qed

lemma cs_ok_fetch_begin:
  assumes "cs_ok lf st"
  shows "cs_ok lf (snd (fetch_begin cfg connectionId userId sessionId limit now st))"
proof (cases "requireSession connectionId userId sessionId st")
  case (Inl e)
  with assms show ?thesis by (simp add: fetch_begin_def)
next
  case (Inr s)
  then have "map_of (ssSessions st) sessionId = Some s"
    by (auto simp: requireSession_def split: option.splits if_splits)
  then have "cs_ok lf (st\<lparr>ssSessions := jm_set sessionId (s\<lparr>csLastUsed := now\<rparr>) (ssSessions st)\<rparr>)"
    by (rule cs_ok_update [OF assms]) simp
  with Inr cs_ok_closeSession [OF this] show ?thesis
    by (auto simp: fetch_begin_def Let_def intro: cs_ok_frame)
qed

lemma cursorFetch_frame [simp]:
  "ssSessions (snd (cursorFetch c n st)) = ssSessions st" "ssOpening (snd (cursorFetch c n st)) = ssOpening st"
  "ssNext (snd (cursorFetch c n st)) = ssNext st" "ssFetching (snd (cursorFetch c n st)) = ssFetching st"
  by (simp_all add: cursorFetch_def closeCursor_def Let_def split: option.split)

text \<open>A block's end, in terms of the rows the cursor has left.\<close>

lemma fetch_end_run:
  assumes s: "map_of (ssSessions st) i = Some s" and r: "map_of (ssCursors st) (csCursor s) = Some rest"
  shows "fetch_end cfg i (csCursor s) n st =
    (let rows = take n rest; complete = length rows < n; position = csPosition s + length rows;
         hitBudget = (\<not> complete \<and> position \<ge> scMaxRows cfg);
         st1 = st\<lparr>ssFetching := remove1 (i, n) (ssFetching st)\<rparr>
     in (Inr \<lparr>sbSession = i, sbRows = rows, sbComplete = (complete \<or> hitBudget), sbTruncated = hitBudget\<rparr>,
         if complete \<or> hitBudget then closeSession i st1
         else st1\<lparr>ssSessions := jm_set i (s\<lparr>csPosition := position\<rparr>) (ssSessions st),
                ssCursors := jm_set (csCursor s) (drop n rest) (ssCursors st)\<rparr>))"
  using s r by (auto simp: fetch_end_def cursorFetch_def Let_def closeSession_def closeCursor_def jm.get_set)

lemma cs_ok_fetch_end:
  assumes ok: "cs_ok lf st" and s: "map_of (ssSessions st) i = Some s"
  shows "cs_ok lf (snd (fetch_end cfg i (csCursor s) n st))"
proof -
  have "csCursor s \<in> set (jm_keys (ssCursors st))"
    using ok s by (auto simp: cs_ok_def owners_ok_def owns_def)
  then obtain rest where r: "map_of (ssCursors st) (csCursor s) = Some rest"
    by (auto simp: jm.keys_get)
  let ?st1 = "st\<lparr>ssFetching := remove1 (i, n) (ssFetching st)\<rparr>"
  have ok1: "cs_ok lf ?st1" by (rule cs_ok_frame [OF ok]) simp_all
  have upd: "cs_ok lf (?st1\<lparr>ssSessions := jm_set i (s\<lparr>csPosition := p\<rparr>) (ssSessions ?st1)\<rparr>)" for p
    by (rule cs_ok_update [OF ok1]) (simp_all add: s)
  have "cs_ok lf (?st1\<lparr>ssSessions := jm_set i (s\<lparr>csPosition := p\<rparr>) (ssSessions ?st1),
      ssCursors := jm_set (csCursor s) rs (ssCursors ?st1)\<rparr>)" for p rs
    using cs_ok_rows [OF upd [of p], of "csCursor s" rs] r by (simp add: jm.keys_get)
  then show ?thesis
    unfolding fetch_end_run [OF s r] Let_def using cs_ok_closeSession [OF ok1] by simp
qed

lemma cs_ok_reap: "cs_ok lf st \<Longrightarrow> cs_ok lf (reap cfg now st)"
proof -
  have "cs_ok lf s \<Longrightarrow>
      cs_ok lf (fold (\<lambda>(i, session) s. if now - csLastUsed session > scIdleMs cfg then closeSession i s else s) es s)" for es s
    by (induction es arbitrary: s) (auto simp: cs_ok_closeSession)
  then show "cs_ok lf st \<Longrightarrow> cs_ok lf (reap cfg now st)" by (simp add: reap_def)
qed

lemma cs_ok_admit:
  assumes "cs_ok lf st" "open_admit cfg True connectionId st = (Inr c, st')"
  shows "cs_ok lf st'"
proof -
  from assms(2) have st': "st' = st\<lparr>ssOpening := (ssNext st, connectionId) # ssOpening st, ssNext := Suc (ssNext st)\<rparr>"
    by (auto simp: open_admit_def split: sum.splits)
  have new: "ssNext st \<notin> set (jm_keys (ssOpening st))" "ssNext st \<notin> set (jm_keys (ssCursors st))"
    using assms(1) by (auto simp: cs_ok_def fresh_ok_def)
  have own: "owns st' = owns st" by (simp add: owns_def st' fun_eq_iff)
  have "jm_ok (ssOpening st')" using assms(1) new by (simp add: cs_ok_def fresh_ok_def st' jm_ok_def jm_keys_def)
  then show ?thesis
    using assms(1) new unfolding cs_inv own by (auto simp: st' jm_keys_def less_Suc_eq)
qed

lemma cs_step_ok: "cs_step cfg k lf st st' \<Longrightarrow> cs_ok lf st \<Longrightarrow> cs_ok lf st'"
proof (induction rule: cs_step.induct)
  case (cs_admit st connectionId c st')
  then show ?case by (blast intro: cs_ok_admit)
next
  case (cs_not_opened c st)
  then show ?case by (simp add: cs_ok_open_ends jm.keys_get)
next
  case (cs_opened c st rs)
  then show ?case using cs_ok_rows [of lf st c rs] by (simp add: open_cursor_def)
next
  case (cs_first c st)
  then show ?case by (simp add: open_first_def cs_ok_cursorFetch_opening)
next
  case (cs_fetch_failed c st)
  then have "cs_ok lf (open_ends c (closeCursor c st))"
    by (intro cs_ok_open_ends cs_ok_closeCursor) (simp_all add: closeCursor_def)
  then show ?case by (simp add: open_fetch_failed_def)
next
  case (cs_lookup_failed st c)
  then show ?case by (simp add: cs_ok_open_ends)
next
  case (cs_finish st c connectionId complete userId rs now)
  then show ?case by (blast intro: cs_ok_finish)
next
  case (cs_fetch_begin st connectionId userId sessionId limit now)
  then show ?case by (simp add: cs_ok_fetch_begin)
next
  case (cs_fetch_end st sessionId session blockSize)
  then show ?case by (simp add: cs_ok_fetch_end)
next
  case (cs_fetch_late st sessionId blockSize)
  then show ?case by (auto intro: cs_ok_frame)
next
  case (cs_close st connectionId userId sessionId)
  then show ?case by (auto simp: closeStream_def cs_ok_closeSession split: option.split)
next
  case (cs_reap st now)
  then show ?case by (simp add: cs_ok_reap)
qed

lemma cs_reachable_ok: "cs_reachable cfg k lf st \<Longrightarrow> cs_ok lf st"
proof (induction rule: cs_reachable.induct)
  case cs_start
  then show ?case by (simp add: cs_inv owns_def ss_init_def jm_ok_def jm_keys_def)
next
  case (cs_next st st')
  then show ?case by (blast intro: cs_step_ok)
qed

subsection \<open>The load\<close>

definition load :: "stream_state \<Rightarrow> nat" where
  "load st = length (ssSessions st) + length (ssOpening st)"

definition load_on :: "string \<Rightarrow> stream_state \<Rightarrow> nat" where
  "load_on connectionId st = perConnection connectionId st + length (filter (\<lambda>e. snd e = connectionId) (ssOpening st))"

definition shrinks :: "stream_state \<Rightarrow> stream_state \<Rightarrow> bool" where
  "shrinks st st' \<longleftrightarrow> load st' \<le> load st \<and> (\<forall>connectionId. load_on connectionId st' \<le> load_on connectionId st)"

lemmas load_defs = shrinks_def load_def load_on_def perConnection_def

lemma shrinks_frame:
  "ssSessions st' = ssSessions st \<Longrightarrow> ssOpening st' = ssOpening st \<Longrightarrow> shrinks st st'"
  by (simp add: load_defs)

lemma shrinks_trans: "shrinks a b \<Longrightarrow> shrinks b c \<Longrightarrow> shrinks a c"
  unfolding shrinks_def by (meson order_trans)

lemma shrinks_refl [simp]: "shrinks st st"
  by (simp add: shrinks_def)

lemma shrinks_open_ends [simp]: "shrinks st (open_ends c st)"
  by (auto simp: load_defs open_ends_def length_jm_del_le filter_jm_del_le)

lemma shrinks_closeSession [simp]: "shrinks st (closeSession i st)"
  by (auto simp: load_defs closeSession_def closeCursor_def length_jm_del_le filter_jm_del_le split: option.split)

lemma shrinks_update:
  assumes "map_of (ssSessions st) i = Some s" "csConnection s' = csConnection s"
  shows "shrinks st (st\<lparr>ssSessions := jm_set i s' (ssSessions st)\<rparr>)"
proof -
  have "i \<in> set (jm_keys (ssSessions st))" using assms(1) by (simp add: jm.keys_get)
  then show ?thesis
    using filter_jm_set [OF assms(1), where v' = s'] assms(2) by (simp add: load_defs length_jm_set)
qed

lemma shrinks_reap: "shrinks st (reap cfg now st)"
proof -
  have "shrinks s
      (fold (\<lambda>(i, session) s. if now - csLastUsed session > scIdleMs cfg then closeSession i s else s) es s)" for es s
  proof (induction es arbitrary: s)
    case Nil
    then show ?case by simp
  next
    case (Cons e es)
    show ?case
      using Cons.IH [of s] shrinks_trans [OF shrinks_closeSession Cons.IH [of "closeSession (fst e) s"]]
      by (simp add: case_prod_unfold)
  qed
  then show ?thesis by (simp add: reap_def)
qed

lemma shrinks_finish:
  assumes ok: "cs_ok lf st" and c: "map_of (ssOpening st) c = Some connectionId"
  shows "shrinks st (snd (open_finish cfg c connectionId userId rs complete now st))"
proof (cases "complete \<or> length rs \<ge> scMaxRows cfg")
  case True
  then have "snd (open_finish cfg c connectionId userId rs complete now st) =
      open_ends c (closeCursor c (st\<lparr>ssNext := Suc (ssNext st)\<rparr>))"
    by (auto simp: open_finish_def Let_def)
  then show ?thesis
    using shrinks_trans [OF shrinks_frame shrinks_open_ends, of "closeCursor c (st\<lparr>ssNext := Suc (ssNext st)\<rparr>)" st c]
    by (simp add: closeCursor_def)
next
  case False
  have "ssNext st \<notin> set (jm_keys (ssSessions st))"
    using ok by (auto simp: cs_ok_def fresh_ok_def)
  then have new: "jm_set (ssNext st) s (ssSessions st) = ssSessions st @ [(ssNext st, s)]" for s
    by (rule jm_set_fresh)
  have less: "length (filter P (jm_del c (ssOpening st))) < length (filter P (ssOpening st))"
    if "P (c, connectionId)" for P
    using filter_jm_del_less [of "ssOpening st" c connectionId P] c that by blast
  from less [of "\<lambda>e. True"] less [of "\<lambda>e. snd e = connectionId"] False
  show ?thesis
    by (auto simp: load_defs open_finish_def Let_def open_ends_def new filter_jm_del_le Suc_le_eq)
qed

lemma shrinks_fetch_begin: "shrinks st (snd (fetch_begin cfg connectionId userId sessionId limit now st))"
proof (cases "requireSession connectionId userId sessionId st")
  case (Inl e)
  then show ?thesis by (simp add: fetch_begin_def)
next
  case (Inr s)
  then have "map_of (ssSessions st) sessionId = Some s"
    by (auto simp: requireSession_def split: option.splits if_splits)
  then have u: "shrinks st (st\<lparr>ssSessions := jm_set sessionId (s\<lparr>csLastUsed := now\<rparr>) (ssSessions st)\<rparr>)"
    by (rule shrinks_update) simp
  with Inr shrinks_trans [OF u shrinks_closeSession] shrinks_trans [OF u shrinks_frame]
  show ?thesis by (auto simp: fetch_begin_def Let_def)
qed

lemma shrinks_fetch_end:
  assumes ok: "cs_ok lf st" and s: "map_of (ssSessions st) i = Some s"
  shows "shrinks st (snd (fetch_end cfg i (csCursor s) n st))"
proof -
  have "csCursor s \<in> set (jm_keys (ssCursors st))"
    using ok s by (auto simp: cs_ok_def owners_ok_def owns_def)
  then obtain rest where r: "map_of (ssCursors st) (csCursor s) = Some rest"
    by (auto simp: jm.keys_get)
  have f: "shrinks st (st\<lparr>ssFetching := remove1 (i, n) (ssFetching st)\<rparr>)"
    by (rule shrinks_frame) simp_all
  have u: "shrinks st (st\<lparr>ssSessions := jm_set i (s\<lparr>csPosition := p\<rparr>) (ssSessions st)\<rparr>)" for p
    by (rule shrinks_update [OF s]) simp
  show ?thesis
    unfolding fetch_end_run [OF s r] Let_def
    using shrinks_trans [OF f shrinks_closeSession] u by (simp add: load_defs)
qed

definition within :: "stream_config \<Rightarrow> nat \<Rightarrow> stream_state \<Rightarrow> bool" where
  "within cfg k st \<longleftrightarrow> load st < scMaxSessions cfg + k \<and> (\<forall>d. load_on d st < scMaxPerConnection cfg + k)"

lemma within_shrinks: "within cfg k st \<Longrightarrow> shrinks st st' \<Longrightarrow> within cfg k st'"
  unfolding within_def shrinks_def by (meson le_less_trans)

lemma within_admit:
  assumes "length (ssOpening st) < k" "open_admit cfg True connectionId st = (Inr c, st')" "within cfg k st"
  shows "within cfg k st'"
proof -
  from assms(2) have st': "st' = st\<lparr>ssOpening := (ssNext st, connectionId) # ssOpening st, ssNext := Suc (ssNext st)\<rparr>"
    and room: "length (ssSessions st) < scMaxSessions cfg" "perConnection connectionId st < scMaxPerConnection cfg"
    by (auto simp: open_admit_def assertCapacity_def split: sum.splits if_splits)
  have few: "length (filter (\<lambda>e. snd e = d) (ssOpening st)) < k" for d
    using assms(1) length_filter_le [of "\<lambda>e. snd e = d" "ssOpening st"] by linarith
  have "load st' < scMaxSessions cfg + k" using room(1) assms(1) by (simp add: st' load_def)
  moreover have "load_on d st' < scMaxPerConnection cfg + k" for d
  proof (cases "d = connectionId")
    case True
    then show ?thesis using room(2) few [of d] by (simp add: st' load_on_def perConnection_def)
  next
    case False
    then have "load_on d st' = load_on d st" by (simp add: st' load_on_def perConnection_def)
    then show ?thesis using assms(3) by (simp add: within_def)
  qed
  ultimately show ?thesis by (simp add: within_def)
qed

lemma cs_step_within: "cs_step cfg k lf st st' \<Longrightarrow> cs_ok lf st \<Longrightarrow> within cfg k st \<Longrightarrow> within cfg k st'"
proof (induction rule: cs_step.induct)
  case (cs_admit st connectionId c st')
  then show ?case by (blast intro: within_admit)
next
  case (cs_not_opened c st)
  then show ?case by (blast intro: within_shrinks shrinks_open_ends)
next
  case (cs_opened c st rs)
  then show ?case by (simp add: within_shrinks [OF _ shrinks_frame] open_cursor_def)
next
  case (cs_first c st)
  then show ?case by (simp add: within_shrinks [OF _ shrinks_frame] open_first_def)
next
  case (cs_fetch_failed c st)
  have "shrinks st (closeCursor c st)" by (simp add: shrinks_frame closeCursor_def)
  then have "shrinks st (open_fetch_failed c st)"
    unfolding open_fetch_failed_def by (rule shrinks_trans) simp
  with cs_fetch_failed show ?case by (blast intro: within_shrinks)
next
  case (cs_lookup_failed st c)
  then show ?case by (blast intro: within_shrinks shrinks_open_ends)
next
  case (cs_finish st c connectionId complete userId rs now)
  then show ?case by (blast intro: within_shrinks shrinks_finish)
next
  case (cs_fetch_begin st connectionId userId sessionId limit now)
  then show ?case by (blast intro: within_shrinks shrinks_fetch_begin)
next
  case (cs_fetch_end st sessionId session blockSize)
  then show ?case by (blast intro: within_shrinks shrinks_fetch_end)
next
  case (cs_fetch_late st sessionId blockSize)
  then show ?case by (simp add: within_shrinks [OF _ shrinks_frame])
next
  case (cs_close st connectionId userId sessionId)
  have "shrinks st (snd (closeStream connectionId userId sessionId st))"
    by (auto simp: closeStream_def split: option.split)
  with cs_close show ?case by (blast intro: within_shrinks)
next
  case (cs_reap st now)
  then show ?case by (blast intro: within_shrinks shrinks_reap)
qed

lemma cs_reachable_within: "cs_reachable cfg k lf st \<Longrightarrow> 1 \<le> k \<Longrightarrow> within cfg k st"
proof (induction rule: cs_reachable.induct)
  case cs_start
  then show ?case by (simp add: within_def load_def load_on_def perConnection_def ss_init_def)
next
  case (cs_next st st')
  then show ?case using cs_step_within cs_reachable_ok by blast
qed

subsection \<open>Properties\<close>

text \<open>
  C20. In every interleaving each session has its own open cursor: a registered session's cursor is open,
  no other session and no call of \<open>open\<close> in flight holds it, and unless a lookup failed after a first block
  every open cursor belongs to a session or to a call in flight, so none is leaked.
\<close>

theorem sessions_own_cursors:
  assumes "cs_reachable cfg k lookups_fail st"
  shows "(\<forall>i s. map_of (ssSessions st) i = Some s \<longrightarrow>
            csCursor s \<in> set (jm_keys (ssCursors st)) \<and> csCursor s \<notin> set (jm_keys (ssOpening st)) \<and>
            (\<forall>j s'. map_of (ssSessions st) j = Some s' \<longrightarrow> csCursor s' = csCursor s \<longrightarrow> j = i))
    \<and> (\<not> lookups_fail \<longrightarrow> (\<forall>c \<in> set (jm_keys (ssCursors st)).
          c \<in> set (jm_keys (ssOpening st)) \<or> (\<exists>i s. map_of (ssSessions st) i = Some s \<and> csCursor s = c)))"
  using cs_reachable_ok [OF assms] unfolding cs_inv owns_def by blast

text \<open>
  The session caps hold up to overlapping calls: when at most \<open>k\<close> calls of \<open>open\<close> are ever in flight
  at once, there are never \<open>k\<close> sessions more than the cap, in all or on one connection. With one call at a
  time the caps are exact.
\<close>

theorem session_caps:
  assumes "cs_reachable cfg k lookups_fail st" "1 \<le> k"
  shows "length (ssSessions st) < scMaxSessions cfg + k
    \<and> perConnection connectionId st < scMaxPerConnection cfg + k"
proof -
  have "load st < scMaxSessions cfg + k" "load_on connectionId st < scMaxPerConnection cfg + k"
    using cs_reachable_within [OF assms] by (simp_all add: within_def)
  then show ?thesis unfolding load_def load_on_def by linarith
qed

text \<open>
  A session is its owner's: fetching or closing with another user's id or through another connection
  is refused with \<open>NotFoundException\<close> and changes nothing, the last-used time included.
\<close>

theorem foreign_session_refused:
  assumes "map_of (ssSessions st) sessionId = Some session"
    "csConnection session \<noteq> connectionId \<or> csUser session \<noteq> userId"
  shows "(\<exists>m. fetchStream cfg connectionId userId sessionId limit now st = (Inl (NotFound m), st))
    \<and> (\<exists>m. closeStream connectionId userId sessionId st = (Inl (NotFound m), st))"
  using assms by (auto simp: fetchStream_def fetch_begin_def requireSession_def closeStream_def)

subsection \<open>Streaming a result\<close>

text \<open>The client's loop: blocks until one is complete. Fuel bounds the number of fetches.\<close>

fun drain :: "nat \<Rightarrow> stream_config \<Rightarrow> string \<Rightarrow> string \<Rightarrow> nat \<Rightarrow> nat \<Rightarrow> int \<Rightarrow> stream_state \<Rightarrow>
    (row list \<times> bool \<times> stream_state) option" where
  "drain 0 cfg connectionId userId sessionId limit now st = None"
| "drain (Suc fuel) cfg connectionId userId sessionId limit now st =
     (case fetchStream cfg connectionId userId sessionId limit now st of
        (Inl e, _) \<Rightarrow> None
      | (Inr block, st') \<Rightarrow>
          if sbComplete block then Some (sbRows block, sbTruncated block, st')
          else (case drain fuel cfg connectionId userId sessionId limit now st' of
                  None \<Rightarrow> None
                | Some (rows, truncated, st'') \<Rightarrow> Some (sbRows block @ rows, truncated, st'')))"

definition stream_all ::
  "nat \<Rightarrow> stream_config \<Rightarrow> string \<Rightarrow> string \<Rightarrow> string \<Rightarrow> query_order_by option \<Rightarrow> (sql_fragment \<Rightarrow> row list res) \<Rightarrow>
   nat \<Rightarrow> int \<Rightarrow> stream_state \<Rightarrow> (row list \<times> bool \<times> stream_state) option" where
  "stream_all fuel cfg connectionId userId statementText sortBy opened limit now st =
     (case openStream cfg True connectionId userId statementText sortBy opened (Inr ()) now st of
        (Inl e, _) \<Rightarrow> None
      | (Inr block, st') \<Rightarrow>
          if sbComplete block then Some (sbRows block, sbTruncated block, st')
          else (case drain fuel cfg connectionId userId (sbSession block) limit now st' of
                  None \<Rightarrow> None
                | Some (rows, truncated, st'') \<Rightarrow> Some (sbRows block @ rows, truncated, st'')))"

lemma fetchStream_run:
  assumes s: "map_of (ssSessions st) i = Some s" "csConnection s = connectionId" "csUser s = userId"
    and r: "map_of (ssCursors st) (csCursor s) = Some rest" and room: "csPosition s < scMaxRows cfg"
    and n: "n = min limit (scMaxRows cfg - csPosition s)" and rows: "rows = take n rest"
    and hb: "hitBudget = (n \<le> length rest \<and> csPosition s + n = scMaxRows cfg)"
  shows "\<exists>st'. fetchStream cfg connectionId userId i limit now st =
      (Inr \<lparr>sbSession = i, sbRows = rows, sbComplete = (length rest < n \<or> hitBudget), sbTruncated = hitBudget\<rparr>, st')
    \<and> (if length rest < n \<or> hitBudget
       then map_of (ssSessions st') i = None \<and> map_of (ssCursors st') (csCursor s) = None
       else (\<exists>s'. map_of (ssSessions st') i = Some s' \<and> csConnection s' = connectionId \<and> csUser s' = userId \<and>
               csCursor s' = csCursor s \<and> csPosition s' = csPosition s + length rows \<and>
               map_of (ssCursors st') (csCursor s) = Some (drop n rest)))"
proof -
  let ?s = "s\<lparr>csLastUsed := now\<rparr>"
  let ?st = "st\<lparr>ssSessions := jm_set i ?s (ssSessions st), ssFetching := (i, n) # ssFetching st\<rparr>"
  have begins: "fetch_begin cfg connectionId userId i limit now st = (Inr (Some n), ?st)"
    using s room n by (simp add: fetch_begin_def requireSession_def Let_def)
  have s': "map_of (ssSessions ?st) i = Some ?s" and r': "map_of (ssCursors ?st) (csCursor ?s) = Some rest"
    using r by (simp_all add: jm.get_set)
  have hits: "(\<not> length rest < n \<and> csPosition s + min (length rest) n \<ge> scMaxRows cfg) = hitBudget"
    using n hb room by auto
  have run: "fetchStream cfg connectionId userId i limit now st = fetch_end cfg i (csCursor ?s) n ?st"
    unfolding fetchStream_def begins using s' by simp
  show ?thesis
    unfolding run fetch_end_run [OF s' r'] Let_def
    using hits rows s hb
    by (auto simp: closeSession_def closeCursor_def jm.get_set jm.get_del)
qed

lemma take_in_two: "n \<le> m \<Longrightarrow> take n xs @ take (m - n) (drop n xs) = take m xs"
  by (metis append_take_drop_id le_add_diff_inverse take_add)

lemma drain_run:
  assumes "map_of (ssSessions st) i = Some s" "csConnection s = connectionId" "csUser s = userId"
    "map_of (ssCursors st) (csCursor s) = Some rest" "csPosition s < scMaxRows cfg" "0 < limit" "length rest < fuel"
  shows "\<exists>st'. drain fuel cfg connectionId userId i limit now st =
      Some (take (scMaxRows cfg - csPosition s) rest, scMaxRows cfg - csPosition s \<le> length rest, st')
    \<and> map_of (ssSessions st') i = None \<and> map_of (ssCursors st') (csCursor s) = None"
  using assms
proof (induction fuel arbitrary: st s rest)
  case 0
  then show ?case by simp
next
  case (Suc fuel)
  define n where "n = min limit (scMaxRows cfg - csPosition s)"
  define hb where "hb = (n \<le> length rest \<and> csPosition s + n = scMaxRows cfg)"
  from fetchStream_run [OF Suc.prems(1-5) n_def refl hb_def, of now] obtain st1 where
    f: "fetchStream cfg connectionId userId i limit now st =
      (Inr \<lparr>sbSession = i, sbRows = take n rest, sbComplete = (length rest < n \<or> hb), sbTruncated = hb\<rparr>, st1)"
    and post: "if length rest < n \<or> hb
       then map_of (ssSessions st1) i = None \<and> map_of (ssCursors st1) (csCursor s) = None
       else (\<exists>s'. map_of (ssSessions st1) i = Some s' \<and> csConnection s' = connectionId \<and> csUser s' = userId \<and>
               csCursor s' = csCursor s \<and> csPosition s' = csPosition s + length (take n rest) \<and>
               map_of (ssCursors st1) (csCursor s) = Some (drop n rest))"
    by blast
  show ?case
  proof (cases "length rest < n \<or> hb")
    case True
    then have "take n rest = take (scMaxRows cfg - csPosition s) rest"
      and "hb = (scMaxRows cfg - csPosition s \<le> length rest)"
      by (auto simp: hb_def n_def)
    with True f post show ?thesis by auto
  next
    case False
    then have n: "n \<le> length rest" "csPosition s + n < scMaxRows cfg" "0 < n"
      using Suc.prems(5,6) by (auto simp: hb_def n_def)
    from False post obtain s' where s': "map_of (ssSessions st1) i = Some s'" "csConnection s' = connectionId"
      "csUser s' = userId" "csCursor s' = csCursor s" "csPosition s' = csPosition s + n"
      "map_of (ssCursors st1) (csCursor s) = Some (drop n rest)"
      using n by auto
    have "\<exists>st'. drain fuel cfg connectionId userId i limit now st1 =
        Some (take (scMaxRows cfg - csPosition s') (drop n rest), scMaxRows cfg - csPosition s' \<le> length (drop n rest), st')
      \<and> map_of (ssSessions st') i = None \<and> map_of (ssCursors st') (csCursor s') = None"
      by (rule Suc.IH [OF s'(1-3)]) (use s' n Suc.prems in auto)
    then obtain st' where d: "drain fuel cfg connectionId userId i limit now st1 =
        Some (take (scMaxRows cfg - csPosition s') (drop n rest), scMaxRows cfg - csPosition s' \<le> length (drop n rest), st')"
      and e: "map_of (ssSessions st') i = None" "map_of (ssCursors st') (csCursor s') = None" by blast
    have "take n rest @ take (scMaxRows cfg - csPosition s') (drop n rest) = take (scMaxRows cfg - csPosition s) rest"
      using take_in_two [of n "scMaxRows cfg - csPosition s" rest] n s'(5) by (simp add: diff_diff_eq)
    moreover have "(scMaxRows cfg - csPosition s' \<le> length (drop n rest)) = (scMaxRows cfg - csPosition s \<le> length rest)"
      using n s'(5) by auto
    ultimately show ?thesis using f False d e s'(4) by auto
  qed
qed

text \<open>
  C21. Streaming delivers the result, once and in order, up to the budget: opening a cursor on a statement
  whose result is \<open>rs\<close> and fetching until a block is complete returns the first \<open>max 100 maxRows\<close> rows of
  \<open>rs\<close>, marked as truncated exactly when the result has that many rows, after at most one fetch for each
  row, and leaves the cursor closed.
\<close>

theorem stream_delivers:
  assumes "assertCapacity cfg connectionId st = Inr ()" "cursorSql statementText sortBy = Inr sql"
    "opened \<lparr>fragSql = sql, fragParams = []\<rparr> = Inr rs" "0 < limit" "length rs < fuel"
  shows "\<exists>st'. stream_all fuel cfg connectionId userId statementText sortBy opened limit now st =
      Some (take (max QUERY_PAGE_SIZE (scMaxRows cfg)) rs, max QUERY_PAGE_SIZE (scMaxRows cfg) \<le> length rs, st')
    \<and> map_of (ssCursors st') (ssNext st) = None"
proof -
  let ?P = "QUERY_PAGE_SIZE" let ?M = "scMaxRows cfg" let ?c = "ssNext st"
  let ?st0 = "open_cursor ?c rs (st\<lparr>ssOpening := (?c, connectionId) # ssOpening st, ssNext := Suc ?c\<rparr>)"
  let ?complete = "length rs < ?P"
  define st1 where "st1 = snd (open_first ?c ?st0)"
  have admit: "open_admit cfg True connectionId st = (Inr ?c, st\<lparr>ssOpening := (?c, connectionId) # ssOpening st, ssNext := Suc ?c\<rparr>)"
    using assms(1) by (simp add: open_admit_def)
  have r0: "map_of (ssCursors ?st0) ?c = Some rs" by (simp add: open_cursor_def jm.get_set)
  have first: "open_first ?c ?st0 = (Inr (take ?P rs, ?complete), st1)"
    using r0 by (auto simp: st1_def open_first_def cursorFetch_def Let_def)
  have c1: "map_of (ssCursors st1) ?c = (if ?complete then None else Some (drop ?P rs))"
    using r0 by (auto simp: st1_def open_first_def cursorFetch_def Let_def closeCursor_def jm.get_del jm.get_set)
  have opens: "openStream cfg True connectionId userId statementText sortBy opened (Inr ()) now st =
      (let (block, st2) = open_finish cfg ?c connectionId userId (take ?P rs) ?complete now st1 in (Inr block, st2))"
    using assms(2,3) first by (simp add: openStream_def admit)
  show ?thesis
  proof (cases "?complete \<or> ?M \<le> ?P")
    case True
    then show ?thesis
      using c1 opens
      by (auto simp: stream_all_def open_finish_def Let_def open_ends_def closeCursor_def jm.get_del max_def)
  next
    case False
    let ?i = "ssNext st1"
    let ?s = "\<lparr>csConnection = connectionId, csUser = userId, csCursor = ?c, csPosition = ?P, csLastUsed = now\<rparr>"
    define st2 where "st2 = snd (open_finish cfg ?c connectionId userId (take ?P rs) ?complete now st1)"
    have fin: "open_finish cfg ?c connectionId userId (take ?P rs) ?complete now st1 =
        (\<lparr>sbSession = ?i, sbRows = take ?P rs, sbComplete = False, sbTruncated = False\<rparr>, st2)"
      using False by (auto simp: st2_def open_finish_def Let_def)
    have s2: "map_of (ssSessions st2) ?i = Some ?s" "map_of (ssCursors st2) (csCursor ?s) = Some (drop ?P rs)"
      using False c1 by (auto simp: st2_def open_finish_def Let_def open_ends_def jm.get_set)
    have "\<exists>st'. drain fuel cfg connectionId userId ?i limit now st2 =
        Some (take (?M - csPosition ?s) (drop ?P rs), ?M - csPosition ?s \<le> length (drop ?P rs), st')
      \<and> map_of (ssSessions st') ?i = None \<and> map_of (ssCursors st') (csCursor ?s) = None"
      by (rule drain_run [OF s2(1) _ _ s2(2)]) (use False assms(4,5) in auto)
    then obtain st' where "drain fuel cfg connectionId userId ?i limit now st2 =
        Some (take (?M - ?P) (drop ?P rs), ?M - ?P \<le> length rs - ?P, st')" "map_of (ssCursors st') ?c = None"
      by auto
    moreover have "take ?P rs @ take (?M - ?P) (drop ?P rs) = take ?M rs"
      using take_in_two [of ?P ?M rs] False by simp
    moreover have "(?M - ?P \<le> length rs - ?P) = (?M \<le> length rs)" using False by linarith
    moreover have "max ?P ?M = ?M" using False by simp
    ultimately show ?thesis using fin by (simp add: stream_all_def opens)
  qed
qed

subsection \<open>Overlapping calls pass the cap together\<close>

text \<open>
  The capacity check counts registered sessions and a call registers its session only after four more
  \<open>await\<close>s, so two calls that overlap both pass a cap of one and both register.
\<close>

definition cap_one :: stream_config where
  "cap_one = \<lparr>scIdleMs = 60000, scMaxRows = 100000, scMaxSessions = 1, scMaxPerConnection = 1\<rparr>"

definition hundred :: "row list" where
  "hundred = replicate 100 []"

definition admitted_twice :: stream_state where
  "admitted_twice = snd (open_admit cap_one True ''c'' (snd (open_admit cap_one True ''c'' ss_init)))"

definition overlap_run :: stream_state where
  "overlap_run =
     snd (open_finish cap_one 1 ''c'' ''u'' hundred False 0 (snd (open_finish cap_one 0 ''c'' ''u'' hundred False 0
       (snd (open_first 1 (open_cursor 1 hundred (snd (open_first 0 (open_cursor 0 hundred admitted_twice)))))))))"

lemmas cs_eval = ss_init_def open_admit_def assertCapacity_def perConnection_def open_cursor_def open_first_def
  cursorFetch_def open_finish_def open_ends_def closeCursor_def jm_del_def jm_keys_def QUERY_PAGE_SIZE_def cap_one_def

lemma admitted_twice_eval:
  "admitted_twice = \<lparr>ssSessions = [], ssCursors = [], ssOpening = [(1, ''c''), (0, ''c'')], ssFetching = [], ssNext = 2\<rparr>"
  by (simp add: admitted_twice_def cs_eval)

lemma admitted_twice_reachable: "cs_reachable cap_one 2 False admitted_twice"
proof -
  have "cs_reachable cap_one 2 False (snd (open_admit cap_one True ''c'' ss_init))"
    by (rule cs_next [OF cs_start cs_admit]) (simp_all add: cs_eval)
  then show ?thesis
    unfolding admitted_twice_def by (rule cs_next [OF _ cs_admit]) (simp_all add: cs_eval)
qed

lemma overlapping_opens_exceed_cap:
  "cs_reachable cap_one 2 False overlap_run \<and> length (ssSessions overlap_run) = 2 \<and> scMaxSessions cap_one = 1"
proof (intro conjI)
  let ?s1 = "open_cursor 0 hundred admitted_twice"
  let ?s2 = "snd (open_first 0 ?s1)"
  let ?s3 = "open_cursor 1 hundred ?s2"
  let ?s4 = "snd (open_first 1 ?s3)"
  let ?s5 = "snd (open_finish cap_one 0 ''c'' ''u'' hundred False 0 ?s4)"
  note ev = admitted_twice_eval cs_eval hundred_def Let_def
  have "cs_reachable cap_one 2 False ?s1"
    by (rule cs_next [OF admitted_twice_reachable cs_opened]) (simp_all add: ev)
  then have "cs_reachable cap_one 2 False ?s2"
    by (rule cs_next [OF _ cs_first]) (simp add: ev)
  then have "cs_reachable cap_one 2 False ?s3"
    by (rule cs_next [OF _ cs_opened]) (simp_all add: ev)
  then have "cs_reachable cap_one 2 False ?s4"
    by (rule cs_next [OF _ cs_first]) (simp add: ev)
  then have "cs_reachable cap_one 2 False ?s5"
    by (rule cs_next [OF _ cs_finish]) (simp_all add: ev)
  then show "cs_reachable cap_one 2 False overlap_run"
    unfolding overlap_run_def by (rule cs_next [OF _ cs_finish]) (simp_all add: ev)
  show "length (ssSessions overlap_run) = 2" by (simp add: overlap_run_def ev)
  show "scMaxSessions cap_one = 1" by (simp add: cap_one_def)
qed

text \<open>A lookup that fails after the first block leaves the cursor open, with no session and no call to close it.\<close>

lemma failed_lookup_leaks_cursor:
  "map_of (ssCursors (snd (openStream cap_one True ''c'' ''u'' ''SELECT 1'' None (\<lambda>_. Inr hundred) (Inl e) 0 ss_init))) 0 = Some []"
  "ssSessions (snd (openStream cap_one True ''c'' ''u'' ''SELECT 1'' None (\<lambda>_. Inr hundred) (Inl e) 0 ss_init)) = []"
  by (simp_all add: openStream_def cs_eval cursorSql_def hundred_def Let_def)

subsection \<open>Witnesses\<close>

lemma overlap_session:
  "map_of (ssSessions overlap_run) 2 =
     Some \<lparr>csConnection = ''c'', csUser = ''u'', csCursor = 0, csPosition = 100, csLastUsed = 0\<rparr>"
  by (simp add: overlap_run_def admitted_twice_eval cs_eval hundred_def Let_def)

theorem sessions_own_cursors_witness:
  "0 \<in> set (jm_keys (ssCursors overlap_run)) \<and> 0 \<notin> set (jm_keys (ssOpening overlap_run))"
  using sessions_own_cursors [OF overlapping_opens_exceed_cap [THEN conjunct1]] overlap_session by force

theorem session_caps_witness: "length (ssSessions overlap_run) < 3 \<and> perConnection ''c'' overlap_run < 3"
  using session_caps [of cap_one 2 False overlap_run "''c''"] overlapping_opens_exceed_cap
  by (simp add: cap_one_def)

theorem foreign_session_refused_witness:
  "\<exists>m. closeStream ''c'' ''v'' 2 overlap_run = (Inl (NotFound m), overlap_run)"
  using foreign_session_refused [OF overlap_session, where connectionId = "''c''" and userId = "''v''"] by simp

theorem stream_delivers_witness:
  "\<exists>st'. stream_all 2 cap_one ''c'' ''u'' ''SELECT 1'' None (\<lambda>_. Inr [[]]) 10 0 ss_init =
     Some ([[]], False, st') \<and> map_of (ssCursors st') 0 = None"
  using stream_delivers [of cap_one "''c''" ss_init "''SELECT 1''" None "''SELECT 1''" "\<lambda>_. Inr [[]]" "[[]]" 10 2 "''u''" 0]
  by (simp add: cs_eval cursorSql_def)

end
