(* ===== verification/Export.thy ===== *)
theory Export
  imports GridService QueryService CursorSession Literals
begin

text \<open>
  \<open>export/export.service.ts\<close>: what an export reads, and what it writes to the file. \<open>prepare\<close> runs in the world of
  the services, over the environments of the grid service and of the query service. The streaming part is a
  function of a source: the cursors that the database opens, and what the catalogue says of the tables. Written
  chunks are kept as a list, and the cursors opened and closed are counted. The row budget \<open>STREAM_MAX_ROWS\<close> is a
  natural number.
\<close>

datatype export_scope = TableScope | QueryScope | SchemaScope

datatype export_format = CsvFormat | JsonFormat | SqlFormat

record export_request =
  xrScope :: export_scope
  xrFormat :: export_format
  xrSchema :: "string option"
  xrTable :: "string option"
  xrFilter :: "row_filter option"
  xrTables :: "string list option"
  xrSql :: "string option"
  xrIncludeSchema :: "bool option"
  xrIncludeData :: "bool option"
  xrSortBy :: "string option"
  xrSortDesc :: bool
  xrDelimiter :: "string option"
  xrNullToken :: "string option"

record prepared_rows =
  prFrag :: sql_fragment
  prFormat :: export_format
  prDelimiter :: "string option"
  prNullToken :: "string option"
  prFilename :: string
  prMasked :: "string list"

record prepared_dump =
  pdTables :: "(string \<times> string) list"
  pdIncludeSchema :: bool
  pdIncludeData :: bool
  pdFilename :: string
  pdMasked :: "(string \<times> string list) list"

datatype prepared_export = ExportRows prepared_rows | ExportDump prepared_dump

record 'd export_env =
  xeGrid :: "'d grid_env"
  xeQuery :: "'d query_env"
  xeCanStream :: bool
  xeMaxRows :: nat
  xeStamp :: string

definition INSERT_BATCH_ROWS :: nat where
  "INSERT_BATCH_ROWS = 100"

subsection \<open>File names\<close>

definition filename_char :: "char \<Rightarrow> bool" where
  "filename_char c \<longleftrightarrow> word_char c \<or> c = CHR ''-''"

text \<open>\<open>name.replace(/[^A-Za-z0-9_-]+/g, '_')\<close>\<close>

function replace_runs :: "string \<Rightarrow> string" where
  "replace_runs [] = []"
| "replace_runs (c # s) =
     (if filename_char c then c # replace_runs s
      else CHR ''_'' # replace_runs (dropWhile (\<lambda>x. \<not> filename_char x) s))"
  by pat_completeness auto
termination by (relation "measure length") (auto simp: length_dropWhile_le le_imp_less_Suc)

definition trim_underscores :: "string \<Rightarrow> string" where
  "trim_underscores s = (let left = dropWhile ((=) CHR ''_'') s in rev (dropWhile ((=) CHR ''_'') (rev left)))"

definition sanitizeFilename :: "string \<Rightarrow> string" where
  "sanitizeFilename name =
     (let cleaned = trim_underscores (replace_runs name) in if length cleaned > 0 then cleaned else ''export'')"

definition format_extension :: "export_format \<Rightarrow> string" where
  "format_extension f = (case f of CsvFormat \<Rightarrow> ''csv'' | JsonFormat \<Rightarrow> ''json'' | SqlFormat \<Rightarrow> ''sql'')"

subsection \<open>prepare\<close>

text \<open>A string that JavaScript counts as given: neither missing nor empty.\<close>

definition given :: "string option \<Rightarrow> string option" where
  "given s = (case s of Some t \<Rightarrow> if t = [] then None else Some t | None \<Rightarrow> None)"

definition export_table_columns :: "'d grid_env \<Rightarrow> string \<Rightarrow> string \<Rightarrow> ('d world, column_metadata list) eff" where
  "export_table_columns env schema table =
     bind_eff (geColumns env schema table) (\<lambda>columns.
       if columns = [] then throw (NotFound (''Table '' @ table_text schema table @ '' not found'')) else ret columns)"

definition export_resolveMasked ::
  "'d grid_env \<Rightarrow> string option \<Rightarrow> string \<Rightarrow> string \<Rightarrow> string \<Rightarrow> ('d world, string list) eff" where
  "export_resolveMasked env userId connectionId schema table =
     (case given userId of
        None \<Rightarrow> ret []
      | Some u \<Rightarrow>
          bind_eff (lift_res (gePreferences env u)) (\<lambda>prefs.
          bind_eff (geColumns env schema table) (\<lambda>columns.
          ret (maskedColumnsFor prefs connectionId schema table (primary_key_of columns)))))"

definition export_filter :: "export_request \<Rightarrow> column_metadata list \<Rightarrow> engine \<Rightarrow> (string \<times> js_val list) res" where
  "export_filter dto columns e =
     (case xrFilter dto of
        Some f \<Rightarrow> if length (conditions f) > 0 then compileWhere f columns 0 (engine_whereDialect e) else Inr ([], [])
      | None \<Rightarrow> Inr ([], []))"

definition export_order_column :: "export_request \<Rightarrow> column_metadata list \<Rightarrow> string option" where
  "export_order_column dto columns =
     (let first_key = (case primary_key_of columns of [] \<Rightarrow> None | k # ks \<Rightarrow> Some k) in
      case given (xrSortBy dto) of
        Some c \<Rightarrow> if c \<in> set (map colName columns) then Some c else first_key
      | None \<Rightarrow> first_key)"

definition export_dir :: "export_request \<Rightarrow> sort_dir" where
  "export_dir dto = (if xrSortDesc dto then DESC else ASC)"

definition budget_options :: "nat \<Rightarrow> string \<times> js_val list \<Rightarrow> string option \<Rightarrow> sort_dir \<Rightarrow> select_rows_options" where
  "budget_options maxRows compiled order dir =
     \<lparr>whereClause = fst compiled, whereParams = snd compiled, orderColumn = order, sortDir = dir,
      optLimit = int maxRows + 1, optOffset = 0, includeVersion = False\<rparr>"

definition prepare_table :: "'d export_env \<Rightarrow> engine \<Rightarrow> export_request \<Rightarrow> ('d world, sql_fragment \<times> string) eff" where
  "prepare_table env e dto =
     (case (given (xrSchema dto), given (xrTable dto)) of
        (Some schema, Some table) \<Rightarrow>
          bind_eff (export_table_columns (xeGrid env) schema table) (\<lambda>columns.
          bind_eff (lift_res (export_filter dto columns e)) (\<lambda>compiled.
          bind_eff (lift_res (buildSelectRows e (grid_ref schema table)
            (budget_options (xeMaxRows env) compiled (export_order_column dto columns) (export_dir dto)))) (\<lambda>frag.
          ret (frag, table))))
      | _ \<Rightarrow> throw (BadRequest ''schema and table are required for a table export''))"

definition prepare_query :: "'d export_env \<Rightarrow> engine \<Rightarrow> export_request \<Rightarrow> ('d world, sql_fragment \<times> string) eff" where
  "prepare_query env e dto =
     (case given (xrSql dto) of
        None \<Rightarrow> throw (BadRequest ''sql is required for a query export'')
      | Some sql \<Rightarrow>
          bind_eff (resolveSingleSelect (xeQuery env) sql) (\<lambda>statementText.
          bind_eff (lift_res (cursorSql statementText (map_option
            (\<lambda>c. \<lparr>obColumn = c, obDir = export_dir dto, obQuoteIdent = engine_quote e\<rparr>) (given (xrSortBy dto))))) (\<lambda>cursor.
          ret (\<lparr>fragSql = cursor, fragParams = []\<rparr>, ''query''))))"

definition dump_names :: "export_request \<Rightarrow> string \<Rightarrow> (string list \<times> string) res" where
  "dump_names dto schema =
     (if xrScope dto = SchemaScope
      then (case xrTables dto of
              Some (t # ts) \<Rightarrow> Inr (t # ts, schema)
            | _ \<Rightarrow> Inl (BadRequest ''Select at least one table to export''))
      else (case given (xrTable dto) of
              None \<Rightarrow> Inl (BadRequest ''table is required for a table export'')
            | Some table \<Rightarrow> Inr ([table], table)))"

text \<open>\<open>maskedByTable\<close>, a \<open>Map\<close>: a table that is named twice keeps its place and its last entry.\<close>

definition dump_masks ::
  "'d export_env \<Rightarrow> string \<Rightarrow> string \<Rightarrow> string list \<Rightarrow> string option \<Rightarrow> ('d world, (string \<times> string list) list) eff" where
  "dump_masks env connectionId schema tableNames userId =
     bind_eff (each_eff (\<lambda>table.
         bind_eff (export_table_columns (xeGrid env) schema table) (\<lambda>_.
         bind_eff (export_resolveMasked (xeGrid env) userId connectionId schema table) (\<lambda>masked.
         ret (tableKey schema table, masked)))) tableNames)
       (\<lambda>entries. ret (fold (\<lambda>(k, m). jm_set k m) entries []))"

definition prepareSql :: "'d export_env \<Rightarrow> string \<Rightarrow> export_request \<Rightarrow> string option \<Rightarrow> ('d world, prepared_export) eff" where
  "prepareSql env connectionId dto userId =
     (if xrScope dto = QueryScope
      then throw (BadRequest ''SQL export is not available for a query result (no target table)'')
      else case given (xrSchema dto) of
             None \<Rightarrow> throw (BadRequest ''schema is required for a SQL export'')
           | Some schema \<Rightarrow>
               bind_eff (lift_res (dump_names dto schema)) (\<lambda>(tableNames, base).
               bind_eff (dump_masks env connectionId schema tableNames userId) (\<lambda>masks.
               ret (ExportDump \<lparr>pdTables = map (Pair schema) tableNames,
                 pdIncludeSchema = (case xrIncludeSchema dto of None \<Rightarrow> True | Some b \<Rightarrow> b),
                 pdIncludeData = (case xrIncludeData dto of None \<Rightarrow> True | Some b \<Rightarrow> b),
                 pdFilename = sanitizeFilename base @ ''-'' @ xeStamp env @ ''.sql'', pdMasked = masks\<rparr>))))"

definition export_prepare ::
  "'d export_env \<Rightarrow> string \<Rightarrow> export_request \<Rightarrow> string option \<Rightarrow> ('d world, prepared_export) eff" where
  "export_prepare env connectionId dto userId =
     bind_eff (lift_res (geDriver (xeGrid env))) (\<lambda>e.
     if \<not> xeCanStream env then throw (BadRequest ''Streaming export is not supported for this engine'')
     else if xrFormat dto = SqlFormat then prepareSql env connectionId dto userId
     else if xrScope dto = SchemaScope then throw (BadRequest ''The schema scope requires the sql format'')
     else
       bind_eff (if xrScope dto = TableScope then prepare_table env e dto else prepare_query env e dto) (\<lambda>(frag, base).
       bind_eff (case (given (xrSchema dto), given (xrTable dto)) of
           (Some schema, Some table) \<Rightarrow>
             if xrScope dto = TableScope then export_resolveMasked (xeGrid env) userId connectionId schema table else ret []
         | _ \<Rightarrow> ret []) (\<lambda>masked.
       ret (ExportRows \<lparr>prFrag = frag, prFormat = xrFormat dto, prDelimiter = xrDelimiter dto, prNullToken = xrNullToken dto,
         prFilename = sanitizeFilename base @ ''-'' @ xeStamp env @ ''.'' @ format_extension (xrFormat dto),
         prMasked = masked\<rparr>))))"

subsection \<open>Cursors\<close>

text \<open>
  A driver's cursor: what the native client reads next, and the names of the columns it has seen. The fetch of the
  three drivers asks for \<open>n\<close> rows and takes fewer for the end.
\<close>

record 'c cursor_api =
  caRead :: "nat \<Rightarrow> 'c \<Rightarrow> row list res \<times> 'c"
  caColumns :: "'c \<Rightarrow> string list"

definition driver_fetch :: "'c cursor_api \<Rightarrow> nat \<Rightarrow> 'c \<Rightarrow> (row list \<times> bool) res \<times> 'c" where
  "driver_fetch api n c =
     (case caRead api n c of
        (Inl e, c') \<Rightarrow> (Inl e, c')
      | (Inr rows, c') \<Rightarrow> (Inr (rows, length rows < n), c'))"

text \<open>
  The loop both writers run: blocks of at most a page, and no more rows than the budget. \<open>sink\<close> is what a writer does
  with a block, given the cursor, the block and the number of rows before it. The result is the number of rows and
  whether the export was cut.
\<close>

type_synonym ('c, 's) sink = "'c \<Rightarrow> row list \<Rightarrow> nat \<Rightarrow> 's \<Rightarrow> unit res \<times> 's"

function block_loop ::
  "nat \<Rightarrow> 'c cursor_api \<Rightarrow> ('c, 's) sink \<Rightarrow> nat \<Rightarrow> 'c \<Rightarrow> 's \<Rightarrow> (nat \<times> bool) res \<times> 's" where
  "block_loop maxRows api sink rowCount c s =
     (if maxRows \<le> rowCount then (Inr (rowCount, True), s)
      else
        (case driver_fetch api (min QUERY_PAGE_SIZE (maxRows - rowCount)) c of
           (Inl e, c') \<Rightarrow> (Inl e, s)
         | (Inr (rows, complete), c') \<Rightarrow>
             (case sink c' rows rowCount s of
                (Inl e, s') \<Rightarrow> (Inl e, s')
              | (Inr u, s') \<Rightarrow>
                  if complete then (Inr (rowCount + length rows, False), s')
                  else if maxRows \<le> rowCount + length rows then (Inr (rowCount + length rows, True), s')
                  else block_loop maxRows api sink (rowCount + length rows) c' s')))"
  by pat_completeness auto

text \<open>A block that is not the last holds a row, so the loop ends, whatever the cursor does.\<close>

termination
  by (relation "measure (\<lambda>(maxRows, api, sink, rowCount, c, s). maxRows - rowCount)")
    (auto simp: driver_fetch_def QUERY_PAGE_SIZE_def split: prod.splits sum.splits)

declare block_loop.simps [simp del]

subsection \<open>Writing rows\<close>

record export_io =
  ioOut :: "string list"
  ioOpened :: nat
  ioClosed :: nat

definition CSV_ROW_TERMINATOR :: string where
  "CSV_ROW_TERMINATOR = [CHR 0x0D, CHR 0x0A]"

definition csvOptions :: "prepared_rows \<Rightarrow> csv_options" where
  "csvOptions p = \<lparr>delimiter = given (prDelimiter p), nullToken = prNullToken p\<rparr>"

definition csv_line :: "prepared_rows \<Rightarrow> js_val list \<Rightarrow> string res" where
  "csv_line p vs = res_map (\<lambda>t. t @ CSV_ROW_TERMINATOR) (formatCsvRow vs (csvOptions p))"

definition row_chunk :: "prepared_rows \<Rightarrow> string list \<Rightarrow> nat \<Rightarrow> row \<Rightarrow> string res" where
  "row_chunk p names rowCount r =
     (if prFormat p = CsvFormat then csv_line p (map (get_prop r) names)
      else res_map (\<lambda>t. (if rowCount > 0 then '','' else []) @ t) (json_stringify (JObj r)))"

fun write_rows :: "prepared_rows \<Rightarrow> string list \<Rightarrow> row list \<Rightarrow> nat \<Rightarrow> string list \<Rightarrow> unit res \<times> string list" where
  "write_rows p names [] rowCount out = (Inr (), out)"
| "write_rows p names (r # rs) rowCount out =
     (case row_chunk p names rowCount r of
        Inl e \<Rightarrow> (Inl e, out)
      | Inr chunk \<Rightarrow> write_rows p names rs (rowCount + 1) (out @ [chunk]))"

text \<open>The header is written with the first block, when the columns are known.\<close>

definition header_chunk :: "prepared_rows \<Rightarrow> string list \<Rightarrow> bool \<Rightarrow> string list res" where
  "header_chunk p names headerWritten =
     (if \<not> headerWritten \<and> prFormat p = CsvFormat
      then res_map (\<lambda>t. [t]) (csv_line p (map JStr names)) else Inr [])"

definition rows_sink :: "'c cursor_api \<Rightarrow> prepared_rows \<Rightarrow> ('c, bool \<times> string list) sink" where
  "rows_sink api p c rows rowCount s =
     (case s of (headerWritten, out) \<Rightarrow>
        (case header_chunk p (caColumns api c) headerWritten of
           Inl e \<Rightarrow> (Inl e, s)
         | Inr hs \<Rightarrow>
             (case write_rows p (caColumns api c) (redactRows rows (prMasked p)) rowCount (out @ hs) of
                (r, out') \<Rightarrow> (r, (True, out')))))"

definition json_mark :: "prepared_rows \<Rightarrow> string \<Rightarrow> string list" where
  "json_mark p mark = (if prFormat p = JsonFormat then [mark] else [])"

definition rows_end :: "prepared_rows \<Rightarrow> nat \<Rightarrow> bool \<Rightarrow> string list" where
  "rows_end p rowCount truncated =
     (if prFormat p = JsonFormat then ['']'']
      else if truncated then [''# truncated at '' @ show_nat rowCount @ '' rows'' @ CSV_ROW_TERMINATOR] else [])"

record 'c export_source =
  esOpen :: "sql_fragment \<Rightarrow> 'c res"
  esApi :: "'c cursor_api"
  esColumns :: "string \<Rightarrow> string \<Rightarrow> column_metadata list res"
  esTableDdl :: "string \<Rightarrow> string \<Rightarrow> string res"
  esNow :: string

definition streamRows :: "'c export_source \<Rightarrow> nat \<Rightarrow> prepared_rows \<Rightarrow> export_io \<Rightarrow> (nat \<times> bool) res \<times> export_io" where
  "streamRows src maxRows p io =
     (case esOpen src (prFrag p) of
        Inl e \<Rightarrow> (Inl e, io)
      | Inr c \<Rightarrow>
          (let out = ioOut io @ json_mark p ''[''; closed = io\<lparr>ioOpened := ioOpened io + 1, ioClosed := ioClosed io + 1\<rparr> in
           case block_loop maxRows (esApi src) (rows_sink (esApi src) p) 0 c (False, out) of
             (Inl e, s) \<Rightarrow> (Inl e, closed\<lparr>ioOut := snd s\<rparr>)
           | (Inr (rowCount, truncated), s) \<Rightarrow>
               (Inr (rowCount, truncated), closed\<lparr>ioOut := snd s @ rows_end p rowCount truncated\<rparr>)))"

subsection \<open>The SQL dump\<close>

definition newline :: string where
  "newline = [CHR 0x0A]"

definition insert_tuple :: "engine \<Rightarrow> column_metadata list \<Rightarrow> row \<Rightarrow> string res" where
  "insert_tuple e columns r =
     res_map (\<lambda>ts. ''  ('' @ join '', '' ts @ '')'') (traverse (\<lambda>c. engine_literal e (get_prop r (colName c))) columns)"

definition insert_text :: "string \<Rightarrow> string list \<Rightarrow> string" where
  "insert_text header batch = header @ newline @ join ('','' @ newline) batch @ '';'' @ newline"

definition flush_batch :: "string \<Rightarrow> string list \<times> string list \<Rightarrow> string list \<times> string list" where
  "flush_batch header s =
     (case s of (batch, out) \<Rightarrow>
        if length batch = 0 then s
        else ([], out @ [insert_text header batch]))"

fun insert_rows :: "engine \<Rightarrow> string \<Rightarrow> column_metadata list \<Rightarrow> row list \<Rightarrow> string list \<times> string list \<Rightarrow> unit res \<times> (string list \<times> string list)" where
  "insert_rows e header columns [] s = (Inr (), s)"
| "insert_rows e header columns (r # rs) s =
     (case insert_tuple e columns r of
        Inl err \<Rightarrow> (Inl err, s)
      | Inr t \<Rightarrow>
          (let batch = fst s @ [t] in
           insert_rows e header columns rs
             (if length batch \<ge> INSERT_BATCH_ROWS then flush_batch header (batch, snd s) else (batch, snd s))))"

definition inserts_sink :: "engine \<Rightarrow> string \<Rightarrow> column_metadata list \<Rightarrow> string list \<Rightarrow> ('c, string list \<times> string list) sink" where
  "inserts_sink e header columns masked c rows rowCount s = insert_rows e header columns (redactRows rows masked) s"

definition engine_qualifyTable :: "engine \<Rightarrow> table_ref \<Rightarrow> string res" where
  "engine_qualifyTable e = (case e of Pg \<Rightarrow> pgQualifyTable | Mysql \<Rightarrow> mysqlQualifyTable | Sqlite \<Rightarrow> sqliteQualifyTable)"

definition insert_header :: "engine \<Rightarrow> table_ref \<Rightarrow> column_metadata list \<Rightarrow> string res" where
  "insert_header e ref columns =
     res_bind (engine_qualifyTable e ref) (\<lambda>t.
     res_map (\<lambda>cs. ''INSERT INTO '' @ t @ '' ('' @ join '', '' cs @ '') VALUES'') (traverse (\<lambda>c. engine_quote e (colName c)) columns))"

definition dump_select :: "engine \<Rightarrow> nat \<Rightarrow> table_ref \<Rightarrow> column_metadata list \<Rightarrow> sql_fragment res" where
  "dump_select e maxRows ref columns =
     buildSelectRows e ref (budget_options maxRows ([], []) (map_option colName (find isPrimaryKey columns)) ASC)"

definition streamTableInserts ::
  "'c export_source \<Rightarrow> nat \<Rightarrow> engine \<Rightarrow> table_ref \<Rightarrow> column_metadata list \<Rightarrow> string list \<Rightarrow> export_io \<Rightarrow> (nat \<times> bool) res \<times> export_io" where
  "streamTableInserts src maxRows e ref columns masked io =
     (case res_bind (dump_select e maxRows ref columns) (\<lambda>frag. res_map (Pair frag) (insert_header e ref columns)) of
        Inl err \<Rightarrow> (Inl err, io)
      | Inr (frag, header) \<Rightarrow>
          (case esOpen src frag of
             Inl err \<Rightarrow> (Inl err, io)
           | Inr c \<Rightarrow>
               (let closed = io\<lparr>ioOpened := ioOpened io + 1, ioClosed := ioClosed io + 1\<rparr> in
                case block_loop maxRows (esApi src) (inserts_sink e header columns masked) 0 c ([], ioOut io) of
                  (Inl err, s) \<Rightarrow> (Inl err, closed\<lparr>ioOut := snd s\<rparr>)
                | (Inr (rowCount, truncated), s) \<Rightarrow>
                    (Inr (rowCount, truncated),
                     closed\<lparr>ioOut := snd (flush_batch header s)
                       @ (if truncated then [''-- truncated at '' @ show_nat rowCount @ '' rows'' @ newline] else [])\<rparr>))))"

definition write_chunk :: "string \<Rightarrow> export_io \<Rightarrow> export_io" where
  "write_chunk t io = io\<lparr>ioOut := ioOut io @ [t]\<rparr>"

text \<open>One table of the dump: its comment, its definition and its rows, as asked.\<close>

definition dump_table ::
  "'c export_source \<Rightarrow> nat \<Rightarrow> engine \<Rightarrow> prepared_dump \<Rightarrow> string \<times> string \<Rightarrow> export_io \<Rightarrow> (nat \<times> bool) res \<times> export_io" where
  "dump_table src maxRows e p st io =
     (case st of (schema, table) \<Rightarrow>
        (let io1 = write_chunk (''-- '' @ schema @ ''.'' @ table @ newline) io in
         case (if pdIncludeSchema p then res_map (\<lambda>ddl. [trim_end ddl @ newline @ newline]) (esTableDdl src schema table) else Inr []) of
           Inl err \<Rightarrow> (Inl err, io1)
         | Inr ddl \<Rightarrow>
             (let io2 = io1\<lparr>ioOut := ioOut io1 @ ddl\<rparr> in
              if \<not> pdIncludeData p then (Inr (0, False), io2)
              else case esColumns src schema table of
                     Inl err \<Rightarrow> (Inl err, io2)
                   | Inr columns \<Rightarrow>
                       (let masked = (case map_of (pdMasked p) (tableKey schema table) of None \<Rightarrow> [] | Some m \<Rightarrow> m) in
                        case streamTableInserts src maxRows e (grid_ref schema table) columns masked io2 of
                          (Inl err, io3) \<Rightarrow> (Inl err, io3)
                        | (Inr r, io3) \<Rightarrow> (Inr r, write_chunk newline io3)))))"

fun dump_tables ::
  "'c export_source \<Rightarrow> nat \<Rightarrow> engine \<Rightarrow> prepared_dump \<Rightarrow> (string \<times> string) list \<Rightarrow> nat \<Rightarrow> bool \<Rightarrow> export_io \<Rightarrow> (nat \<times> bool) res \<times> export_io" where
  "dump_tables src maxRows e p [] rowsSoFar anyTruncated io = (Inr (rowsSoFar, anyTruncated), io)"
| "dump_tables src maxRows e p (t # ts) rowsSoFar anyTruncated io =
     (case dump_table src maxRows e p t io of
        (Inl err, io') \<Rightarrow> (Inl err, io')
      | (Inr (rowCount, truncated), io') \<Rightarrow> dump_tables src maxRows e p ts (rowsSoFar + rowCount) (anyTruncated \<or> truncated) io')"

definition streamSql :: "'c export_source \<Rightarrow> nat \<Rightarrow> engine \<Rightarrow> prepared_dump \<Rightarrow> export_io \<Rightarrow> (nat \<times> bool) res \<times> export_io" where
  "streamSql src maxRows e p io =
     dump_tables src maxRows e p (pdTables p) 0 False
       (write_chunk (''-- Prost SQL export '' @ em_dash @ '' '' @ esNow src @ newline @ newline) io)"

definition export_stream :: "'c export_source \<Rightarrow> nat \<Rightarrow> engine \<Rightarrow> prepared_export \<Rightarrow> export_io \<Rightarrow> (nat \<times> bool) res \<times> export_io" where
  "export_stream src maxRows e p io =
     (case p of ExportDump d \<Rightarrow> streamSql src maxRows e d io | ExportRows r \<Rightarrow> streamRows src maxRows r io)"

subsection \<open>The loop over a cursor that serves its rows\<close>

text \<open>
  What the native clients document: a read takes the next rows of the result, and the columns stay what the first
  read has shown.
\<close>

definition serves :: "'c cursor_api \<Rightarrow> ('c \<Rightarrow> row list) \<Rightarrow> ('c \<Rightarrow> string list) \<Rightarrow> bool" where
  "serves api rest names \<longleftrightarrow>
     (\<forall>n c. fst (caRead api n c) = Inr (take n (rest c)) \<and> rest (snd (caRead api n c)) = drop n (rest c)
        \<and> caColumns api (snd (caRead api n c)) = names c \<and> names (snd (caRead api n c)) = names c)"

text \<open>A sink that does not see where one block ends and the next begins.\<close>

definition blockwise :: "(row list \<Rightarrow> nat \<Rightarrow> 's \<Rightarrow> unit res \<times> 's) \<Rightarrow> bool" where
  "blockwise f \<longleftrightarrow>
     (\<forall>xs ys n s. f (xs @ ys) n s = (case f xs n s of (Inl e, s') \<Rightarrow> (Inl e, s') | (Inr u, s') \<Rightarrow> f ys (n + length xs) s'))"

lemma serves_fetch:
  assumes "serves api rest names"
  obtains c' where "driver_fetch api n c = (Inr (take n (rest c), length (rest c) < n), c')" "rest c' = drop n (rest c)"
    "caColumns api c' = names c" "names c' = names c"
proof -
  obtain r c' where r: "caRead api n c = (r, c')" by fastforce
  then have "r = Inr (take n (rest c))" "rest c' = drop n (rest c)" "caColumns api c' = names c" "names c' = names c"
    using assms unfolding serves_def by (metis fst_conv snd_conv)+
  moreover have "(length (take n (rest c)) < n) = (length (rest c) < n)" by auto
  ultimately show thesis using that [of c'] r by (simp only: driver_fetch_def prod.case sum.case)
qed

lemma block_loop_step:
  assumes "serves api rest names" "\<And>c'. caColumns api c' = names c \<Longrightarrow> sink c' = f" "n < maxRows"
    "b = min QUERY_PAGE_SIZE (maxRows - n)"
  obtains (failed) e s' where "f (take b (rest c)) n s = (Inl e, s')" "block_loop maxRows api sink n c s = (Inl e, s')"
  | (last) u s' where "f (take b (rest c)) n s = (Inr u, s')" "take b (rest c) = take (maxRows - n) (rest c)"
      "block_loop maxRows api sink n c s = (Inr (n + length (take b (rest c)), maxRows \<le> n + length (rest c)), s')"
  | (more) u s' c' where "f (take b (rest c)) n s = (Inr u, s')" "b \<le> length (rest c)" "n + b < maxRows"
      "rest c' = drop b (rest c)" "names c' = names c"
      "block_loop maxRows api sink n c s = block_loop maxRows api sink (n + b) c' s'"
proof -
  obtain c' where c': "driver_fetch api b c = (Inr (take b (rest c), length (rest c) < b), c')" "rest c' = drop b (rest c)"
    "caColumns api c' = names c" "names c' = names c"
    by (rule serves_fetch [OF assms(1)])
  note step = block_loop.simps [of maxRows api sink n c s, folded assms(4), unfolded c'(1) prod.case sum.case assms(2) [OF c'(3)]]
  obtain r s' where first: "f (take b (rest c)) n s = (r, s')" by fastforce
  show thesis
  proof (cases r)
    case (Inl e)
    then show thesis using failed first step assms(3) by simp
  next
    case (Inr u)
    show thesis
    proof (cases "length (rest c) < b \<or> maxRows \<le> n + b")
      case True
      then have "take b (rest c) = take (maxRows - n) (rest c)" using assms(3,4) by (cases "length (rest c) < b") auto
      moreover have "length (rest c) < b \<longleftrightarrow> \<not> maxRows \<le> n + length (rest c)" using True assms(3,4) by linarith
      ultimately show thesis using last [OF first [unfolded Inr]] first step assms(3) Inr True by simp
    next
      case False
      then show thesis using more [OF first [unfolded Inr] _ _ c'(2,4)] first step assms(3) Inr by simp
    qed
  qed
qed

lemma block_loop_all:
  assumes "serves api rest names" "blockwise f" "\<And>c'. caColumns api c' = names c \<Longrightarrow> sink c' = f" "n < maxRows"
  shows "block_loop maxRows api sink n c s =
     (case f (take (maxRows - n) (rest c)) n s of
        (Inl e, s') \<Rightarrow> (Inl e, s')
      | (Inr u, s') \<Rightarrow> (Inr (n + length (take (maxRows - n) (rest c)), maxRows \<le> n + length (rest c)), s'))"
  using assms(3,4)
proof (induction "maxRows - n" arbitrary: n c s rule: less_induct)
  case less
  define b where "b = min QUERY_PAGE_SIZE (maxRows - n)"
  have rows: "take (maxRows - n) (rest c) = take b (rest c) @ take (maxRows - (n + b)) (drop b (rest c))"
    using less.prems(2) by (metis b_def diff_diff_left le_add_diff_inverse min.cobounded2 take_add)
  then have f: "f (take (maxRows - n) (rest c)) n s = (case f (take b (rest c)) n s of
      (Inl e, s') \<Rightarrow> (Inl e, s')
    | (Inr u, s') \<Rightarrow> f (take (maxRows - (n + b)) (drop b (rest c))) (n + length (take b (rest c))) s')"
    using assms(2) unfolding blockwise_def by simp
  show ?case
  proof (rule block_loop_step [OF assms(1) less.prems b_def, where s = s])
    fix e s'
    assume "f (take b (rest c)) n s = (Inl e, s')" "block_loop maxRows api sink n c s = (Inl e, s')"
    then show ?thesis unfolding f by simp
  next
    fix u s'
    assume "f (take b (rest c)) n s = (Inr u, s')" "take b (rest c) = take (maxRows - n) (rest c)"
      "block_loop maxRows api sink n c s = (Inr (n + length (take b (rest c)), maxRows \<le> n + length (rest c)), s')"
    then show ?thesis by simp
  next
    fix u s' c'
    assume more: "f (take b (rest c)) n s = (Inr u, s')" "b \<le> length (rest c)" "n + b < maxRows"
      "rest c' = drop b (rest c)" "names c' = names c"
      "block_loop maxRows api sink n c s = block_loop maxRows api sink (n + b) c' s'"
    have "maxRows - (n + b) < maxRows - n" using less.prems(2) by (simp add: b_def QUERY_PAGE_SIZE_def)
    from less.hyps [OF this, of c' s', unfolded more(4,5), OF less.prems(1) more(3)]
    have ih: "block_loop maxRows api sink n c s =
       (case f (take (maxRows - (n + b)) (drop b (rest c))) (n + b) s' of
          (Inl e, s') \<Rightarrow> (Inl e, s')
        | (Inr u, s') \<Rightarrow> (Inr (n + b + length (take (maxRows - (n + b)) (drop b (rest c))),
             maxRows \<le> n + b + length (drop b (rest c))), s'))"
      unfolding more(6) .
    have len: "n + length (take (maxRows - n) (rest c)) = n + b + length (take (maxRows - (n + b)) (drop b (rest c)))"
      "maxRows \<le> n + length (rest c) \<longleftrightarrow> maxRows \<le> n + b + length (drop b (rest c))"
      using more(2) by (auto simp: rows)
    have "length (take b (rest c)) = b" using more(2) by simp
    then show ?thesis unfolding ih f len more(1) by simp
  qed
qed

subsection \<open>What a row export writes\<close>

lemma redactRows_append: "redactRows (xs @ ys) m = redactRows xs m @ redactRows ys m"
  by (simp add: redactRows_eq)

lemma length_redactRows [simp]: "length (redactRows rows m) = length rows"
  by (simp add: redactRows_eq)

lemma write_rows_append:
  "write_rows p names (xs @ ys) n out =
     (case write_rows p names xs n out of
        (Inl e, out') \<Rightarrow> (Inl e, out') | (Inr u, out') \<Rightarrow> write_rows p names ys (n + length xs) out')"
  by (induction xs arbitrary: n out) (auto split: sum.split prod.split)

text \<open>The sink, for a cursor whose columns are known.\<close>

definition named_rows_sink ::
  "string list \<Rightarrow> prepared_rows \<Rightarrow> row list \<Rightarrow> nat \<Rightarrow> bool \<times> string list \<Rightarrow> unit res \<times> bool \<times> string list" where
  "named_rows_sink names p rows rowCount s =
     (case header_chunk p names (fst s) of
        Inl e \<Rightarrow> (Inl e, s)
      | Inr hs \<Rightarrow> (case write_rows p names (redactRows rows (prMasked p)) rowCount (snd s @ hs) of (r, out) \<Rightarrow> (r, (True, out))))"

lemma rows_sink_named: "caColumns api c = names \<Longrightarrow> rows_sink api p c = named_rows_sink names p"
  by (auto simp: rows_sink_def named_rows_sink_def fun_eq_iff split: prod.split sum.split)

lemma header_written [simp]: "header_chunk p names True = Inr []"
  by (simp add: header_chunk_def)

lemma blockwise_rows: "blockwise (named_rows_sink names p)"
  unfolding blockwise_def
proof (intro allI)
  fix xs ys n and s :: "bool \<times> string list"
  show "named_rows_sink names p (xs @ ys) n s = (case named_rows_sink names p xs n s of
      (Inl e, s') \<Rightarrow> (Inl e, s') | (Inr u, s') \<Rightarrow> named_rows_sink names p ys (n + length xs) s')"
  proof (cases "header_chunk p names (fst s)")
    case (Inr hs)
    obtain r out where "write_rows p names (redactRows xs (prMasked p)) n (snd s @ hs) = (r, out)" by fastforce
    then show ?thesis
      by (cases r) (auto simp: named_rows_sink_def Inr redactRows_append write_rows_append)
  qed (simp add: named_rows_sink_def)
qed

text \<open>The chunks of a list of rows, from the count \<open>n\<close> on.\<close>

definition row_chunks :: "prepared_rows \<Rightarrow> string list \<Rightarrow> nat \<Rightarrow> row list \<Rightarrow> string list res" where
  "row_chunks p names n rows = traverse (\<lambda>(i, r). row_chunk p names i r) (enumerate n rows)"

lemma write_rows_chunks:
  "row_chunks p names n rows = Inr cs \<Longrightarrow> write_rows p names rows n out = (Inr (), out @ cs)"
proof (induction rows arbitrary: n out cs)
  case (Cons r rows)
  obtain t cs' where "row_chunk p names n r = Inr t" "row_chunks p names (n + 1) rows = Inr cs'" "cs = t # cs'"
    using Cons.prems by (auto simp: row_chunks_def res_simps)
  with Cons.IH show ?case by simp
qed (simp add: row_chunks_def)

definition export_chunks :: "prepared_rows \<Rightarrow> string list \<Rightarrow> row list \<Rightarrow> string list res" where
  "export_chunks p names rows =
     res_bind (header_chunk p names False) (\<lambda>hs. res_map ((@) hs) (row_chunks p names 0 (redactRows rows (prMasked p))))"

text \<open>
  A CSV or JSON export writes exactly the rows of the result, in order and up to the row budget, each of them
  redacted before it is formatted, after the header and between the brackets of the format; it reports the rows
  written, and says that it was cut exactly when the result has as many rows as the budget; and its cursor is closed.
\<close>

theorem streamRows_exact:
  assumes "serves (esApi src) rest names" "esOpen src (prFrag p) = Inr c" "0 < maxRows"
    "export_chunks p (names c) (take maxRows (rest c)) = Inr chunks"
  shows "streamRows src maxRows p io =
    (let n = min maxRows (length (rest c)); cut = (maxRows \<le> length (rest c))
     in (Inr (n, cut),
         io\<lparr>ioOut := ioOut io @ json_mark p ''['' @ chunks @ rows_end p n cut,
            ioOpened := ioOpened io + 1, ioClosed := ioClosed io + 1\<rparr>))"
proof -
  obtain hs cs where hs: "header_chunk p (names c) False = Inr hs"
    and cs: "row_chunks p (names c) 0 (redactRows (take maxRows (rest c)) (prMasked p)) = Inr cs" "chunks = hs @ cs"
    using assms(4) by (auto simp: export_chunks_def res_simps)
  have "named_rows_sink (names c) p (take maxRows (rest c)) 0 (False, out) = (Inr (), True, out @ chunks)" for out
    using write_rows_chunks [OF cs(1)] hs by (simp add: named_rows_sink_def cs(2))
  moreover have "block_loop maxRows (esApi src) (rows_sink (esApi src) p) 0 c s =
     (case named_rows_sink (names c) p (take (maxRows - 0) (rest c)) 0 s of
        (Inl e, s') \<Rightarrow> (Inl e, s')
      | (Inr u, s') \<Rightarrow> (Inr (0 + length (take (maxRows - 0) (rest c)), maxRows \<le> 0 + length (rest c)), s'))" for s
    by (rule block_loop_all [OF assms(1) blockwise_rows rows_sink_named assms(3)])
  ultimately have "block_loop maxRows (esApi src) (rows_sink (esApi src) p) 0 c (False, out) =
      (Inr (min maxRows (length (rest c)), maxRows \<le> length (rest c)), True, out @ chunks)" for out
    by (simp add: min.commute)
  then show ?thesis by (simp add: streamRows_def assms(2) Let_def)
qed

text \<open>A result of exactly as many rows as the budget is whole, but the export says it was cut.\<close>

lemma whole_export_marked_cut:
  assumes "serves (esApi src) rest names" "esOpen src (prFrag p) = Inr c" "length (rest c) = maxRows" "0 < maxRows"
    "prFormat p = CsvFormat" "export_chunks p (names c) (rest c) = Inr chunks"
  shows "ioOut (snd (streamRows src maxRows p io)) =
    ioOut io @ chunks @ [''# truncated at '' @ show_nat maxRows @ '' rows'' @ CSV_ROW_TERMINATOR]"
  using streamRows_exact [OF assms(1,2,4), of chunks] assms(3,5,6) by (simp add: Let_def json_mark_def rows_end_def)

subsection \<open>What a dump writes\<close>

function chunks_of :: "nat \<Rightarrow> 'a list \<Rightarrow> 'a list list" where
  "chunks_of n xs = (if xs = [] \<or> n = 0 then [] else take n xs # chunks_of n (drop n xs))"
  by pat_completeness auto
termination by (relation "measure (\<lambda>(n, xs). length xs)") auto

declare chunks_of.simps [simp del]

lemma chunks_of_Nil [simp]: "chunks_of n [] = []"
  by (simp add: chunks_of.simps)

lemma chunks_of_short: "length xs < n \<Longrightarrow> chunks_of n xs = (if xs = [] then [] else [xs])"
  by (simp add: chunks_of.simps [of n xs])

lemma chunks_of_full: "length xs = n \<Longrightarrow> 0 < n \<Longrightarrow> chunks_of n (xs @ ys) = xs # chunks_of n ys"
  by (subst chunks_of.simps) auto

lemma chunks_of_concat: "0 < n \<Longrightarrow> concat (chunks_of n xs) = xs \<and> list_all (\<lambda>b. b \<noteq> [] \<and> length b \<le> n) (chunks_of n xs)"
proof (induction n xs rule: chunks_of.induct)
  case (1 n xs)
  then show ?case by (cases "xs = []") (simp_all add: chunks_of.simps [of n xs])
qed

lemma flush_simps [simp]:
  "flush_batch header ([], out) = ([], out)"
  "batch \<noteq> [] \<Longrightarrow> flush_batch header (batch, out) = ([], out @ [insert_text header batch])"
  by (simp_all add: flush_batch_def)

lemma insert_rows_append:
  "insert_rows e header columns (xs @ ys) s =
     (case insert_rows e header columns xs s of
        (Inl err, s') \<Rightarrow> (Inl err, s') | (Inr u, s') \<Rightarrow> insert_rows e header columns ys s')"
  by (induction xs arbitrary: s) (auto simp: Let_def split: sum.split prod.split)

lemma blockwise_inserts: "blockwise (inserts_sink e header columns masked c)"
  unfolding blockwise_def inserts_sink_def redactRows_append insert_rows_append by blast

lemma insert_rows_batches:
  assumes "traverse (insert_tuple e columns) rows = Inr ts" "length batch < INSERT_BATCH_ROWS"
  shows "\<exists>s. insert_rows e header columns rows (batch, out) = (Inr (), s)
     \<and> snd (flush_batch header s) = out @ map (insert_text header) (chunks_of INSERT_BATCH_ROWS (batch @ ts))"
  using assms
proof (induction rows arbitrary: batch out ts)
  case Nil
  then show ?case by (cases "batch = []") (simp_all add: chunks_of_short)
next
  case (Cons r rows)
  obtain t ts' where t: "insert_tuple e columns r = Inr t" "traverse (insert_tuple e columns) rows = Inr ts'" "ts = t # ts'"
    using Cons.prems(1) by (auto simp: res_simps)
  show ?case
  proof (cases "length (batch @ [t]) = INSERT_BATCH_ROWS")
    case True
    moreover have "0 < INSERT_BATCH_ROWS" by (simp add: INSERT_BATCH_ROWS_def)
    moreover from calculation have "chunks_of INSERT_BATCH_ROWS ((batch @ [t]) @ ts') = (batch @ [t]) # chunks_of INSERT_BATCH_ROWS ts'"
      by (rule chunks_of_full)
    ultimately show ?thesis
      using Cons.IH [OF t(2), of "[]" "out @ [insert_text header (batch @ [t])]"] t by auto
  next
    case False
    then have short: "length (batch @ [t]) < INSERT_BATCH_ROWS" using Cons.prems(2) by simp
    from Cons.IH [OF t(2) this, of out] show ?thesis using short t by auto
  qed
qed

text \<open>
  The dump of a table writes its rows, redacted, in order and up to the budget, as \<open>INSERT\<close> statements of at least
  one and at most a hundred rows each, every statement with the table and the columns in its head, and marks what it
  cut; its cursor is closed.
\<close>

theorem streamTableInserts_exact:
  assumes "serves (esApi src) rest names" "dump_select e maxRows ref columns = Inr frag"
    "insert_header e ref columns = Inr header" "esOpen src frag = Inr c" "0 < maxRows"
    "traverse (insert_tuple e columns) (redactRows (take maxRows (rest c)) masked) = Inr ts"
  shows "\<exists>batches. concat batches = ts \<and> list_all (\<lambda>b. b \<noteq> [] \<and> length b \<le> INSERT_BATCH_ROWS) batches
     \<and> streamTableInserts src maxRows e ref columns masked io =
        (let n = min maxRows (length (rest c)); cut = (maxRows \<le> length (rest c))
         in (Inr (n, cut),
             io\<lparr>ioOut := ioOut io @ map (insert_text header) batches
                  @ (if cut then [''-- truncated at '' @ show_nat n @ '' rows'' @ newline] else []),
                ioOpened := ioOpened io + 1, ioClosed := ioClosed io + 1\<rparr>))"
proof -
  let ?batches = "chunks_of INSERT_BATCH_ROWS ts"
  have big: "0 < INSERT_BATCH_ROWS" by (simp add: INSERT_BATCH_ROWS_def)
  obtain s where s: "insert_rows e header columns (redactRows (take maxRows (rest c)) masked) ([], ioOut io) = (Inr (), s)"
    "snd (flush_batch header s) = ioOut io @ map (insert_text header) ?batches"
    using insert_rows_batches [OF assms(6), of "[]" header "ioOut io"] big by auto
  have "block_loop maxRows (esApi src) (inserts_sink e header columns masked) 0 c ([], ioOut io) =
     (case inserts_sink e header columns masked c (take (maxRows - 0) (rest c)) 0 ([], ioOut io) of
        (Inl e, s') \<Rightarrow> (Inl e, s')
      | (Inr u, s') \<Rightarrow> (Inr (0 + length (take (maxRows - 0) (rest c)), maxRows \<le> 0 + length (rest c)), s'))"
    by (rule block_loop_all [OF assms(1) blockwise_inserts _ assms(5)]) (simp add: inserts_sink_def fun_eq_iff)
  then have "block_loop maxRows (esApi src) (inserts_sink e header columns masked) 0 c ([], ioOut io) =
      (Inr (min maxRows (length (rest c)), maxRows \<le> length (rest c)), s)"
    using s(1) by (simp add: inserts_sink_def min.commute)
  then have "streamTableInserts src maxRows e ref columns masked io =
        (let n = min maxRows (length (rest c)); cut = (maxRows \<le> length (rest c))
         in (Inr (n, cut),
             io\<lparr>ioOut := ioOut io @ map (insert_text header) ?batches
                  @ (if cut then [''-- truncated at '' @ show_nat n @ '' rows'' @ newline] else []),
                ioOpened := ioOpened io + 1, ioClosed := ioClosed io + 1\<rparr>))"
    using assms(2-4) s(2) by (simp add: streamTableInserts_def Let_def)
  then show ?thesis
    using chunks_of_concat [OF big, of ts] by (intro exI [of _ ?batches]) simp
qed

subsection \<open>A masked value does not reach the file\<close>

text \<open>
  Two answers of the database that differ in the values of masked columns only: the same failure, or cursors with the
  same columns over rows that agree elsewhere.
\<close>

definition differ_masked :: "('c \<Rightarrow> row list) \<Rightarrow> ('c \<Rightarrow> string list) \<Rightarrow> string list \<Rightarrow> 'c res \<Rightarrow> 'c res \<Rightarrow> bool" where
  "differ_masked rest names masked a b \<longleftrightarrow>
     (case (a, b) of
        (Inl e, Inl e') \<Rightarrow> e = e'
      | (Inr c, Inr c') \<Rightarrow> names c = names c' \<and> list_all2 (same_outside masked) (rest c) (rest c')
      | _ \<Rightarrow> False)"

definition dump_mask :: "prepared_dump \<Rightarrow> string \<times> string \<Rightarrow> string list" where
  "dump_mask d st = (case map_of (pdMasked d) (tableKey (fst st) (snd st)) of None \<Rightarrow> [] | Some m \<Rightarrow> m)"

text \<open>The answers of two databases to what the export reads differ only in masked values.\<close>

definition differ_for :: "('c \<Rightarrow> row list) \<Rightarrow> ('c \<Rightarrow> string list) \<Rightarrow> 'c export_source \<Rightarrow> (sql_fragment \<Rightarrow> 'c res) \<Rightarrow> nat \<Rightarrow> engine \<Rightarrow> prepared_export \<Rightarrow> bool" where
  "differ_for rest names src other maxRows e p \<longleftrightarrow>
     (case p of
        ExportRows r \<Rightarrow> differ_masked rest names (prMasked r) (esOpen src (prFrag r)) (other (prFrag r))
      | ExportDump d \<Rightarrow>
          (\<forall>st \<in> set (pdTables d). \<forall>columns frag. esColumns src (fst st) (snd st) = Inr columns \<longrightarrow>
             dump_select e maxRows (grid_ref (fst st) (snd st)) columns = Inr frag \<longrightarrow>
             differ_masked rest names (dump_mask d st) (esOpen src frag) (other frag)))"

lemma differ_masked_cases:
  assumes "differ_masked rest names masked a b"
  obtains (fails) e where "a = Inl e" "b = Inl e"
  | (serve) c c' where "a = Inr c" "b = Inr c'" "names c = names c'"
      "redactRows (take n (rest c)) masked = redactRows (take n (rest c')) masked" "length (rest c) = length (rest c')"
proof (cases a)
  case (Inl e)
  then show thesis using assms fails by (cases b) (auto simp: differ_masked_def)
next
  case (Inr c)
  then obtain c' where c': "b = Inr c'" "names c = names c'" and same: "list_all2 (same_outside masked) (rest c) (rest c')"
    using assms by (cases b) (auto simp: differ_masked_def)
  show thesis
    using serve [OF Inr c'] redactRows_same [OF list_all2_takeI [OF same]] list_all2_lengthD [OF same] by blast
qed

lemma block_loop_hides:
  assumes "serves api rest names" "blockwise f" "\<And>c'. caColumns api c' = names c \<Longrightarrow> sink c' = f"
    "names c = names c'" "length (rest c) = length (rest c')"
    "\<And>s. f (take maxRows (rest c)) 0 s = f (take maxRows (rest c')) 0 s"
  shows "block_loop maxRows api sink 0 c s = block_loop maxRows api sink 0 c' s"
proof (cases "maxRows = 0")
  case True
  then show ?thesis by (simp add: block_loop.simps [of 0])
next
  case False
  then have pos: "0 < maxRows" by simp
  have sink': "\<And>c''. caColumns api c'' = names c' \<Longrightarrow> sink c'' = f" using assms(3,4) by simp
  have "length (take maxRows (rest c)) = length (take maxRows (rest c'))" by (simp add: assms(5))
  moreover have "block_loop maxRows api sink 0 c s =
      (case f (take maxRows (rest c)) 0 s of
         (Inl e, s') \<Rightarrow> (Inl e, s')
       | (Inr u, s') \<Rightarrow> (Inr (0 + length (take maxRows (rest c)), maxRows \<le> 0 + length (rest c)), s'))"
    by (rule block_loop_all [where n = 0, unfolded diff_zero, OF assms(1,2) _ pos]) (rule assms(3))
  moreover have "block_loop maxRows api sink 0 c' s =
      (case f (take maxRows (rest c')) 0 s of
         (Inl e, s') \<Rightarrow> (Inl e, s')
       | (Inr u, s') \<Rightarrow> (Inr (0 + length (take maxRows (rest c')), maxRows \<le> 0 + length (rest c')), s'))"
    by (rule block_loop_all [where n = 0, unfolded diff_zero, OF assms(1,2) _ pos]) (rule sink')
  ultimately show ?thesis using assms(6) [of s] by (simp only: assms(5))
qed

lemma streamRows_hides:
  assumes "serves (esApi src) rest names" "differ_masked rest names (prMasked p) (esOpen src (prFrag p)) (other (prFrag p))"
  shows "streamRows src maxRows p io = streamRows (src\<lparr>esOpen := other\<rparr>) maxRows p io"
  using assms(2)
proof (cases rule: differ_masked_cases [where n = maxRows])
  case (fails e)
  then show ?thesis by (simp add: streamRows_def)
next
  case (serve c c')
  have eq: "named_rows_sink (names c) p (take maxRows (rest c)) 0 s = named_rows_sink (names c) p (take maxRows (rest c')) 0 s" for s
    unfolding named_rows_sink_def serve(4) ..
  have "block_loop maxRows (esApi src) (rows_sink (esApi src) p) 0 c s = block_loop maxRows (esApi src) (rows_sink (esApi src) p) 0 c' s" for s
    by (rule block_loop_hides [OF assms(1) blockwise_rows _ serve(3,5) eq]) (rule rows_sink_named)
  then show ?thesis by (simp add: streamRows_def serve(1,2))
qed

lemma streamTableInserts_hides:
  assumes "serves (esApi src) rest names"
    "\<And>frag. dump_select e maxRows ref columns = Inr frag \<Longrightarrow> differ_masked rest names masked (esOpen src frag) (other frag)"
  shows "streamTableInserts src maxRows e ref columns masked io = streamTableInserts (src\<lparr>esOpen := other\<rparr>) maxRows e ref columns masked io"
proof (cases "res_bind (dump_select e maxRows ref columns) (\<lambda>frag. res_map (Pair frag) (insert_header e ref columns))")
  case (Inl err)
  then show ?thesis by (simp add: streamTableInserts_def)
next
  case (Inr fh)
  then obtain frag header where fh: "fh = (frag, header)" "dump_select e maxRows ref columns = Inr frag" by (auto simp: res_simps)
  from assms(2) [OF fh(2)] show ?thesis
  proof (cases rule: differ_masked_cases [where n = maxRows])
    case (fails err)
    then show ?thesis by (simp add: streamTableInserts_def Inr fh(1))
  next
    case (serve c c')
    have sink: "inserts_sink e header columns masked c'' = inserts_sink e header columns masked c" for c''
      by (simp add: inserts_sink_def fun_eq_iff)
    have eq: "inserts_sink e header columns masked c (take maxRows (rest c)) 0 s = inserts_sink e header columns masked c (take maxRows (rest c')) 0 s" for s
      by (simp add: inserts_sink_def serve(4))
    have "block_loop maxRows (esApi src) (inserts_sink e header columns masked) 0 c s
        = block_loop maxRows (esApi src) (inserts_sink e header columns masked) 0 c' s" for s
      by (rule block_loop_hides [OF assms(1) blockwise_inserts _ serve(3,5) eq]) (rule sink)
    then show ?thesis by (simp add: streamTableInserts_def Inr fh(1) serve(1,2))
  qed
qed

text \<open>
  C36. A masked value that is read for an export does not reach the file: when two databases answer the queries of the
  export alike - with the same failure, or with the same columns over equally many rows that agree, row by row, on
  which values are null and on every value outside the columns masked for the export - the export of the one is the
  export of the other, chunk by chunk, in every format. What the choice and the order of the rows tell is not covered:
  a table export may be filtered and sorted by a masked column, see \<open>export_sorts_by_masked\<close>.
\<close>

theorem export_hides_masked:
  assumes "serves (esApi src) rest names" "differ_for rest names src other maxRows e p"
  shows "export_stream (src\<lparr>esOpen := other\<rparr>) maxRows e p io = export_stream src maxRows e p io"
proof (cases p)
  case (ExportRows r)
  then show ?thesis
    using streamRows_hides [OF assms(1)] assms(2) by (simp add: export_stream_def differ_for_def)
next
  case (ExportDump d)
  have one: "dump_table (src\<lparr>esOpen := other\<rparr>) maxRows e d st io = dump_table src maxRows e d st io" if "st \<in> set (pdTables d)" for st io
  proof -
    have "streamTableInserts src maxRows e (grid_ref (fst st) (snd st)) columns (dump_mask d st) io
        = streamTableInserts (src\<lparr>esOpen := other\<rparr>) maxRows e (grid_ref (fst st) (snd st)) columns (dump_mask d st) io"
      if "esColumns src (fst st) (snd st) = Inr columns" for columns io
      using assms(2) \<open>st \<in> set (pdTables d)\<close> that
      by (intro streamTableInserts_hides [OF assms(1)]) (simp add: differ_for_def ExportDump)
    then show ?thesis
      by (auto simp: dump_table_def dump_mask_def case_prod_beta Let_def split: sum.split)
  qed
  have "dump_tables (src\<lparr>esOpen := other\<rparr>) maxRows e d ts n cut io = dump_tables src maxRows e d ts n cut io"
    if "set ts \<subseteq> set (pdTables d)" for ts n cut io
    using that by (induction ts arbitrary: n cut io) (simp_all add: one split: sum.split prod.split)
  then show ?thesis by (simp add: export_stream_def ExportDump streamSql_def)
qed

subsection \<open>What is prepared\<close>

text \<open>A catalogue that does not change and is read without a trace.\<close>

definition static_catalogue :: "'d grid_env \<Rightarrow> (string \<Rightarrow> string \<Rightarrow> column_metadata list) \<Rightarrow> bool" where
  "static_catalogue env cat \<longleftrightarrow> (\<forall>s t w. geColumns env s t w = (Inr (cat s t), w))"

lemma static_columns: "static_catalogue env cat \<Longrightarrow> geColumns env s t = ret (cat s t)"
  by (auto simp: static_catalogue_def)

lemma static_table:
  "static_catalogue env cat \<Longrightarrow>
   export_table_columns env s t w = (if cat s t = [] then Inl (NotFound (''Table '' @ table_text s t @ '' not found'')) else Inr (cat s t), w)"
  by (simp add: export_table_columns_def static_columns bind_eff_run)

lemma static_mask:
  assumes "static_catalogue env cat" "gePreferences env u = Inr prefs" "u \<noteq> []"
  shows "export_resolveMasked env (Some u) c s t w = (Inr (maskedColumnsFor prefs c s t (primary_key_of (cat s t))), w)"
  using assms by (simp add: export_resolveMasked_def given_def static_columns bind_eff_run)

lemma fold_set_keyed:
  assumes "\<And>a b. key a = key b \<Longrightarrow> a = b" "x \<in> set xs \<or> map_of acc (key x) = Some (m x)"
  shows "map_of (fold (\<lambda>(k, v). jm_set k v) (map (\<lambda>x. (key x, m x)) xs) acc) (key x) = Some (m x)"
  using assms(2)
proof (induction xs arbitrary: acc)
  case (Cons a xs)
  then have "x \<in> set xs \<or> map_of (jm_set (key a) (m a) acc) (key x) = Some (m x)"
    using assms(1) [of x a] by (cases "a = x") (auto simp: map_of_jm_set)
  then show ?case using Cons.IH by simp
qed simp

lemma tableKey_inj: "tableKey s t = tableKey s t' \<Longrightarrow> t = t'"
  by (simp add: tableKey_def)

lemma static_dump_masks:
  assumes "static_catalogue (xeGrid env) cat" "gePreferences (xeGrid env) u = Inr prefs" "u \<noteq> []"
    "dump_masks env c s ts (Some u) w = (Inr masks, w')"
  shows "w' = w \<and> (\<forall>t \<in> set ts. cat s t \<noteq> [] \<and> map_of masks (tableKey s t) = Some (maskedColumnsFor prefs c s t (primary_key_of (cat s t))))"
proof -
  let ?m = "\<lambda>t. maskedColumnsFor prefs c s t (primary_key_of (cat s t))"
  define f where "f = (\<lambda>table. bind_eff (export_table_columns (xeGrid env) s table) (\<lambda>_.
     bind_eff (export_resolveMasked (xeGrid env) (Some u) c s table) (\<lambda>masked. ret (tableKey s table, masked))))"
  have "\<exists>e. each_eff f ts w = (if \<forall>t \<in> set ts. cat s t \<noteq> [] then (Inr (map (\<lambda>t. (tableKey s t, ?m t)) ts), w) else (Inl e, w))"
    by (induction ts) (auto simp: f_def bind_eff_run static_table [OF assms(1)] static_mask [OF assms(1-3)])
  then obtain e where each: "each_eff f ts w
      = (if \<forall>t \<in> set ts. cat s t \<noteq> [] then (Inr (map (\<lambda>t. (tableKey s t, ?m t)) ts), w) else (Inl e, w))" by blast
  have all: "\<forall>t \<in> set ts. cat s t \<noteq> []"
    using assms(4) each by (auto simp: dump_masks_def bind_eff_run f_def [symmetric] split: if_splits)
  have "masks = fold (\<lambda>(k, v). jm_set k v) (map (\<lambda>t. (tableKey s t, ?m t)) ts) []" "w' = w"
    using assms(4) all by (simp_all add: dump_masks_def bind_eff_run each f_def [symmetric])
  then show ?thesis using all fold_set_keyed [of "tableKey s" _ ts "[]" ?m, OF tableKey_inj] by simp
qed

lemma single_select_silent: "resolveSingleSelect env sql w = (r, w') \<Longrightarrow> w' = w"
  by (auto simp: resolveSingleSelect_def split: list.splits if_splits)

text \<open>
  What is prepared for a user is masked as the user's preference says: a table export reads the table by the
  compiled filter, one row beyond the budget, and redacts exactly the masked columns of the table outside its primary
  key; a dump has for each of its tables exactly those columns. Preparing sends nothing but the catalogue's lookups.
\<close>

theorem export_prepare_masks:
  assumes "static_catalogue (xeGrid env) cat" "gePreferences (xeGrid env) u = Inr prefs" "u \<noteq> []"
    "export_prepare env c dto (Some u) w = (Inr p, w')"
  shows "w' = w \<and> (case p of
      ExportRows r \<Rightarrow> xrScope dto = TableScope \<longrightarrow>
        (\<exists>s t e compiled. xrSchema dto = Some s \<and> xrTable dto = Some t \<and> geDriver (xeGrid env) = Inr e
          \<and> export_filter dto (cat s t) e = Inr compiled
          \<and> buildSelectRows e (grid_ref s t) (budget_options (xeMaxRows env) compiled (export_order_column dto (cat s t)) (export_dir dto))
              = Inr (prFrag r)
          \<and> prMasked r = maskedColumnsFor prefs c s t (primary_key_of (cat s t)))
    | ExportDump d \<Rightarrow> \<forall>st \<in> set (pdTables d).
        dump_mask d st = maskedColumnsFor prefs c (fst st) (snd st) (primary_key_of (cat (fst st) (snd st))))"
proof -
  obtain e where e: "geDriver (xeGrid env) = Inr e"
    using assms(4) by (auto simp: export_prepare_def elim!: bind_eff_cases)
  show ?thesis
  proof (cases "xrFormat dto = SqlFormat")
    case True
    then obtain s tables base masks where "dump_masks env c s tables (Some u) w = (Inr masks, w')"
      and p: "p = ExportDump \<lparr>pdTables = map (Pair s) tables, pdIncludeSchema = (case xrIncludeSchema dto of None \<Rightarrow> True | Some b \<Rightarrow> b),
                 pdIncludeData = (case xrIncludeData dto of None \<Rightarrow> True | Some b \<Rightarrow> b),
                 pdFilename = sanitizeFilename base @ ''-'' @ xeStamp env @ ''.sql'', pdMasked = masks\<rparr>"
      using assms(4) e
      by (auto simp: export_prepare_def prepareSql_def elim!: bind_eff_cases split: option.splits if_splits prod.splits)
    then show ?thesis using static_dump_masks [OF assms(1-3)] by (auto simp: dump_mask_def)
  next
    case False
    show ?thesis
      using assms(4) e False static_mask [OF assms(1-3)]
      by (auto simp: export_prepare_def prepare_table_def prepare_query_def static_table [OF assms(1)] given_def
          elim!: bind_eff_cases dest!: single_select_silent split: option.splits if_splits)
  qed
qed

subsection \<open>File names and comments\<close>

lemma replace_runs_chars: "list_all filename_char (replace_runs s)"
  by (induction s rule: replace_runs.induct) (auto simp: filename_char_def word_char_def)

lemma trim_underscores_chars: "list_all P s \<Longrightarrow> list_all P (trim_underscores s)"
  by (auto simp: trim_underscores_def list_all_iff Let_def dest!: set_dropWhileD)

text \<open>No name can break out of the quotes of the download's header.\<close>

lemma sanitizeFilename_safe: "list_all filename_char (sanitizeFilename name) \<and> sanitizeFilename name \<noteq> []"
  using trim_underscores_chars [OF replace_runs_chars]
  by (simp add: sanitizeFilename_def Let_def filename_char_def word_char_def alpha_char_def ascii_lower_def lower_char_def)

text \<open>
  The comment in front of a table of the dump holds the name as it is: a name with a line break ends the comment, and
  what follows it is a statement of the script.
\<close>

lemma drop_to: "x \<notin> set a \<Longrightarrow> dropWhile (\<lambda>c. c \<noteq> x) (a @ x # r) = x # r"
  by (induction a) auto

lemma dump_comment_breaks:
  assumes "CHR 0x0A \<notin> set schema" "CHR 0x0A \<notin> set before"
  shows "lex e (''-- '' @ schema @ ''.'' @ (before @ newline @ injected) @ newline) = TComment # lex e (injected @ newline)"
proof -
  have "dropWhile (\<lambda>c. c \<noteq> CHR 0x0A) (''-- '' @ schema @ ''.'' @ (before @ newline @ injected) @ newline)
      = newline @ injected @ newline"
    using drop_to [of "CHR 0x0A" "''-- '' @ schema @ ''.'' @ before" "injected @ newline"] assms by (simp add: newline_def)
  moreover have "ident_quote e \<noteq> CHR ''-''" by (simp add: ident_quote_def)
  ultimately show ?thesis
    by (simp add: lex.simps(2) skip_comment_def line_comment_def starts_with_def newline_def)
qed

subsection \<open>Witnesses\<close>

definition list_api :: "(string list \<times> row list) cursor_api" where
  "list_api = \<lparr>caRead = (\<lambda>n c. (Inr (take n (snd c)), (fst c, drop n (snd c)))), caColumns = fst\<rparr>"

lemma list_serves: "serves list_api snd fst"
  by (simp add: serves_def list_api_def)

definition tally_source :: "js_val \<Rightarrow> (string list \<times> row list) export_source" where
  "tally_source v = \<lparr>esOpen = (\<lambda>_. Inr ([''id'', ''b''], [[(''id'', JNum 1), (''b'', v)]])), esApi = list_api,
     esColumns = (\<lambda>_ _. Inr tally_columns), esTableDdl = (\<lambda>_ _. Inr []), esNow = []\<rparr>"

definition tally_rows :: prepared_rows where
  "tally_rows = \<lparr>prFrag = \<lparr>fragSql = [], fragParams = []\<rparr>, prFormat = CsvFormat, prDelimiter = None, prNullToken = None,
     prFilename = [], prMasked = [''b'']\<rparr>"

definition no_io :: export_io where
  "no_io = \<lparr>ioOut = [], ioOpened = 0, ioClosed = 0\<rparr>"

lemmas tally_export = tally_source_def tally_rows_def no_io_def given_def csvOptions_def csv_line_def formatCsvRow_def csvEscape_def
  csv_text_def is_object_def csv_delimiter_def escapeField_def js_to_string.simps show_int_def show_nat_digit
  redactRows_eq redactValue_def nullish_def MASK_TOKEN_def

theorem streamRows_exact_witness:
  "streamRows (tally_source JNull) 5 (tally_rows\<lparr>prMasked := []\<rparr>) no_io =
     (Inr (1, False), \<lparr>ioOut = [''id,b'' @ CSV_ROW_TERMINATOR, ''1,'' @ CSV_ROW_TERMINATOR], ioOpened = 1, ioClosed = 1\<rparr>)"
proof -
  let ?c = "([''id'', ''b''], [[(''id'', JNum 1), (''b'', JNull)]]) :: string list \<times> row list"
  have "export_chunks (tally_rows\<lparr>prMasked := []\<rparr>) (fst ?c) (take 5 (snd ?c)) =
      Inr [''id,b'' @ CSV_ROW_TERMINATOR, ''1,'' @ CSV_ROW_TERMINATOR]"
    by (simp add: export_chunks_def header_chunk_def row_chunks_def row_chunk_def tally_export str_includes_def starts_with_def
        replace_char_def dquote_def)
  moreover have "serves (esApi (tally_source JNull)) snd fst" by (simp add: tally_source_def list_serves)
  moreover have "esOpen (tally_source JNull) (prFrag (tally_rows\<lparr>prMasked := []\<rparr>)) = Inr ?c" by (simp add: tally_source_def)
  ultimately show ?thesis
    using streamRows_exact [where rest = snd and names = fst and c = ?c and maxRows = 5 and io = no_io]
    by (simp add: tally_rows_def no_io_def json_mark_def rows_end_def)
qed

theorem export_hides_masked_witness:
  "export_stream (tally_source (JStr ''secret'')) 5 Sqlite (ExportRows tally_rows) no_io
     = export_stream (tally_source (JNum 42)) 5 Sqlite (ExportRows tally_rows) no_io"
proof -
  let ?src = "tally_source (JNum 42)"
  have "serves (esApi ?src) snd fst" by (simp add: tally_source_def list_serves)
  moreover have "differ_for snd fst ?src (esOpen (tally_source (JStr ''secret''))) 5 Sqlite (ExportRows tally_rows)"
    by (simp add: differ_for_def differ_masked_def tally_source_def tally_rows_def same_outside_def nullish_def)
  ultimately have "export_stream (?src\<lparr>esOpen := esOpen (tally_source (JStr ''secret''))\<rparr>) 5 Sqlite (ExportRows tally_rows) no_io
      = export_stream ?src 5 Sqlite (ExportRows tally_rows) no_io"
    by (rule export_hides_masked)
  then show ?thesis by (simp add: tally_source_def)
qed

lemma tally_dump:
  "dump_select Sqlite 5 (grid_ref ''s'' ''t'') tally_columns = Inr
     \<lparr>fragSql = ''SELECT * FROM \"s\".\"t\" ORDER BY \"id\" ASC LIMIT ? OFFSET ?'', fragParams = [JNum 6, JNum 0]\<rparr>"
  "insert_header Sqlite (grid_ref ''s'' ''t'') tally_columns = Inr ''INSERT INTO \"s\".\"t\" (\"id\", \"a\", \"b\") VALUES''"
  by (simp_all add: dump_select_def budget_options_def buildSelectRows_def sqliteBuildSelectRows_def where_pieces_def order_pieces_def
      select_params_def tally_columns_def Let_def render_eval grid_ref_def insert_header_def engine_qualifyTable_def sqliteQualifyTable_def
      sort_text_def)

theorem streamTableInserts_exact_witness:
  "\<exists>io. streamTableInserts (tally_source (JNum 42)) 5 Sqlite (grid_ref ''s'' ''t'') tally_columns [] no_io = (Inr (1, False), io)
     \<and> ioClosed io = 1"
proof -
  let ?c = "([''id'', ''b''], [[(''id'', JNum 1), (''b'', JNum 42)]]) :: string list \<times> row list"
  have tuples: "traverse (insert_tuple Sqlite tally_columns) (redactRows (take 5 (snd ?c)) []) = Inr [''  (1, NULL, 42)'']"
    by (simp add: insert_tuple_def tally_columns_def Let_def redactRows_eq engine_literal_def sqliteFormatLiteral_def formatLiteral_def
        show_int_def show_nat_digit)
      (simp add: show_nat.simps [of 42] show_nat_digit)
  have "serves (esApi (tally_source (JNum 42))) snd fst" by (simp add: tally_source_def list_serves)
  moreover have "esOpen (tally_source (JNum 42)) frag = Inr ?c" for frag by (simp add: tally_source_def)
  moreover have "(0::nat) < 5" by simp
  ultimately obtain batches where "streamTableInserts (tally_source (JNum 42)) 5 Sqlite (grid_ref ''s'' ''t'') tally_columns [] no_io =
      (let n = min 5 (length (snd ?c)); cut = (5 \<le> length (snd ?c))
       in (Inr (n, cut), no_io\<lparr>ioOut := ioOut no_io @ map (insert_text ''INSERT INTO \"s\".\"t\" (\"id\", \"a\", \"b\") VALUES'') batches
                  @ (if cut then [''-- truncated at '' @ show_nat n @ '' rows'' @ newline] else []),
                ioOpened := ioOpened no_io + 1, ioClosed := ioClosed no_io + 1\<rparr>))"
    using streamTableInserts_exact [where rest = snd and names = fst and c = ?c and maxRows = 5, OF _ tally_dump _ _ tuples] by blast
  then show ?thesis by (simp add: no_io_def Let_def)
qed

theorem export_prepare_masks_witness:
  "\<exists>d w'. export_prepare \<lparr>xeGrid = tally_env [], xeQuery = undefined, xeCanStream = True, xeMaxRows = 5, xeStamp = []\<rparr> ''c''
      \<lparr>xrScope = TableScope, xrFormat = SqlFormat, xrSchema = Some ''s'', xrTable = Some ''t'', xrFilter = None, xrTables = None,
       xrSql = None, xrIncludeSchema = None, xrIncludeData = None, xrSortBy = None, xrSortDesc = False, xrDelimiter = None,
       xrNullToken = None\<rparr> (Some ''u'') tally_world = (Inr (ExportDump d), w') \<and> dump_mask d (''s'', ''t'') = [''b'']"
proof -
  let ?env = "\<lparr>xeGrid = tally_env [], xeQuery = undefined, xeCanStream = True, xeMaxRows = 5, xeStamp = []\<rparr> :: tally export_env"
  let ?dto = "\<lparr>xrScope = TableScope, xrFormat = SqlFormat, xrSchema = Some ''s'', xrTable = Some ''t'', xrFilter = None, xrTables = None,
       xrSql = None, xrIncludeSchema = None, xrIncludeData = None, xrSortBy = None, xrSortDesc = False, xrDelimiter = None,
       xrNullToken = None\<rparr>"
  have cat: "static_catalogue (xeGrid ?env) (\<lambda>_ _. tally_columns)" by (simp add: static_catalogue_def)
  have prefs: "gePreferences (xeGrid ?env) ''u'' = Inr (Some [(''c'', [(''s.t'', [''b''])])])" by simp
  obtain d w' where run: "export_prepare ?env ''c'' ?dto (Some ''u'') tally_world = (Inr (ExportDump d), w')"
    and tables: "pdTables d = [(''s'', ''t'')]"
    by (simp add: export_prepare_def prepareSql_def dump_names_def dump_masks_def given_def bind_eff_run static_table [OF cat, simplified]
        static_mask [OF cat prefs, simplified] tally_columns_def Let_def)
  have "maskedColumnsFor (Some [(''c'', [(''s.t'', [''b''])])]) ''c'' ''s'' ''t'' (primary_key_of tally_columns) = [''b'']"
    by (simp add: maskedColumnsFor_def tableKey_def tally_columns_def primary_key_of_def Let_def)
  with export_prepare_masks [OF cat prefs _ run] run tables show ?thesis by auto
qed

text \<open>
  The user's masked column \<open>b\<close> can be the sort key of the export: the rows of the file then come in the order of the
  values that are redacted.
\<close>

lemma export_sorts_by_masked:
  "\<exists>r w'. export_prepare \<lparr>xeGrid = tally_env [], xeQuery = undefined, xeCanStream = True, xeMaxRows = 5, xeStamp = []\<rparr> ''c''
      \<lparr>xrScope = TableScope, xrFormat = CsvFormat, xrSchema = Some ''s'', xrTable = Some ''t'', xrFilter = None, xrTables = None,
        xrSql = None, xrIncludeSchema = None, xrIncludeData = None, xrSortBy = Some ''b'', xrSortDesc = False, xrDelimiter = None,
        xrNullToken = None\<rparr> (Some ''u'') tally_world = (Inr (ExportRows r), w') \<and>
    prMasked r = [''b''] \<and> fragSql (prFrag r) = ''SELECT * FROM \"s\".\"t\" ORDER BY \"b\" ASC LIMIT ? OFFSET ?''"
  by (simp add: export_prepare_def prepare_table_def given_def eff_simps export_table_columns_def tally_key export_filter_def
      export_order_column_def export_dir_def budget_options_def buildSelectRows_def sqliteBuildSelectRows_def where_pieces_def
      order_pieces_def sort_text_def select_params_def render_eval grid_ref_def export_resolveMasked_def maskedColumnsFor_def tableKey_def
      tally_columns_def primary_key_of_def Let_def; auto)

end
