(* ===== verification/Import.thy ===== *)
theory Import
  imports GridService
begin

text \<open>
  \<open>import/import.service.ts\<close>: inserting batches of rows a client has read from a file. The environment is that of
  the grid service. A row of the request is any JSON value, as the wire sends it.
\<close>

record import_preview_request =
  iprSchema :: string
  iprTable :: string
  iprColumns :: "string list"
  iprSampleRows :: "js_val list"

record import_preview =
  ipvSql :: string
  ipvIssues :: "string list"

record import_batch_request =
  ibrSchema :: string
  ibrTable :: string
  ibrColumns :: "string list"
  ibrRows :: "js_val list"

definition MAX_IMPORT_BATCH_ROWS :: nat where
  "MAX_IMPORT_BATCH_ROWS = 1000"

fun column_issues :: "string list \<Rightarrow> string list \<Rightarrow> string list \<Rightarrow> string list" where
  "column_issues known seen [] = []"
| "column_issues known seen (column # columns) =
     (if column \<in> set seen then [''Duplicate target column \"'' @ column @ ''\"''] else [])
     @ (if column \<notin> set known then [''Unknown column \"'' @ column @ ''\"''] else [])
     @ column_issues known (column # seen) columns"

definition validateColumns :: "string list \<Rightarrow> string list \<Rightarrow> string list" where
  "validateColumns columns known = column_issues known [] columns"

definition tableColumnNames :: "'d grid_env \<Rightarrow> string \<Rightarrow> string \<Rightarrow> ('d world, string list) eff" where
  "tableColumnNames env schema table =
     bind_eff (geColumns env schema table) (\<lambda>columns.
       if columns = [] then throw (NotFound (''Table '' @ table_text schema table @ '' not found''))
       else ret (map colName columns))"

definition import_auditBase :: "write_context \<Rightarrow> string \<Rightarrow> string \<Rightarrow> string \<Rightarrow> string \<Rightarrow> audit_base" where
  "import_auditBase ctx connectionId schema table sql =
     \<lparr>abUser = wcUser ctx, abConnection = connectionId, abAction = ''import'', abSql = sql,
      abSchema = Some schema, abTable = Some table, abCorrelation = wcCorrelation ctx\<rparr>"

definition import_preview :: "'d grid_env \<Rightarrow> import_preview_request \<Rightarrow> ('d world, import_preview) eff" where
  "import_preview env req =
     bind_eff (assertWritable env) (\<lambda>_.
     bind_eff (lift_res (geDriver env)) (\<lambda>e.
     bind_eff (tableColumnNames env (iprSchema req) (iprTable req)) (\<lambda>known.
     let issues = validateColumns (iprColumns req) known in
     if issues \<noteq> [] then ret \<lparr>ipvSql = [], ipvIssues = issues\<rparr>
     else bind_eff (lift_res (buildInsertRow e (grid_ref (iprSchema req) (iprTable req))
            (map (\<lambda>column. (column, JNull)) (iprColumns req)))) (\<lambda>frag.
          ret \<lparr>ipvSql = fragSql frag, ipvIssues = []\<rparr>))))"

text \<open>The values of a row that has one for each column.\<close>

definition row_values :: "string list \<Rightarrow> nat \<Rightarrow> js_val \<Rightarrow> js_val list res" where
  "row_values columns i r =
     (let found = (case r of JArr vs \<Rightarrow> length vs | _ \<Rightarrow> 0)
      in case r of
           JArr vs \<Rightarrow> if length vs = length columns then Inr vs
             else Inl (BadRequest (''Row '' @ show_nat (i + 1) @ '' has '' @ show_nat found @ '' value(s), expected ''
               @ show_nat (length columns)))
         | _ \<Rightarrow> Inl (BadRequest (''Row '' @ show_nat (i + 1) @ '' has '' @ show_nat found @ '' value(s), expected ''
               @ show_nat (length columns))))"

definition check_rows :: "string list \<Rightarrow> js_val list \<Rightarrow> js_val list list res" where
  "check_rows columns rs = traverse (\<lambda>(i, r). row_values columns i r) (enumerate 0 rs)"

definition import_step :: "'d query_fn \<Rightarrow> engine \<Rightarrow> table_ref \<Rightarrow> string list \<Rightarrow> js_val list \<Rightarrow> ('d world, unit) eff" where
  "import_step q e ref columns vs =
     bind_eff (lift_res (buildInsertRow e ref (zip columns vs))) (\<lambda>frag. bind_eff (q frag) (\<lambda>_. ret ()))"

text \<open>What is checked before any insert.\<close>

definition import_checks :: "'d grid_env \<Rightarrow> import_batch_request \<Rightarrow> ('d world, engine \<times> js_val list list) eff" where
  "import_checks env req =
     bind_eff (assertWritable env) (\<lambda>_.
     bind_eff (lift_res (require (ibrRows req \<noteq> []) (BadRequest ''Import batch has no rows''))) (\<lambda>_.
     bind_eff (lift_res (require (length (ibrRows req) \<le> MAX_IMPORT_BATCH_ROWS)
       (BadRequest (''Import batch exceeds the '' @ show_nat MAX_IMPORT_BATCH_ROWS @ ''-row limit'')))) (\<lambda>_.
     bind_eff (lift_res (geDriver env)) (\<lambda>e.
     bind_eff (tableColumnNames env (ibrSchema req) (ibrTable req)) (\<lambda>known.
     let issues = validateColumns (ibrColumns req) known in
     bind_eff (lift_res (require (issues = []) (BadRequest (join ''; '' issues)))) (\<lambda>_.
     bind_eff (lift_res (check_rows (ibrColumns req) (ibrRows req))) (\<lambda>values.
     ret (e, values))))))))"

definition import_batch_body :: "'d grid_env \<Rightarrow> import_batch_request \<Rightarrow> ('d world, nat) eff" where
  "import_batch_body env req =
     bind_eff (import_checks env req) (\<lambda>(e, values).
     bind_eff (engine_withTransaction e (geExec env) (\<lambda>q.
       each_eff (import_step q e (grid_ref (ibrSchema req) (ibrTable req)) (ibrColumns req)) values)) (\<lambda>_.
     ret (length (ibrRows req))))"

definition import_audit_sql :: "import_batch_request \<Rightarrow> string" where
  "import_audit_sql req =
     ''INSERT INTO '' @ ibrSchema req @ ''.'' @ ibrTable req @ '' ('' @ join '', '' (ibrColumns req) @ '')''"

definition import_batch :: "'d grid_env \<Rightarrow> string \<Rightarrow> import_batch_request \<Rightarrow> write_context \<Rightarrow> ('d world, nat) eff" where
  "import_batch env connectionId req ctx =
     withAudit (import_auditBase ctx connectionId (ibrSchema req) (ibrTable req) (import_audit_sql req))
       (import_batch_body env req)"

subsection \<open>The checks\<close>

lemma column_issues_none:
  "column_issues known seen columns = [] \<longleftrightarrow>
     distinct columns \<and> set columns \<inter> set seen = {} \<and> set columns \<subseteq> set known"
  by (induction columns arbitrary: seen) auto

lemma validateColumns_ok: "validateColumns columns known = [] \<longleftrightarrow> distinct columns \<and> set columns \<subseteq> set known"
  by (simp add: validateColumns_def column_issues_none)

lemma row_values_Inr: "row_values columns i r = Inr vs \<longleftrightarrow> r = JArr vs \<and> length vs = length columns"
  by (auto simp: row_values_def split: js_val.split)

lemma check_rows_Inr:
  "check_rows columns rs = Inr vss \<longleftrightarrow> rs = map JArr vss \<and> list_all (\<lambda>vs. length vs = length columns) vss"
proof -
  have "traverse (\<lambda>(i, r). row_values columns i r) (enumerate n rs) = Inr vss \<longleftrightarrow>
      rs = map JArr vss \<and> list_all (\<lambda>vs. length vs = length columns) vss" for n
  proof (induction rs arbitrary: n vss)
    case (Cons r rs)
    then show ?case by (cases vss) (auto simp: res_simps row_values_Inr)
  qed auto
  then show ?thesis by (simp add: check_rows_def)
qed

subsection \<open>A batch is inserted whole\<close>

definition insert_statement :: "engine \<Rightarrow> sql_fragment \<Rightarrow> bool" where
  "insert_statement e f \<longleftrightarrow> (\<exists>ref entries. buildInsertRow e ref entries = Inr f)"

lemma import_only_dml: "only_dml (insert_statement e) (\<lambda>q :: 'd query_fn. each_eff (import_step q e ref columns) vss)"
  unfolding only_dml_def
proof (intro allI impI)
  fix q :: "'d query_fn" and R :: "'d world \<Rightarrow> 'd world \<Rightarrow> bool"
  assume R: "\<forall>w. R w w" "\<forall>w w' w''. R w w' \<longrightarrow> R w' w'' \<longrightarrow> R w w''"
    "\<forall>f. insert_statement e f \<longrightarrow> keeps R (q f)"
  then have step: "step_relation R" by unfold_locales blast+
  have "buildInsertRow e ref entries = Inr f \<Longrightarrow> keeps R (q f)" for entries f
    using R(3) unfolding insert_statement_def by blast
  then show "keeps R (each_eff (import_step q e ref columns) vss)"
    unfolding import_step_def
    by (auto intro!: R(1) [rule_format] step_relation.keeps_each [OF step] step_relation.keeps_bind [OF step] keeps_lifted
        step_relation.keeps_ret [OF step])
qed

lemma tableColumnNames_resolve:
  "tableColumnNames env schema table = bind_eff (resolveTable env schema table) (\<lambda>columns. ret (map colName columns))"
  by (auto simp: tableColumnNames_def resolveTable_def bind_eff_def fun_eq_iff split: prod.splits sum.splits)

definition valid_batch :: "'d grid_env \<Rightarrow> import_batch_request \<Rightarrow> engine \<Rightarrow> column_metadata list \<Rightarrow> js_val list list \<Rightarrow> bool" where
  "valid_batch env req e columns vss \<longleftrightarrow>
     geDriver env = Inr e \<and> geReadOnly env = Inr False \<and> columns \<noteq> []
     \<and> ibrRows req = map JArr vss \<and> vss \<noteq> [] \<and> length vss \<le> MAX_IMPORT_BATCH_ROWS
     \<and> list_all (\<lambda>vs. length vs = length (ibrColumns req)) vss
     \<and> distinct (ibrColumns req) \<and> set (ibrColumns req) \<subseteq> set (map colName columns)"

lemma import_checks_run:
  assumes "import_checks env req w = (r, v)" "geColumns env (ibrSchema req) (ibrTable req) w = (cr, w1)"
  shows "(v = w \<or> v = w1) \<and> (\<forall>e vss. r = Inr (e, vss) \<longrightarrow> v = w1 \<and> (\<exists>columns. cr = Inr columns \<and> valid_batch env req e columns vss))"
  using assms unfolding import_checks_def tableColumnNames_def assertWritable_def Let_def
  by (auto elim!: bind_eff_cases simp: res_simps check_rows_Inr validateColumns_ok valid_batch_def split: if_splits)

lemma import_batch_run:
  assumes "import_batch env connectionId req ctx w = (r, w')" "geColumns env (ibrSchema req) (ibrTable req) w = (cr, w1)"
  obtains (refused) err v where "r = Inl err" "v = w \<or> v = w1" "wDb w' = wDb v" "wWire w' = wWire v"
  | (run) e columns vss r0 w0 where "cr = Inr columns" "valid_batch env req e columns vss"
      "engine_withTransaction e (geExec env) (\<lambda>q.
         each_eff (import_step q e (grid_ref (ibrSchema req) (ibrTable req)) (ibrColumns req)) vss) w1 = (r0, w0)"
      "r = res_map (\<lambda>_. length vss) r0" "wDb w' = wDb w0" "wWire w' = wWire w0"
proof -
  obtain w2 where body: "import_batch_body env req w = (r, w2)" and same: "wDb w' = wDb w2" "wWire w' = wWire w2"
    using assms(1) by (auto simp: import_batch_def withAudit_run audit_record_def split: prod.splits sum.splits)
  obtain c v where c: "import_checks env req w = (c, v)" by fastforce
  note checked = import_checks_run [OF c assms(2)]
  show thesis
  proof (cases c)
    case (Inl err)
    then show thesis using refused [of err v] checked body c same by (simp add: import_batch_body_def eff_simps)
  next
    case (Inr ev)
    obtain e vss where ev: "ev = (e, vss)" by fastforce
    obtain columns where cols: "v = w1" "cr = Inr columns" "valid_batch env req e columns vss" using checked Inr ev by blast
    obtain r0 w0 where tx: "engine_withTransaction e (geExec env) (\<lambda>q.
         each_eff (import_step q e (grid_ref (ibrSchema req) (ibrTable req)) (ibrColumns req)) vss) w1 = (r0, w0)" by fastforce
    have "length (ibrRows req) = length vss" using cols(3) by (simp add: valid_batch_def)
    with tx have "w2 = w0" "r = res_map (\<lambda>_. length vss) r0"
      using body by (auto simp: import_batch_body_def eff_simps c Inr ev cols(1) split: sum.splits)
    then show thesis using run [OF cols(2,3) tx] same by simp
  qed
qed

text \<open>
  C37. An import batch is inserted whole or not at all: when it ends in an exception, whether a check refuses it, a row
  fails or the \<open>COMMIT\<close> does, what the other clients of the database see is what they saw before.
\<close>

theorem import_all_or_nothing:
  assumes "\<And>e. geDriver env = Inr e \<Longrightarrow> holds_back e (geExec env) committed inTx (insert_statement e)"
    "keeps (\<lambda>w w'. committed (wDb w') = committed (wDb w)) (geColumns env (ibrSchema req) (ibrTable req))"
    "import_batch env connectionId req ctx w = (Inl err, w')"
  shows "committed (wDb w') = committed (wDb w)"
proof -
  obtain cr w1 where cat: "geColumns env (ibrSchema req) (ibrTable req) w = (cr, w1)" by fastforce
  then have w1: "committed (wDb w1) = committed (wDb w)" using assms(2) unfolding keeps_def by (metis snd_conv)
  from assms(3) cat show ?thesis
  proof (cases rule: import_batch_run)
    case (refused err v)
    then show ?thesis using w1 by auto
  next
    case (run e columns vss r0 w0)
    then have "geDriver env = Inr e" "\<exists>err. r0 = Inl err" by (cases r0; simp add: valid_batch_def)+
    then show ?thesis
      using transaction_atomic [OF assms(1) import_only_dml] run(3,5) w1 by metis
  qed
qed

lemma import_loop_sends:
  assumes "each_eff (import_step (send exec ch) e ref columns) vss w = (Inr us, w')"
  shows "\<exists>fs. list_all2 (\<lambda>vs f. buildInsertRow e ref (zip columns vs) = Inr f) vss fs
     \<and> wWire w' = wWire w @ map (Pair ch) fs"
  using assms
proof (induction vss arbitrary: w us)
  case (Cons vs vss)
  then obtain w1 us' where one: "import_step (send exec ch) e ref columns vs w = (Inr (), w1)"
    and rest: "each_eff (import_step (send exec ch) e ref columns) vss w1 = (Inr us', w')"
    by (auto elim!: bind_eff_cases)
  obtain f where f: "buildInsertRow e ref (zip columns vs) = Inr f" "wWire w1 = wWire w @ [(ch, f)]"
    using one by (auto simp: import_step_def elim!: bind_eff_cases) (metis snd_conv wire_send)
  obtain fs where "list_all2 (\<lambda>vs f. buildInsertRow e ref (zip columns vs) = Inr f) vss fs"
    "wWire w' = wWire w1 @ map (Pair ch) fs"
    using Cons.IH [OF rest] by blast
  then show ?case using f by (intro exI [of _ "f # fs"]) simp
qed simp

text \<open>
  A batch that succeeds had at least one and at most a thousand rows with one value for each column, the columns
  distinct and of the table, and sent one transaction: \<open>BEGIN\<close>, for each row in order the insert of exactly its values
  under exactly those columns, \<open>COMMIT\<close>. A batch that is refused beforehand sends nothing.
\<close>

theorem import_batch_exact:
  assumes "geColumns env (ibrSchema req) (ibrTable req) w = (cr, w1)" "import_batch env connectionId req ctx w = (r, w')"
  shows "case r of
      Inr n \<Rightarrow> \<exists>e columns vss fs. cr = Inr columns \<and> valid_batch env req e columns vss \<and> n = length vss
        \<and> list_all2 (\<lambda>vs f. buildInsertRow e (grid_ref (ibrSchema req) (ibrTable req)) (zip (ibrColumns req) vs) = Inr f) vss fs
        \<and> wWire w' = wWire w1 @ map (Pair (client_channel e)) (begin_frag e # fs @ [commit_frag])
    | Inl err \<Rightarrow> (\<exists>e columns vss. cr = Inr columns \<and> valid_batch env req e columns vss)
        \<or> (wWire w' = wWire w \<or> wWire w' = wWire w1)"
  using assms(2,1)
proof (cases rule: import_batch_run)
  case (refused err v)
  then show ?thesis by auto
next
  case (run e columns vss r0 w0)
  show ?thesis
  proof (cases r0)
    case (Inl err)
    then show ?thesis using run by auto
  next
    case (Inr us)
    let ?ch = "client_channel e" and ?ref = "grid_ref (ibrSchema req) (ibrTable req)"
    obtain x v1 v2 z where tx: "send (geExec env) ?ch (begin_frag e) w1 = (Inr x, v1)"
      "each_eff (import_step (send (geExec env) ?ch) e ?ref (ibrColumns req)) vss v1 = (Inr us, v2)"
      "send (geExec env) ?ch commit_frag v2 = (Inr z, w0)"
      using run(3) Inr unfolding engine_withTransaction_eq by (cases rule: transaction_run) auto
    obtain fs where fs: "list_all2 (\<lambda>vs f. buildInsertRow e ?ref (zip (ibrColumns req) vs) = Inr f) vss fs"
      "wWire v2 = wWire v1 @ map (Pair ?ch) fs"
      using import_loop_sends [OF tx(2)] by blast
    have "wWire v1 = wWire w1 @ [(?ch, begin_frag e)]" "wWire w0 = wWire v2 @ [(?ch, commit_frag)]"
      using tx(1,3) by (metis snd_conv wire_send)+
    with fs run Inr show ?thesis by auto
  qed
qed

subsection \<open>The preview\<close>

lemma insert_sql_by_columns:
  assumes "map fst entries = map fst entries'"
  shows "res_map fragSql (buildInsertRow e ref entries) = res_map fragSql (buildInsertRow e ref entries')"
proof -
  have names: "map (\<lambda>(c, v). [Ident c]) entries = map (\<lambda>c. [Ident c]) (map fst entries)" for entries :: "(string \<times> js_val) list"
    by (simp add: case_prod_beta)
  have len: "length entries = length entries'" "entries = [] \<longleftrightarrow> entries' = []"
    using assms by (metis length_map, metis map_is_Nil_conv)
  have frag: "res_map fragSql (fragment e' ps vs) = render e' ps" for e' ps vs
    by (cases "render e' ps") (simp_all add: fragment_def)
  show ?thesis
    by (cases e) (simp_all add: buildInsertRow_def pgBuildInsertRow_def mysqlBuildInsertRow_def sqliteBuildInsertRow_def names assms len frag map_replicate_const)
qed

text \<open>
  The preview is honest: it lists no issues exactly when the columns are distinct and of the table, and the
  statement it shows is the statement a batch with these columns sends for every row.
\<close>

theorem import_preview_honest:
  assumes "geColumns env (iprSchema req) (iprTable req) w = (Inr columns, w1)" "import_preview env req w = (Inr shown, w')"
  shows "(ipvIssues shown = [] \<longleftrightarrow> distinct (iprColumns req) \<and> set (iprColumns req) \<subseteq> set (map colName columns))
     \<and> wWire w' = wWire w1
     \<and> (\<forall>e vs f. geDriver env = Inr e \<longrightarrow> ipvIssues shown = [] \<longrightarrow> length vs = length (iprColumns req) \<longrightarrow>
          buildInsertRow e (grid_ref (iprSchema req) (iprTable req)) (zip (iprColumns req) vs) = Inr f \<longrightarrow> fragSql f = ipvSql shown)"
proof -
  let ?nulls = "map (\<lambda>column. (column, JNull)) (iprColumns req)"
  obtain e where e: "geDriver env = Inr e" and w': "w' = w1"
    and shown: "if validateColumns (iprColumns req) (map colName columns) \<noteq> []
        then ipvIssues shown = validateColumns (iprColumns req) (map colName columns)
        else ipvIssues shown = [] \<and> res_map fragSql (buildInsertRow e (grid_ref (iprSchema req) (iprTable req)) ?nulls) = Inr (ipvSql shown)"
    using assms unfolding import_preview_def tableColumnNames_def assertWritable_def Let_def
    by (auto elim!: bind_eff_cases split: if_splits)
  have "fragSql f = ipvSql shown"
    if "ipvIssues shown = []" "length vs = length (iprColumns req)"
      "buildInsertRow e (grid_ref (iprSchema req) (iprTable req)) (zip (iprColumns req) vs) = Inr f" for vs f
  proof -
    have "map fst (zip (iprColumns req) vs) = map fst ?nulls" using that(2) by (simp add: comp_def)
    from insert_sql_by_columns [OF this, of e "grid_ref (iprSchema req) (iprTable req)"] show ?thesis
      using shown that(1,3) by (auto split: if_splits)
  qed
  then show ?thesis using shown e w' by (auto simp: validateColumns_ok split: if_splits)
qed

subsection \<open>Witnesses\<close>

definition tally_import :: import_batch_request where
  "tally_import = \<lparr>ibrSchema = ''s'', ibrTable = ''t'', ibrColumns = [''a''], ibrRows = [JArr [JNum 1], JArr [JNum 2]]\<rparr>"

lemma tally_insert:
  "buildInsertRow Sqlite (grid_ref ''s'' ''t'') [(''a'', v)]
   = Inr \<lparr>fragSql = ''INSERT INTO \"s\".\"t\" (\"a\") VALUES (?) RETURNING *'', fragParams = [v]\<rparr>"
  by (simp add: buildInsertRow_def sqliteBuildInsertRow_def render_eval grid_ref_def)

lemma insert_not_bracket: "insert_statement Sqlite f \<Longrightarrow> f \<noteq> begin_frag Sqlite \<and> f \<noteq> commit_frag \<and> f \<noteq> rollback_frag"
  by (auto simp: insert_statement_def buildInsertRow_def sqliteBuildInsertRow_def fragment_Inr render_Cons_Inr piece_text_def
      begin_frag_def commit_frag_def rollback_frag_def plain_frag_def split: if_splits)

lemma tally_holds_inserts:
  "holds_back Sqlite (tally_exec answer) fst (\<lambda>d. snd d \<noteq> None) (insert_statement Sqlite)"
  using insert_not_bracket
  by (auto simp: holds_back_def tally_exec_def Let_def begin_frag_def commit_frag_def rollback_frag_def plain_frag_def
      split: option.splits if_splits)

lemma tally_import_run:
  "\<exists>w'. import_batch (tally_env []) ''c'' tally_import tally_user tally_world = (Inr 2, w')"
  by (simp add: import_batch_def withAudit_run import_batch_body_def import_checks_def tableColumnNames_def tally_import_def
      MAX_IMPORT_BATCH_ROWS_def validateColumns_def check_rows_def row_values_def tally_eval tally_insert)
    (simp add: tally_run import_step_def tally_insert Let_def)

theorem import_batch_exact_witness:
  "\<exists>w' fs. import_batch (tally_env []) ''c'' tally_import tally_user tally_world = (Inr 2, w')
     \<and> wWire w' = map (Pair Pooled) (begin_frag Sqlite # fs @ [commit_frag]) \<and> length fs = 2"
proof -
  obtain w' where run: "import_batch (tally_env []) ''c'' tally_import tally_user tally_world = (Inr 2, w')"
    using tally_import_run by blast
  have "geColumns (tally_env []) (ibrSchema tally_import) (ibrTable tally_import) tally_world = (Inr tally_columns, tally_world)" by simp
  from import_batch_exact [OF this run] show ?thesis
    using run by (auto simp: valid_batch_def tally_world_def client_channel_def dest!: list_all2_lengthD)
qed

theorem import_all_or_nothing_witness:
  "fst (wDb (snd (import_batch (tally_env []) ''c'' (tally_import\<lparr>ibrRows := [JArr []]\<rparr>) tally_user tally_world))) = 0"
proof -
  let ?req = "tally_import\<lparr>ibrRows := [JArr []]\<rparr>"
  have "isl (fst (import_batch (tally_env []) ''c'' ?req tally_user tally_world))"
    by (simp add: import_batch_def withAudit_run import_batch_body_def import_checks_def tableColumnNames_def tally_import_def
        MAX_IMPORT_BATCH_ROWS_def validateColumns_def check_rows_def row_values_def tally_eval)
  then obtain err w' where run: "import_batch (tally_env []) ''c'' ?req tally_user tally_world = (Inl err, w')"
    by (metis isl_def prod.collapse)
  have "fst (wDb w') = fst (wDb tally_world)"
    by (rule import_all_or_nothing [OF _ _ run, of fst "\<lambda>d. snd d \<noteq> None"]) (use tally_holds_inserts in \<open>auto simp: keeps_def\<close>)
  with run show ?thesis by (simp add: tally_world_def)
qed

theorem import_preview_honest_witness:
  "\<exists>shown. fst (import_preview (tally_env []) \<lparr>iprSchema = ''s'', iprTable = ''t'', iprColumns = [''a''], iprSampleRows = []\<rparr> tally_world)
     = Inr shown \<and> ipvIssues shown = []"
proof -
  let ?req = "\<lparr>iprSchema = ''s'', iprTable = ''t'', iprColumns = [''a''], iprSampleRows = []\<rparr>"
  obtain shown w' where run: "import_preview (tally_env []) ?req tally_world = (Inr shown, w')"
    by (auto simp: import_preview_def tableColumnNames_def validateColumns_def tally_eval tally_insert)
  moreover have "geColumns (tally_env []) (iprSchema ?req) (iprTable ?req) tally_world = (Inr tally_columns, tally_world)" by simp
  note import_preview_honest [OF this run]
  ultimately show ?thesis by (auto simp: tally_columns_def Let_def)
qed

end
