(* ===== verification/PoolManager.thy ===== *)
theory PoolManager
  imports Effects JsMap
begin

text \<open>
  \<open>database/pool-manager.service.ts\<close>. The service's state is five JavaScript maps keyed by connection
  id. Its methods are asynchronous: between two \<open>await\<close>s a method runs to the next one undisturbed, so
  each such segment is one operation on the state, and the step relation \<open>pm_step\<close> interleaves the
  segments of any number of calls with the timer's sweep in any order. A pool is named by the number of
  the promise that makes it. \<open>pmHandles\<close> holds the wrapped cursors given out with their \<open>released\<close> flag,
  \<open>pmPending\<close> the evictions that wait for their pool to close, \<open>pmOpen\<close> the SSH tunnels that are open on
  the network; none of the three is read by the code of the maps.
\<close>

record pool_state =
  pmPools :: "(string \<times> nat) list"
  pmLastUsed :: "(string \<times> int) list"
  pmEngine :: "(string \<times> string) list"
  pmTunnels :: "(string \<times> nat) list"
  pmCursors :: "(string \<times> nat) list"
  pmHandles :: "(nat \<times> (string \<times> bool)) list"
  pmPending :: "(string \<times> nat) list"
  pmOpen :: "nat list"
  pmNext :: nat

record pool_config =
  poolIdleMs :: int
  poolMax :: nat

definition pm_init :: pool_state where
  "pm_init = \<lparr>pmPools = [], pmLastUsed = [], pmEngine = [], pmTunnels = [], pmCursors = [],
     pmHandles = [], pmPending = [], pmOpen = [], pmNext = 0\<rparr>"

subsection \<open>Resolving a pool\<close>

definition touch :: "string \<Rightarrow> int \<Rightarrow> pool_state \<Rightarrow> pool_state" where
  "touch connectionId now st = st\<lparr>pmLastUsed := jm_set connectionId now (pmLastUsed st)\<rparr>"

text \<open>\<open>resolve\<close> after its configuration is read: the cached promise, or a new one.\<close>

definition resolve :: "string \<Rightarrow> string \<Rightarrow> int \<Rightarrow> pool_state \<Rightarrow> nat \<times> pool_state" where
  "resolve connectionId engine now st =
     (let st1 = st\<lparr>pmEngine := jm_set connectionId engine (pmEngine st)\<rparr>
      in case map_of (pmPools st1) connectionId of
           Some cached \<Rightarrow> (cached, touch connectionId now st1)
         | None \<Rightarrow>
             (pmNext st1,
              touch connectionId now
                (st1\<lparr>pmPools := jm_set connectionId (pmNext st1) (pmPools st1), pmNext := Suc (pmNext st1)\<rparr>)))"

text \<open>\<open>createPoolMaybeTunneled\<close>: the tunnel came up; the driver failed behind it; the promise failed.\<close>

definition tunnel_up :: "string \<Rightarrow> pool_state \<Rightarrow> pool_state" where
  "tunnel_up connectionId st =
     st\<lparr>pmTunnels := jm_set connectionId (pmNext st) (pmTunnels st), pmOpen := pmNext st # pmOpen st,
        pmNext := Suc (pmNext st)\<rparr>"

definition tunnel_abort :: "string \<Rightarrow> nat \<Rightarrow> pool_state \<Rightarrow> pool_state" where
  "tunnel_abort connectionId handle st =
     st\<lparr>pmOpen := removeAll handle (pmOpen st), pmTunnels := jm_del connectionId (pmTunnels st)\<rparr>"

definition create_failed :: "string \<Rightarrow> pool_state \<Rightarrow> pool_state" where
  "create_failed connectionId st =
     st\<lparr>pmPools := jm_del connectionId (pmPools st), pmLastUsed := jm_del connectionId (pmLastUsed st),
        pmEngine := jm_del connectionId (pmEngine st)\<rparr>"

subsection \<open>Evicting a pool\<close>

definition closeTunnel :: "string \<Rightarrow> pool_state \<Rightarrow> pool_state" where
  "closeTunnel connectionId st =
     (case map_of (pmTunnels st) connectionId of
        None \<Rightarrow> st
      | Some tunnel \<Rightarrow>
          st\<lparr>pmTunnels := jm_del connectionId (pmTunnels st), pmOpen := removeAll tunnel (pmOpen st)\<rparr>)"

text \<open>\<open>evictPool\<close> up to the closing of the pool, and what it does after it.\<close>

definition evictPool :: "string \<Rightarrow> pool_state \<Rightarrow> pool_state" where
  "evictPool connectionId st =
     (case map_of (pmPools st) connectionId of
        None \<Rightarrow> closeTunnel connectionId st
      | Some cached \<Rightarrow>
          st\<lparr>pmPools := jm_del connectionId (pmPools st), pmLastUsed := jm_del connectionId (pmLastUsed st),
             pmEngine := jm_del connectionId (pmEngine st), pmPending := (connectionId, cached) # pmPending st\<rparr>)"

definition evict_finish :: "string \<Rightarrow> nat \<Rightarrow> pool_state \<Rightarrow> pool_state" where
  "evict_finish connectionId cached st =
     closeTunnel connectionId (st\<lparr>pmPending := remove1 (connectionId, cached) (pmPending st)\<rparr>)"

subsection \<open>Cursors\<close>

definition cursor_count :: "pool_state \<Rightarrow> string \<Rightarrow> nat" where
  "cursor_count st connectionId = (case map_of (pmCursors st) connectionId of None \<Rightarrow> 0 | Some n \<Rightarrow> n)"

definition hasActiveCursors :: "pool_state \<Rightarrow> string \<Rightarrow> bool" where
  "hasActiveCursors st connectionId \<longleftrightarrow> cursor_count st connectionId > 0"

text \<open>\<open>openCursor\<close> once the driver's cursor is open.\<close>

definition cursor_opened :: "string \<Rightarrow> pool_state \<Rightarrow> pool_state" where
  "cursor_opened connectionId st =
     st\<lparr>pmCursors := jm_set connectionId (cursor_count st connectionId + 1) (pmCursors st),
        pmHandles := (pmNext st, (connectionId, False)) # pmHandles st, pmNext := Suc (pmNext st)\<rparr>"

definition cursor_fetch :: "nat \<Rightarrow> int \<Rightarrow> pool_state \<Rightarrow> pool_state" where
  "cursor_fetch h now st =
     (case map_of (pmHandles st) h of None \<Rightarrow> st | Some (connectionId, _) \<Rightarrow> touch connectionId now st)"

definition releaseAccounting :: "string \<Rightarrow> pool_state \<Rightarrow> pool_state" where
  "releaseAccounting connectionId st =
     (let remaining = (case map_of (pmCursors st) connectionId of None \<Rightarrow> 1 | Some n \<Rightarrow> int n) - 1
      in if remaining \<le> 0 then st\<lparr>pmCursors := jm_del connectionId (pmCursors st)\<rparr>
         else st\<lparr>pmCursors := jm_set connectionId (nat remaining) (pmCursors st)\<rparr>)"

text \<open>The wrapper's \<open>close\<close>: the accounting runs once, whatever the driver's \<open>close\<close> does.\<close>

definition cursor_close :: "nat \<Rightarrow> pool_state \<Rightarrow> pool_state" where
  "cursor_close h st =
     (case map_of (pmHandles st) h of
        None \<Rightarrow> st
      | Some (connectionId, released) \<Rightarrow>
          if released then st
          else releaseAccounting connectionId (st\<lparr>pmHandles := jm_set h (connectionId, True) (pmHandles st)\<rparr>))"

subsection \<open>The sweep\<close>

definition by_age :: "(string \<times> int) list \<Rightarrow> (string \<times> int) list" where
  "by_age entries = sort_key snd entries"

definition sweep_idle :: "pool_config \<Rightarrow> int \<Rightarrow> pool_state \<Rightarrow> pool_state" where
  "sweep_idle cfg now st =
     fold (\<lambda>(connectionId, lastUsed) s.
             if now - lastUsed > poolIdleMs cfg \<and> \<not> hasActiveCursors s connectionId
             then evictPool connectionId s else s)
       (by_age (pmLastUsed st)) st"

definition evictable :: "pool_state \<Rightarrow> string list" where
  "evictable st = filter (\<lambda>connectionId. \<not> hasActiveCursors st connectionId) (jm_keys (pmPools st))"

definition lru_victims :: "pool_config \<Rightarrow> pool_state \<Rightarrow> (string \<times> int) list" where
  "lru_victims cfg st =
     take (length (evictable st) - poolMax cfg)
       (by_age (filter (\<lambda>e. \<not> hasActiveCursors st (fst e)) (pmLastUsed st)))"

definition sweep_lru :: "pool_config \<Rightarrow> pool_state \<Rightarrow> pool_state" where
  "sweep_lru cfg st =
     (if length (evictable st) > poolMax cfg
      then fold (\<lambda>(connectionId, _). evictPool connectionId) (lru_victims cfg st) st
      else st)"

definition sweep :: "pool_config \<Rightarrow> int \<Rightarrow> pool_state \<Rightarrow> pool_state" where
  "sweep cfg now st = sweep_lru cfg (sweep_idle cfg now st)"

subsection \<open>Every interleaving\<close>

inductive pm_step :: "pool_config \<Rightarrow> pool_state \<Rightarrow> pool_state \<Rightarrow> bool" for cfg where
  step_resolve: "pm_step cfg st (snd (resolve connectionId engine now st))"
| step_touch: "pm_step cfg st (touch connectionId now st)"
| step_engine: "pm_step cfg st (st\<lparr>pmEngine := jm_set connectionId engine (pmEngine st)\<rparr>)"
| step_tunnel_up: "pm_step cfg st (tunnel_up connectionId st)"
| step_tunnel_abort: "pm_step cfg st (tunnel_abort connectionId handle st)"
| step_create_failed: "pm_step cfg st (create_failed connectionId st)"
| step_evict: "pm_step cfg st (evictPool connectionId st)"
| step_evict_finish: "(connectionId, cached) \<in> set (pmPending st) \<Longrightarrow> pm_step cfg st (evict_finish connectionId cached st)"
| step_cursor_opened: "pm_step cfg st (cursor_opened connectionId st)"
| step_cursor_fetch: "pm_step cfg st (cursor_fetch h now st)"
| step_cursor_close: "pm_step cfg st (cursor_close h st)"
| step_sweep: "pm_step cfg st (sweep cfg now st)"

inductive pm_reachable :: "pool_config \<Rightarrow> pool_state \<Rightarrow> bool" for cfg where
  reach_init: "pm_reachable cfg pm_init"
| reach_step: "pm_reachable cfg st \<Longrightarrow> pm_step cfg st st' \<Longrightarrow> pm_reachable cfg st'"

subsection \<open>The invariant\<close>

definition live_handle :: "string \<Rightarrow> nat \<times> (string \<times> bool) \<Rightarrow> bool" where
  "live_handle connectionId e \<longleftrightarrow> snd e = (connectionId, False)"

definition live :: "pool_state \<Rightarrow> string \<Rightarrow> nat" where
  "live st connectionId = length (filter (live_handle connectionId) (pmHandles st))"

definition maps_ok :: "pool_state \<Rightarrow> bool" where
  "maps_ok st \<longleftrightarrow> jm_ok (pmPools st) \<and> jm_ok (pmLastUsed st) \<and>
     set (jm_keys (pmPools st)) \<subseteq> set (jm_keys (pmLastUsed st))"

definition cursors_ok :: "pool_state \<Rightarrow> bool" where
  "cursors_ok st \<longleftrightarrow> jm_ok (pmHandles st) \<and> (\<forall>h \<in> set (jm_keys (pmHandles st)). h < pmNext st) \<and>
     (\<forall>connectionId. map_of (pmCursors st) connectionId =
        (if live st connectionId = 0 then None else Some (live st connectionId)))"

lemmas pm_ops = touch_def resolve_def tunnel_up_def tunnel_abort_def create_failed_def closeTunnel_def
  evictPool_def evict_finish_def cursor_opened_def cursor_fetch_def cursor_close_def releaseAccounting_def

lemma cursor_count_live: "cursors_ok st \<Longrightarrow> cursor_count st connectionId = live st connectionId"
  by (simp add: cursors_ok_def cursor_count_def)

lemma maps_okI:
  "jm_ok (pmPools st) \<Longrightarrow> jm_ok (pmLastUsed st) \<Longrightarrow>
   (\<And>k. k \<in> set (jm_keys (pmPools st)) \<Longrightarrow> k \<in> set (jm_keys (pmLastUsed st))) \<Longrightarrow> maps_ok st"
  by (auto simp: maps_ok_def)

lemma maps_ok_frame:
  "pmPools st' = pmPools st \<Longrightarrow> pmLastUsed st' = pmLastUsed st \<Longrightarrow> maps_ok st \<Longrightarrow> maps_ok st'"
  by (simp add: maps_ok_def)

lemma maps_ok_touch: "maps_ok st \<Longrightarrow> maps_ok (touch connectionId now st)"
  unfolding maps_ok_def touch_def by (simp add: jm.ok_set subset_insertI2)

lemma maps_ok_resolve: "maps_ok st \<Longrightarrow> maps_ok (snd (resolve connectionId engine now st))"
  unfolding resolve_def Let_def
  by (auto simp: touch_def maps_ok_def jm.ok_set split: option.split)

lemma maps_ok_remove:
  "maps_ok st \<Longrightarrow> pmPools st' = jm_del k (pmPools st) \<Longrightarrow> pmLastUsed st' = jm_del k (pmLastUsed st) \<Longrightarrow> maps_ok st'"
  by (auto simp: maps_ok_def jm.ok_del)

lemma closeTunnel_frame [simp]:
  "pmPools (closeTunnel k st) = pmPools st" "pmLastUsed (closeTunnel k st) = pmLastUsed st"
  "pmCursors (closeTunnel k st) = pmCursors st" "pmHandles (closeTunnel k st) = pmHandles st"
  "pmNext (closeTunnel k st) = pmNext st" "pmEngine (closeTunnel k st) = pmEngine st"
  by (simp_all add: closeTunnel_def split: option.split)

lemma maps_ok_evict: "maps_ok st \<Longrightarrow> maps_ok (evictPool connectionId st)"
  by (cases "map_of (pmPools st) connectionId")
     (auto simp: evictPool_def intro: maps_ok_frame maps_ok_remove)

lemma evictPool_frame [simp]:
  "pmCursors (evictPool k st) = pmCursors st" "pmHandles (evictPool k st) = pmHandles st"
  "pmNext (evictPool k st) = pmNext st"
  by (simp_all add: evictPool_def split: option.split)

lemma cursors_ok_frame:
  "cursors_ok st \<Longrightarrow> pmCursors st' = pmCursors st \<Longrightarrow> pmHandles st' = pmHandles st \<Longrightarrow> pmNext st \<le> pmNext st' \<Longrightarrow>
   cursors_ok st'"
  unfolding cursors_ok_def live_def by auto

lemma live_release:
  "jm_ok m \<Longrightarrow> map_of m h = Some (c, False) \<Longrightarrow>
   length (filter (live_handle c') m) =
     length (filter (live_handle c') (jm_set h (c, True) m)) + (if c' = c then 1 else 0)"
  by (induction m) (auto simp: jm_ok_def live_handle_def)

lemma cursors_ok_opened:
  assumes "cursors_ok st"
  shows "cursors_ok (cursor_opened connectionId st)"
proof -
  have "pmNext st \<notin> set (jm_keys (pmHandles st))"
    using assms unfolding cursors_ok_def by blast
  then have fresh: "pmNext st \<notin> fst ` set (pmHandles st)"
    by (simp add: jm_keys_def)
  have count: "live (cursor_opened connectionId st) k = live st k + (if k = connectionId then 1 else 0)" for k
    by (simp add: live_def cursor_opened_def live_handle_def)
  have keys: "set (jm_keys (pmHandles (cursor_opened connectionId st))) =
      insert (pmNext st) (set (jm_keys (pmHandles st)))"
    by (simp add: jm_keys_def cursor_opened_def)
  show ?thesis
    unfolding cursors_ok_def
  proof (intro conjI allI)
    show "jm_ok (pmHandles (cursor_opened connectionId st))"
      using assms fresh by (simp add: cursors_ok_def jm_ok_def cursor_opened_def)
    show "\<forall>h \<in> set (jm_keys (pmHandles (cursor_opened connectionId st))). h < pmNext (cursor_opened connectionId st)"
      unfolding keys using assms by (auto simp: cursors_ok_def cursor_opened_def)
    fix k
    show "map_of (pmCursors (cursor_opened connectionId st)) k =
        (if live (cursor_opened connectionId st) k = 0 then None else Some (live (cursor_opened connectionId st) k))"
      unfolding count using assms
      by (simp add: cursor_opened_def jm.get_set cursor_count_live) (simp add: cursors_ok_def)
  qed
qed

lemma release_cursors:
  "map_of (pmCursors st) c = Some (Suc n) \<Longrightarrow>
   pmCursors (releaseAccounting c st) = (if n = 0 then jm_del c (pmCursors st) else jm_set c n (pmCursors st))"
  by (simp add: releaseAccounting_def Let_def)

lemma release_frame [simp]:
  "pmHandles (releaseAccounting c st) = pmHandles st" "pmNext (releaseAccounting c st) = pmNext st"
  "pmPools (releaseAccounting c st) = pmPools st" "pmLastUsed (releaseAccounting c st) = pmLastUsed st"
  by (simp_all add: releaseAccounting_def Let_def)

lemma cursors_ok_close:
  assumes "cursors_ok st"
  shows "cursors_ok (cursor_close h st)"
proof (cases "\<exists>c. map_of (pmHandles st) h = Some (c, False)")
  case False
  then have "cursor_close h st = st"
    by (auto simp: cursor_close_def split: option.split prod.split)
  with assms show ?thesis by simp
next
  case True
  then obtain c where c: "map_of (pmHandles st) h = Some (c, False)" by blast
  let ?st = "cursor_close h st"
  have ok: "jm_ok (pmHandles st)" using assms by (simp add: cursors_ok_def)
  have handles: "pmHandles ?st = jm_set h (c, True) (pmHandles st)" and nxt: "pmNext ?st = pmNext st"
    using c by (simp_all add: cursor_close_def)
  have count: "live st k = live ?st k + (if k = c then 1 else 0)" for k
    unfolding live_def handles by (rule live_release [OF ok c])
  have cur: "map_of (pmCursors st) c = Some (Suc (live ?st c))"
    using assms count [of c] by (simp add: cursors_ok_def)
  have cursors: "pmCursors ?st =
      (if live ?st c = 0 then jm_del c (pmCursors st) else jm_set c (live ?st c) (pmCursors st))"
    using c release_cursors [of "st\<lparr>pmHandles := jm_set h (c, True) (pmHandles st)\<rparr>" c "live ?st c"] cur
    by (simp add: cursor_close_def)
  have "h \<in> set (jm_keys (pmHandles st))" using c by (simp add: jm.keys_get)
  then show ?thesis
    unfolding cursors_ok_def handles nxt
    using assms ok count by (auto simp: cursors_ok_def jm.ok_set cursors jm.get_set jm.get_del)
qed

subsection \<open>What eviction does to the maps\<close>

lemma map_of_filter_key: "map_of (filter (\<lambda>e. P (fst e)) m) k = (if P k then map_of m k else None)"
  by (induction m) auto

lemma evictPool_pools [simp]: "pmPools (evictPool k st) = jm_del k (pmPools st)"
  by (simp add: evictPool_def jm_del_absent split: option.split)

lemma evictPool_lastUsed:
  "pmLastUsed (evictPool k st) =
     (if k \<in> set (jm_keys (pmPools st)) then jm_del k (pmLastUsed st) else pmLastUsed st)"
  by (simp add: evictPool_def jm.keys_get split: option.split)

lemma evictPool_tunnels: "k' \<noteq> k \<Longrightarrow> map_of (pmTunnels (evictPool k st)) k' = map_of (pmTunnels st) k'"
  by (simp add: evictPool_def closeTunnel_def jm.get_del split: option.split)

definition evict_all :: "string list \<Rightarrow> pool_state \<Rightarrow> pool_state" where
  "evict_all ids st = fold evictPool ids st"

lemma evict_all_simps [simp]: "evict_all [] st = st" "evict_all (k # ks) st = evict_all ks (evictPool k st)"
  by (simp_all add: evict_all_def)

lemma evict_all_frame [simp]:
  "pmCursors (evict_all ids st) = pmCursors st" "pmHandles (evict_all ids st) = pmHandles st"
  "pmNext (evict_all ids st) = pmNext st"
  by (induction ids arbitrary: st) simp_all

lemma evict_all_pools: "pmPools (evict_all ids st) = filter (\<lambda>e. fst e \<notin> set ids) (pmPools st)"
proof (induction ids arbitrary: st)
  case Nil
  then show ?case by simp
next
  case (Cons k ks)
  have "pmPools (evict_all (k # ks) st) = filter (\<lambda>e. fst e \<notin> set ks) (filter (\<lambda>e. fst e \<noteq> k) (pmPools st))"
    using Cons.IH [of "evictPool k st"] by (simp add: jm_del_def)
  also have "\<dots> = filter (\<lambda>e. fst e \<notin> set (k # ks)) (pmPools st)"
    unfolding filter_filter by (rule filter_cong) auto
  finally show ?case .
qed

lemma evict_all_lastUsed:
  "pmLastUsed (evict_all ids st) =
     filter (\<lambda>e. \<not> (fst e \<in> set ids \<and> fst e \<in> set (jm_keys (pmPools st)))) (pmLastUsed st)"
proof (induction ids arbitrary: st)
  case Nil
  then show ?case by simp
next
  case (Cons k ks)
  have "pmLastUsed (evict_all (k # ks) st) =
      filter (\<lambda>e. \<not> (fst e \<in> set ks \<and> fst e \<in> set (jm_keys (jm_del k (pmPools st))))) (pmLastUsed (evictPool k st))"
    using Cons.IH [of "evictPool k st"] by simp
  also have "\<dots> = filter (\<lambda>e. \<not> (fst e \<in> set (k # ks) \<and> fst e \<in> set (jm_keys (pmPools st)))) (pmLastUsed st)"
    unfolding evictPool_lastUsed jm.keys_del
    by (cases "k \<in> set (jm_keys (pmPools st))") (auto simp: jm_del_def intro!: filter_cong)
  finally show ?case .
qed

lemma evict_all_lookup:
  "map_of (pmPools (evict_all ids st)) k = (if k \<in> set ids then None else map_of (pmPools st) k)"
  "map_of (pmLastUsed (evict_all ids st)) k =
     (if k \<in> set ids \<and> k \<in> set (jm_keys (pmPools st)) then None else map_of (pmLastUsed st) k)"
  unfolding evict_all_pools evict_all_lastUsed
  using map_of_filter_key [of "\<lambda>k. k \<notin> set ids" "pmPools st" k]
    map_of_filter_key [of "\<lambda>k. \<not> (k \<in> set ids \<and> k \<in> set (jm_keys (pmPools st)))" "pmLastUsed st" k]
  by simp_all

lemma evict_all_tunnels: "k \<notin> set ids \<Longrightarrow> map_of (pmTunnels (evict_all ids st)) k = map_of (pmTunnels st) k"
  by (induction ids arbitrary: st) (simp_all add: evictPool_tunnels)

lemma hasActiveCursors_frame: "pmCursors st' = pmCursors st \<Longrightarrow> hasActiveCursors st' = hasActiveCursors st"
  by (simp add: hasActiveCursors_def cursor_count_def fun_eq_iff)

lemma evict_all_active [simp]: "hasActiveCursors (evict_all ids st) = hasActiveCursors st"
  by (rule hasActiveCursors_frame) simp

definition idle_ids :: "pool_config \<Rightarrow> int \<Rightarrow> pool_state \<Rightarrow> string list" where
  "idle_ids cfg now st =
     map fst (filter (\<lambda>e. now - snd e > poolIdleMs cfg \<and> \<not> hasActiveCursors st (fst e)) (by_age (pmLastUsed st)))"

lemma sweep_idle_evicts: "sweep_idle cfg now st = evict_all (idle_ids cfg now st) st"
proof -
  have "fold (\<lambda>(c, l) s. if now - l > poolIdleMs cfg \<and> \<not> hasActiveCursors s c then evictPool c s else s) es s =
      evict_all (map fst (filter (\<lambda>e. now - snd e > poolIdleMs cfg \<and> \<not> hasActiveCursors st (fst e)) es)) s"
    if "pmCursors s = pmCursors st" for es s
    using that
  proof (induction es arbitrary: s)
    case Nil
    then show ?case by simp
  next
    case (Cons e es)
    then show ?case by (cases e) (simp add: hasActiveCursors_frame [OF Cons.prems])
  qed
  then show ?thesis by (simp add: sweep_idle_def idle_ids_def)
qed

lemma sweep_lru_evicts:
  "sweep_lru cfg st =
     (if length (evictable st) > poolMax cfg then evict_all (map fst (lru_victims cfg st)) st else st)"
  unfolding sweep_lru_def evict_all_def fold_map comp_def by (simp add: case_prod_unfold)

definition sweep_ids :: "pool_config \<Rightarrow> int \<Rightarrow> pool_state \<Rightarrow> string list" where
  "sweep_ids cfg now st =
     idle_ids cfg now st @
     (let st1 = sweep_idle cfg now st
      in if length (evictable st1) > poolMax cfg then map fst (lru_victims cfg st1) else [])"

lemma sweep_evicts: "sweep cfg now st = evict_all (sweep_ids cfg now st) st"
  by (simp add: sweep_def sweep_ids_def sweep_lru_evicts Let_def sweep_idle_evicts evict_all_def)

lemma sweep_ids_inactive: "k \<in> set (sweep_ids cfg now st) \<Longrightarrow> \<not> hasActiveCursors st k"
  unfolding sweep_ids_def Let_def sweep_idle_evicts
  by (auto simp: idle_ids_def lru_victims_def by_age_def split: if_splits dest!: in_set_takeD)

lemma maps_ok_evict_all: "maps_ok st \<Longrightarrow> maps_ok (evict_all ids st)"
  by (induction ids arbitrary: st) (simp_all add: maps_ok_evict)

lemma maps_ok_sweep: "maps_ok st \<Longrightarrow> maps_ok (sweep cfg now st)"
  by (simp add: sweep_evicts maps_ok_evict_all)

lemma cursors_ok_sweep: "cursors_ok st \<Longrightarrow> cursors_ok (sweep cfg now st)"
  by (rule cursors_ok_frame [of st]) (simp_all add: sweep_evicts)

lemma pm_step_ok: "pm_step cfg st st' \<Longrightarrow> maps_ok st \<and> cursors_ok st \<Longrightarrow> maps_ok st' \<and> cursors_ok st'"
proof (induction rule: pm_step.induct)
  case (step_resolve st connectionId engine now)
  have "cursors_ok (snd (resolve connectionId engine now st))"
    by (rule cursors_ok_frame [of st])
      (use step_resolve in \<open>auto simp: resolve_def touch_def Let_def split: option.split\<close>)
  with step_resolve show ?case by (simp add: maps_ok_resolve)
next
  case (step_touch st connectionId now)
  then show ?case by (simp add: maps_ok_touch) (auto simp: touch_def intro: cursors_ok_frame)
next
  case (step_engine st connectionId engine)
  then show ?case by (auto intro: maps_ok_frame cursors_ok_frame)
next
  case (step_tunnel_up st connectionId)
  then show ?case by (auto simp: tunnel_up_def intro: maps_ok_frame cursors_ok_frame)
next
  case (step_tunnel_abort st connectionId handle)
  then show ?case by (auto simp: tunnel_abort_def intro: maps_ok_frame cursors_ok_frame)
next
  case (step_create_failed st connectionId)
  then show ?case by (auto simp: create_failed_def intro: maps_ok_remove cursors_ok_frame)
next
  case (step_evict st connectionId)
  then show ?case by (auto intro: maps_ok_evict cursors_ok_frame)
next
  case (step_evict_finish connectionId cached st)
  then show ?case by (auto simp: evict_finish_def intro: maps_ok_frame cursors_ok_frame)
next
  case (step_cursor_opened st connectionId)
  then show ?case by (auto simp: cursors_ok_opened) (auto simp: cursor_opened_def intro: maps_ok_frame)
next
  case (step_cursor_fetch st h now)
  then show ?case
    by (auto simp: cursor_fetch_def maps_ok_touch split: option.split) (auto simp: touch_def intro: cursors_ok_frame)
next
  case (step_cursor_close st h)
  have "maps_ok (cursor_close h st)"
    by (rule maps_ok_frame [of _ st]) (use step_cursor_close in \<open>auto simp: cursor_close_def split: option.split prod.split\<close>)
  with step_cursor_close show ?case by (simp add: cursors_ok_close)
next
  case (step_sweep st now)
  then show ?case by (simp add: maps_ok_sweep cursors_ok_sweep)
qed

lemma pm_reachable_ok: "pm_reachable cfg st \<Longrightarrow> maps_ok st \<and> cursors_ok st"
proof (induction rule: pm_reachable.induct)
  case reach_init
  then show ?case by (simp add: maps_ok_def cursors_ok_def pm_init_def jm_ok_def jm_keys_def live_def)
next
  case (reach_step st st')
  then show ?case using pm_step_ok by blast
qed

subsection \<open>Properties\<close>

definition stale :: "pool_state \<Rightarrow> string list" where
  "stale st = filter (\<lambda>k. k \<notin> set (jm_keys (pmPools st))) (jm_keys (pmLastUsed st))"

lemma evict_all_keys: "set (jm_keys (pmPools (evict_all ids st))) = set (jm_keys (pmPools st)) - set ids"
  by (auto simp: evict_all_pools jm_keys_def)

lemma stale_evict_all: "stale (evict_all ids st) = stale st"
  unfolding stale_def evict_all_keys
  by (simp add: evict_all_lastUsed jm_keys_def filter_map comp_def) (auto intro!: arg_cong [of _ _ "map fst"] filter_cong)

lemma evictable_evict_all: "evictable (evict_all ids st) = filter (\<lambda>k. k \<notin> set ids) (evictable st)"
  unfolding evictable_def
  by (simp add: evict_all_pools jm_keys_def filter_map comp_def) (auto intro!: arg_cong [of _ _ "map fst"] filter_cong)

lemma distinct_evictable: "maps_ok st \<Longrightarrow> distinct (evictable st)"
  by (simp add: evictable_def maps_ok_def jm.distinct_keys)

lemma length_evictable_sweep_lru:
  assumes "maps_ok st"
  shows "length (evictable (sweep_lru cfg st)) \<le> poolMax cfg + length (stale st)"
proof (cases "length (evictable st) > poolMax cfg")
  case False
  then show ?thesis by (simp add: sweep_lru_evicts)
next
  case True
  define W where "W = map fst (by_age (filter (\<lambda>e. \<not> hasActiveCursors st (fst e)) (pmLastUsed st)))"
  define V where "V = map fst (lru_victims cfg st)"
  have V: "V = take (length (evictable st) - poolMax cfg) W"
    by (simp add: V_def W_def lru_victims_def take_map)
  have "distinct (map fst (filter (\<lambda>e. \<not> hasActiveCursors st (fst e)) (pmLastUsed st)))"
    using assms by (simp add: maps_ok_def jm_ok_def distinct_map_filter)
  then have dW: "distinct W"
    by (simp add: W_def by_age_def distinct_map)
  have setW: "set W = {k \<in> set (jm_keys (pmLastUsed st)). \<not> hasActiveCursors st k}"
    by (auto simp: W_def by_age_def jm_keys_def)
  then have sub: "set (evictable st) \<subseteq> set W"
    using assms by (auto simp: evictable_def maps_ok_def)
  then have "length (evictable st) \<le> length W"
    using card_mono [OF _ sub] dW distinct_evictable [OF assms] by (simp add: distinct_card)
  then have lenV: "card (set V) = length (evictable st) - poolMax cfg"
    using dW by (simp add: V distinct_card)
  have "set V - set (evictable st) \<subseteq> set (stale st)"
    using set_take_subset [of _ W] setW by (auto simp: V stale_def evictable_def)
  then have "card (set V - set (evictable st)) \<le> card (set (stale st))"
    by (intro card_mono) simp_all
  then have few: "card (set V - set (evictable st)) \<le> length (stale st)"
    using card_length [of "stale st"] by linarith
  have split: "card (set V) = card (set V - set (evictable st)) + card (set V \<inter> set (evictable st))"
    using card_Un_disjoint [of "set V - set (evictable st)" "set V \<inter> set (evictable st)"]
    by (simp add: Un_Diff_Int inf_commute Diff_Int_distrib2 disjoint_iff)
  have "length (evictable (sweep_lru cfg st)) = card (set (evictable st) - set V)"
    using True distinct_evictable [OF assms]
    by (simp add: sweep_lru_evicts evictable_evict_all V_def [symmetric] distinct_card [symmetric] set_diff_eq)
  also have "\<dots> = length (evictable st) - card (set V \<inter> set (evictable st))"
    using distinct_evictable [OF assms] by (simp add: card_Diff_subset_Int distinct_card inf_commute)
  finally show ?thesis using few split lenV True by linarith
qed

text \<open>
  C18. The cursor accounting is exact in every interleaving: a connection counts as having active cursors
  exactly when a cursor opened on it has not been closed (closing twice counts once), the count stored for a
  connection is the number of those cursors and is stored only when it is positive, and every pool has
  a last-used time, so the sweep sees all of them.
\<close>

theorem cursor_accounting:
  assumes "pm_reachable cfg st"
  shows "(hasActiveCursors st connectionId \<longleftrightarrow> (\<exists>h. (h, (connectionId, False)) \<in> set (pmHandles st)))
    \<and> map_of (pmCursors st) connectionId =
        (let open_cursors = length (filter (\<lambda>(h, c, released). c = connectionId \<and> \<not> released) (pmHandles st))
         in if open_cursors = 0 then None else Some open_cursors)
    \<and> set (jm_keys (pmPools st)) \<subseteq> set (jm_keys (pmLastUsed st))"
proof -
  have ok: "cursors_ok st" "maps_ok st" using pm_reachable_ok [OF assms] by simp_all
  have "live st connectionId > 0 \<longleftrightarrow> (\<exists>e \<in> set (pmHandles st). live_handle connectionId e)"
    unfolding live_def length_greater_0_conv filter_empty_conv by blast
  also have "\<dots> \<longleftrightarrow> (\<exists>h. (h, (connectionId, False)) \<in> set (pmHandles st))"
    by (force simp: live_handle_def)
  finally have active: "live st connectionId > 0 \<longleftrightarrow> (\<exists>h. (h, (connectionId, False)) \<in> set (pmHandles st))" .
  have "live st connectionId = length (filter (\<lambda>(h, c, released). c = connectionId \<and> \<not> released) (pmHandles st))"
    unfolding live_def by (rule arg_cong [where f = length], rule filter_cong) (auto simp: live_handle_def)
  moreover have "map_of (pmCursors st) connectionId = (if live st connectionId = 0 then None else Some (live st connectionId))"
    using ok(1) by (simp add: cursors_ok_def)
  ultimately have "map_of (pmCursors st) connectionId =
      (let open_cursors = length (filter (\<lambda>(h, c, released). c = connectionId \<and> \<not> released) (pmHandles st))
       in if open_cursors = 0 then None else Some open_cursors)"
    by (simp add: Let_def)
  then show ?thesis
    using ok(2) active cursor_count_live [OF ok(1)] by (simp only: hasActiveCursors_def maps_ok_def simp_thms)
qed

text \<open>
  The sweep never takes the pool from under an open cursor: in every reachable state, a connection
  with a cursor that is not closed keeps its pool, its last-used time and its tunnel.
\<close>

theorem sweep_spares_cursors:
  assumes "pm_reachable cfg st" "(h, (connectionId, False)) \<in> set (pmHandles st)"
  shows "map_of (pmPools (sweep cfg now st)) connectionId = map_of (pmPools st) connectionId
    \<and> map_of (pmLastUsed (sweep cfg now st)) connectionId = map_of (pmLastUsed st) connectionId
    \<and> map_of (pmTunnels (sweep cfg now st)) connectionId = map_of (pmTunnels st) connectionId"
proof -
  have "live_handle connectionId (h, (connectionId, False))" by (simp add: live_handle_def)
  then have "live st connectionId > 0"
    unfolding live_def length_greater_0_conv filter_empty_conv using assms(2) by blast
  then have "hasActiveCursors st connectionId"
    using pm_reachable_ok [OF assms(1)] by (simp add: hasActiveCursors_def cursor_count_live)
  then have "connectionId \<notin> set (sweep_ids cfg now st)"
    using sweep_ids_inactive by blast
  then show ?thesis
    unfolding sweep_evicts
    by (simp add: evict_all_tunnels evict_all_lookup)
qed

lemma sweep_lru_frame: "pmCursors (sweep_lru cfg st) = pmCursors st"
  by (simp add: sweep_lru_evicts)

lemma idle_gone:
  assumes "maps_ok st" "k \<in> set (evictable (sweep cfg now st))"
    "map_of (pmLastUsed (sweep cfg now st)) k = Some l"
  shows "now - l \<le> poolIdleMs cfg"
proof (rule ccontr)
  assume idle: "\<not> now - l \<le> poolIdleMs cfg"
  have "k \<notin> set (sweep_ids cfg now st)" and inactive: "\<not> hasActiveCursors st k"
    using assms(2) by (simp_all add: sweep_evicts evictable_evict_all) (simp_all add: evictable_def)
  then have "map_of (pmLastUsed st) k = Some l"
    using assms(3) by (simp add: sweep_evicts evict_all_lookup)
  then have "(k, l) \<in> set (pmLastUsed st)" by (rule map_of_SomeD)
  then have "k \<in> set (idle_ids cfg now st)"
    using idle inactive by (force simp: idle_ids_def by_age_def)
  with \<open>k \<notin> set (sweep_ids cfg now st)\<close> show False by (simp add: sweep_ids_def)
qed

text \<open>
  C19. The sweep bounds the pools: after it, in every reachable state, no pool without a cursor has been
  idle for longer than the limit, and their number is at most the cap, plus one for each last-used entry
  that has no pool any more.
\<close>

theorem sweep_bounds:
  assumes "pm_reachable cfg st"
  shows "length (evictable (sweep cfg now st)) \<le> poolMax cfg + length (stale st)
    \<and> (\<forall>k \<in> set (evictable (sweep cfg now st)).
         \<exists>l. map_of (pmLastUsed (sweep cfg now st)) k = Some l \<and> now - l \<le> poolIdleMs cfg)"
proof
  have ok: "maps_ok st" using pm_reachable_ok [OF assms] by simp
  have ok1: "maps_ok (sweep_idle cfg now st)"
    using ok by (simp add: sweep_idle_evicts maps_ok_evict_all)
  have "stale (sweep_idle cfg now st) = stale st"
    by (simp add: sweep_idle_evicts stale_evict_all)
  with length_evictable_sweep_lru [OF ok1]
  show "length (evictable (sweep cfg now st)) \<le> poolMax cfg + length (stale st)"
    unfolding sweep_def by metis
  show "\<forall>k \<in> set (evictable (sweep cfg now st)).
         \<exists>l. map_of (pmLastUsed (sweep cfg now st)) k = Some l \<and> now - l \<le> poolIdleMs cfg"
  proof
    fix k
    assume k: "k \<in> set (evictable (sweep cfg now st))"
    then have "k \<in> set (jm_keys (pmLastUsed (sweep cfg now st)))"
      using maps_ok_sweep [OF ok] by (auto simp: evictable_def maps_ok_def)
    then obtain l where l: "map_of (pmLastUsed (sweep cfg now st)) k = Some l"
      by (auto simp: jm.keys_get)
    with idle_gone [OF ok k l]
    show "\<exists>l. map_of (pmLastUsed (sweep cfg now st)) k = Some l \<and> now - l \<le> poolIdleMs cfg" by blast
  qed
qed

lemma sorted_take_before:
  assumes "sorted_wrt R xs" "a \<in> set (take n xs)" "b \<in> set xs" "b \<notin> set (take n xs)"
  shows "R a b"
proof -
  have "b \<in> set (drop n xs)" using assms(3,4) by (metis Un_iff append_take_drop_id set_append)
  moreover have "sorted_wrt R (take n xs @ drop n xs)" using assms(1) by simp
  ultimately show ?thesis using assms(2) by (auto simp: sorted_wrt_append simp del: append_take_drop_id)
qed

text \<open>
  The cap evicts the least recently used pools: a pool the cap takes was last used no later than any
  pool without a cursor that it keeps.
\<close>

theorem sweep_lru_order:
  assumes "pm_reachable cfg st"
    "a \<in> set (jm_keys (pmPools st))" "a \<notin> set (jm_keys (pmPools (sweep_lru cfg st)))"
    "b \<in> set (evictable (sweep_lru cfg st))"
    "map_of (pmLastUsed st) a = Some la" "map_of (pmLastUsed st) b = Some lb"
  shows "la \<le> lb"
proof -
  have ok: "maps_ok st" using pm_reachable_ok [OF assms(1)] by simp
  let ?xs = "by_age (filter (\<lambda>e. \<not> hasActiveCursors st (fst e)) (pmLastUsed st))"
  let ?n = "length (evictable st) - poolMax cfg"
  have more: "length (evictable st) > poolMax cfg"
    using assms(2,3) by (auto simp: sweep_lru_evicts split: if_splits)
  have "a \<in> fst ` set (lru_victims cfg st)"
    using assms(2,3) more by (simp add: sweep_lru_evicts evict_all_keys)
  then obtain l where "(a, l) \<in> set (lru_victims cfg st)" by force
  then have va: "(a, l) \<in> set (take ?n ?xs)" by (simp add: lru_victims_def)
  then have "(a, l) \<in> set (pmLastUsed st)" by (auto simp: by_age_def dest!: in_set_takeD)
  then have l: "l = la"
    using ok assms(5) by (auto simp: maps_ok_def jm_ok_def)
  have b: "b \<notin> fst ` set (lru_victims cfg st)" "\<not> hasActiveCursors st b"
    using assms(4) more by (simp_all add: sweep_lru_evicts evictable_evict_all) (simp_all add: evictable_def)
  have "(b, lb) \<in> set ?xs"
    using map_of_SomeD [OF assms(6)] b(2) by (simp add: by_age_def)
  moreover have "(b, lb) \<notin> set (take ?n ?xs)"
    using b(1) by (force simp: lru_victims_def)
  moreover have "sorted_wrt (\<lambda>x y. snd x \<le> snd y) ?xs"
    unfolding by_age_def using sorted_sort_key [of snd] by (simp add: sorted_map)
  ultimately show ?thesis using sorted_take_before [OF _ va] l by fastforce
qed

subsection \<open>Two runs that go wrong\<close>

text \<open>
  A cursor that outlives its pool writes a last-used time for a connection that has no pool. Eviction
  never removes such an entry (\<open>evictPool\<close> returns early when there is no pool), so it stays the oldest
  one, the cap spends its evictions on it, and more pools than the cap stay open however often the sweep
  runs.
\<close>

definition stale_run :: pool_state where
  "stale_run =
     snd (resolve ''c'' ''postgres'' 3 (snd (resolve ''b'' ''postgres'' 2
       (cursor_close 1 (cursor_fetch 1 1 (evictPool ''a''
         (cursor_opened ''a'' (snd (resolve ''a'' ''postgres'' 0 pm_init)))))))))"

lemmas pm_eval = pm_init_def pm_ops Let_def jm_del_def cursor_count_def hasActiveCursors_def

lemma stale_run_reachable: "pm_reachable cfg stale_run"
  unfolding stale_run_def
  by (intro reach_step [OF _ step_resolve] reach_step [OF _ step_cursor_close] reach_step [OF _ step_cursor_fetch]
      reach_step [OF _ step_evict] reach_step [OF _ step_cursor_opened] reach_init)

lemma stale_run_eval:
  "pmPools stale_run = [(''b'', 2), (''c'', 3)]" "pmLastUsed stale_run = [(''a'', 1), (''b'', 2), (''c'', 3)]"
  "pmCursors stale_run = []" "pmTunnels stale_run = []"
  by (simp_all add: stale_run_def pm_eval)

lemma stale_entry_defeats_cap:
  "length (evictable (sweep \<lparr>poolIdleMs = 1000, poolMax = 1\<rparr> 4 stale_run)) = 2"
  "sweep \<lparr>poolIdleMs = 1000, poolMax = 1\<rparr> 4 stale_run = stale_run"
  by (simp_all add: sweep_def sweep_idle_def sweep_lru_def lru_victims_def evictable_def by_age_def
      stale_run_eval evictPool_def closeTunnel_def hasActiveCursors_def cursor_count_def jm_keys_def)

text \<open>
  An eviction that waits for its pool to close does not know of a pool made meanwhile: when it goes on,
  it closes the tunnel of the new pool, and the old tunnel, which the new one replaced in the map, stays
  open for ever.
\<close>

definition race_run :: pool_state where
  "race_run =
     evict_finish ''a'' 0 (tunnel_up ''a'' (snd (resolve ''a'' ''postgres'' 1
       (evictPool ''a'' (tunnel_up ''a'' (snd (resolve ''a'' ''postgres'' 0 pm_init)))))))"

lemma eviction_race_leaks_tunnel:
  "pm_reachable cfg race_run \<and> pmPools race_run = [(''a'', 2)] \<and> pmTunnels race_run = [] \<and> pmOpen race_run = [1]"
proof
  have "(''a'', 0) \<in> set (pmPending (tunnel_up ''a'' (snd (resolve ''a'' ''postgres'' 1
       (evictPool ''a'' (tunnel_up ''a'' (snd (resolve ''a'' ''postgres'' 0 pm_init))))))))"
    by (simp add: pm_eval)
  then show "pm_reachable cfg race_run"
    unfolding race_run_def
    by (intro reach_step [OF _ step_evict_finish] reach_step [OF _ step_tunnel_up] reach_step [OF _ step_resolve]
        reach_step [OF _ step_evict] reach_init)
  show "pmPools race_run = [(''a'', 2)] \<and> pmTunnels race_run = [] \<and> pmOpen race_run = [1]"
    by (simp add: race_run_def pm_eval)
qed

subsection \<open>Witnesses\<close>

definition two_pools :: pool_state where
  "two_pools = cursor_opened ''a'' (snd (resolve ''b'' ''mysql'' 5 (snd (resolve ''a'' ''postgres'' 0 pm_init))))"

lemma two_pools_reachable: "pm_reachable cfg two_pools"
  unfolding two_pools_def
  by (intro reach_step [OF _ step_resolve] reach_step [OF _ step_cursor_opened] reach_init)

lemma two_pools_handle: "(2, (''a'', False)) \<in> set (pmHandles two_pools)"
  by (simp add: two_pools_def pm_eval)

theorem cursor_accounting_witness: "hasActiveCursors two_pools ''a''"
  using cursor_accounting [OF two_pools_reachable [of "\<lparr>poolIdleMs = 1, poolMax = 1\<rparr>"], of "''a''"]
    two_pools_handle by blast

theorem sweep_spares_cursors_witness:
  "map_of (pmPools (sweep \<lparr>poolIdleMs = 1, poolMax = 0\<rparr> 100 two_pools)) ''a'' = map_of (pmPools two_pools) ''a''"
  using sweep_spares_cursors [OF two_pools_reachable two_pools_handle, of "\<lparr>poolIdleMs = 1, poolMax = 0\<rparr>" 100]
  by simp

theorem sweep_bounds_witness:
  "length (evictable (sweep \<lparr>poolIdleMs = 1, poolMax = 0\<rparr> 100 two_pools)) = 0"
  using sweep_bounds [OF two_pools_reachable [of "\<lparr>poolIdleMs = 1, poolMax = 0\<rparr>"],
      where now = 100]
  by (simp add: stale_def two_pools_def pm_eval jm_keys_def)

definition three_pools :: pool_state where
  "three_pools = snd (resolve ''c'' ''mysql'' 7 (snd (resolve ''b'' ''mysql'' 5 (snd (resolve ''a'' ''postgres'' 6 pm_init)))))"

lemma three_pools_reachable: "pm_reachable cfg three_pools"
  unfolding three_pools_def by (intro reach_step [OF _ step_resolve] reach_init)

definition cap_two :: pool_config where
  "cap_two = \<lparr>poolIdleMs = 1, poolMax = 2\<rparr>"

theorem sweep_lru_order_witness:
  "''b'' \<notin> set (jm_keys (pmPools (sweep_lru cap_two three_pools))) \<and> (5::int) \<le> 7"
proof
  show gone: "''b'' \<notin> set (jm_keys (pmPools (sweep_lru cap_two three_pools)))"
    by (simp add: three_pools_def pm_eval sweep_lru_def lru_victims_def evictable_def by_age_def jm_keys_def cap_two_def)
  show "(5::int) \<le> 7"
    by (rule sweep_lru_order [OF three_pools_reachable _ gone, where b = "''c''"])
       (simp_all add: three_pools_def pm_eval sweep_lru_def lru_victims_def evictable_def by_age_def jm_keys_def cap_two_def)
qed

end
